(* ===== verification/Prelude.thy ===== *)
theory Prelude
  imports Main
begin

text \<open>
  Shared vocabulary of the development: instants, the exceptions of the API, JSON values,
  database tables, and the string operations of the code.

  A Prisma table is a list of rows in insertion order. \<open>updateMany\<close>, \<open>findFirst\<close>,
  \<open>count\<close> and \<open>create\<close> are the functions below, one atomic statement each;
  \<open>updateMany\<close> returns the number of matched rows together with the new table, which is
  what every compare-and-set of the code inspects. Instants are milliseconds as unbounded
  integers (the code compares \<open>Date.getTime()\<close> values). Strings are lists of bytes.

  \<open>tables\<close> collects the facts the component proofs need about tables.
\<close>

named_theorems tables \<open>facts on tables, safe as simplification rules\<close>

type_synonym instant = int

datatype http_error =
    BadRequest string
  | Unauthorized string
  | Forbidden string
  | NotFound string
  | Conflict string
  | TooManyRequests string
  | ServerError string

type_synonym 'a outcome = "http_error + 'a"

fun is_conflict :: "http_error \<Rightarrow> bool" where
  "is_conflict (Conflict _) = True"
| "is_conflict _ = False"

definition succeeds :: "'a outcome \<Rightarrow> bool" where
  "succeeds r = (case r of Inl _ \<Rightarrow> False | Inr _ \<Rightarrow> True)"

lemma succeeds_simps [simp]: "succeeds (Inr x)" "\<not> succeeds (Inl e)"
  by (simp_all add: succeeds_def)

lemma succeeds_iff: "succeeds r \<longleftrightarrow> (\<exists>x. r = Inr x)"
  by (cases r) simp_all

section \<open>JSON values\<close>

text \<open>A JSON value; \<open>JFrac\<close> is a number that is not an integer, by its spelling.\<close>

datatype json =
    JNull
  | JBool bool
  | JNum int
  | JFrac string
  | JStr string
  | JArr "json list"
  | JObj "(string \<times> json) list"

fun json_get :: "json \<Rightarrow> string \<Rightarrow> json option" where
  "json_get (JObj fs) k = map_of fs k"
| "json_get _ k = None"

fun json_str :: "string option \<Rightarrow> json" where
  "json_str None = JNull"
| "json_str (Some s) = JStr s"

fun json_num :: "int option \<Rightarrow> json" where
  "json_num None = JNull"
| "json_num (Some n) = JNum n"

lemma json_str_eq [simp]: "json_str a = json_str b \<longleftrightarrow> a = b"
  by (cases a; cases b) simp_all

lemma json_num_eq [simp]: "json_num a = json_num b \<longleftrightarrow> a = b"
  by (cases a; cases b) simp_all

section \<open>Tables\<close>

definition count_where :: "('r \<Rightarrow> bool) \<Rightarrow> 'r list \<Rightarrow> nat" where
  "count_where p t = length (filter p t)"

definition rewrite :: "('r \<Rightarrow> bool) \<Rightarrow> ('r \<Rightarrow> 'r) \<Rightarrow> 'r list \<Rightarrow> 'r list" where
  "rewrite p f t = map (\<lambda>r. if p r then f r else r) t"

definition update_many :: "('r \<Rightarrow> bool) \<Rightarrow> ('r \<Rightarrow> 'r) \<Rightarrow> 'r list \<Rightarrow> nat \<times> 'r list" where
  "update_many p f t = (count_where p t, rewrite p f t)"

definition find_first :: "('r \<Rightarrow> bool) \<Rightarrow> 'r list \<Rightarrow> 'r option" where
  "find_first p t = List.find p t"

definition create :: "'r \<Rightarrow> 'r list \<Rightarrow> 'r list" where
  "create r t = t @ [r]"

definition delete_many :: "('r \<Rightarrow> bool) \<Rightarrow> 'r list \<Rightarrow> 'r list" where
  "delete_many p t = filter (\<lambda>r. \<not> p r) t"

text \<open>\<open>orderBy ... desc\<close>: the newest rows first; among equals the later row first.\<close>

definition newest_first :: "('r \<Rightarrow> instant) \<Rightarrow> 'r list \<Rightarrow> 'r list" where
  "newest_first k t = rev (sort_key k t)"

lemma set_newest_first [simp]: "set (newest_first k t) = set t"
  by (simp add: newest_first_def)

text \<open>A key column is unique when no two rows share its value.\<close>

definition keyed :: "('r \<Rightarrow> 'k) \<Rightarrow> 'r list \<Rightarrow> bool" where
  "keyed k t = distinct (map k t)"

lemma update_many_simps [simp, tables]:
  "fst (update_many p f t) = count_where p t"
  "snd (update_many p f t) = rewrite p f t"
  by (simp_all add: update_many_def)

lemma rewrite_Nil [simp]: "rewrite p f [] = []"
  by (simp add: rewrite_def)

lemma rewrite_Cons [simp]: "rewrite p f (r # t) = (if p r then f r else r) # rewrite p f t"
  by (simp add: rewrite_def)

lemma rewrite_append [simp]: "rewrite p f (s @ t) = rewrite p f s @ rewrite p f t"
  by (simp add: rewrite_def)

lemma set_rewrite: "set (rewrite p f t) = (\<lambda>r. if p r then f r else r) ` set t"
  by (simp add: rewrite_def)

lemma in_rewriteE:
  assumes "r' \<in> set (rewrite p f t)"
  obtains r where "r \<in> set t" "p r" "r' = f r" | "r' \<in> set t" "\<not> p r'"
  using assms by (auto simp: set_rewrite split: if_splits)

lemma rewrite_idle: "(\<And>r. r \<in> set t \<Longrightarrow> \<not> p r) \<Longrightarrow> rewrite p f t = t"
  by (induction t) auto

lemma map_rewrite_frame:
  "(\<And>r. p r \<Longrightarrow> k (f r) = k r) \<Longrightarrow> map k (rewrite p f t) = map k t"
  by (induction t) auto

lemma keyed_rewrite:
  "(\<And>r. p r \<Longrightarrow> k (f r) = k r) \<Longrightarrow> keyed k (rewrite p f t) \<longleftrightarrow> keyed k t"
  by (simp add: keyed_def map_rewrite_frame)

lemma count_where_0_iff: "count_where p t = 0 \<longleftrightarrow> (\<forall>r \<in> set t. \<not> p r)"
  by (simp add: count_where_def filter_empty_conv)

lemma count_where_Nil [simp]: "count_where p [] = 0"
  by (simp add: count_where_def)

lemma count_where_Cons [simp]:
  "count_where p (r # t) = (if p r then Suc (count_where p t) else count_where p t)"
  by (simp add: count_where_def)

lemma count_where_append [simp]:
  "count_where p (s @ t) = count_where p s + count_where p t"
  by (simp add: count_where_def)

lemma count_where_rewrite_same:
  "(\<And>r. q r \<Longrightarrow> p (f r) = p r) \<Longrightarrow> count_where p (rewrite q f t) = count_where p t"
  by (induction t) auto

lemma count_where_rewrite_le:
  "(\<And>r. q r \<Longrightarrow> p (f r) \<Longrightarrow> p r) \<Longrightarrow> count_where p (rewrite q f t) \<le> count_where p t"
  by (induction t) auto

lemma find_first_Some: "find_first p t = Some r \<Longrightarrow> r \<in> set t \<and> p r"
  by (auto simp: find_first_def find_Some_iff)

lemma find_first_None: "find_first p t = None \<longleftrightarrow> (\<forall>r \<in> set t. \<not> p r)"
  by (auto simp: find_first_def find_None_iff)

lemma find_first_Nil [simp]: "find_first p [] = None"
  by (simp add: find_first_def)

lemma find_first_Cons [simp]:
  "find_first p (r # t) = (if p r then Some r else find_first p t)"
  by (simp add: find_first_def)

lemma set_create [simp, tables]: "set (create r t) = insert r (set t)"
  by (auto simp: create_def)

lemma keyed_create: "keyed k (create r t) \<longleftrightarrow> keyed k t \<and> k r \<notin> k ` set t"
  by (auto simp: keyed_def create_def)

lemma keyed_unique:
  "keyed k t \<Longrightarrow> r \<in> set t \<Longrightarrow> r' \<in> set t \<Longrightarrow> k r = k r' \<Longrightarrow> r = r'"
  by (auto simp: keyed_def distinct_map dest: inj_onD)

lemma find_first_create:
  "find_first p (create r t) =
     (case find_first p t of Some x \<Rightarrow> Some x | None \<Rightarrow> if p r then Some r else None)"
  by (induction t) (auto simp: create_def)

lemma find_first_deleted: "find_first p (delete_many p t) = None"
  by (simp add: find_first_None delete_many_def)

lemma filter_delete:
  "(\<And>r. r \<in> set t \<Longrightarrow> p r \<Longrightarrow> \<not> q r) \<Longrightarrow> filter q (delete_many p t) = filter q t"
  by (induction t) (auto simp: delete_many_def)

lemma delete_created:
  "(\<And>x. x \<in> set t \<Longrightarrow> \<not> p x) \<Longrightarrow> p r \<Longrightarrow> delete_many p (create r t) = t"
  by (simp add: delete_many_def create_def)

lemma keyed_delete: "keyed k t \<Longrightarrow> keyed k (delete_many p t)"
  by (simp add: keyed_def delete_many_def distinct_map_filter)

lemma filter_map_rewrite:
  "(\<And>r. r \<in> set t \<Longrightarrow> p r \<Longrightarrow> \<not> q r \<and> \<not> q (f r)) \<Longrightarrow>
     map k (filter q (rewrite p f t)) = map k (filter q t)"
  by (induction t) auto

lemma find_first_rewrite:
  "(\<And>r. p r \<Longrightarrow> q (f r) = q r) \<Longrightarrow>
     find_first q (rewrite p f t) = map_option (\<lambda>r. if p r then f r else r) (find_first q t)"
  by (induction t) auto

lemma find_first_key:
  "keyed k t \<Longrightarrow> r \<in> set t \<Longrightarrow> find_first (\<lambda>x. k x = k r) t = Some r"
  by (induction t) (auto simp: keyed_def)

lemma count_where_key_le:
  assumes "keyed k t" and "\<And>r. p r \<Longrightarrow> k r = v"
  shows "count_where p t \<le> 1"
  using assms
proof (induction t)
  case Nil
  then show ?case by simp
next
  case (Cons r t)
  then have IH: "count_where p t \<le> 1" by (simp add: keyed_def)
  show ?case
  proof (cases "p r")
    case True
    with Cons.prems have "\<forall>x \<in> set t. \<not> p x" by (auto simp: keyed_def image_iff)
    with True show ?thesis by (simp add: count_where_0_iff [THEN iffD2])
  next
    case False
    with IH show ?thesis by simp
  qed
qed

lemma count_where_pos_ex: "0 < count_where p t \<longleftrightarrow> (\<exists>r \<in> set t. p r)"
  using count_where_0_iff [of p t] by auto

text \<open>
  A statement on the row with a given primary key: \<open>f\<close> is its condition and its effect.
  The row after the statement is returned when it matched, as a count of one is in the code.
\<close>

definition update_row ::
  "('r \<Rightarrow> 'k) \<Rightarrow> 'k \<Rightarrow> ('r \<Rightarrow> 'r option) \<Rightarrow> 'r list \<Rightarrow> 'r list \<times> 'r option" where
  "update_row k i f t = (case find_first (\<lambda>r. k r = i) t of
      None \<Rightarrow> (t, None)
    | Some r \<Rightarrow> (case f r of
        None \<Rightarrow> (t, None)
      | Some r' \<Rightarrow> (rewrite (\<lambda>x. k x = i) (\<lambda>_. r') t, Some r')))"

definition when_row :: "('r \<Rightarrow> bool) \<Rightarrow> ('r \<Rightarrow> 'r) \<Rightarrow> 'r \<Rightarrow> 'r option" where
  "when_row p f r = (if p r then Some (f r) else None)"

lemma when_row_Some [simp]: "when_row p f r = Some r' \<longleftrightarrow> p r \<and> r' = f r"
  by (auto simp: when_row_def)

lemma when_row_None [simp]: "when_row p f r = None \<longleftrightarrow> \<not> p r"
  by (simp add: when_row_def)

lemma update_row_Some:
  "update_row k i f t = (t', Some r') \<longleftrightarrow>
     (\<exists>r. find_first (\<lambda>x. k x = i) t = Some r \<and> f r = Some r' \<and>
        t' = rewrite (\<lambda>x. k x = i) (\<lambda>_. r') t)"
  by (auto simp: update_row_def split: option.splits)

lemma update_row_None: "update_row k i f t = (t', None) \<Longrightarrow> t' = t"
  by (auto simp: update_row_def split: option.splits)

lemma update_row_refused:
  "(\<And>r. r \<in> set t \<Longrightarrow> k r = i \<Longrightarrow> f r = None) \<Longrightarrow> update_row k i f t = (t, None)"
  by (auto simp: update_row_def split: option.splits dest: find_first_Some)

text \<open>Every row of the new table is an old one, or the effect of the statement on one.\<close>

lemma in_update_rowE:
  assumes "r' \<in> set (fst (update_row k i f t))"
  obtains (old) "r' \<in> set t" | (new) r where "r \<in> set t" "k r = i" "f r = Some r'"
  using assms by (auto simp: update_row_def set_rewrite split: option.splits if_splits dest: find_first_Some)

lemma keyed_update_row:
  assumes "\<And>r r'. f r = Some r' \<Longrightarrow> k r' = k r"
  shows "keyed k (fst (update_row k i f t)) \<longleftrightarrow> keyed k t"
proof (cases "update_row k i f t")
  case (Pair t' o')
  show ?thesis
  proof (cases o')
    case None
    with Pair show ?thesis by (auto dest: update_row_None)
  next
    case (Some r')
    with Pair obtain r where "find_first (\<lambda>x. k x = i) t = Some r" "f r = Some r'"
        and t': "t' = rewrite (\<lambda>x. k x = i) (\<lambda>_. r') t"
      by (auto simp: update_row_Some)
    with assms find_first_Some have "k r' = i" by fastforce
    then have "keyed k (rewrite (\<lambda>x. k x = i) (\<lambda>_. r') t) = keyed k t"
      by (intro keyed_rewrite) simp
    with Pair t' show ?thesis by simp
  qed
qed

text \<open>With unique keys the statement replaces exactly one row.\<close>

lemma update_row_keyed:
  assumes "keyed k t" and "update_row k i f t = (t', Some r')"
  obtains r where "r \<in> set t" "k r = i" "find_first (\<lambda>x. k x = i) t = Some r" "f r = Some r'"
    "t' = rewrite (\<lambda>x. x = r) (\<lambda>_. r') t"
proof -
  from assms(2) obtain r where r: "find_first (\<lambda>x. k x = i) t = Some r" "f r = Some r'"
      and t': "t' = rewrite (\<lambda>x. k x = i) (\<lambda>_. r') t"
    by (auto simp: update_row_Some)
  from find_first_Some [OF r(1)] have in_r: "r \<in> set t" "k r = i" by auto
  have "(k x = i) = (x = r)" if "x \<in> set t" for x
    using keyed_unique [OF assms(1) that in_r(1)] in_r(2) by auto
  then have "t' = rewrite (\<lambda>x. x = r) (\<lambda>_. r') t"
    unfolding t' rewrite_def by (intro map_cong refl) simp
  with that in_r r show ?thesis by blast
qed

lemma update_row_keeps:
  assumes "keyed k t" and "update_row k i f t = (t', o')" and "x \<in> set t"
    and "find_first (\<lambda>x. k x = i) t = Some x \<Longrightarrow> f x = None"
  shows "x \<in> set t'"
proof (cases o')
  case None
  with assms update_row_None show ?thesis by fast
next
  case (Some r')
  from assms(1) assms(2) [unfolded Some] show ?thesis
  proof (cases rule: update_row_keyed)
    case (1 r)
    with assms(3,4) show ?thesis by (cases "x = r") (auto simp: set_rewrite image_iff)
  qed
qed

lemma update_row_count_le:
  assumes "keyed k t" and "update_row k i f t = (t', o')"
    and "\<And>r r'. find_first (\<lambda>x. k x = i) t = Some r \<Longrightarrow> f r = Some r' \<Longrightarrow> p r' \<Longrightarrow> p r"
  shows "count_where p t' \<le> count_where p t"
proof (cases o')
  case None
  with assms update_row_None show ?thesis by fast
next
  case (Some r')
  from assms(1) assms(2) [unfolded Some] show ?thesis
  proof (cases rule: update_row_keyed)
    case (1 r)
    with assms(3) [of r r'] show ?thesis by (auto intro: count_where_rewrite_le)
  qed
qed

text \<open>Looking a row up after the statement.\<close>

lemma find_update_row:
  assumes "\<And>r r'. f r = Some r' \<Longrightarrow> k r' = k r"
  shows "find_first (\<lambda>x. k x = j) (fst (update_row k i f t)) =
    (if j = i then (case find_first (\<lambda>x. k x = i) t of None \<Rightarrow> None
        | Some r \<Rightarrow> Some (case f r of None \<Rightarrow> r | Some r' \<Rightarrow> r'))
     else find_first (\<lambda>x. k x = j) t)"
proof (cases "find_first (\<lambda>x. k x = i) t")
  case None
  then show ?thesis by (simp add: update_row_def)
next
  case (Some r)
  note found = this
  then have kr: "k r = i" using find_first_Some by fast
  show ?thesis
  proof (cases "f r")
    case None
    with Some show ?thesis by (simp add: update_row_def)
  next
    case (Some r')
    with assms kr have "k r' = i" by simp
    then have "find_first (\<lambda>x. k x = j) (rewrite (\<lambda>x. k x = i) (\<lambda>_. r') t) =
        map_option (\<lambda>x. if k x = i then r' else x) (find_first (\<lambda>x. k x = j) t)"
      by (intro find_first_rewrite) auto
    moreover have "map_option (\<lambda>x. if k x = i then r' else x) (find_first (\<lambda>x. k x = j) t) =
        (if j = i then Some r' else find_first (\<lambda>x. k x = j) t)"
      using found by (cases "find_first (\<lambda>x. k x = j) t") (auto dest: find_first_Some)
    ultimately show ?thesis using found Some by (simp add: update_row_def)
  qed
qed

section \<open>Strings\<close>

text \<open>
  The string operations of the source on ASCII text: \<open>toLowerCase\<close>, \<open>includes\<close>,
  \<open>startsWith\<close>, \<open>endsWith\<close>, \<open>slice(0, n)\<close> and the trimming of blanks.
\<close>

definition lower_char :: "char \<Rightarrow> char" where
  "lower_char c = (let n = of_char c :: nat in if 65 \<le> n \<and> n \<le> 90 then char_of (n + 32) else c)"

definition lower :: "string \<Rightarrow> string" where
  "lower s = map lower_char s"

fun starts_with :: "string \<Rightarrow> string \<Rightarrow> bool" where
  "starts_with [] s = True"
| "starts_with (p # ps) [] = False"
| "starts_with (p # ps) (c # s) = (p = c \<and> starts_with ps s)"

fun contains :: "string \<Rightarrow> string \<Rightarrow> bool" where
  "contains p [] = (p = [])"
| "contains p (c # s) = (starts_with p (c # s) \<or> contains p s)"

definition ends_with :: "string \<Rightarrow> string \<Rightarrow> bool" where
  "ends_with p s = starts_with (rev p) (rev s)"

definition is_blank :: "char \<Rightarrow> bool" where
  "is_blank c = (c = CHR '' '' \<or> c \<in> {CHR 0x09, CHR 0x0A, CHR 0x0B, CHR 0x0C, CHR 0x0D})"

definition trim :: "string \<Rightarrow> string" where
  "trim s = rev (dropWhile is_blank (rev (dropWhile is_blank s)))"

definition is_digit :: "char \<Rightarrow> bool" where
  "is_digit c = (let n = of_char c :: nat in 48 \<le> n \<and> n \<le> 57)"

definition is_lower :: "char \<Rightarrow> bool" where
  "is_lower c = (let n = of_char c :: nat in 97 \<le> n \<and> n \<le> 122)"

definition is_upper :: "char \<Rightarrow> bool" where
  "is_upper c = (let n = of_char c :: nat in 65 \<le> n \<and> n \<le> 90)"

text \<open>A truthy string of the source: present and not empty.\<close>

fun truthy :: "string option \<Rightarrow> bool" where
  "truthy None = False"
| "truthy (Some s) = (s \<noteq> [])"

text \<open>Decimal printing of a count, as template literals do it.\<close>

fun nat_str :: "nat \<Rightarrow> string" where
  "nat_str n = (if n < 10 then [char_of (48 + n)] else nat_str (n div 10) @ [char_of (48 + n mod 10)])"

declare nat_str.simps [simp del]

lemma starts_with_iff: "starts_with p s \<longleftrightarrow> (\<exists>r. s = p @ r)"
  by (induction p s rule: starts_with.induct) auto

lemma contains_iff: "contains p s \<longleftrightarrow> (\<exists>u v. s = u @ p @ v)"
proof (induction s)
  case Nil
  then show ?case by auto
next
  case (Cons c s)
  show ?case
  proof
    assume "contains p (c # s)"
    then consider "starts_with p (c # s)" | "contains p s" by auto
    then show "\<exists>u v. c # s = u @ p @ v"
    proof cases
      case 1
      then obtain r where "c # s = [] @ p @ r" by (auto simp: starts_with_iff)
      then show ?thesis by blast
    next
      case 2
      with Cons.IH obtain u v where "s = u @ p @ v" by blast
      then have "c # s = (c # u) @ p @ v" by simp
      then show ?thesis by blast
    qed
  next
    assume "\<exists>u v. c # s = u @ p @ v"
    then obtain u v where uv: "c # s = u @ p @ v" by blast
    show "contains p (c # s)"
    proof (cases u)
      case Nil
      with uv have "starts_with p (c # s)" by (auto simp: starts_with_iff)
      then show ?thesis by simp
    next
      case (Cons a u')
      with uv have "s = u' @ p @ v" by simp
      with Cons.IH show ?thesis by auto
    qed
  qed
qed

lemma contains_append_left: "contains p v \<Longrightarrow> contains p (u @ v)"
  by (auto simp: contains_iff) (metis append.assoc)

lemma contains_append_right: "contains p u \<Longrightarrow> contains p (u @ v)"
  by (auto simp: contains_iff) metis

lemma lower_append [simp]: "lower (u @ v) = lower u @ lower v"
  by (simp add: lower_def)

lemma length_lower [simp]: "length (lower s) = length s"
  by (simp add: lower_def)

text \<open>\<open>split\<close> at a character, and hexadecimal digits.\<close>

fun split_on :: "char \<Rightarrow> string \<Rightarrow> string list" where
  "split_on d [] = [[]]"
| "split_on d (c # s) = (if c = d then [] # split_on d s
     else (case split_on d s of [] \<Rightarrow> [[c]] | l # ls \<Rightarrow> (c # l) # ls))"

text \<open>\<open>Number\<close> of decimal digits.\<close>

definition digits_value :: "string \<Rightarrow> nat" where
  "digits_value ds = fold (\<lambda>c n. 10 * n + (of_char c - 48)) ds 0"

definition is_hex :: "char \<Rightarrow> bool" where
  "is_hex c = (let n = of_char (lower_char c) :: nat in is_digit c \<or> 97 \<le> n \<and> n \<le> 102)"

lemma split_on_none: "d \<notin> set s \<Longrightarrow> split_on d s = [s]"
  by (induction s) auto

lemma split_on_ne: "split_on d s \<noteq> []"
  by (induction s) (auto split: list.splits)

lemma split_on_append: "d \<notin> set s \<Longrightarrow> \<exists>l ls. split_on d (p @ d # s) = l # ls @ [s]"
  by (induction p) (auto simp: split_on_none)

lemma split_on_last: "d \<notin> set s \<Longrightarrow> last (split_on d (p @ d # s)) = s"
  using split_on_append [of d s p] by auto

end
