(* ===== verification/Lease.thy ===== *)
theory Lease
  imports Prelude
begin

text \<open>
  The generation-fenced lease, the interface three parts of the control plane rely on: a
  durable row names its owner, counts ownership changes in a generation and expires. An
  instance claims the row, renews it under the generation it was given, and any other
  statement may clear the owner but never name a new one.

  \<open>generation_lease\<close> states what a claim promises, \<open>fenced_lease\<close> adds renewal. Proved here,
  once for all providers: along any run of claims, renewals and other statements, the
  generation never decreases, no two instances ever own the same generation, and an instance
  that lost the row never renews it again under its old generation.
\<close>

text \<open>The comparisons of a nullable expiry with the clock; both are false for NULL, as in SQL.\<close>

definition expired :: "instant option \<Rightarrow> instant \<Rightarrow> bool" where
  "expired e t = (case e of None \<Rightarrow> False | Some x \<Rightarrow> x \<le> t)"

definition unexpired :: "instant option \<Rightarrow> instant \<Rightarrow> bool" where
  "unexpired e t = (case e of None \<Rightarrow> False | Some x \<Rightarrow> t < x)"

lemma expired_simps [simp]:
  "\<not> expired None t" "expired (Some x) t \<longleftrightarrow> x \<le> t"
  "\<not> unexpired None t" "unexpired (Some x) t \<longleftrightarrow> t < x"
  by (simp_all add: expired_def unexpired_def)

lemma expired_not_unexpired: "expired e t \<Longrightarrow> \<not> unexpired e t"
  by (cases e) auto

locale generation_lease =
  fixes owner :: "'r \<Rightarrow> 'i option"
    and gen :: "'r \<Rightarrow> nat"
    and claim :: "'i \<Rightarrow> instant \<Rightarrow> 'r \<Rightarrow> 'r option"
    and other :: "'r \<Rightarrow> 'r \<Rightarrow> bool"
  assumes claim_owner: "claim i t r = Some r' \<Longrightarrow> owner r' = Some i"
    and claim_mono: "claim i t r = Some r' \<Longrightarrow> gen r \<le> gen r'"
    and claim_strict: "claim i t r = Some r' \<Longrightarrow> owner r \<noteq> Some i \<Longrightarrow> gen r < gen r'"
    and other_frame: "other r r' \<Longrightarrow> gen r' = gen r \<and> (owner r' = owner r \<or> owner r' = None)"
begin

inductive lease_step :: "'r \<Rightarrow> 'r \<Rightarrow> bool" where
  claimed: "claim i t r = Some r' \<Longrightarrow> lease_step r r'"
| moved: "other r r' \<Longrightarrow> lease_step r r'"

inductive lease_run :: "'r \<Rightarrow> 'r \<Rightarrow> bool" where
  start: "lease_run r r"
| more: "lease_run r r' \<Longrightarrow> lease_step r' r'' \<Longrightarrow> lease_run r r''"

lemma lease_run_trans: "lease_run r' r'' \<Longrightarrow> lease_run r r' \<Longrightarrow> lease_run r r''"
  by (induction rule: lease_run.induct) (auto intro: lease_run.intros)

lemma step_gen_mono: "lease_step r r' \<Longrightarrow> gen r \<le> gen r'"
  by (induction rule: lease_step.induct) (auto dest: claim_mono other_frame)

lemma run_gen_mono: "lease_run r r' \<Longrightarrow> gen r \<le> gen r'"
  by (induction rule: lease_run.induct) (auto dest: step_gen_mono intro: le_trans)

text \<open>Within one generation the owner is the claimer or nobody.\<close>

lemma run_owner_or_later:
  assumes "lease_run r0 r" and "owner r0 = Some i"
  shows "gen r0 < gen r \<or> gen r = gen r0 \<and> (owner r = Some i \<or> owner r = None)"
  using assms
proof (induction rule: lease_run.induct)
  case (start r)
  then show ?case by simp
next
  case (more r0 r r')
  from more.hyps(2) show ?case
  proof cases
    case (claimed j t)
    with more show ?thesis
      by (cases "j = i") (auto dest: claim_mono claim_strict claim_owner simp: le_less)
  next
    case moved
    with more show ?thesis by (auto dest: other_frame)
  qed
qed

lemma generation_exclusive:
  assumes "claim i t r = Some r0" and "lease_run r0 r'" and "gen r' = gen r0"
    and "owner r' = Some j"
  shows "j = i"
  using run_owner_or_later [OF assms(2) claim_owner [OF assms(1)]] assms(3,4) by auto

text \<open>Once the row is nobody's, or another's, that generation is over for its old owner.\<close>

lemma run_lost_stays_lost:
  assumes "lease_run r r'" and "gen r = g" and "owner r \<noteq> Some i"
  shows "gen r' = g \<longrightarrow> owner r' \<noteq> Some i"
  using assms
proof (induction rule: lease_run.induct)
  case (start r)
  then show ?case by simp
next
  case (more r0 r r')
  show ?case
  proof
    assume g: "gen r' = g"
    from more.hyps(1) more.prems have le: "g \<le> gen r" by (auto dest: run_gen_mono)
    from more.hyps(2) show "owner r' \<noteq> Some i"
    proof cases
      case (claimed j t)
      have "gen r = g" using claimed le g by (auto dest: claim_mono)
      with more have no: "owner r \<noteq> Some i" by blast
      show ?thesis
      proof
        assume "owner r' = Some i"
        with claimed have "j = i" by (auto dest: claim_owner)
        with claimed no have "gen r < gen r'" by (auto dest: claim_strict)
        with \<open>gen r = g\<close> g show False by simp
      qed
    next
      case moved
      with more g show ?thesis by (auto dest: other_frame)
    qed
  qed
qed

end

locale fenced_lease = generation_lease owner gen claim other
  for owner :: "'r \<Rightarrow> 'i option"
    and gen :: "'r \<Rightarrow> nat"
    and claim :: "'i \<Rightarrow> instant \<Rightarrow> 'r \<Rightarrow> 'r option"
    and other :: "'r \<Rightarrow> 'r \<Rightarrow> bool" +
  fixes renew :: "'i \<Rightarrow> nat \<Rightarrow> instant \<Rightarrow> 'r \<Rightarrow> 'r option"
  assumes renew_fence: "renew i g t r = Some r' \<Longrightarrow> owner r = Some i \<and> gen r = g"
    and renew_frame: "renew i g t r = Some r' \<Longrightarrow> other r r'"
begin

lemma renew_is_step: "renew i g t r = Some r' \<Longrightarrow> lease_step r r'"
  by (auto intro: lease_step.intros dest: renew_frame)

text \<open>After any observable loss, every later renewal under the old generation is refused.\<close>

lemma superseded_never_renews:
  assumes "claim i t r = Some r0" and "lease_run r0 r1" and "owner r1 \<noteq> Some i \<or> gen r1 \<noteq> gen r0"
    and "lease_run r1 r2"
  shows "renew i (gen r0) t' r2 = None"
proof (rule ccontr)
  assume "renew i (gen r0) t' r2 \<noteq> None"
  then have own: "owner r2 = Some i" "gen r2 = gen r0"
    using renew_fence by blast+
  have "gen r0 \<le> gen r1" "gen r1 \<le> gen r2" using assms(2,4) by (auto dest: run_gen_mono)
  with own have "gen r1 = gen r0" by simp
  with assms(3) have "owner r1 \<noteq> Some i" by simp
  from run_lost_stays_lost [OF assms(4) \<open>gen r1 = gen r0\<close> this] own show False by simp
qed

end

end
