(* ===== verification/ControlPlaneLease.thy ===== *)
theory ControlPlaneLease
  imports Lease
begin

text \<open>
  \<open>ControlPlaneLeaseService.acquire\<close>: one INSERT ... ON CONFLICT DO UPDATE ... WHERE ...
  RETURNING statement that elects one API process for a background responsibility. The table
  is the list of rows; \<open>t\<close> is the database clock. The name pattern and the bounds of the
  lifetime are checked first, and a violation is an exception.
\<close>

record lease_row =
  lr_name :: string
  lr_owner :: string
  lr_generation :: nat
  lr_expiresAt :: instant
  lr_updatedAt :: instant

record lease_claim =
  lc_generation :: nat
  lc_expiresAt :: instant

definition min_ttl_ms :: int where "min_ttl_ms = 15000"
definition max_ttl_ms :: int where "max_ttl_ms = 300000"

text \<open>The pattern of lease names: a lower-case letter, then at most 63 of a-z 0-9 . -\<close>

definition lease_name_ok :: "string \<Rightarrow> bool" where
  "lease_name_ok s = (case s of
      [] \<Rightarrow> False
    | c # cs \<Rightarrow> is_lower c \<and> length cs \<le> 63 \<and>
        list_all (\<lambda>d. is_lower d \<or> is_digit d \<or> d = CHR ''.'' \<or> d = CHR ''-'') cs)"

text \<open>The conflict clause of the statement, on the row that holds the name.\<close>

definition takeover :: "string \<Rightarrow> int \<Rightarrow> instant \<Rightarrow> lease_row \<Rightarrow> lease_row option" where
  "takeover me ttl t r =
     (if lr_owner r = me \<or> lr_expiresAt r \<le> t
      then Some (r\<lparr>lr_owner := me,
             lr_generation := (if lr_owner r = me then lr_generation r else lr_generation r + 1),
             lr_expiresAt := t + ttl,
             lr_updatedAt := t\<rparr>)
      else None)"

definition fresh_row :: "string \<Rightarrow> string \<Rightarrow> int \<Rightarrow> instant \<Rightarrow> lease_row" where
  "fresh_row name me ttl t =
     \<lparr>lr_name = name, lr_owner = me, lr_generation = 1, lr_expiresAt = t + ttl, lr_updatedAt = t\<rparr>"

definition acquire ::
  "string \<Rightarrow> string \<Rightarrow> int \<Rightarrow> instant \<Rightarrow> lease_row list \<Rightarrow> lease_row list \<times> lease_claim option outcome"
  where
  "acquire me name ttl t rows =
     (if \<not> lease_name_ok name
      then (rows, Inl (ServerError ''Control-plane lease name is invalid''))
      else if ttl < min_ttl_ms \<or> ttl > max_ttl_ms
      then (rows, Inl (ServerError ''Control-plane lease TTL must be 15000-300000 ms''))
      else (case find_first (\<lambda>r. lr_name r = name) rows of
          None \<Rightarrow>
            (create (fresh_row name me ttl t) rows,
             Inr (Some \<lparr>lc_generation = 1, lc_expiresAt = t + ttl\<rparr>))
        | Some r \<Rightarrow> (case takeover me ttl t r of
            None \<Rightarrow> (rows, Inr None)
          | Some r' \<Rightarrow>
              (rewrite (\<lambda>x. lr_name x = name) (\<lambda>_. r') rows,
               Inr (Some \<lparr>lc_generation = lr_generation r', lc_expiresAt = lr_expiresAt r'\<rparr>)))))"

lemma takeover_simps:
  assumes "takeover me ttl t r = Some r'"
  shows "lr_owner r' = me" and "lr_name r' = lr_name r" and "lr_expiresAt r' = t + ttl"
    and "lr_generation r' = (if lr_owner r = me then lr_generation r else lr_generation r + 1)"
    and "lr_owner r = me \<or> lr_expiresAt r \<le> t"
  using assms by (auto simp: takeover_def split: if_splits)

text \<open>The conflict clause is a generation lease; no other statement writes the row.\<close>

interpretation cpl: generation_lease "\<lambda>r. Some (lr_owner r)" lr_generation
    "\<lambda>me t r. takeover me ttl t r" "\<lambda>r r'. r' = r" for ttl
  by unfold_locales (auto simp: takeover_def split: if_splits)

section \<open>Invariant of the table\<close>

definition leases_ok :: "lease_row list \<Rightarrow> bool" where
  "leases_ok rows \<longleftrightarrow> keyed lr_name rows \<and> (\<forall>r \<in> set rows. 1 \<le> lr_generation r)"

lemma acquire_cases:
  assumes "acquire me name ttl t rows = (rows', res)"
  obtains "rows' = rows" "\<forall>c. res \<noteq> Inr (Some c)"
  | "find_first (\<lambda>r. lr_name r = name) rows = None"
    "rows' = create (fresh_row name me ttl t) rows" "min_ttl_ms \<le> ttl" "ttl \<le> max_ttl_ms"
    "res = Inr (Some \<lparr>lc_generation = 1, lc_expiresAt = t + ttl\<rparr>)"
  | r r' where "find_first (\<lambda>r. lr_name r = name) rows = Some r" "takeover me ttl t r = Some r'"
    "rows' = rewrite (\<lambda>x. lr_name x = name) (\<lambda>_. r') rows" "min_ttl_ms \<le> ttl" "ttl \<le> max_ttl_ms"
    "res = Inr (Some \<lparr>lc_generation = lr_generation r', lc_expiresAt = lr_expiresAt r'\<rparr>)"
proof (cases "lease_name_ok name \<and> min_ttl_ms \<le> ttl \<and> ttl \<le> max_ttl_ms")
  case False
  with assms show ?thesis by (intro that(1)) (auto simp: acquire_def split: if_splits)
next
  case True
  then have ok: "lease_name_ok name" "\<not> ttl < min_ttl_ms" "\<not> max_ttl_ms < ttl" by auto
  show ?thesis
  proof (cases "find_first (\<lambda>r. lr_name r = name) rows")
    case None
    with assms ok show ?thesis by (intro that(2)) (auto simp: acquire_def)
  next
    case (Some r)
    note found = this
    show ?thesis
    proof (cases "takeover me ttl t r")
      case None
      with assms ok found show ?thesis by (intro that(1)) (auto simp: acquire_def)
    next
      case (Some r')
      with assms ok found show ?thesis by (intro that(3)) (auto simp: acquire_def)
    qed
  qed
qed

lemma leases_ok_acquire:
  assumes "leases_ok rows" and "acquire me name ttl t rows = (rows', res)"
  shows "leases_ok rows'"
  using assms(2)
proof (cases rule: acquire_cases)
  case 1
  with assms(1) show ?thesis by simp
next
  case 2
  with assms(1) show ?thesis
    by (auto simp: leases_ok_def keyed_create find_first_None fresh_row_def)
next
  case (3 r r')
  then have r: "lr_name r = name" "r \<in> set rows" by (auto dest: find_first_Some)
  have r': "lr_name r' = name" "lr_generation r \<le> lr_generation r'"
    using takeover_simps [OF 3(2)] r by simp_all
  have "keyed lr_name rows'"
    using assms(1) r' unfolding 3(3) by (subst keyed_rewrite) (simp_all add: leases_ok_def)
  moreover have "\<forall>x \<in> set rows'. 1 \<le> lr_generation x"
    using assms(1) r r' unfolding 3(3) by (auto simp: leases_ok_def set_rewrite)
  ultimately show ?thesis by (simp add: leases_ok_def)
qed

text \<open>A successful claim leaves exactly one row of that name, owned by the claimer.\<close>

lemma acquire_claimed_row:
  assumes "acquire me name ttl t rows = (rows', Inr (Some c))"
    and "r \<in> set rows'" and "lr_name r = name"
  shows "lr_owner r = me \<and> lr_generation r = lc_generation c \<and>
    lr_expiresAt r = t + ttl \<and> lc_expiresAt c = t + ttl"
  using assms(1)
proof (cases rule: acquire_cases)
  case 1
  then show ?thesis by simp
next
  case 2
  with assms(2,3) have "r = fresh_row name me ttl t" by (auto simp: find_first_None)
  with 2 show ?thesis by (simp add: fresh_row_def)
next
  case (3 r0 r')
  from assms(2) have "r = r'"
    using assms(3) unfolding 3(3) by (auto elim: in_rewriteE)
  with 3 takeover_simps [OF 3(2)] show ?thesis by simp
qed

section \<open>Replicas and what they believe\<close>

text \<open>
  A system of API replicas over one table. A replica believes it leads from a successful claim
  until the expiry the statement returned; a refused or failed call ends its belief. Calls of
  all replicas interleave in the order of the database clock.
\<close>

record election =
  el_now :: instant
  el_rows :: "lease_row list"
  el_belief :: "string \<times> string \<Rightarrow> lease_claim option"

definition election_start :: election where
  "election_start = \<lparr>el_now = 0, el_rows = [], el_belief = (\<lambda>_. None)\<rparr>"

definition call_acquire :: "string \<Rightarrow> string \<Rightarrow> int \<Rightarrow> instant \<Rightarrow> election \<Rightarrow> election" where
  "call_acquire me name ttl t s =
     (case acquire me name ttl t (el_rows s) of
        (rows', res) \<Rightarrow> s\<lparr>el_now := t, el_rows := rows',
          el_belief := (el_belief s)((me, name) :=
            (case res of Inr (Some c) \<Rightarrow> Some c | _ \<Rightarrow> None))\<rparr>)"

inductive elected :: "election \<Rightarrow> bool" where
  start: "elected election_start"
| call: "elected s \<Longrightarrow> el_now s \<le> t \<Longrightarrow> elected (call_acquire me name ttl t s)"

definition leads :: "election \<Rightarrow> string \<Rightarrow> string \<Rightarrow> instant \<Rightarrow> bool" where
  "leads s me name t = (case el_belief s (me, name) of
      None \<Rightarrow> False | Some c \<Rightarrow> t < lc_expiresAt c)"

text \<open>Every belief that has not expired is backed by the row of that name.\<close>

definition backed :: "election \<Rightarrow> bool" where
  "backed s \<longleftrightarrow> leases_ok (el_rows s) \<and>
     (\<forall>me name c. el_belief s (me, name) = Some c \<longrightarrow> el_now s < lc_expiresAt c \<longrightarrow>
        (\<exists>r \<in> set (el_rows s). lr_name r = name \<and> lr_owner r = me \<and>
           lr_generation r = lc_generation c \<and> lr_expiresAt r = lc_expiresAt c))"

lemma acquire_keeps_live_row:
  assumes "acquire me name ttl t rows = (rows', res)" and "r \<in> set rows"
    and "lr_owner r \<noteq> me \<or> lr_name r \<noteq> name" and "t < lr_expiresAt r" and "leases_ok rows"
  shows "r \<in> set rows'"
  using assms(1)
proof (cases rule: acquire_cases)
  case (3 r0 r')
  have "lr_name r \<noteq> name"
  proof
    assume n: "lr_name r = name"
    have "r0 \<in> set rows" "lr_name r0 = name" using 3(1) by (auto dest: find_first_Some)
    with assms(2,5) n have "r = r0" by (auto simp: leases_ok_def dest: keyed_unique)
    with takeover_simps(5) [OF 3(2)] assms(3,4) n show False by simp
  qed
  with assms(2) show ?thesis unfolding 3(3) by (force simp: set_rewrite)
qed (use assms in auto)

lemma acquire_claimed_exists:
  assumes "acquire me name ttl t rows = (rows', Inr (Some c))"
  shows "\<exists>r \<in> set rows'. lr_name r = name"
  using assms
proof (cases rule: acquire_cases)
  case 2
  then show ?thesis by (simp add: fresh_row_def)
next
  case (3 r0 r')
  then have "r0 \<in> set rows" "lr_name r0 = name" by (auto dest: find_first_Some)
  then have "r' \<in> set rows'" unfolding 3(3) by (force simp: set_rewrite)
  moreover have "lr_name r' = name"
    using takeover_simps(2) [OF 3(2)] \<open>lr_name r0 = name\<close> by simp
  ultimately show ?thesis by blast
qed auto

lemma elected_backed: "elected s \<Longrightarrow> backed s"
proof (induction rule: elected.induct)
  case start
  show ?case by (simp add: backed_def election_start_def leases_ok_def keyed_def)
next
  case (call s t me name ttl)
  obtain rows' res where ac: "acquire me name ttl t (el_rows s) = (rows', res)" by fastforce
  have ok: "leases_ok (el_rows s)" using call.IH by (simp add: backed_def)
  have "leases_ok rows'" using leases_ok_acquire [OF ok ac] .
  moreover have "\<exists>r \<in> set rows'. lr_name r = n \<and> lr_owner r = m \<and>
      lr_generation r = lc_generation c \<and> lr_expiresAt r = lc_expiresAt c"
    if b: "el_belief (call_acquire me name ttl t s) (m, n) = Some c" and live: "t < lc_expiresAt c"
    for m n c
  proof (cases "(m, n) = (me, name)")
    case True
    with b ac have "res = Inr (Some c)"
      by (auto simp: call_acquire_def split: sum.splits option.splits)
    with ac True show ?thesis
      using acquire_claimed_exists [of me name ttl t "el_rows s" rows' c]
        acquire_claimed_row [of me name ttl t "el_rows s" rows' c] by fastforce
  next
    case False
    with b ac have "el_belief s (m, n) = Some c" by (auto simp: call_acquire_def)
    moreover have "el_now s < lc_expiresAt c" using live call.hyps(2) by simp
    ultimately obtain r where r: "r \<in> set (el_rows s)" "lr_name r = n" "lr_owner r = m"
      "lr_generation r = lc_generation c" "lr_expiresAt r = lc_expiresAt c"
      using call.IH unfolding backed_def by blast
    with acquire_keeps_live_row [OF ac r(1)] False live ok show ?thesis by auto
  qed
  ultimately show ?case using ac by (simp add: backed_def call_acquire_def)
qed

lemma leads_unique:
  assumes "elected s" and "el_now s \<le> t" and "leads s a name t" and "leads s b name t"
  shows "a = b"
proof -
  have bk: "backed s" using elected_backed [OF assms(1)] .
  have "\<exists>r \<in> set (el_rows s). lr_name r = name \<and> lr_owner r = x" if "leads s x name t" for x
    using that assms(2) bk by (auto simp: leads_def backed_def split: option.splits) fastforce
  from this [OF assms(3)] this [OF assms(4)] obtain ra rb where
    "ra \<in> set (el_rows s)" "lr_name ra = name" "lr_owner ra = a"
    "rb \<in> set (el_rows s)" "lr_name rb = name" "lr_owner rb = b" by blast
  moreover have "keyed lr_name (el_rows s)" using bk by (simp add: backed_def leases_ok_def)
  ultimately show "a = b" using keyed_unique by metis
qed

text \<open>Failover: a legal call of a free or expired name always succeeds.\<close>

lemma acquire_when_expired:
  assumes "lease_name_ok name" and "min_ttl_ms \<le> ttl" and "ttl \<le> max_ttl_ms"
    and "\<forall>r \<in> set rows. lr_name r = name \<longrightarrow> lr_owner r = me \<or> lr_expiresAt r \<le> t"
  shows "\<exists>rows' c. acquire me name ttl t rows = (rows', Inr (Some c))"
proof (cases "find_first (\<lambda>r. lr_name r = name) rows")
  case None
  with assms show ?thesis by (simp add: acquire_def)
next
  case (Some r)
  then have "lr_owner r = me \<or> lr_expiresAt r \<le> t"
    using assms(4) by (auto dest: find_first_Some)
  with Some assms show ?thesis by (simp add: acquire_def takeover_def)
qed

end
