(* ===== verification/Domain.thy ===== *)
theory Domain
  imports Prelude
begin

text \<open>
  The domain vocabulary of the API (\<open>domain/\<close>): the string unions of \<open>types.ts\<close> as
  datatypes, the capability check between templates and targets, the phases of a deployment
  operation with the table of their predecessors, and the expiry of temporary environments.
\<close>

section \<open>Unions of domain/types.ts\<close>

datatype artifact_kind = StaticArtifact | RuntimeArtifact

datatype provider_kind = Docker | Sftp

datatype runtime_kind = RtStatic | RtNode | RtPhp | RtPython

datatype target_scope = Builtin | UserScope

datatype routing_mode = DirectPort | ManagedGateway

datatype preflight_status = PfNotRun | PfQueued | PfRunning | PfPassed | PfFailed

datatype management_state = MgActive | MgDisconnected | MgRetired

datatype env_name = Dev | Test | Prod

datatype pipeline_preset = DevTestProd | DevProd | ProdOnly

datatype deploy_status = EsEmpty | EsDeploying | EsRunning | EsFailed | EsStopped

record template_manifest =
  tm_artifact :: artifact_kind
  tm_runtime :: "runtime_kind option"
  tm_compatibleProviders :: "provider_kind list"
  tm_port :: "int option"
  tm_healthPath :: "string option"

fun env_name_str :: "env_name \<Rightarrow> string" where
  "env_name_str Dev = ''dev''"
| "env_name_str Test = ''test''"
| "env_name_str Prod = ''prod''"

fun provider_str :: "provider_kind \<Rightarrow> string" where
  "provider_str Docker = ''docker''"
| "provider_str Sftp = ''sftp''"

fun management_str :: "management_state \<Rightarrow> string" where
  "management_str MgActive = ''active''"
| "management_str MgDisconnected = ''disconnected''"
| "management_str MgRetired = ''retired''"

lemma env_name_str_inj [simp]: "env_name_str a = env_name_str b \<longleftrightarrow> a = b"
  by (cases a; cases b) simp_all

lemma provider_str_inj [simp]: "provider_str a = provider_str b \<longleftrightarrow> a = b"
  by (cases a; cases b) simp_all

section \<open>Capabilities (domain/capability.ts)\<close>

definition template_runtime :: "template_manifest \<Rightarrow> runtime_kind" where
  "template_runtime t = (case tm_runtime t of
      Some r \<Rightarrow> r
    | None \<Rightarrow> if tm_artifact t = StaticArtifact then RtStatic else RtNode)"

record target_capability =
  tc_kind :: provider_kind
  tc_capabilities :: "runtime_kind list"

definition target_can_run :: "template_manifest \<Rightarrow> target_capability \<Rightarrow> bool" where
  "target_can_run t g =
     (tc_kind g \<in> set (tm_compatibleProviders t) \<and>
      template_runtime t \<in> set (tc_capabilities g))"

lemma target_can_run_mono:
  assumes "target_can_run t g" and "set (tc_capabilities g) \<subseteq> set (tc_capabilities g')"
    and "tc_kind g' = tc_kind g"
  shows "target_can_run t g'"
  using assms by (auto simp: target_can_run_def)

section \<open>Phases of a deployment operation (domain/deployment-operation-state.ts)\<close>

datatype op_result = Succeeded | Failed | Cancelled

datatype active_phase = Assigned | Running | Verifying

datatype phase = Queued | Active active_phase | Result op_result | Unhealthy

text \<open>The status column: running, or the result of the finished operation.\<close>

datatype op_status = OpRunning | OpResult op_result

fun active_phase_predecessors :: "active_phase \<Rightarrow> phase list" where
  "active_phase_predecessors Assigned = [Queued]"
| "active_phase_predecessors Running = [Queued, Active Assigned]"
| "active_phase_predecessors Verifying = [Queued, Active Assigned, Active Running]"

text \<open>The pattern \<open>/health|unhealthy/i\<close> on the message, absent messages being empty.\<close>

definition mentions_health :: "string option \<Rightarrow> bool" where
  "mentions_health m = (case m of
      None \<Rightarrow> False
    | Some s \<Rightarrow> contains ''health'' (lower s) \<or> contains ''unhealthy'' (lower s))"

definition terminal_deployment_phase :: "op_result \<Rightarrow> string option \<Rightarrow> phase" where
  "terminal_deployment_phase status message =
     (if status = Failed \<and> mentions_health message then Unhealthy else Result status)"

text \<open>Active phases are ordered as a deployment passes through them.\<close>

instantiation active_phase :: linorder
begin

fun active_rank :: "active_phase \<Rightarrow> nat" where
  "active_rank Assigned = 0"
| "active_rank Running = 1"
| "active_rank Verifying = 2"

definition less_eq_active_phase :: "active_phase \<Rightarrow> active_phase \<Rightarrow> bool" where
  "less_eq_active_phase a b = (active_rank a \<le> active_rank b)"

definition less_active_phase :: "active_phase \<Rightarrow> active_phase \<Rightarrow> bool" where
  "less_active_phase a b = (active_rank a < active_rank b)"

instance
proof
  fix a b c :: active_phase
  show "a < b \<longleftrightarrow> a \<le> b \<and> \<not> b \<le> a"
    by (auto simp: less_eq_active_phase_def less_active_phase_def)
  show "a \<le> a" by (simp add: less_eq_active_phase_def)
  show "a \<le> b \<Longrightarrow> b \<le> c \<Longrightarrow> a \<le> c" by (simp add: less_eq_active_phase_def)
  show "a \<le> b \<Longrightarrow> b \<le> a \<Longrightarrow> a = b"
    by (cases a; cases b) (simp_all add: less_eq_active_phase_def)
  show "a \<le> b \<or> b \<le> a" by (auto simp: less_eq_active_phase_def)
qed

end

text \<open>The predecessor table is the order: queued, or an earlier active phase.\<close>

lemma predecessors_iff:
  "q \<in> set (active_phase_predecessors p) \<longleftrightarrow> q = Queued \<or> (\<exists>a < p. q = Active a)"
proof -
  have "(a < p) \<longleftrightarrow> active_rank a < active_rank p" for a
    by (simp add: less_active_phase_def)
  moreover have "(\<exists>a. active_rank a < active_rank p \<and> q = Active a) \<longleftrightarrow>
      q \<in> set (active_phase_predecessors p) - {Queued}"
  proof (cases q)
    case (Active a)
    then show ?thesis by (cases p; cases a) simp_all
  qed (cases p; simp)+
  ultimately show ?thesis by (cases p) auto
qed

text \<open>The rank of a phase: a deployment only moves to a higher one.\<close>

fun phase_rank :: "phase \<Rightarrow> nat" where
  "phase_rank Queued = 0"
| "phase_rank (Active a) = Suc (active_rank a)"
| "phase_rank (Result r) = 4"
| "phase_rank Unhealthy = 4"

definition terminal_phase :: "phase \<Rightarrow> bool" where
  "terminal_phase p = (case p of Queued \<Rightarrow> False | Active _ \<Rightarrow> False | _ \<Rightarrow> True)"

lemma terminal_phase_rank: "terminal_phase p \<longleftrightarrow> phase_rank p = 4"
proof (cases p)
  case (Active a)
  then show ?thesis by (cases a) (simp_all add: terminal_phase_def)
qed (simp_all add: terminal_phase_def)

lemma phase_rank_le [simp]: "phase_rank p \<le> 4"
proof (cases p)
  case (Active a)
  then show ?thesis by (cases a) simp_all
qed simp_all

lemma predecessor_rank:
  "q \<in> set (active_phase_predecessors p) \<Longrightarrow> phase_rank q < phase_rank (Active p)"
  by (auto simp: predecessors_iff less_active_phase_def)

lemma terminal_deployment_phase_terminal [simp]:
  "terminal_phase (terminal_deployment_phase s m)"
  by (simp add: terminal_deployment_phase_def terminal_phase_def)

lemma terminal_deployment_phase_result:
  "terminal_deployment_phase s m = Result r \<Longrightarrow> r = s"
  by (simp add: terminal_deployment_phase_def split: if_splits)

lemma terminal_not_predecessor:
  "terminal_phase q \<Longrightarrow> q \<notin> set (active_phase_predecessors p)"
  by (cases p) (auto simp: terminal_phase_def)

section \<open>Expiry of temporary environments (projects/environment-expiry.ts)\<close>

record ttl_policy =
  devTtlHours :: "int option"
  testTtlHours :: "int option"

definition hour_ms :: int where "hour_ms = 60 * 60 * 1000"

definition ttl_hours :: "env_name \<Rightarrow> ttl_policy option \<Rightarrow> int option" where
  "ttl_hours e a = (case e of
      Dev \<Rightarrow> Option.bind a devTtlHours
    | Test \<Rightarrow> Option.bind a testTtlHours
    | Prod \<Rightarrow> None)"

text \<open>The pair of \<open>expiresAt\<close> and \<open>expiryWarningAt\<close>; a zero lifetime is none.\<close>

definition environment_expiry ::
  "env_name \<Rightarrow> ttl_policy option \<Rightarrow> instant \<Rightarrow> instant option \<times> instant option" where
  "environment_expiry e a now =
     (case ttl_hours e a of
        None \<Rightarrow> (None, None)
      | Some h \<Rightarrow>
          if h = 0 then (None, None)
          else (let ttlMs = h * hour_ms;
                    warningLeadMs = min (24 * hour_ms) (ttlMs div 4);
                    expiresAt = now + ttlMs
                in (Some expiresAt, Some (expiresAt - warningLeadMs))))"

lemma environment_expiry_prod: "environment_expiry Prod a now = (None, None)"
  by (simp add: environment_expiry_def ttl_hours_def)

lemma environment_expiry_pair:
  "fst (environment_expiry e a now) = None \<longleftrightarrow> snd (environment_expiry e a now) = None"
  by (auto simp: environment_expiry_def Let_def split: option.splits)

lemma environment_expiry_order:
  assumes "environment_expiry e a now = (Some x, Some w)" and "\<forall>h. ttl_hours e a = Some h \<longrightarrow> 0 < h"
  shows "now < w" and "w < x" and "x - w \<le> 24 * hour_ms"
proof -
  from assms obtain h where h: "ttl_hours e a = Some h" "0 < h"
    by (auto simp: environment_expiry_def split: option.splits)
  define m where "m = h * hour_ms"
  have m: "4 \<le> m" using h(2) by (auto simp: m_def hour_ms_def)
  have "x = now + m" "w = x - min (24 * hour_ms) (m div 4)"
    using assms(1) h by (auto simp: environment_expiry_def Let_def m_def)
  with m show "now < w" "w < x" "x - w \<le> 24 * hour_ms" by (auto simp: min_def hour_ms_def)
qed

end
