(* ===== verification/Pipeline.thy ===== *)
theory Pipeline
  imports Domain
begin

text \<open>
  The pipeline of a project: the configured stage order of a preset
  (\<open>projects/pipeline-preset.ts\<close>) and the projection of commit statuses of the SCM provider
  into the stages the API shows, with the publication stage added from the environment and
  its last platform operation (\<open>projects/project-pipeline.ts\<close>).
\<close>

section \<open>Presets\<close>

fun preset_str :: "pipeline_preset \<Rightarrow> string" where
  "preset_str DevTestProd = ''dev-test-prod''"
| "preset_str DevProd = ''dev-prod''"
| "preset_str ProdOnly = ''prod-only''"

definition pipeline_presets :: "pipeline_preset list" where
  "pipeline_presets = [DevTestProd, DevProd, ProdOnly]"

fun preset_stages :: "pipeline_preset \<Rightarrow> env_name list" where
  "preset_stages DevTestProd = [Dev, Test, Prod]"
| "preset_stages DevProd = [Dev, Prod]"
| "preset_stages ProdOnly = [Prod]"

definition is_pipeline_preset :: "json \<Rightarrow> bool" where
  "is_pipeline_preset v = (case v of JStr s \<Rightarrow> s \<in> set (map preset_str pipeline_presets) | _ \<Rightarrow> False)"

text \<open>The validated preset; the message of the exception quotes the value for strings.\<close>

definition pipeline_preset_of :: "json \<Rightarrow> pipeline_preset outcome" where
  "pipeline_preset_of v = (case v of
      JStr s \<Rightarrow> (case find_first (\<lambda>p. preset_str p = s) pipeline_presets of
          Some p \<Rightarrow> Inr p
        | None \<Rightarrow> Inl (BadRequest (''Unsupported pipeline preset '' @ s)))
    | _ \<Rightarrow> Inl (BadRequest ''Unsupported pipeline preset''))"

fun index_of :: "'a \<Rightarrow> 'a list \<Rightarrow> nat option" where
  "index_of x [] = None"
| "index_of x (y # ys) = (if x = y then Some 0 else map_option Suc (index_of x ys))"

definition previous_pipeline_stage :: "pipeline_preset \<Rightarrow> env_name \<Rightarrow> env_name option" where
  "previous_pipeline_stage p e =
     (case index_of e (preset_stages p) of
        None \<Rightarrow> None
      | Some i \<Rightarrow> if 0 < i then Some (preset_stages p ! (i - 1)) else None)"

definition production_source_stage :: "pipeline_preset \<Rightarrow> env_name option" where
  "production_source_stage p = previous_pipeline_stage p Prod"

lemma pipeline_preset_roundtrip: "pipeline_preset_of (JStr (preset_str p)) = Inr p"
  by (cases p) (simp_all add: pipeline_preset_of_def pipeline_presets_def)

lemma pipeline_preset_valid: "pipeline_preset_of v = Inr p \<Longrightarrow> v = JStr (preset_str p)"
  by (auto simp: pipeline_preset_of_def split: json.splits option.splits dest!: find_first_Some)

lemma pipeline_preset_succeeds: "succeeds (pipeline_preset_of v) \<longleftrightarrow> is_pipeline_preset v"
proof (cases v)
  case (JStr s)
  then show ?thesis
    by (auto simp: pipeline_preset_of_def is_pipeline_preset_def pipeline_presets_def)
qed (simp_all add: pipeline_preset_of_def is_pipeline_preset_def)

lemma index_of_Some: "index_of x ys = Some i \<Longrightarrow> i < length ys \<and> ys ! i = x"
  by (induction ys arbitrary: i) (auto split: if_splits)

text \<open>The stage before \<open>e\<close> is the one the preset lists right before it.\<close>

lemma previous_stage_adjacent:
  "previous_pipeline_stage p e = Some s \<Longrightarrow>
     (s, e) \<in> set (zip (preset_stages p) (tl (preset_stages p)))"
  by (cases p; cases e) (auto simp: previous_pipeline_stage_def)

lemma production_source_None: "production_source_stage p = None \<longleftrightarrow> p = ProdOnly"
  by (cases p) (simp_all add: production_source_stage_def previous_pipeline_stage_def)

lemma production_source_not_prod: "production_source_stage p \<noteq> Some Prod"
  by (cases p) (simp_all add: production_source_stage_def previous_pipeline_stage_def)

section \<open>Commit statuses of the SCM provider\<close>

datatype stage_status = Pending | StRunning | Success | StFailed

record scm_status =
  ss_context :: string
  ss_status :: string
  ss_targetUrl :: "string option"

record pipeline_stage =
  ps_name :: string
  ps_status :: stage_status
  ps_url :: "string option"
  ps_platform :: bool

text \<open>
  The trailing event \<open>(push)\<close> of a context: blanks, an opening parenthesis, no closing one
  before the last, blanks. The replacement removes the leftmost match.
\<close>

definition event_suffix :: "string \<Rightarrow> bool" where
  "event_suffix s = (case dropWhile is_blank s of
      [] \<Rightarrow> False
    | c # cs \<Rightarrow> c = CHR ''('' \<and> (case dropWhile (\<lambda>d. d \<noteq> CHR '')'') cs of
          [] \<Rightarrow> False
        | _ # rest \<Rightarrow> list_all is_blank rest))"

fun strip_event :: "string \<Rightarrow> string" where
  "strip_event [] = []"
| "strip_event (c # cs) = (if event_suffix (c # cs) then [] else c # strip_event cs)"

definition last_segment :: "string \<Rightarrow> string" where
  "last_segment s = rev (takeWhile (\<lambda>c. c \<noteq> CHR ''/'') (rev s))"

definition job_from_context :: "string \<Rightarrow> string option" where
  "job_from_context context =
     (if context = [] then None
      else Some (lower (trim (last_segment (strip_event context)))))"

definition ci_status :: "string \<Rightarrow> stage_status" where
  "ci_status state =
     (if state = ''success'' then Success
      else if state = ''failure'' \<or> state = ''error'' then StFailed
      else StRunning)"

definition legacy_jobs :: "string list" where
  "legacy_jobs = [''test'', ''docker'', ''docker build'', ''deploy'']"

definition stage_definitions :: "artifact_kind \<Rightarrow> string list \<Rightarrow> (string \<times> string list) list" where
  "stage_definitions art jobs =
     (if \<not> list_ex (\<lambda>j. j \<in> set legacy_jobs) jobs then [(''build'', [''build''])]
      else if art = StaticArtifact
      then [(''build'', [''build'']), (''test'', [''test'']), (''deploy'', [''deploy''])]
      else [(''build'', [''build'']), (''test'', [''test'']),
            (''docker build'', [''docker'', ''docker build'']), (''deploy'', [''deploy''])])"

text \<open>
  The map of the newest status per job: statuses come newest first and only the first of a job
  is kept, so a lookup in the association list of all of them is the lookup in that map.
\<close>

fun latest_jobs :: "scm_status list \<Rightarrow> (string \<times> string \<times> string option) list" where
  "latest_jobs [] = []"
| "latest_jobs (s # ss) =
     (case job_from_context (ss_context s) of
        None \<Rightarrow> latest_jobs ss
      | Some job \<Rightarrow>
          if job = [] then latest_jobs ss
          else (job, ss_status s, ss_targetUrl s) # latest_jobs ss)"

definition first_hit ::
  "(string \<times> string \<times> string option) list \<Rightarrow> string list \<Rightarrow> (string \<times> string option) option" where
  "first_hit latest tokens =
     (case find_first (\<lambda>t. map_of latest t \<noteq> None) tokens of
        None \<Rightarrow> None | Some t \<Rightarrow> map_of latest t)"

fun stage_of ::
  "(string \<times> string \<times> string option) list \<Rightarrow> string \<times> string list \<Rightarrow> pipeline_stage" where
  "stage_of latest (label, tokens) =
     \<lparr>ps_name = label,
      ps_status = (case first_hit latest tokens of None \<Rightarrow> Pending | Some (st, _) \<Rightarrow> ci_status st),
      ps_url = (case first_hit latest tokens of None \<Rightarrow> None | Some (_, url) \<Rightarrow> url),
      ps_platform = False\<rparr>"

text \<open>The loop that queues every stage behind the first unfinished one.\<close>

fun queue_blocked :: "bool \<Rightarrow> pipeline_stage list \<Rightarrow> pipeline_stage list" where
  "queue_blocked blocked [] = []"
| "queue_blocked blocked (s # ss) =
     (let s' = (if blocked \<and> ps_status s = StRunning then s\<lparr>ps_status := Pending\<rparr> else s)
      in s' # queue_blocked (blocked \<or> ps_status s' \<noteq> Success) ss)"

definition pipeline_stages :: "template_manifest \<Rightarrow> scm_status list option \<Rightarrow> pipeline_stage list" where
  "pipeline_stages template statuses =
     (let latest = latest_jobs (case statuses of None \<Rightarrow> [] | Some ss \<Rightarrow> ss);
          definitions = stage_definitions (tm_artifact template) (map fst latest)
      in queue_blocked False (map (stage_of latest) definitions))"

section \<open>The publication stage\<close>

definition ci_waiting_reason :: string where
  "ci_waiting_reason = ''Waiting for an available CI runner''"

record environment_view =
  ev_status :: deploy_status
  ev_statusReason :: "string option"
  ev_deploymentRequired :: bool

record operation_view =
  ov_status :: op_status
  ov_hasArtifact :: bool

definition visible_stages :: "pipeline_stage list \<Rightarrow> environment_view option \<Rightarrow> pipeline_stage list" where
  "visible_stages stages environment =
     (case environment of
        Some e \<Rightarrow>
          if ev_status e = EsDeploying \<and> ev_statusReason e = Some ci_waiting_reason
          then map (\<lambda>s. if ps_status s = StRunning then s\<lparr>ps_status := Pending\<rparr> else s) stages
          else stages
      | None \<Rightarrow> stages)"

definition publish_status ::
  "environment_view option \<Rightarrow> operation_view option \<Rightarrow> stage_status option" where
  "publish_status environment operation =
     (case environment of
        Some e \<Rightarrow>
          if ev_status e = EsDeploying then Some StRunning
          else if ev_deploymentRequired e \<and>
            (case operation of None \<Rightarrow> False
              | Some o' \<Rightarrow> ov_hasArtifact o' \<and> ov_status o' = OpResult Failed)
          then Some StFailed
          else if ev_deploymentRequired e
          then Some (if ev_status e = EsFailed then StFailed else Pending)
          else if ev_status e = EsRunning \<or> ev_status e = EsStopped then Some Success
          else if ev_status e = EsFailed then Some StFailed
          else None
      | None \<Rightarrow> (case operation of
          None \<Rightarrow> None
        | Some o' \<Rightarrow>
            if \<not> ov_hasArtifact o' then None
            else Some (case ov_status o' of
                OpRunning \<Rightarrow> StRunning
              | OpResult Succeeded \<Rightarrow> Success
              | OpResult Failed \<Rightarrow> StFailed
              | OpResult Cancelled \<Rightarrow> Pending)))"

definition with_deployment_state ::
  "pipeline_stage list \<Rightarrow> environment_view option \<Rightarrow> operation_view option \<Rightarrow> pipeline_stage list"
  where
  "with_deployment_state stages environment operation =
     (let visible = visible_stages stages environment;
          ciStages = takeWhile (\<lambda>s. ps_name s \<noteq> ''deploy'') visible
      in case publish_status environment operation of
           None \<Rightarrow> visible
         | Some st \<Rightarrow>
             let st' = (if st = StRunning \<and> \<not> list_all (\<lambda>s. ps_status s = Success) ciStages
                        then Pending else st)
             in visible @ [\<lparr>ps_name = ''publish'', ps_status = st', ps_url = None,
                            ps_platform = True\<rparr>])"

section \<open>Lemmas\<close>

lemma queue_blocked_names [simp]: "map ps_name (queue_blocked b ss) = map ps_name ss"
  by (induction b ss rule: queue_blocked.induct) (auto simp: Let_def)

lemma queue_blocked_True_not_running:
  "s \<in> set (queue_blocked True ss) \<Longrightarrow> ps_status s \<noteq> StRunning"
  by (induction True ss rule: queue_blocked.induct) (auto simp: Let_def split: if_splits)

text \<open>Whatever follows a stage that is not a success is not shown as running.\<close>

lemma queue_blocked_order:
  "queue_blocked b ss = us @ s # vs \<Longrightarrow> ps_status s \<noteq> Success \<Longrightarrow> v \<in> set vs \<Longrightarrow>
     ps_status v \<noteq> StRunning"
proof (induction b ss arbitrary: us rule: queue_blocked.induct)
  case (1 b)
  then show ?case by simp
next
  case (2 b x xs)
  let ?x = "if b \<and> ps_status x = StRunning then x\<lparr>ps_status := Pending\<rparr> else x"
  let ?b = "b \<or> ps_status ?x \<noteq> Success"
  have q: "queue_blocked b (x # xs) = ?x # queue_blocked ?b xs" by (simp only: queue_blocked.simps Let_def)
  show ?case
  proof (cases us)
    case Nil
    with "2.prems"(1) q have "s = ?x" "vs = queue_blocked ?b xs" by auto
    with "2.prems"(2,3) have "v \<in> set (queue_blocked True xs)" by simp
    then show ?thesis by (rule queue_blocked_True_not_running)
  next
    case (Cons u us')
    with "2.prems"(1) q have "queue_blocked ?b xs = us' @ s # vs" by auto
    with "2.IH" [OF refl] "2.prems"(2,3) show ?thesis by blast
  qed
qed

lemma queue_blocked_success:
  "s \<in> set (queue_blocked b ss) \<Longrightarrow> ps_status s = Success \<Longrightarrow> s \<in> set ss"
  by (induction b ss rule: queue_blocked.induct) (auto simp: Let_def split: if_splits)

lemma visible_names [simp]: "map ps_name (visible_stages ss e) = map ps_name ss"
  by (auto simp: visible_stages_def split: option.splits)

lemma with_deployment_state_names:
  "map ps_name (with_deployment_state ss e o') =
     map ps_name ss @ (if publish_status e o' = None then [] else [''publish''])"
  by (auto simp: with_deployment_state_def Let_def split: option.splits)

lemma publish_running_needs_ci:
  assumes "with_deployment_state ss e o' = vs @ [p]" and "ps_platform p" and "ps_status p = StRunning"
    and "\<forall>s \<in> set ss. \<not> ps_platform s"
  shows "\<forall>s \<in> set (takeWhile (\<lambda>s. ps_name s \<noteq> ''deploy'') vs). ps_status s = Success"
proof (cases "publish_status e o'")
  case None
  with assms(1) have "visible_stages ss e = vs @ [p]" by (simp add: with_deployment_state_def)
  then have "p \<in> set (visible_stages ss e)" by simp
  with assms(4) have "\<not> ps_platform p"
    by (auto simp: visible_stages_def split: option.splits if_splits)
  with assms(2) show ?thesis by simp
next
  case (Some st)
  with assms(1,3) show ?thesis
    by (auto simp: with_deployment_state_def Let_def list_all_iff split: if_splits)
qed

lemma queue_blocked_Cons_names: "map ps_name (pipeline_stages tm ss) \<in>
   {[''build''], [''build'', ''test'', ''deploy''], [''build'', ''test'', ''docker build'', ''deploy'']}"
  by (simp add: pipeline_stages_def Let_def stage_definitions_def)

lemma visible_not_running: "v \<in> set (visible_stages ss e) \<Longrightarrow> ps_status v = StRunning \<Longrightarrow> v \<in> set ss"
  by (auto simp: visible_stages_def split: option.splits if_splits)

lemma visible_split:
  assumes "visible_stages ss e = us @ s # vs"
  obtains us0 s0 vs0 where "ss = us0 @ s0 # vs0" "ps_status s = Success \<longleftrightarrow> ps_status s0 = Success"
    "\<And>v. v \<in> set vs \<Longrightarrow> ps_status v = StRunning \<Longrightarrow> v \<in> set vs0"
proof -
  let ?f = "\<lambda>s. if ps_status s = StRunning then s\<lparr>ps_status := Pending\<rparr> else s"
  have "visible_stages ss e = ss \<or> visible_stages ss e = map ?f ss"
    by (simp add: visible_stages_def split: option.split)
  then consider "visible_stages ss e = ss" | "visible_stages ss e = map ?f ss" by blast
  then show thesis
  proof cases
    case 1
    with assms show thesis by (intro that [of us s vs]) auto
  next
    case 2
    with assms obtain us0 rest where "ss = us0 @ rest" "map ?f rest = s # vs"
      by (auto simp: map_eq_append_conv)
    then obtain s0 vs0 where *: "ss = us0 @ s0 # vs0" "s = ?f s0" "vs = map ?f vs0" by auto
    then show thesis by (intro that [of us0 s0 vs0]) auto
  qed
qed

lemma stage_of_success:
  assumes "ps_status (stage_of (latest_jobs ss) (l, ts)) = Success"
  shows "\<exists>x \<in> set ss. ss_status x = ''success'' \<and> job_from_context (ss_context x) \<in> Some ` set ts"
proof -
  have found: "\<exists>x \<in> set ss. ss_status x = st \<and> job_from_context (ss_context x) = Some j"
    if "map_of (latest_jobs ss) j = Some (st, u)" for j st u
    using that by (induction ss rule: latest_jobs.induct) (auto split: option.splits if_splits)
  from assms obtain st u where hit: "first_hit (latest_jobs ss) ts = Some (st, u)" "ci_status st = Success"
    by (auto split: option.splits)
  then obtain j where "j \<in> set ts" "map_of (latest_jobs ss) j = Some (st, u)"
    by (auto simp: first_hit_def split: option.splits dest: find_first_Some)
  moreover from hit(2) have "st = ''success''" by (auto simp: ci_status_def split: if_splits)
  ultimately show ?thesis using found by blast
qed

text \<open>
  The shown pipeline never runs ahead of itself and never invents a success. In the list of
  stages the API shows (CI stages, then the publication by the platform), a stage after one that has
  not succeeded is not shown as running, the hand-over stage \<open>deploy\<close> excepted, which may still
  be open while the platform publishes; and a CI stage is shown as successful only when the
  provider reported \<open>success\<close> for one of that stage's jobs on this commit.
\<close>

theorem pipeline_shows_progress_in_order:
  assumes "with_deployment_state (pipeline_stages tm (Some st)) env o' = us @ s # vs"
  shows "(ps_status s \<noteq> Success \<longrightarrow> ps_name s \<noteq> ''deploy'' \<longrightarrow> (\<forall>v \<in> set vs. ps_status v \<noteq> StRunning))
    \<and> (ps_status s = Success \<longrightarrow> \<not> ps_platform s \<longrightarrow>
         (\<exists>d \<in> set (stage_definitions (tm_artifact tm) (map fst (latest_jobs st))). fst d = ps_name s \<and>
           (\<exists>x \<in> set st. ss_status x = ''success'' \<and> job_from_context (ss_context x) \<in> Some ` set (snd d))))"
proof -
  let ?ci = "pipeline_stages tm (Some st)"
  let ?vis = "visible_stages ?ci env"
  let ?defs = "stage_definitions (tm_artifact tm) (map fst (latest_jobs st))"
  have ci: "?ci = queue_blocked False (map (stage_of (latest_jobs st)) ?defs)"
    by (simp add: pipeline_stages_def Let_def)
  have ordered: "ps_status v \<noteq> StRunning"
    if split: "?vis = as @ x # bs" and late: "ps_status x \<noteq> Success" "v \<in> set bs" for as x bs v
  proof
    assume run: "ps_status v = StRunning"
    obtain as0 x0 bs0 where *: "?ci = as0 @ x0 # bs0"
      "ps_status x = Success \<longleftrightarrow> ps_status x0 = Success" "v \<in> set bs0"
      using visible_split [OF split] late(2) run by metis
    from queue_blocked_order [OF *(1) [unfolded ci]] *(2,3) late(1) run show False by blast
  qed
  have earned: "\<exists>d \<in> set ?defs. fst d = ps_name x \<and>
      (\<exists>y \<in> set st. ss_status y = ''success'' \<and> job_from_context (ss_context y) \<in> Some ` set (snd d))"
    if x: "x \<in> set ?vis" "ps_status x = Success" for x
  proof -
    from x have "x \<in> set ?ci" by (auto simp: visible_stages_def split: option.splits if_splits)
    with x(2) have "x \<in> set (map (stage_of (latest_jobs st)) ?defs)"
      using queue_blocked_success ci by metis
    then obtain l ts where d: "(l, ts) \<in> set ?defs" "x = stage_of (latest_jobs st) (l, ts)" by auto
    with x(2) have "\<exists>y \<in> set st. ss_status y = ''success'' \<and> job_from_context (ss_context y) \<in> Some ` set ts"
      by (intro stage_of_success [of st l ts]) simp
    with d show ?thesis by (intro bexI [of _ "(l, ts)"]) auto
  qed
  show ?thesis
  proof (cases "publish_status env o'")
    case None
    with assms have vis: "?vis = us @ s # vs" by (simp add: with_deployment_state_def)
    with ordered earned [of s] show ?thesis by auto
  next
    case (Some p)
    define last where "last = \<lparr>ps_name = ''publish'', ps_status =
      (if p = StRunning \<and> \<not> list_all (\<lambda>s. ps_status s = Success) (takeWhile (\<lambda>s. ps_name s \<noteq> ''deploy'') ?vis)
       then Pending else p), ps_url = None, ps_platform = True\<rparr>"
    from assms Some have all: "?vis @ [last] = us @ s # vs"
      by (simp add: with_deployment_state_def Let_def last_def)
    show ?thesis
    proof (cases vs rule: rev_cases)
      case Nil
      with all have "s = last" by simp
      with Nil show ?thesis by (simp add: last_def)
    next
      case (snoc vs0 y)
      with all have vis: "?vis = us @ s # vs0" and y: "y = last" by auto
      have "ps_status last \<noteq> StRunning" if bad: "ps_status s \<noteq> Success" "ps_name s \<noteq> ''deploy''"
      proof -
        have "''deploy'' \<notin> ps_name ` set us"
        proof
          assume "''deploy'' \<in> ps_name ` set us"
          moreover have "map ps_name us @ ps_name s # map ps_name vs0 \<in>
            {[''build''], [''build'', ''test'', ''deploy''], [''build'', ''test'', ''docker build'', ''deploy'']}"
            using queue_blocked_Cons_names [of tm "Some st"] visible_names [of ?ci env] vis by simp
          ultimately show False by (auto simp: append_eq_Cons_conv Cons_eq_append_conv)
        qed
        then have "takeWhile (\<lambda>s. ps_name s \<noteq> ''deploy'') ?vis =
            us @ s # takeWhile (\<lambda>s. ps_name s \<noteq> ''deploy'') vs0"
          unfolding vis using bad(2) by (subst takeWhile_append2) (force+)
        with bad(1) show ?thesis by (simp add: last_def)
      qed
      moreover have "ps_status v \<noteq> StRunning" if "ps_status s \<noteq> Success" "v \<in> set vs0" for v
        using ordered [OF vis that] .
      ultimately show ?thesis using snoc y vis earned [of s] by auto
    qed
  qed
qed

theorem pipeline_shows_progress_in_order_witness:
  "\<exists>us s vs. with_deployment_state (pipeline_stages
       \<lparr>tm_artifact = StaticArtifact, tm_runtime = None, tm_compatibleProviders = [Sftp], tm_port = None,
         tm_healthPath = None\<rparr>
       (Some [\<lparr>ss_context = ''CI / test (push)'', ss_status = ''running'', ss_targetUrl = None\<rparr>,
              \<lparr>ss_context = ''CI / build (push)'', ss_status = ''success'', ss_targetUrl = None\<rparr>]))
       None (Some \<lparr>ov_status = OpRunning, ov_hasArtifact = True\<rparr>) = us @ s # vs \<and>
     ps_status s = StRunning \<and> (\<forall>v \<in> set vs. ps_status v \<noteq> StRunning) \<and> length vs = 2"
proof -
  let ?tm = "\<lparr>tm_artifact = StaticArtifact, tm_runtime = None, tm_compatibleProviders = [Sftp], tm_port = None,
         tm_healthPath = None\<rparr> :: template_manifest"
  let ?st = "[\<lparr>ss_context = ''CI / test (push)'', ss_status = ''running'', ss_targetUrl = None\<rparr>,
              \<lparr>ss_context = ''CI / build (push)'', ss_status = ''success'', ss_targetUrl = None\<rparr>] :: scm_status list"
  let ?op = "Some \<lparr>ov_status = OpRunning, ov_hasArtifact = True\<rparr>"
  let ?s = "\<lparr>ps_name = ''test'', ps_status = StRunning, ps_url = None, ps_platform = False\<rparr> :: pipeline_stage"
  have shown: "with_deployment_state (pipeline_stages ?tm (Some ?st)) None ?op =
      take 1 (with_deployment_state (pipeline_stages ?tm (Some ?st)) None ?op) @ ?s #
      drop 2 (with_deployment_state (pipeline_stages ?tm (Some ?st)) None ?op)"
    by code_simp
  have two: "length (drop 2 (with_deployment_state (pipeline_stages ?tm (Some ?st)) None ?op)) = 2"
    by code_simp
  from pipeline_shows_progress_in_order [OF shown] shown two show ?thesis
    by (intro exI [of _ "take 1 (with_deployment_state (pipeline_stages ?tm (Some ?st)) None ?op)"]
        exI [of _ ?s] exI [of _ "drop 2 (with_deployment_state (pipeline_stages ?tm (Some ?st)) None ?op)"]) simp
qed

end
