(* ===== verification/Schema.thy ===== *)
theory Schema
  imports Domain
begin

text \<open>
  The tables of the control plane that the modelled services read and write: one record per
  Prisma model, with the columns those services use, and \<open>db\<close>, the database. Optional columns
  are options. Status columns are the datatypes of the literals the code stores in them.
\<close>

section \<open>Accounts and workspaces\<close>

record user_row =
  us_id :: string
  us_username :: string
  us_email :: "string option"
  us_name :: "string option"
  us_platformAdmin :: bool

datatype role = Owner | Admin | Maintainer | Member | Viewer

datatype approval_policy = SelfReview | SeparateReviewer

record workspace_row =
  ws_id :: string
  ws_slug :: string
  ws_name :: string
  ws_team :: bool
  ws_policy :: approval_policy
  ws_maxProjects :: nat
  ws_maxMembers :: nat
  ws_maxTargets :: nat
  ws_maxConcurrentOperations :: nat
  ws_maxArtifactBytes :: nat

record member_row =
  mb_workspaceId :: string
  mb_userId :: string
  mb_role :: role

section \<open>Targets, allocations and projects\<close>

record target_row =
  tg_id :: string
  tg_name :: string
  tg_kind :: provider_kind
  tg_scope :: target_scope
  tg_workspaceId :: "string option"
  tg_capabilities :: string
  tg_remotePath :: "string option"
  tg_publicUrl :: "string option"
  tg_managementState :: management_state
  tg_managementStateChangedAt :: "instant option"
  tg_routingMode :: routing_mode
  tg_gatewayAdapter :: "string option"
  tg_preflightStatus :: preflight_status
  tg_preflightJobId :: "string option"
  tg_preflightAt :: "instant option"
  tg_preflightError :: "string option"
  tg_gatewayCaSha256 :: "string option"
  tg_secret :: "string option"
  tg_verifiedAt :: "instant option"
  tg_updatedAt :: instant

record allocation_row =
  al_id :: string
  al_targetId :: string
  al_workspaceId :: string
  al_namespace :: string
  al_rootPath :: "string option"
  al_publicUrl :: "string option"
  al_capabilities :: string
  al_active :: bool
  al_maxEnvironments :: nat
  al_cpuLimitMillicores :: nat
  al_memoryLimitMb :: nat
  al_pidsLimit :: nat
  al_ttl :: ttl_policy
  al_updatedAt :: instant

record project_row =
  pj_id :: string
  pj_name :: string
  pj_workspaceId :: string
  pj_preset :: pipeline_preset
  pj_scmProvider :: string
  pj_scmFullName :: string
  pj_scmDefaultBranch :: string
  pj_ciDeployTokenHash :: "string option"
  pj_lastCommit :: string

datatype artifact_status = AfAccepted | AfIngesting | AfAvailable | AfFailed

record artifact_row =
  ba_id :: string
  ba_projectId :: string
  ba_sourceProvider :: string
  ba_providerArtifactId :: string
  ba_commitSha :: string
  ba_digest :: string
  ba_providerRunId :: string
  ba_storageKind :: "string option"
  ba_storageRef :: "string option"
  ba_sizeBytes :: nat
  ba_status :: artifact_status
  ba_imageRef :: "string option"
  ba_error :: "string option"
  ba_owner :: "string option"
  ba_generation :: nat
  ba_leaseExpiresAt :: "instant option"
  ba_updatedAt :: instant
  ba_createdAt :: instant

section \<open>Environments and deployment operations\<close>

record environment_row =
  en_id :: string
  en_projectId :: string
  en_name :: env_name
  en_provider :: provider_kind
  en_status :: deploy_status
  en_version :: "string option"
  en_url :: "string option"
  en_statusReason :: "string option"
  en_deploymentRequired :: bool
  en_targetId :: "string option"
  en_allocationId :: "string option"
  en_activeOperationId :: "string option"
  en_buildArtifactId :: "string option"
  en_configRevision :: nat
  en_expiresAt :: "instant option"
  en_expiryWarningAt :: "instant option"

record config_var_row =
  cv_environmentId :: string
  cv_key :: string
  cv_value :: string
  cv_isSecret :: bool
  cv_updatedAt :: instant

record operation_row =
  op_id :: string
  op_correlationId :: string
  op_environmentId :: string
  op_buildArtifactId :: "string option"
  op_kind :: string
  op_status :: op_status
  op_phase :: phase
  op_version :: "string option"
  op_message :: "string option"
  op_owner :: "string option"
  op_generation :: nat
  op_leaseExpiresAt :: "instant option"
  op_targetIdSnapshot :: "string option"
  op_targetName :: string
  op_providerSnapshot :: provider_kind
  op_createdAt :: instant
  op_finishedAt :: "instant option"

section \<open>Agents and their jobs\<close>

record agent_row =
  ag_id :: string
  ag_targetId :: string
  ag_enrollmentTokenHash :: "string option"
  ag_enrollmentExpiresAt :: "instant option"
  ag_credentialHash :: "string option"
  ag_credentialGeneration :: nat
  ag_credentialActivatedAt :: "instant option"
  ag_pendingHash :: "string option"
  ag_pendingGeneration :: "nat option"
  ag_pendingIssuedAt :: "instant option"
  ag_protocolVersion :: nat
  ag_version :: "string option"
  ag_capabilities :: "json option"
  ag_enrolledAt :: "instant option"
  ag_lastSeenAt :: "instant option"
  ag_disabledAt :: "instant option"

datatype job_status = JbBlocked | JbQueued | JbLeased | JbSucceeded | JbFailed | JbCancelled

record agent_job_row =
  aj_id :: string
  aj_correlationId :: string
  aj_targetId :: string
  aj_allocationId :: "string option"
  aj_operationId :: "string option"
  aj_operationStep :: "nat option"
  aj_gatewayRouteId :: "string option"
  aj_leasedByAgentId :: "string option"
  aj_dedupeKey :: string
  aj_kind :: string
  aj_protocolVersion :: nat
  aj_payload :: json
  aj_status :: job_status
  aj_attempt :: nat
  aj_leaseTokenHash :: "string option"
  aj_leasedAt :: "instant option"
  aj_leaseExpiresAt :: "instant option"
  aj_progressSequence :: nat
  aj_progressPercent :: nat
  aj_progressStage :: string
  aj_message :: "string option"
  aj_resultCode :: "string option"
  aj_result :: "json option"
  aj_createdAt :: instant
  aj_finishedAt :: "instant option"

datatype diag_status = DgIdle | DgQueued | DgRunning | DgSucceeded | DgFailed

record diagnostic_row =
  wd_id :: string
  wd_environmentId :: string
  wd_currentJobId :: "string option"
  wd_status :: diag_status
  wd_runtimeState :: "string option"
  wd_revision :: "string option"
  wd_exitCode :: "int option"
  wd_health :: "string option"
  wd_logs :: string
  wd_message :: "string option"
  wd_observedAt :: "instant option"
  wd_finishedAt :: "instant option"

record gateway_route_row =
  gr_id :: string
  gr_environmentId :: string
  gr_targetId :: string
  gr_allocationId :: string
  gr_hostname :: string
  gr_publicUrl :: string
  gr_desiredState :: string
  gr_desiredRevision :: "string option"
  gr_observedState :: string
  gr_observedRevision :: "string option"
  gr_generation :: nat
  gr_observedGeneration :: nat
  gr_reconcileJobId :: "string option"
  gr_lastError :: "string option"
  gr_reconciledAt :: "instant option"

section \<open>Provisioning\<close>

datatype prov_status =
  PvRunning | PvSucceeded | PvFailed | PvInterrupted | PvRetrying | PvRetried | PvCleaning

datatype prov_kind = PkCreate | PkImport

datatype prov_step = SpValidate | SpRepository | SpCi | SpDone

record provisioning_row =
  pv_id :: string
  pv_workspaceId :: string
  pv_projectId :: "string option"
  pv_projectName :: string
  pv_kind :: prov_kind
  pv_status :: prov_status
  pv_step :: prov_step
  pv_message :: "string option"
  pv_requestedById :: "string option"
  pv_request :: "json option"
  pv_retryOfId :: "string option"
  pv_attempt :: nat
  pv_leaseOwner :: "string option"
  pv_leaseExpiresAt :: "instant option"
  pv_createdAt :: instant
  pv_finishedAt :: "instant option"

datatype effect_kind = FkRepository | FkCollaborator | FkSecrets | FkProject

datatype effect_status =
  FxPlanned | FxApplying | FxApplied | FxFailed | FxCompensated | FxCompensationFailed
  | FxReconciliationRequired

record effect_row =
  fx_operationId :: string
  fx_key :: string
  fx_kind :: effect_kind
  fx_status :: effect_status
  fx_metadata :: "json option"
  fx_error :: "string option"
  fx_createdAt :: instant
  fx_appliedAt :: "instant option"
  fx_compensatedAt :: "instant option"

section \<open>Production requests\<close>

datatype request_kind = RkPromote | RkRedeploy | RkRollback

datatype request_status =
  RqPending | RqApproving | RqApproved | RqRejected | RqStale | RqCancelled

record request_row =
  rq_id :: string
  rq_workspaceId :: string
  rq_projectId :: string
  rq_projectName :: string
  rq_environmentId :: string
  rq_requestedById :: "string option"
  rq_requestedByUsername :: string
  rq_requestedByDisplayName :: "string option"
  rq_reviewedById :: "string option"
  rq_reviewedByUsername :: "string option"
  rq_reviewedByDisplayName :: "string option"
  rq_reviewedAt :: "instant option"
  rq_kind :: request_kind
  rq_status :: request_status
  rq_sourceEnvironment :: string
  rq_candidateOperationId :: "string option"
  rq_candidateStateToken :: "string option"
  rq_version :: string
  rq_buildArtifactId :: "string option"
  rq_artifactDigest :: "string option"
  rq_targetId :: "string option"
  rq_allocationId :: "string option"
  rq_targetName :: string
  rq_provider :: provider_kind
  rq_configRevision :: nat
  rq_targetRevision :: "instant option"
  rq_allocationRevision :: "instant option"
  rq_stateToken :: string
  rq_policy :: approval_policy
  rq_reviewNote :: "string option"
  rq_operationId :: "string option"
  rq_createdAt :: instant

section \<open>The audit log\<close>

datatype audit_outcome = AoAccepted | AoSucceeded | AoFailed | AoCancelled

datatype audit_op_type = AtDeployment | AtProvisioning | AtAgentJob

record audit_row =
  au_workspaceId :: "string option"
  au_actorUserId :: "string option"
  au_actorUsername :: string
  au_action :: string
  au_outcome :: audit_outcome
  au_resourceType :: string
  au_resourceId :: "string option"
  au_resourceName :: "string option"
  au_operation :: "(audit_op_type \<times> string) option"
  au_details :: "(string \<times> json) list option"

section \<open>The database\<close>

record db =
  users :: "user_row list"
  workspaces :: "workspace_row list"
  members :: "member_row list"
  targets :: "target_row list"
  allocations :: "allocation_row list"
  projects :: "project_row list"
  artifacts :: "artifact_row list"
  environments :: "environment_row list"
  configVars :: "config_var_row list"
  operations :: "operation_row list"
  agents :: "agent_row list"
  agentJobs :: "agent_job_row list"
  diagnostics :: "diagnostic_row list"
  gatewayRoutes :: "gateway_route_row list"
  provisionings :: "provisioning_row list"
  effects :: "effect_row list"
  requests :: "request_row list"
  auditEvents :: "audit_row list"

definition empty_db :: db where
  "empty_db = \<lparr>users = [], workspaces = [], members = [], targets = [], allocations = [],
     projects = [], artifacts = [], environments = [], configVars = [], operations = [], agents = [],
     agentJobs = [], diagnostics = [], gatewayRoutes = [], provisionings = [], effects = [], requests = [], auditEvents = []\<rparr>"

section \<open>Lookups the services share\<close>

definition user_by_id :: "string \<Rightarrow> db \<Rightarrow> user_row option" where
  "user_by_id i d = find_first (\<lambda>u. us_id u = i) (users d)"

definition workspace_by_id :: "string \<Rightarrow> db \<Rightarrow> workspace_row option" where
  "workspace_by_id i d = find_first (\<lambda>w. ws_id w = i) (workspaces d)"

definition project_by_id :: "string \<Rightarrow> db \<Rightarrow> project_row option" where
  "project_by_id i d = find_first (\<lambda>p. pj_id p = i) (projects d)"

definition set_last_commit :: "string \<Rightarrow> string \<Rightarrow> db \<Rightarrow> db" where
  "set_last_commit i m d = d\<lparr>projects := rewrite (\<lambda>p. pj_id p = i) (\<lambda>p. p\<lparr>pj_lastCommit := m\<rparr>) (projects d)\<rparr>"

definition target_by_id :: "string option \<Rightarrow> db \<Rightarrow> target_row option" where
  "target_by_id o' d = Option.bind o' (\<lambda>i. find_first (\<lambda>t. tg_id t = i) (targets d))"

definition allocation_by_id :: "string option \<Rightarrow> db \<Rightarrow> allocation_row option" where
  "allocation_by_id o' d = Option.bind o' (\<lambda>i. find_first (\<lambda>a. al_id a = i) (allocations d))"

definition artifact_by_id :: "string option \<Rightarrow> db \<Rightarrow> artifact_row option" where
  "artifact_by_id o' d = Option.bind o' (\<lambda>i. find_first (\<lambda>a. ba_id a = i) (artifacts d))"

definition environment_by_id :: "string \<Rightarrow> db \<Rightarrow> environment_row option" where
  "environment_by_id i d = find_first (\<lambda>e. en_id e = i) (environments d)"

definition environment_of :: "string \<Rightarrow> env_name \<Rightarrow> db \<Rightarrow> environment_row option" where
  "environment_of p n d = find_first (\<lambda>e. en_projectId e = p \<and> en_name e = n) (environments d)"

definition operation_by_id :: "string \<Rightarrow> db \<Rightarrow> operation_row option" where
  "operation_by_id i d = find_first (\<lambda>r. op_id r = i) (operations d)"

definition agent_of_target :: "string \<Rightarrow> db \<Rightarrow> agent_row option" where
  "agent_of_target i d = find_first (\<lambda>a. ag_targetId a = i) (agents d)"

definition agent_job_by_id :: "string \<Rightarrow> db \<Rightarrow> agent_job_row option" where
  "agent_job_by_id i d = find_first (\<lambda>j. aj_id j = i) (agentJobs d)"

text \<open>The workspace an environment belongs to, through its project.\<close>

definition environment_workspace :: "string \<Rightarrow> db \<Rightarrow> string option" where
  "environment_workspace i d =
     Option.bind (environment_by_id i d)
       (\<lambda>e. map_option pj_workspaceId (project_by_id (en_projectId e) d))"

lemmas lookup_defs =
  user_by_id_def workspace_by_id_def project_by_id_def target_by_id_def allocation_by_id_def
  artifact_by_id_def environment_by_id_def environment_of_def operation_by_id_def
  agent_job_by_id_def agent_of_target_def

end
