(* ===== verification/AuditLog.thy ===== *)
theory AuditLog
  imports Schema
begin

text \<open>
  The audit log (\<open>audit/audit-events.service.ts\<close>): \<open>record\<close> validates an event and writes it,
  \<open>recordOperationResult\<close> projects a terminal operation into one event, attributed to whoever
  requested it. Writing is idempotent per operation and action. The parameter \<open>down\<close> says that
  the database refuses the insert; every caller has a branch for that.
\<close>

section \<open>Formats\<close>

definition identifier_char :: "char \<Rightarrow> bool" where
  "identifier_char c = (is_lower c \<or> is_digit c \<or> c = CHR ''_'' \<or> c = CHR ''.'' \<or> c = CHR ''-'')"

definition identifier_ok :: "string \<Rightarrow> bool" where
  "identifier_ok s = (case s of [] \<Rightarrow> False | c # cs \<Rightarrow> is_lower c \<and> list_all identifier_char cs)"

definition resource_type_ok :: "string \<Rightarrow> bool" where
  "resource_type_ok s = (case s of [] \<Rightarrow> False
    | c # cs \<Rightarrow> is_lower c \<and> list_all (\<lambda>d. identifier_char d \<and> d \<noteq> CHR ''.'') cs)"

text \<open>A version 4 UUID in either case.\<close>

definition uuid_char :: "nat \<times> char \<Rightarrow> bool" where
  "uuid_char ic = (case ic of (i, c) \<Rightarrow>
     if i \<in> {8, 13, 18, 23} then c = CHR ''-''
     else if i = 14 then c = CHR ''4''
     else if i = 19 then lower_char c \<in> {CHR ''8'', CHR ''9'', CHR ''a'', CHR ''b''}
     else is_hex c)"

definition uuid_v4 :: "string \<Rightarrow> bool" where
  "uuid_v4 s = (length s = 36 \<and> list_all uuid_char (enumerate 0 s))"

section \<open>Details\<close>

text \<open>Key fragments that must not appear; \<open>_\<close> and \<open>-\<close> are optional before key and value.\<close>

definition sensitive_fragments :: "string list" where
  "sensitive_fragments =
     [''password'', ''secret'', ''token'', ''credential'', ''authorization'',
      ''privatekey'', ''private_key'', ''private-key'', ''accesskey'', ''access_key'', ''access-key'',
      ''configvalue'', ''config_value'', ''config-value'', ''log'']"

definition sensitive_detail_key :: "string \<Rightarrow> bool" where
  "sensitive_detail_key k = list_ex (\<lambda>f. contains f (lower k)) sensitive_fragments"

definition detail_key_ok :: "string \<Rightarrow> bool" where
  "detail_key_ok k = (case k of [] \<Rightarrow> False
    | c # cs \<Rightarrow> is_lower c \<and> length cs \<le> 63 \<and>
        list_all (\<lambda>d. is_lower d \<or> is_upper d \<or> is_digit d \<or> d = CHR ''_'') cs)"

definition escaped_size :: "char \<Rightarrow> nat" where
  "escaped_size c = (let n = of_char c :: nat in
     if n = 34 \<or> n = 92 \<or> n \<in> {8, 9, 10, 12, 13} then 2 else if n < 32 then 6 else 1)"

definition quoted_size :: "string \<Rightarrow> nat" where
  "quoted_size s = 2 + sum_list (map escaped_size s)"

fun value_size :: "json \<Rightarrow> nat" where
  "value_size (JStr s) = quoted_size s"
| "value_size (JNum n) = (if n < 0 then 1 else 0) + length (nat_str (nat \<bar>n\<bar>))"
| "value_size (JBool b) = (if b then 4 else 5)"
| "value_size (JFrac s) = length s"
| "value_size _ = 4"

definition details_size :: "(string \<times> json) list \<Rightarrow> nat" where
  "details_size ds = 2 + (length ds - 1)
     + sum_list (map (\<lambda>(k, v). quoted_size k + 1 + value_size v) ds)"

fun detail_error :: "(string \<times> json) list \<Rightarrow> http_error option" where
  "detail_error [] = None"
| "detail_error ((k, v) # ds) =
     (if \<not> detail_key_ok k \<or> sensitive_detail_key k
      then Some (ServerError (''Unsafe audit detail key '' @ k))
      else if (case v of JStr s \<Rightarrow> length s > 256 | _ \<Rightarrow> False)
      then Some (ServerError (''Audit detail '' @ k @ '' exceeds 256 characters''))
      else detail_error ds)"

definition safe_details ::
  "(string \<times> json) list option \<Rightarrow> (string \<times> json) list option outcome" where
  "safe_details details = (case details of
      None \<Rightarrow> Inr None
    | Some ds \<Rightarrow>
        if length ds > 20
        then Inl (ServerError ''Audit event details may contain at most 20 fields'')
        else (case detail_error ds of
            Some e \<Rightarrow> Inl e
          | None \<Rightarrow>
              if details_size ds > 4096
              then Inl (ServerError ''Audit event details exceed 4096 bytes'')
              else Inr (Some ds)))"

section \<open>Actions\<close>

datatype audit_stage = Requested | Completed

fun stage_str :: "audit_stage \<Rightarrow> string" where
  "stage_str Requested = ''requested''"
| "stage_str Completed = ''completed''"

definition deployment_action :: "string \<Rightarrow> audit_stage \<Rightarrow> string" where
  "deployment_action kind stage = ''environment.'' @
     (if kind = ''promote'' then ''promotion''
      else if kind = ''rollback'' then ''rollback''
      else if kind = ''start'' then ''start''
      else if kind = ''stop'' then ''stop''
      else if kind = ''remove'' then ''teardown''
      else ''deployment'') @ ''_'' @ stage_str stage"

definition provisioning_action :: "prov_kind \<Rightarrow> audit_stage \<Rightarrow> string" where
  "provisioning_action kind stage = ''project.'' @
     (case kind of PkImport \<Rightarrow> ''import'' | PkCreate \<Rightarrow> ''creation'') @ ''_'' @ stage_str stage"

section \<open>Writing\<close>

record audit_input =
  ai_workspaceId :: "string option"
  ai_actorUserId :: "string option"
  ai_anonymous :: bool
  ai_action :: string
  ai_outcome :: "audit_outcome option"
  ai_resourceType :: string
  ai_resourceId :: "string option"
  ai_resourceName :: "string option"
  ai_operation :: "(audit_op_type \<times> string) option"
  ai_details :: "(string \<times> json) list option"

text \<open>The unique key of operation events; an event without an operation is never a duplicate.\<close>

definition duplicate_event :: "audit_row \<Rightarrow> audit_row list \<Rightarrow> bool" where
  "duplicate_event e es = (case au_operation e of
      None \<Rightarrow> False
    | Some k \<Rightarrow> list_ex (\<lambda>x. au_operation x = Some k \<and> au_action x = au_action e) es)"

definition create_once :: "bool \<Rightarrow> audit_row \<Rightarrow> db \<Rightarrow> db \<times> unit outcome" where
  "create_once down e d =
     (if down then (d, Inl (ServerError ''database unavailable''))
      else if duplicate_event e (auditEvents d) then (d, Inr ())
      else (d\<lparr>auditEvents := create e (auditEvents d)\<rparr>, Inr ()))"

definition audit_record :: "bool \<Rightarrow> audit_input \<Rightarrow> db \<Rightarrow> db \<times> unit outcome" where
  "audit_record down i d =
     (if \<not> identifier_ok (ai_action i) \<or> length (ai_action i) > 80
      then (d, Inl (ServerError (''Invalid audit action '' @ ai_action i)))
      else if \<not> resource_type_ok (ai_resourceType i) \<or> length (ai_resourceType i) > 40
      then (d, Inl (ServerError (''Invalid audit resource type '' @ ai_resourceType i)))
      else if (case ai_resourceName i of Some n \<Rightarrow> length n > 256 | None \<Rightarrow> False)
      then (d, Inl (ServerError ''Audit resource name exceeds 256 characters''))
      else if (case ai_operation i of Some (_, o') \<Rightarrow> \<not> uuid_v4 o' | None \<Rightarrow> False)
      then (d, Inl (ServerError ''Invalid audit operation id''))
      else (let actor = (if truthy (ai_actorUserId i)
                         then user_by_id (the (ai_actorUserId i)) d else None)
            in if truthy (ai_actorUserId i) \<and> actor = None
               then (d, Inl (ServerError ''Audit actor does not exist''))
               else (case safe_details (ai_details i) of
                   Inl e \<Rightarrow> (d, Inl e)
                 | Inr details \<Rightarrow>
                     create_once down
                       \<lparr>au_workspaceId = ai_workspaceId i,
                        au_actorUserId = ai_actorUserId i,
                        au_actorUsername = (case actor of
                            Some u \<Rightarrow> us_username u
                          | None \<Rightarrow> if ai_anonymous i then ''anonymous'' else ''initpad''),
                        au_action = ai_action i,
                        au_outcome = (case ai_outcome i of None \<Rightarrow> AoSucceeded | Some o' \<Rightarrow> o'),
                        au_resourceType = ai_resourceType i,
                        au_resourceId = ai_resourceId i,
                        au_resourceName = ai_resourceName i,
                        au_operation = ai_operation i,
                        au_details = details\<rparr> d)))"

text \<open>The terminal event of an operation is attributed to the user of its accepted event.\<close>

definition record_terminal :: "bool \<Rightarrow> audit_row \<Rightarrow> db \<Rightarrow> db \<times> unit outcome" where
  "record_terminal down e d =
     (let request = find_first (\<lambda>x. au_workspaceId x = au_workspaceId e \<and>
            au_operation x = au_operation e \<and> au_outcome x = AoAccepted) (auditEvents d)
      in case safe_details (au_details e) of
           Inl err \<Rightarrow> (d, Inl err)
         | Inr details \<Rightarrow>
             create_once down
               (e\<lparr>au_actorUserId := Option.bind request au_actorUserId,
                  au_actorUsername := (case request of
                      Some r \<Rightarrow> au_actorUsername r | None \<Rightarrow> ''initpad''),
                  au_details := details\<rparr>) d)"

fun result_outcome :: "op_result \<Rightarrow> audit_outcome" where
  "result_outcome Succeeded = AoSucceeded"
| "result_outcome Failed = AoFailed"
| "result_outcome Cancelled = AoCancelled"

fun prov_kind_str :: "prov_kind \<Rightarrow> string" where
  "prov_kind_str PkCreate = ''create''"
| "prov_kind_str PkImport = ''import''"

definition record_deployment_result :: "bool \<Rightarrow> string \<Rightarrow> db \<Rightarrow> db \<times> unit outcome" where
  "record_deployment_result down opId d =
     (if \<not> uuid_v4 opId then (d, Inl (ServerError ''Invalid audit operation id''))
      else case operation_by_id opId d of
        None \<Rightarrow> (d, Inr ())
      | Some r \<Rightarrow> (case op_status r of
          OpRunning \<Rightarrow> (d, Inr ())
        | OpResult res \<Rightarrow>
            (case environment_by_id (op_environmentId r) d of
               None \<Rightarrow> (d, Inr ())
             | Some e \<Rightarrow> (case project_by_id (en_projectId e) d of
                 None \<Rightarrow> (d, Inr ())
               | Some p \<Rightarrow>
                   record_terminal down
                     \<lparr>au_workspaceId = Some (pj_workspaceId p), au_actorUserId = None,
                      au_actorUsername = ''initpad'',
                      au_action = deployment_action (op_kind r) Completed,
                      au_outcome = result_outcome res,
                      au_resourceType = ''project'', au_resourceId = Some (pj_id p),
                      au_resourceName = Some (pj_name p),
                      au_operation = Some (AtDeployment, opId),
                      au_details = Some [(''environment'', JStr (env_name_str (en_name e))),
                                         (''kind'', JStr (op_kind r))]\<rparr> d))))"

definition record_provisioning_result :: "bool \<Rightarrow> string \<Rightarrow> db \<Rightarrow> db \<times> unit outcome" where
  "record_provisioning_result down opId d =
     (if \<not> uuid_v4 opId then (d, Inl (ServerError ''Invalid audit operation id''))
      else case find_first (\<lambda>r. pv_id r = opId) (provisionings d) of
        None \<Rightarrow> (d, Inr ())
      | Some r \<Rightarrow>
          if pv_status r \<notin> {PvSucceeded, PvFailed, PvInterrupted} then (d, Inr ())
          else record_terminal down
            \<lparr>au_workspaceId = Some (pv_workspaceId r), au_actorUserId = None,
             au_actorUsername = ''initpad'',
             au_action = provisioning_action (pv_kind r) Completed,
             au_outcome = (if pv_status r = PvSucceeded then AoSucceeded else AoFailed),
             au_resourceType = ''project'', au_resourceId = pv_projectId r,
             au_resourceName = Some (pv_projectName r),
             au_operation = Some (AtProvisioning, opId),
             au_details = Some [(''kind'', JStr (prov_kind_str (pv_kind r))),
                                (''attempt'', JNum (int (pv_attempt r)))]\<rparr> d)"

text \<open>Callers that must not fail on an audit outage swallow the exception.\<close>

definition record_safely :: "(db \<Rightarrow> db \<times> unit outcome) \<Rightarrow> db \<Rightarrow> db" where
  "record_safely f d = fst (f d)"

text \<open>The definitions that evaluate a recording on a concrete event.\<close>

lemmas audit_eval =
  audit_record_def create_once_def duplicate_event_def identifier_ok_def identifier_char_def
  resource_type_ok_def safe_details_def detail_key_ok_def sensitive_detail_key_def
  sensitive_fragments_def lower_def lower_char_def is_lower_def is_upper_def is_digit_def
  details_size_def quoted_size_def escaped_size_def list_ex_iff user_by_id_def Let_def

section \<open>Lemmas\<close>

text \<open>Auditing changes nothing but the log, and only appends.\<close>

definition only_audit :: "db \<Rightarrow> db \<Rightarrow> bool" where
  "only_audit d d' \<longleftrightarrow> (\<exists>es. d' = d\<lparr>auditEvents := auditEvents d @ es\<rparr>)"

lemma only_audit_refl [simp, intro]: "only_audit d d"
  by (auto simp: only_audit_def intro!: exI [of _ "[]"])

lemma only_audit_frame:
  assumes "only_audit d d'"
  shows "users d' = users d" "workspaces d' = workspaces d" "members d' = members d"
    "targets d' = targets d" "allocations d' = allocations d" "projects d' = projects d"
    "artifacts d' = artifacts d" "environments d' = environments d"
    "operations d' = operations d" "agentJobs d' = agentJobs d"
    "provisionings d' = provisionings d" "effects d' = effects d" "requests d' = requests d"
    "agents d' = agents d" "diagnostics d' = diagnostics d" "gatewayRoutes d' = gatewayRoutes d"
  using assms by (auto simp: only_audit_def)

lemma only_audit_append [simp]: "only_audit d (d\<lparr>auditEvents := create e (auditEvents d)\<rparr>)"
  by (auto simp: only_audit_def create_def)

lemma only_audit_create_once: "only_audit d (fst (create_once down e d))"
  by (simp add: create_once_def)

lemma only_audit_record: "only_audit d (fst (audit_record down i d))"
  by (auto simp: audit_record_def Let_def only_audit_create_once split: sum.splits)

lemma only_audit_terminal: "only_audit d (fst (record_terminal down e d))"
  by (auto simp: record_terminal_def Let_def only_audit_create_once split: sum.splits)

lemma only_audit_deployment_result: "only_audit d (fst (record_deployment_result down i d))"
  by (auto simp: record_deployment_result_def only_audit_terminal
      split: option.splits op_status.splits)

lemma only_audit_provisioning_result: "only_audit d (fst (record_provisioning_result down i d))"
  by (auto simp: record_provisioning_result_def only_audit_terminal split: option.splits)

lemma audit_record_frame [simp]:
  "environments (fst (audit_record down i d)) = environments d"
  "operations (fst (audit_record down i d)) = operations d"
  "projects (fst (audit_record down i d)) = projects d"
  "workspaces (fst (audit_record down i d)) = workspaces d"
  "members (fst (audit_record down i d)) = members d"
  "requests (fst (audit_record down i d)) = requests d"
  "provisionings (fst (audit_record down i d)) = provisionings d"
  "effects (fst (audit_record down i d)) = effects d"
  "agentJobs (fst (audit_record down i d)) = agentJobs d"
  "targets (fst (audit_record down i d)) = targets d"
  "allocations (fst (audit_record down i d)) = allocations d"
  "artifacts (fst (audit_record down i d)) = artifacts d"
  "users (fst (audit_record down i d)) = users d"
  "agents (fst (audit_record down i d)) = agents d"
  using only_audit_frame [OF only_audit_record] by auto

text \<open>The log holds at most one event per operation and action.\<close>

definition audit_unique :: "audit_row list \<Rightarrow> bool" where
  "audit_unique es \<longleftrightarrow>
     distinct (map (\<lambda>e. (au_operation e, au_action e)) (filter (\<lambda>e. au_operation e \<noteq> None) es))"

lemma audit_unique_create_once:
  "audit_unique (auditEvents d) \<Longrightarrow> audit_unique (auditEvents (fst (create_once down e d)))"
  by (auto simp: create_once_def audit_unique_def create_def duplicate_event_def list_ex_iff
      split: option.splits)

lemma audit_unique_record:
  "audit_unique (auditEvents d) \<Longrightarrow> audit_unique (auditEvents (fst (audit_record down i d)))"
  by (auto simp: audit_record_def Let_def audit_unique_create_once split: sum.splits)

lemma audit_unique_terminal:
  "audit_unique (auditEvents d) \<Longrightarrow> audit_unique (auditEvents (fst (record_terminal down e d)))"
  by (auto simp: record_terminal_def Let_def audit_unique_create_once split: sum.splits)

text \<open>No event carries a detail whose key names a secret.\<close>

lemma detail_error_None:
  "detail_error ds = None \<Longrightarrow> (k, v) \<in> set ds \<Longrightarrow>
     detail_key_ok k \<and> \<not> sensitive_detail_key k \<and> (\<forall>s. v = JStr s \<longrightarrow> length s \<le> 256)"
  by (induction ds rule: detail_error.induct) (auto split: if_splits json.splits)

lemma safe_details_sound:
  assumes "safe_details d = Inr (Some ds)" and "(k, v) \<in> set ds"
  shows "\<not> sensitive_detail_key k" and "length ds \<le> 20" and "details_size ds \<le> 4096"
  using assms detail_error_None [of ds k v]
  by (auto simp: safe_details_def split: option.splits if_splits)

text \<open>What every stored event satisfies: bounded details, none of them named like a secret.\<close>

definition clean_event :: "audit_row \<Rightarrow> bool" where
  "clean_event e \<longleftrightarrow> (case au_details e of None \<Rightarrow> True | Some ds \<Rightarrow>
     length ds \<le> 20 \<and> details_size ds \<le> 4096 \<and>
     (\<forall>(k, v) \<in> set ds. \<not> sensitive_detail_key k \<and> (\<forall>s. v = JStr s \<longrightarrow> length s \<le> 256)))"

lemma safe_details_clean:
  assumes "safe_details d = Inr ds" and "au_details e = ds"
  shows "clean_event e"
  using assms detail_error_None
  by (fastforce simp: clean_event_def safe_details_def split: option.splits if_splits)

text \<open>Old events stay unless \<open>R\<close> allows their removal; new ones come at the end and are clean.\<close>

definition grows_clean :: "(audit_row \<Rightarrow> bool) \<Rightarrow> audit_row list \<Rightarrow> audit_row list \<Rightarrow> bool" where
  "grows_clean R es es' \<longleftrightarrow>
     (\<exists>kept new. es' = filter kept es @ new \<and> (\<forall>e. \<not> R e \<longrightarrow> kept e) \<and> list_all clean_event new)"

lemma grows_clean_append: "list_all clean_event new \<Longrightarrow> grows_clean R es (es @ new)"
  unfolding grows_clean_def by (rule exI [of _ "\<lambda>_. True"]) simp

lemma grows_clean_refl [simp]: "grows_clean R es es"
  using grows_clean_append [of "[]" R es] by simp

lemma grows_clean_trans:
  assumes "grows_clean R a b" and "grows_clean R b c"
  shows "grows_clean R a c"
proof -
  from assms obtain p n q m where b: "b = filter p a @ n" "\<forall>e. \<not> R e \<longrightarrow> p e" "list_all clean_event n"
    and c: "c = filter q b @ m" "\<forall>e. \<not> R e \<longrightarrow> q e" "list_all clean_event m"
    by (auto simp: grows_clean_def)
  have "c = filter (\<lambda>e. p e \<and> q e) a @ (filter q n @ m)" using b(1) c(1) by (simp add: conj_commute)
  moreover have "list_all clean_event (filter q n @ m)" using b(3) c(3) by (auto simp: list_all_iff)
  ultimately show ?thesis using b(2) c(2) unfolding grows_clean_def by blast
qed

lemma grows_clean_removal: "(\<And>e. p e \<Longrightarrow> R e) \<Longrightarrow> grows_clean R es (delete_many p es)"
  unfolding grows_clean_def delete_many_def by (intro exI [of _ "\<lambda>e. \<not> p e"] exI [of _ "[]"]) auto

lemma grows_clean_create_once:
  "clean_event e \<Longrightarrow> grows_clean R (auditEvents d) (auditEvents (fst (create_once down e d)))"
  by (auto simp: create_once_def create_def intro!: grows_clean_append)

lemma grows_clean_record: "grows_clean R (auditEvents d) (auditEvents (fst (audit_record down i d)))"
proof (cases "safe_details (ai_details i)")
  case (Inl err)
  then show ?thesis by (simp add: audit_record_def Let_def)
next
  case (Inr ds)
  have "clean_event e" if "au_details e = ds" for e using safe_details_clean [OF Inr that] .
  with Inr show ?thesis by (auto simp: audit_record_def Let_def intro!: grows_clean_create_once)
qed

lemma grows_clean_terminal: "grows_clean R (auditEvents d) (auditEvents (fst (record_terminal down e d)))"
proof (cases "safe_details (au_details e)")
  case (Inl err)
  then show ?thesis by (simp add: record_terminal_def Let_def)
next
  case (Inr ds)
  have "clean_event x" if "au_details x = ds" for x using safe_details_clean [OF Inr that] .
  with Inr show ?thesis by (auto simp: record_terminal_def Let_def intro!: grows_clean_create_once)
qed

lemma deployment_result_cases:
  "(\<exists>r. record_deployment_result down i d = (d, r)) \<or>
     (\<exists>e. record_deployment_result down i d = record_terminal down e d)"
  unfolding record_deployment_result_def by (auto split: option.splits op_status.splits)

lemma provisioning_result_cases:
  "(\<exists>r. record_provisioning_result down i d = (d, r)) \<or>
     (\<exists>e. record_provisioning_result down i d = record_terminal down e d)"
  unfolding record_provisioning_result_def by (auto split: option.splits)

text \<open>
  Any history of the log: calls of its three operations (with the store up or down) between arbitrary
  changes of the rest of the database, in any order. Events are also removed, by the retention sweep
  and with a deleted workspace: \<open>R\<close> holds of the events such a removal may take.
\<close>

inductive audit_run :: "(audit_row \<Rightarrow> bool) \<Rightarrow> db \<Rightarrow> db \<Rightarrow> bool" for R where
  start: "audit_run R d d"
| other: "audit_run R d d1 \<Longrightarrow> auditEvents d2 = auditEvents d1 \<Longrightarrow> audit_run R d d2"
| removal: "audit_run R d d1 \<Longrightarrow> (\<And>e. p e \<Longrightarrow> R e) \<Longrightarrow>
    auditEvents d2 = delete_many p (auditEvents d1) \<Longrightarrow> audit_run R d d2"
| event: "audit_run R d d1 \<Longrightarrow> audit_run R d (fst (audit_record down i d1))"
| deployment: "audit_run R d d1 \<Longrightarrow> audit_run R d (fst (record_deployment_result down i d1))"
| provisioning: "audit_run R d d1 \<Longrightarrow> audit_run R d (fst (record_provisioning_result down i d1))"

lemma audit_unique_removal: "audit_unique es \<Longrightarrow> audit_unique (delete_many p es)"
proof (induction es)
  case (Cons a es)
  then show ?case by (auto simp: audit_unique_def delete_many_def image_iff) (metis option.inject)+
qed (simp add: delete_many_def)


definition login_event :: audit_input where
  "login_event = \<lparr>ai_workspaceId = None, ai_actorUserId = None, ai_anonymous = True,
     ai_action = ''auth.login'', ai_outcome = None, ai_resourceType = ''account'',
     ai_resourceId = None, ai_resourceName = None, ai_operation = None,
     ai_details = Some [(''method'', JStr ''local'')]\<rparr>"

text \<open>The witness: the event of a deleted workspace goes, and a sign-in is recorded.\<close>

definition old_event :: audit_row where
  "old_event = \<lparr>au_workspaceId = Some ''w'', au_actorUserId = None, au_actorUsername = ''initpad'',
     au_action = ''workspace.created'', au_outcome = AoSucceeded, au_resourceType = ''workspace'',
     au_resourceId = Some ''w'', au_resourceName = None, au_operation = None, au_details = None\<rparr>"


end
