(* ===== verification/Rollback.thy ===== *)
theory Rollback
  imports AuditLog "HOL-Library.List_Lexorder"
begin

text \<open>
  Rollback to a previously verified publication (\<open>projects/project-rollback.ts\<close>): the preview
  selects the newest successful publication of the environment that is not the current one, and the
  execution schedules it only if the state token of the preview is the one the user confirmed.

  \<open>digest\<close> stands for the hexadecimal SHA-256 of the serialised state, \<open>schedule\<close> for the
  scheduling of a deployment. Instants stand for their ISO strings inside a state token.
\<close>

definition deployment_publication_kinds :: "string list" where
  "deployment_publication_kinds =
     [''ci-deploy'', ''promote'', ''redeploy'', ''retry'', ''artifact-recovery'', ''rollback'']"

text \<open>The pattern of immutable versions: forty hexadecimal digits.\<close>

definition immutable_version :: "string \<Rightarrow> bool" where
  "immutable_version v = (length v = 40 \<and> list_all is_hex v)"

record artifact_identity =
  ai_id :: string
  ai_provider :: string
  ai_digest :: string
  ai_runId :: string

definition identity_of :: "artifact_row \<Rightarrow> artifact_identity" where
  "identity_of a = \<lparr>ai_id = ba_id a, ai_provider = ba_sourceProvider a, ai_digest = ba_digest a,
     ai_runId = ba_providerRunId a\<rparr>"

record rollback_preview =
  rp_candidateOperationId :: string
  rp_environment :: env_name
  rp_target :: string
  rp_currentVersion :: "string option"
  rp_rollbackVersion :: string
  rp_currentArtifact :: "artifact_identity option"
  rp_rollbackArtifact :: "artifact_identity option"
  rp_sourceDeployedAt :: instant
  rp_stateToken :: string

fun status_str :: "deploy_status \<Rightarrow> string" where
  "status_str EsEmpty = ''empty''"
| "status_str EsDeploying = ''deploying''"
| "status_str EsRunning = ''running''"
| "status_str EsFailed = ''failed''"
| "status_str EsStopped = ''stopped''"

text \<open>The variables of an environment in the order of their keys.\<close>

definition config_vars :: "string \<Rightarrow> db \<Rightarrow> config_var_row list" where
  "config_vars i d = sort_key (\<lambda>v. map (of_char :: char \<Rightarrow> nat) (cv_key v))
     (filter (\<lambda>v. cv_environmentId v = i) (configVars d))"

definition rollback_token_fields :: "environment_row \<Rightarrow> db \<Rightarrow> json list" where
  "rollback_token_fields e d =
     [JStr (en_id e), json_str (en_targetId e), json_str (en_version e),
      json_str (en_buildArtifactId e), JStr (status_str (en_status e)),
      JBool (en_deploymentRequired e), json_str (en_activeOperationId e),
      JArr (map (\<lambda>v. JArr [JStr (cv_key v), JNum (cv_updatedAt v)]) (config_vars (en_id e) d))]"

definition rollback_state_token :: "(json list \<Rightarrow> string) \<Rightarrow> environment_row \<Rightarrow> db \<Rightarrow> string" where
  "rollback_state_token digest e d = digest (rollback_token_fields e d)"

text \<open>A negated comparison with a nullable column is false on NULL, as in SQL.\<close>

definition other_publication :: "environment_row \<Rightarrow> operation_row \<Rightarrow> bool" where
  "other_publication e r =
     (if truthy (en_buildArtifactId e)
      then op_buildArtifactId r \<noteq> None \<and> op_buildArtifactId r \<noteq> en_buildArtifactId e
      else if truthy (en_version e) then op_version r \<noteq> en_version e
      else True)"

definition publications :: "environment_row \<Rightarrow> db \<Rightarrow> operation_row list" where
  "publications e d = take 20 (newest_first op_createdAt (filter
     (\<lambda>r. op_environmentId r = en_id e \<and> op_status r = OpResult Succeeded \<and>
        op_kind r \<in> set deployment_publication_kinds \<and> op_version r \<noteq> None \<and> other_publication e r)
     (operations d)))"

definition same_as_current :: "environment_row \<Rightarrow> operation_row \<Rightarrow> bool" where
  "same_as_current e r = (if truthy (en_buildArtifactId e)
     then op_buildArtifactId r = en_buildArtifactId e else op_version r = en_version e)"

definition durable_artifact :: "artifact_row \<Rightarrow> bool" where
  "durable_artifact a = (ba_status a = AfAvailable \<and> ba_storageKind a = Some ''object-store'' \<and>
     truthy (ba_storageRef a))"

definition durable_artifact_required :: "environment_row \<Rightarrow> project_row \<Rightarrow> db \<Rightarrow> bool" where
  "durable_artifact_required e pr d = (pj_scmProvider pr = ''github'' \<or>
     (en_provider e = Docker \<and> map_option tg_scope (target_by_id (en_targetId e) d) = Some UserScope))"

definition rollback_candidate :: "environment_row \<Rightarrow> project_row \<Rightarrow> db \<Rightarrow> operation_row \<Rightarrow> bool" where
  "rollback_candidate e pr d r =
     (case op_version r of None \<Rightarrow> False
      | Some v \<Rightarrow> v \<noteq> [] \<and> immutable_version v \<and> \<not> same_as_current e r \<and>
          (if \<not> durable_artifact_required e pr d then True
           else (case artifact_by_id (op_buildArtifactId r) d of
               None \<Rightarrow> False | Some a \<Rightarrow> durable_artifact a)))"

definition rollback_preview_of ::
  "(json list \<Rightarrow> string) \<Rightarrow> string \<Rightarrow> env_name \<Rightarrow> db \<Rightarrow> rollback_preview option outcome" where
  "rollback_preview_of digest p n d =
     (case environment_of p n d of
        None \<Rightarrow> Inl (NotFound (''Environment '' @ [CHR 0x27] @ env_name_str n @ [CHR 0x27] @ '' not found''))
      | Some e \<Rightarrow> (case project_by_id p d of
          None \<Rightarrow> Inl (ServerError ''project relation'')
        | Some pr \<Rightarrow>
          if truthy (en_activeOperationId e) then Inr None
          else (case find_first (rollback_candidate e pr d) (publications e d) of
              None \<Rightarrow> Inr None
            | Some r \<Rightarrow> Inr (Some
               \<lparr>rp_candidateOperationId = op_id r, rp_environment = n,
                rp_target = (case target_by_id (en_targetId e) d of
                    Some g \<Rightarrow> tg_name g | None \<Rightarrow> provider_str (en_provider e)),
                rp_currentVersion = en_version e,
                rp_rollbackVersion = the (op_version r),
                rp_currentArtifact = map_option identity_of (artifact_by_id (en_buildArtifactId e) d),
                rp_rollbackArtifact = map_option identity_of (artifact_by_id (op_buildArtifactId r) d),
                rp_sourceDeployedAt = (case op_finishedAt r of Some t \<Rightarrow> t | None \<Rightarrow> op_createdAt r),
                rp_stateToken = rollback_state_token digest e d\<rparr>))))"

definition rollback_execute ::
  "(json list \<Rightarrow> string) \<Rightarrow> (string \<Rightarrow> env_name \<Rightarrow> string \<Rightarrow> string option \<Rightarrow> string option \<Rightarrow> db \<Rightarrow> db \<times> unit outcome)
     \<Rightarrow> string \<Rightarrow> env_name \<Rightarrow> string \<Rightarrow> string \<Rightarrow> string option \<Rightarrow> db \<Rightarrow> db \<times> unit outcome" where
  "rollback_execute digest schedule p n candidate token actor d =
     (case rollback_preview_of digest p n d of
        Inl e \<Rightarrow> (d, Inl e)
      | Inr None \<Rightarrow> (d, Inl (BadRequest (''Environment '' @ [CHR 0x27] @ env_name_str n @ [CHR 0x27] @
          '' has no available previous verified deployment'')))
      | Inr (Some v) \<Rightarrow>
          if rp_stateToken v \<noteq> token
          then (d, Inl (Conflict ''Environment, target, or configuration changed after rollback confirmation was opened. Review it again.''))
          else if rp_candidateOperationId v \<noteq> candidate
          then (d, Inl (Conflict ''The previous verified deployment changed. Review rollback again.''))
          else schedule p n (rp_rollbackVersion v) (map_option ai_id (rp_rollbackArtifact v)) actor d)"

section \<open>Lemmas\<close>

lemma rollback_preview_found:
  assumes "rollback_preview_of digest p n d = Inr (Some v)"
  obtains e pr r where "environment_of p n d = Some e" "project_by_id p d = Some pr"
    "\<not> truthy (en_activeOperationId e)" "r \<in> set (publications e d)" "rollback_candidate e pr d r"
    "rp_candidateOperationId v = op_id r" "op_version r = Some (rp_rollbackVersion v)"
    "rp_rollbackArtifact v = map_option identity_of (artifact_by_id (op_buildArtifactId r) d)"
    "rp_stateToken v = rollback_state_token digest e d"
proof -
  from assms obtain e pr r where found: "environment_of p n d = Some e" "project_by_id p d = Some pr"
    "\<not> truthy (en_activeOperationId e)"
    "find_first (rollback_candidate e pr d) (publications e d) = Some r"
    and v: "rp_candidateOperationId v = op_id r" "rp_rollbackVersion v = the (op_version r)"
      "rp_rollbackArtifact v = map_option identity_of (artifact_by_id (op_buildArtifactId r) d)"
      "rp_stateToken v = rollback_state_token digest e d"
    by (auto simp: rollback_preview_of_def split: option.splits if_splits)
  from find_first_Some [OF found(4)] have r: "r \<in> set (publications e d)" "rollback_candidate e pr d r"
    by auto
  from r(2) have "op_version r \<noteq> None" by (auto simp: rollback_candidate_def split: option.splits)
  with that [OF found(1-3) r] v show ?thesis by auto
qed

lemma in_publications:
  "r \<in> set (publications e d) \<Longrightarrow> r \<in> set (operations d) \<and> op_environmentId r = en_id e \<and>
     op_status r = OpResult Succeeded \<and> op_kind r \<in> set deployment_publication_kinds \<and>
     other_publication e r"
  unfolding publications_def by (drule in_set_takeD) simp

lemma rollback_execute_scheduled:
  assumes "rollback_execute digest schedule p n cand token actor d = (d', Inr u)"
  obtains v where "rollback_preview_of digest p n d = Inr (Some v)" "rp_stateToken v = token"
    "rp_candidateOperationId v = cand"
    "schedule p n (rp_rollbackVersion v) (map_option ai_id (rp_rollbackArtifact v)) actor d = (d', Inr u)"
  using assms by (auto simp: rollback_execute_def split: sum.splits option.splits if_splits)

section \<open>Properties\<close>

text \<open>
  C8: A rollback only ever publishes a verified earlier build. When \<open>execute\<close> succeeds, what it
  scheduled is the version and the artifact of an operation of the same environment that had
  succeeded as a publication, whose version is a full commit hash, that is not what the environment
  runs now. For a GitHub project, and on a Docker target of a user, that artifact exists, is available
  and lies in the object store; elsewhere the scheduled artifact is the operation's, if its row still
  exists, and none otherwise. The environment has no operation in progress. If the digest is collision
  free on the two states, the environment's target, version, artifact, status and variables are those
  the user confirmed.
\<close>

theorem rollback_publishes_verified_build:
  assumes "rollback_execute digest schedule p n cand token actor d = (d', Inr u)"
    and "token = digest confirmed"
    and "\<And>xs. digest xs = digest confirmed \<Longrightarrow> xs = confirmed"
  shows "\<exists>e pr r v. environment_of p n d = Some e \<and> project_by_id p d = Some pr \<and>
    \<not> truthy (en_activeOperationId e) \<and>
    r \<in> set (operations d) \<and> op_id r = cand \<and> op_environmentId r = en_id e \<and>
    op_status r = OpResult Succeeded \<and> op_kind r \<in> set deployment_publication_kinds \<and>
    op_version r = Some v \<and> length v = 40 \<and> list_all is_hex v \<and>
    (if truthy (en_buildArtifactId e) then op_buildArtifactId r \<noteq> en_buildArtifactId e
     else op_version r \<noteq> en_version e) \<and>
    (pj_scmProvider pr = ''github'' \<or>
     (en_provider e = Docker \<and> map_option tg_scope (target_by_id (en_targetId e) d) = Some UserScope) \<longrightarrow>
       (\<exists>a. artifact_by_id (op_buildArtifactId r) d = Some a \<and> op_buildArtifactId r = Some (ba_id a) \<and>
          ba_status a = AfAvailable \<and> ba_storageKind a = Some ''object-store'' \<and> truthy (ba_storageRef a))) \<and>
    rollback_token_fields e d = confirmed \<and>
    schedule p n v (map_option ba_id (artifact_by_id (op_buildArtifactId r) d)) actor d = (d', Inr u)"
proof -
  from rollback_execute_scheduled [OF assms(1)] obtain v where
    v: "rollback_preview_of digest p n d = Inr (Some v)" "rp_stateToken v = token"
      "rp_candidateOperationId v = cand"
      "schedule p n (rp_rollbackVersion v) (map_option ai_id (rp_rollbackArtifact v)) actor d = (d', Inr u)"
    by blast
  from rollback_preview_found [OF v(1)] obtain e pr r where
    r: "environment_of p n d = Some e" "project_by_id p d = Some pr" "\<not> truthy (en_activeOperationId e)"
      "r \<in> set (publications e d)" "rollback_candidate e pr d r" "rp_candidateOperationId v = op_id r"
      "op_version r = Some (rp_rollbackVersion v)"
      "rp_rollbackArtifact v = map_option identity_of (artifact_by_id (op_buildArtifactId r) d)"
      "rp_stateToken v = rollback_state_token digest e d"
    by blast
  have "digest (rollback_token_fields e d) = digest confirmed"
    using r(9) v(2) assms(2) by (simp add: rollback_state_token_def)
  then have token: "rollback_token_fields e d = confirmed" by (rule assms(3))
  have "map_option ai_id (map_option identity_of x) = map_option ba_id x" for x
    by (cases x) (simp_all add: identity_of_def)
  with v(4) r(8) have sched: "schedule p n (rp_rollbackVersion v)
      (map_option ba_id (artifact_by_id (op_buildArtifactId r) d)) actor d = (d', Inr u)" by simp
  have key: "x = Some (ba_id a)" if "artifact_by_id x d = Some a" for x a
    using that by (cases x) (auto simp: artifact_by_id_def dest: find_first_Some)
  have cand: "length (rp_rollbackVersion v) = 40" "list_all is_hex (rp_rollbackVersion v)"
      "\<not> same_as_current e r"
      "durable_artifact_required e pr d \<longrightarrow> (\<exists>a. artifact_by_id (op_buildArtifactId r) d = Some a \<and> durable_artifact a)"
    using r(5,7) by (auto simp: rollback_candidate_def immutable_version_def split: option.splits if_splits)
  have durable: "pj_scmProvider pr = ''github'' \<or>
      (en_provider e = Docker \<and> map_option tg_scope (target_by_id (en_targetId e) d) = Some UserScope) \<longrightarrow>
        (\<exists>a. artifact_by_id (op_buildArtifactId r) d = Some a \<and> op_buildArtifactId r = Some (ba_id a) \<and>
          ba_status a = AfAvailable \<and> ba_storageKind a = Some ''object-store'' \<and> truthy (ba_storageRef a))"
    using cand(4) key unfolding durable_artifact_required_def durable_artifact_def by blast
  have other: "if truthy (en_buildArtifactId e) then op_buildArtifactId r \<noteq> en_buildArtifactId e
      else op_version r \<noteq> en_version e"
    using cand(3) by (simp add: same_as_current_def split: if_splits)
  have pub: "r \<in> set (operations d) \<and> op_environmentId r = en_id e \<and> op_status r = OpResult Succeeded \<and>
      op_kind r \<in> set deployment_publication_kinds"
    using in_publications [OF r(4)] by simp
  show ?thesis
    apply (rule exI [of _ e], rule exI [of _ pr], rule exI [of _ r], rule exI [of _ "rp_rollbackVersion v"])
    using r(1-3,6,7) v(3) pub cand(1,2) other durable token sched by simp
qed

text \<open>A GitHub project with one earlier publication, whose archive is stored, for the witness.\<close>

definition rb_version :: string where
  "rb_version = ''aaaaaaaaaaaaaaaaaaaaaaaaaaaaaaaaaaaaaaaa''"

definition rb_operation :: operation_row where
  "rb_operation = \<lparr>op_id = ''old'', op_correlationId = ''c'', op_environmentId = ''e'',
     op_buildArtifactId = Some ''a'', op_kind = ''ci-deploy'', op_status = OpResult Succeeded,
     op_phase = Result Succeeded, op_version = Some rb_version, op_message = None, op_owner = None,
     op_generation = 1, op_leaseExpiresAt = None, op_targetIdSnapshot = None, op_targetName = ''docker'',
     op_providerSnapshot = Docker, op_createdAt = 1, op_finishedAt = Some 2\<rparr>"

definition rb_db :: db where
  "rb_db = empty_db\<lparr>
     projects := [\<lparr>pj_id = ''p'', pj_name = ''p'', pj_workspaceId = ''w'', pj_preset = DevTestProd, pj_scmProvider = ''github'', pj_scmFullName = ''o/p'',
       pj_scmDefaultBranch = ''main'', pj_ciDeployTokenHash = None, pj_lastCommit = []\<rparr>],
     environments := [\<lparr>en_id = ''e'', en_projectId = ''p'', en_name = Prod, en_provider = Docker,
       en_status = EsRunning, en_version = Some ''v2'', en_url = None, en_statusReason = None,
       en_deploymentRequired = False, en_targetId = None, en_allocationId = None,
       en_activeOperationId = None, en_buildArtifactId = Some ''b'', en_configRevision = 0,
       en_expiresAt = None, en_expiryWarningAt = None\<rparr>],
     artifacts := [\<lparr>ba_id = ''a'', ba_projectId = ''p'', ba_sourceProvider = ''github'', ba_providerArtifactId = ''1'',
       ba_commitSha = rb_version, ba_digest = ''sha'', ba_providerRunId = ''1'', ba_storageKind = Some ''object-store'',
       ba_storageRef = Some ''k'', ba_sizeBytes = 1, ba_status = AfAvailable, ba_imageRef = None, ba_error = None, ba_owner = None,
       ba_generation = 0, ba_leaseExpiresAt = None, ba_updatedAt = 0, ba_createdAt = 0\<rparr>],
     operations := [rb_operation]\<rparr>"

definition rb_fields :: "json list" where
  "rb_fields = [JStr ''e'', JNull, JStr ''v2'', JStr ''b'', JStr ''running'', JBool False, JNull, JArr []]"

definition rb_digest :: "json list \<Rightarrow> string" where
  "rb_digest xs = (if xs = rb_fields then ''t'' else ''u'')"

definition rb_schedule ::
  "string \<Rightarrow> env_name \<Rightarrow> string \<Rightarrow> string option \<Rightarrow> string option \<Rightarrow> db \<Rightarrow> db \<times> unit outcome" where
  "rb_schedule p n v a u d = (d\<lparr>environments := map (\<lambda>e. e\<lparr>en_buildArtifactId := a\<rparr>) (environments d)\<rparr>, Inr ())"

theorem rollback_publishes_verified_build_witness:
  "\<exists>d'. rollback_execute rb_digest rb_schedule ''p'' Prod ''old'' ''t'' None rb_db = (d', Inr ()) \<and>
     map en_buildArtifactId (environments d') = [Some ''a'']"
proof -
  let ?to = "rb_schedule ''p'' Prod rb_version (Some ''a'') None rb_db"
  have hex: "immutable_version rb_version"
    by (simp add: immutable_version_def rb_version_def is_hex_def lower_char_def is_digit_def)
  have ne: "rb_version \<noteq> []" by (simp add: rb_version_def)
  have to: "rollback_execute rb_digest rb_schedule ''p'' Prod ''old'' ''t'' None rb_db = ?to"
    using hex ne
    by (simp add: rollback_execute_def rollback_preview_of_def environment_of_def project_by_id_def
        publications_def newest_first_def other_publication_def rollback_candidate_def
        deployment_publication_kinds_def same_as_current_def durable_artifact_required_def durable_artifact_def
        rollback_state_token_def rollback_token_fields_def config_vars_def identity_of_def
        rb_digest_def rb_fields_def rb_operation_def rb_db_def empty_db_def
        target_by_id_def artifact_by_id_def)
  obtain d' where run: "rollback_execute rb_digest rb_schedule ''p'' Prod ''old'' ''t'' None rb_db = (d', Inr ())"
    unfolding to by (simp add: rb_schedule_def)
  have free: "xs = rb_fields" if "rb_digest xs = rb_digest rb_fields" for xs
    using that by (auto simp: rb_digest_def split: if_splits)
  have "''t'' = rb_digest rb_fields" by (simp add: rb_digest_def)
  from rollback_publishes_verified_build [OF run this free]
  obtain r v where "r \<in> set (operations rb_db)"
    "rb_schedule ''p'' Prod v (map_option ba_id (artifact_by_id (op_buildArtifactId r) rb_db)) None rb_db = (d', Inr ())"
    by blast
  moreover from this(1) have "r = rb_operation" by (simp add: rb_db_def empty_db_def)
  moreover have "map_option ba_id (artifact_by_id (op_buildArtifactId rb_operation) rb_db) = Some ''a''"
    by (simp add: rb_db_def rb_operation_def artifact_by_id_def)
  ultimately have "d' = fst (rb_schedule ''p'' Prod v (Some ''a'') None rb_db)" by simp
  then have "map en_buildArtifactId (environments d') = map (\<lambda>_. Some ''a'') (environments rb_db)"
    by (simp add: rb_schedule_def)
  with run show ?thesis by (simp add: rb_db_def)
qed

end
