(* ===== verification/Capacity.thy ===== *)
theory Capacity
  imports Schema
begin

text \<open>
  Workspace capacity (\<open>workspaces/workspace-capacity.service.ts\<close>): the usage of a workspace,
  its snapshot against the limits, the update of the limits, the check that refuses a claim
  beyond a limit, and the serializable transaction every claim runs in.

  A transaction that ends in an exception leaves the database as it was. PostgreSQL may abort
  a serializable transaction because another one committed first: \<open>c n = Some g\<close> says that
  attempt \<open>n\<close> is aborted and that \<open>g\<close> is what the other transaction committed; the next
  attempt runs on that database. The interface \<open>quota_guard\<close> is what a guarded claim relies
  on; the services interpret it with their own claims.
\<close>

section \<open>Transactions\<close>

definition transaction :: "('d \<Rightarrow> 'd \<times> 'a outcome) \<Rightarrow> 'd \<Rightarrow> 'd \<times> 'a outcome" where
  "transaction f d = (case f d of
      (d', Inl e) \<Rightarrow> (d, Inl e)
    | (d', Inr x) \<Rightarrow> (d', Inr x))"

definition serialization_conflict :: http_error where
  "serialization_conflict = ServerError ''P2034''"

definition serializable_retries :: nat where "serializable_retries = 3"

fun serializable_attempts ::
  "nat \<Rightarrow> (nat \<Rightarrow> ('d \<Rightarrow> 'd) option) \<Rightarrow> nat \<Rightarrow> ('d \<Rightarrow> 'd \<times> 'a outcome) \<Rightarrow> 'd \<Rightarrow> 'd \<times> 'a outcome"
  where
  "serializable_attempts 0 c n f d =
     (d, Inl (ServerError ''Capacity transaction retry exhausted''))"
| "serializable_attempts (Suc left) c n f d = (case c n of
      None \<Rightarrow> transaction f d
    | Some g \<Rightarrow>
        if left = 0 then (g d, Inl serialization_conflict)
        else serializable_attempts left c (Suc n) f (g d))"

definition serializable_capacity_transaction ::
  "(nat \<Rightarrow> ('d \<Rightarrow> 'd) option) \<Rightarrow> ('d \<Rightarrow> 'd \<times> 'a outcome) \<Rightarrow> 'd \<Rightarrow> 'd \<times> 'a outcome" where
  "serializable_capacity_transaction c f d = serializable_attempts serializable_retries c 1 f d"

text \<open>A transaction that returns ran once, alone, on the database it was given.\<close>

lemma transaction_Inr: "transaction f d = (d', Inr x) \<longleftrightarrow> f d = (d', Inr x)"
  by (auto simp: transaction_def split: prod.splits sum.splits)

lemma transaction_Inl: "transaction f d = (d', Inl e) \<longleftrightarrow> d' = d \<and> (\<exists>d1. f d = (d1, Inl e))"
  by (auto simp: transaction_def split: prod.splits sum.splits)

lemma serializable_attempts_Inr:
  "serializable_attempts k c n f d = (d', Inr x) \<Longrightarrow> \<exists>d0. f d0 = (d', Inr x)"
  by (induction k arbitrary: n d) (auto simp: transaction_Inr split: option.splits if_splits)

lemma serializable_Inr:
  "serializable_capacity_transaction c f d = (d', Inr x) \<Longrightarrow> \<exists>d0. f d0 = (d', Inr x)"
  by (auto simp: serializable_capacity_transaction_def dest: serializable_attempts_Inr)

text \<open>Without conflicts the transaction runs exactly once, on the caller's database.\<close>

lemma serializable_quiet [simp]:
  "serializable_capacity_transaction (\<lambda>_. None) f d = transaction f d"
  by (simp add: serializable_capacity_transaction_def serializable_retries_def numeral_3_eq_3)

text \<open>Aborted attempts change nothing of their own: what remains is what others committed.\<close>

definition committed_by_others :: "(nat \<Rightarrow> ('d \<Rightarrow> 'd) option) \<Rightarrow> 'd \<Rightarrow> 'd \<Rightarrow> bool" where
  "committed_by_others c d d0 \<longleftrightarrow>
     (\<exists>gs. set gs \<subseteq> {g. \<exists>n. c n = Some g} \<and> d0 = fold (\<lambda>g x. g x) gs d)"

lemma committed_refl [simp]: "committed_by_others c d d"
  unfolding committed_by_others_def by (rule exI [of _ "[]"]) simp

lemma committed_step:
  assumes "c n = Some g" and "committed_by_others c (g d) d0"
  shows "committed_by_others c d d0"
proof -
  from assms(2) obtain gs where "set gs \<subseteq> {g. \<exists>n. c n = Some g}" "d0 = fold (\<lambda>g x. g x) gs (g d)"
    unfolding committed_by_others_def by blast
  with assms(1) have "set (g # gs) \<subseteq> {g. \<exists>n. c n = Some g} \<and> d0 = fold (\<lambda>g x. g x) (g # gs) d"
    by auto
  then show ?thesis unfolding committed_by_others_def by blast
qed

definition outcome_of :: "(nat \<Rightarrow> ('d \<Rightarrow> 'd) option) \<Rightarrow> ('d \<Rightarrow> 'd \<times> 'a outcome) \<Rightarrow> 'd \<Rightarrow> 'd \<Rightarrow> 'a outcome \<Rightarrow> bool"
  where
  "outcome_of c f d d' r \<longleftrightarrow>
     (\<exists>d0. committed_by_others c d d0 \<and>
        ((\<exists>x. r = Inr x \<and> f d0 = (d', Inr x)) \<or> (\<not> succeeds r \<and> d' = d0)))"

lemma outcome_transaction:
  assumes "transaction f d = (d', r)"
  shows "outcome_of c f d d' r"
proof (cases r)
  case (Inl e)
  with assms have "d' = d" by (simp add: transaction_Inl)
  with Inl show ?thesis unfolding outcome_of_def by (intro exI [of _ d]) simp
next
  case (Inr x)
  with assms have "f d = (d', Inr x)" by (simp add: transaction_Inr)
  with Inr show ?thesis unfolding outcome_of_def by (intro exI [of _ d]) simp
qed

lemma outcome_later:
  assumes "c n = Some g" and "outcome_of c f (g d) d' r"
  shows "outcome_of c f d d' r"
proof -
  from assms(2) obtain d0 where "committed_by_others c (g d) d0"
      and r: "(\<exists>x. r = Inr x \<and> f d0 = (d', Inr x)) \<or> (\<not> succeeds r \<and> d' = d0)"
    unfolding outcome_of_def by (elim exE conjE)
  from committed_step [OF assms(1) this(1)] r show ?thesis
    unfolding outcome_of_def by (intro exI [of _ d0] conjI)
qed

lemma outcome_aborted: "\<not> succeeds r \<Longrightarrow> outcome_of c f d d r"
  unfolding outcome_of_def by (intro exI [of _ d]) simp

lemma serializable_attempts_outcome:
  "serializable_attempts k c n f d = (d', r) \<Longrightarrow> outcome_of c f d d' r"
proof (induction k arbitrary: n d)
  case 0
  then have "d' = d" "\<not> succeeds r" by auto
  then show ?case by (simp add: outcome_aborted)
next
  case (Suc k)
  show ?case
  proof (cases "c n")
    case None
    with Suc.prems show ?thesis by (simp add: outcome_transaction)
  next
    case (Some g)
    show ?thesis
    proof (cases "k = 0")
      case True
      with Suc.prems Some have "d' = g d" "\<not> succeeds r" by auto
      then have "outcome_of c f (g d) d' r" by (simp add: outcome_aborted)
      from outcome_later [OF Some this] show ?thesis .
    next
      case False
      with Suc.prems Some have "serializable_attempts k c (Suc n) f (g d) = (d', r)" by simp
      from outcome_later [OF Some Suc.IH [OF this]] show ?thesis .
    qed
  qed
qed

lemma serializable_outcome:
  assumes "serializable_capacity_transaction c f d = (d', r)"
  obtains x d0 where "r = Inr x" "f d0 = (d', Inr x)" "committed_by_others c d d0"
  | "\<not> succeeds r" "committed_by_others c d d'"
  using serializable_attempts_outcome [OF assms [unfolded serializable_capacity_transaction_def]]
  unfolding outcome_of_def by (elim exE conjE disjE) (use that in simp_all)

lemma committed_invariant:
  assumes "committed_by_others c d d0" and "I d" and "\<And>n g x. c n = Some g \<Longrightarrow> I x \<Longrightarrow> I (g x)"
  shows "I d0"
proof -
  have "I (fold (\<lambda>g x. g x) gs x)" if "set gs \<subseteq> {g. \<exists>n. c n = Some g}" "I x" for gs x
    using that by (induction gs arbitrary: x) (auto intro: assms(3))
  with assms(1,2) show ?thesis by (auto simp: committed_by_others_def)
qed

section \<open>Usage and limits\<close>

datatype capacity_resource =
  CapProjects | CapMembers | CapTargets | CapConcurrentOperations | CapArtifactBytes

definition active_provisioning :: "prov_status \<Rightarrow> bool" where
  "active_provisioning s = (s \<in> {PvRunning, PvRetrying, PvCleaning})"

definition reserved_artifact :: "artifact_status \<Rightarrow> bool" where
  "reserved_artifact s = (s \<in> {AfAccepted, AfIngesting, AfAvailable})"

definition running_deployments :: "string \<Rightarrow> db \<Rightarrow> nat" where
  "running_deployments w d =
     count_where (\<lambda>r. op_status r = OpRunning \<and> environment_workspace (op_environmentId r) d = Some w)
       (operations d)"

definition running_provisionings :: "string \<Rightarrow> string option \<Rightarrow> db \<Rightarrow> nat" where
  "running_provisionings w excluded d =
     count_where (\<lambda>r. pv_workspaceId r = w \<and> active_provisioning (pv_status r) \<and>
         Some (pv_id r) \<noteq> excluded) (provisionings d)"

definition reserved_bytes :: "string \<Rightarrow> db \<Rightarrow> nat" where
  "reserved_bytes w d =
     sum_list (map ba_sizeBytes (filter (\<lambda>a. reserved_artifact (ba_status a) \<and>
       map_option pj_workspaceId (project_by_id (ba_projectId a) d) = Some w) (artifacts d)))"

fun capacity_used :: "string \<Rightarrow> capacity_resource \<Rightarrow> string option \<Rightarrow> db \<Rightarrow> nat" where
  "capacity_used w CapProjects x d = count_where (\<lambda>p. pj_workspaceId p = w) (projects d)"
| "capacity_used w CapMembers x d = count_where (\<lambda>m. mb_workspaceId m = w) (members d)"
| "capacity_used w CapTargets x d = count_where (\<lambda>a. al_workspaceId a = w) (allocations d)"
| "capacity_used w CapConcurrentOperations x d =
     running_deployments w d + running_provisionings w x d"
| "capacity_used w CapArtifactBytes x d = reserved_bytes w d"

fun capacity_limit :: "workspace_row \<Rightarrow> capacity_resource \<Rightarrow> nat" where
  "capacity_limit w CapProjects = ws_maxProjects w"
| "capacity_limit w CapMembers = ws_maxMembers w"
| "capacity_limit w CapTargets = ws_maxTargets w"
| "capacity_limit w CapConcurrentOperations = ws_maxConcurrentOperations w"
| "capacity_limit w CapArtifactBytes = ws_maxArtifactBytes w"

fun resource_label :: "capacity_resource \<Rightarrow> string" where
  "resource_label CapProjects = ''project''"
| "resource_label CapMembers = ''member''"
| "resource_label CapTargets = ''deployment server''"
| "resource_label CapConcurrentOperations = ''concurrent operation''"
| "resource_label CapArtifactBytes = ''artifact storage''"

definition assert_available ::
  "string \<Rightarrow> capacity_resource \<Rightarrow> nat \<Rightarrow> string option \<Rightarrow> db \<Rightarrow> unit outcome" where
  "assert_available w res additional excluded d =
     (case workspace_by_id w d of
        None \<Rightarrow> Inl (NotFound ''Workspace not found'')
      | Some ws \<Rightarrow>
          (let used = capacity_used w res excluded d; limit = capacity_limit ws res in
           if used + additional > limit
           then Inl (Conflict
             (if res = CapArtifactBytes
              then ''Workspace '' @ resource_label res @ '' quota exceeded ('' @ nat_str used @
                   '' of '' @ nat_str limit @ '' bytes used)''
              else ''Workspace '' @ resource_label res @ '' quota reached (max '' @ nat_str limit @ '')''))
           else Inr ()))"

section \<open>Snapshot and update\<close>

record capacity_numbers =
  cn_projects :: nat
  cn_members :: nat
  cn_targets :: nat
  cn_concurrentOperations :: nat
  cn_artifactBytes :: nat

record capacity_snapshot =
  cs_workspaceId :: string
  cs_workspaceName :: string
  cs_limits :: capacity_numbers
  cs_usage :: capacity_numbers
  cs_remaining :: capacity_numbers

definition numbers_of :: "(capacity_resource \<Rightarrow> nat) \<Rightarrow> capacity_numbers" where
  "numbers_of f = \<lparr>cn_projects = f CapProjects, cn_members = f CapMembers,
     cn_targets = f CapTargets, cn_concurrentOperations = f CapConcurrentOperations,
     cn_artifactBytes = f CapArtifactBytes\<rparr>"

text \<open>The subtraction of naturals stops at zero, as \<open>Math.max(0, limit - used)\<close> does.\<close>

definition to_snapshot :: "workspace_row \<Rightarrow> (capacity_resource \<Rightarrow> nat) \<Rightarrow> capacity_snapshot" where
  "to_snapshot ws used =
     \<lparr>cs_workspaceId = ws_id ws, cs_workspaceName = ws_name ws,
      cs_limits = numbers_of (capacity_limit ws),
      cs_usage = numbers_of used,
      cs_remaining = numbers_of (\<lambda>r. capacity_limit ws r - used r)\<rparr>"

definition capacity_snapshot_of :: "string \<Rightarrow> db \<Rightarrow> capacity_snapshot outcome" where
  "capacity_snapshot_of w d =
     (case workspace_by_id w d of
        None \<Rightarrow> Inl (NotFound ''Workspace not found'')
      | Some ws \<Rightarrow> Inr (to_snapshot ws (\<lambda>r. capacity_used w r None d)))"

record capacity_update =
  cu_maxProjects :: nat
  cu_maxMembers :: nat
  cu_maxTargets :: nat
  cu_maxConcurrentOperations :: nat
  cu_maxArtifactStorageGiB :: nat

definition capacity_update_limits ::
  "string \<Rightarrow> capacity_update \<Rightarrow> db \<Rightarrow> db \<times> capacity_snapshot outcome" where
  "capacity_update_limits w v d =
     (let (n, rows) = update_many (\<lambda>x. ws_id x = w)
            (\<lambda>x. x\<lparr>ws_maxProjects := cu_maxProjects v, ws_maxMembers := cu_maxMembers v,
                   ws_maxTargets := cu_maxTargets v,
                   ws_maxConcurrentOperations := cu_maxConcurrentOperations v,
                   ws_maxArtifactBytes := cu_maxArtifactStorageGiB v * 1024 * 1024 * 1024\<rparr>)
            (workspaces d);
          d' = d\<lparr>workspaces := rows\<rparr>
      in if n \<noteq> 1 then (d', Inl (NotFound ''Workspace not found''))
         else (d', capacity_snapshot_of w d'))"

lemma assert_available_iff:
  "assert_available w res n x d = Inr () \<longleftrightarrow>
     (\<exists>ws. workspace_by_id w d = Some ws \<and> capacity_used w res x d + n \<le> capacity_limit ws res)"
  by (auto simp: assert_available_def Let_def split: option.splits)

lemma assert_available_unit: "assert_available w res n x d = Inr u \<longleftrightarrow> assert_available w res n x d = Inr ()"
  by simp

text \<open>The check agrees with the snapshot an administrator sees.\<close>

fun number_for :: "capacity_numbers \<Rightarrow> capacity_resource \<Rightarrow> nat" where
  "number_for n CapProjects = cn_projects n"
| "number_for n CapMembers = cn_members n"
| "number_for n CapTargets = cn_targets n"
| "number_for n CapConcurrentOperations = cn_concurrentOperations n"
| "number_for n CapArtifactBytes = cn_artifactBytes n"

lemma number_for_of [simp]: "number_for (numbers_of f) r = f r"
  by (cases r) (simp_all add: numbers_of_def)

lemma snapshot_agrees:
  assumes "capacity_snapshot_of w d = Inr s" and "0 < n"
  shows "assert_available w res n None d = Inr () \<longleftrightarrow> n \<le> number_for (cs_remaining s) res"
  using assms
  by (auto simp: capacity_snapshot_of_def to_snapshot_def assert_available_iff split: option.splits)

section \<open>The interface of a guarded claim\<close>

locale quota_guard =
  fixes usage :: "'d \<Rightarrow> nat"
    and limit :: "'d \<Rightarrow> nat option"
    and guard :: "'d \<Rightarrow> unit outcome"
    and claim :: "'d \<Rightarrow> 'd"
  assumes guard_room: "guard d = Inr () \<Longrightarrow> \<exists>l. limit d = Some l \<and> usage d + 1 \<le> l"
    and claim_usage: "usage (claim d) \<le> usage d + 1"
    and claim_limit: "limit (claim d) = limit d"
begin

definition within :: "'d \<Rightarrow> bool" where
  "within d \<longleftrightarrow> (\<forall>l. limit d = Some l \<longrightarrow> usage d \<le> l)"

definition guarded :: "'d \<Rightarrow> 'd \<times> unit outcome" where
  "guarded d = (case guard d of Inl e \<Rightarrow> (d, Inl e) | Inr u \<Rightarrow> (claim d, Inr ()))"

lemma guarded_within:
  assumes "guarded d = (d', Inr ())"
  shows "within d'"
proof -
  from assms have g: "guard d = Inr ()" and d': "d' = claim d"
    by (auto simp: guarded_def split: sum.splits)
  from guard_room [OF g] obtain l where "limit d = Some l" "usage d + 1 \<le> l" by blast
  moreover note claim_usage [of d] claim_limit [of d]
  ultimately show ?thesis by (simp add: within_def d')
qed

text \<open>Whatever other transactions commit first, a claim that succeeds is within the limit.\<close>

lemma serializable_within:
  assumes "serializable_capacity_transaction c guarded d = (d', Inr ())"
  shows "within d'"
  using serializable_Inr [OF assms] guarded_within by blast

text \<open>And a refused claim leaves the limit respected, if the others respect it.\<close>

lemma serializable_keeps_within:
  assumes "serializable_capacity_transaction c guarded d = (d', r)" and "within d"
    and others: "\<And>n g x. c n = Some g \<Longrightarrow> within x \<Longrightarrow> within (g x)"
  shows "within d'"
  using assms(1)
proof (cases rule: serializable_outcome)
  case (1 x d0)
  then show ?thesis using guarded_within by simp
next
  case 2
  then show ?thesis using committed_invariant [of c d d' within] assms(2) others by blast
qed

end

end
