(* ===== verification/Workspaces.thy ===== *)
theory Workspaces
  imports Capacity AuditLog
begin

text \<open>
  Workspaces (\<open>workspaces/workspaces.service.ts\<close>): roles and permission tiers, the
  access checks of every other service, creation with the limit on owned team workspaces, the
  approval policy, deletion, and the membership operations that mirror a role into the
  repositories of the workspace.

  The repositories live outside the database: \<open>scm_api\<close> holds the provider calls as
  parameters over an external state \<open>'s\<close>, each of which may fail. The capacity transaction
  of \<open>attach_member\<close> takes the conflicts of \<open>serializable_capacity_transaction\<close>. The
  roles a request can assign are their own type, as in the DTO.
\<close>

section \<open>Roles and permissions\<close>

datatype permission = Read | Write | Maintain | Administer

fun permissions :: "permission \<Rightarrow> role set" where
  "permissions Read = {Owner, Admin, Maintainer, Member, Viewer}"
| "permissions Write = {Owner, Admin, Maintainer, Member}"
| "permissions Maintain = {Owner, Admin, Maintainer}"
| "permissions Administer = {Owner, Admin}"

fun permission_str :: "permission \<Rightarrow> string" where
  "permission_str Read = ''read''"
| "permission_str Write = ''write''"
| "permission_str Maintain = ''maintain''"
| "permission_str Administer = ''admin''"

definition can :: "role \<Rightarrow> permission \<Rightarrow> bool" where
  "can r p = (r \<in> permissions p)"

definition membership :: "string \<Rightarrow> string \<Rightarrow> db \<Rightarrow> member_row option" where
  "membership u w d = find_first (\<lambda>m. mb_workspaceId m = w \<and> mb_userId m = u) (members d)"

definition role_for :: "string \<Rightarrow> string \<Rightarrow> db \<Rightarrow> role option" where
  "role_for u w d = map_option mb_role (membership u w d)"

definition access_required :: "permission \<Rightarrow> http_error" where
  "access_required p = Forbidden (''Workspace '' @ permission_str p @ '' access required'')"

definition require :: "string \<Rightarrow> string \<Rightarrow> permission \<Rightarrow> db \<Rightarrow> role outcome" where
  "require u w p d = (case role_for u w d of
      None \<Rightarrow> Inl (NotFound ''Workspace not found'')
    | Some r \<Rightarrow> if r \<notin> permissions p then Inl (access_required p) else Inr r)"

definition project_not_found :: "string \<Rightarrow> http_error" where
  "project_not_found i = NotFound (''Project '' @ [CHR 0x27] @ i @ [CHR 0x27] @ '' not found'')"

definition require_project ::
  "string \<Rightarrow> string \<Rightarrow> permission \<Rightarrow> db \<Rightarrow> (string \<times> role) outcome" where
  "require_project u i p d = (case project_by_id i d of
      None \<Rightarrow> Inl (project_not_found i)
    | Some pr \<Rightarrow> (case role_for u (pj_workspaceId pr) d of
          None \<Rightarrow> Inl (project_not_found i)
        | Some r \<Rightarrow> if \<not> can r p then Inl (access_required p)
                    else Inr (pj_workspaceId pr, r)))"

text \<open>The workspace of a request: the requested one, else the personal one, else the first.\<close>

definition resolve :: "string \<Rightarrow> string option \<Rightarrow> db \<Rightarrow> (string \<times> role) outcome" where
  "resolve u requested d =
     (let found = (if truthy requested
                   then find_first (\<lambda>m. mb_userId m = u \<and> mb_workspaceId m = the requested) (members d)
                   else find_first (\<lambda>m. mb_userId m = u \<and>
                     map_option ws_team (workspace_by_id (mb_workspaceId m) d) = Some False) (members d));
          fallback = (case found of Some m \<Rightarrow> Some m
                      | None \<Rightarrow> if \<not> truthy requested then find_first (\<lambda>m. mb_userId m = u) (members d)
                                else None)
      in case fallback of
           None \<Rightarrow> if truthy requested then Inl (NotFound ''Workspace not found'')
                   else Inl (Forbidden ''No workspace available'')
         | Some m \<Rightarrow> Inr (mb_workspaceId m, mb_role m))"

section \<open>Views\<close>

record workspace_view =
  wv_id :: string
  wv_slug :: string
  wv_name :: string
  wv_team :: bool
  wv_role :: role
  wv_policy :: approval_policy

definition workspace_view_of :: "workspace_row \<Rightarrow> role \<Rightarrow> workspace_view" where
  "workspace_view_of w r = \<lparr>wv_id = ws_id w, wv_slug = ws_slug w, wv_name = ws_name w,
     wv_team = ws_team w, wv_role = r, wv_policy = ws_policy w\<rparr>"

definition workspace_list :: "string \<Rightarrow> db \<Rightarrow> workspace_view list" where
  "workspace_list u d = List.map_filter
     (\<lambda>m. map_option (\<lambda>w. workspace_view_of w (mb_role m)) (workspace_by_id (mb_workspaceId m) d))
     (filter (\<lambda>m. mb_userId m = u) (members d))"

text \<open>Members are listed by the text of their role, oldest first within a role.\<close>

fun role_order :: "role \<Rightarrow> nat" where
  "role_order Admin = 0"
| "role_order Maintainer = 1"
| "role_order Member = 2"
| "role_order Owner = 3"
| "role_order Viewer = 4"

record member_view =
  mv_userId :: string
  mv_username :: string
  mv_name :: "string option"
  mv_role :: role

definition workspace_members :: "string \<Rightarrow> string \<Rightarrow> db \<Rightarrow> member_view list outcome" where
  "workspace_members u w d = (case require u w Read d of
      Inl e \<Rightarrow> Inl e
    | Inr _ \<Rightarrow> Inr (List.map_filter
        (\<lambda>m. map_option (\<lambda>x. \<lparr>mv_userId = mb_userId m, mv_username = us_username x,
               mv_name = us_name x, mv_role = mb_role m\<rparr>) (user_by_id (mb_userId m) d))
        (sort_key (\<lambda>m. role_order (mb_role m)) (filter (\<lambda>m. mb_workspaceId m = w) (members d)))))"

section \<open>Creating, changing and deleting a workspace\<close>

definition workspace_event ::
  "string option \<Rightarrow> string \<Rightarrow> string \<Rightarrow> string \<Rightarrow> string \<Rightarrow> string \<Rightarrow> (string \<times> json) list \<Rightarrow> audit_input"
  where
  "workspace_event w u action rtype rid rname details =
     \<lparr>ai_workspaceId = w, ai_actorUserId = Some u, ai_anonymous = False, ai_action = action,
      ai_outcome = None, ai_resourceType = rtype, ai_resourceId = Some rid,
      ai_resourceName = Some rname, ai_operation = None, ai_details = Some details\<rparr>"

definition audited :: "bool \<Rightarrow> audit_input \<Rightarrow> 'a \<Rightarrow> db \<Rightarrow> db \<times> 'a outcome" where
  "audited down i x d = (case audit_record down i d of
      (d', Inl e) \<Rightarrow> (d', Inl e)
    | (d', Inr _) \<Rightarrow> (d', Inr x))"

definition owned_teams :: "string \<Rightarrow> db \<Rightarrow> nat" where
  "owned_teams u d = count_where (\<lambda>m. mb_userId m = u \<and> mb_role m = Owner \<and>
     map_option ws_team (workspace_by_id (mb_workspaceId m) d) = Some True) (members d)"

definition is_platform_admin :: "string \<Rightarrow> db \<Rightarrow> bool" where
  "is_platform_admin u d = (map_option us_platformAdmin (user_by_id u d) = Some True)"

definition new_workspace :: "string \<Rightarrow> string \<Rightarrow> string \<Rightarrow> workspace_row" where
  "new_workspace i slug nm = \<lparr>ws_id = i, ws_slug = slug, ws_name = trim nm, ws_team = True,
     ws_policy = SeparateReviewer, ws_maxProjects = 50, ws_maxMembers = 100, ws_maxTargets = 20,
     ws_maxConcurrentOperations = 10, ws_maxArtifactBytes = 21474836480\<rparr>"

definition create_workspace ::
  "nat \<Rightarrow> bool \<Rightarrow> string \<Rightarrow> string \<Rightarrow> string \<Rightarrow> string \<Rightarrow> db \<Rightarrow> db \<times> workspace_view outcome" where
  "create_workspace limit down i u slug nm d =
     (if find_first (\<lambda>w. ws_slug w = slug) (workspaces d) \<noteq> None
      then (d, Inl (Conflict (''Workspace slug '' @ [CHR 0x27] @ slug @ [CHR 0x27] @ '' is already taken'')))
      else if limit > 0 \<and> \<not> is_platform_admin u d \<and> owned_teams u d \<ge> limit
      then (d, Inl (Forbidden (''You can own at most '' @ nat_str limit @
        '' team workspaces. Delete one you no longer need or ask the platform administrator.'')))
      else (let w = new_workspace i slug nm;
                d1 = d\<lparr>workspaces := create w (workspaces d),
                       members := create \<lparr>mb_workspaceId = i, mb_userId = u, mb_role = Owner\<rparr> (members d)\<rparr>
            in audited down (workspace_event (Some i) u ''workspace.created'' ''workspace'' i (ws_name w)
                 [(''type'', JStr ''team'')]) (workspace_view_of w Owner) d1))"

definition set_workspace :: "string \<Rightarrow> (workspace_row \<Rightarrow> workspace_row) \<Rightarrow> db \<Rightarrow> db" where
  "set_workspace w f d = d\<lparr>workspaces := rewrite (\<lambda>x. ws_id x = w) f (workspaces d)\<rparr>"

definition update_workspace ::
  "bool \<Rightarrow> string \<Rightarrow> string \<Rightarrow> string \<Rightarrow> db \<Rightarrow> db \<times> workspace_view outcome" where
  "update_workspace down u w nm d = (case require u w Administer d of
      Inl e \<Rightarrow> (d, Inl e)
    | Inr r \<Rightarrow> (case workspace_by_id w d of
        None \<Rightarrow> (d, Inl (NotFound ''Workspace not found''))
      | Some prev \<Rightarrow>
          (let d1 = set_workspace w (\<lambda>x. x\<lparr>ws_name := trim nm\<rparr>) d;
               next_row = prev\<lparr>ws_name := trim nm\<rparr>;
               view = workspace_view_of next_row r
           in if ws_name prev \<noteq> ws_name next_row
              then audited down (workspace_event (Some w) u ''workspace.updated'' ''workspace'' w
                     (ws_name next_row)
                     [(''previousName'', JStr (ws_name prev)), (''name'', JStr (ws_name next_row))]) view d1
              else (d1, Inr view))))"

fun policy_str :: "approval_policy \<Rightarrow> string" where
  "policy_str SelfReview = ''self-review''"
| "policy_str SeparateReviewer = ''separate-reviewer''"

definition update_policy ::
  "bool \<Rightarrow> string \<Rightarrow> string \<Rightarrow> approval_policy \<Rightarrow> db \<Rightarrow> db \<times> workspace_view outcome" where
  "update_policy down u w policy d = (case require u w Read d of
      Inl e \<Rightarrow> (d, Inl e)
    | Inr r \<Rightarrow>
        if r \<noteq> Owner
        then (d, Inl (Forbidden ''Only the workspace owner can change the production approval policy''))
        else (case workspace_by_id w d of
            None \<Rightarrow> (d, Inl (NotFound ''Workspace not found''))
          | Some prev \<Rightarrow>
              if \<not> ws_team prev
              then (d, Inl (BadRequest ''Personal workspaces always use self-review''))
              else if ws_policy prev = policy then (d, Inr (workspace_view_of prev r))
              else audited down
                     (workspace_event (Some w) u ''workspace.production_policy_changed'' ''workspace'' w
                       (ws_name prev)
                       [(''previousPolicy'', JStr (policy_str (ws_policy prev))),
                        (''policy'', JStr (policy_str policy))])
                     (workspace_view_of (prev\<lparr>ws_policy := policy\<rparr>) r)
                     (set_workspace w (\<lambda>x. x\<lparr>ws_policy := policy\<rparr>) d)))"

text \<open>Deleting the row cascades to the tables that reference the workspace.\<close>

definition delete_workspace :: "string \<Rightarrow> db \<Rightarrow> db" where
  "delete_workspace w d = d\<lparr>
     workspaces := delete_many (\<lambda>x. ws_id x = w) (workspaces d),
     members := delete_many (\<lambda>m. mb_workspaceId m = w) (members d),
     allocations := delete_many (\<lambda>a. al_workspaceId a = w) (allocations d),
     requests := delete_many (\<lambda>r. rq_workspaceId r = w) (requests d),
     auditEvents := delete_many (\<lambda>e. au_workspaceId e = Some w) (auditEvents d)\<rparr>"

definition remove_workspace :: "bool \<Rightarrow> string \<Rightarrow> string \<Rightarrow> db \<Rightarrow> db \<times> unit outcome" where
  "remove_workspace down u w d = (case require u w Administer d of
      Inl e \<Rightarrow> (d, Inl e)
    | Inr r \<Rightarrow>
        if r \<noteq> Owner then (d, Inl (Forbidden ''Only the workspace owner can delete it''))
        else (case workspace_by_id w d of
            None \<Rightarrow> (d, Inl (NotFound ''Workspace not found''))
          | Some ws \<Rightarrow>
              if \<not> ws_team ws then (d, Inl (BadRequest ''Personal workspaces cannot be deleted''))
              else if count_where (\<lambda>p. pj_workspaceId p = w) (projects d) \<noteq> 0 \<or>
                      count_where (\<lambda>t. tg_workspaceId t = Some w) (targets d) \<noteq> 0
              then (d, Inl (BadRequest
                ''Delete or move all projects and targets before deleting this workspace''))
              else transaction (\<lambda>x.
                let removed = count_where (\<lambda>e. au_workspaceId e = Some w) (auditEvents x)
                in audit_record down (workspace_event None u ''workspace.deleted'' ''workspace'' w
                     (ws_name ws) [(''auditEventsRemoved'', JNum (int removed))])
                     (delete_workspace w x)) d))"

text \<open>In the audit log the deletion is a removal of that workspace's events and one new event.\<close>

lemma remove_workspace_audit:
  "audit_run (\<lambda>e. au_workspaceId e = Some w) d (fst (remove_workspace down u w d))"
proof -
  let ?R = "\<lambda>e. au_workspaceId e = Some w"
  have "audit_run ?R d (delete_workspace w d)"
    by (rule audit_run.removal [OF audit_run.start, where p = ?R]) (simp_all add: delete_workspace_def)
  then have "audit_run ?R d (fst (audit_record down i (delete_workspace w d)))" for i
    by (rule audit_run.event)
  then have "audit_run ?R d (fst (transaction (\<lambda>x. audit_record down (f x) (delete_workspace w x)) d))" for f
    by (cases "audit_record down (f d) (delete_workspace w d)")
      (auto simp: transaction_def audit_run.start split: sum.splits, metis fst_conv)
  then show ?thesis
    by (auto simp: remove_workspace_def Let_def audit_run.start split: sum.splits option.splits)
qed

section \<open>Members\<close>

datatype assignable_role = AsAdmin | AsMaintainer | AsMember | AsViewer

fun as_role :: "assignable_role \<Rightarrow> role" where
  "as_role AsAdmin = Admin"
| "as_role AsMaintainer = Maintainer"
| "as_role AsMember = Member"
| "as_role AsViewer = Viewer"

fun role_str :: "role \<Rightarrow> string" where
  "role_str Owner = ''owner''"
| "role_str Admin = ''admin''"
| "role_str Maintainer = ''maintainer''"
| "role_str Member = ''member''"
| "role_str Viewer = ''viewer''"

record 's scm_api =
  setCollaborator :: "project_row \<Rightarrow> string \<Rightarrow> role \<Rightarrow> 's \<Rightarrow> 's \<times> unit outcome"
  removeCollaborator :: "project_row \<Rightarrow> string \<Rightarrow> 's \<Rightarrow> 's \<times> unit outcome"
  rotateRegistryCredential :: "project_row \<Rightarrow> ('s \<Rightarrow> 's \<times> unit outcome) option"

text \<open>A loop over the repositories that stops at the first failure.\<close>

fun for_each :: "('p \<Rightarrow> 's \<Rightarrow> 's \<times> unit outcome) \<Rightarrow> 'p list \<Rightarrow> 's \<Rightarrow> 's \<times> unit outcome" where
  "for_each f [] s = (s, Inr ())"
| "for_each f (p # ps) s = (case f p s of
      (s', Inl e) \<Rightarrow> (s', Inl e)
    | (s', Inr _) \<Rightarrow> for_each f ps s')"

definition workspace_projects :: "string \<Rightarrow> db \<Rightarrow> project_row list" where
  "workspace_projects w d = filter (\<lambda>p. pj_workspaceId p = w) (projects d)"

definition sync_repository_access ::
  "'s scm_api \<Rightarrow> string \<Rightarrow> string \<Rightarrow> role \<Rightarrow> db \<Rightarrow> 's \<Rightarrow> 's \<times> unit outcome" where
  "sync_repository_access api w u r d =
     for_each (\<lambda>p. setCollaborator api p u r) (workspace_projects w d)"

definition revoke_repository_access ::
  "'s scm_api \<Rightarrow> string \<Rightarrow> string \<Rightarrow> db \<Rightarrow> 's \<Rightarrow> 's \<times> unit outcome" where
  "revoke_repository_access api w u d =
     for_each (\<lambda>p. removeCollaborator api p u) (workspace_projects w d)"

text \<open>Rotation goes on past a failure, which is only logged.\<close>

definition rotate_registry_credentials :: "'s scm_api \<Rightarrow> string \<Rightarrow> db \<Rightarrow> 's \<Rightarrow> 's" where
  "rotate_registry_credentials api w d s =
     fold (\<lambda>p x. case rotateRegistryCredential api p of None \<Rightarrow> x | Some f \<Rightarrow> fst (f x))
       (workspace_projects w d) s"

definition member_exists :: "string \<Rightarrow> string \<Rightarrow> db \<Rightarrow> bool" where
  "member_exists u w d = (membership u w d \<noteq> None)"

definition delete_member :: "string \<Rightarrow> string \<Rightarrow> db \<Rightarrow> db \<times> unit outcome" where
  "delete_member w u d =
     (if \<not> member_exists u w d then (d, Inl (ServerError ''P2025''))
      else (d\<lparr>members := delete_many (\<lambda>m. mb_workspaceId m = w \<and> mb_userId m = u) (members d)\<rparr>, Inr ()))"

definition member_guard :: "string \<Rightarrow> string \<Rightarrow> db \<Rightarrow> unit outcome" where
  "member_guard w u d = (case assert_available w CapMembers 1 None d of
      Inl e \<Rightarrow> Inl e
    | Inr _ \<Rightarrow> if member_exists u w d then Inl (ServerError ''P2002'') else Inr ())"

definition insert_member :: "string \<Rightarrow> string \<Rightarrow> role \<Rightarrow> db \<Rightarrow> db" where
  "insert_member w u r d =
     d\<lparr>members := create \<lparr>mb_workspaceId = w, mb_userId = u, mb_role = r\<rparr> (members d)\<rparr>"

definition attach_claim :: "string \<Rightarrow> string \<Rightarrow> role \<Rightarrow> db \<Rightarrow> db \<times> unit outcome" where
  "attach_claim w u r d = (case member_guard w u d of
      Inl e \<Rightarrow> (d, Inl e)
    | Inr _ \<Rightarrow> (insert_member w u r d, Inr ()))"

text \<open>\<open>fails\<close>: the database refuses the delete that undoes a membership the provider rejected.\<close>

definition attach_member ::
  "'s scm_api \<Rightarrow> (nat \<Rightarrow> (db \<Rightarrow> db) option) \<Rightarrow> bool \<Rightarrow> string \<Rightarrow> string \<Rightarrow> assignable_role \<Rightarrow> db \<Rightarrow> 's
     \<Rightarrow> db \<times> 's \<times> unit outcome" where
  "attach_member api c fails w u r d s =
     (case serializable_capacity_transaction c (attach_claim w u (as_role r)) d of
        (d1, Inl e) \<Rightarrow> (d1, s, Inl e)
      | (d1, Inr _) \<Rightarrow> (case sync_repository_access api w u (as_role r) d1 s of
            (s1, Inr _) \<Rightarrow> (d1, s1, Inr ())
          | (s1, Inl e) \<Rightarrow>
              (let s2 = fst (revoke_repository_access api w u d1 s1)
               in case (if fails then (d1, Inl (ServerError ''database unavailable'')) else delete_member w u d1) of
                    (d2, Inl e') \<Rightarrow> (d2, s2, Inl e')
                  | (d2, Inr _) \<Rightarrow> (d2, s2, Inl e))))"

text \<open>Identities are compared in lower case without surrounding blanks.\<close>

definition normalize_account_identifier :: "string \<Rightarrow> string" where
  "normalize_account_identifier v = lower (trim v)"

definition find_account :: "string \<Rightarrow> db \<Rightarrow> user_row option" where
  "find_account identity d = find_first
     (\<lambda>x. lower (us_username x) = identity \<or> map_option lower (us_email x) = Some identity) (users d)"

definition add_member ::
  "'s scm_api \<Rightarrow> (nat \<Rightarrow> (db \<Rightarrow> db) option) \<Rightarrow> bool \<Rightarrow> bool \<Rightarrow> string \<Rightarrow> string \<Rightarrow> string \<Rightarrow> assignable_role
     \<Rightarrow> db \<Rightarrow> 's \<Rightarrow> db \<times> 's \<times> member_view list outcome" where
  "add_member api c fails down u w identity r d s = (case require u w Administer d of
      Inl e \<Rightarrow> (d, s, Inl e)
    | Inr _ \<Rightarrow> (case workspace_by_id w d of
        None \<Rightarrow> (d, s, Inl (NotFound ''Workspace not found''))
      | Some ws \<Rightarrow>
          if \<not> ws_team ws
          then (d, s, Inl (BadRequest ''Create a team workspace before adding other members''))
          else (let n = normalize_account_identifier identity in
            case find_account n d of
              None \<Rightarrow> (d, s, Inl (NotFound (''User '' @ [CHR 0x27] @ n @ [CHR 0x27] @ '' not found'')))
            | Some x \<Rightarrow>
                if member_exists (us_id x) w d
                then (d, s, Inl (Conflict ''User is already a workspace member''))
                else (case attach_member api c fails w (us_id x) r d s of
                    (d1, s1, Inl e) \<Rightarrow> (d1, s1, Inl e)
                  | (d1, s1, Inr _) \<Rightarrow>
                      (case audit_record down (workspace_event (Some w) u ''workspace.member_added''
                          ''member'' (us_id x) (us_username x)
                          [(''role'', JStr (role_str (as_role r)))]) d1 of
                         (d2, Inl e) \<Rightarrow> (d2, s1, Inl e)
                       | (d2, Inr _) \<Rightarrow> (d2, s1, workspace_members u w d2))))))"

definition member_or_throw :: "string \<Rightarrow> string \<Rightarrow> db \<Rightarrow> member_row outcome" where
  "member_or_throw w u d = (case membership u w d of
      None \<Rightarrow> Inl (NotFound ''Workspace member not found'')
    | Some m \<Rightarrow> Inr m)"

definition member_username :: "string \<Rightarrow> db \<Rightarrow> string" where
  "member_username u d = (case user_by_id u d of None \<Rightarrow> '''' | Some x \<Rightarrow> us_username x)"

definition set_member_role :: "bool \<Rightarrow> string \<Rightarrow> string \<Rightarrow> role \<Rightarrow> db \<Rightarrow> db \<times> unit outcome" where
  "set_member_role fails w u r d =
     (if fails \<or> \<not> member_exists u w d then (d, Inl (ServerError ''P2025''))
      else (d\<lparr>members := rewrite (\<lambda>m. mb_workspaceId m = w \<and> mb_userId m = u)
                (\<lambda>m. m\<lparr>mb_role := r\<rparr>) (members d)\<rparr>, Inr ()))"

definition update_member ::
  "'s scm_api \<Rightarrow> bool \<Rightarrow> bool \<Rightarrow> string \<Rightarrow> string \<Rightarrow> string \<Rightarrow> assignable_role
     \<Rightarrow> db \<Rightarrow> 's \<Rightarrow> db \<times> 's \<times> member_view list outcome" where
  "update_member api fails down u w m r d s = (case require u w Administer d of
      Inl e \<Rightarrow> (d, s, Inl e)
    | Inr _ \<Rightarrow> (case member_or_throw w m d of
        Inl e \<Rightarrow> (d, s, Inl e)
      | Inr row \<Rightarrow>
          if mb_role row = Owner
          then (d, s, Inl (BadRequest ''Workspace owner role cannot be changed''))
          else (case sync_repository_access api w m (as_role r) d s of
              (s1, Inl e) \<Rightarrow> (d, fst (sync_repository_access api w m (mb_role row) d s1), Inl e)
            | (s1, Inr _) \<Rightarrow> (case set_member_role fails w m (as_role r) d of
                (d1, Inl e) \<Rightarrow> (d1, fst (sync_repository_access api w m (mb_role row) d1 s1), Inl e)
              | (d1, Inr _) \<Rightarrow>
                  (case audit_record down (workspace_event (Some w) u ''workspace.member_role_changed''
                      ''member'' m (member_username m d)
                      [(''previousRole'', JStr (role_str (mb_role row))),
                       (''role'', JStr (role_str (as_role r)))]) d1 of
                     (d2, Inl e) \<Rightarrow> (d2, s1, Inl e)
                   | (d2, Inr _) \<Rightarrow>
                       (d2, if mb_role row \<noteq> Viewer \<and> as_role r = Viewer
                            then rotate_registry_credentials api w d2 s1 else s1,
                        workspace_members u w d2))))))"

definition remove_member ::
  "'s scm_api \<Rightarrow> bool \<Rightarrow> bool \<Rightarrow> string \<Rightarrow> string \<Rightarrow> string
     \<Rightarrow> db \<Rightarrow> 's \<Rightarrow> db \<times> 's \<times> unit outcome" where
  "remove_member api fails down u w m d s = (case require u w Administer d of
      Inl e \<Rightarrow> (d, s, Inl e)
    | Inr _ \<Rightarrow> (case member_or_throw w m d of
        Inl e \<Rightarrow> (d, s, Inl e)
      | Inr row \<Rightarrow>
          if mb_role row = Owner then (d, s, Inl (BadRequest ''Workspace owner cannot be removed''))
          else (case revoke_repository_access api w m d s of
              (s1, Inl e) \<Rightarrow> (d, fst (sync_repository_access api w m (mb_role row) d s1), Inl e)
            | (s1, Inr _) \<Rightarrow>
                (case (if fails then (d, Inl (ServerError ''P2025'')) else delete_member w m d) of
                   (d1, Inl e) \<Rightarrow> (d1, fst (sync_repository_access api w m (mb_role row) d1 s1), Inl e)
                 | (d1, Inr _) \<Rightarrow>
                     (case audit_record down (workspace_event (Some w) u ''workspace.member_removed''
                         ''member'' m (member_username m d)
                         [(''previousRole'', JStr (role_str (mb_role row)))]) d1 of
                        (d2, Inl e) \<Rightarrow> (d2, s1, Inl e)
                      | (d2, Inr _) \<Rightarrow>
                          (d2, if mb_role row \<noteq> Viewer
                               then rotate_registry_credentials api w d2 s1 else s1, Inr ()))))))"

section \<open>Access\<close>

lemma permissions_tiers:
  "permissions Administer \<subseteq> permissions Maintain" "permissions Maintain \<subseteq> permissions Write"
  "permissions Write \<subseteq> permissions Read" "Owner \<in> permissions p"
  by (auto, cases p, auto)

lemma role_for_None: "role_for u w d = None \<longleftrightarrow> \<not> member_exists u w d"
  by (simp add: role_for_def member_exists_def)

lemma require_Inr: "require u w p d = Inr r \<longleftrightarrow> role_for u w d = Some r \<and> r \<in> permissions p"
  by (auto simp: require_def split: option.splits)

lemma require_Inl:
  "require u w p d = Inl e \<longleftrightarrow>
     (role_for u w d = None \<and> e = NotFound ''Workspace not found'') \<or>
     (\<exists>r. role_for u w d = Some r \<and> r \<notin> permissions p \<and> e = access_required p)"
  by (auto simp: require_def split: option.splits)

lemma require_project_Inr:
  "require_project u i p d = Inr (w, r) \<longleftrightarrow>
     (\<exists>pr. project_by_id i d = Some pr \<and> pj_workspaceId pr = w \<and> require u w p d = Inr r)"
  by (auto simp: require_project_def require_def can_def split: option.splits)

text \<open>A project outside the caller's workspaces answers as if it did not exist.\<close>

lemma require_project_hidden:
  assumes "\<And>pr. project_by_id i d = Some pr \<Longrightarrow> role_for u (pj_workspaceId pr) d = None"
  shows "require_project u i p d =
    require_project u i p (d\<lparr>projects := delete_many (\<lambda>x. pj_id x = i) (projects d)\<rparr>)"
proof -
  have "project_by_id i (d\<lparr>projects := delete_many (\<lambda>x. pj_id x = i) (projects d)\<rparr>) = None"
    by (simp add: project_by_id_def find_first_deleted)
  with assms show ?thesis by (simp add: require_project_def split: option.splits)
qed

section \<open>Membership keys and owners\<close>

definition memberships_ok :: "db \<Rightarrow> bool" where
  "memberships_ok d = keyed (\<lambda>m. (mb_workspaceId m, mb_userId m)) (members d)"

definition owners_of :: "string \<Rightarrow> db \<Rightarrow> string list" where
  "owners_of w d = map mb_userId (filter (\<lambda>m. mb_workspaceId m = w \<and> mb_role m = Owner) (members d))"

lemma memberships_ok_cong: "members d' = members d \<Longrightarrow> memberships_ok d' = memberships_ok d"
  by (simp add: memberships_ok_def)

lemma owners_of_cong: "members d' = members d \<Longrightarrow> owners_of w d' = owners_of w d"
  by (simp add: owners_of_def)

lemma as_role_not_owner [simp]: "as_role r \<noteq> Owner"
  by (cases r) simp_all

lemma membership_unique:
  assumes "memberships_ok d" and "membership u w d = Some m"
    and "m' \<in> set (members d)" "mb_workspaceId m' = w" "mb_userId m' = u"
  shows "m' = m"
proof -
  from find_first_Some [OF assms(2) [unfolded membership_def]]
  have "m \<in> set (members d)" "mb_workspaceId m = w" "mb_userId m = u" by auto
  with assms keyed_unique [OF assms(1) [unfolded memberships_ok_def], of m' m] show ?thesis by simp
qed

lemma member_exists_iff:
  "member_exists u w d \<longleftrightarrow> (\<exists>m \<in> set (members d). mb_workspaceId m = w \<and> mb_userId m = u)"
  by (simp add: member_exists_def membership_def find_first_None)

text \<open>The three writes to the table, and what they do to keys and owners.\<close>

lemma insert_member_ok:
  "\<not> member_exists u w d \<Longrightarrow> memberships_ok d \<Longrightarrow> memberships_ok (insert_member w u r d)"
  by (auto simp: memberships_ok_def insert_member_def keyed_create member_exists_iff)

lemma insert_member_owners: "r \<noteq> Owner \<Longrightarrow> owners_of x (insert_member w u r d) = owners_of x d"
  by (simp add: owners_of_def insert_member_def create_def)

lemma delete_member_insert:
  assumes "\<not> member_exists u w d"
  shows "delete_member w u (insert_member w u r d) = (d, Inr ())"
proof -
  have "member_exists u w (insert_member w u r d)"
    by (simp add: member_exists_iff insert_member_def)
  moreover have "delete_many (\<lambda>m. mb_workspaceId m = w \<and> mb_userId m = u)
      (members (insert_member w u r d)) = members d"
    using assms by (simp add: insert_member_def member_exists_iff delete_created)
  ultimately show ?thesis by (simp add: delete_member_def) (simp add: insert_member_def)
qed

lemma delete_member_ok: "memberships_ok d \<Longrightarrow> memberships_ok (fst (delete_member w u d))"
  by (simp add: delete_member_def memberships_ok_def keyed_delete)

lemma delete_member_owners:
  assumes "memberships_ok d" "membership u w d = Some m" "mb_role m \<noteq> Owner"
  shows "owners_of x (fst (delete_member w u d)) = owners_of x d"
proof -
  have "filter (\<lambda>m. mb_workspaceId m = x \<and> mb_role m = Owner)
      (delete_many (\<lambda>m. mb_workspaceId m = w \<and> mb_userId m = u) (members d)) =
    filter (\<lambda>m. mb_workspaceId m = x \<and> mb_role m = Owner) (members d)"
    by (rule filter_delete) (use membership_unique [OF assms(1,2)] assms(3) in auto)
  then show ?thesis by (simp add: delete_member_def owners_of_def)
qed

lemma set_member_role_owners:
  assumes "memberships_ok d" "membership u w d = Some m" "mb_role m \<noteq> Owner" "r \<noteq> Owner"
  shows "owners_of x (fst (set_member_role f w u r d)) = owners_of x d"
proof -
  have "map mb_userId (filter (\<lambda>m. mb_workspaceId m = x \<and> mb_role m = Owner)
      (rewrite (\<lambda>m. mb_workspaceId m = w \<and> mb_userId m = u) (\<lambda>m. m\<lparr>mb_role := r\<rparr>) (members d))) =
    map mb_userId (filter (\<lambda>m. mb_workspaceId m = x \<and> mb_role m = Owner) (members d))"
    by (rule filter_map_rewrite) (use membership_unique [OF assms(1,2)] assms(3,4) in auto)
  then show ?thesis by (simp add: set_member_role_def owners_of_def)
qed

lemma set_member_role_ok: "memberships_ok d \<Longrightarrow> memberships_ok (fst (set_member_role f w u r d))"
  by (simp add: set_member_role_def memberships_ok_def keyed_rewrite)

section \<open>The member quota\<close>

definition member_count :: "string \<Rightarrow> db \<Rightarrow> nat" where
  "member_count w d = capacity_used w CapMembers None d"

definition member_limit :: "string \<Rightarrow> db \<Rightarrow> nat option" where
  "member_limit w d = map_option (\<lambda>x. capacity_limit x CapMembers) (workspace_by_id w d)"

lemma member_guard_Inr:
  "member_guard w u d = Inr v \<longleftrightarrow>
     assert_available w CapMembers 1 None d = Inr () \<and> \<not> member_exists u w d"
  by (auto simp: member_guard_def split: sum.splits)

interpretation member_quota: quota_guard "member_count w" "member_limit w" "member_guard w u"
  "insert_member w u r" for w u r
  by unfold_locales
    (auto simp: member_guard_Inr assert_available_iff member_count_def member_limit_def
      insert_member_def create_def workspace_by_id_def)

lemma attach_claim_guarded: "attach_claim w u r = member_quota.guarded w u r"
  by (rule ext) (simp add: attach_claim_def member_quota.guarded_def)

lemma attach_claim_Inr:
  "attach_claim w u r d = (d', Inr x) \<longleftrightarrow>
     member_guard w u d = Inr () \<and> d' = insert_member w u r d"
  by (auto simp: attach_claim_def split: sum.splits)

text \<open>The ways an attachment can end, whatever other transactions and the provider do.\<close>

lemma attach_member_cases:
  assumes "attach_member api c fails w u r d s = (d', s', res)"
  obtains d0 where "res = Inr ()" "committed_by_others c d d0" "member_guard w u d0 = Inr ()"
    "d' = insert_member w u (as_role r) d0"
    "sync_repository_access api w u (as_role r) d' s = (s', Inr ())"
  | "\<not> succeeds res" "committed_by_others c d d'"
  | d0 s1 e where "\<not> succeeds res" "fails" "committed_by_others c d d0" "member_guard w u d0 = Inr ()"
    "d' = insert_member w u (as_role r) d0"
    "sync_repository_access api w u (as_role r) d' s = (s1, Inl e)"
proof (cases "serializable_capacity_transaction c (attach_claim w u (as_role r)) d")
  case (Pair d1 t)
  from Pair show ?thesis
  proof (cases rule: serializable_outcome)
    case (1 x d0)
    then have g: "member_guard w u d0 = Inr ()" and d1: "d1 = insert_member w u (as_role r) d0"
      by (simp_all add: attach_claim_Inr)
    from g have ne: "\<not> member_exists u w d0" by (simp add: member_guard_Inr)
    show ?thesis
    proof (cases "sync_repository_access api w u (as_role r) d1 s")
      case sync: (Pair s1 o')
      show ?thesis
      proof (cases o')
        case (Inl e)
        show ?thesis
        proof (cases fails)
          case True
          with assms Pair 1 sync d1 Inl have "d' = d1" "\<not> succeeds res"
            by (auto simp: attach_member_def Let_def)
          with that(3) [of d0 s1 e] 1 g d1 sync Inl True show ?thesis by simp
        next
          case False
          with assms Pair 1 sync ne d1 Inl have "res = Inl e" "d' = d0"
            by (auto simp: attach_member_def Let_def delete_member_insert)
          with 1 show ?thesis by (intro that(2)) simp_all
        qed
      next
        case (Inr v)
        with assms Pair 1 sync have "res = Inr ()" "d' = d1" "s' = s1"
          by (auto simp: attach_member_def)
        with that(1) [of d0] 1 g d1 sync Inr show ?thesis by simp
      qed
    qed
  next
    case 2
    then obtain e where "t = Inl e" by (cases t) auto
    with assms Pair have "res = Inl e" "d' = d1" by (auto simp: attach_member_def)
    with 2 show ?thesis by (intro that(2)) simp_all
  qed
qed

lemma attach_within_limit:
  assumes "attach_member api c fails w u r d s = (d', s', Inr ())"
  shows "member_quota.within w d'"
  using assms
proof (cases rule: attach_member_cases)
  case (1 d0)
  then have "member_quota.guarded w u (as_role r) d0 = (d', Inr ())"
    by (simp add: attach_claim_guarded [symmetric] attach_claim_Inr)
  then show ?thesis by (rule member_quota.guarded_within)
qed (simp_all add: succeeds_def)

section \<open>Changing and removing a member\<close>

lemma member_or_throw_Inr: "member_or_throw w m d = Inr row \<longleftrightarrow> membership m w d = Some row"
  by (auto simp: member_or_throw_def split: option.splits)

lemma set_member_role_Inr:
  "set_member_role f w m r d = (d', Inr x) \<Longrightarrow> d' = fst (set_member_role f w m r d)"
  by simp

lemma set_member_role_Inl: "set_member_role f w m r d = (d', Inl e) \<Longrightarrow> d' = d"
  by (auto simp: set_member_role_def split: if_splits)

lemma audit_record_members:
  "audit_record down i d = (d', x) \<Longrightarrow> members d' = members d \<and> projects d' = projects d"
  using audit_record_frame(3,5) [of down i d] by simp

text \<open>Either the request is refused and the table keeps its rows, or exactly one role changes.\<close>

lemma update_member_cases:
  assumes "update_member api f down u w m r d s = (d', s', res)"
  obtains (kept) "d' = d" "\<not> succeeds res"
  | (changed) row admin s1 where "require u w Administer d = Inr admin"
      "membership m w d = Some row" "mb_role row \<noteq> Owner"
      "members d' = members (fst (set_member_role f w m (as_role r) d))"
      "projects d' = projects d"
      "sync_repository_access api w m (as_role r) d s = (s1, Inr ())"
      "succeeds res \<Longrightarrow> s' = (if mb_role row \<noteq> Viewer \<and> as_role r = Viewer
           then rotate_registry_credentials api w d' s1 else s1)"
proof (cases "require u w Administer d")
  case (Inl e)
  with assms show ?thesis by (intro kept) (auto simp: update_member_def)
next
  case admin: (Inr ar)
  show ?thesis
  proof (cases "member_or_throw w m d")
    case (Inl e)
    with assms admin show ?thesis by (intro kept) (auto simp: update_member_def)
  next
    case (Inr row)
    then have row: "membership m w d = Some row" by (simp add: member_or_throw_Inr)
    show ?thesis
    proof (cases "mb_role row = Owner")
      case True
      with assms admin Inr show ?thesis by (intro kept) (auto simp: update_member_def)
    next
      case False
      obtain s1 o1 where sync: "sync_repository_access api w m (as_role r) d s = (s1, o1)" by fastforce
      obtain d1 o2 where set: "set_member_role f w m (as_role r) d = (d1, o2)" by fastforce
      show ?thesis
      proof (cases o1)
        case (Inl e)
        with assms admin Inr False sync show ?thesis by (intro kept) (auto simp: update_member_def)
      next
        case o1: (Inr v)
        show ?thesis
        proof (cases o2)
          case (Inl e)
          with set_member_role_Inl set have "d1 = d" by blast
          with assms admin Inr False sync set o1 Inl show ?thesis
            by (intro kept) (auto simp: update_member_def)
        next
          case o2: (Inr v)
          show ?thesis
            by (rule changed [OF admin row False])
              (use assms admin Inr False sync set o1 o2 audit_record_members in
                \<open>force simp: update_member_def set_member_role_def split: prod.splits sum.splits if_splits\<close>)+
        qed
      qed
    qed
  qed
qed

lemma remove_member_cases:
  assumes "remove_member api f down u w m d s = (d', s', res)"
  obtains (kept) "d' = d" "\<not> succeeds res"
  | (removed) row admin s1 where "require u w Administer d = Inr admin"
      "membership m w d = Some row" "mb_role row \<noteq> Owner"
      "members d' = members (fst (delete_member w m d))"
      "revoke_repository_access api w m d s = (s1, Inr ())"
proof (cases "require u w Administer d")
  case (Inl e)
  with assms show ?thesis by (intro kept) (auto simp: remove_member_def)
next
  case admin: (Inr ar)
  show ?thesis
  proof (cases "member_or_throw w m d")
    case (Inl e)
    with assms admin show ?thesis by (intro kept) (auto simp: remove_member_def)
  next
    case (Inr row)
    then have row: "membership m w d = Some row" by (simp add: member_or_throw_Inr)
    then have ex: "member_exists m w d" by (simp add: member_exists_def)
    show ?thesis
    proof (cases "mb_role row = Owner")
      case True
      with assms admin Inr show ?thesis by (intro kept) (auto simp: remove_member_def)
    next
      case False
      obtain s1 o1 where rev: "revoke_repository_access api w m d s = (s1, o1)" by fastforce
      show ?thesis
      proof (cases "f \<or> \<not> succeeds o1")
        case True
        then show ?thesis
          by (intro kept) (use assms admin Inr False rev in
            \<open>force simp: remove_member_def split: sum.splits\<close>)+
      next
        case ok: False
        then have o1: "o1 = Inr ()" "\<not> f" by (auto simp: succeeds_iff)
        show ?thesis
          by (rule removed [OF admin row False])
            (use assms admin Inr False rev o1 ex audit_record_members in
              \<open>force simp: remove_member_def delete_member_def split: prod.splits sum.splits\<close>)+
      qed
    qed
  qed
qed

section \<open>The repositories follow the roles\<close>

text \<open>What the code expects of a provider: a call that succeeds has set the role.\<close>

definition sets_roles :: "'s scm_api \<Rightarrow> ('s \<Rightarrow> string \<times> string \<Rightarrow> role option) \<Rightarrow> bool" where
  "sets_roles api view \<longleftrightarrow> (\<forall>p u r s s'. setCollaborator api p u r s = (s', Inr ()) \<longrightarrow>
     view s' = (view s)((pj_id p, u) \<mapsto> r))"

lemma for_each_sets:
  assumes law: "\<And>p s s'. f p s = (s', Inr ()) \<Longrightarrow> view s' = (view s)(key p \<mapsto> v)"
  shows "for_each f ps s = (s', Inr ()) \<Longrightarrow>
    view s' = (\<lambda>k. if k \<in> key ` set ps then Some v else view s k)"
proof (induction ps arbitrary: s)
  case Nil
  then show ?case by simp
next
  case (Cons p ps)
  then obtain s1 where one: "f p s = (s1, Inr ())" and rest: "for_each f ps s1 = (s', Inr ())"
    by (auto split: prod.splits sum.splits)
  from Cons.IH [OF rest] law [OF one] show ?case by (auto simp: fun_eq_iff)
qed

lemma sync_sets:
  assumes "sets_roles api view"
    and "sync_repository_access api w u r d s = (s', Inr ())"
  shows "view s' = (\<lambda>(i, v). if v = u \<and> (\<exists>p \<in> set (projects d). pj_workspaceId p = w \<and> pj_id p = i)
    then Some r else view s (i, v))"
proof -
  have "view s' = (\<lambda>k. if k \<in> (\<lambda>p. (pj_id p, u)) ` set (workspace_projects w d) then Some r else view s k)"
    using assms by (intro for_each_sets [where f = "\<lambda>p. setCollaborator api p u r"])
      (auto simp: sets_roles_def sync_repository_access_def)
  then show ?thesis by (auto simp: fun_eq_iff workspace_projects_def image_iff)
qed

section \<open>Creating a team workspace\<close>

lemma audited_frame:
  "audited down i x d = (d', res) \<Longrightarrow>
     members d' = members d \<and> workspaces d' = workspaces d \<and> users d' = users d"
  using audit_record_frame(4,5,13) [of down i d]
  by (cases "audit_record down i d") (auto simp: audited_def split: sum.splits)

lemma create_workspace_cases:
  assumes "create_workspace limit down i u slug nm d = (d', res)"
  obtains (refused) "d' = d" "\<not> succeeds res"
  | (created) "find_first (\<lambda>w. ws_slug w = slug) (workspaces d) = None"
      "0 < limit \<Longrightarrow> \<not> is_platform_admin u d \<Longrightarrow> owned_teams u d < limit"
      "workspaces d' = create (new_workspace i slug nm) (workspaces d)"
      "members d' = create \<lparr>mb_workspaceId = i, mb_userId = u, mb_role = Owner\<rparr> (members d)"
      "users d' = users d"
proof (cases "find_first (\<lambda>w. ws_slug w = slug) (workspaces d) \<noteq> None \<or>
    (limit > 0 \<and> \<not> is_platform_admin u d \<and> owned_teams u d \<ge> limit)")
  case True
  with assms show ?thesis by (intro refused) (auto simp: create_workspace_def split: if_splits)
next
  case False
  with assms audited_frame show ?thesis
    by (intro created) (fastforce simp: create_workspace_def Let_def)+
qed

lemma owned_teams_created:
  assumes "workspaces d' = create (new_workspace i slug nm) (workspaces d)"
    and "members d' = create \<lparr>mb_workspaceId = i, mb_userId = u, mb_role = Owner\<rparr> (members d)"
    and fresh: "i \<notin> ws_id ` set (workspaces d)" "i \<notin> mb_workspaceId ` set (members d)"
  shows "owned_teams u d' = owned_teams u d + 1"
proof -
  from fresh(1) have "workspace_by_id i d = None"
    by (auto simp: workspace_by_id_def find_first_None)
  then have look: "workspace_by_id k d' =
      (if k = i then Some (new_workspace i slug nm) else workspace_by_id k d)" for k
    by (auto simp: workspace_by_id_def assms(1) find_first_create new_workspace_def split: option.splits)
  have "count_where (\<lambda>m. mb_userId m = u \<and> mb_role m = Owner \<and>
       map_option ws_team (workspace_by_id (mb_workspaceId m) d') = Some True) (members d) = owned_teams u d"
    unfolding owned_teams_def count_where_def
    by (rule arg_cong [where f = length], rule filter_cong) (use fresh(2) look in auto)
  with assms(2) look [of i] show ?thesis
    by (simp add: owned_teams_def create_def new_workspace_def)
qed

section \<open>Properties\<close>

text \<open>A workspace for the witnesses: one team with its owner, room for one more member.\<close>

definition sample_team :: workspace_row where
  "sample_team = (new_workspace ''w'' ''team'' ''Team'')\<lparr>ws_maxMembers := 2\<rparr>"

definition sample_db :: db where
  "sample_db = empty_db\<lparr>
     users := [\<lparr>us_id = ''o'', us_username = ''owner'', us_email = None, us_name = None, us_platformAdmin = False\<rparr>,
               \<lparr>us_id = ''m'', us_username = ''mia'', us_email = None, us_name = None, us_platformAdmin = False\<rparr>],
     workspaces := [sample_team],
     members := [\<lparr>mb_workspaceId = ''w'', mb_userId = ''o'', mb_role = Owner\<rparr>,
                 \<lparr>mb_workspaceId = ''w'', mb_userId = ''v'', mb_role = Member\<rparr>],
     projects := [\<lparr>pj_id = ''p'', pj_name = ''p'', pj_workspaceId = ''w'', pj_preset = DevTestProd, pj_scmProvider = ''gitea'', pj_scmFullName = ''o/p'',
       pj_scmDefaultBranch = ''main'', pj_ciDeployTokenHash = None, pj_lastCommit = []\<rparr>]\<rparr>"

definition sample_api :: "(string \<times> string \<Rightarrow> role option) scm_api" where
  "sample_api = \<lparr>setCollaborator = (\<lambda>p u r s. (s((pj_id p, u) \<mapsto> r), Inr ())),
     removeCollaborator = (\<lambda>p u s. (s((pj_id p, u) := None), Inr ())),
     rotateRegistryCredential = (\<lambda>p. None)\<rparr>"

lemmas sample_defs = sample_db_def sample_team_def sample_api_def empty_db_def new_workspace_def

lemma member_operations_keep_owners:
  assumes "memberships_ok d"
  shows "attach_member api (\<lambda>_. None) f w u r d s = (d1, s1, res1) \<Longrightarrow>
      memberships_ok d1 \<and> owners_of x d1 = owners_of x d"
    and "update_member api f down v w u r d s = (d2, s2, res2) \<Longrightarrow>
      memberships_ok d2 \<and> owners_of x d2 = owners_of x d"
    and "remove_member api f down v w u d s = (d3, s3, res3) \<Longrightarrow>
      memberships_ok d3 \<and> owners_of x d3 = owners_of x d"
proof -
  have quiet: "d0 = d" if "committed_by_others (\<lambda>_. None) d d0" for d0
    using that by (auto simp: committed_by_others_def)
  assume "attach_member api (\<lambda>_. None) f w u r d s = (d1, s1, res1)"
  then show "memberships_ok d1 \<and> owners_of x d1 = owners_of x d"
  proof (cases rule: attach_member_cases)
    case (1 d0)
    with quiet [of d0] assms show ?thesis
      by (simp add: member_guard_Inr insert_member_ok insert_member_owners)
  next
    case (3 d0 s1' e)
    with quiet [of d0] assms show ?thesis
      by (simp add: member_guard_Inr insert_member_ok insert_member_owners)
  qed (use assms quiet in auto)
next
  assume "update_member api f down v w u r d s = (d2, s2, res2)"
  then show "memberships_ok d2 \<and> owners_of x d2 = owners_of x d"
    by (cases rule: update_member_cases)
      (use assms memberships_ok_cong owners_of_cong set_member_role_ok
        set_member_role_owners [OF assms _ _ as_role_not_owner] in metis)+
next
  assume "remove_member api f down v w u d s = (d3, s3, res3)"
  then show "memberships_ok d3 \<and> owners_of x d3 = owners_of x d"
    by (cases rule: remove_member_cases)
      (use assms memberships_ok_cong owners_of_cong delete_member_ok delete_member_owners in metis)+
qed

text \<open>
  C9: The owners of a workspace cannot be changed through its member operations: attaching a
  member, changing a role and removing a member leave the list of owners of every workspace as it
  was, on every outcome, whatever the repository provider answers and whether or not the
  database write or the audit write fails; and the membership key stays unique.
\<close>

theorem owners_survive_member_operations:
  assumes "memberships_ok d"
    and "d' \<in> {fst (attach_member api (\<lambda>_. None) f w u r d s), fst (update_member api f down v w u r d s),
      fst (remove_member api f down v w u d s)}"
  shows "memberships_ok d' \<and> owners_of x d' = owners_of x d"
proof -
  have eta: "z = (fst z, fst (snd z), snd (snd z))" for z :: "db \<times> 's \<times> 'r outcome" by simp
  from assms(2) consider "d' = fst (attach_member api (\<lambda>_. None) f w u r d s)"
    | "d' = fst (update_member api f down v w u r d s)" | "d' = fst (remove_member api f down v w u d s)"
    by blast
  then show ?thesis
  proof cases
    case 1
    from member_operations_keep_owners(1) [OF assms(1) eta] 1 show ?thesis by simp
  next
    case 2
    from member_operations_keep_owners(2) [OF assms(1) eta] 2 show ?thesis by simp
  next
    case 3
    from member_operations_keep_owners(3) [OF assms(1) eta] 3 show ?thesis by simp
  qed
qed

theorem owners_survive_member_operations_witness:
  "owners_of ''w'' (fst (remove_member sample_api False False ''o'' ''w'' ''v'' sample_db (\<lambda>_. None))) = [''o'']"
proof -
  have ok: "memberships_ok sample_db" by (simp add: memberships_ok_def keyed_def sample_defs)
  obtain d s r where run: "remove_member sample_api False False ''o'' ''w'' ''v'' sample_db (\<lambda>_. None) = (d, s, r)"
    using prod_cases3 by blast
  have "d \<in> {fst (attach_member sample_api (\<lambda>_. None) False ''w'' ''v'' AsViewer sample_db (\<lambda>_. None)),
      fst (update_member sample_api False False ''o'' ''w'' ''v'' AsViewer sample_db (\<lambda>_. None)),
      fst (remove_member sample_api False False ''o'' ''w'' ''v'' sample_db (\<lambda>_. None))}"
    by (simp add: run)
  from owners_survive_member_operations [OF ok this]
  have "owners_of ''w'' d = owners_of ''w'' sample_db" by simp
  then show ?thesis by (simp add: run) (simp add: owners_of_def sample_defs)
qed

text \<open>
  C10: Attaching a member respects the quota and is undone when the provider refuses. If it succeeds,
  the workspace has at most as many members as its limit, every repository of the workspace accepted
  the role and the membership is there; if it fails, the database is exactly what other transactions
  committed, so no membership remains - except when the provider refused the role and the database
  then also refused the compensating delete (\<open>fails\<close>): then, and only then, the new membership stays.
\<close>

theorem attach_member_all_or_nothing:
  assumes "attach_member api c fails w u r d s = (d', s', res)"
  shows "if succeeds res
    then (\<forall>l. member_limit w d' = Some l \<longrightarrow> member_count w d' \<le> l) \<and>
      sync_repository_access api w u (as_role r) d' s = (s', Inr ()) \<and>
      role_for u w d' = Some (as_role r)
    else committed_by_others c d d' \<or>
      (fails \<and> (\<exists>d0 s1 e. committed_by_others c d d0 \<and> \<not> member_exists u w d0 \<and>
         d' = d0\<lparr>members := members d0 @ [\<lparr>mb_workspaceId = w, mb_userId = u, mb_role = as_role r\<rparr>]\<rparr> \<and>
         sync_repository_access api w u (as_role r) d' s = (s1, Inl e)))"
  using assms
proof (cases rule: attach_member_cases)
  case (1 d0)
  with assms have "member_quota.within w d'" by (simp add: attach_within_limit)
  moreover from 1 have "role_for u w d' = Some (as_role r)"
    by (auto simp: role_for_def member_guard_Inr member_exists_def membership_def insert_member_def
        find_first_create)
  ultimately show ?thesis using 1 by (simp add: member_quota.within_def)
next
  case (3 d0 s1 e)
  then show ?thesis by (auto simp: insert_member_def create_def member_guard_Inr)
qed simp

theorem attach_member_all_or_nothing_witness:
  "role_for ''m'' ''w'' (fst (attach_member sample_api (\<lambda>_. None) False ''w'' ''m'' AsViewer
     (sample_db\<lparr>members := [\<lparr>mb_workspaceId = ''w'', mb_userId = ''o'', mb_role = Owner\<rparr>]\<rparr>) (\<lambda>_. None))) = Some Viewer"
proof -
  let ?d = "sample_db\<lparr>members := [\<lparr>mb_workspaceId = ''w'', mb_userId = ''o'', mb_role = Owner\<rparr>]\<rparr>"
  obtain d s r where run: "attach_member sample_api (\<lambda>_. None) False ''w'' ''m'' AsViewer ?d (\<lambda>_. None) = (d, s, r)"
    using prod_cases3 by blast
  then have "succeeds r"
    by (auto simp: attach_member_def attach_claim_def member_guard_def assert_available_def
        workspace_by_id_def member_exists_def membership_def transaction_def insert_member_def create_def
        sync_repository_access_def workspace_projects_def sample_defs)
  with attach_member_all_or_nothing [OF run] show ?thesis by (simp add: run)
qed

text \<open>
  A role change that returns a result has reached every repository: if the provider's
  successful calls set the role they are given, then after \<open>updateMember\<close> the repositories of
  the workspace hold exactly the assigned role for that user, other users and other workspaces'
  repositories are as before, and the membership row holds the same role. (Registry credentials are
  rotated only when write access ends; rotation is assumed to leave collaborators alone.)
\<close>

theorem update_member_mirrors_role:
  assumes "update_member api f down v w u r d s = (d', s', Inr vs)"
    and "sets_roles api view"
    and rotate: "\<And>x. view (rotate_registry_credentials api w d' x) = view x"
    and "memberships_ok d"
  shows "view s' = (\<lambda>(i, x). if x = u \<and> (\<exists>p \<in> set (projects d). pj_workspaceId p = w \<and> pj_id p = i)
      then Some (as_role r) else view s (i, x)) \<and>
    role_for u w d' = Some (as_role r)"
  using assms(1)
proof (cases rule: update_member_cases)
  case (changed row admin s1)
  from changed(7) rotate have "view s' = view s1" by simp
  with sync_sets [OF assms(2) changed(6)] have "view s' = (\<lambda>(i, x). if x = u \<and>
      (\<exists>p \<in> set (projects d). pj_workspaceId p = w \<and> pj_id p = i) then Some (as_role r) else view s (i, x))"
    by simp
  moreover have "\<not> f"
    using assms(1) changed(1,2,3,6)
    by (auto simp: update_member_def member_or_throw_Inr [THEN iffD2] set_member_role_def)
  with changed(2,4) have "membership u w d' = Some (row\<lparr>mb_role := as_role r\<rparr>)"
    by (simp add: membership_def set_member_role_def member_exists_def find_first_rewrite)
      (use find_first_Some in fastforce)
  ultimately show ?thesis by (simp add: role_for_def)
qed simp

theorem update_member_mirrors_role_witness:
  "role_for ''v'' ''w'' (fst (update_member sample_api False False ''o'' ''w'' ''v'' AsViewer sample_db (\<lambda>_. None)))
     = Some Viewer"
proof -
  obtain d s r where run: "update_member sample_api False False ''o'' ''w'' ''v'' AsViewer sample_db (\<lambda>_. None) = (d, s, r)"
    using prod_cases3 by blast
  have "succeeds (snd (snd (update_member sample_api False False ''o'' ''w'' ''v'' AsViewer sample_db (\<lambda>_. None))))"
    by (simp add: update_member_def require_def role_for_def membership_def member_or_throw_def
        sync_repository_access_def workspace_projects_def set_member_role_def member_exists_def
        workspace_members_def member_username_def workspace_event_def audit_eval sample_defs)
  with run obtain vs where vs: "r = Inr vs" by (auto simp: succeeds_iff)
  have law: "sets_roles sample_api (\<lambda>s. s)" by (simp add: sets_roles_def sample_api_def)
  have idle: "fold (\<lambda>p x. x) ps x = x" for ps :: "project_row list" and x :: "string \<times> string \<Rightarrow> role option"
    by (induction ps) simp_all
  have rot: "rotate_registry_credentials sample_api ''w'' d x = x" for x
    by (simp add: rotate_registry_credentials_def sample_api_def idle)
  have ok: "memberships_ok sample_db" by (simp add: memberships_ok_def keyed_def sample_defs)
  from update_member_mirrors_role [where view = "\<lambda>s. s", OF run [unfolded vs] law rot ok] show ?thesis by (simp add: run)
qed

text \<open>
  A project outside the caller's workspaces is indistinguishable from an unknown id: for a user
  who is no member of the project's workspace, the answer of \<open>requireProject\<close> (the error and
  its text) is the one given in the database without that project. A member is refused exactly
  when the role lacks the permission.
\<close>

theorem foreign_project_is_unknown:
  assumes "project_by_id i d = Some pr"
  shows "case role_for u (pj_workspaceId pr) d of
      None \<Rightarrow> require_project u i p d =
        require_project u i p (d\<lparr>projects := delete_many (\<lambda>x. pj_id x = i) (projects d)\<rparr>)
    | Some r \<Rightarrow> require_project u i p d =
        (if r \<in> permissions p then Inr (pj_workspaceId pr, r) else Inl (access_required p))"
proof (cases "role_for u (pj_workspaceId pr) d")
  case None
  with assms have "require_project u i p d =
      require_project u i p (d\<lparr>projects := delete_many (\<lambda>x. pj_id x = i) (projects d)\<rparr>)"
    by (intro require_project_hidden) simp
  with None show ?thesis by simp
next
  case (Some r)
  with assms show ?thesis by (simp add: require_project_def can_def)
qed

theorem foreign_project_is_unknown_witness:
  "require_project ''m'' ''p'' Read sample_db = require_project ''m'' ''p'' Read (sample_db\<lparr>projects := []\<rparr>)"
  using foreign_project_is_unknown [of "''p''" sample_db
      "\<lparr>pj_id = ''p'', pj_name = ''p'', pj_workspaceId = ''w'', pj_preset = DevTestProd, pj_scmProvider = ''gitea'', pj_scmFullName = ''o/p'',
       pj_scmDefaultBranch = ''main'', pj_ciDeployTokenHash = None, pj_lastCommit = []\<rparr>" "''m''" Read]
  by (simp add: sample_defs project_by_id_def role_for_def membership_def delete_many_def)

text \<open>
  The limit on owned team workspaces holds after every creation: an account that is not a
  platform administrator and creates a team workspace owns at most the configured number of them
  afterwards, and a refused creation changes nothing.
\<close>

theorem team_workspace_limit:
  assumes "create_workspace limit down i u slug nm d = (d', res)"
    and "0 < limit" and "\<not> is_platform_admin u d" and "owned_teams u d \<le> limit"
    and "i \<notin> ws_id ` set (workspaces d)" and "i \<notin> mb_workspaceId ` set (members d)"
  shows "owned_teams u d' \<le> limit \<and> (d' = d \<or> owners_of i d' = [u])"
  using assms(1)
proof (cases rule: create_workspace_cases)
  case created
  then have "owned_teams u d' = owned_teams u d + 1"
    using owned_teams_created assms(5,6) by blast
  moreover have "filter (\<lambda>m. mb_workspaceId m = i \<and> mb_role m = Owner) (members d) = []"
    using assms(6) by (auto simp: filter_empty_conv)
  then have "owners_of i d' = [u]" by (simp add: owners_of_def created(4) create_def)
  ultimately show ?thesis using created(2) [OF assms(2,3)] by simp
qed (use assms in simp)

theorem team_workspace_limit_witness:
  "owned_teams ''m'' (fst (create_workspace 1 False ''x'' ''m'' ''mine'' ''Mine'' sample_db)) \<le> 1"
proof -
  obtain d r where run: "create_workspace 1 False ''x'' ''m'' ''mine'' ''Mine'' sample_db = (d, r)"
    by fastforce
  have "owned_teams ''m'' d \<le> 1 \<and> (d = sample_db \<or> owners_of ''x'' d = [''m''])"
    by (rule team_workspace_limit [OF run])
      (simp_all add: sample_defs is_platform_admin_def user_by_id_def owned_teams_def)
  then show ?thesis by (simp add: run [simplified])
qed

end
