(* ===== verification/DeployOps.thy ===== *)
theory DeployOps
  imports Capacity AuditLog Lease
begin

text \<open>
  The durable operation lock of an environment
  (\<open>projects/project-deployment-operations.ts\<close>): \<open>begin\<close> creates an operation and claims the
  environment in one capacity transaction; a worker holds a renewable lease fenced by the
  execution generation; \<open>complete\<close> publishes the result and frees the environment;
  \<open>recoverInterrupted\<close> closes what a dead process left behind.

  Every database statement is one definition on the row it writes (\<open>..._row\<close>) and every method
  is composed from them as the code does. \<open>me\<close> is the replica's instance id, \<open>t\<close> the database
  clock. What other requests commit between two statements of \<open>begin\<close> is a parameter; the
  statements of concurrent workers interleave freely in the step relation \<open>op_stmt\<close>.
\<close>

definition execution_lease_ms :: int where "execution_lease_ms = 90000"
definition legacy_execution_grace_ms :: int where "legacy_execution_grace_ms = execution_lease_ms"

text \<open>The execution context of a worker, kept in the process.\<close>

record exec_ctx =
  cx_operationId :: string
  cx_generation :: nat
  cx_lost :: "http_error option"
  cx_completed :: bool

section \<open>Statements on an operation row\<close>

definition open_operation :: "operation_row \<Rightarrow> bool" where
  "open_operation r = (op_status r \<in> {OpRunning, OpResult Cancelled} \<and> op_finishedAt r = None)"

definition claim_row :: "string \<Rightarrow> instant \<Rightarrow> operation_row \<Rightarrow> operation_row option" where
  "claim_row me t = when_row
     (\<lambda>r. open_operation r \<and>
        (op_owner r = None \<or> op_owner r = Some me \<or> expired (op_leaseExpiresAt r) t))
     (\<lambda>r. r\<lparr>op_owner := Some me,
        op_generation := (if op_owner r = Some me then op_generation r else op_generation r + 1),
        op_leaseExpiresAt := Some (t + execution_lease_ms)\<rparr>)"

definition renew_row :: "string \<Rightarrow> nat \<Rightarrow> instant \<Rightarrow> operation_row \<Rightarrow> operation_row option" where
  "renew_row me g t = when_row
     (\<lambda>r. op_owner r = Some me \<and> op_generation r = g \<and> open_operation r \<and>
        unexpired (op_leaseExpiresAt r) t)
     (\<lambda>r. r\<lparr>op_leaseExpiresAt := Some (t + execution_lease_ms)\<rparr>)"

definition release_row :: "string \<Rightarrow> nat \<Rightarrow> operation_row \<Rightarrow> operation_row option" where
  "release_row me g = when_row (\<lambda>r. op_owner r = Some me \<and> op_generation r = g)
     (\<lambda>r. r\<lparr>op_owner := None, op_leaseExpiresAt := None\<rparr>)"

definition finish_row ::
  "op_result \<Rightarrow> string option \<Rightarrow> instant \<Rightarrow> operation_row \<Rightarrow> operation_row" where
  "finish_row s m t r = r\<lparr>op_status := OpResult s, op_phase := terminal_deployment_phase s m,
     op_message := (case m of None \<Rightarrow> op_message r | Some x \<Rightarrow> Some x), op_finishedAt := Some t\<rparr>"

definition complete_owned_row ::
  "string \<Rightarrow> nat \<Rightarrow> op_result \<Rightarrow> string option \<Rightarrow> instant \<Rightarrow> operation_row \<Rightarrow> operation_row option" where
  "complete_owned_row me g s m t = when_row
     (\<lambda>r. open_operation r \<and> op_owner r = Some me \<and> op_generation r = g)
     (\<lambda>r. (finish_row s m t r)\<lparr>op_owner := None, op_leaseExpiresAt := None\<rparr>)"

definition complete_unowned_row ::
  "op_result \<Rightarrow> string option \<Rightarrow> instant \<Rightarrow> operation_row \<Rightarrow> operation_row option" where
  "complete_unowned_row s m t = when_row (\<lambda>r. op_owner r = None \<and> op_finishedAt r = None)
     (finish_row s m t)"

text \<open>The owner a phase statement requires: the worker's generation, or no owner at all.\<close>

definition held_by :: "string \<Rightarrow> nat option \<Rightarrow> operation_row \<Rightarrow> bool" where
  "held_by me g r = (case g of
      Some n \<Rightarrow> op_owner r = Some me \<and> op_generation r = n
    | None \<Rightarrow> op_owner r = None)"

definition advance_row ::
  "string \<Rightarrow> nat option \<Rightarrow> active_phase \<Rightarrow> string option \<Rightarrow> operation_row \<Rightarrow> operation_row option" where
  "advance_row me g p m = when_row
     (\<lambda>r. op_status r = OpRunning \<and> op_finishedAt r = None \<and>
        op_phase r \<in> set (active_phase_predecessors p) \<and> held_by me g r)
     (\<lambda>r. r\<lparr>op_phase := Active p, op_message := (if truthy m then m else op_message r)\<rparr>)"

definition progress_row :: "string \<Rightarrow> nat \<Rightarrow> string \<Rightarrow> operation_row \<Rightarrow> operation_row option" where
  "progress_row me g m = when_row
     (\<lambda>r. op_status r = OpRunning \<and> op_owner r = Some me \<and> op_generation r = g)
     (\<lambda>r. r\<lparr>op_message := Some m\<rparr>)"

definition orphaned :: "instant \<Rightarrow> operation_row \<Rightarrow> bool" where
  "orphaned t r = (expired (op_leaseExpiresAt r) t \<or>
     (op_owner r = None \<and> op_leaseExpiresAt r = None \<and> op_kind r \<noteq> ''ci-retry'' \<and>
      op_createdAt r \<le> t - legacy_execution_grace_ms))"

text \<open>The recovery statement repeats what it read: status, owner, generation and staleness.\<close>

definition recover_row ::
  "operation_row \<Rightarrow> instant \<Rightarrow> instant \<Rightarrow> operation_row \<Rightarrow> operation_row option" where
  "recover_row seen t now = when_row
     (\<lambda>r. op_status r = op_status seen \<and> op_finishedAt r = None \<and> op_owner r = op_owner seen \<and>
        op_generation r = op_generation seen \<and> orphaned t r)
     (\<lambda>r. let s = (if op_status seen = OpResult Cancelled then Cancelled else Failed) in
        r\<lparr>op_status := OpResult s, op_phase := Result s,
          op_message := Some (if s = Cancelled then ''Cancellation completed during API restart''
                              else ''Interrupted by API restart''),
          op_finishedAt := Some now, op_owner := None, op_leaseExpiresAt := None\<rparr>)"

definition on_operation ::
  "string \<Rightarrow> (operation_row \<Rightarrow> operation_row option) \<Rightarrow> db \<Rightarrow> db \<times> operation_row option" where
  "on_operation i f d = (case update_row op_id i f (operations d) of
      (rows, res) \<Rightarrow> (d\<lparr>operations := rows\<rparr>, res))"

definition unlock_environment :: "string \<Rightarrow> db \<Rightarrow> db" where
  "unlock_environment i d = d\<lparr>environments :=
     rewrite (\<lambda>e. en_activeOperationId e = Some i) (\<lambda>e. e\<lparr>en_activeOperationId := None\<rparr>)
       (environments d)\<rparr>"

section \<open>The execution lease of a worker\<close>

definition claim_execution :: "string \<Rightarrow> instant \<Rightarrow> string \<Rightarrow> db \<Rightarrow> db \<times> nat option" where
  "claim_execution me t i d = (case on_operation i (claim_row me t) d of
      (d', r) \<Rightarrow> (d', map_option op_generation r))"

definition lease_lost :: http_error where
  "lease_lost = Conflict ''Deployment execution lease was lost''"

definition renew_execution ::
  "string \<Rightarrow> instant \<Rightarrow> exec_ctx \<Rightarrow> db \<Rightarrow> db \<times> exec_ctx \<times> unit outcome" where
  "renew_execution me t cx d =
     (if cx_completed cx \<or> cx_lost cx \<noteq> None
      then (d, cx, case cx_lost cx of Some e \<Rightarrow> Inl e | None \<Rightarrow> Inr ())
      else (case on_operation (cx_operationId cx) (renew_row me (cx_generation cx) t) d of
          (d', Some _) \<Rightarrow> (d', cx, Inr ())
        | (d', None) \<Rightarrow> (d', cx\<lparr>cx_lost := Some lease_lost\<rparr>, Inl lease_lost)))"

definition release_execution :: "string \<Rightarrow> exec_ctx \<Rightarrow> db \<Rightarrow> db" where
  "release_execution me cx d =
     fst (on_operation (cx_operationId cx) (release_row me (cx_generation cx)) d)"

definition holds :: "exec_ctx option \<Rightarrow> string \<Rightarrow> bool" where
  "holds cxo i = (case cxo of None \<Rightarrow> False | Some cx \<Rightarrow> cx_operationId cx = i)"

definition assert_execution ::
  "string \<Rightarrow> instant \<Rightarrow> exec_ctx option \<Rightarrow> string \<Rightarrow> db \<Rightarrow> db \<times> exec_ctx option \<times> unit outcome" where
  "assert_execution me t cxo i d = (case cxo of
      None \<Rightarrow> (d, None, Inl (Conflict ''Deployment execution lease is not held by this task''))
    | Some cx \<Rightarrow>
        if cx_operationId cx \<noteq> i
        then (d, Some cx, Inl (Conflict ''Deployment execution lease is not held by this task''))
        else (case cx_lost cx of
            Some e \<Rightarrow> (d, Some cx, Inl e)
          | None \<Rightarrow> (case renew_execution me t cx d of
              (d', cx', Inl e) \<Rightarrow> (d', Some cx', Inl e)
            | (d', cx', Inr _) \<Rightarrow> (d', Some cx', case cx_lost cx' of Some e \<Rightarrow> Inl e | None \<Rightarrow> Inr ()))))"

text \<open>
  A task runs under a claimed lease. \<open>local\<close> is the set of operations this process executes;
  the task's own statements, and the timer renewals among them, are its argument.
\<close>

definition run_with_execution_lease ::
  "string \<Rightarrow> instant \<Rightarrow> string \<Rightarrow> exec_ctx option
     \<Rightarrow> (exec_ctx option \<Rightarrow> db \<Rightarrow> db \<times> exec_ctx option \<times> 'a outcome)
     \<Rightarrow> string list \<Rightarrow> db \<Rightarrow> string list \<times> db \<times> 'a outcome" where
  "run_with_execution_lease me t i parent task local d =
     (if holds parent i
      then (case assert_execution me t parent i d of
          (d', _, Inl e) \<Rightarrow> (local, d', Inl e)
        | (d', parent', Inr _) \<Rightarrow> (case task parent' d' of (d'', _, r) \<Rightarrow> (local, d'', r)))
      else if i \<in> set local
      then (local, d, Inl (Conflict ''Deployment operation is already executing in this API process''))
      else (case claim_execution me t i d of
          (d', None) \<Rightarrow> (local, d', Inl (Conflict ''Deployment operation is owned by another API process''))
        | (d', Some g) \<Rightarrow>
            (let cx = \<lparr>cx_operationId = i, cx_generation = g, cx_lost = None, cx_completed = False\<rparr>
             in case task (Some cx) d' of
                  (d'', cxo, r) \<Rightarrow>
                    (let cx' = (case cxo of Some c \<Rightarrow> c | None \<Rightarrow> cx);
                         r' = (case r of Inl e \<Rightarrow> Inl e
                               | Inr x \<Rightarrow> (case cx_lost cx' of Some e \<Rightarrow> Inl e | None \<Rightarrow> Inr x))
                     in (local, if cx_completed cx' then d'' else release_execution me cx' d'', r')))))"

section \<open>Completion, phases and progress\<close>

definition record_result_safely :: "bool \<Rightarrow> string \<Rightarrow> db \<Rightarrow> db" where
  "record_result_safely down i d = record_safely (record_deployment_result down i) d"

text \<open>
  The statements of a completion after its lease was asserted. The database can refuse any of them:
  \<open>fails\<close> says which. A refused update of the operation publishes nothing; a refused update of the
  environments, or a refused read of the correlation id, throws although the result is recorded.
\<close>

datatype completion_stmt = UpdateOperation | UpdateEnvironments | ReadOperation

definition refused :: http_error where "refused = ServerError ''database unavailable''"

definition complete_owned ::
  "string \<Rightarrow> instant \<Rightarrow> exec_ctx \<Rightarrow> op_result \<Rightarrow> string option \<Rightarrow> (completion_stmt \<Rightarrow> bool) \<Rightarrow> bool \<Rightarrow> db
     \<Rightarrow> db \<times> exec_ctx option \<times> unit outcome" where
  "complete_owned me t cx s m fails down d =
     (case assert_execution me t (Some cx) (cx_operationId cx) d of
        (d1, cxo, Inl e) \<Rightarrow> (d1, cxo, Inl e)
      | (d1, cxo, Inr _) \<Rightarrow>
          (let cx1 = the cxo; i = cx_operationId cx in
           if fails UpdateOperation then (d1, Some (cx1\<lparr>cx_completed := False\<rparr>), Inl refused)
           else (case on_operation i (complete_owned_row me (cx_generation cx) s m t) d1 of
               (d2, None) \<Rightarrow>
                 (let lost = Conflict ''Deployment completion lost its execution fence''
                  in (d2, Some (cx1\<lparr>cx_completed := False, cx_lost := Some lost\<rparr>), Inl lost))
             | (d2, Some _) \<Rightarrow>
                 (let done = Some (cx1\<lparr>cx_completed := True\<rparr>) in
                  if fails UpdateEnvironments then (d2, done, Inl refused)
                  else (let d3 = unlock_environment i d2 in
                    if fails ReadOperation then (d3, done, Inl refused)
                    else (record_result_safely down i d3, done, Inr ()))))))"

definition already_finished :: "op_result \<Rightarrow> string \<Rightarrow> db \<Rightarrow> bool" where
  "already_finished s i d = (case operation_by_id i d of
      None \<Rightarrow> False
    | Some r \<Rightarrow> op_owner r = None \<and> op_status r = OpResult s \<and> op_finishedAt r \<noteq> None)"

text \<open>
  Without a lease a refused update of the operation still frees the environment, and refused reads
  count as a missing operation; only a refused update of the environments throws.
\<close>

definition complete_unowned ::
  "instant \<Rightarrow> string \<Rightarrow> op_result \<Rightarrow> string option \<Rightarrow> (completion_stmt \<Rightarrow> bool) \<Rightarrow> bool \<Rightarrow> db
     \<Rightarrow> db \<times> unit outcome" where
  "complete_unowned t i s m fails down d =
     (let free = (\<lambda>x. if fails UpdateEnvironments then (x, Inl refused)
                      else (record_result_safely down i (unlock_environment i x), Inr ()))
      in if fails UpdateOperation
      then (if fails UpdateEnvironments then (d, Inl refused) else (unlock_environment i d, Inr ()))
      else (case on_operation i (complete_unowned_row s m t) d of
          (d1, None) \<Rightarrow>
            if \<not> fails ReadOperation \<and> already_finished s i d1 then free d1 else (d1, Inr ())
        | (d1, Some _) \<Rightarrow> free d1))"

definition complete ::
  "string \<Rightarrow> instant \<Rightarrow> exec_ctx option \<Rightarrow> string \<Rightarrow> op_result \<Rightarrow> string option
     \<Rightarrow> (completion_stmt \<Rightarrow> bool) \<Rightarrow> bool \<Rightarrow> db \<Rightarrow> db \<times> exec_ctx option \<times> unit outcome" where
  "complete me t cxo i s m fails down d =
     (let free = (case complete_unowned t i s m fails down d of (d', r) \<Rightarrow> (d', cxo, r)) in
      case cxo of
        Some cx \<Rightarrow> if cx_operationId cx = i then complete_owned me t cx s m fails down d else free
      | None \<Rightarrow> free)"

definition advance_phase ::
  "string \<Rightarrow> instant \<Rightarrow> exec_ctx option \<Rightarrow> string \<Rightarrow> active_phase \<Rightarrow> string option \<Rightarrow> db
     \<Rightarrow> db \<times> exec_ctx option \<times> unit outcome" where
  "advance_phase me t cxo i p m d =
     (if holds cxo i
      then (case assert_execution me t cxo i d of
          (d1, cx1, Inl e) \<Rightarrow> (d1, cx1, Inl e)
        | (d1, cx1, Inr _) \<Rightarrow>
            (fst (on_operation i (advance_row me (map_option cx_generation cx1) p m) d1), cx1, Inr ()))
      else (fst (on_operation i (advance_row me None p m) d), cxo, Inr ()))"

definition op_cancelled ::
  "string \<Rightarrow> instant \<Rightarrow> exec_ctx option \<Rightarrow> string \<Rightarrow> db \<Rightarrow> db \<times> exec_ctx option \<times> bool outcome" where
  "op_cancelled me t cxo i d =
     (case (if holds cxo i then assert_execution me t cxo i d else (d, cxo, Inr ())) of
        (d1, cx1, Inl e) \<Rightarrow> (d1, cx1, Inl e)
      | (d1, cx1, Inr _) \<Rightarrow> (d1, cx1, Inr (case operation_by_id i d1 of
            None \<Rightarrow> True | Some r \<Rightarrow> op_status r = OpResult Cancelled)))"

definition report_progress ::
  "string \<Rightarrow> instant \<Rightarrow> exec_ctx option \<Rightarrow> string \<Rightarrow> string \<Rightarrow> env_name \<Rightarrow> string \<Rightarrow> db
     \<Rightarrow> db \<times> exec_ctx option" where
  "report_progress me t cxo i p n m d =
     (if \<not> holds cxo i then (d, cxo)
      else (let ph = (if contains ''verifying deployment'' (lower m) then Verifying else Running)
        in case assert_execution me t cxo i d of
             (d1, cx1, Inl _) \<Rightarrow> (d1, cx1)
           | (d1, cx1, Inr _) \<Rightarrow>
               (let d2 = fst (on_operation i (progress_row me (cx_generation (the cx1)) m) d1)
                in case advance_phase me t cx1 i ph None d2 of
                     (d3, cx3, _) \<Rightarrow>
                       (d3\<lparr>environments := rewrite (\<lambda>e. en_projectId e = p \<and> en_name e = n \<and>
                            en_activeOperationId e = Some i) (\<lambda>e. e\<lparr>en_statusReason := Some m\<rparr>)
                            (environments d3)\<rparr>, cx3))))"

section \<open>Recovery\<close>

definition recover_environment :: "operation_row \<Rightarrow> db \<Rightarrow> db" where
  "recover_environment seen d = d\<lparr>environments :=
     rewrite (\<lambda>e. en_activeOperationId e = Some (op_id seen))
       (\<lambda>e. if op_status seen = OpResult Cancelled
            then e\<lparr>en_activeOperationId := None, en_status := EsEmpty, en_statusReason := None,
                   en_version := None, en_buildArtifactId := None, en_url := None,
                   en_deploymentRequired := False\<rparr>
            else e\<lparr>en_activeOperationId := None, en_status := EsFailed,
                   en_statusReason := Some ''Deployment was interrupted by an API restart. Deploy to retry.''\<rparr>)
       (environments d)\<rparr>"

definition has_agent_jobs :: "string \<Rightarrow> db \<Rightarrow> bool" where
  "has_agent_jobs i d = list_ex (\<lambda>j. aj_operationId j = Some i) (agentJobs d)"

definition recover_one :: "instant \<Rightarrow> instant \<Rightarrow> bool \<Rightarrow> operation_row \<Rightarrow> db \<Rightarrow> db" where
  "recover_one t now down seen d =
     (case on_operation (op_id seen) (recover_row seen t now) d of
        (d1, None) \<Rightarrow> d1
      | (d1, Some _) \<Rightarrow> record_result_safely down (op_id seen) (recover_environment seen d1))"

definition interrupted_operations :: "instant \<Rightarrow> db \<Rightarrow> operation_row list" where
  "interrupted_operations t d = filter (\<lambda>r. open_operation r \<and> orphaned t r) (operations d)"

definition recover_interrupted :: "instant \<Rightarrow> instant \<Rightarrow> bool \<Rightarrow> db \<Rightarrow> db" where
  "recover_interrupted t now down d =
     fold (recover_one t now down)
       (filter (\<lambda>r. \<not> has_agent_jobs (op_id r) d) (interrupted_operations t d)) d"

section \<open>Beginning an operation\<close>

record expected_state =
  ex_stateToken :: string
  ex_targetId :: "string option"
  ex_allocationId :: "string option"
  ex_configRevision :: nat
  ex_targetRevision :: "instant option"
  ex_allocationRevision :: "instant option"

text \<open>The environment is read together with the revisions of its target and allocation.\<close>

definition matches_expected_state :: "environment_row \<Rightarrow> db \<Rightarrow> expected_state \<Rightarrow> bool" where
  "matches_expected_state e d x =
     (en_targetId e = ex_targetId x \<and> en_allocationId e = ex_allocationId x \<and>
      en_configRevision e = ex_configRevision x \<and>
      map_option tg_updatedAt (target_by_id (en_targetId e) d) = ex_targetRevision x \<and>
      map_option al_updatedAt (allocation_by_id (en_allocationId e) d) = ex_allocationRevision x)"

definition lifecycle_kind :: "string \<Rightarrow> bool" where
  "lifecycle_kind k = (k \<in> {''start'', ''stop'', ''remove''})"

definition begin_reason :: "string \<Rightarrow> string" where
  "begin_reason k =
     (if k = ''start'' then ''Starting environment''
      else if k = ''stop'' then ''Stopping environment''
      else if k = ''remove'' then ''Removing deployment''
      else ''Preparing deployment'')"

text \<open>What a request passes to \<open>begin\<close>, with the generated ids and the clock.\<close>

record begin_request =
  br_operationId :: string
  br_correlationId :: string
  br_now :: instant
  br_projectId :: string
  br_env :: env_name
  br_kind :: string
  br_version :: "string option"
  br_artifact :: "string option"
  br_actor :: "string option"
  br_expected :: "expected_state option"

definition new_operation :: "begin_request \<Rightarrow> environment_row \<Rightarrow> db \<Rightarrow> operation_row" where
  "new_operation q e seen =
     \<lparr>op_id = br_operationId q, op_correlationId = br_correlationId q, op_environmentId = en_id e,
      op_buildArtifactId = br_artifact q, op_kind = br_kind q, op_status = OpRunning,
      op_phase = Queued, op_version = br_version q,
      op_message = Some (if br_kind q = ''ci-retry'' then ''Waiting for GitHub Actions build''
                         else ''Preparing deployment''),
      op_owner = None, op_generation = 0, op_leaseExpiresAt = None,
      op_targetIdSnapshot = en_targetId e,
      op_targetName = (case target_by_id (en_targetId e) seen of
          Some g \<Rightarrow> tg_name g | None \<Rightarrow> provider_str (en_provider e)),
      op_providerSnapshot = en_provider e, op_createdAt = br_now q, op_finishedAt = None\<rparr>"

definition claimable :: "begin_request \<Rightarrow> environment_row \<Rightarrow> environment_row \<Rightarrow> bool" where
  "claimable q e x =
     (en_id x = en_id e \<and> en_activeOperationId x = None \<and>
      (case br_expected q of
         None \<Rightarrow> True
       | Some w \<Rightarrow> en_targetId x = ex_targetId w \<and> en_allocationId x = ex_allocationId w \<and>
           en_configRevision x = ex_configRevision w))"

definition claim_environment :: "begin_request \<Rightarrow> environment_row \<Rightarrow> environment_row" where
  "claim_environment q x = x\<lparr>en_activeOperationId := Some (br_operationId q),
     en_status := EsDeploying, en_statusReason := Some (begin_reason (br_kind q)),
     en_deploymentRequired := (if lifecycle_kind (br_kind q) then en_deploymentRequired x else True)\<rparr>"

definition begin_guard :: "string \<Rightarrow> environment_row \<Rightarrow> db \<Rightarrow> unit outcome" where
  "begin_guard w e d = (case assert_available w CapConcurrentOperations 1 None d of
      Inl err \<Rightarrow> Inl err
    | Inr _ \<Rightarrow> if environment_by_id (en_id e) d = None then Inl (ServerError ''P2003'') else Inr ())"

definition begin_write :: "begin_request \<Rightarrow> environment_row \<Rightarrow> db \<Rightarrow> db \<Rightarrow> db" where
  "begin_write q e seen d = d\<lparr>operations := create (new_operation q e seen) (operations d),
     environments := rewrite (claimable q e) (claim_environment q) (environments d)\<rparr>"

text \<open>The capacity transaction; it returns the number of claimed environments.\<close>

definition begin_tx ::
  "begin_request \<Rightarrow> string \<Rightarrow> environment_row \<Rightarrow> db \<Rightarrow> db \<Rightarrow> db \<times> nat outcome" where
  "begin_tx q w e seen d = (case begin_guard w e d of
      Inl err \<Rightarrow> (d, Inl err)
    | Inr _ \<Rightarrow> (begin_write q e seen d, Inr (count_where (claimable q e) (environments d))))"

definition cancel_operation :: "string \<Rightarrow> instant \<Rightarrow> string \<Rightarrow> db \<Rightarrow> db" where
  "cancel_operation m t i d = d\<lparr>operations := rewrite (\<lambda>r. op_id r = i)
     (\<lambda>r. r\<lparr>op_status := OpResult Cancelled, op_phase := Result Cancelled, op_message := Some m,
            op_finishedAt := Some t\<rparr>) (operations d)\<rparr>"

text \<open>The environment as it was read, put back if the operation still holds it.\<close>

definition restore_environment :: "string \<Rightarrow> environment_row \<Rightarrow> db \<Rightarrow> db" where
  "restore_environment i e d = d\<lparr>environments :=
     rewrite (\<lambda>x. en_id x = en_id e \<and> en_activeOperationId x = Some i)
       (\<lambda>x. x\<lparr>en_activeOperationId := None, en_status := en_status e,
              en_statusReason := en_statusReason e,
              en_deploymentRequired := en_deploymentRequired e\<rparr>) (environments d)\<rparr>"

definition cancel_unstarted :: "string \<Rightarrow> instant \<Rightarrow> string \<Rightarrow> environment_row \<Rightarrow> db \<Rightarrow> db" where
  "cancel_unstarted m t i e d = restore_environment i e (cancel_operation m t i d)"

definition begin_audit :: "begin_request \<Rightarrow> project_row \<Rightarrow> audit_input" where
  "begin_audit q pr = \<lparr>ai_workspaceId = Some (pj_workspaceId pr), ai_actorUserId = br_actor q,
     ai_anonymous = False, ai_action = deployment_action (br_kind q) Requested,
     ai_outcome = Some AoAccepted, ai_resourceType = ''project'', ai_resourceId = Some (pj_id pr),
     ai_resourceName = Some (pj_name pr), ai_operation = Some (AtDeployment, br_operationId q),
     ai_details = Some [(''environment'', JStr (env_name_str (br_env q))), (''kind'', JStr (br_kind q))]\<rparr>"

definition begin_op ::
  "(db \<Rightarrow> db) \<Rightarrow> (db \<Rightarrow> db) \<Rightarrow> (nat \<Rightarrow> (db \<Rightarrow> db) option) \<Rightarrow> bool \<Rightarrow> begin_request \<Rightarrow> db
     \<Rightarrow> db \<times> string outcome" where
  "begin_op pre mid c down q d =
     (case environment_of (br_projectId q) (br_env q) d of
        None \<Rightarrow> (d, Inl (NotFound (''Environment '' @ [CHR 0x27] @ env_name_str (br_env q) @ [CHR 0x27] @ '' not found'')))
      | Some e \<Rightarrow> (case project_by_id (en_projectId e) d of
          None \<Rightarrow> (d, Inl (ServerError ''project relation''))
        | Some pr \<Rightarrow>
          if (case br_expected q of None \<Rightarrow> False | Some x \<Rightarrow> \<not> matches_expected_state e d x)
          then (d, Inl (Conflict ''Artifact, target, or production configuration changed. Create a new production request.''))
          else (let i = br_operationId q in
            case serializable_capacity_transaction c (begin_tx q (pj_workspaceId pr) e d) (pre d) of
              (d1, Inl err) \<Rightarrow> (d1, Inl err)
            | (d1, Inr n) \<Rightarrow>
                if n \<noteq> 1
                then (cancel_operation ''Another operation is already active'' (br_now q) i d1,
                      Inl (BadRequest (''Environment '' @ [CHR 0x27] @ env_name_str (br_env q) @ [CHR 0x27] @ '' already has an active operation'')))
                else (let d2 = mid d1 in
                  if (case br_expected q of None \<Rightarrow> False
                      | Some x \<Rightarrow> (case environment_by_id (en_id e) d2 of
                            None \<Rightarrow> True | Some e2 \<Rightarrow> \<not> matches_expected_state e2 d2 x))
                  then (cancel_unstarted ''Approved production state changed before deployment started''
                          (br_now q) i e d2,
                        Inl (Conflict ''Production target changed while approval was being applied. Create a new request.''))
                  else (case audit_record down (begin_audit q pr) d2 of
                      (d3, Inl err) \<Rightarrow>
                        (cancel_unstarted ''Deployment could not be recorded in the audit log'' (br_now q) i e d3,
                         Inl err)
                    | (d3, Inr _) \<Rightarrow> (d3, Inr i))))))"

section \<open>The lease of an operation is fenced\<close>

text \<open>What any statement but a claim does to owner and generation of a row.\<close>

definition keeps_fence :: "operation_row \<Rightarrow> operation_row \<Rightarrow> bool" where
  "keeps_fence r r' \<longleftrightarrow>
     op_generation r' = op_generation r \<and> (op_owner r' = op_owner r \<or> op_owner r' = None)"

interpretation op_lease: fenced_lease op_owner op_generation claim_row keeps_fence renew_row
  by unfold_locales (auto simp: claim_row_def renew_row_def keeps_fence_def)

lemma fence_kept:
  "renew_row me g t r = Some r' \<Longrightarrow> keeps_fence r r'"
  "release_row me g r = Some r' \<Longrightarrow> keeps_fence r r'"
  "complete_owned_row me g s m t r = Some r' \<Longrightarrow> keeps_fence r r'"
  "complete_unowned_row s m t r = Some r' \<Longrightarrow> keeps_fence r r'"
  "advance_row me h p m r = Some r' \<Longrightarrow> keeps_fence r r'"
  "progress_row me g x r = Some r' \<Longrightarrow> keeps_fence r r'"
  "recover_row seen t now r = Some r' \<Longrightarrow> keeps_fence r r'"
  by (auto simp: keeps_fence_def renew_row_def release_row_def complete_owned_row_def
      complete_unowned_row_def advance_row_def progress_row_def recover_row_def finish_row_def Let_def)

lemma complete_owned_fence:
  "complete_owned_row me g s m t r = Some r' \<Longrightarrow> op_owner r = Some me \<and> op_generation r = g"
  by (auto simp: complete_owned_row_def)

section \<open>Any interleaving of the statements\<close>

text \<open>
  \<open>row_stmt\<close> is one statement of any replica on one operation row. Workers, the recovery of
  every replica and callers without a lease interleave freely.
\<close>

inductive row_stmt :: "operation_row \<Rightarrow> operation_row \<Rightarrow> bool" where
  claims: "claim_row me t r = Some r' \<Longrightarrow> row_stmt r r'"
| renews: "renew_row me g t r = Some r' \<Longrightarrow> row_stmt r r'"
| releases: "release_row me g r = Some r' \<Longrightarrow> row_stmt r r'"
| finishes: "complete_owned_row me g s m t r = Some r' \<Longrightarrow> row_stmt r r'"
| finishes_free: "complete_unowned_row s m t r = Some r' \<Longrightarrow> row_stmt r r'"
| advances: "advance_row me h p m r = Some r' \<Longrightarrow> row_stmt r r'"
| reports: "progress_row me g x r = Some r' \<Longrightarrow> row_stmt r r'"
| recovers: "recover_row seen t now r = Some r' \<Longrightarrow> row_stmt r r'"

inductive row_run :: "operation_row \<Rightarrow> operation_row \<Rightarrow> bool" where
  here: "row_run r r"
| further: "row_run r r' \<Longrightarrow> row_stmt r' r'' \<Longrightarrow> row_run r r''"

lemmas row_defs = claim_row_def renew_row_def release_row_def complete_owned_row_def
  complete_unowned_row_def advance_row_def progress_row_def recover_row_def finish_row_def
  open_operation_def

lemma row_stmt_lease: "row_stmt r r' \<Longrightarrow> op_lease.lease_step r r'"
  by (induction rule: row_stmt.induct)
    (auto intro: op_lease.lease_step.intros dest: fence_kept)

lemma row_run_lease: "row_run r r' \<Longrightarrow> op_lease.lease_run r r'"
  by (induction rule: row_run.induct) (auto intro: op_lease.lease_run.intros dest: row_stmt_lease)

text \<open>A finished row is terminal in status and phase; a running one is in an active phase.\<close>

definition op_row_ok :: "operation_row \<Rightarrow> bool" where
  "op_row_ok r \<longleftrightarrow>
     (op_finishedAt r \<noteq> None \<longrightarrow> op_status r \<noteq> OpRunning) \<and>
     (op_status r \<noteq> OpRunning \<longrightarrow> terminal_phase (op_phase r)) \<and>
     (op_status r = OpRunning \<longrightarrow> \<not> terminal_phase (op_phase r))"

lemma terminal_phase_simps [simp]:
  "terminal_phase (Result s)" "\<not> terminal_phase (Active a)" "\<not> terminal_phase Queued"
  by (simp_all add: terminal_phase_def)

lemma row_stmt_ok: "row_stmt r r' \<Longrightarrow> op_row_ok r \<Longrightarrow> op_row_ok r'"
  by (induction rule: row_stmt.induct) (auto simp: op_row_ok_def row_defs Let_def)

lemma row_run_ok: "row_run r r' \<Longrightarrow> op_row_ok r \<Longrightarrow> op_row_ok r'"
  by (induction rule: row_run.induct) (auto dest: row_stmt_ok)

text \<open>What the operation is about never changes.\<close>

lemma row_stmt_identity:
  "row_stmt r r' \<Longrightarrow> op_id r' = op_id r \<and> op_environmentId r' = op_environmentId r \<and>
     op_kind r' = op_kind r \<and> op_version r' = op_version r \<and>
     op_buildArtifactId r' = op_buildArtifactId r \<and> op_targetIdSnapshot r' = op_targetIdSnapshot r"
  by (induction rule: row_stmt.induct) (auto simp: row_defs Let_def)

lemma row_stmt_rank: "row_stmt r r' \<Longrightarrow> op_row_ok r \<Longrightarrow> phase_rank (op_phase r) \<le> phase_rank (op_phase r')"
  by (induction rule: row_stmt.induct)
    (auto simp: row_defs Let_def terminal_phase_rank [THEN iffD1] dest: predecessor_rank less_imp_le)

lemma row_run_rank: "row_run r r' \<Longrightarrow> op_row_ok r \<Longrightarrow> phase_rank (op_phase r) \<le> phase_rank (op_phase r')"
  by (induction rule: row_run.induct) (auto dest: row_stmt_rank row_run_ok intro: le_trans)

text \<open>Only the release of a stale lease may still touch a finished row; its result is final.\<close>

lemma row_stmt_finished:
  "row_stmt r r' \<Longrightarrow> op_finishedAt r = Some x \<Longrightarrow> op_row_ok r \<Longrightarrow>
     op_status r' = op_status r \<and> op_phase r' = op_phase r \<and> op_finishedAt r' = Some x \<and>
     op_message r' = op_message r"
  by (induction rule: row_stmt.induct) (auto simp: row_defs op_row_ok_def)

lemma row_run_finished:
  "row_run r r' \<Longrightarrow> op_finishedAt r = Some x \<Longrightarrow> op_row_ok r \<Longrightarrow>
     op_status r' = op_status r \<and> op_phase r' = op_phase r \<and> op_finishedAt r' = Some x \<and>
     op_message r' = op_message r"
proof (induction rule: row_run.induct)
  case (here r)
  then show ?case by simp
next
  case (further r r' r'')
  with row_run_ok row_stmt_finished show ?case by fastforce
qed

section \<open>The methods only run these statements\<close>

definition ops_evolve :: "db \<Rightarrow> db \<Rightarrow> bool" where
  "ops_evolve d d' \<longleftrightarrow> list_all2 row_run (operations d) (operations d')"

lemma row_run_one: "row_stmt r r' \<Longrightarrow> row_run r r'"
  by (rule row_run.further [OF row_run.here])

lemma row_run_trans: "row_run r' r'' \<Longrightarrow> row_run r r' \<Longrightarrow> row_run r r''"
  by (induction rule: row_run.induct) (auto intro: row_run.intros)

lemma ops_evolve_refl [simp, intro]: "ops_evolve d d"
  by (simp add: ops_evolve_def list_all2_refl row_run.here)

lemma ops_evolve_trans [trans]: "ops_evolve d d1 \<Longrightarrow> ops_evolve d1 d2 \<Longrightarrow> ops_evolve d d2"
  unfolding ops_evolve_def by (rule list_all2_trans) (auto intro: row_run_trans)

lemma ops_evolve_cong: "operations d' = operations d1 \<Longrightarrow> ops_evolve d d1 \<Longrightarrow> ops_evolve d d'"
  by (simp add: ops_evolve_def)

lemma row_run_id: "row_run r r' \<Longrightarrow> op_id r' = op_id r"
  by (induction rule: row_run.induct) (auto dest: row_stmt_identity)

lemma list_all2_ids: "list_all2 row_run t t' \<Longrightarrow> map op_id t' = map op_id t"
  by (induction rule: list_all2_induct) (auto dest: row_run_id)

lemma ops_evolve_ids: "ops_evolve d d' \<Longrightarrow> map op_id (operations d') = map op_id (operations d)"
  using list_all2_ids by (simp add: ops_evolve_def)

definition ops_keyed :: "db \<Rightarrow> bool" where
  "ops_keyed d = keyed op_id (operations d)"

lemma ops_keyed_evolve: "ops_evolve d d' \<Longrightarrow> ops_keyed d' = ops_keyed d"
  by (simp add: ops_keyed_def keyed_def ops_evolve_ids)

lemma list_all2_rewrite:
  "(\<And>r. r \<in> set t \<Longrightarrow> P r (if p r then f r else r)) \<Longrightarrow> list_all2 P t (rewrite p f t)"
  by (induction t) auto

lemma on_operation_evolve:
  assumes "ops_keyed d" and "\<And>r r'. f r = Some r' \<Longrightarrow> row_stmt r r'"
    and "on_operation i f d = (d', res)"
  shows "ops_evolve d d'"
proof (cases "update_row op_id i f (operations d)")
  case (Pair t o')
  with assms(3) have d': "operations d' = t" by (auto simp: on_operation_def)
  show ?thesis
  proof (cases o')
    case None
    with Pair d' show ?thesis by (auto dest!: update_row_None intro: ops_evolve_cong)
  next
    case (Some r')
    with Pair obtain r where r: "find_first (\<lambda>x. op_id x = i) (operations d) = Some r" "f r = Some r'"
        and t: "t = rewrite (\<lambda>x. op_id x = i) (\<lambda>_. r') (operations d)"
      by (auto simp: update_row_Some)
    from r(1) have "r \<in> set (operations d)" "op_id r = i" by (auto dest: find_first_Some)
    with assms(1) have "x = r" if "x \<in> set (operations d)" "op_id x = i" for x
      using that keyed_unique by (fastforce simp: ops_keyed_def)
    then have "list_all2 row_run (operations d) t"
      unfolding t by (intro list_all2_rewrite)
        (use assms(2) [OF r(2)] in \<open>auto intro: row_run_one row_run.here\<close>)
    then show ?thesis by (simp add: ops_evolve_def d')
  qed
qed

lemma on_operation_frame [simp]:
  "environments (fst (on_operation i f d)) = environments d"
  "projects (fst (on_operation i f d)) = projects d"
  "agentJobs (fst (on_operation i f d)) = agentJobs d"
  by (simp_all add: on_operation_def split: prod.splits)

lemma unlock_operations [simp]: "operations (unlock_environment i d) = operations d"
  by (simp add: unlock_environment_def)

lemma recover_environment_operations [simp]: "operations (recover_environment r d) = operations d"
  by (simp add: recover_environment_def)

lemma record_result_operations [simp]:
  "operations (record_result_safely down i d) = operations d"
  "environments (record_result_safely down i d) = environments d"
  using only_audit_frame [OF only_audit_deployment_result [of d down i]]
  by (simp_all add: record_result_safely_def record_safely_def)

lemma claim_execution_evolve:
  "ops_keyed d \<Longrightarrow> claim_execution me t i d = (d', g) \<Longrightarrow> ops_evolve d d'"
  by (auto simp: claim_execution_def split: prod.splits intro: on_operation_evolve row_stmt.claims)

lemma release_execution_evolve: "ops_keyed d \<Longrightarrow> ops_evolve d (release_execution me cx d)"
  unfolding release_execution_def
  by (rule on_operation_evolve [OF _ _ surjective_pairing]) (auto intro: row_stmt.releases)

lemma renew_execution_evolve:
  "ops_keyed d \<Longrightarrow> renew_execution me t cx d = (d', cx', res) \<Longrightarrow> ops_evolve d d'"
  by (auto simp: renew_execution_def split: prod.splits option.splits if_splits
      intro: on_operation_evolve row_stmt.renews)

lemma assert_execution_evolve:
  "ops_keyed d \<Longrightarrow> assert_execution me t cxo i d = (d', cx', res) \<Longrightarrow> ops_evolve d d'"
  by (auto simp: assert_execution_def split: prod.splits option.splits if_splits sum.splits
      intro: renew_execution_evolve)

lemma complete_unowned_evolve:
  assumes "ops_keyed d" and "complete_unowned t i s m fails down d = (d', res)"
  shows "ops_evolve d d'"
proof (cases "on_operation i (complete_unowned_row s m t) d")
  case (Pair d1 o')
  with assms(1) have "ops_evolve d d1" by (auto intro: on_operation_evolve row_stmt.finishes_free)
  with Pair assms(2) show ?thesis
    by (auto simp: complete_unowned_def ops_evolve_def list_all2_refl row_run.here
        split: option.splits if_splits)
qed

lemma complete_owned_evolve:
  assumes "ops_keyed d" and "complete_owned me t cx s m fails down d = (d', cx', res)"
  shows "ops_evolve d d'"
proof (cases "assert_execution me t (Some cx) (cx_operationId cx) d")
  case (fields d1 cxo a)
  from assert_execution_evolve [OF assms(1) fields] have e1: "ops_evolve d d1" .
  show ?thesis
  proof (cases "(\<exists>e. a = Inl e) \<or> fails UpdateOperation")
    case True
    with assms(2) fields e1 show ?thesis
      by (auto simp: complete_owned_def Let_def split: sum.splits)
  next
    case False
    then obtain u where a: "a = Inr u" "\<not> fails UpdateOperation" by (cases a) auto
    obtain d2 o' where on: "on_operation (cx_operationId cx)
        (complete_owned_row me (cx_generation cx) s m t) d1 = (d2, o')" by fastforce
    with e1 assms(1) have "ops_evolve d1 d2"
      by (auto intro: on_operation_evolve row_stmt.finishes simp: ops_keyed_evolve)
    with e1 have "ops_evolve d d2" by (rule ops_evolve_trans)
    with assms(2) fields a on show ?thesis
      by (auto simp: complete_owned_def Let_def ops_evolve_def split: option.splits if_splits)
  qed
qed

lemma complete_evolve:
  "ops_keyed d \<Longrightarrow> complete me t cxo i s m fails down d = (d', cx', res) \<Longrightarrow> ops_evolve d d'"
  by (auto simp: complete_def Let_def split: option.splits if_splits prod.splits
      intro: complete_unowned_evolve complete_owned_evolve)

lemma advance_phase_evolve:
  assumes "ops_keyed d" and "advance_phase me t cxo i p m d = (d', cx', res)"
  shows "ops_evolve d d'"
proof (cases "holds cxo i")
  case False
  with assms show ?thesis
    by (auto simp: advance_phase_def intro!: on_operation_evolve [OF _ _ surjective_pairing] row_stmt.advances)
next
  case True
  obtain d1 cx1 a where as: "assert_execution me t cxo i d = (d1, cx1, a)" by (metis prod_cases3)
  from assert_execution_evolve [OF assms(1) as] have e1: "ops_evolve d d1" .
  then have "ops_evolve d1 (fst (on_operation i (advance_row me h p m) d1))" for h
    using assms(1) by (intro on_operation_evolve [OF _ _ surjective_pairing])
      (auto intro: row_stmt.advances simp: ops_keyed_evolve)
  with e1 have "ops_evolve d (fst (on_operation i (advance_row me h p m) d1))" for h
    using ops_evolve_trans by blast
  with assms(2) True as e1 show ?thesis by (auto simp: advance_phase_def split: sum.splits)
qed

lemma op_cancelled_evolve:
  "ops_keyed d \<Longrightarrow> op_cancelled me t cxo i d = (d', cx', res) \<Longrightarrow> ops_evolve d d'"
  by (auto simp: op_cancelled_def split: prod.splits sum.splits if_splits intro: assert_execution_evolve)

lemma report_progress_evolve:
  assumes "ops_keyed d" and "report_progress me t cxo i p n m d = (d', cx')"
  shows "ops_evolve d d'"
proof (cases "holds cxo i")
  case False
  with assms show ?thesis by (simp add: report_progress_def)
next
  case True
  define ph where "ph = (if contains ''verifying deployment'' (lower m) then Verifying else Running)"
  obtain d1 cx1 a where as: "assert_execution me t cxo i d = (d1, cx1, a)" by (metis prod_cases3)
  from assert_execution_evolve [OF assms(1) as] have e1: "ops_evolve d d1" .
  show ?thesis
  proof (cases a)
    case (Inl e)
    with assms True as e1 show ?thesis by (simp add: report_progress_def Let_def)
  next
    case (Inr u)
    define d2 where "d2 = fst (on_operation i (progress_row me (cx_generation (the cx1)) m) d1)"
    have e2: "ops_evolve d1 d2"
      unfolding d2_def using assms(1) e1
      by (intro on_operation_evolve [OF _ _ surjective_pairing])
        (auto intro: row_stmt.reports simp: ops_keyed_evolve)
    obtain d3 cx3 b where ad: "advance_phase me t cx1 i ph None d2 = (d3, cx3, b)" by (metis prod_cases3)
    have "ops_keyed d2" using assms(1) e1 e2 by (simp add: ops_keyed_evolve)
    from advance_phase_evolve [OF this ad] have e3: "ops_evolve d2 d3" .
    from e1 e2 e3 have "ops_evolve d d3" by (blast intro: ops_evolve_trans)
    with assms(2) True as Inr ad [unfolded d2_def ph_def] show ?thesis
      by (auto simp: report_progress_def Let_def ops_evolve_def)
  qed
qed

lemma recover_one_evolve:
  assumes "ops_keyed d"
  shows "ops_evolve d (recover_one t now down seen d)"
proof (cases "on_operation (op_id seen) (recover_row seen t now) d")
  case (Pair d1 o')
  with assms have "ops_evolve d d1" by (auto intro: on_operation_evolve row_stmt.recovers)
  with Pair show ?thesis by (auto simp: recover_one_def ops_evolve_def split: option.splits)
qed

lemma recover_interrupted_evolve:
  assumes "ops_keyed d"
  shows "ops_evolve d (recover_interrupted t now down d)"
proof -
  have "ops_evolve d (fold (recover_one t now down) rs d)" for rs
    using assms
  proof (induction rs arbitrary: d)
    case (Cons r rs)
    have "ops_evolve d (recover_one t now down r d)" using Cons.prems by (rule recover_one_evolve)
    with Cons show ?case by (auto simp: ops_keyed_evolve intro: ops_evolve_trans)
  qed simp
  then show ?thesis by (simp add: recover_interrupted_def)
qed

text \<open>
  Calls of the component by any replicas with any contexts. \<open>begin\<close> is not one step: it commits its
  transaction and closes its own operation later, by an update that does not look at the status
  (\<open>:321-344\<close>, \<open>:642-650\<close>), so its statements interleave with all other calls. \<open>P\<close> is the set of
  operations whose \<open>begin\<close> is still running at some point of the sequence. \<open>c_others\<close> is whatever
  leaves the operations alone.
\<close>

inductive op_call :: "string set \<Rightarrow> db \<Rightarrow> db \<Rightarrow> bool" for P where
  c_claim: "claim_execution me t i d = (d', g) \<Longrightarrow> op_call P d d'"
| c_renew: "renew_execution me t cx d = (d', cx', r) \<Longrightarrow> op_call P d d'"
| c_release: "op_call P d (release_execution me cx d)"
| c_complete: "complete me t cxo i s m fails down d = (d', cx', r) \<Longrightarrow> op_call P d d'"
| c_advance: "advance_phase me t cxo i p m d = (d', cx', r) \<Longrightarrow> op_call P d d'"
| c_cancelled: "op_cancelled me t cxo i d = (d', cx', b) \<Longrightarrow> op_call P d d'"
| c_report: "report_progress me t cxo i p n x d = (d', cx') \<Longrightarrow> op_call P d d'"
| c_recover: "op_call P d (recover_interrupted t now down d)"
| c_begin: "begin_tx q w e seen d = (d', Inr n) \<Longrightarrow> br_operationId q \<in> P
    \<Longrightarrow> br_operationId q \<notin> op_id ` set (operations d) \<Longrightarrow> op_call P d d'"
| c_close: "i \<in> P \<Longrightarrow> op_call P d (cancel_operation x t i d)"
| c_unstarted: "i \<in> P \<Longrightarrow> op_call P d (cancel_unstarted x t i e d)"
| c_others: "operations d' = operations d \<Longrightarrow> op_call P d d'"

inductive op_calls :: "string set \<Rightarrow> db \<Rightarrow> db \<Rightarrow> bool" for P where
  none: "op_calls P d d"
| call: "op_calls P d d' \<Longrightarrow> op_call P d' d'' \<Longrightarrow> op_calls P d d''"

lemma op_calls_trans: "op_calls P d' d'' \<Longrightarrow> op_calls P d d' \<Longrightarrow> op_calls P d d''"
  by (induction rule: op_calls.induct) (auto intro: op_calls.call)

text \<open>Old rows run their statements, unless their \<open>begin\<close> is running; new rows come at the end.\<close>

definition row_kept :: "string set \<Rightarrow> operation_row \<Rightarrow> operation_row \<Rightarrow> bool" where
  "row_kept P r r' \<longleftrightarrow> op_id r' = op_id r \<and> (op_id r \<in> P \<or> row_run r r')"

definition ops_grow :: "string set \<Rightarrow> db \<Rightarrow> db \<Rightarrow> bool" where
  "ops_grow P d d' \<longleftrightarrow> ops_keyed d' \<and>
     (\<exists>old new. operations d' = old @ new \<and> list_all2 (row_kept P) (operations d) old)"

lemma row_kept_trans: "row_kept P r r' \<Longrightarrow> row_kept P r' r'' \<Longrightarrow> row_kept P r r''"
  by (auto simp: row_kept_def intro: row_run_trans)

lemma ops_grow_trans:
  assumes "ops_grow P d d1" and "ops_grow P d1 d2"
  shows "ops_grow P d d2"
proof -
  from assms obtain old new old' new' where
    o: "operations d1 = old @ new" "list_all2 (row_kept P) (operations d) old"
       "operations d2 = old' @ new'" "list_all2 (row_kept P) (old @ new) old'"
    by (auto simp: ops_grow_def)
  from o(4) obtain us vs where "old' = us @ vs" "list_all2 (row_kept P) old us"
    by (auto simp: list_all2_append1)
  moreover from this(2) o(2) have "list_all2 (row_kept P) (operations d) us"
    by (meson list_all2_trans [of "row_kept P" "row_kept P" "row_kept P"] row_kept_trans)
  ultimately have "operations d2 = us @ (vs @ new') \<and> list_all2 (row_kept P) (operations d) us"
    using o(3) by simp
  with assms(2) show ?thesis by (auto simp: ops_grow_def)
qed

lemma ops_grow_evolve:
  assumes "ops_keyed d" and "ops_evolve d d'"
  shows "ops_grow P d d'"
proof -
  have "list_all2 (row_kept P) (operations d) (operations d')"
    using assms(2) unfolding ops_evolve_def by (rule list_all2_mono) (auto simp: row_kept_def dest: row_run_id)
  with assms show ?thesis
    unfolding ops_grow_def by (auto simp: ops_keyed_evolve intro: exI [of _ "[]"])
qed

lemma ops_grow_cancel:
  assumes "ops_keyed d" and "i \<in> P" and "operations d' = operations (cancel_operation x t i d)"
  shows "ops_grow P d d'"
proof -
  have "list_all2 (row_kept P) (operations d) (operations d')"
    unfolding assms(3) cancel_operation_def using assms(2)
    by (auto intro!: list_all2_rewrite simp: row_kept_def row_run.here)
  moreover have "ops_keyed d'"
    using assms(1,3) by (simp add: ops_keyed_def cancel_operation_def keyed_rewrite)
  ultimately show ?thesis unfolding ops_grow_def by (auto intro: exI [of _ "[]"])
qed

lemma op_call_grow: "op_call P d d' \<Longrightarrow> ops_keyed d \<Longrightarrow> ops_grow P d d'"
proof (induction rule: op_call.induct)
  case (c_begin q w e seen d d' n)
  have "d' = begin_write q e seen d"
    using c_begin(1) by (auto simp: begin_tx_def split: sum.splits)
  then have new: "operations d' = operations d @ [new_operation q e seen]"
    by (simp add: begin_write_def create_def)
  have "list_all2 (row_kept P) (operations d) (operations d)"
    by (simp add: list_all2_refl row_kept_def row_run.here)
  moreover have "ops_keyed d'"
    using c_begin(3,4) new by (auto simp: ops_keyed_def keyed_def new_operation_def)
  ultimately show ?case using new by (auto simp: ops_grow_def)
next
  case (c_close i d x t)
  then show ?case by (intro ops_grow_cancel) auto
next
  case (c_unstarted i d x t e)
  then show ?case
    by (intro ops_grow_cancel [where i = i]) (auto simp: cancel_unstarted_def restore_environment_def)
next
  case (c_others d' d)
  then show ?case by (intro ops_grow_evolve) (auto intro: ops_evolve_cong)
qed (auto intro: ops_grow_evolve claim_execution_evolve renew_execution_evolve release_execution_evolve
      complete_evolve advance_phase_evolve op_cancelled_evolve report_progress_evolve
      recover_interrupted_evolve)

lemma op_calls_grow: "op_calls P d d' \<Longrightarrow> ops_keyed d \<Longrightarrow> ops_grow P d d'"
proof (induction rule: op_calls.induct)
  case (none d)
  then show ?case by (rule ops_grow_evolve) simp
next
  case (call d d' d'')
  then have "ops_grow P d d'" by blast
  moreover from this have "ops_keyed d'" by (simp add: ops_grow_def)
  with call(2) have "ops_grow P d' d''" by (rule op_call_grow)
  ultimately show ?case by (rule ops_grow_trans)
qed

lemma ops_grow_find:
  assumes "ops_grow P d d'" and "operation_by_id i d = Some r" and "i \<notin> P"
  shows "\<exists>r'. operation_by_id i d' = Some r' \<and> row_run r r'"
proof -
  have "find_first (\<lambda>x. op_id x = i) t = Some r \<Longrightarrow> list_all2 (row_kept P) t t' \<Longrightarrow>
      \<exists>r'. find_first (\<lambda>x. op_id x = i) (t' @ new) = Some r' \<and> row_run r r'" for t t' new
  proof (induction t arbitrary: t')
    case (Cons a t)
    then obtain b t'' where "t' = b # t''" "row_kept P a b" "list_all2 (row_kept P) t t''"
      by (auto simp: list_all2_Cons1)
    with Cons assms(3) show ?case by (auto simp: row_kept_def split: if_splits)
  qed simp
  with assms(1,2) show ?thesis by (auto simp: ops_grow_def operation_by_id_def)
qed

section \<open>The quota of concurrent operations\<close>

definition concurrent_count :: "string \<Rightarrow> db \<Rightarrow> nat" where
  "concurrent_count w d = capacity_used w CapConcurrentOperations None d"

definition concurrent_limit :: "string \<Rightarrow> db \<Rightarrow> nat option" where
  "concurrent_limit w d =
     map_option (\<lambda>x. capacity_limit x CapConcurrentOperations) (workspace_by_id w d)"

lemma begin_guard_Inr:
  "begin_guard w e d = Inr u \<longleftrightarrow>
     assert_available w CapConcurrentOperations 1 None d = Inr () \<and> environment_by_id (en_id e) d \<noteq> None"
  by (auto simp: begin_guard_def split: sum.splits)

lemma environment_workspace_claimed:
  assumes "\<And>x. en_id (f x) = en_id x \<and> en_projectId (f x) = en_projectId x"
  shows "environment_workspace i (d\<lparr>operations := ops, environments := rewrite p f (environments d)\<rparr>) =
    environment_workspace i d"
proof -
  have "find_first (\<lambda>e. en_id e = i) (rewrite p f (environments d)) =
      map_option (\<lambda>r. if p r then f r else r) (find_first (\<lambda>e. en_id e = i) (environments d))"
    using assms by (intro find_first_rewrite) simp
  with assms show ?thesis
    by (cases "find_first (\<lambda>e. en_id e = i) (environments d)")
      (auto simp: environment_workspace_def environment_by_id_def project_by_id_def)
qed

lemma environment_workspace_begin: "environment_workspace i (begin_write q e seen d) = environment_workspace i d"
  unfolding begin_write_def by (rule environment_workspace_claimed) (simp add: claim_environment_def)

lemma begin_write_usage: "concurrent_count w (begin_write q e seen d) \<le> concurrent_count w d + 1"
proof -
  have "running_deployments w (begin_write q e seen d) \<le> running_deployments w d + 1"
    unfolding running_deployments_def environment_workspace_begin
    by (simp add: begin_write_def create_def)
  moreover have "running_provisionings w None (begin_write q e seen d) = running_provisionings w None d"
    by (simp add: running_provisionings_def begin_write_def)
  ultimately show ?thesis by (simp add: concurrent_count_def)
qed

interpretation deploy_quota: quota_guard "concurrent_count w" "concurrent_limit w"
  "begin_guard w e" "begin_write q e seen" for w e q seen
proof unfold_locales
  fix d
  assume "begin_guard w e d = Inr ()"
  then show "\<exists>l. concurrent_limit w d = Some l \<and> concurrent_count w d + 1 \<le> l"
    by (auto simp: begin_guard_Inr assert_available_iff concurrent_limit_def concurrent_count_def)
next
  fix d
  show "concurrent_count w (begin_write q e seen d) \<le> concurrent_count w d + 1"
    by (rule begin_write_usage)
next
  fix d
  show "concurrent_limit w (begin_write q e seen d) = concurrent_limit w d"
    by (simp add: concurrent_limit_def begin_write_def workspace_by_id_def)
qed

section \<open>How begin can end\<close>

lemma begin_tx_Inr:
  "begin_tx q w e seen d = (d', Inr n) \<longleftrightarrow>
     begin_guard w e d = Inr () \<and> d' = begin_write q e seen d \<and>
     n = count_where (claimable q e) (environments d)"
  by (auto simp: begin_tx_def split: sum.splits)

definition drifted :: "begin_request \<Rightarrow> environment_row \<Rightarrow> db \<Rightarrow> bool" where
  "drifted q e d = (case br_expected q of None \<Rightarrow> False
     | Some x \<Rightarrow> (case environment_by_id (en_id e) d of
           None \<Rightarrow> True | Some e2 \<Rightarrow> \<not> matches_expected_state e2 d x))"

text \<open>The five outcomes: refused, no capacity, already locked, rolled back, started.\<close>

lemma begin_op_cases:
  assumes "begin_op pre mid c down q d = (d', res)"
  obtains (refused) "d' = d" "\<not> succeeds res"
  | (aborted) "committed_by_others c (pre d) d'" "\<not> succeeds res"
  | (busy) e d0 and pr :: project_row where "environment_of (br_projectId q) (br_env q) d = Some e"
      "committed_by_others c (pre d) d0" "begin_guard (pj_workspaceId pr) e d0 = Inr ()"
      "count_where (claimable q e) (environments d0) \<noteq> 1"
      "d' = cancel_operation ''Another operation is already active'' (br_now q) (br_operationId q)
              (begin_write q e d d0)" "\<not> succeeds res"
  | (rolled_back) e d0 d2 m and pr :: project_row where "environment_of (br_projectId q) (br_env q) d = Some e"
      "committed_by_others c (pre d) d0" "begin_guard (pj_workspaceId pr) e d0 = Inr ()"
      "count_where (claimable q e) (environments d0) = 1"
      "only_audit (mid (begin_write q e d d0)) d2"
      "d' = cancel_unstarted m (br_now q) (br_operationId q) e d2" "\<not> succeeds res"
  | (started) e d0 and pr :: project_row where "environment_of (br_projectId q) (br_env q) d = Some e"
      "project_by_id (en_projectId e) d = Some pr"
      "committed_by_others c (pre d) d0" "begin_guard (pj_workspaceId pr) e d0 = Inr ()"
      "count_where (claimable q e) (environments d0) = 1"
      "\<not> drifted q e (mid (begin_write q e d d0))"
      "only_audit (mid (begin_write q e d d0)) d'" "res = Inr (br_operationId q)"
proof (cases "environment_of (br_projectId q) (br_env q) d")
  case None
  with assms show ?thesis by (intro refused) (auto simp: begin_op_def)
next
  case env: (Some e)
  show ?thesis
  proof (cases "project_by_id (en_projectId e) d")
    case None
    with assms env show ?thesis by (intro refused) (auto simp: begin_op_def)
  next
    case pr: (Some pr)
    show ?thesis
    proof (cases "case br_expected q of None \<Rightarrow> False | Some x \<Rightarrow> \<not> matches_expected_state e d x")
      case True
      with assms env pr show ?thesis by (intro refused) (auto simp: begin_op_def)
    next
      case ok: False
      obtain d1 r1 where tx: "serializable_capacity_transaction c (begin_tx q (pj_workspaceId pr) e d) (pre d) = (d1, r1)"
        by fastforce
      from tx show ?thesis
      proof (cases rule: serializable_outcome)
        case 2
        then obtain er where "r1 = Inl er" by (cases r1) auto
        with assms env pr ok tx 2 show ?thesis
          by (intro aborted) (auto simp: begin_op_def Let_def)
      next
        case (1 n d0)
        then have g: "begin_guard (pj_workspaceId pr) e d0 = Inr ()"
          and d1: "d1 = begin_write q e d d0" and n: "n = count_where (claimable q e) (environments d0)"
          by (simp_all add: begin_tx_Inr)
        show ?thesis
        proof (cases "n = 1")
          case False
          with assms env pr ok tx 1 d1 have "d' = cancel_operation ''Another operation is already active'' (br_now q)
              (br_operationId q) (begin_write q e d d0)" "\<not> succeeds res"
            by (auto simp: begin_op_def Let_def)
          with busy [OF env 1(3) g] False n show ?thesis by simp
        next
          case one: True
          show ?thesis
          proof (cases "drifted q e (mid d1)")
            case True
            with assms env pr ok tx 1 one have "\<not> succeeds res"
              "d' = cancel_unstarted ''Approved production state changed before deployment started''
                 (br_now q) (br_operationId q) e (mid d1)"
              by (auto simp: begin_op_def Let_def drifted_def)
            with rolled_back [OF env 1(3) g _ only_audit_refl] one n d1 show ?thesis by simp
          next
            case False
            obtain d3 r3 where au: "audit_record down (begin_audit q pr) (mid d1) = (d3, r3)" by fastforce
            then have oa: "only_audit (mid d1) d3" using only_audit_record by (metis fst_conv)
            show ?thesis
            proof (cases r3)
              case (Inl er)
              with assms env pr ok tx 1 one False au have "\<not> succeeds res"
                "d' = cancel_unstarted ''Deployment could not be recorded in the audit log''
                   (br_now q) (br_operationId q) e d3"
                by (auto simp: begin_op_def Let_def drifted_def)
              with rolled_back [OF env 1(3) g _ oa [unfolded d1]] one n show ?thesis by simp
            next
              case (Inr u)
              with assms env pr ok tx 1 one False au have "res = Inr (br_operationId q)" "d' = d3"
                by (auto simp: begin_op_def Let_def drifted_def)
              with started [OF env pr 1(3) g] one n d1 oa False show ?thesis by simp
            qed
          qed
        qed
      qed
    qed
  qed
qed

lemma begin_write_tx: "begin_guard w e d = Inr () \<Longrightarrow>
    begin_tx q w e seen d = (begin_write q e seen d, Inr (count_where (claimable q e) (environments d)))"
  by (simp add: begin_tx_def)

text \<open>
  A \<open>begin\<close> among other calls is a sequence of calls: whatever sequences of calls the others run
  before its transaction, when it conflicts and after it, the whole is a sequence of calls in which
  this operation's \<open>begin\<close> is running.
\<close>

lemma begin_op_calls:
  assumes "begin_op pre mid c down q d = (d', res)" and "br_operationId q \<in> P"
    and others: "\<And>x. committed_by_others c (pre d) x \<Longrightarrow>
        op_calls P d x \<and> br_operationId q \<notin> op_id ` set (operations x)"
    and mid: "\<And>x. op_calls P x (mid x)"
  shows "op_calls P d d'"
proof -
  have claimed: "op_calls P d (begin_write q e d d0)"
    if "committed_by_others c (pre d) d0" "begin_guard w e d0 = Inr ()" for w e d0
    using others [OF that(1)] op_call.c_begin [OF begin_write_tx [OF that(2)] assms(2)]
    by (blast intro: op_calls.call)
  have audited: "op_call P x x'" if "only_audit x x'" for x x'
    using only_audit_frame [OF that] by (intro op_call.c_others) simp
  from assms(1) show ?thesis
  proof (cases rule: begin_op_cases)
    case refused
    then show ?thesis by (simp add: op_calls.none)
  next
    case aborted
    with others show ?thesis by blast
  next
    case (busy e d0 pr)
    from op_calls.call [OF claimed [OF busy(2,3)] op_call.c_close [OF assms(2)]]
    show ?thesis unfolding busy(5) by blast
  next
    case (rolled_back e d0 d2 m pr)
    have "op_calls P d (mid (begin_write q e d d0))"
      using mid claimed [OF rolled_back(2,3)] by (rule op_calls_trans)
    then have "op_calls P d d2" using audited [OF rolled_back(5)] by (rule op_calls.call)
    from op_calls.call [OF this op_call.c_unstarted [OF assms(2)]]
    show ?thesis unfolding rolled_back(6) by blast
  next
    case (started e d0 pr)
    have "op_calls P d (mid (begin_write q e d d0))"
      using mid claimed [OF started(3,4)] by (rule op_calls_trans)
    then show ?thesis using audited [OF started(7)] by (rule op_calls.call)
  qed
qed

text \<open>Putting a claimed environment back undoes the claim.\<close>

lemma restore_claimed:
  assumes "keyed en_id es" and "e \<in> set es"
    and "\<forall>x \<in> set es. en_activeOperationId x \<noteq> Some (br_operationId q)"
  shows "rewrite (\<lambda>x. en_id x = en_id e \<and> en_activeOperationId x = Some (br_operationId q))
    (\<lambda>x. x\<lparr>en_activeOperationId := None, en_status := en_status e,
           en_statusReason := en_statusReason e, en_deploymentRequired := en_deploymentRequired e\<rparr>)
    (rewrite (claimable q e) (claim_environment q) es) = es"
proof -
  have undone: "(claim_environment q x)\<lparr>en_activeOperationId := None, en_status := en_status e,
      en_statusReason := en_statusReason e, en_deploymentRequired := en_deploymentRequired e\<rparr> = x"
    if "x \<in> set es" "claimable q e x" for x
  proof -
    have "x = e" using that keyed_unique [OF assms(1) that(1) assms(2)] by (simp add: claimable_def)
    with that(2) show ?thesis by (simp add: claimable_def claim_environment_def)
  qed
  show ?thesis
    unfolding rewrite_def map_map
  proof (intro map_idI)
    fix x
    assume x: "x \<in> set es"
    show "((\<lambda>x. if en_id x = en_id e \<and> en_activeOperationId x = Some (br_operationId q)
          then x\<lparr>en_activeOperationId := None, en_status := en_status e,
            en_statusReason := en_statusReason e, en_deploymentRequired := en_deploymentRequired e\<rparr>
          else x) \<circ> (\<lambda>x. if claimable q e x then claim_environment q x else x)) x = x"
    proof (cases "claimable q e x")
      case True
      with undone [OF x True] show ?thesis by (simp add: claimable_def claim_environment_def)
    next
      case False
      with assms(3) x show ?thesis by auto
    qed
  qed
qed

section \<open>Properties\<close>

text \<open>An idle project for the witnesses.\<close>

definition idle_environment :: environment_row where
  "idle_environment = \<lparr>en_id = ''e'', en_projectId = ''p'', en_name = Dev, en_provider = Docker,
     en_status = EsRunning, en_version = Some ''v1'', en_url = None, en_statusReason = None,
     en_deploymentRequired = False, en_targetId = None, en_allocationId = None,
     en_activeOperationId = None, en_buildArtifactId = None, en_configRevision = 0,
     en_expiresAt = None, en_expiryWarningAt = None\<rparr>"

definition idle_db :: db where
  "idle_db = empty_db\<lparr>
     workspaces := [\<lparr>ws_id = ''w'', ws_slug = ''w'', ws_name = ''W'', ws_team = True,
        ws_policy = SeparateReviewer, ws_maxProjects = 1, ws_maxMembers = 1, ws_maxTargets = 1,
        ws_maxConcurrentOperations = 1, ws_maxArtifactBytes = 0\<rparr>],
     projects := [\<lparr>pj_id = ''p'', pj_name = ''p'', pj_workspaceId = ''w'', pj_preset = DevTestProd, pj_scmProvider = ''gitea'', pj_scmFullName = ''o/p'',
       pj_scmDefaultBranch = ''main'', pj_ciDeployTokenHash = None, pj_lastCommit = []\<rparr>],
     environments := [idle_environment]\<rparr>"

definition sample_request :: begin_request where
  "sample_request = \<lparr>br_operationId = ''00000000-0000-4000-8000-000000000001'', br_correlationId = ''c'',
     br_now = 5, br_projectId = ''p'', br_env = Dev, br_kind = ''deploy'', br_version = Some ''v2'',
     br_artifact = None, br_actor = None, br_expected = None\<rparr>"

definition sample_operation :: operation_row where
  "sample_operation = (new_operation sample_request idle_environment idle_db)"

lemmas idle_defs = idle_db_def idle_environment_def sample_request_def empty_db_def

text \<open>
  C3: Worker fencing. Suppose replica \<open>A\<close> claimed an operation and got generation \<open>g\<close>. Whatever
  claims, renewals, releases, completions, phase changes, progress reports and recoveries then run
  against the row in any order, once the row is owned by somebody else (or nobody, or another
  generation) \<open>A\<close> can never again renew under \<open>g\<close>, nor publish a result, a phase or a
  progress message under \<open>g\<close>.
\<close>

theorem superseded_worker_is_fenced:
  assumes "claim_row A t r = Some r0" and "row_run r0 r1"
    and "op_owner r1 \<noteq> Some A \<or> op_generation r1 \<noteq> op_generation r0" and "row_run r1 r2"
  shows "renew_row A (op_generation r0) t' r2 = None
    \<and> complete_owned_row A (op_generation r0) s m t' r2 = None
    \<and> advance_row A (Some (op_generation r0)) p m r2 = None
    \<and> progress_row A (op_generation r0) x r2 = None"
proof -
  have no: "\<not> (op_owner r2 = Some A \<and> op_generation r2 = op_generation r0)"
  proof
    assume own: "op_owner r2 = Some A \<and> op_generation r2 = op_generation r0"
    have "op_generation r0 \<le> op_generation r1" "op_generation r1 \<le> op_generation r2"
      using assms(2,4) row_run_lease op_lease.run_gen_mono by blast+
    with own have eq: "op_generation r1 = op_generation r0" by simp
    with assms(3) have "op_owner r1 \<noteq> Some A" by simp
    from op_lease.run_lost_stays_lost [OF row_run_lease [OF assms(4)] eq this] own show False by simp
  qed
  have "op_lease.lease_run r0 r1" "op_lease.lease_run r1 r2"
    using assms(2,4) by (simp_all add: row_run_lease)
  with op_lease.superseded_never_renews [OF assms(1) _ assms(3)]
  have "renew_row A (op_generation r0) t' r2 = None" by blast
  moreover from no have "complete_owned_row A (op_generation r0) s m t' r2 = None"
    by (auto simp: complete_owned_row_def)
  moreover from no have "advance_row A (Some (op_generation r0)) p m r2 = None"
    by (auto simp: advance_row_def held_by_def)
  moreover from no have "progress_row A (op_generation r0) x r2 = None"
    by (auto simp: progress_row_def)
  ultimately show ?thesis by blast
qed

theorem superseded_worker_is_fenced_witness:
  "complete_owned_row ''a'' 1 Succeeded None 100001
     (the (claim_row ''b'' 100000 (the (claim_row ''a'' 6 sample_operation)))) = None"
proof -
  define r0 where "r0 = the (claim_row ''a'' 6 sample_operation)"
  define r1 where "r1 = the (claim_row ''b'' 100000 r0)"
  have c0: "claim_row ''a'' 6 sample_operation = Some r0"
    by (simp add: r0_def claim_row_def when_row_def open_operation_def sample_operation_def new_operation_def)
  have c1: "claim_row ''b'' 100000 r0 = Some r1"
    by (simp add: r0_def r1_def claim_row_def when_row_def open_operation_def sample_operation_def
        new_operation_def execution_lease_ms_def)
  have g: "op_generation r0 = 1" "op_owner r1 = Some ''b''"
    by (simp_all add: r0_def r1_def claim_row_def when_row_def open_operation_def sample_operation_def
        new_operation_def execution_lease_ms_def)
  from superseded_worker_is_fenced [OF c0 row_run_one [OF row_stmt.claims [OF c1]] _ row_run.here]
  show ?thesis using g by (simp add: r0_def [symmetric] r1_def [symmetric])
qed

text \<open>
  C4: The result of an operation is final and its phase never goes back. Take any sequence of calls of
  the component by any replicas under any contexts (claims, renewals, releases, completions with or
  without a lease and with statements the database refuses, phase changes, progress reports, recovery
  sweeps, and the statements of any \<open>begin\<close> interleaved with them), and an operation whose own \<open>begin\<close>
  is not running meanwhile. It keeps its identity, its phase rank never decreases, and once it is
  finished its status, phase, message and finishing time never change again. The exception is real:
  while its \<open>begin\<close> runs, that \<open>begin\<close> may close the operation without looking at its status.
\<close>

theorem operation_results_are_final:
  assumes "op_calls P d d'" and "ops_keyed d" and "operation_by_id i d = Some r" and "op_row_ok r"
    and "i \<notin> P"
  shows "\<exists>r'. operation_by_id i d' = Some r' \<and> op_row_ok r' \<and>
    op_environmentId r' = op_environmentId r \<and> op_version r' = op_version r \<and>
    phase_rank (op_phase r) \<le> phase_rank (op_phase r') \<and>
    (if op_finishedAt r = None then True
     else op_status r' = op_status r \<and> op_phase r' = op_phase r \<and> op_message r' = op_message r \<and>
       op_finishedAt r' = op_finishedAt r)"
proof -
  from ops_grow_find [OF op_calls_grow [OF assms(1,2)] assms(3,5)]
  obtain r' where r': "operation_by_id i d' = Some r'" "row_run r r'" by blast
  have "op_environmentId r' = op_environmentId r \<and> op_version r' = op_version r"
    using r'(2) by (induction rule: row_run.induct) (auto dest: row_stmt_identity)
  moreover have "phase_rank (op_phase r) \<le> phase_rank (op_phase r')"
    using r'(2) assms(4) by (rule row_run_rank)
  moreover have "op_row_ok r'" using r'(2) assms(4) by (rule row_run_ok)
  ultimately show ?thesis using r' row_run_finished [OF r'(2) _ assms(4)]
    by (cases "op_finishedAt r") auto
qed

text \<open>The witness: a finished operation, the \<open>begin\<close> of another one that gives up, and a sweep.\<close>

theorem operation_results_are_final_witness:
  "\<exists>r'. operation_by_id ''done'' (recover_interrupted 9 9 False
      (fst (begin_op (\<lambda>x. x) (\<lambda>x. x) (\<lambda>_. None) True sample_request
        (idle_db\<lparr>operations := [(finish_row Succeeded None 8 sample_operation)\<lparr>op_id := ''done''\<rparr>]\<rparr>)))) =
      Some r' \<and> op_status r' = OpResult Succeeded"
proof -
  let ?r = "(finish_row Succeeded None 8 sample_operation)\<lparr>op_id := ''done''\<rparr>"
  let ?d = "idle_db\<lparr>operations := [?r]\<rparr>"
  let ?P = "{br_operationId sample_request}"
  obtain d' res where run: "begin_op (\<lambda>x. x) (\<lambda>x. x) (\<lambda>_. None) True sample_request ?d = (d', res)"
    by fastforce
  have fresh: "br_operationId sample_request \<notin> op_id ` set (operations ?d)"
    by (simp add: sample_request_def)
  have "op_calls ?P ?d d'"
    by (rule begin_op_calls [OF run])
      (use fresh in \<open>auto simp: committed_by_others_def intro: op_calls.none\<close>)
  then have "op_calls ?P ?d (recover_interrupted 9 9 False d')"
    by (rule op_calls.call [OF _ op_call.c_recover])
  moreover have "ops_keyed ?d" by (simp add: ops_keyed_def keyed_def)
  moreover have "operation_by_id ''done'' ?d = Some ?r" by (simp add: operation_by_id_def)
  moreover have "op_row_ok ?r" by (simp add: op_row_ok_def finish_row_def)
  moreover have "''done'' \<notin> ?P" by (simp add: sample_request_def)
  ultimately show ?thesis
    using operation_results_are_final [of ?P ?d "recover_interrupted 9 9 False d'" "''done''" ?r] run
    by (fastforce simp: finish_row_def)
qed

lemma count_where_one:
  assumes "count_where p t = 1"
  obtains us x vs where "t = us @ x # vs" "p x" "rewrite p f t = us @ f x # vs"
proof -
  from assms have "filter p t \<noteq> []" by (auto simp: count_where_def)
  then obtain x where "x \<in> set t" "p x" by (auto simp: filter_empty_conv)
  then obtain us vs where t: "t = us @ x # vs" by (meson split_list)
  with assms \<open>p x\<close> have "filter p us = []" "filter p vs = []" by (simp_all add: count_where_def)
  then have "\<forall>y \<in> set us. \<not> p y" "\<forall>y \<in> set vs. \<not> p y" by (simp_all add: filter_empty_conv)
  then have "rewrite p f us = us" "rewrite p f vs = vs" by (simp_all add: rewrite_idle)
  then have "rewrite p f t = us @ f x # vs" using t \<open>p x\<close> by (simp add: rewrite_def)
  with t \<open>p x\<close> show ?thesis by (rule that)
qed

text \<open>
  C5: Beginning an operation claims exactly one free environment within the quota. When \<open>begin\<close>
  returns an id, whatever other transactions committed before: in the state its transaction found,
  the environment was locked by no operation (and had the approved target, allocation and revision
  when an approved state was given); the transaction appended the running operation, locked that one
  row and changed no other environment; the workspace's concurrent operations are within its limit
  right after it; and an approved state was compared again, field by field, with what the environment
  held after the claim.
\<close>

theorem begin_claims_one_free_environment:
  assumes "begin_op pre mid c down q d = (d', Inr i)"
  shows "\<exists>e d0 d1 pr x us vs w. environment_of (br_projectId q) (br_env q) d = Some e \<and>
    project_by_id (en_projectId e) d = Some pr \<and> i = br_operationId q \<and>
    committed_by_others c (pre d) d0 \<and>
    environments d0 = us @ x # vs \<and> en_id x = en_id e \<and> en_activeOperationId x = None \<and>
    (case br_expected q of None \<Rightarrow> True
     | Some ap \<Rightarrow> en_targetId x = ex_targetId ap \<and> en_allocationId x = ex_allocationId ap \<and>
         en_configRevision x = ex_configRevision ap) \<and>
    environments d1 = us @ x\<lparr>en_activeOperationId := Some i, en_status := EsDeploying,
        en_statusReason := Some (begin_reason (br_kind q)),
        en_deploymentRequired := (if br_kind q \<in> {''start'', ''stop'', ''remove''}
          then en_deploymentRequired x else True)\<rparr> # vs \<and>
    (\<exists>r. operations d1 = operations d0 @ [r] \<and> op_id r = i \<and> op_environmentId r = en_id e \<and>
       op_status r = OpRunning \<and> op_version r = br_version q \<and> op_buildArtifactId r = br_artifact q) \<and>
    workspace_by_id (pj_workspaceId pr) d1 = Some w \<and>
    running_deployments (ws_id w) d1 + running_provisionings (ws_id w) None d1
      \<le> ws_maxConcurrentOperations w \<and>
    (case br_expected q of None \<Rightarrow> True
     | Some ap \<Rightarrow> \<exists>e2. environment_by_id (en_id e) (mid d1) = Some e2 \<and>
         en_targetId e2 = ex_targetId ap \<and> en_allocationId e2 = ex_allocationId ap \<and>
         en_configRevision e2 = ex_configRevision ap \<and>
         map_option tg_updatedAt (target_by_id (en_targetId e2) (mid d1)) = ex_targetRevision ap \<and>
         map_option al_updatedAt (allocation_by_id (en_allocationId e2) (mid d1)) = ex_allocationRevision ap) \<and>
    only_audit (mid d1) d'"
  using assms
proof (cases rule: begin_op_cases)
  case (started e d0 pr)
  define d1 where "d1 = begin_write q e d d0"
  from deploy_quota.guard_room [OF started(4)] obtain l where
    "concurrent_limit (pj_workspaceId pr) d0 = Some l" "concurrent_count (pj_workspaceId pr) d0 + 1 \<le> l"
    by blast
  then have "concurrent_limit (pj_workspaceId pr) d1 = Some l" "concurrent_count (pj_workspaceId pr) d1 \<le> l"
    using deploy_quota.claim_limit [of "pj_workspaceId pr" q e d d0]
      deploy_quota.claim_usage [of "pj_workspaceId pr" q e d d0] by (auto simp: d1_def)
  then obtain w where w: "workspace_by_id (pj_workspaceId pr) d1 = Some w"
      "concurrent_count (pj_workspaceId pr) d1 \<le> ws_maxConcurrentOperations w"
    by (auto simp: concurrent_limit_def)
  from w(1) have "ws_id w = pj_workspaceId pr" by (auto simp: workspace_by_id_def dest: find_first_Some)
  with w(2) have quota: "running_deployments (ws_id w) d1 + running_provisionings (ws_id w) None d1
      \<le> ws_maxConcurrentOperations w" by (simp add: concurrent_count_def)
  from count_where_one [OF started(5), where f = "claim_environment q"] obtain us x vs where
    x: "environments d0 = us @ x # vs" "claimable q e x" "environments d1 = us @ claim_environment q x # vs"
    by (auto simp: d1_def begin_write_def)
  have "case br_expected q of None \<Rightarrow> True
     | Some ap \<Rightarrow> \<exists>e2. environment_by_id (en_id e) (mid d1) = Some e2 \<and> matches_expected_state e2 (mid d1) ap"
    using started(6) by (auto simp: drifted_def d1_def split: option.splits)
  moreover have "operations d1 = operations d0 @ [new_operation q e d]"
    by (simp add: d1_def begin_write_def create_def)
  ultimately show ?thesis
    using started(1-3,7,8) x w(1) quota
    apply -
    apply (rule exI [of _ e], rule exI [of _ d0], rule exI [of _ d1], rule exI [of _ pr],
      rule exI [of _ x], rule exI [of _ us], rule exI [of _ vs], rule exI [of _ w])
    by (auto simp: claimable_def claim_environment_def lifecycle_kind_def matches_expected_state_def
        new_operation_def d1_def [symmetric] split: option.splits)
qed simp_all

theorem begin_claims_one_free_environment_witness:
  "\<exists>d'. begin_op (\<lambda>x. x) (\<lambda>x. x) (\<lambda>_. None) False sample_request idle_db =
     (d', Inr (br_operationId sample_request)) \<and>
     map en_activeOperationId (environments d') = [Some (br_operationId sample_request)]"
proof -
  obtain d' r where run: "begin_op (\<lambda>x. x) (\<lambda>x. x) (\<lambda>_. None) False sample_request idle_db = (d', r)"
    by fastforce
  have "succeeds (snd (begin_op (\<lambda>x. x) (\<lambda>x. x) (\<lambda>_. None) False sample_request idle_db))"
    by (simp add: begin_op_def environment_of_def project_by_id_def transaction_def begin_tx_def
        begin_guard_def assert_available_def workspace_by_id_def running_deployments_def
        running_provisionings_def environment_by_id_def claimable_def begin_audit_def
        deployment_action_def uuid_v4_def uuid_char_def is_hex_def audit_eval idle_defs)
  with run obtain i where i: "r = Inr i" by (auto simp: succeeds_iff)
  from begin_claims_one_free_environment [OF run [unfolded i]] obtain d0 d1 x us vs where
    *: "i = br_operationId sample_request" "committed_by_others (\<lambda>_. None) idle_db d0"
    "environments d0 = us @ x # vs" "only_audit d1 d'"
    "environments d1 = us @ x\<lparr>en_activeOperationId := Some i, en_status := EsDeploying,
        en_statusReason := Some (begin_reason (br_kind sample_request)),
        en_deploymentRequired := (if br_kind sample_request \<in> {''start'', ''stop'', ''remove''}
          then en_deploymentRequired x else True)\<rparr> # vs" by auto
  have "environments d0 = [idle_environment]"
    using *(2) by (auto simp: committed_by_others_def idle_db_def)
  with *(3) have "us = []" "vs = []" by (auto simp: Cons_eq_append_conv)
  with *(5) only_audit_frame [OF *(4)] have "map en_activeOperationId (environments d') = [Some i]" by simp
  with run i *(1) show ?thesis by simp
qed

text \<open>
  A refused or rolled-back \<open>begin\<close> leaves no trace on the environments. When no other request
  interferes, a \<open>begin\<close> that throws (unknown environment, drifted approval, no capacity, another
  active operation, or an audit log that refuses the request) leaves every environment exactly as it
  was, and an operation it created is closed as cancelled.
\<close>

theorem failed_begin_restores_environments:
  assumes "begin_op (\<lambda>x. x) (\<lambda>x. x) (\<lambda>_. None) down q d = (d', Inl err)"
    and "keyed en_id (environments d)" and "br_operationId q \<notin> op_id ` set (operations d)"
    and "\<forall>e \<in> set (environments d). en_activeOperationId e \<noteq> Some (br_operationId q)"
  shows "environments d' = environments d \<and>
    (\<exists>ops. operations d' = operations d @ ops \<and> (\<forall>r \<in> set ops. op_status r = OpResult Cancelled))"
proof -
  have quiet: "d0 = d" if "committed_by_others (\<lambda>_. None) d d0" for d0
    using that by (auto simp: committed_by_others_def)
  have cancelled: "\<exists>ops. operations (cancel_operation m (br_now q) (br_operationId q) x) = operations d @ ops \<and>
      (\<forall>r \<in> set ops. op_status r = OpResult Cancelled)"
    if "operations x = create (new_operation q e d) (operations d)" for m x e
  proof -
    have "rewrite (\<lambda>r. op_id r = br_operationId q) f (operations d) = operations d" for f
      using assms(3) by (intro rewrite_idle) (metis image_eqI)
    with that show ?thesis by (simp add: cancel_operation_def create_def new_operation_def)
  qed
  from assms(1) show ?thesis
  proof (cases rule: begin_op_cases)
    case refused
    then show ?thesis by auto
  next
    case aborted
    then have "d' = d" using quiet by simp
    then show ?thesis by simp
  next
    case (busy e d0 pr)
    then have d0: "d0 = d" using quiet by simp
    have "e \<in> set (environments d)" using busy(1) by (auto simp: environment_of_def dest: find_first_Some)
    have "count_where (claimable q e) (environments d) \<le> 1"
      by (rule count_where_key_le [OF assms(2), where v = "en_id e"]) (simp add: claimable_def)
    with busy(4) d0 have "count_where (claimable q e) (environments d) = 0" by simp
    then have "rewrite (claimable q e) (claim_environment q) (environments d) = environments d"
      by (intro rewrite_idle) (auto simp: count_where_0_iff)
    moreover have "environments d' = rewrite (claimable q e) (claim_environment q) (environments d)"
      using busy(5) d0 by (simp add: cancel_operation_def begin_write_def)
    moreover have "operations (begin_write q e d d0) = create (new_operation q e d) (operations d)"
      using d0 by (simp add: begin_write_def)
    from cancelled [OF this] busy(5) have "\<exists>ops. operations d' = operations d @ ops \<and>
      (\<forall>r \<in> set ops. op_status r = OpResult Cancelled)" by simp
    ultimately show ?thesis by simp
  next
    case (rolled_back e d0 d2 m pr)
    then have d0: "d0 = d" using quiet by simp
    with rolled_back(5) have frame: "environments d2 = environments (begin_write q e d d)"
      "operations d2 = operations (begin_write q e d d)"
      using only_audit_frame by simp_all
    have "e \<in> set (environments d)"
      using rolled_back(1) by (auto simp: environment_of_def dest: find_first_Some)
    from restore_claimed [OF assms(2) this, of q] assms(4) rolled_back(6) frame
    have "environments d' = environments d"
      by (simp add: cancel_unstarted_def restore_environment_def cancel_operation_def begin_write_def)
    moreover have "operations d2 = create (new_operation q e d) (operations d)"
      using frame by (simp add: begin_write_def)
    from cancelled [OF this] rolled_back(6) have "\<exists>ops. operations d' = operations d @ ops \<and>
      (\<forall>r \<in> set ops. op_status r = OpResult Cancelled)"
      by (simp add: cancel_unstarted_def restore_environment_def)
    ultimately show ?thesis by simp
  qed simp
qed

theorem failed_begin_restores_environments_witness:
  "\<exists>d' err. begin_op (\<lambda>x. x) (\<lambda>x. x) (\<lambda>_. None) True sample_request idle_db = (d', Inl err) \<and>
     environments d' = [idle_environment]"
proof -
  obtain d' r where run: "begin_op (\<lambda>x. x) (\<lambda>x. x) (\<lambda>_. None) True sample_request idle_db = (d', r)"
    by fastforce
  have "\<not> succeeds (snd (begin_op (\<lambda>x. x) (\<lambda>x. x) (\<lambda>_. None) True sample_request idle_db))"
    by (simp add: begin_op_def environment_of_def project_by_id_def transaction_def begin_tx_def
        begin_guard_def assert_available_def workspace_by_id_def running_deployments_def
        running_provisionings_def environment_by_id_def claimable_def begin_audit_def
        deployment_action_def uuid_v4_def uuid_char_def is_hex_def audit_eval idle_defs)
  with run obtain err where err: "r = Inl err" by (cases r) auto
  from failed_begin_restores_environments [OF run [unfolded err]] run err
  show ?thesis by (auto simp: idle_defs keyed_def)
qed

text \<open>What one recovery step does to the row with a given id.\<close>

lemma find_on_operation:
  assumes "\<And>r r'. f r = Some r' \<Longrightarrow> op_id r' = op_id r"
  shows "operation_by_id j (fst (on_operation i f d)) =
    (if j = i then map_option (\<lambda>r. case f r of None \<Rightarrow> r | Some r' \<Rightarrow> r') (operation_by_id i d)
     else operation_by_id j d)"
  using find_update_row [of f op_id j i "operations d"] assms
  by (auto simp: operation_by_id_def on_operation_def split: prod.splits option.splits)

lemma recover_row_id: "recover_row seen t now r = Some r' \<Longrightarrow> op_id r' = op_id r"
  by (auto simp: recover_row_def Let_def)

lemma recover_one_find:
  "operation_by_id i (recover_one t now down seen d) =
    (if i = op_id seen
     then map_option (\<lambda>r. case recover_row seen t now r of None \<Rightarrow> r | Some r' \<Rightarrow> r') (operation_by_id i d)
     else operation_by_id i d)"
proof -
  have "operation_by_id i (recover_one t now down seen d) =
      operation_by_id i (fst (on_operation (op_id seen) (recover_row seen t now) d))"
    by (auto simp: recover_one_def operation_by_id_def split: prod.splits option.splits)
  then show ?thesis using find_on_operation [of "recover_row seen t now" i "op_id seen" d] recover_row_id
    by auto
qed

lemma recover_fold_other:
  "i \<notin> op_id ` set rs \<Longrightarrow>
     operation_by_id i (fold (recover_one t now down) rs d) = operation_by_id i d"
  by (induction rs arbitrary: d) (auto simp: recover_one_find)

lemma recover_fold_find:
  assumes "distinct (map op_id rs)" and "seen \<in> set rs"
  shows "operation_by_id (op_id seen) (fold (recover_one t now down) rs d) =
    map_option (\<lambda>r. case recover_row seen t now r of None \<Rightarrow> r | Some r' \<Rightarrow> r')
      (operation_by_id (op_id seen) d)"
  using assms
proof (induction rs arbitrary: d)
  case (Cons r rs)
  show ?case
  proof (cases "seen = r")
    case True
    with Cons.prems have "op_id seen \<notin> op_id ` set rs" by auto
    with True show ?thesis by (simp add: recover_fold_other recover_one_find)
  next
    case False
    with Cons.prems have "op_id r \<noteq> op_id seen" "seen \<in> set rs" "distinct (map op_id rs)" by auto
    with Cons.IH [of "recover_one t now down r d"] show ?thesis by (simp add: recover_one_find)
  qed
qed simp

lemma recover_one_environments:
  "environments (recover_one t now down seen d) = environments d \<or>
   environments (recover_one t now down seen d) = environments (recover_environment seen d)"
  by (auto simp: recover_one_def recover_environment_def on_operation_def split: prod.splits option.splits)

lemma recover_fold_locks:
  assumes "i \<notin> op_id ` set rs" and "e \<in> set (environments d)" "en_activeOperationId e = Some i"
  shows "e \<in> set (environments (fold (recover_one t now down) rs d))"
  using assms
proof (induction rs arbitrary: d)
  case (Cons r rs)
  then have "e \<in> set (environments (recover_one t now down r d))"
    using recover_one_environments [of t now down r d]
    by (auto simp: recover_environment_def set_rewrite image_iff)
  with Cons show ?case by simp
qed simp

text \<open>
  Recovery closes exactly the orphaned operations. After a sweep at time \<open>t\<close>, an operation that
  was open, orphaned (its lease expired, or it never had one and is older than the grace period) and
  not carried by Agent jobs is finished, as cancelled if the user had cancelled it and as failed
  otherwise, and has no owner; every other operation is unchanged, and an environment it has locked
  keeps its row, so a live execution never loses its environment to a sweep.
\<close>

theorem recovery_closes_exactly_orphans:
  assumes "ops_keyed d" and "operation_by_id i d = Some r"
  shows "if open_operation r \<and> orphaned t r \<and> \<not> has_agent_jobs i d
    then \<exists>r'. operation_by_id i (recover_interrupted t now down d) = Some r' \<and>
      op_status r' = OpResult (if op_status r = OpResult Cancelled then Cancelled else Failed) \<and>
      op_finishedAt r' = Some now \<and> op_owner r' = None
    else operation_by_id i (recover_interrupted t now down d) = Some r \<and>
      (\<forall>e \<in> set (environments d). en_activeOperationId e = Some i \<longrightarrow>
         e \<in> set (environments (recover_interrupted t now down d)))"
proof -
  define rs where "rs = filter (\<lambda>r. \<not> has_agent_jobs (op_id r) d) (interrupted_operations t d)"
  have run: "recover_interrupted t now down d = fold (recover_one t now down) rs d"
    by (simp add: recover_interrupted_def rs_def)
  from assms(2) have r: "r \<in> set (operations d)" "op_id r = i"
    by (auto simp: operation_by_id_def dest: find_first_Some)
  have dist: "distinct (map op_id rs)"
    using assms(1) by (simp add: rs_def interrupted_operations_def ops_keyed_def keyed_def distinct_map_filter)
  show ?thesis
  proof (cases "open_operation r \<and> orphaned t r \<and> \<not> has_agent_jobs i d")
    case True
    with r have "r \<in> set rs" by (simp add: rs_def interrupted_operations_def)
    from recover_fold_find [OF dist this, of t now down d] r(2) assms(2)
    have "operation_by_id i (recover_interrupted t now down d) =
        Some (case recover_row r t now r of None \<Rightarrow> r | Some r' \<Rightarrow> r')" by (simp add: run)
    with True show ?thesis by (simp add: recover_row_def when_row_def open_operation_def Let_def)
  next
    case False
    have "i \<notin> op_id ` set rs"
    proof
      assume "i \<in> op_id ` set rs"
      then obtain x where x: "x \<in> set rs" "op_id x = i" by blast
      then have "x \<in> set (operations d)" by (simp add: rs_def interrupted_operations_def)
      with keyed_unique [of op_id] assms(1) r x(2) have "x = r" by (metis ops_keyed_def)
      with x False r(2) show False by (auto simp: rs_def interrupted_operations_def)
    qed
    then have "operation_by_id i (recover_interrupted t now down d) = Some r \<and>
      (\<forall>e \<in> set (environments d). en_activeOperationId e = Some i \<longrightarrow>
         e \<in> set (environments (recover_interrupted t now down d)))"
      using assms(2) by (simp add: run recover_fold_other recover_fold_locks)
    then show ?thesis using if_not_P [OF False] by metis
  qed
qed

theorem recovery_closes_exactly_orphans_witness:
  "\<exists>r'. operation_by_id (br_operationId sample_request) (recover_interrupted 200000 200001 False
      (idle_db\<lparr>operations := [sample_operation]\<rparr>)) = Some r' \<and> op_status r' = OpResult Failed"
proof -
  let ?d = "idle_db\<lparr>operations := [sample_operation]\<rparr>"
  have "ops_keyed ?d" by (simp add: ops_keyed_def keyed_def)
  moreover have "operation_by_id (br_operationId sample_request) ?d = Some sample_operation"
    by (simp add: operation_by_id_def sample_operation_def new_operation_def)
  moreover have "open_operation sample_operation \<and> orphaned 200000 sample_operation \<and>
      \<not> has_agent_jobs (br_operationId sample_request) ?d"
    by (simp add: sample_operation_def new_operation_def open_operation_def orphaned_def has_agent_jobs_def
        legacy_execution_grace_ms_def execution_lease_ms_def idle_defs)
  moreover have "op_status sample_operation = OpRunning"
    by (simp add: sample_operation_def new_operation_def)
  ultimately show ?thesis
    using recovery_closes_exactly_orphans [of ?d "br_operationId sample_request" sample_operation 200000 200001 False]
    by auto
qed

lemma renew_row_identity: "renew_row me g t r = Some r' \<Longrightarrow> op_id r' = op_id r"
  by (auto simp: renew_row_def)

lemma complete_owned_row_id: "complete_owned_row me g s m t r = Some r' \<Longrightarrow> op_id r' = op_id r"
  by (auto simp: complete_owned_row_def finish_row_def)

lemma on_operation_found:
  assumes "on_operation i f d = (d', Some r')" and "\<And>r r'. f r = Some r' \<Longrightarrow> op_id r' = op_id r"
  shows "operation_by_id i d' = Some r' \<and> (\<exists>r. operation_by_id i d = Some r \<and> f r = Some r')"
proof -
  from assms(1) obtain r where r: "operation_by_id i d = Some r" "f r = Some r'"
    by (auto simp: on_operation_def operation_by_id_def update_row_Some split: prod.splits)
  with find_on_operation [of f i i d, OF assms(2)] assms(1) show ?thesis by simp
qed

text \<open>The renewal of an assertion keeps owner and generation of the row.\<close>

lemma assert_execution_find:
  assumes "assert_execution me t cxo i d = (d', cx', res)" and "operation_by_id i d' = Some r'"
  shows "\<exists>r. operation_by_id i d = Some r \<and> op_owner r = op_owner r' \<and> op_generation r = op_generation r'"
proof -
  have "operation_by_id i (fst (on_operation i (renew_row me g t) d)) =
      map_option (\<lambda>r. case renew_row me g t r of None \<Rightarrow> r | Some r' \<Rightarrow> r') (operation_by_id i d)" for g
    using find_on_operation [of "renew_row me g t" i i d] renew_row_identity by simp
  moreover have renewed: "d1 = d \<or> (\<exists>g. d1 = fst (on_operation (cx_operationId cx) (renew_row me g t) d))"
    if "renew_execution me t cx d = (d1, cx1, r1)" for cx d1 cx1 r1
    using that by (auto simp: renew_execution_def split: option.splits prod.splits if_splits)
      (metis fst_conv)+
  have "d' = d \<or> (\<exists>g. d' = fst (on_operation i (renew_row me g t) d))"
    using assms(1) by (auto simp: assert_execution_def split: option.splits prod.splits if_splits sum.splits
        dest!: renewed)
  ultimately show ?thesis using assms(2)
    by (auto simp: renew_row_def split: option.splits)
qed

lemma assert_execution_frame:
  "assert_execution me t cxo i d = (d', cx', res) \<Longrightarrow> environments d' = environments d"
  by (auto simp: assert_execution_def renew_execution_def on_operation_def
      split: option.splits prod.splits if_splits sum.splits)

text \<open>
  C6: A worker's completion is fenced, on every error path. Let \<open>fails\<close> be the statements the
  database refuses. When \<open>complete\<close> under a lease returns normally, the operation has exactly the
  given result and terminal phase, no owner, and the environments it had locked are free and otherwise
  unchanged. In every case, also when it throws, either no environment has changed, or the operation
  carries the given result and exactly its environments were freed; and a worker that no longer holds
  the operation under its generation changes no environment and never returns normally, so it cannot
  free the environment for others.
\<close>

theorem owned_completion_publishes_or_leaves:
  assumes "complete_owned me t cx s m fails down d = (d', cxo', res)" and "cx_operationId cx = i"
    and "published \<longleftrightarrow> (\<exists>r'. operation_by_id i d' = Some r' \<and> op_status r' = OpResult s \<and>
         op_phase r' = terminal_deployment_phase s m \<and> op_finishedAt r' = Some t \<and> op_owner r' = None)"
    and "freed \<longleftrightarrow> environments d' = map (\<lambda>e. if en_activeOperationId e = Some i
         then e\<lparr>en_activeOperationId := None\<rparr> else e) (environments d)"
    and "held \<longleftrightarrow> (\<exists>r. operation_by_id i d = Some r \<and> op_owner r = Some me \<and>
         op_generation r = cx_generation cx)"
  shows "(succeeds res \<longrightarrow> published \<and> freed \<and> held) \<and>
    (environments d' = environments d \<or> (published \<and> freed \<and> held))"
proof (cases "assert_execution me t (Some cx) i d")
  case (fields d1 cxo a)
  from assert_execution_frame [OF fields] have env: "environments d1 = environments d" .
  show ?thesis
  proof (cases "(\<exists>e. a = Inl e) \<or> fails UpdateOperation")
    case True
    with assms(1,2) fields env show ?thesis by (auto simp: complete_owned_def Let_def split: sum.splits)
  next
    case False
    then obtain u where a: "a = Inr u" "\<not> fails UpdateOperation" by (cases a) auto
    obtain d2 o' where on: "on_operation i (complete_owned_row me (cx_generation cx) s m t) d1 = (d2, o')"
      by fastforce
    then have env2: "environments d2 = environments d" using env on_operation_frame(1) by (metis fst_conv)
    show ?thesis
    proof (cases o')
      case None
      with assms(1,2) fields a on env2 show ?thesis by (auto simp: complete_owned_def Let_def)
    next
      case (Some r')
      have found: "operation_by_id i d2 = Some r' \<and> (\<exists>r. operation_by_id i d1 = Some r \<and>
             complete_owned_row me (cx_generation cx) s m t r = Some r')"
        by (rule on_operation_found [OF on [unfolded Some]]) (rule complete_owned_row_id)
      then obtain r where r: "operation_by_id i d1 = Some r" "op_owner r = Some me"
          "op_generation r = cx_generation cx"
        by (auto simp: complete_owned_row_def)
      from assert_execution_find [OF fields r(1)] r(2,3) assms(5) have "held" by auto
      moreover have "operation_by_id i d' = operation_by_id i d2"
        using assms(1,2) fields a on Some
        by (auto simp: complete_owned_def Let_def operation_by_id_def split: if_splits)
      with found assms(3) have "published" by (auto simp: complete_owned_row_def finish_row_def)
      moreover have "(succeeds res \<longrightarrow> freed) \<and> (environments d' = environments d \<or> freed)"
        using assms(1,2) fields a on Some env2 unfolding assms(4)
        by (auto simp: complete_owned_def Let_def unlock_environment_def rewrite_def split: if_splits)
      ultimately show ?thesis by blast
    qed
  qed
qed

theorem owned_completion_publishes_or_leaves_witness:
  "\<exists>d r. complete_owned ''a'' 7
      \<lparr>cx_operationId = op_id sample_operation, cx_generation = 1, cx_lost = None, cx_completed = False\<rparr>
      Succeeded None (\<lambda>_. False) False
      (idle_db\<lparr>operations := [the (claim_row ''a'' 6 sample_operation)],
         environments := [idle_environment\<lparr>en_activeOperationId := Some (op_id sample_operation)\<rparr>]\<rparr>) = (d, r) \<and>
     succeeds (snd r) \<and> environments d = [idle_environment] \<and>
     map op_status (operations d) = [OpResult Succeeded]"
proof -
  let ?cx = "\<lparr>cx_operationId = op_id sample_operation, cx_generation = 1, cx_lost = None, cx_completed = False\<rparr>"
  let ?d = "idle_db\<lparr>operations := [the (claim_row ''a'' 6 sample_operation)],
         environments := [idle_environment\<lparr>en_activeOperationId := Some (op_id sample_operation)\<rparr>]\<rparr>"
  obtain d c r where run: "complete_owned ''a'' 7 ?cx Succeeded None (\<lambda>_. False) False ?d = (d, c, r)"
    by (metis prod_cases3)
  have one: "operations (record_result_safely x i y) = operations y" for x i y by simp
  from run have ok: "succeeds r" and ops: "map op_status (operations d) = [OpResult Succeeded]"
    by (auto simp: complete_owned_def assert_execution_def renew_execution_def on_operation_def
        update_row_def when_row_def claim_row_def renew_row_def complete_owned_row_def finish_row_def
        open_operation_def sample_operation_def new_operation_def execution_lease_ms_def expired_def
        unexpired_def Let_def)
  from owned_completion_publishes_or_leaves [OF run refl refl refl refl] ok
  have "environments d = [idle_environment]" by (simp add: idle_environment_def)
  with run ok ops show ?thesis by auto
qed

text \<open>
  The two updates of a completion are not one transaction: when the database refuses the second, the
  operation is finished and its environment stays locked, and no recovery sweep frees it, since a
  sweep looks only at unfinished operations.
\<close>

lemma interrupted_completion_strands_the_environment:
  "\<exists>d. fst (complete_owned ''a'' 7
      \<lparr>cx_operationId = op_id sample_operation, cx_generation = 1, cx_lost = None, cx_completed = False\<rparr>
      Succeeded None (\<lambda>x. x = UpdateEnvironments) False
      (idle_db\<lparr>operations := [the (claim_row ''a'' 6 sample_operation)],
         environments := [idle_environment\<lparr>en_activeOperationId := Some (op_id sample_operation)\<rparr>]\<rparr>)) = d \<and>
    map op_status (operations d) = [OpResult Succeeded] \<and>
    (\<forall>t now down. map en_activeOperationId (environments (recover_interrupted t now down d)) =
       [Some (op_id sample_operation)])"
  by (simp add: complete_owned_def assert_execution_def renew_execution_def on_operation_def
      update_row_def when_row_def claim_row_def renew_row_def complete_owned_row_def finish_row_def
      open_operation_def sample_operation_def new_operation_def execution_lease_ms_def expired_def
      unexpired_def Let_def recover_interrupted_def interrupted_operations_def)

end
