(* ===== verification/Approvals.thy ===== *)
theory Approvals
  imports Workspaces DeployOps Pipeline Rollback
begin

text \<open>
  Production approvals (\<open>projects/project-production-approvals.ts\<close>): a request freezes what is to
  be published (source, version, artifact, target, access, configuration and target revisions) in a
  state token; a review checks role, policy and that the token still matches before it claims the
  request and schedules the deployment.

  Parameters: \<open>digest\<close>, the hexadecimal SHA-256 of the serialised state; \<open>schedule\<close>, the
  scheduling of a deployment (it may throw); \<open>down a\<close>, whether the audit write of action \<open>a\<close>
  fails; \<open>mid\<close>, what other requests commit between the state check and the claim of a review;
  \<open>lost\<close>, whether the update that marks the request approved is rejected by the database.
\<close>

section \<open>Snapshots\<close>

fun kind_str :: "request_kind \<Rightarrow> string" where
  "kind_str RkPromote = ''promote''"
| "kind_str RkRedeploy = ''redeploy''"
| "kind_str RkRollback = ''rollback''"

fun request_status_str :: "request_status \<Rightarrow> string" where
  "request_status_str RqPending = ''pending''"
| "request_status_str RqApproving = ''approving''"
| "request_status_str RqApproved = ''approved''"
| "request_status_str RqRejected = ''rejected''"
| "request_status_str RqStale = ''stale''"
| "request_status_str RqCancelled = ''cancelled''"

record create_input =
  ci_kind :: request_kind
  ci_candidateOperationId :: "string option"
  ci_stateToken :: "string option"

record candidate =
  cd_kind :: request_kind
  cd_sourceEnvironment :: string
  cd_candidateOperationId :: "string option"
  cd_candidateStateToken :: "string option"
  cd_version :: string
  cd_buildArtifactId :: "string option"
  cd_artifactDigest :: "string option"

record snapshot =
  sn_candidate :: candidate
  sn_workspaceId :: string
  sn_projectName :: string
  sn_environmentId :: string
  sn_targetId :: "string option"
  sn_allocationId :: "string option"
  sn_targetName :: string
  sn_provider :: provider_kind
  sn_configRevision :: nat
  sn_targetRevision :: "instant option"
  sn_allocationRevision :: "instant option"
  sn_policy :: approval_policy
  sn_stateToken :: string

definition rollback_candidate_for ::
  "(json list \<Rightarrow> string) \<Rightarrow> string \<Rightarrow> create_input \<Rightarrow> db \<Rightarrow> candidate outcome" where
  "rollback_candidate_for digest p x d =
     (if \<not> truthy (ci_candidateOperationId x) \<or> \<not> truthy (ci_stateToken x)
      then Inl (BadRequest ''Rollback candidate and state token are required'')
      else (case rollback_preview_of digest p Prod d of
          Inl e \<Rightarrow> Inl e
        | Inr None \<Rightarrow> Inl (Conflict ''The previous verified production deployment changed. Review rollback again.'')
        | Inr (Some v) \<Rightarrow>
            if Some (rp_candidateOperationId v) \<noteq> ci_candidateOperationId x
            then Inl (Conflict ''The previous verified production deployment changed. Review rollback again.'')
            else if Some (rp_stateToken v) \<noteq> ci_stateToken x
            then Inl (Conflict ''Production changed after rollback confirmation was opened. Review it again.'')
            else Inr \<lparr>cd_kind = RkRollback, cd_sourceEnvironment = ''history'',
                   cd_candidateOperationId = Some (rp_candidateOperationId v),
                   cd_candidateStateToken = Some (rp_stateToken v),
                   cd_version = rp_rollbackVersion v,
                   cd_buildArtifactId = map_option ai_id (rp_rollbackArtifact v),
                   cd_artifactDigest = map_option ai_digest (rp_rollbackArtifact v)\<rparr>))"

definition latest_artifact :: "string \<Rightarrow> db \<Rightarrow> artifact_row option" where
  "latest_artifact p d = find_first (\<lambda>_. True) (newest_first ba_createdAt
     (filter (\<lambda>a. ba_projectId a = p \<and> ba_status a = AfAvailable) (artifacts d)))"

definition candidate_for ::
  "(json list \<Rightarrow> string) \<Rightarrow> string \<Rightarrow> create_input \<Rightarrow> pipeline_preset \<Rightarrow> db \<Rightarrow> candidate outcome" where
  "candidate_for digest p x preset d =
     (if ci_kind x = RkRollback then rollback_candidate_for digest p x d
      else (let sourceName = (if ci_kind x = RkPromote then production_source_stage preset else Some Prod)
        in case sourceName of
             None \<Rightarrow> (case latest_artifact p d of
                 None \<Rightarrow> Inl (BadRequest ''No verified default-branch CI build is available'')
               | Some a \<Rightarrow> Inr \<lparr>cd_kind = ci_kind x, cd_sourceEnvironment = ''ci'',
                   cd_candidateOperationId = None, cd_candidateStateToken = None,
                   cd_version = ba_commitSha a, cd_buildArtifactId = Some (ba_id a),
                   cd_artifactDigest = Some (ba_digest a)\<rparr>)
           | Some n \<Rightarrow> (let source = environment_of p n d in
               if \<not> truthy (Option.bind source en_version)
               then Inl (BadRequest (env_name_str n @ '' has no verified build to publish''))
               else if ci_kind x = RkPromote \<and> map_option en_status source \<noteq> Some EsRunning
               then Inl (BadRequest (env_name_str n @ '' must be running before its build can be requested for production''))
               else (let e = the source in
                 Inr \<lparr>cd_kind = ci_kind x, cd_sourceEnvironment = env_name_str n,
                   cd_candidateOperationId = None, cd_candidateStateToken = None,
                   cd_version = the (en_version e), cd_buildArtifactId = en_buildArtifactId e,
                   cd_artifactDigest = map_option ba_digest (artifact_by_id (en_buildArtifactId e) d)\<rparr>))))"

text \<open>The fields of the production environment a request freezes, and the token over them.\<close>

definition token_fields :: "string \<Rightarrow> snapshot \<Rightarrow> json list" where
  "token_fields p s = (let c = sn_candidate s in
     [JStr p, JStr (sn_environmentId s), JStr (kind_str (cd_kind c)), JStr (cd_sourceEnvironment c),
      json_str (cd_candidateOperationId c), json_str (cd_candidateStateToken c), JStr (cd_version c),
      json_str (cd_buildArtifactId c), json_str (cd_artifactDigest c), json_str (sn_targetId s),
      json_str (sn_allocationId s), JStr (provider_str (sn_provider s)),
      JNum (int (sn_configRevision s)), json_num (sn_targetRevision s), json_num (sn_allocationRevision s)])"

definition production_snapshot ::
  "(json list \<Rightarrow> string) \<Rightarrow> string \<Rightarrow> create_input \<Rightarrow> db \<Rightarrow> snapshot outcome" where
  "production_snapshot digest p x d =
     (case project_by_id p d of
        None \<Rightarrow> Inl (project_not_found p)
      | Some pr \<Rightarrow> (case workspace_by_id (pj_workspaceId pr) d of
          None \<Rightarrow> Inl (ServerError ''workspace relation'')
        | Some ws \<Rightarrow> (case environment_of p Prod d of
          None \<Rightarrow> Inl (NotFound (''Environment '' @ [CHR 0x27] @ ''prod'' @ [CHR 0x27] @ '' not found''))
        | Some e \<Rightarrow>
          (let target = target_by_id (en_targetId e) d; allocation = allocation_by_id (en_allocationId e) d in
           if truthy (en_activeOperationId e)
           then Inl (BadRequest ''Production has an operation in progress'')
           else if target \<noteq> None \<and> map_option tg_managementState target \<noteq> Some MgActive
           then Inl (BadRequest (''Production target is '' @ management_str (tg_managementState (the target))))
           else if allocation \<noteq> None \<and> map_option al_active allocation \<noteq> Some True
           then Inl (BadRequest ''Production workspace access is paused'')
           else (case candidate_for digest p x (pj_preset pr) d of
               Inl err \<Rightarrow> Inl err
             | Inr c \<Rightarrow>
                 (let base = \<lparr>sn_candidate = c, sn_workspaceId = pj_workspaceId pr, sn_projectName = pj_name pr,
                    sn_environmentId = en_id e, sn_targetId = en_targetId e, sn_allocationId = en_allocationId e,
                    sn_targetName = (case target of Some g \<Rightarrow> tg_name g | None \<Rightarrow> provider_str (en_provider e)),
                    sn_provider = en_provider e, sn_configRevision = en_configRevision e,
                    sn_targetRevision = map_option tg_updatedAt target,
                    sn_allocationRevision = map_option al_updatedAt allocation,
                    sn_policy = ws_policy ws, sn_stateToken = []\<rparr>
                  in Inr (base\<lparr>sn_stateToken := digest (token_fields p base)\<rparr>)))))))"

definition input_of :: "request_row \<Rightarrow> create_input" where
  "input_of r = \<lparr>ci_kind = rq_kind r, ci_candidateOperationId = rq_candidateOperationId r,
     ci_stateToken = rq_candidateStateToken r\<rparr>"

definition matches_current :: "(json list \<Rightarrow> string) \<Rightarrow> request_row \<Rightarrow> db \<Rightarrow> bool" where
  "matches_current digest r d =
     (case production_snapshot digest (rq_projectId r) (input_of r) d of
        Inl _ \<Rightarrow> False | Inr s \<Rightarrow> sn_stateToken s = rq_stateToken r)"

section \<open>Statements on a request\<close>

definition on_request ::
  "string \<Rightarrow> (request_row \<Rightarrow> request_row option) \<Rightarrow> db \<Rightarrow> db \<times> request_row option" where
  "on_request i f d = (case update_row rq_id i f (requests d) of
      (rows, res) \<Rightarrow> (d\<lparr>requests := rows\<rparr>, res))"

definition changed_note :: string where
  "changed_note = ''Production inputs changed after this request was created''"

definition stale_row :: "request_status list \<Rightarrow> string \<Rightarrow> request_row \<Rightarrow> request_row option" where
  "stale_row from_states note = when_row (\<lambda>r. rq_status r \<in> set from_states)
     (\<lambda>r. r\<lparr>rq_status := RqStale, rq_reviewNote := Some note\<rparr>)"

definition reviewed_row ::
  "request_status \<Rightarrow> user_row \<Rightarrow> string option \<Rightarrow> instant \<Rightarrow> request_row \<Rightarrow> request_row option" where
  "reviewed_row s u note t = when_row (\<lambda>r. rq_status r = RqPending)
     (\<lambda>r. r\<lparr>rq_status := s, rq_reviewedById := Some (us_id u),
        rq_reviewedByUsername := Some (us_username u), rq_reviewedByDisplayName := us_name u,
        rq_reviewedAt := Some t,
        rq_reviewNote := (let n = map_option trim note in if truthy n then n else None)\<rparr>)"

definition approved_row :: "string \<Rightarrow> request_row \<Rightarrow> request_row option" where
  "approved_row oid = when_row (\<lambda>r. True)
     (\<lambda>r. r\<lparr>rq_status := RqApproved, rq_operationId := Some oid\<rparr>)"

definition failed_approval_row :: "bool \<Rightarrow> request_row \<Rightarrow> request_row option" where
  "failed_approval_row stale = when_row (\<lambda>r. rq_status r = RqApproving)
     (\<lambda>r. if stale
        then r\<lparr>rq_status := RqStale, rq_reviewNote := Some ''Production inputs changed during approval''\<rparr>
        else r\<lparr>rq_status := RqPending, rq_reviewedById := None, rq_reviewedByUsername := None,
               rq_reviewedByDisplayName := None, rq_reviewedAt := None\<rparr>)"

definition cancel_row :: "instant \<Rightarrow> request_row \<Rightarrow> request_row option" where
  "cancel_row t = when_row (\<lambda>r. rq_status r = RqPending)
     (\<lambda>r. r\<lparr>rq_status := RqCancelled, rq_reviewNote := Some ''Cancelled by requester'',
            rq_reviewedAt := Some t\<rparr>)"

definition mark_stale :: "string \<Rightarrow> db \<Rightarrow> db" where
  "mark_stale i d = fst (on_request i (stale_row [RqPending, RqApproving] changed_note) d)"

definition record_request ::
  "(string \<Rightarrow> bool) \<Rightarrow> request_row \<Rightarrow> string option \<Rightarrow> string \<Rightarrow> (string \<times> json) list \<Rightarrow> db \<Rightarrow> db \<times> unit outcome"
  where
  "record_request down r actor action details = audit_record (down action)
     \<lparr>ai_workspaceId = Some (rq_workspaceId r), ai_actorUserId = actor, ai_anonymous = False,
      ai_action = action, ai_outcome = None, ai_resourceType = ''project'',
      ai_resourceId = Some (rq_projectId r), ai_resourceName = Some (rq_projectName r),
      ai_operation = None, ai_details = Some details\<rparr>"

section \<open>Reading\<close>

definition current_policy :: "string \<Rightarrow> db \<Rightarrow> approval_policy outcome" where
  "current_policy w d = (case workspace_by_id w d of
      None \<Rightarrow> Inl (NotFound ''Workspace not found'')
    | Some x \<Rightarrow> Inr (ws_policy x))"

text \<open>The response repeats the row; the computed fields are the policy and the permissions.\<close>

record request_view =
  rv_request :: request_row
  rv_policy :: approval_policy
  rv_deployment :: "operation_row option"
  rv_canApprove :: bool
  rv_canReject :: bool
  rv_canCancel :: bool

definition request_view_of :: "request_row \<Rightarrow> string \<Rightarrow> db \<Rightarrow> request_view outcome" where
  "request_view_of r u d = (case current_policy (rq_workspaceId r) d of
      Inl e \<Rightarrow> Inl e
    | Inr policy \<Rightarrow>
        (let canReview = (case role_for u (rq_workspaceId r) d of None \<Rightarrow> False | Some x \<Rightarrow> can x Maintain);
             selfBlocked = (policy = SeparateReviewer \<and> rq_requestedById r = Some u)
         in Inr \<lparr>rv_request = r, rv_policy = policy,
              rv_deployment = Option.bind (rq_operationId r) (\<lambda>i. operation_by_id i d),
              rv_canApprove = (rq_status r = RqPending \<and> canReview \<and> \<not> selfBlocked),
              rv_canReject = (rq_status r = RqPending \<and> canReview),
              rv_canCancel = (rq_status r = RqPending \<and> rq_requestedById r = Some u)\<rparr>))"

definition optional_view :: "request_row option \<Rightarrow> string \<Rightarrow> db \<Rightarrow> db \<times> request_view option outcome" where
  "optional_view ro u d = (case ro of
      None \<Rightarrow> (d, Inr None)
    | Some r \<Rightarrow> (d, case request_view_of r u d of Inl e \<Rightarrow> Inl e | Inr v \<Rightarrow> Inr (Some v)))"

definition latest_request :: "string \<Rightarrow> string \<Rightarrow> db \<Rightarrow> request_row option" where
  "latest_request p w d = find_first (\<lambda>_. True) (newest_first rq_createdAt
     (filter (\<lambda>r. rq_projectId r = p \<and> rq_workspaceId r = w) (requests d)))"

definition latest ::
  "(json list \<Rightarrow> string) \<Rightarrow> (string \<Rightarrow> bool) \<Rightarrow> string \<Rightarrow> string \<Rightarrow> db \<Rightarrow> db \<times> request_view option outcome"
  where
  "latest digest down p u d = (case require_project u p Read d of
      Inl e \<Rightarrow> (d, Inl e)
    | Inr (w, _) \<Rightarrow> (case latest_request p w d of
        None \<Rightarrow> (d, Inr None)
      | Some r \<Rightarrow>
          if rq_status r = RqPending \<and> \<not> matches_current digest r d
          then (case on_request (rq_id r) (stale_row [RqPending] changed_note) d of
              (d1, None) \<Rightarrow> optional_view (Some r) u d1
            | (d1, Some r') \<Rightarrow> (case record_request down r None ''production.request_stale''
                  [(''kind'', JStr (kind_str (rq_kind r))), (''environment'', JStr ''prod'')] d1 of
                (d2, Inl e) \<Rightarrow> (d2, Inl e)
              | (d2, Inr _) \<Rightarrow> optional_view (Some r') u d2))
          else optional_view (Some r) u d))"

section \<open>Creating and cancelling\<close>

definition new_request ::
  "string \<Rightarrow> instant \<Rightarrow> string \<Rightarrow> user_row \<Rightarrow> create_input \<Rightarrow> snapshot \<Rightarrow> request_row" where
  "new_request i t p actor x s =
     \<lparr>rq_id = i, rq_workspaceId = sn_workspaceId s, rq_projectId = p, rq_projectName = sn_projectName s,
      rq_environmentId = sn_environmentId s, rq_requestedById = Some (us_id actor),
      rq_requestedByUsername = us_username actor, rq_requestedByDisplayName = us_name actor,
      rq_reviewedById = None, rq_reviewedByUsername = None, rq_reviewedByDisplayName = None,
      rq_reviewedAt = None, rq_kind = ci_kind x, rq_status = RqPending,
      rq_sourceEnvironment = cd_sourceEnvironment (sn_candidate s),
      rq_candidateOperationId = cd_candidateOperationId (sn_candidate s),
      rq_candidateStateToken = cd_candidateStateToken (sn_candidate s),
      rq_version = cd_version (sn_candidate s), rq_buildArtifactId = cd_buildArtifactId (sn_candidate s),
      rq_artifactDigest = cd_artifactDigest (sn_candidate s), rq_targetId = sn_targetId s,
      rq_allocationId = sn_allocationId s, rq_targetName = sn_targetName s, rq_provider = sn_provider s,
      rq_configRevision = sn_configRevision s, rq_targetRevision = sn_targetRevision s,
      rq_allocationRevision = sn_allocationRevision s, rq_stateToken = sn_stateToken s,
      rq_policy = sn_policy s, rq_reviewNote = None, rq_operationId = None, rq_createdAt = t\<rparr>"

definition live_request :: "request_row \<Rightarrow> bool" where
  "live_request r = (rq_status r \<in> {RqPending, RqApproving})"

text \<open>The insertion fails on the partial unique index over live requests of an environment.\<close>

definition replace_pending :: "request_row \<Rightarrow> db \<Rightarrow> db \<times> unit outcome" where
  "replace_pending r d =
     (let rows = rewrite (\<lambda>x. rq_environmentId x = rq_environmentId r \<and> rq_status x = RqPending)
            (\<lambda>x. x\<lparr>rq_status := RqStale, rq_reviewNote := Some ''Replaced by a newer production request''\<rparr>)
            (requests d)
      in if list_ex (\<lambda>x. rq_environmentId x = rq_environmentId r \<and> live_request x) rows
         then (d, Inl (ServerError ''P2002''))
         else (d\<lparr>requests := create r rows\<rparr>, Inr ()))"

definition create_request ::
  "(json list \<Rightarrow> string) \<Rightarrow> (string \<Rightarrow> bool) \<Rightarrow> string \<Rightarrow> instant \<Rightarrow> string \<Rightarrow> string \<Rightarrow> create_input \<Rightarrow> db
     \<Rightarrow> db \<times> request_view outcome" where
  "create_request digest down i t p u x d =
     (case require_project u p (if ci_kind x = RkRollback then Maintain else Write) d of
        Inl e \<Rightarrow> (d, Inl e)
      | Inr _ \<Rightarrow> (case production_snapshot digest p x d of
          Inl e \<Rightarrow> (d, Inl e)
        | Inr s \<Rightarrow> (case user_by_id u d of
            None \<Rightarrow> (d, Inl (NotFound ''User not found''))
          | Some actor \<Rightarrow>
              (let r = new_request i t p actor x s in
               case transaction (replace_pending r) d of
                 (d1, Inl e) \<Rightarrow> (d1, Inl (if e = ServerError ''P2002''
                    then Conflict ''Another production request was created at the same time. Reload and review it.''
                    else e))
               | (d1, Inr _) \<Rightarrow>
                   (case record_request down r (Some u) ''production.requested''
                       [(''kind'', JStr (kind_str (rq_kind r))), (''environment'', JStr ''prod''),
                        (''version'', JStr (rq_version r)), (''policy'', JStr (policy_str (rq_policy r)))] d1 of
                      (d2, Inl e) \<Rightarrow>
                        (d2\<lparr>requests := delete_many (\<lambda>y. rq_id y = i \<and> rq_status y = RqPending) (requests d2)\<rparr>, Inl e)
                    | (d2, Inr _) \<Rightarrow> (d2, request_view_of r u d2))))))"

definition find_request :: "string \<Rightarrow> string \<Rightarrow> db \<Rightarrow> request_row outcome" where
  "find_request p i d = (case find_first (\<lambda>r. rq_id r = i \<and> rq_projectId r = p) (requests d) of
      None \<Rightarrow> Inl (NotFound ''Production request not found'')
    | Some r \<Rightarrow> Inr r)"

definition cancel_request ::
  "(json list \<Rightarrow> string) \<Rightarrow> (string \<Rightarrow> bool) \<Rightarrow> instant \<Rightarrow> string \<Rightarrow> string \<Rightarrow> string \<Rightarrow> db
     \<Rightarrow> db \<times> request_view option outcome" where
  "cancel_request digest down t p i u d = (case require_project u p Read d of
      Inl e \<Rightarrow> (d, Inl e)
    | Inr _ \<Rightarrow> (case find_request p i d of
        Inl e \<Rightarrow> (d, Inl e)
      | Inr r \<Rightarrow>
          if rq_requestedById r \<noteq> Some u
          then (d, Inl (Forbidden ''Only the requester can cancel this production request''))
          else (case on_request (rq_id r) (cancel_row t) d of
              (d1, None) \<Rightarrow> (d1, Inl (Conflict ''This production request is no longer pending''))
            | (d1, Some _) \<Rightarrow> (case record_request down r (Some u) ''production.request_cancelled''
                  [(''kind'', JStr (kind_str (rq_kind r))), (''environment'', JStr ''prod'')] d1 of
                (d2, Inl e) \<Rightarrow> (d2, Inl e)
              | (d2, Inr _) \<Rightarrow> latest digest down p u d2))))"

section \<open>Reviewing\<close>

datatype decision = Approve | Reject

type_synonym schedule_fun =
  "string \<Rightarrow> string \<Rightarrow> request_kind \<Rightarrow> string option \<Rightarrow> string \<Rightarrow> expected_state \<Rightarrow> db \<Rightarrow> db \<times> string outcome"

definition expected_of :: "request_row \<Rightarrow> expected_state" where
  "expected_of r = \<lparr>ex_stateToken = rq_stateToken r, ex_targetId = rq_targetId r,
     ex_allocationId = rq_allocationId r, ex_configRevision = rq_configRevision r,
     ex_targetRevision = rq_targetRevision r, ex_allocationRevision = rq_allocationRevision r\<rparr>"

text \<open>The body of the try block: the audited acceptance, the scheduling, the final update.\<close>

definition publish_approved ::
  "schedule_fun \<Rightarrow> (string \<Rightarrow> bool) \<Rightarrow> bool \<Rightarrow> string \<Rightarrow> request_row \<Rightarrow> string \<Rightarrow> role \<Rightarrow> db \<Rightarrow> db \<times> unit outcome"
  where
  "publish_approved schedule down lost p r u role d =
     (case record_request down r (Some u) ''production.approval_accepted''
         [(''kind'', JStr (kind_str (rq_kind r))), (''environment'', JStr ''prod''),
          (''version'', JStr (rq_version r)), (''reviewerRole'', JStr (role_str role))] d of
        (d1, Inl e) \<Rightarrow> (d1, Inl e)
      | (d1, Inr _) \<Rightarrow>
          (case schedule p (rq_version r) (rq_kind r) (rq_buildArtifactId r) u (expected_of r) d1 of
             (d2, Inl e) \<Rightarrow> (d2, Inl e)
           | (d2, Inr oid) \<Rightarrow>
               if lost then (d2, Inl (ServerError ''database unavailable''))
               else (fst (record_request down r (Some u) ''production.request_approved''
                  [(''kind'', JStr (kind_str (rq_kind r))), (''environment'', JStr ''prod''),
                   (''version'', JStr (rq_version r)), (''operationId'', JStr oid),
                   (''reviewerRole'', JStr (role_str role))]
                  (fst (on_request (rq_id r) (approved_row oid) d2))), Inr ())))"

definition approval_failed ::
  "(string \<Rightarrow> bool) \<Rightarrow> request_row \<Rightarrow> string \<Rightarrow> http_error \<Rightarrow> db \<Rightarrow> db" where
  "approval_failed down r u e d =
     (let stale = is_conflict e in
      fst (record_request down r (Some u) ''production.approval_failed''
        [(''kind'', JStr (kind_str (rq_kind r))), (''environment'', JStr ''prod''),
         (''reason'', JStr (if stale then ''state-changed'' else ''scheduling-failed''))]
        (fst (on_request (rq_id r) (failed_approval_row stale) d))))"

definition review ::
  "(json list \<Rightarrow> string) \<Rightarrow> schedule_fun \<Rightarrow> (db \<Rightarrow> db) \<Rightarrow> (string \<Rightarrow> bool) \<Rightarrow> bool \<Rightarrow> instant
     \<Rightarrow> string \<Rightarrow> string \<Rightarrow> string \<Rightarrow> decision \<Rightarrow> string option \<Rightarrow> db \<Rightarrow> db \<times> request_view option outcome" where
  "review digest schedule mid down lost t p i u dec note d =
     (case require_project u p Maintain d of
        Inl e \<Rightarrow> (d, Inl e)
      | Inr (w, role) \<Rightarrow> (case find_request p i d of
        Inl e \<Rightarrow> (d, Inl e)
      | Inr r \<Rightarrow>
        if rq_workspaceId r \<noteq> w then (d, Inl (NotFound ''Production request not found''))
        else if rq_status r \<noteq> RqPending
        then (d, Inl (Conflict (''This production request is already '' @ request_status_str (rq_status r))))
        else (case current_policy w d of
          Inl e \<Rightarrow> (d, Inl e)
        | Inr policy \<Rightarrow>
          if dec = Approve \<and> policy = SeparateReviewer \<and> rq_requestedById r = Some u
          then (d, Inl (Forbidden ''This workspace requires a different person to approve production''))
          else (case user_by_id u d of
            None \<Rightarrow> (d, Inl (NotFound ''Reviewer not found''))
          | Some reviewer \<Rightarrow>
            if dec = Reject
            then (case on_request (rq_id r) (reviewed_row RqRejected reviewer note t) d of
                (d1, None) \<Rightarrow> (d1, Inl (Conflict ''This production request was reviewed concurrently''))
              | (d1, Some _) \<Rightarrow> (case record_request down r (Some u) ''production.request_rejected''
                    [(''kind'', JStr (kind_str (rq_kind r))), (''environment'', JStr ''prod''),
                     (''reviewerRole'', JStr (role_str role))] d1 of
                  (d2, Inl e) \<Rightarrow> (d2, Inl e)
                | (d2, Inr _) \<Rightarrow> latest digest down p u d2))
            else if \<not> matches_current digest r d
            then (mark_stale (rq_id r) d, Inl (Conflict
              ''Artifact, target, or production configuration changed. Create a new request.''))
            else (case on_request (rq_id r) (reviewed_row RqApproving reviewer note t) (mid d) of
                (d1, None) \<Rightarrow> (d1, Inl (Conflict ''This production request was reviewed concurrently''))
              | (d1, Some _) \<Rightarrow> (case publish_approved schedule down lost p r u role d1 of
                  (d2, Inl e) \<Rightarrow> (approval_failed down r u e d2, Inl e)
                | (d2, Inr _) \<Rightarrow> latest digest down p u d2))))))"

section \<open>What a review may do\<close>

definition authorised :: "(json list \<Rightarrow> string) \<Rightarrow> string \<Rightarrow> string \<Rightarrow> string \<Rightarrow> db \<Rightarrow> request_row \<Rightarrow> bool" where
  "authorised digest p i u d r \<longleftrightarrow>
     (\<exists>w role policy. require_project u p Maintain d = Inr (w, role) \<and> find_request p i d = Inr r \<and>
        rq_workspaceId r = w \<and> rq_status r = RqPending \<and> current_policy w d = Inr policy \<and>
        (policy = SeparateReviewer \<longrightarrow> rq_requestedById r \<noteq> Some u) \<and> matches_current digest r d)"

text \<open>An approval either was authorised, or failed in the same way for every scheduler.\<close>

lemma approve_cases:
  assumes "review digest schedule mid down lost t p i u Approve note d = (d', res)"
  obtains (refused) "\<not> succeeds res"
      "\<And>s. review digest s mid down lost t p i u Approve note d = (d', res)"
      "d' = d \<or> (\<exists>j. d' = mark_stale j d) \<or> requests d' = requests (mid d)"
  | (claimed) r reviewer role d1 r1 where "authorised digest p i u d r"
      "user_by_id u d = Some reviewer" "require_project u p Maintain d = Inr (rq_workspaceId r, role)"
      "on_request (rq_id r) (reviewed_row RqApproving reviewer note t) (mid d) = (d1, Some r1)"
      "(d', res) = (case publish_approved schedule down lost p r u role d1 of
          (d2, Inl e) \<Rightarrow> (approval_failed down r u e d2, Inl e)
        | (d2, Inr _) \<Rightarrow> latest digest down p u d2)"
proof (cases "require_project u p Maintain d")
  case (Inl e)
  with assms show ?thesis by (intro refused) (auto simp: review_def)
next
  case acc: (Inr wr)
  obtain w role where wr: "wr = (w, role)" by fastforce
  show ?thesis
  proof (cases "find_request p i d")
    case (Inl e)
    with assms acc wr show ?thesis by (intro refused) (auto simp: review_def)
  next
    case r: (Inr r)
    show ?thesis
    proof (cases "rq_workspaceId r = w \<and> rq_status r = RqPending")
      case False
      with assms acc wr r show ?thesis by (intro refused) (auto simp: review_def split: if_splits)
    next
      case pend: True
      show ?thesis
      proof (cases "current_policy w d")
        case (Inl e)
        with assms acc wr r pend show ?thesis by (intro refused) (auto simp: review_def)
      next
        case pol: (Inr policy)
        show ?thesis
        proof (cases "policy = SeparateReviewer \<and> rq_requestedById r = Some u")
          case True
          with assms acc wr r pend pol show ?thesis by (intro refused) (auto simp: review_def)
        next
          case self: False
          show ?thesis
          proof (cases "user_by_id u d")
            case None
            with assms acc wr r pend pol self show ?thesis
              by (intro refused) (auto simp: review_def split: if_splits)
          next
            case us: (Some reviewer)
            show ?thesis
            proof (cases "matches_current digest r d")
              case False
              with assms acc wr r pend pol self us show ?thesis
                by (intro refused) (auto simp: review_def split: if_splits)
            next
              case True
              with acc wr r pend pol self have au: "authorised digest p i u d r"
                by (auto simp: authorised_def)
              obtain d1 o1 where cl: "on_request (rq_id r) (reviewed_row RqApproving reviewer note t) (mid d) = (d1, o1)"
                by fastforce
              show ?thesis
              proof (cases o1)
                case None
                with cl have "requests d1 = requests (mid d)"
                  by (auto simp: on_request_def split: prod.splits dest: update_row_None)
                with assms acc wr r pend pol self us True cl None show ?thesis
                  by (intro refused) (auto simp: review_def split: if_splits)
              next
                case (Some r1)
                with assms acc wr r pend pol self us True cl show ?thesis
                  by (intro claimed [OF au us]) (auto simp: review_def split: if_splits)
              qed
            qed
          qed
        qed
      qed
    qed
  qed
qed

section \<open>Frozen requests\<close>

text \<open>The columns of a request that no statement may change.\<close>

definition core :: "request_row \<Rightarrow> request_row" where
  "core r = r\<lparr>rq_status := RqPending, rq_reviewedById := None, rq_reviewedByUsername := None,
     rq_reviewedByDisplayName := None, rq_reviewedAt := None, rq_reviewNote := None, rq_operationId := None\<rparr>"

text \<open>The state token of a request is the digest of its own columns.\<close>

definition request_fields :: "request_row \<Rightarrow> json list" where
  "request_fields r =
     [JStr (rq_projectId r), JStr (rq_environmentId r), JStr (kind_str (rq_kind r)),
      JStr (rq_sourceEnvironment r), json_str (rq_candidateOperationId r),
      json_str (rq_candidateStateToken r), JStr (rq_version r), json_str (rq_buildArtifactId r),
      json_str (rq_artifactDigest r), json_str (rq_targetId r), json_str (rq_allocationId r),
      JStr (provider_str (rq_provider r)), JNum (int (rq_configRevision r)),
      json_num (rq_targetRevision r), json_num (rq_allocationRevision r)]"

definition frozen :: "(json list \<Rightarrow> string) \<Rightarrow> request_row \<Rightarrow> bool" where
  "frozen digest r \<longleftrightarrow> rq_stateToken r = digest (request_fields r)"

lemma core_fields: "core r' = core r \<Longrightarrow> request_fields r' = request_fields r \<and> rq_stateToken r' = rq_stateToken r"
proof -
  assume eq: "core r' = core r"
  have "request_fields x = request_fields (core x) \<and> rq_stateToken x = rq_stateToken (core x)" for x
    by (simp add: request_fields_def core_def)
  with eq show ?thesis by metis
qed

lemma frozen_core: "core r' = core r \<Longrightarrow> frozen digest r \<Longrightarrow> frozen digest r'"
  by (auto simp: frozen_def dest: core_fields)

lemmas request_row_defs = stale_row_def reviewed_row_def approved_row_def failed_approval_row_def
  cancel_row_def

lemma statements_keep_core:
  "stale_row fs n r = Some r' \<Longrightarrow> core r' = core r"
  "reviewed_row s x note t r = Some r' \<Longrightarrow> core r' = core r"
  "approved_row oid r = Some r' \<Longrightarrow> core r' = core r"
  "failed_approval_row b r = Some r' \<Longrightarrow> core r' = core r"
  "cancel_row t r = Some r' \<Longrightarrow> core r' = core r"
  by (auto simp: request_row_defs core_def)

lemma candidate_kind: "candidate_for digest p x preset d = Inr c \<Longrightarrow> cd_kind c = ci_kind x"
  by (auto simp: candidate_for_def rollback_candidate_for_def Let_def split: if_splits option.splits sum.splits)

lemma snapshot_token:
  assumes "production_snapshot digest p x d = Inr s"
  shows "sn_stateToken s = digest (token_fields p s)" and "cd_kind (sn_candidate s) = ci_kind x"
  using assms
  by (auto simp: production_snapshot_def Let_def token_fields_def dest: candidate_kind
      split: option.splits if_splits sum.splits)

lemma new_request_frozen:
  assumes "production_snapshot digest p x d = Inr s"
  shows "frozen digest (new_request i t p actor x s)"
  using snapshot_token [OF assms]
  by (simp add: frozen_def new_request_def request_fields_def token_fields_def Let_def)

lemma kind_str_inj [simp]: "kind_str a = kind_str b \<longleftrightarrow> a = b"
  by (cases a; cases b) simp_all

section \<open>One live request per environment, final requests are final\<close>

definition live_in :: "string \<Rightarrow> request_row \<Rightarrow> bool" where
  "live_in e r = (rq_environmentId r = e \<and> live_request r)"

definition requests_ok :: "db \<Rightarrow> bool" where
  "requests_ok d \<longleftrightarrow> keyed rq_id (requests d) \<and> (\<forall>e. count_where (live_in e) (requests d) \<le> 1)"

text \<open>
  The update that publishes an approval does not look at the status of the request. \<open>A\<close> is the set
  of requests an approval may be publishing: such a request may still become approved.
\<close>

definition final_row :: "string set \<Rightarrow> request_row \<Rightarrow> request_row \<Rightarrow> bool" where
  "final_row A r r' \<longleftrightarrow> r' = r \<or>
     (rq_id r \<in> A \<and> rq_id r' = rq_id r \<and> core r' = core r \<and> rq_status r' = RqApproved)"

definition final_kept :: "string set \<Rightarrow> db \<Rightarrow> db \<Rightarrow> bool" where
  "final_kept A d d' \<longleftrightarrow>
     (\<forall>r \<in> set (requests d). \<not> live_request r \<longrightarrow> (\<exists>r' \<in> set (requests d'). final_row A r r'))"

definition safe_step :: "string set \<Rightarrow> db \<Rightarrow> db \<Rightarrow> bool" where
  "safe_step A d d' \<longleftrightarrow> (requests_ok d \<longrightarrow> requests_ok d' \<and> final_kept A d d')"

lemma final_row_refl [simp]: "final_row A r r"
  by (simp add: final_row_def)

lemma final_row_trans: "final_row A r r' \<Longrightarrow> final_row A r' r'' \<Longrightarrow> final_row A r r''"
  by (auto simp: final_row_def)

lemma final_row_live: "final_row A r r' \<Longrightarrow> \<not> live_request r \<Longrightarrow> \<not> live_request r'"
  by (auto simp: final_row_def live_request_def)

lemma final_kept_same: "requests d' = requests d \<Longrightarrow> final_kept A d d'"
  unfolding final_kept_def using final_row_refl by metis

lemma safe_step_same: "requests d' = requests d \<Longrightarrow> safe_step A d d'"
  by (simp add: safe_step_def requests_ok_def final_kept_same)

lemma safe_step_trans [trans]: "safe_step A d d1 \<Longrightarrow> safe_step A d1 d2 \<Longrightarrow> safe_step A d d2"
  unfolding safe_step_def final_kept_def by (meson final_row_live final_row_trans)

lemma requests_ok_same: "requests d' = requests d \<Longrightarrow> requests_ok d' = requests_ok d"
  by (simp add: requests_ok_def)

definition request_by_id :: "string \<Rightarrow> db \<Rightarrow> request_row option" where
  "request_by_id i d = find_first (\<lambda>r. rq_id r = i) (requests d)"

lemma on_request_requests:
  "requests (fst (on_request i f d)) = fst (update_row rq_id i f (requests d))"
  by (simp add: on_request_def split: prod.splits)

lemma on_request_safe:
  assumes f: "\<And>r r'. f r = Some r' \<Longrightarrow> rq_id r' = rq_id r \<and> rq_environmentId r' = rq_environmentId r"
    and live: "\<And>r r'. request_by_id i d = Some r \<Longrightarrow> f r = Some r' \<Longrightarrow> live_request r"
  shows "safe_step A d (fst (on_request i f d))"
  unfolding safe_step_def
proof (intro impI conjI)
  assume ok: "requests_ok d"
  then have key: "keyed rq_id (requests d)" by (simp add: requests_ok_def)
  obtain t o' where run: "update_row rq_id i f (requests d) = (t, o')" by fastforce
  then have d': "requests (fst (on_request i f d)) = t" by (simp add: on_request_requests)
  have "x \<in> set t" if "x \<in> set (requests d)" "\<not> live_request x" for x
  proof (rule update_row_keeps [OF key run that(1)])
    assume "find_first (\<lambda>x. rq_id x = i) (requests d) = Some x"
    with live that(2) show "f x = None" by (cases "f x") (auto simp: request_by_id_def)
  qed
  then show "final_kept A d (fst (on_request i f d))"
    unfolding final_kept_def d' using final_row_refl by blast
  have "keyed rq_id t" using key f run keyed_update_row [of f rq_id i "requests d"] by simp
  moreover have "count_where (live_in e) t \<le> count_where (live_in e) (requests d)" for e
    by (rule update_row_count_le [OF key run]) (use live f in \<open>auto simp: live_in_def request_by_id_def\<close>)
  ultimately show "requests_ok (fst (on_request i f d))"
    using ok unfolding requests_ok_def d' by (meson le_trans)
qed

text \<open>The publishing update itself.\<close>

lemma approved_safe:
  assumes "i \<in> A"
  shows "safe_step A d (fst (on_request i (approved_row oid) d))"
  unfolding safe_step_def
proof (intro impI conjI)
  assume ok: "requests_ok d"
  then have key: "keyed rq_id (requests d)" by (simp add: requests_ok_def)
  obtain t o' where run: "update_row rq_id i (approved_row oid) (requests d) = (t, o')" by fastforce
  then have d': "requests (fst (on_request i (approved_row oid) d)) = t" by (simp add: on_request_requests)
  have frame: "rq_id r' = rq_id r \<and> rq_environmentId r' = rq_environmentId r \<and> core r' = core r \<and>
      rq_status r' = RqApproved" if "approved_row oid r = Some r'" for r r'
    using that by (auto simp: approved_row_def core_def)
  have "\<exists>r' \<in> set t. final_row A x r'" if "x \<in> set (requests d)" for x
  proof (cases "rq_id x = i")
    case False
    have "x \<in> set t" by (rule update_row_keeps [OF key run that]) (use False in \<open>auto dest: find_first_Some\<close>)
    then show ?thesis by (intro bexI [of _ x]) simp_all
  next
    case True
    obtain y where y: "approved_row oid x = Some y" by (simp add: approved_row_def when_row_def)
    have "find_first (\<lambda>r. rq_id r = i) (requests d) = Some x"
      using find_first_key [OF key that] True by simp
    with run y have "t = rewrite (\<lambda>r. rq_id r = i) (\<lambda>_. y) (requests d)" by (simp add: update_row_def)
    then have "y \<in> set t" using True that by (force simp: set_rewrite)
    with frame [OF y] True assms show ?thesis by (auto simp: final_row_def)
  qed
  then show "final_kept A d (fst (on_request i (approved_row oid) d))" by (simp add: final_kept_def d')
  have "keyed rq_id t" using key frame run keyed_update_row [of "approved_row oid" rq_id i "requests d"] by simp
  moreover have "count_where (live_in e) t \<le> count_where (live_in e) (requests d)" for e
    by (rule update_row_count_le [OF key run]) (use frame in \<open>auto simp: live_in_def live_request_def\<close>)
  ultimately show "requests_ok (fst (on_request i (approved_row oid) d))"
    using ok unfolding requests_ok_def d' by (meson le_trans)
qed

lemma record_request_requests [simp]:
  "requests (fst (record_request down r a x ds d)) = requests d"
  by (simp add: record_request_def)

lemma record_request_frame:
  "record_request down r a x ds d = (d', res) \<Longrightarrow> requests d' = requests d"
  using record_request_requests [of down r a x ds d] by simp

lemma optional_view_db: "fst (optional_view ro u d) = d"
  by (simp add: optional_view_def split: option.splits)

lemma latest_safe: "safe_step A d (fst (latest digest down p u d))"
proof -
  have step: "safe_step A d (fst (on_request j (stale_row [RqPending] n) d))" for j n
    by (rule on_request_safe) (auto simp: stale_row_def live_request_def)
  have "requests (fst (latest digest down p u d)) = requests d \<or>
      (\<exists>j n. requests (fst (latest digest down p u d)) = requests (fst (on_request j (stale_row [RqPending] n) d)))"
  proof (cases "require_project u p Read d")
    case (Inl e)
    then show ?thesis by (simp add: latest_def)
  next
    case acc: (Inr wr)
    obtain w ro where wr: "wr = (w, ro)" by fastforce
    show ?thesis
    proof (cases "latest_request p w d")
      case None
      with acc wr show ?thesis by (simp add: latest_def)
    next
      case (Some r)
      obtain d1 o1 where on: "on_request (rq_id r) (stale_row [RqPending] changed_note) d = (d1, o1)" by fastforce
      have "fst (latest digest down p u d) = d \<or> requests (fst (latest digest down p u d)) = requests d1"
        using acc wr Some on
        by (cases o1) (auto simp: latest_def optional_view_db split: prod.splits sum.splits dest: record_request_frame)
      moreover have "d1 = fst (on_request (rq_id r) (stale_row [RqPending] changed_note) d)" using on by simp
      ultimately show ?thesis by auto
    qed
  qed
  then show ?thesis using step safe_step_same safe_step_trans by metis
qed

lemma replace_pending_safe:
  assumes "replace_pending r d = (d', Inr x)" and "rq_id r \<notin> rq_id ` set (requests d)"
    and "rq_status r = RqPending"
  shows "safe_step A d d' \<and> requests d' = create r (rewrite
      (\<lambda>x. rq_environmentId x = rq_environmentId r \<and> rq_status x = RqPending)
      (\<lambda>x. x\<lparr>rq_status := RqStale, rq_reviewNote := Some ''Replaced by a newer production request''\<rparr>)
      (requests d))"
proof -
  define rows where "rows = rewrite (\<lambda>x. rq_environmentId x = rq_environmentId r \<and> rq_status x = RqPending)
      (\<lambda>x. x\<lparr>rq_status := RqStale, rq_reviewNote := Some ''Replaced by a newer production request''\<rparr>)
      (requests d)"
  from assms(1) have d': "requests d' = create r rows"
    and none: "\<forall>x \<in> set rows. \<not> live_in (rq_environmentId r) x"
    by (auto simp: replace_pending_def rows_def [symmetric] Let_def list_ex_iff live_in_def split: if_splits)
  have ids: "map rq_id rows = map rq_id (requests d)"
    unfolding rows_def by (rule map_rewrite_frame) simp
  have le: "count_where (live_in e) rows \<le> count_where (live_in e) (requests d)" for e
    unfolding rows_def by (rule count_where_rewrite_le) (auto simp: live_in_def live_request_def)
  have "safe_step A d d'"
    unfolding safe_step_def
  proof (intro impI conjI)
    assume ok: "requests_ok d"
    have "keyed rq_id rows" using ok ids by (simp add: requests_ok_def keyed_def)
    moreover have "rq_id r \<notin> rq_id ` set rows" using assms(2) ids by (metis set_map)
    ultimately have "keyed rq_id (create r rows)" by (simp add: keyed_create)
    moreover have "count_where (live_in e) (create r rows) \<le> 1" for e
    proof (cases "e = rq_environmentId r")
      case True
      with none have "count_where (live_in e) rows = 0" by (simp add: count_where_0_iff)
      then show ?thesis by (simp add: create_def)
    next
      case False
      then have "\<not> live_in e r" by (simp add: live_in_def)
      then show ?thesis using ok le [of e] by (auto simp: create_def requests_ok_def intro: le_trans)
    qed
    ultimately show "requests_ok d'" by (simp add: requests_ok_def d')
    show "final_kept A d d'"
      unfolding final_kept_def
    proof (intro ballI impI)
      fix x
      assume "x \<in> set (requests d)" "\<not> live_request x"
      then have "x \<in> set (requests d')" by (auto simp: d' rows_def set_rewrite image_iff live_request_def)
      then show "\<exists>x' \<in> set (requests d'). final_row A x x'" by (intro bexI [of _ x]) simp_all
    qed
  qed
  with d' show ?thesis by (simp add: rows_def)
qed

lemma requests_ok_delete:
  "requests_ok d \<Longrightarrow> requests_ok (d\<lparr>requests := delete_many p (requests d)\<rparr>)"
proof -
  assume ok: "requests_ok d"
  have "count_where q (delete_many p t) \<le> count_where q t" for q and t :: "request_row list"
    by (induction t) (auto simp: delete_many_def)
  with ok show ?thesis
    unfolding requests_ok_def by (auto intro: keyed_delete le_trans)
qed

lemma delete_pending_safe:
  "safe_step A d (d\<lparr>requests := delete_many (\<lambda>y. rq_id y = i \<and> rq_status y = RqPending) (requests d)\<rparr>)"
  unfolding safe_step_def
proof (intro impI conjI)
  show "final_kept A d (d\<lparr>requests := delete_many (\<lambda>y. rq_id y = i \<and> rq_status y = RqPending) (requests d)\<rparr>)"
    by (auto simp: final_kept_def delete_many_def live_request_def)
qed (rule requests_ok_delete)

lemma create_request_safe:
  assumes "i \<notin> rq_id ` set (requests d)"
  shows "safe_step A d (fst (create_request digest down i t p u x d))"
proof (cases "create_request digest down i t p u x d")
  case (Pair d' res)
  show ?thesis
  proof (cases "requests d' = requests d")
    case True
    with Pair show ?thesis by (simp add: safe_step_same)
  next
    case False
    with Pair obtain s actor d1 where
      tx: "transaction (replace_pending (new_request i t p actor x s)) d = (d1, Inr ())"
      and d': "requests d' = requests d1 \<or>
         requests d' = delete_many (\<lambda>y. rq_id y = i \<and> rq_status y = RqPending) (requests d1)"
      by (auto simp: create_request_def Let_def transaction_Inl split: sum.splits option.splits prod.splits if_splits
          dest: record_request_frame)
    have "safe_step A d d1"
      using replace_pending_safe tx assms by (fastforce simp: transaction_Inr new_request_def)
    moreover have "safe_step A d1 d'"
      using d'
    proof
      assume "requests d' = delete_many (\<lambda>y. rq_id y = i \<and> rq_status y = RqPending) (requests d1)"
      then have "safe_step A (d1\<lparr>requests := delete_many (\<lambda>y. rq_id y = i \<and> rq_status y = RqPending) (requests d1)\<rparr>) d'"
        by (simp add: safe_step_same)
      with delete_pending_safe show ?thesis by (rule safe_step_trans)
    qed (rule safe_step_same)
    ultimately show ?thesis unfolding Pair fst_conv by (rule safe_step_trans)
  qed
qed

lemma cancel_request_safe: "safe_step A d (fst (cancel_request digest down t p i u d))"
proof (cases "cancel_request digest down t p i u d")
  case (Pair d' res)
  have step: "safe_step A d (fst (on_request j (cancel_row t) d))" for j
    by (rule on_request_safe) (auto simp: cancel_row_def live_request_def)
  have "requests d' = requests d \<or> (\<exists>j d2. requests d2 = requests (fst (on_request j (cancel_row t) d)) \<and>
      (d' = d2 \<or> d' = fst (latest digest down p u d2)))"
    using Pair
    by (auto simp: cancel_request_def split: sum.splits option.splits prod.splits if_splits
        dest: record_request_frame) (metis fst_conv record_request_frame)+
  then show ?thesis
    unfolding Pair using step safe_step_same safe_step_trans latest_safe by (metis fst_conv)
qed

lemma on_request_found:
  assumes "on_request i f d = (d', Some r')" and "\<And>r r'. f r = Some r' \<Longrightarrow> rq_id r' = rq_id r"
  shows "request_by_id i d' = Some r' \<and> (\<exists>r. request_by_id i d = Some r \<and> f r = Some r')"
proof -
  from assms(1) obtain t where up: "update_row rq_id i f (requests d) = (t, Some r')" and d': "requests d' = t"
    by (auto simp: on_request_def split: prod.splits)
  then obtain r where r: "request_by_id i d = Some r" "f r = Some r'"
    by (auto simp: request_by_id_def update_row_Some)
  have "find_first (\<lambda>x. rq_id x = i) (fst (update_row rq_id i f (requests d))) = Some r'"
    using find_update_row [of f rq_id i i "requests d", OF assms(2)] r by (simp add: request_by_id_def)
  with up d' r show ?thesis by (simp add: request_by_id_def)
qed

lemma request_by_id_same: "requests d' = requests d \<Longrightarrow> request_by_id i d' = request_by_id i d"
  by (simp add: request_by_id_def)

lemma publish_approved_cases:
  assumes "publish_approved schedule down lost p r u role d = (d', res)"
  obtains (not_accepted) e where "res = Inl e" "requests d' = requests d"
  | (not_scheduled) d1 e where "requests d1 = requests d"
      "schedule p (rq_version r) (rq_kind r) (rq_buildArtifactId r) u (expected_of r) d1 = (d', Inl e)"
      "res = Inl e"
  | (unrecorded) d1 oid where "requests d1 = requests d" "lost"
      "schedule p (rq_version r) (rq_kind r) (rq_buildArtifactId r) u (expected_of r) d1 = (d', Inr oid)"
      "res = Inl (ServerError ''database unavailable'')"
  | (published) d1 d2 oid where "requests d1 = requests d" "\<not> lost"
      "schedule p (rq_version r) (rq_kind r) (rq_buildArtifactId r) u (expected_of r) d1 = (d2, Inr oid)"
      "requests d' = requests (fst (on_request (rq_id r) (approved_row oid) d2))" "res = Inr ()"
proof -
  obtain d1 a where rec: "record_request down r (Some u) ''production.approval_accepted''
         [(''kind'', JStr (kind_str (rq_kind r))), (''environment'', JStr ''prod''),
          (''version'', JStr (rq_version r)), (''reviewerRole'', JStr (role_str role))] d = (d1, a)" by fastforce
  from record_request_frame [OF rec] have f1: "requests d1 = requests d" .
  show ?thesis
  proof (cases a)
    case (Inl e)
    with assms rec f1 show ?thesis by (intro not_accepted) (auto simp: publish_approved_def)
  next
    case a: (Inr v)
    obtain d2 b where sc: "schedule p (rq_version r) (rq_kind r) (rq_buildArtifactId r) u (expected_of r) d1 = (d2, b)"
      by fastforce
    show ?thesis
    proof (cases b)
      case (Inl e)
      with assms rec a sc show ?thesis by (intro not_scheduled [OF f1]) (auto simp: publish_approved_def)
    next
      case b: (Inr oid)
      show ?thesis
      proof (cases lost)
        case True
        with assms rec a sc b show ?thesis by (intro unrecorded [OF f1]) (auto simp: publish_approved_def)
      next
        case False
        with assms rec a sc b show ?thesis
          by (intro published [OF f1, of d2 oid]) (auto simp: publish_approved_def)
      qed
    qed
  qed
qed

lemma approval_failed_safe: "safe_step A d (fst (on_request j (failed_approval_row b) d))"
  by (rule on_request_safe) (auto simp: failed_approval_row_def live_request_def split: if_splits)

lemma approval_failed_step: "safe_step A d (approval_failed down r u e d)"
  unfolding approval_failed_def Let_def
  by (rule safe_step_trans [OF approval_failed_safe safe_step_same]) simp

text \<open>An approval while others commit before its claim and while it schedules.\<close>

lemma publish_safe:
  assumes "\<And>p v k a u x d. safe_step A d (fst (schedule p v k a u x d))" and "rq_id r \<in> A"
    and "publish_approved schedule down lost p r u role d = (d', res)"
  shows "safe_step A d d'"
proof -
  have sched: "safe_step A x y" if "schedule p v k a u ex x = (y, z)" for p v k a u ex x y z
    using assms(1) [where d = x and p = p and v = v and k = k and a = a and u = u and x = ex] that by simp
  from assms(3) show ?thesis
  proof (cases rule: publish_approved_cases)
    case not_accepted
    then show ?thesis by (simp add: safe_step_same)
  next
    case (not_scheduled d1 e)
    from safe_step_trans [OF safe_step_same [OF not_scheduled(1)] sched [OF not_scheduled(2)]]
    show ?thesis .
  next
    case (unrecorded d1 oid)
    from safe_step_trans [OF safe_step_same [OF unrecorded(1)] sched [OF unrecorded(3)]]
    show ?thesis .
  next
    case (published d1 d2 oid)
    have "safe_step A d d2"
      by (rule safe_step_trans [OF safe_step_same [OF published(1)] sched [OF published(3)]])
    also have "safe_step A d2 (fst (on_request (rq_id r) (approved_row oid) d2))"
      by (rule approved_safe [OF assms(2)])
    also have "safe_step A (fst (on_request (rq_id r) (approved_row oid) d2)) d'"
      by (rule safe_step_same [OF published(4)])
    finally show ?thesis .
  qed
qed

lemma approve_safe:
  assumes sched: "\<And>p v k a u x d. safe_step A d (fst (schedule p v k a u x d))"
    and mid: "\<And>x. safe_step A x (mid x)" and "i \<in> A"
    and "review digest schedule mid down lost t p i u Approve note d = (d', res)"
  shows "safe_step A d d'"
  using assms(4)
proof (cases rule: approve_cases)
  case refused
  have "safe_step A d (mark_stale j d)" for j
    unfolding mark_stale_def by (rule on_request_safe) (auto simp: stale_row_def live_request_def)
  moreover have "safe_step A d d'" if "requests d' = requests (mid d)"
    using safe_step_trans [OF mid safe_step_same [OF that]] .
  ultimately show ?thesis using refused(3) by (auto intro: safe_step_same)
next
  case (claimed r reviewer role d1 r1)
  have "rq_id r = i"
    using claimed(1) by (auto simp: authorised_def find_request_def dest: find_first_Some split: option.splits)
  with assms(3) have r: "rq_id r \<in> A" by simp
  have "safe_step A (mid d) (fst (on_request (rq_id r) (reviewed_row RqApproving reviewer note t) (mid d)))"
    by (rule on_request_safe) (auto simp: reviewed_row_def live_request_def)
  with claimed(4) have "safe_step A (mid d) d1" by simp
  with mid have s1: "safe_step A d d1" by (rule safe_step_trans)
  obtain d2 o2 where pub: "publish_approved schedule down lost p r u role d1 = (d2, o2)" by fastforce
  have s2: "safe_step A d d2" by (rule safe_step_trans [OF s1 publish_safe [OF sched r pub]])
  have "d' = approval_failed down r u e d2 \<or> d' = fst (latest digest down p u d2)" if "o2 = Inl e \<or> o2 = Inr ()" for e
    using claimed(5) pub that by (auto dest: arg_cong [where f = fst])
  then have "(\<exists>e. d' = approval_failed down r u e d2) \<or> d' = fst (latest digest down p u d2)"
    by (cases o2) auto
  then show ?thesis
    using safe_step_trans [OF s2 approval_failed_step] safe_step_trans [OF s2 latest_safe] by metis
qed

lemma reject_safe:
  "safe_step A d (fst (review digest schedule (\<lambda>x. x) down lost t p i u Reject note d))"
proof (cases "review digest schedule (\<lambda>x. x) down lost t p i u Reject note d")
  case (Pair d' res)
  have step: "safe_step A d (fst (on_request j (reviewed_row RqRejected x note t) d))" for j x
    by (rule on_request_safe) (auto simp: reviewed_row_def live_request_def)
  have "requests d' = requests d \<or> (\<exists>j x d2. requests d2 = requests (fst (on_request j (reviewed_row RqRejected x note t) d)) \<and>
      (d' = d2 \<or> d' = fst (latest digest down p u d2)))"
    using Pair
    by (auto simp: review_def split: sum.splits option.splits prod.splits if_splits
        dest: record_request_frame) (metis fst_conv record_request_frame)+
  then show ?thesis
    unfolding Pair using step safe_step_same safe_step_trans latest_safe by (metis fst_conv)
qed

text \<open>
  What the handlers of other replicas may commit between two statements of a handler: any statement
  of any of them. Only the update that publishes an approval has no condition on the status.
\<close>

inductive request_stmt :: "string set \<Rightarrow> db \<Rightarrow> db \<Rightarrow> bool" for A where
  st_stale: "set from_states \<subseteq> {RqPending, RqApproving} \<Longrightarrow>
    request_stmt A d (fst (on_request j (stale_row from_states n) d))"
| st_review: "request_stmt A d (fst (on_request j (reviewed_row s x n t) d))"
| st_cancel: "request_stmt A d (fst (on_request j (cancel_row t) d))"
| st_reopen: "request_stmt A d (fst (on_request j (failed_approval_row b) d))"
| st_publish: "j \<in> A \<Longrightarrow> request_stmt A d (fst (on_request j (approved_row oid) d))"
| st_create: "transaction (replace_pending (new_request i t p actor x s)) d = (d', Inr ()) \<Longrightarrow>
    i \<notin> rq_id ` set (requests d) \<Longrightarrow> request_stmt A d d'"
| st_withdraw: "request_stmt A d (d\<lparr>requests := delete_many (\<lambda>y. rq_id y = i \<and> rq_status y = RqPending) (requests d)\<rparr>)"
| st_others: "requests d' = requests d \<Longrightarrow> request_stmt A d d'"

inductive request_stmts :: "string set \<Rightarrow> db \<Rightarrow> db \<Rightarrow> bool" for A where
  stmts_none: "request_stmts A d d"
| stmts_more: "request_stmts A d d' \<Longrightarrow> request_stmt A d' d'' \<Longrightarrow> request_stmts A d d''"

lemma request_stmt_safe: "request_stmt A d d' \<Longrightarrow> safe_step A d d'"
proof (induction rule: request_stmt.induct)
  case (st_stale fs d j n)
  then show ?case by (intro on_request_safe) (auto simp: stale_row_def live_request_def)
next
  case (st_review d j s x n t)
  then show ?case by (intro on_request_safe) (auto simp: reviewed_row_def live_request_def)
next
  case (st_cancel d j t)
  then show ?case by (intro on_request_safe) (auto simp: cancel_row_def live_request_def)
next
  case (st_create i t p actor x s d d')
  then show ?case by (auto simp: transaction_Inr new_request_def dest!: replace_pending_safe)
qed (auto intro: approval_failed_safe approved_safe delete_pending_safe safe_step_same)

lemma request_stmts_safe: "request_stmts A d d' \<Longrightarrow> safe_step A d d'"
  by (induction rule: request_stmts.induct)
    (auto intro: safe_step_same safe_step_trans request_stmt_safe)

text \<open>
  Calls of the handlers. What others commit before an approval claims its request, and while it
  schedules, are any of their statements.
\<close>

inductive request_call :: "string set \<Rightarrow> db \<Rightarrow> db \<Rightarrow> bool" for A where
  rc_create: "i \<notin> rq_id ` set (requests d) \<Longrightarrow>
    request_call A d (fst (create_request digest down i t p u x d))"
| rc_latest: "request_call A d (fst (latest digest down p u d))"
| rc_cancel: "request_call A d (fst (cancel_request digest down t p i u d))"
| rc_reject: "request_call A d (fst (review digest schedule (\<lambda>x. x) down lost t p i u Reject nt d))"
| rc_approve: "i \<in> A \<Longrightarrow> (\<And>x. request_stmts A x (mid x)) \<Longrightarrow>
    (\<And>p v k a u x d. request_stmts A d (fst (schedule p v k a u x d))) \<Longrightarrow>
    request_call A d (fst (review digest schedule mid down lost t p i u Approve nt d))"
| rc_stmt: "request_stmt A d d' \<Longrightarrow> request_call A d d'"

inductive request_calls :: "string set \<Rightarrow> db \<Rightarrow> db \<Rightarrow> bool" for A where
  rs_none: "request_calls A d d"
| rs_call: "request_calls A d d' \<Longrightarrow> request_call A d' d'' \<Longrightarrow> request_calls A d d''"

lemma request_call_safe: "request_call A d d' \<Longrightarrow> safe_step A d d'"
proof (induction rule: request_call.induct)
  case (rc_approve i mid schedule d digest down lost t p u nt)
  show ?case
    by (rule approve_safe [OF _ _ rc_approve(1) surjective_pairing])
      (use rc_approve(2,3) request_stmts_safe in blast)+
qed (auto intro: create_request_safe latest_safe cancel_request_safe reject_safe request_stmt_safe)

lemma request_calls_safe: "request_calls A d d' \<Longrightarrow> safe_step A d d'"
  by (induction rule: request_calls.induct)
    (auto intro: safe_step_same safe_step_trans request_call_safe)

section \<open>Properties\<close>

text \<open>A ProdOnly project whose owner requested the newest build; an admin may review it.\<close>

definition ap_digest :: "json list \<Rightarrow> string" where
  "ap_digest xs = (if JStr ''sha'' \<in> set xs then ''token'' else ''other'')"

definition ap_request :: request_row where
  "ap_request = \<lparr>rq_id = ''r'', rq_workspaceId = ''w'', rq_projectId = ''p'', rq_projectName = ''p'',
     rq_environmentId = ''e'', rq_requestedById = Some ''o'', rq_requestedByUsername = ''owner'',
     rq_requestedByDisplayName = None, rq_reviewedById = None, rq_reviewedByUsername = None,
     rq_reviewedByDisplayName = None, rq_reviewedAt = None, rq_kind = RkPromote, rq_status = RqPending,
     rq_sourceEnvironment = ''ci'', rq_candidateOperationId = None, rq_candidateStateToken = None,
     rq_version = ''v1'', rq_buildArtifactId = Some ''a'', rq_artifactDigest = Some ''sha'',
     rq_targetId = None, rq_allocationId = None, rq_targetName = ''docker'', rq_provider = Docker,
     rq_configRevision = 0, rq_targetRevision = None, rq_allocationRevision = None,
     rq_stateToken = ''token'', rq_policy = SeparateReviewer, rq_reviewNote = None,
     rq_operationId = None, rq_createdAt = 1\<rparr>"

definition ap_db :: db where
  "ap_db = sample_db\<lparr>
     users := [\<lparr>us_id = ''o'', us_username = ''owner'', us_email = None, us_name = None, us_platformAdmin = False\<rparr>,
               \<lparr>us_id = ''a'', us_username = ''ada'', us_email = None, us_name = None, us_platformAdmin = False\<rparr>],
     members := [\<lparr>mb_workspaceId = ''w'', mb_userId = ''o'', mb_role = Owner\<rparr>,
                 \<lparr>mb_workspaceId = ''w'', mb_userId = ''a'', mb_role = Admin\<rparr>],
     projects := [\<lparr>pj_id = ''p'', pj_name = ''p'', pj_workspaceId = ''w'', pj_preset = ProdOnly, pj_scmProvider = ''gitea'', pj_scmFullName = ''o/p'',
       pj_scmDefaultBranch = ''main'', pj_ciDeployTokenHash = None, pj_lastCommit = []\<rparr>],
     environments := [idle_environment\<lparr>en_name := Prod\<rparr>],
     artifacts := [\<lparr>ba_id = ''a'', ba_projectId = ''p'', ba_sourceProvider = ''gitea'', ba_providerArtifactId = ''1'',
       ba_commitSha = ''v1'', ba_digest = ''sha'', ba_providerRunId = ''1'', ba_storageKind = None,
       ba_storageRef = None, ba_sizeBytes = 1, ba_status = AfAvailable, ba_imageRef = None, ba_error = None, ba_owner = None,
       ba_generation = 0, ba_leaseExpiresAt = None, ba_updatedAt = 0, ba_createdAt = 0\<rparr>],
     requests := [ap_request]\<rparr>"

text \<open>
  C1: No deployment to production is scheduled without an authorised review. Unless there is a pending
  request of this project and workspace that the reviewer may maintain, that still matches the current
  production state, and that, under the separate-reviewer policy, somebody else requested, an
  approval fails, and it fails identically for every scheduler: the scheduler is never called.
\<close>

theorem no_production_without_authorised_review:
  assumes "\<nexists>r. authorised digest p i u d r"
  shows "\<exists>d' e. \<forall>schedule. review digest schedule mid down lost t p i u Approve note d = (d', Inl e)"
proof -
  obtain d' res where run: "review digest (\<lambda>_ _ _ _ _ _ x. (x, Inl (NotFound []))) mid down lost t p i u Approve note d = (d', res)"
    by fastforce
  then show ?thesis
  proof (cases rule: approve_cases)
    case refused
    then show ?thesis by (cases res) auto
  next
    case (claimed r reviewer role d1 r1)
    with assms show ?thesis by blast
  qed
qed

lemmas ap_eval = require_project_def project_by_id_def role_for_def membership_def can_def
  find_request_def current_policy_def workspace_by_id_def ap_db_def ap_request_def sample_defs idle_defs

theorem no_production_without_authorised_review_witness:
  "\<exists>d' e. \<forall>schedule. review ap_digest schedule (\<lambda>x. x) (\<lambda>_. False) False 5 ''p'' ''r'' ''o'' Approve None ap_db = (d', Inl e)"
proof (rule no_production_without_authorised_review)
  show "\<nexists>r. authorised ap_digest ''p'' ''r'' ''o'' ap_db r"
    by (simp add: authorised_def ap_eval)
qed

text \<open>
  C2: What an approval publishes is what was requested. If an approval succeeds on a request whose state
  token is the digest of its own columns (as every created request's is), and the digest has no
  collision on it, then at the review the project's production candidate and environment are those
  of the request: same version, artifact, artifact digest, target, access, configuration revision and
  revisions; and the deployment was scheduled with exactly these values.
\<close>

theorem approval_publishes_what_was_requested:
  assumes "review digest schedule mid down lost t p i u Approve note d = (d', Inr v)"
    and "find_request p i d = Inr r" and "frozen digest r"
    and "\<And>xs. digest xs = digest (request_fields r) \<Longrightarrow> xs = request_fields r"
  shows "\<exists>s d1 d2 oid. production_snapshot digest p (input_of r) d = Inr s \<and>
    cd_version (sn_candidate s) = rq_version r \<and> cd_buildArtifactId (sn_candidate s) = rq_buildArtifactId r \<and>
    cd_artifactDigest (sn_candidate s) = rq_artifactDigest r \<and> sn_environmentId s = rq_environmentId r \<and>
    sn_targetId s = rq_targetId r \<and> sn_allocationId s = rq_allocationId r \<and>
    sn_configRevision s = rq_configRevision r \<and> sn_targetRevision s = rq_targetRevision r \<and>
    sn_allocationRevision s = rq_allocationRevision r \<and>
    schedule p (rq_version r) (rq_kind r) (rq_buildArtifactId r) u (expected_of r) d1 = (d2, Inr oid)"
  using assms(1)
proof (cases rule: approve_cases)
  case (claimed r' reviewer role d1 r1)
  from claimed(1) assms(2) have r': "r' = r" and match: "matches_current digest r d"
    by (auto simp: authorised_def)
  from assms(2) have p: "rq_projectId r = p"
    by (auto simp: find_request_def split: option.splits dest: find_first_Some)
  from match p obtain s where s: "production_snapshot digest p (input_of r) d = Inr s"
      "sn_stateToken s = rq_stateToken r"
    by (auto simp: matches_current_def split: sum.splits)
  from snapshot_token [OF s(1)] s(2) assms(3) have "digest (token_fields p s) = digest (request_fields r)"
    by (simp add: frozen_def)
  then have eq: "token_fields p s = request_fields r" by (rule assms(4))
  obtain d2 o2 where pub: "publish_approved schedule down lost p r u role d1 = (d2, o2)" by fastforce
  with claimed(5) r' have "o2 = Inr ()" by (cases o2) auto
  from pub [unfolded this] obtain d3 d4 oid where
    "schedule p (rq_version r) (rq_kind r) (rq_buildArtifactId r) u (expected_of r) d3 = (d4, Inr oid)"
    by (cases rule: publish_approved_cases) auto
  with s(1) eq show ?thesis by (auto simp: token_fields_def request_fields_def Let_def)
qed simp

definition ap_exact_digest :: "json list \<Rightarrow> string" where
  "ap_exact_digest xs = (if xs = request_fields ap_request then ''token'' else ''other'')"

lemma ap_snapshot: "\<exists>s. production_snapshot ap_exact_digest ''p'' (input_of ap_request) ap_db = Inr s \<and>
    sn_stateToken s = ''token''"
  by (simp add: production_snapshot_def candidate_for_def latest_artifact_def newest_first_def input_of_def
      production_source_stage_def previous_pipeline_stage_def environment_of_def target_by_id_def
      allocation_by_id_def token_fields_def request_fields_def ap_exact_digest_def ap_eval preset_stages.simps
      index_of.simps Let_def)

lemma ap_matches: "matches_current ap_exact_digest ap_request ap_db"
  using ap_snapshot by (auto simp: matches_current_def ap_request_def)

theorem approval_publishes_what_was_requested_witness:
  "\<exists>s. production_snapshot ap_exact_digest ''p'' (input_of ap_request) ap_db = Inr s \<and>
    cd_version (sn_candidate s) = ''v1''"
proof -
  let ?s = "\<lambda>_ _ _ _ _ _ x. (x, Inr ''op'') :: db \<times> string outcome"
  have "succeeds (snd (review ap_exact_digest ?s (\<lambda>x. x) (\<lambda>_. False) False 5 ''p'' ''r'' ''a'' Approve None ap_db))"
    using ap_matches
    by (simp add: review_def on_request_def update_row_def reviewed_row_def when_row_def publish_approved_def
        record_request_def approved_row_def latest_def latest_request_def newest_first_def optional_view_def
        request_view_of_def audit_eval ap_eval)
  then obtain v where v: "snd (review ap_exact_digest ?s (\<lambda>x. x) (\<lambda>_. False) False 5 ''p'' ''r'' ''a'' Approve None ap_db) = Inr v"
    by (auto simp: succeeds_iff)
  have run: "review ap_exact_digest ?s (\<lambda>x. x) (\<lambda>_. False) False 5 ''p'' ''r'' ''a'' Approve None ap_db =
      (fst (review ap_exact_digest ?s (\<lambda>x. x) (\<lambda>_. False) False 5 ''p'' ''r'' ''a'' Approve None ap_db), Inr v)"
    using v by (metis prod.collapse)
  have found: "find_request ''p'' ''r'' ap_db = Inr ap_request" by (simp add: ap_eval)
  have fz: "frozen ap_exact_digest ap_request" by (simp add: frozen_def ap_exact_digest_def ap_request_def)
  have free: "xs = request_fields ap_request" if "ap_exact_digest xs = ap_exact_digest (request_fields ap_request)" for xs
    using that by (auto simp: ap_exact_digest_def split: if_splits)
  from approval_publishes_what_was_requested [OF run found fz free]
  show ?thesis by (auto simp: ap_request_def)
qed



text \<open>
  An approval whose final update is rejected by the database reopens the request although the
  deployment is already scheduled: the operation of the scheduler stays, the request is pending again
  with its reviewer cleared and without the operation's id, so it can be approved a second time.
\<close>

theorem lost_approval_update_reopens_request:
  assumes "record_request down r (Some u) ''production.approval_accepted''
      [(''kind'', JStr (kind_str (rq_kind r))), (''environment'', JStr ''prod''),
       (''version'', JStr (rq_version r)), (''reviewerRole'', JStr (role_str role))] d = (d1, Inr ())"
    and "schedule p (rq_version r) (rq_kind r) (rq_buildArtifactId r) u (expected_of r) d1 = (d2, Inr oid)"
    and "request_by_id (rq_id r) d2 = Some x" and "rq_status x = RqApproving"
  shows "\<exists>e. publish_approved schedule down True p r u role d = (d2, Inl e) \<and>
    operations (approval_failed down r u e d2) = operations d2 \<and>
    (\<exists>y. request_by_id (rq_id r) (approval_failed down r u e d2) = Some y \<and> rq_status y = RqPending \<and>
       rq_reviewedById y = None \<and> rq_operationId y = rq_operationId x)"
proof -
  let ?e = "ServerError ''database unavailable''"
  obtain d3 o3 where on: "on_request (rq_id r) (failed_approval_row False) d2 = (d3, o3)" by fastforce
  have "failed_approval_row False x \<noteq> None" using assms(4) by (simp add: failed_approval_row_def)
  with on assms(3) obtain y where "o3 = Some y"
    by (cases o3) (auto simp: on_request_def update_row_def request_by_id_def split: option.splits prod.splits)
  with on have on': "on_request (rq_id r) (failed_approval_row False) d2 = (d3, Some y)" by simp
  then have "request_by_id (rq_id r) d3 = Some y \<and> (\<exists>z. request_by_id (rq_id r) d2 = Some z \<and> failed_approval_row False z = Some y)"
    by (rule on_request_found) (auto simp: failed_approval_row_def)
  then have y: "request_by_id (rq_id r) d3 = Some y" "rq_status y = RqPending" "rq_reviewedById y = None"
      "rq_operationId y = rq_operationId x"
    using assms(3) by (auto simp: failed_approval_row_def)
  have "operations d3 = operations d2" using on by (auto simp: on_request_def split: prod.splits)
  with assms(1,2) y on' show ?thesis
    by (intro exI [of _ ?e] conjI exI [of _ y])
      (simp_all add: publish_approved_def approval_failed_def Let_def request_by_id_def record_request_def)
qed

theorem lost_approval_update_reopens_request_witness:
  "\<exists>d' e y. publish_approved (\<lambda>_ _ _ _ _ _ x. (x, Inr ''op'')) (\<lambda>_. False) True ''p'' ap_request ''a'' Admin
      (ap_db\<lparr>requests := [ap_request\<lparr>rq_status := RqApproving\<rparr>]\<rparr>) = (d', Inl e) \<and>
    request_by_id ''r'' (approval_failed (\<lambda>_. False) ap_request ''a'' e d') = Some y \<and> rq_status y = RqPending"
proof -
  let ?d = "ap_db\<lparr>requests := [ap_request\<lparr>rq_status := RqApproving\<rparr>]\<rparr>"
  let ?ds = "[(''kind'', JStr (kind_str (rq_kind ap_request))), (''environment'', JStr ''prod''),
       (''version'', JStr (rq_version ap_request)), (''reviewerRole'', JStr (role_str Admin))]"
  let ?s = "\<lambda>_ _ _ _ _ _ x. (x, Inr ''op'') :: db \<times> string outcome"
  obtain d1 where rec: "record_request (\<lambda>_. False) ap_request (Some ''a'') ''production.approval_accepted'' ?ds ?d = (d1, Inr ())"
    by (simp add: record_request_def audit_eval ap_eval)
  then have "requests d1 = [ap_request\<lparr>rq_status := RqApproving\<rparr>]" by (simp add: record_request_frame)
  then have found: "request_by_id (rq_id ap_request) d1 = Some (ap_request\<lparr>rq_status := RqApproving\<rparr>)"
    by (simp add: request_by_id_def)
  have run: "?s ''p'' (rq_version ap_request) (rq_kind ap_request) (rq_buildArtifactId ap_request) ''a''
      (expected_of ap_request) d1 = (d1, Inr ''op'')" by simp
  have approving: "rq_status (ap_request\<lparr>rq_status := RqApproving\<rparr>) = RqApproving" by simp
  have id: "rq_id ap_request = ''r''" by (simp add: ap_request_def)
  from lost_approval_update_reopens_request [where schedule = ?s and p = "''p''" and oid = "''op''",
      OF rec run found approving, unfolded id]
  show ?thesis by blast
qed

end
