(* ===== verification/Provisioning.thy ===== *)
theory Provisioning
  imports Capacity AuditLog Lease
begin

text \<open>
  Provisioning of projects (\<open>projects/provisioning.service.ts\<close>): a durable operation with a
  process-scoped lease, and a write-ahead journal of its external effects. An interrupted operation
  is never blindly retried: an effect that may have been applied must first be cleaned up.

  \<open>me\<close> is the instance id of the API process, \<open>t\<close> the current time, \<open>down\<close> whether the
  audit log is unavailable. Every database statement is atomic; a method is the sequence of its
  statements.
\<close>

definition prov_lease_ms :: int where "prov_lease_ms = 5 * 60 * 1000"
definition max_attempts :: nat where "max_attempts = 5"

definition retry_safe_effect :: "effect_status \<Rightarrow> bool" where
  "retry_safe_effect s = (s \<in> {FxPlanned, FxCompensated})"

definition cleanup_effect :: "effect_status \<Rightarrow> bool" where
  "cleanup_effect s =
     (s \<in> {FxApplying, FxApplied, FxFailed, FxCompensationFailed, FxReconciliationRequired})"

record start_options =
  so_requestedById :: string
  so_request :: json
  so_retryOfId :: "string option"
  so_attempt :: "nat option"

section \<open>Statements on an operation\<close>

definition provisioning_by_id :: "string \<Rightarrow> db \<Rightarrow> provisioning_row option" where
  "provisioning_by_id i d = find_first (\<lambda>r. pv_id r = i) (provisionings d)"

definition on_provisioning ::
  "string \<Rightarrow> (provisioning_row \<Rightarrow> provisioning_row option) \<Rightarrow> db \<Rightarrow> db \<times> provisioning_row option" where
  "on_provisioning i f d = (case update_row pv_id i f (provisionings d) of
      (rows, res) \<Rightarrow> (d\<lparr>provisionings := rows\<rparr>, res))"

definition pv_renew_row :: "string \<Rightarrow> instant \<Rightarrow> provisioning_row \<Rightarrow> provisioning_row option" where
  "pv_renew_row me t = when_row (\<lambda>r. pv_status r = PvRunning \<and> pv_leaseOwner r = Some me)
     (\<lambda>r. r\<lparr>pv_leaseExpiresAt := Some (t + prov_lease_ms)\<rparr>)"

definition retired_row :: "string \<Rightarrow> provisioning_row \<Rightarrow> provisioning_row option" where
  "retired_row me = when_row (\<lambda>r. pv_status r = PvRetrying \<and> pv_leaseOwner r = Some me)
     (\<lambda>r. r\<lparr>pv_status := PvRetried, pv_message := Some ''A newer attempt has been started'',
            pv_leaseOwner := None, pv_leaseExpiresAt := None\<rparr>)"

definition claim_pv_row ::
  "prov_status \<Rightarrow> string \<Rightarrow> string \<Rightarrow> instant \<Rightarrow> provisioning_row \<Rightarrow> provisioning_row option" where
  "claim_pv_row s m me t = when_row (\<lambda>r. pv_status r \<in> {PvFailed, PvInterrupted})
     (\<lambda>r. r\<lparr>pv_status := s, pv_message := Some m, pv_leaseOwner := Some me,
            pv_leaseExpiresAt := Some (t + prov_lease_ms)\<rparr>)"

definition release_pv_row ::
  "prov_status \<Rightarrow> string \<Rightarrow> string \<Rightarrow> provisioning_row \<Rightarrow> provisioning_row option" where
  "release_pv_row s m me = when_row (\<lambda>r. pv_status r = s \<and> pv_leaseOwner r = Some me)
     (\<lambda>r. r\<lparr>pv_status := PvFailed, pv_message := Some m, pv_leaseOwner := None,
            pv_leaseExpiresAt := None\<rparr>)"

definition stale_pv :: "instant \<Rightarrow> provisioning_row \<Rightarrow> bool" where
  "stale_pv now r = (pv_status r \<in> {PvRunning, PvCleaning, PvRetrying} \<and>
     (case pv_leaseExpiresAt r of
        Some x \<Rightarrow> x < now
      | None \<Rightarrow> pv_createdAt r < now - prov_lease_ms))"

definition interrupt_row :: "instant \<Rightarrow> provisioning_row \<Rightarrow> provisioning_row option" where
  "interrupt_row now = when_row (stale_pv now)
     (\<lambda>r. r\<lparr>pv_status := PvInterrupted,
            pv_message := Some ''The API process stopped before provisioning completed; reconciliation is required'',
            pv_finishedAt := Some now, pv_leaseOwner := None, pv_leaseExpiresAt := None\<rparr>)"

definition succeed_row :: "instant \<Rightarrow> string option \<Rightarrow> provisioning_row \<Rightarrow> provisioning_row option" where
  "succeed_row t p = when_row (\<lambda>r. True)
     (\<lambda>r. r\<lparr>pv_status := PvSucceeded, pv_step := SpDone, pv_finishedAt := Some t, pv_leaseOwner := None,
            pv_leaseExpiresAt := None, pv_projectId := (if truthy p then p else pv_projectId r)\<rparr>)"

definition fail_row :: "instant \<Rightarrow> string \<Rightarrow> provisioning_row \<Rightarrow> provisioning_row option" where
  "fail_row t m = when_row (\<lambda>r. True)
     (\<lambda>r. r\<lparr>pv_status := PvFailed, pv_message := Some (take 500 m), pv_finishedAt := Some t,
            pv_leaseOwner := None, pv_leaseExpiresAt := None\<rparr>)"

section \<open>Statements on an effect\<close>

definition fx_ident :: "effect_row \<Rightarrow> string \<times> string" where
  "fx_ident e = (fx_operationId e, fx_key e)"

definition transition_row ::
  "effect_status list \<Rightarrow> (effect_row \<Rightarrow> effect_row) \<Rightarrow> effect_row \<Rightarrow> effect_row option" where
  "transition_row from_states f = when_row (\<lambda>e. fx_status e \<in> set from_states) f"

definition transition_effect ::
  "string \<Rightarrow> string \<Rightarrow> effect_status list \<Rightarrow> (effect_row \<Rightarrow> effect_row) \<Rightarrow> db \<Rightarrow> db \<times> unit outcome" where
  "transition_effect i k from_states f d =
     (case update_row fx_ident (i, k) (transition_row from_states f) (effects d) of
        (rows, None) \<Rightarrow> (d\<lparr>effects := rows\<rparr>, Inl (ServerError (''Provisioning effect '' @ [CHR 0x27] @ k @
            [CHR 0x27] @ '' is not in the expected state'')))
      | (rows, Some _) \<Rightarrow> (d\<lparr>effects := rows\<rparr>, Inr ()))"

definition metadata_or :: "json option \<Rightarrow> effect_row \<Rightarrow> json option" where
  "metadata_or m e = (case m of None \<Rightarrow> fx_metadata e | Some x \<Rightarrow> Some x)"

definition plan_effect :: "string \<Rightarrow> string \<Rightarrow> effect_kind \<Rightarrow> json option \<Rightarrow> instant \<Rightarrow> db \<Rightarrow> db \<times> unit outcome" where
  "plan_effect i k kind m t d =
     (if list_ex (\<lambda>e. fx_ident e = (i, k)) (effects d) then (d, Inl (ServerError ''P2002''))
      else (d\<lparr>effects := create \<lparr>fx_operationId = i, fx_key = k, fx_kind = kind, fx_status = FxPlanned,
               fx_metadata = m, fx_error = None, fx_createdAt = t, fx_appliedAt = None,
               fx_compensatedAt = None\<rparr> (effects d)\<rparr>, Inr ()))"

definition renew_lease :: "string \<Rightarrow> instant \<Rightarrow> string \<Rightarrow> db \<Rightarrow> db \<times> unit outcome" where
  "renew_lease me t i d = (case on_provisioning i (pv_renew_row me t) d of
      (d', None) \<Rightarrow> (d', Inl (Conflict ''Provisioning lease was lost''))
    | (d', Some _) \<Rightarrow> (d', Inr ()))"

text \<open>\<open>mid\<close> is what others commit between the renewal of the lease and the transition.\<close>

definition begin_effect ::
  "(db \<Rightarrow> db) \<Rightarrow> string \<Rightarrow> instant \<Rightarrow> string \<Rightarrow> string \<Rightarrow> db \<Rightarrow> db \<times> unit outcome" where
  "begin_effect mid me t i k d = (case renew_lease me t i d of
      (d1, Inl e) \<Rightarrow> (d1, Inl e)
    | (d1, Inr _) \<Rightarrow> transition_effect i k [FxPlanned]
        (\<lambda>e. e\<lparr>fx_status := FxApplying, fx_error := None\<rparr>) (mid d1))"

definition complete_effect ::
  "string \<Rightarrow> instant \<Rightarrow> string \<Rightarrow> string \<Rightarrow> json option \<Rightarrow> db \<Rightarrow> db \<times> unit outcome" where
  "complete_effect me t i k m d =
     (case transition_effect i k [FxApplying]
         (\<lambda>e. e\<lparr>fx_status := FxApplied, fx_appliedAt := Some t, fx_metadata := metadata_or m e\<rparr>) d of
        (d1, Inl e) \<Rightarrow> (d1, Inl e)
      | (d1, Inr _) \<Rightarrow> renew_lease me t i d1)"

definition fail_effect :: "string \<Rightarrow> string \<Rightarrow> string \<Rightarrow> db \<Rightarrow> db \<times> unit outcome" where
  "fail_effect i k err = transition_effect i k [FxPlanned, FxApplying]
     (\<lambda>e. e\<lparr>fx_status := FxFailed, fx_error := Some (take 500 err)\<rparr>)"

definition compensate_effect :: "instant \<Rightarrow> string \<Rightarrow> string \<Rightarrow> db \<Rightarrow> db \<times> unit outcome" where
  "compensate_effect t i k = transition_effect i k
     [FxPlanned, FxApplying, FxApplied, FxFailed, FxCompensationFailed, FxReconciliationRequired]
     (\<lambda>e. e\<lparr>fx_status := FxCompensated, fx_compensatedAt := Some t, fx_error := None\<rparr>)"

definition compensation_failed :: "string \<Rightarrow> string \<Rightarrow> string \<Rightarrow> db \<Rightarrow> db \<times> unit outcome" where
  "compensation_failed i k err = transition_effect i k
     [FxApplying, FxApplied, FxFailed, FxCompensationFailed, FxReconciliationRequired]
     (\<lambda>e. e\<lparr>fx_status := FxCompensationFailed, fx_error := Some (take 500 err)\<rparr>)"

section \<open>Starting\<close>

definition new_provisioning ::
  "string \<Rightarrow> string \<Rightarrow> instant \<Rightarrow> string \<Rightarrow> string \<Rightarrow> prov_kind \<Rightarrow> start_options option \<Rightarrow> provisioning_row" where
  "new_provisioning i me t w nm kind opts =
     \<lparr>pv_id = i, pv_workspaceId = w, pv_projectId = None, pv_projectName = nm, pv_kind = kind,
      pv_status = PvRunning, pv_step = SpValidate, pv_message = None,
      pv_requestedById = map_option so_requestedById opts, pv_request = map_option so_request opts,
      pv_retryOfId = Option.bind opts so_retryOfId,
      pv_attempt = (case Option.bind opts so_attempt of None \<Rightarrow> 1 | Some n \<Rightarrow> n),
      pv_leaseOwner = Some me, pv_leaseExpiresAt = Some (t + prov_lease_ms),
      pv_createdAt = t, pv_finishedAt = None\<rparr>"

definition retry_of :: "start_options option \<Rightarrow> string option" where
  "retry_of opts = (let o' = Option.bind opts so_retryOfId in if truthy o' then o' else None)"

definition start_guard :: "string \<Rightarrow> string \<Rightarrow> string option \<Rightarrow> db \<Rightarrow> unit outcome" where
  "start_guard me w retry d =
     (case assert_available w CapConcurrentOperations 1 retry d of
        Inl e \<Rightarrow> Inl e
      | Inr _ \<Rightarrow> (case retry of
          None \<Rightarrow> Inr ()
        | Some p \<Rightarrow>
            if map_option (\<lambda>r. retired_row me r \<noteq> None) (provisioning_by_id p d) = Some True then Inr ()
            else Inl (Conflict ''Retry ownership was lost'')))"

definition start_write :: "string \<Rightarrow> provisioning_row \<Rightarrow> string option \<Rightarrow> db \<Rightarrow> db" where
  "start_write me r retry d =
     (let d1 = d\<lparr>provisionings := create r (provisionings d)\<rparr> in
      case retry of None \<Rightarrow> d1 | Some p \<Rightarrow> fst (on_provisioning p (retired_row me) d1))"

definition start_tx :: "string \<Rightarrow> string \<Rightarrow> provisioning_row \<Rightarrow> string option \<Rightarrow> db \<Rightarrow> db \<times> unit outcome" where
  "start_tx me w r retry d = (case start_guard me w retry d of
      Inl e \<Rightarrow> (d, Inl e)
    | Inr _ \<Rightarrow> (start_write me r retry d, Inr ()))"

definition start_audit :: "string \<Rightarrow> provisioning_row \<Rightarrow> audit_input" where
  "start_audit i r = \<lparr>ai_workspaceId = Some (pv_workspaceId r), ai_actorUserId = pv_requestedById r,
     ai_anonymous = False, ai_action = provisioning_action (pv_kind r) Requested,
     ai_outcome = Some AoAccepted, ai_resourceType = ''project'', ai_resourceId = None,
     ai_resourceName = Some (pv_projectName r), ai_operation = Some (AtProvisioning, i),
     ai_details = Some [(''kind'', JStr (prov_kind_str (pv_kind r))), (''attempt'', JNum (int (pv_attempt r)))]\<rparr>"

definition prov_start ::
  "(nat \<Rightarrow> (db \<Rightarrow> db) option) \<Rightarrow> bool \<Rightarrow> string \<Rightarrow> string \<Rightarrow> instant \<Rightarrow> string \<Rightarrow> string \<Rightarrow> prov_kind
     \<Rightarrow> start_options option \<Rightarrow> db \<Rightarrow> db \<times> string outcome" where
  "prov_start c down me i t w nm kind opts d =
     (let r = new_provisioning i me t w nm kind opts in
      case serializable_capacity_transaction c (start_tx me w r (retry_of opts)) d of
        (d1, Inl e) \<Rightarrow> (d1, Inl e)
      | (d1, Inr _) \<Rightarrow> (case audit_record down (start_audit i r) d1 of
          (d2, Inl e) \<Rightarrow>
            (fst (on_provisioning i (when_row (\<lambda>x. True) (\<lambda>x. x\<lparr>pv_status := PvFailed,
               pv_message := Some ''Provisioning could not be recorded in the audit log'',
               pv_finishedAt := Some t, pv_leaseOwner := None, pv_leaseExpiresAt := None\<rparr>)) d2), Inl e)
        | (d2, Inr _) \<Rightarrow> (d2, Inr i)))"

section \<open>Progress and completion\<close>

definition required :: "db \<times> 'r option \<Rightarrow> db \<times> unit outcome" where
  "required p = (case p of (d, None) \<Rightarrow> (d, Inl (ServerError ''P2025'')) | (d, Some _) \<Rightarrow> (d, Inr ()))"

definition bind_project :: "string \<Rightarrow> string \<Rightarrow> db \<Rightarrow> db \<times> unit outcome" where
  "bind_project i p d = required (on_provisioning i (when_row (\<lambda>r. True) (\<lambda>r. r\<lparr>pv_projectId := Some p\<rparr>)) d)"

definition unbind_project :: "string \<Rightarrow> db \<Rightarrow> db \<times> unit outcome" where
  "unbind_project i d = required (on_provisioning i (when_row (\<lambda>r. True) (\<lambda>r. r\<lparr>pv_projectId := None\<rparr>)) d)"

definition prov_step_to :: "instant \<Rightarrow> string \<Rightarrow> prov_step \<Rightarrow> db \<Rightarrow> db" where
  "prov_step_to t i s d = fst (on_provisioning i (when_row (\<lambda>r. True)
     (\<lambda>r. r\<lparr>pv_step := s, pv_leaseExpiresAt := Some (t + prov_lease_ms)\<rparr>)) d)"

definition record_prov_safely :: "bool \<Rightarrow> string \<Rightarrow> db \<Rightarrow> db" where
  "record_prov_safely down i d = record_safely (record_provisioning_result down i) d"

definition prov_succeed :: "bool \<Rightarrow> instant \<Rightarrow> string \<Rightarrow> string option \<Rightarrow> db \<Rightarrow> db" where
  "prov_succeed down t i p d = (case on_provisioning i (succeed_row t p) d of
      (d1, None) \<Rightarrow> d1 | (d1, Some _) \<Rightarrow> record_prov_safely down i d1)"

definition prov_fail :: "bool \<Rightarrow> instant \<Rightarrow> string \<Rightarrow> string \<Rightarrow> db \<Rightarrow> db" where
  "prov_fail down t i m d = (case on_provisioning i (fail_row t m) d of
      (d1, None) \<Rightarrow> d1 | (d1, Some _) \<Rightarrow> record_prov_safely down i d1)"

section \<open>Retry and cleanup\<close>

definition claim_retry :: "string \<Rightarrow> instant \<Rightarrow> string \<Rightarrow> db \<Rightarrow> db \<times> unit outcome" where
  "claim_retry me t i d = (case on_provisioning i (claim_pv_row PvRetrying ''Retry requested'' me t) d of
      (d1, None) \<Rightarrow> (d1, Inl (Conflict ''This provisioning operation is no longer retryable''))
    | (d1, Some _) \<Rightarrow> (d1, Inr ()))"

definition release_retry :: "string \<Rightarrow> string \<Rightarrow> db \<Rightarrow> db" where
  "release_retry me i d =
     fst (on_provisioning i (release_pv_row PvRetrying ''Retry could not be started'' me) d)"

definition claim_cleanup :: "string \<Rightarrow> instant \<Rightarrow> string \<Rightarrow> db \<Rightarrow> db \<times> unit outcome" where
  "claim_cleanup me t i d =
     (case on_provisioning i (claim_pv_row PvCleaning ''Provisioning cleanup is running'' me t) d of
        (d1, None) \<Rightarrow> (d1, Inl (Conflict ''This provisioning cleanup is already running''))
      | (d1, Some _) \<Rightarrow> (d1, Inr ()))"

definition release_cleanup :: "string \<Rightarrow> string \<Rightarrow> string \<Rightarrow> db \<Rightarrow> db" where
  "release_cleanup me i m d = fst (on_provisioning i (release_pv_row PvCleaning (take 500 m) me) d)"

definition cleanup_finished :: "string \<Rightarrow> db \<Rightarrow> db \<times> unit outcome" where
  "cleanup_finished i d = required (on_provisioning i (when_row (\<lambda>r. True)
     (\<lambda>r. r\<lparr>pv_status := PvFailed, pv_message := Some ''Cleanup completed; this operation is safe to retry'',
            pv_leaseOwner := None, pv_leaseExpiresAt := None\<rparr>)) d)"

definition is_retryable :: "provisioning_row \<Rightarrow> effect_row list \<Rightarrow> string \<Rightarrow> bool" where
  "is_retryable r fxs u = (pv_status r \<in> {PvFailed, PvInterrupted} \<and> pv_requestedById r = Some u \<and>
     pv_request r \<noteq> None \<and> pv_attempt r < max_attempts \<and>
     list_all (\<lambda>e. retry_safe_effect (fx_status e)) fxs)"

definition needs_cleanup :: "provisioning_row \<Rightarrow> effect_row list \<Rightarrow> bool" where
  "needs_cleanup r fxs = (pv_status r \<in> {PvFailed, PvInterrupted} \<and>
     list_ex (\<lambda>e. cleanup_effect (fx_status e)) fxs)"

section \<open>Reconciliation of dead processes\<close>

definition reconcile_effects :: "string \<Rightarrow> db \<Rightarrow> db" where
  "reconcile_effects i d = d\<lparr>effects :=
     rewrite (\<lambda>e. fx_operationId e = i \<and> fx_status e = FxApplying)
       (\<lambda>e. e\<lparr>fx_status := FxReconciliationRequired,
              fx_error := Some ''The process stopped while this external effect may have been applied''\<rparr>)
       (effects d)\<rparr>"

definition reconcile_one :: "bool \<Rightarrow> instant \<Rightarrow> string \<Rightarrow> db \<times> nat \<Rightarrow> db \<times> nat" where
  "reconcile_one down now i st = (case st of (d, n) \<Rightarrow>
     (case on_provisioning i (interrupt_row now) d of
        (d1, None) \<Rightarrow> (d1, n)
      | (d1, Some _) \<Rightarrow> (record_prov_safely down i (reconcile_effects i d1), n + 1)))"

definition reconcile_stale :: "bool \<Rightarrow> instant \<Rightarrow> db \<Rightarrow> db \<times> nat" where
  "reconcile_stale down now d =
     fold (reconcile_one down now) (map pv_id (filter (stale_pv now) (provisionings d))) (d, 0)"

section \<open>Views\<close>

definition effects_of :: "string \<Rightarrow> db \<Rightarrow> effect_row list" where
  "effects_of i d = sort_key fx_createdAt (filter (\<lambda>e. fx_operationId e = i) (effects d))"

record prov_view =
  vw_row :: provisioning_row
  vw_canRetry :: bool
  vw_needsCleanup :: bool
  vw_effects :: "effect_row list"

definition to_view :: "provisioning_row \<Rightarrow> string option \<Rightarrow> db \<Rightarrow> prov_view" where
  "to_view r u d = (let fxs = effects_of (pv_id r) d in
     \<lparr>vw_row = r, vw_canRetry = (if truthy u then is_retryable r fxs (the u) else False),
      vw_needsCleanup = needs_cleanup r fxs, vw_effects = fxs\<rparr>)"

definition latest_for_project :: "bool \<Rightarrow> instant \<Rightarrow> string \<Rightarrow> db \<Rightarrow> db \<times> prov_view option" where
  "latest_for_project down now p d = (let d1 = fst (reconcile_stale down now d) in
     (d1, map_option (\<lambda>r. to_view r None d1) (find_first (\<lambda>_. True)
        (newest_first pv_createdAt (filter (\<lambda>r. pv_projectId r = Some p) (provisionings d1))))))"

definition list_workspace :: "bool \<Rightarrow> instant \<Rightarrow> string \<Rightarrow> string \<Rightarrow> db \<Rightarrow> db \<times> prov_view list" where
  "list_workspace down now w u d = (let d1 = fst (reconcile_stale down now d) in
     (d1, map (\<lambda>r. to_view r (Some u) d1)
        (take 20 (newest_first pv_createdAt (filter (\<lambda>r. pv_workspaceId r = w) (provisionings d1))))))"

definition prov_record :: "bool \<Rightarrow> instant \<Rightarrow> string \<Rightarrow> db \<Rightarrow> db \<times> (provisioning_row \<times> effect_row list) outcome" where
  "prov_record down now i d = (let d1 = fst (reconcile_stale down now d) in
     (d1, case provisioning_by_id i d1 of
        None \<Rightarrow> Inl (NotFound (''Provisioning operation '' @ [CHR 0x27] @ i @ [CHR 0x27] @ '' not found''))
      | Some r \<Rightarrow> Inr (r, effects_of i d1)))"

section \<open>The quota of concurrent operations\<close>

definition prov_count :: "string \<Rightarrow> string option \<Rightarrow> db \<Rightarrow> nat" where
  "prov_count w x d = capacity_used w CapConcurrentOperations x d"

definition prov_limit :: "string \<Rightarrow> db \<Rightarrow> nat option" where
  "prov_limit w d = map_option (\<lambda>x. capacity_limit x CapConcurrentOperations) (workspace_by_id w d)"

lemma start_guard_Inr:
  "start_guard me w retry d = Inr u \<Longrightarrow> assert_available w CapConcurrentOperations 1 retry d = Inr ()"
  by (auto simp: start_guard_def split: sum.splits)

lemma start_write_frame:
  "operations (start_write me r retry d) = operations d"
  "environments (start_write me r retry d) = environments d"
  "projects (start_write me r retry d) = projects d"
  "workspaces (start_write me r retry d) = workspaces d"
  by (auto simp: start_write_def Let_def on_provisioning_def split: option.splits prod.splits)

lemma count_update_row_le:
  assumes "\<And>r r'. f r = Some r' \<Longrightarrow> \<not> p r'"
  shows "count_where p (fst (update_row k i f t)) \<le> count_where p t"
proof (cases "find_first (\<lambda>r. k r = i) t")
  case None
  then show ?thesis by (simp add: update_row_def)
next
  case (Some r)
  show ?thesis
  proof (cases "f r")
    case None
    with Some show ?thesis by (simp add: update_row_def)
  next
    case (Some r')
    have "count_where p (rewrite (\<lambda>x. k x = i) (\<lambda>_. r') t) \<le> count_where p t"
      by (rule count_where_rewrite_le) (use assms Some in auto)
    with Some \<open>find_first (\<lambda>r. k r = i) t = Some r\<close> show ?thesis by (simp add: update_row_def)
  qed
qed

lemma start_write_count: "prov_count w x (start_write me r retry d) \<le> prov_count w x d + 1"
proof -
  define p :: "provisioning_row \<Rightarrow> bool" where "p = (\<lambda>r. pv_workspaceId r = w \<and> active_provisioning (pv_status r) \<and> Some (pv_id r) \<noteq> x)"
  have "count_where p (provisionings (start_write me r retry d)) \<le> count_where p (create r (provisionings d))"
  proof (cases retry)
    case None
    then show ?thesis by (simp add: start_write_def)
  next
    case (Some i)
    have "count_where p (fst (update_row pv_id i (retired_row me) (create r (provisionings d)))) \<le>
        count_where p (create r (provisionings d))"
      by (rule count_update_row_le) (auto simp: retired_row_def p_def active_provisioning_def)
    with Some show ?thesis
      by (cases "update_row pv_id i (retired_row me) (create r (provisionings d))")
        (simp add: start_write_def Let_def on_provisioning_def)
  qed
  then have "running_provisionings w x (start_write me r retry d) \<le> running_provisionings w x d + 1"
    by (auto simp: running_provisionings_def p_def create_def split: if_splits)
  moreover have "running_deployments w (start_write me r retry d) = running_deployments w d"
    by (simp add: running_deployments_def environment_workspace_def environment_by_id_def
        project_by_id_def start_write_frame)
  ultimately show ?thesis by (simp add: prov_count_def)
qed

interpretation prov_quota: quota_guard "prov_count w retry" "prov_limit w" "start_guard me w retry"
  "start_write me r retry" for w retry me r
proof unfold_locales
  fix d
  assume "start_guard me w retry d = Inr ()"
  from start_guard_Inr [OF this] show "\<exists>l. prov_limit w d = Some l \<and> prov_count w retry d + 1 \<le> l"
    by (auto simp: assert_available_iff prov_limit_def prov_count_def)
next
  fix d
  show "prov_count w retry (start_write me r retry d) \<le> prov_count w retry d + 1"
    by (rule start_write_count)
next
  fix d
  show "prov_limit w (start_write me r retry d) = prov_limit w d"
    by (simp add: prov_limit_def workspace_by_id_def start_write_frame)
qed

text \<open>A retried operation is no longer active, so excluding it makes no difference afterwards.\<close>

lemma retired_not_counted:
  assumes "keyed pv_id (provisionings d)" and "pv_id r \<notin> pv_id ` set (provisionings d)"
    and "retry = Some p" and "start_guard me w retry d = Inr ()"
  shows "prov_count w None (start_write me r retry d) = prov_count w retry (start_write me r retry d)"
proof -
  obtain x where x: "provisioning_by_id p d = Some x" "retired_row me x \<noteq> None"
    using assms(3,4) by (auto simp: start_guard_def split: sum.splits if_splits)
  then have found: "find_first (\<lambda>y. pv_id y = p) (create r (provisionings d)) = Some x"
    by (simp add: find_first_create provisioning_by_id_def)
  obtain x' where x': "retired_row me x = Some x'" using x(2) by blast
  have key: "keyed pv_id (create r (provisionings d))"
    using assms(1,2) by (simp add: keyed_create)
  have new: "provisionings (start_write me r retry d) = rewrite (\<lambda>y. pv_id y = p) (\<lambda>_. x') (create r (provisionings d))"
    using assms(3) found x' by (simp add: start_write_def Let_def on_provisioning_def update_row_def)
  have "\<not> (active_provisioning (pv_status y) \<and> pv_id y = p)"
    if "y \<in> set (provisionings (start_write me r retry d))" for y
    using that x' unfolding new
    by (auto simp: set_rewrite retired_row_def active_provisioning_def split: if_splits)
  then have "running_provisionings w None (start_write me r retry d) = running_provisionings w retry (start_write me r retry d)"
    unfolding running_provisionings_def count_where_def assms(3)
    by (intro arg_cong [where f = length] filter_cong) auto
  then show ?thesis by (simp add: prov_count_def)
qed

section \<open>Claims of an operation\<close>

text \<open>The guarded statements other processes may run while \<open>me\<close> holds a claim until \<open>u\<close>.\<close>

inductive pv_peer :: "string \<Rightarrow> instant \<Rightarrow> provisioning_row \<Rightarrow> provisioning_row \<Rightarrow> bool" for me u where
  pr_claim: "claim_pv_row s m b t r = Some r' \<Longrightarrow> pv_peer me u r r'"
| pr_renew: "pv_renew_row b t r = Some r' \<Longrightarrow> pv_peer me u r r'"
| pr_release: "release_pv_row s m b r = Some r' \<Longrightarrow> b \<noteq> me \<Longrightarrow> pv_peer me u r r'"
| pr_retire: "retired_row b r = Some r' \<Longrightarrow> b \<noteq> me \<Longrightarrow> pv_peer me u r r'"
| pr_interrupt: "interrupt_row now r = Some r' \<Longrightarrow> now \<le> u \<Longrightarrow> pv_peer me u r r'"

inductive pv_peers :: "string \<Rightarrow> instant \<Rightarrow> provisioning_row \<Rightarrow> provisioning_row \<Rightarrow> bool" for me u where
  pe_none: "pv_peers me u r r"
| pe_more: "pv_peers me u r r' \<Longrightarrow> pv_peer me u r' r'' \<Longrightarrow> pv_peers me u r r''"

lemma pv_peer_idle:
  assumes "pv_peer me u r r'" and "pv_status r \<in> {PvRetrying, PvCleaning}"
    and "pv_leaseOwner r = Some me" "pv_leaseExpiresAt r = Some u"
  shows False
  using assms
  by (cases rule: pv_peer.cases)
    (auto simp: claim_pv_row_def pv_renew_row_def release_pv_row_def retired_row_def interrupt_row_def stale_pv_def)

lemma pv_peers_idle:
  "pv_peers me u r r' \<Longrightarrow> pv_status r \<in> {PvRetrying, PvCleaning} \<Longrightarrow> pv_leaseOwner r = Some me \<Longrightarrow>
     pv_leaseExpiresAt r = Some u \<Longrightarrow> r' = r"
  by (induction rule: pv_peers.induct) (use pv_peer_idle in blast)+

section \<open>Reconciliation\<close>

lemma record_prov_frame [simp]:
  "provisionings (record_prov_safely down i d) = provisionings d"
  "effects (record_prov_safely down i d) = effects d"
  using only_audit_frame [OF only_audit_provisioning_result [of d down i]]
  by (simp_all add: record_prov_safely_def record_safely_def)

lemma interrupt_row_id: "interrupt_row now r = Some r' \<Longrightarrow> pv_id r' = pv_id r"
  by (auto simp: interrupt_row_def)

lemma on_provisioning_effects [simp]: "effects (fst (on_provisioning i f d)) = effects d"
  by (simp add: on_provisioning_def split: prod.splits)

lemma find_on_provisioning:
  assumes "\<And>r r'. f r = Some r' \<Longrightarrow> pv_id r' = pv_id r"
  shows "provisioning_by_id j (fst (on_provisioning i f d)) =
    (if j = i then map_option (\<lambda>r. case f r of None \<Rightarrow> r | Some r' \<Rightarrow> r') (provisioning_by_id i d)
     else provisioning_by_id j d)"
  using find_update_row [of f pv_id j i "provisionings d"] assms
  by (auto simp: provisioning_by_id_def on_provisioning_def split: prod.splits option.splits)

lemma on_provisioning_result:
  "snd (on_provisioning i f d) = Option.bind (provisioning_by_id i d) f"
  by (auto simp: on_provisioning_def update_row_def provisioning_by_id_def split: option.splits prod.splits)

lemma reconcile_one_find:
  "provisioning_by_id j (fst (reconcile_one down now i (d, n))) =
    (if j = i then map_option (\<lambda>r. case interrupt_row now r of None \<Rightarrow> r | Some r' \<Rightarrow> r') (provisioning_by_id i d)
     else provisioning_by_id j d)"
proof -
  have "provisioning_by_id j (fst (reconcile_one down now i (d, n))) =
      provisioning_by_id j (fst (on_provisioning i (interrupt_row now) d))"
    by (auto simp: reconcile_one_def provisioning_by_id_def reconcile_effects_def split: prod.splits option.splits)
  then show ?thesis using find_on_provisioning [of "interrupt_row now" j i d] interrupt_row_id by auto
qed

lemma reconcile_one_run:
  "reconcile_one down now i (d, n) =
    (case Option.bind (provisioning_by_id i d) (interrupt_row now) of
       None \<Rightarrow> (fst (on_provisioning i (interrupt_row now) d), n)
     | Some _ \<Rightarrow> (record_prov_safely down i (reconcile_effects i (fst (on_provisioning i (interrupt_row now) d))), n + 1))"
proof (cases "on_provisioning i (interrupt_row now) d")
  case (Pair d1 o')
  have "o' = Option.bind (provisioning_by_id i d) (interrupt_row now)"
    using on_provisioning_result [of i "interrupt_row now" d] Pair by simp
  then show ?thesis
    by (cases "Option.bind (provisioning_by_id i d) (interrupt_row now)") (simp_all add: reconcile_one_def Pair)
qed

lemma reconcile_one_effects:
  "effects (fst (reconcile_one down now i (d, n))) =
    (if Option.bind (provisioning_by_id i d) (interrupt_row now) = None then effects d
     else effects (reconcile_effects i d))"
  by (cases "Option.bind (provisioning_by_id i d) (interrupt_row now)")
    (simp_all add: reconcile_one_run reconcile_effects_def)

definition effects_at :: "string \<Rightarrow> db \<Rightarrow> effect_row list" where
  "effects_at i d = filter (\<lambda>e. fx_operationId e = i) (effects d)"

lemma filter_rewrite_other:
  "(\<And>r. p r \<Longrightarrow> \<not> q r \<and> \<not> q (f r)) \<Longrightarrow> filter q (rewrite p f t) = filter q t"
  by (induction t) simp_all

lemma effects_at_other: "j \<noteq> i \<Longrightarrow> effects_at j (reconcile_effects i d) = effects_at j d"
  unfolding effects_at_def reconcile_effects_def
  by (simp, rule filter_rewrite_other) simp

lemma effects_at_same: "\<forall>e \<in> set (effects_at i (reconcile_effects i d)). fx_status e \<noteq> FxApplying"
proof
  fix e
  assume "e \<in> set (effects_at i (reconcile_effects i d))"
  then have op: "fx_operationId e = i" and "e \<in> set (effects (reconcile_effects i d))"
    by (simp_all add: effects_at_def)
  from this(2) [unfolded reconcile_effects_def, simplified] show "fx_status e \<noteq> FxApplying"
    by (rule in_rewriteE) (simp_all add: op)
qed

lemma effects_at_cong: "effects d' = effects d \<Longrightarrow> effects_at i d' = effects_at i d"
  by (simp add: effects_at_def)

lemma reconcile_fold_other:
  "i \<notin> set js \<Longrightarrow>
     provisioning_by_id i (fst (fold (reconcile_one down now) js st)) = provisioning_by_id i (fst st) \<and>
     effects_at i (fst (fold (reconcile_one down now) js st)) = effects_at i (fst st)"
proof (induction js arbitrary: st)
  case (Cons j js)
  obtain d n where st: "st = (d, n)" by fastforce
  have "provisioning_by_id i (fst (reconcile_one down now j st)) = provisioning_by_id i d"
    using Cons.prems by (simp add: st reconcile_one_find)
  moreover have "effects_at i (fst (reconcile_one down now j st)) = effects_at i d"
    using Cons.prems effects_at_other [of i j d] reconcile_one_effects [of down now j d n]
    by (auto simp: st effects_at_def)
  ultimately show ?case using Cons st by simp
qed simp

lemma reconcile_fold_self:
  assumes "distinct js" and "i \<in> set js" and "provisioning_by_id i (fst st) = Some r" and "stale_pv now r"
  shows "\<exists>r'. provisioning_by_id i (fst (fold (reconcile_one down now) js st)) = Some r' \<and>
      interrupt_row now r = Some r' \<and>
      (\<forall>e \<in> set (effects_at i (fst (fold (reconcile_one down now) js st))). fx_status e \<noteq> FxApplying)"
  using assms
proof (induction js arbitrary: st)
  case (Cons j js)
  obtain d n where st: "st = (d, n)" by fastforce
  show ?case
  proof (cases "i = j")
    case False
    with Cons.prems have "provisioning_by_id i (fst (reconcile_one down now j st)) = Some r"
      by (simp add: st reconcile_one_find)
    with Cons.IH [of "reconcile_one down now j st"] Cons.prems False show ?thesis by simp
  next
    case True
    from Cons.prems(4) obtain r' where r': "interrupt_row now r = Some r'" by (simp add: interrupt_row_def)
    have "provisioning_by_id i (fst (reconcile_one down now j st)) = Some r'"
      using Cons.prems(3) r' True by (simp add: st reconcile_one_find)
    moreover have "effects (fst (reconcile_one down now j st)) = effects (reconcile_effects i d)"
      using Cons.prems(3) r' True reconcile_one_effects [of down now j d n] by (simp add: st)
    moreover have "i \<notin> set js" using Cons.prems(1) True by simp
    ultimately show ?thesis
      using reconcile_fold_other [of i js down now "reconcile_one down now j st"] r' effects_at_same [of i d]
        effects_at_cong by (metis fold_simps(2))
  qed
qed simp

section \<open>The journal of the external effects\<close>

text \<open>
  Any calls of any replicas on the journal, and what may exist outside: \<open>L\<close> holds the effects that
  \<open>begin\<close> allowed to be applied and no successful \<open>compensate\<close> has answered since. A \<open>begin\<close> is two
  statements; any calls may run between them.
\<close>

inductive fx_call :: "db \<Rightarrow> (string \<times> string) set \<Rightarrow> db \<Rightarrow> (string \<times> string) set \<Rightarrow> bool"
  and fx_calls :: "db \<Rightarrow> (string \<times> string) set \<Rightarrow> db \<Rightarrow> (string \<times> string) set \<Rightarrow> bool" where
  fc_plan: "plan_effect i k kind m t d = (d', r) \<Longrightarrow> fx_call d L d' L"
| fc_begin: "renew_lease me t i d = (d1, Inr ()) \<Longrightarrow> fx_calls d1 L d2 L2 \<Longrightarrow>
    begin_effect (\<lambda>_. d2) me t i k d = (d', r) \<Longrightarrow>
    fx_call d L d' (if succeeds r then insert (i, k) L2 else L2)"
| fc_complete: "complete_effect me t i k m d = (d', r) \<Longrightarrow> fx_call d L d' L"
| fc_fail: "fail_effect i k err d = (d', r) \<Longrightarrow> fx_call d L d' L"
| fc_compensate: "compensate_effect t i k d = (d', r) \<Longrightarrow>
    fx_call d L d' (if succeeds r then L - {(i, k)} else L)"
| fc_not_compensated: "compensation_failed i k err d = (d', r) \<Longrightarrow> fx_call d L d' L"
| fc_reconcile: "reconcile_stale down now d = (d', n) \<Longrightarrow> fx_call d L d' L"
| fc_others: "effects d' = effects d \<Longrightarrow> fx_call d L d' L"
| fc_none: "fx_calls d L d L"
| fc_more: "fx_calls d L d1 L1 \<Longrightarrow> fx_call d1 L1 d2 L2 \<Longrightarrow> fx_calls d L d2 L2"

definition touched :: "effect_row \<Rightarrow> bool" where
  "touched e \<longleftrightarrow> fx_status e \<noteq> FxPlanned \<and> fx_status e \<noteq> FxCompensated"

definition journal_ok :: "db \<Rightarrow> (string \<times> string) set \<Rightarrow> bool" where
  "journal_ok d L \<longleftrightarrow> keyed fx_ident (effects d) \<and>
     (\<forall>x \<in> L. \<exists>e \<in> set (effects d). fx_ident e = x \<and> touched e)"

definition keeps_compensated :: "db \<Rightarrow> db \<Rightarrow> bool" where
  "keeps_compensated d d' \<longleftrightarrow>
     (\<forall>e \<in> set (effects d). fx_status e = FxCompensated \<longrightarrow> e \<in> set (effects d'))"

lemma keeps_compensated_refl [simp]: "keeps_compensated d d"
  by (simp add: keeps_compensated_def)

lemma keeps_compensated_trans:
  "keeps_compensated d d1 \<Longrightarrow> keeps_compensated d1 d2 \<Longrightarrow> keeps_compensated d d2"
  by (simp add: keeps_compensated_def)

lemma journal_same: "effects d' = effects d \<Longrightarrow> journal_ok d' L = journal_ok d L \<and> keeps_compensated d d'"
  by (simp add: journal_ok_def keeps_compensated_def)

lemma transition_effect_effects:
  assumes "transition_effect i k fs f d = (d', r)" and "keyed fx_ident (effects d)"
  obtains (refused) "\<not> succeeds r" "effects d' = effects d"
  | (changed) e where "succeeds r" "e \<in> set (effects d)" "fx_ident e = (i, k)" "fx_status e \<in> set fs"
      "effects d' = rewrite (\<lambda>x. fx_ident x = (i, k)) (\<lambda>_. f e) (effects d)"
proof (cases "update_row fx_ident (i, k) (transition_row fs f) (effects d)")
  case (Pair rows o')
  show ?thesis
  proof (cases o')
    case None
    with Pair have "rows = effects d" by (auto dest: update_row_None)
    with assms(1) Pair None show ?thesis by (intro refused) (auto simp: transition_effect_def)
  next
    case (Some e')
    with Pair obtain e where e: "find_first (\<lambda>x. fx_ident x = (i, k)) (effects d) = Some e"
        "transition_row fs f e = Some e'" "rows = rewrite (\<lambda>x. fx_ident x = (i, k)) (\<lambda>_. e') (effects d)"
      by (auto simp: update_row_Some)
    from e(2) have "e' = f e" "fx_status e \<in> set fs" by (auto simp: transition_row_def)
    with find_first_Some [OF e(1)] e(3) assms(1) Pair Some show ?thesis
      by (intro changed [of e]) (auto simp: transition_effect_def)
  qed
qed

text \<open>A transition out of a state other than compensated, to a given one.\<close>

lemma transition_journal:
  assumes "transition_effect i k fs f d = (d', r)" and "journal_ok d L" and "FxCompensated \<notin> set fs"
    and "\<And>e. fx_ident (f e) = fx_ident e"
    and "succeeds r \<Longrightarrow> (i, k) \<in> L' \<Longrightarrow> (\<And>e. touched (f e))" and "L' \<subseteq> insert (i, k) L"
    and "\<not> succeeds r \<Longrightarrow> L' \<subseteq> L"
  shows "journal_ok d' L' \<and> keeps_compensated d d'"
proof -
  have key: "keyed fx_ident (effects d)" using assms(2) by (simp add: journal_ok_def)
  from assms(1) key show ?thesis
  proof (cases rule: transition_effect_effects)
    case refused
    with assms(2,7) show ?thesis by (auto simp: journal_ok_def keeps_compensated_def)
  next
    case (changed e)
    have fe: "fx_ident (f e) = (i, k)" using changed(3) assms(4) by simp
    have "keyed fx_ident (effects d')"
      using key unfolding changed(5) by (subst keyed_rewrite) (simp_all add: fe)
    moreover have "\<exists>y \<in> set (effects d'). fx_ident y = x \<and> touched y" if "x \<in> L'" for x
    proof (cases "x = (i, k)")
      case True
      with that assms(5) changed(1) have "touched (f e)" by blast
      moreover have "f e \<in> set (effects d')"
        unfolding changed(5) set_rewrite using changed(2,3) by (intro image_eqI [where x = e]) simp_all
      ultimately show ?thesis using fe True by blast
    next
      case False
      with that assms(6) have "x \<in> L" by blast
      with assms(2) obtain y where y: "y \<in> set (effects d)" "fx_ident y = x" "touched y"
        by (auto simp: journal_ok_def)
      with False have "y \<in> set (effects d')"
        unfolding changed(5) set_rewrite by (intro image_eqI [where x = y]) simp_all
      with y show ?thesis by blast
    qed
    moreover have "y \<in> set (effects d')" if "y \<in> set (effects d)" "fx_status y = FxCompensated" for y
    proof -
      have "fx_ident y \<noteq> (i, k)"
      proof
        assume "fx_ident y = (i, k)"
        with changed(2,3) that(1) key have "y = e" by (metis keyed_unique)
        with changed(4) that(2) assms(3) show False by simp
      qed
      with that show ?thesis
        unfolding changed(5) set_rewrite by (intro image_eqI [where x = y]) simp_all
    qed
    ultimately show ?thesis by (simp add: journal_ok_def keeps_compensated_def)
  qed
qed

lemma reconcile_effects_journal:
  assumes "journal_ok d L"
  shows "journal_ok (reconcile_effects i d) L \<and> keeps_compensated d (reconcile_effects i d)"
proof -
  have key: "keyed fx_ident (effects (reconcile_effects i d))"
    using assms by (simp add: journal_ok_def reconcile_effects_def keyed_rewrite fx_ident_def)
  have same: "\<exists>y' \<in> set (effects (reconcile_effects i d)). fx_ident y' = fx_ident y \<and> touched y'"
    if "y \<in> set (effects d)" "touched y" for y
  proof -
    let ?f = "\<lambda>e. if fx_operationId e = i \<and> fx_status e = FxApplying
      then e\<lparr>fx_status := FxReconciliationRequired,
              fx_error := Some ''The process stopped while this external effect may have been applied''\<rparr> else e"
    have "?f y \<in> set (effects (reconcile_effects i d))"
      using that(1) by (simp add: reconcile_effects_def set_rewrite)
    moreover have "fx_ident (?f y) = fx_ident y" "touched (?f y)"
      using that(2) by (simp_all add: fx_ident_def touched_def)
    ultimately show ?thesis by blast
  qed
  have "keeps_compensated d (reconcile_effects i d)"
    by (auto simp: keeps_compensated_def reconcile_effects_def set_rewrite image_iff)
  moreover have "\<exists>y' \<in> set (effects (reconcile_effects i d)). fx_ident y' = x \<and> touched y'" if "x \<in> L" for x
  proof -
    from assms that obtain y where "y \<in> set (effects d)" "fx_ident y = x" "touched y"
      by (auto simp: journal_ok_def)
    with same show ?thesis by blast
  qed
  ultimately show ?thesis using key by (simp add: journal_ok_def)
qed

lemma reconcile_fold_journal:
  "journal_ok (fst st) L \<Longrightarrow>
     journal_ok (fst (fold (reconcile_one down now) js st)) L \<and>
     keeps_compensated (fst st) (fst (fold (reconcile_one down now) js st))"
proof (induction js arbitrary: st)
  case (Cons j js)
  obtain d n where st: "st = (d, n)" by fastforce
  have "journal_ok (fst (reconcile_one down now j st)) L \<and> keeps_compensated d (fst (reconcile_one down now j st))"
    using Cons.prems reconcile_one_effects [of down now j d n] reconcile_effects_journal [of d L j]
    by (simp add: st journal_ok_def keeps_compensated_def split: if_splits)
  with Cons.IH [of "reconcile_one down now j st"] show ?case
    by (auto simp: st intro: keeps_compensated_trans)
qed simp

lemma plan_effect_journal:
  assumes "plan_effect i k kind m t d = (d', r)" and "journal_ok d L"
  shows "journal_ok d' L \<and> keeps_compensated d d'"
proof -
  have "effects d' = effects d \<or> (\<exists>e. effects d' = create e (effects d) \<and>
      fx_ident e \<notin> fx_ident ` set (effects d))"
  proof (cases "list_ex (\<lambda>e. fx_ident e = (i, k)) (effects d)")
    case True
    with assms(1) show ?thesis by (simp add: plan_effect_def)
  next
    case False
    let ?e = "\<lparr>fx_operationId = i, fx_key = k, fx_kind = kind, fx_status = FxPlanned,
               fx_metadata = m, fx_error = None, fx_createdAt = t, fx_appliedAt = None, fx_compensatedAt = None\<rparr>"
    have "fx_ident ?e \<notin> fx_ident ` set (effects d)"
      using False by (auto simp: list_ex_iff fx_ident_def)
    with assms(1) False show ?thesis by (auto simp: plan_effect_def)
  qed
  with assms(2) show ?thesis
    by (auto simp: journal_ok_def keeps_compensated_def keyed_create)
qed

lemma renew_lease_effects: "renew_lease me t i d = (d', r) \<Longrightarrow> effects d' = effects d"
  by (auto simp: renew_lease_def on_provisioning_def split: prod.splits option.splits)

lemma fx_call_journal:
  "fx_call d L d' L' \<Longrightarrow> journal_ok d L \<longrightarrow> journal_ok d' L' \<and> keeps_compensated d d'"
  "fx_calls d L d' L' \<Longrightarrow> journal_ok d L \<longrightarrow> journal_ok d' L' \<and> keeps_compensated d d'"
proof (induction rule: fx_call_fx_calls.inducts)
  case (fc_plan i k kind m t d d' r L)
  then show ?case using plan_effect_journal by blast
next
  case (fc_begin me t i d d1 L d2 L2 k d' r)
  from fc_begin(1,3) have tr: "transition_effect i k [FxPlanned]
      (\<lambda>e. e\<lparr>fx_status := FxApplying, fx_error := None\<rparr>) d2 = (d', r)"
    by (simp add: begin_effect_def)
  show ?case
  proof
    assume "journal_ok d L"
    then have "journal_ok d1 L" "keeps_compensated d d1"
      using journal_same [OF renew_lease_effects [OF fc_begin(1)]] by simp_all
    with fc_begin(4) have 2: "journal_ok d2 L2" "keeps_compensated d d2"
      by (auto intro: keeps_compensated_trans)
    from transition_journal [OF tr 2(1), of "if succeeds r then insert (i, k) L2 else L2"]
    have "journal_ok d' (if succeeds r then insert (i, k) L2 else L2) \<and> keeps_compensated d2 d'"
      by (cases "succeeds r") (auto simp: touched_def fx_ident_def)
    with 2(2) show "journal_ok d' (if succeeds r then insert (i, k) L2 else L2) \<and> keeps_compensated d d'"
      using keeps_compensated_trans by blast
  qed
next
  case (fc_complete me t i k m d d' r L)
  obtain d1 r1 where tr: "transition_effect i k [FxApplying]
      (\<lambda>e. e\<lparr>fx_status := FxApplied, fx_appliedAt := Some t, fx_metadata := metadata_or m e\<rparr>) d = (d1, r1)"
    by fastforce
  with fc_complete have same: "effects d' = effects d1"
    by (auto simp: complete_effect_def dest: renew_lease_effects split: sum.splits)
  show ?case
    using transition_journal [OF tr, of L L] journal_same [OF same]
    by (auto simp: touched_def fx_ident_def keeps_compensated_def same)
next
  case (fc_fail i k err d d' r L)
  show ?case
    using transition_journal [OF fc_fail [unfolded fail_effect_def], of L L]
    by (auto simp: touched_def fx_ident_def)
next
  case (fc_compensate t i k d d' r L)
  show ?case
    by (intro impI transition_journal [OF fc_compensate [unfolded compensate_effect_def]])
      (auto simp: fx_ident_def split: if_splits)
next
  case (fc_not_compensated i k err d d' r L)
  show ?case
    using transition_journal [OF fc_not_compensated [unfolded compensation_failed_def], of L L]
    by (auto simp: touched_def fx_ident_def)
next
  case (fc_reconcile down now d d' n L)
  then have "d' = fst (fold (reconcile_one down now) (map pv_id (filter (stale_pv now) (provisionings d))) (d, 0))"
    by (simp add: reconcile_stale_def)
  with reconcile_fold_journal [of "(d, 0)" L] show ?case by simp
next
  case (fc_others d' d L)
  then show ?case using journal_same by blast
next
  case (fc_more d L d1 L1 d2 L2)
  then show ?case using keeps_compensated_trans by blast
qed simp_all

lemma set_effects_of [simp]: "set (effects_of i d) = {e \<in> set (effects d). fx_operationId e = i}"
  by (auto simp: effects_of_def)

section \<open>Properties\<close>

definition pv_sample :: provisioning_row where
  "pv_sample = \<lparr>pv_id = ''i'', pv_workspaceId = ''w'', pv_projectId = None, pv_projectName = ''p'',
     pv_kind = PkCreate, pv_status = PvFailed, pv_step = SpRepository, pv_message = None,
     pv_requestedById = Some ''u'', pv_request = Some JNull, pv_retryOfId = None, pv_attempt = 1,
     pv_leaseOwner = None, pv_leaseExpiresAt = None, pv_createdAt = 0, pv_finishedAt = None\<rparr>"

definition fx_sample :: effect_row where
  "fx_sample = \<lparr>fx_operationId = ''i'', fx_key = ''repo'', fx_kind = FkRepository, fx_status = FxPlanned,
     fx_metadata = None, fx_error = None, fx_createdAt = 1, fx_appliedAt = None, fx_compensatedAt = None\<rparr>"

text \<open>
  C12: A retry never runs over a live external effect. Take any calls of any replicas from an empty
  journal: plans, begins (with any calls between their lease check and their transition), completions,
  failures, compensations, failed compensations, reconciliation sweeps and whatever leaves the effects
  alone. In every state reached: an operation shown as retryable has no effect that was allowed to
  begin and was not compensated since, it is not shown as needing cleanup, and no replica passes the
  lease check of a new effect of it; a failed or interrupted operation with such an effect is shown as
  needing cleanup; and a compensated effect keeps its row along any further calls, so it never begins
  again.
\<close>

theorem retry_only_without_live_effects:
  assumes "fx_calls d0 {} d L" and "effects d0 = []" and "provisioning_by_id i d = Some r"
  shows "(vw_canRetry (to_view r (Some u) d) \<longrightarrow>
      (\<forall>k. (i, k) \<notin> L) \<and> \<not> vw_needsCleanup (to_view r (Some u) d) \<and>
      (\<forall>mid me t k. \<not> succeeds (snd (begin_effect mid me t i k d)))) \<and>
    (pv_status r \<in> {PvFailed, PvInterrupted} \<and> (\<exists>k. (i, k) \<in> L) \<longrightarrow>
      vw_needsCleanup (to_view r (Some u) d)) \<and>
    (\<forall>d' L' e. fx_calls d L d' L' \<and> e \<in> set (effects d) \<and> fx_status e = FxCompensated \<longrightarrow>
      e \<in> set (effects d'))"
proof -
  from assms(3) have id: "pv_id r = i" by (auto simp: provisioning_by_id_def dest: find_first_Some)
  have ok: "journal_ok d L"
    using fx_call_journal(2) [OF assms(1)] assms(2) by (simp add: journal_ok_def keyed_def)
  have live: "\<exists>e \<in> set (effects_of i d). touched e" if "(i, k) \<in> L" for k
    using ok that by (fastforce simp: journal_ok_def fx_ident_def)
  have "succeeds (snd (begin_effect mid me t i k d)) \<Longrightarrow> pv_status r = PvRunning" for mid me t k
    using assms(3) by (auto simp: begin_effect_def renew_lease_def on_provisioning_def update_row_def
        provisioning_by_id_def pv_renew_row_def split: option.splits if_splits)
  then have no_begin: "pv_status r \<in> {PvFailed, PvInterrupted} \<Longrightarrow> \<not> succeeds (snd (begin_effect mid me t i k d))"
    for mid me t k by auto
  have retry: "(\<forall>k. (i, k) \<notin> L) \<and> \<not> vw_needsCleanup (to_view r (Some u) d) \<and>
      pv_status r \<in> {PvFailed, PvInterrupted}" if can: "vw_canRetry (to_view r (Some u) d)"
  proof -
    from can have can: "is_retryable r (effects_of i d) u" by (simp add: to_view_def Let_def id split: if_splits)
    then have safe: "\<forall>e \<in> set (effects_of i d). retry_safe_effect (fx_status e)"
      and st: "pv_status r \<in> {PvFailed, PvInterrupted}" by (simp_all add: is_retryable_def list_all_iff)
    then have "\<not> needs_cleanup r (effects_of i d)"
      by (auto simp: needs_cleanup_def list_ex_iff retry_safe_effect_def cleanup_effect_def)
    moreover have "(i, k) \<notin> L" for k
      using live [of k] safe by (auto simp: touched_def retry_safe_effect_def)
    ultimately show ?thesis using st by (simp add: to_view_def Let_def id)
  qed
  have "vw_needsCleanup (to_view r (Some u) d)" if "pv_status r \<in> {PvFailed, PvInterrupted}" "(i, k) \<in> L" for k
  proof -
    from live [OF that(2)] obtain e where "e \<in> set (effects_of i d)" "touched e" by blast
    moreover from this(2) have "cleanup_effect (fx_status e)"
      by (cases "fx_status e") (simp_all add: touched_def cleanup_effect_def)
    ultimately have "needs_cleanup r (effects_of i d)"
      using that(1) unfolding needs_cleanup_def list_ex_iff by blast
    then show ?thesis by (simp add: to_view_def Let_def id)
  qed
  moreover have "e \<in> set (effects d')" if "fx_calls d L d' L'" "e \<in> set (effects d)" "fx_status e = FxCompensated"
    for d' L' e
    using fx_call_journal(2) [OF that(1)] ok that(2,3) by (simp add: keeps_compensated_def)
  ultimately show ?thesis using retry no_begin by blast
qed

text \<open>The witness: an effect is planned and begun, its owner dies, and it is compensated.\<close>

theorem retry_only_without_live_effects_witness:
  "\<exists>d. fst (compensate_effect 9 ''i'' ''repo'' (empty_db\<lparr>provisionings := [pv_sample],
      effects := [fx_sample\<lparr>fx_status := FxApplying\<rparr>]\<rparr>)) = d \<and>
    vw_canRetry (to_view pv_sample (Some ''u'') d) \<and> \<not> vw_needsCleanup (to_view pv_sample (Some ''u'') d)"
proof -
  let ?p = "pv_sample\<lparr>pv_status := PvRunning, pv_leaseOwner := Some ''a'', pv_leaseExpiresAt := Some 5\<rparr>"
  let ?d0 = "empty_db\<lparr>provisionings := [?p]\<rparr>"
  define d1 where "d1 = fst (plan_effect ''i'' ''repo'' FkRepository None 1 ?d0)"
  define b where "b = fst (renew_lease ''a'' 2 ''i'' d1)"
  define d2 where "d2 = fst (begin_effect (\<lambda>_. b) ''a'' 2 ''i'' ''repo'' d1)"
  define d3 where "d3 = empty_db\<lparr>provisionings := [pv_sample], effects := [fx_sample\<lparr>fx_status := FxApplying\<rparr>]\<rparr>"
  define d4 where "d4 = fst (compensate_effect 9 ''i'' ''repo'' d3)"
  have e1: "d1 = ?d0\<lparr>effects := [fx_sample]\<rparr>"
    by (simp add: d1_def plan_effect_def fx_sample_def empty_db_def create_def)
  have e2: "renew_lease ''a'' 2 ''i'' d1 = (b, Inr ())"
    by (simp add: b_def e1 renew_lease_def on_provisioning_def update_row_def pv_renew_row_def when_row_def pv_sample_def)
  have beff: "effects b = [fx_sample]" using renew_lease_effects [OF e2] e1 by simp
  have e3: "begin_effect (\<lambda>_. b) ''a'' 2 ''i'' ''repo'' d1 = (d2, Inr ())" "effects d2 = [fx_sample\<lparr>fx_status := FxApplying\<rparr>]"
    by (simp_all add: d2_def begin_effect_def e2 transition_effect_def beff update_row_def transition_row_def
        when_row_def fx_sample_def fx_ident_def)
  have e4: "compensate_effect 9 ''i'' ''repo'' d3 = (d4, Inr ())"
    "effects d4 = [fx_sample\<lparr>fx_status := FxCompensated, fx_compensatedAt := Some 9\<rparr>]"
    "provisionings d4 = [pv_sample]"
    by (simp_all add: d4_def d3_def compensate_effect_def transition_effect_def update_row_def transition_row_def
        when_row_def fx_sample_def fx_ident_def)
  have "fx_call ?d0 {} d1 {}" unfolding d1_def by (rule fc_plan [OF prod.collapse [symmetric]])
  with fc_none have "fx_calls ?d0 {} d1 {}" by (rule fc_more)
  moreover have "fx_call d1 {} d2 (if succeeds (Inr () :: unit outcome) then insert (''i'', ''repo'') {} else {})"
    by (rule fc_begin [OF e2 fc_none e3(1)])
  ultimately have "fx_calls ?d0 {} d2 {(''i'', ''repo'')}" by (auto intro: fc_more simp: succeeds_def)
  moreover have "fx_call d2 {(''i'', ''repo'')} d3 {(''i'', ''repo'')}"
    by (rule fc_others) (simp add: e3 d3_def)
  ultimately have "fx_calls ?d0 {} d3 {(''i'', ''repo'')}" by (rule fc_more)
  from fc_more [OF this fc_compensate [OF e4(1)]] have "fx_calls ?d0 {} d4 {}"
    by (simp add: succeeds_def)
  moreover have "effects ?d0 = []" by (simp add: empty_db_def)
  moreover have "provisioning_by_id ''i'' d4 = Some pv_sample"
    by (simp add: provisioning_by_id_def e4 pv_sample_def)
  moreover have can: "vw_canRetry (to_view pv_sample (Some ''u'') d4)"
    by (simp add: to_view_def Let_def effects_of_def e4 is_retryable_def pv_sample_def max_attempts_def
        retry_safe_effect_def fx_sample_def)
  ultimately have "\<not> vw_needsCleanup (to_view pv_sample (Some ''u'') d4)"
    using retry_only_without_live_effects [of ?d0 d4 "{}" "''i''" pv_sample "''u''"] by blast
  with can show ?thesis by (simp add: d4_def d3_def)
qed

text \<open>
  Reconciliation interrupts exactly the operations of dead processes. After \<open>reconcileStale\<close> an
  operation whose lease had run out is interrupted, has no owner, and none of its effects is still
  recorded as being applied (each such effect requires reconciliation, so the operation needs cleanup);
  every other operation and its effects are unchanged.
\<close>

theorem reconciliation_interrupts_exactly_stale:
  assumes "keyed pv_id (provisionings d)" and "provisioning_by_id i d = Some r"
  shows "if stale_pv now r
    then \<exists>r'. provisioning_by_id i (fst (reconcile_stale down now d)) = Some r' \<and>
      pv_status r' = PvInterrupted \<and> pv_leaseOwner r' = None \<and> pv_finishedAt r' = Some now \<and>
      (\<forall>e \<in> set (effects_at i (fst (reconcile_stale down now d))). fx_status e \<noteq> FxApplying)
    else provisioning_by_id i (fst (reconcile_stale down now d)) = Some r \<and>
      effects_at i (fst (reconcile_stale down now d)) = effects_at i d"
proof -
  define js where "js = map pv_id (filter (stale_pv now) (provisionings d))"
  have run: "reconcile_stale down now d = fold (reconcile_one down now) js (d, 0)"
    by (simp add: reconcile_stale_def js_def)
  from assms(2) have r: "r \<in> set (provisionings d)" "pv_id r = i"
    by (auto simp: provisioning_by_id_def dest: find_first_Some)
  show ?thesis
  proof (cases "stale_pv now r")
    case True
    have "distinct js" using assms(1) by (simp add: js_def keyed_def distinct_map_filter)
    moreover have "i \<in> set js" using r True by (auto simp: js_def)
    ultimately obtain r' where "provisioning_by_id i (fst (fold (reconcile_one down now) js (d, 0))) = Some r'"
        "interrupt_row now r = Some r'"
        "\<forall>e \<in> set (effects_at i (fst (fold (reconcile_one down now) js (d, 0)))). fx_status e \<noteq> FxApplying"
      using reconcile_fold_self [of js i "(d, 0)" r now down] assms(2) True by auto
    with True show ?thesis by (auto simp: run interrupt_row_def)
  next
    case False
    have "i \<notin> set js"
    proof
      assume "i \<in> set js"
      then obtain x where "x \<in> set (provisionings d)" "stale_pv now x" "pv_id x = i" by (auto simp: js_def)
      with keyed_unique [OF assms(1)] r have "x = r" by metis
      with \<open>stale_pv now x\<close> False show False by simp
    qed
    from reconcile_fold_other [OF this, of down now "(d, 0)"] False assms(2) show ?thesis by (simp add: run)
  qed
qed

theorem reconciliation_interrupts_exactly_stale_witness:
  "\<exists>r'. provisioning_by_id ''i'' (fst (reconcile_stale False 9
      (empty_db\<lparr>provisionings := [pv_sample\<lparr>pv_status := PvRunning, pv_leaseExpiresAt := Some 8\<rparr>]\<rparr>))) = Some r' \<and>
    pv_status r' = PvInterrupted"
proof -
  let ?r = "pv_sample\<lparr>pv_status := PvRunning, pv_leaseExpiresAt := Some 8\<rparr>"
  let ?d = "empty_db\<lparr>provisionings := [?r]\<rparr>"
  have "keyed pv_id (provisionings ?d)" by (simp add: keyed_def)
  moreover have "provisioning_by_id ''i'' ?d = Some ?r" by (simp add: provisioning_by_id_def pv_sample_def)
  moreover have "stale_pv 9 ?r" by (simp add: stale_pv_def)
  ultimately show ?thesis using reconciliation_interrupts_exactly_stale [of ?d "''i''" ?r 9 False] by auto
qed

text \<open>
  A claim for retry or cleanup is exclusive while its lease lasts. After process \<open>me\<close> claimed an
  operation at \<open>t\<close>, no claim, renewal, release, retirement or (until the lease ends) reconciliation of
  another process changes the row, and every further claim is refused.
\<close>

theorem provisioning_claim_is_exclusive:
  assumes "claim_pv_row s m me t r = Some r0" and "s \<in> {PvRetrying, PvCleaning}"
    and "pv_peers me (t + prov_lease_ms) r0 r1"
  shows "r1 = r0 \<and> pv_leaseOwner r1 = Some me \<and> claim_pv_row s' m' b t' r1 = None"
proof -
  from assms(1,2) have "pv_status r0 \<in> {PvRetrying, PvCleaning}" "pv_leaseOwner r0 = Some me"
    "pv_leaseExpiresAt r0 = Some (t + prov_lease_ms)"
    by (auto simp: claim_pv_row_def)
  with pv_peers_idle [OF assms(3)] show ?thesis by (auto simp: claim_pv_row_def)
qed

theorem provisioning_claim_is_exclusive_witness:
  "claim_pv_row PvCleaning [] ''b'' 7 (the (claim_pv_row PvRetrying [] ''a'' 5 pv_sample)) = None"
proof -
  define r0 where "r0 = the (claim_pv_row PvRetrying [] ''a'' 5 pv_sample)"
  have "claim_pv_row PvRetrying [] ''a'' 5 pv_sample = Some r0"
    by (simp add: r0_def claim_pv_row_def when_row_def pv_sample_def)
  from provisioning_claim_is_exclusive [OF this _ pv_peers.pe_none, of PvCleaning "[]" "''b''" 7]
  show ?thesis by (simp add: r0_def)
qed

text \<open>
  The unconditional \<open>fail\<close> breaks that exclusivity. While process \<open>a\<close> holds the cleanup claim of an
  operation, a late \<open>fail\<close> of the process that was declared dead resets the row to failed and drops the
  owner, so a third process can claim the same cleanup although \<open>a\<close> has not released it, and \<open>a\<close>'s
  own release then changes nothing.
\<close>

theorem late_fail_breaks_cleanup_claim:
  assumes "claim_pv_row PvCleaning m a t r = Some r1" and "fail_row t2 x r1 = Some r2"
  shows "\<exists>r3. claim_pv_row PvCleaning m b t3 r2 = Some r3 \<and> pv_leaseOwner r3 = Some b \<and>
    (a \<noteq> b \<longrightarrow> release_pv_row PvCleaning y a r3 = None)"
  using assms by (auto simp: claim_pv_row_def fail_row_def release_pv_row_def)

theorem late_fail_breaks_cleanup_claim_witness:
  "\<exists>r3. claim_pv_row PvCleaning [] ''c'' 8
      (the (fail_row 7 ''late'' (the (claim_pv_row PvCleaning [] ''a'' 5 pv_sample)))) = Some r3 \<and>
    pv_leaseOwner r3 = Some ''c''"
proof -
  define r1 where "r1 = the (claim_pv_row PvCleaning [] ''a'' 5 pv_sample)"
  define r2 where "r2 = the (fail_row 7 ''late'' r1)"
  have "claim_pv_row PvCleaning [] ''a'' 5 pv_sample = Some r1"
    by (simp add: r1_def claim_pv_row_def when_row_def pv_sample_def)
  moreover have "fail_row 7 ''late'' r1 = Some r2" by (simp add: r2_def fail_row_def when_row_def)
  ultimately show ?thesis
    using late_fail_breaks_cleanup_claim [of "[]" "''a''" 5 pv_sample r1 7 "''late''" r2 "''c''" 8]
    by (auto simp: r2_def [symmetric] r1_def [symmetric])
qed

text \<open>
  Starting (or retrying) a provisioning stays within the workspace's limit of concurrent operations,
  whatever other transactions commit first, and a retry takes over exactly one operation: at the
  commit the retried operation was held for retry by this process, and counting it no longer, the
  workspace's running operations are within the limit.
\<close>

theorem provisioning_start_within_limit:
  assumes "prov_start c down me i t w nm kind opts d = (d', Inr j)"
  shows "\<exists>d0 d1. committed_by_others c d d0 \<and> only_audit d1 d' \<and> j = i \<and>
    d1 = start_write me (new_provisioning i me t w nm kind opts) (retry_of opts) d0 \<and>
    (\<forall>l. prov_limit w d1 = Some l \<longrightarrow> prov_count w (retry_of opts) d1 \<le> l) \<and>
    (\<forall>p. retry_of opts = Some p \<longrightarrow> (\<exists>r. provisioning_by_id p d0 = Some r \<and>
        pv_status r = PvRetrying \<and> pv_leaseOwner r = Some me))"
proof -
  let ?r = "new_provisioning i me t w nm kind opts"
  obtain d1 o1 where tx: "serializable_capacity_transaction c (start_tx me w ?r (retry_of opts)) d = (d1, o1)"
    by fastforce
  from tx show ?thesis
  proof (cases rule: serializable_outcome)
    case (1 x d0)
    then have g: "start_guard me w (retry_of opts) d0 = Inr ()" and d1: "d1 = start_write me ?r (retry_of opts) d0"
      by (auto simp: start_tx_def split: sum.splits)
    have "prov_quota.guarded me w (retry_of opts) ?r d0 = (d1, Inr ())"
      by (simp add: prov_quota.guarded_def g d1)
    then have "prov_quota.within w (retry_of opts) d1" by (rule prov_quota.guarded_within)
    moreover have "\<exists>r. provisioning_by_id p d0 = Some r \<and> pv_status r = PvRetrying \<and> pv_leaseOwner r = Some me"
      if "retry_of opts = Some p" for p
      using g that by (auto simp: start_guard_def retired_row_def split: sum.splits if_splits)
    moreover obtain d2 o2 where au: "audit_record down (start_audit i ?r) d1 = (d2, o2)" by fastforce
    then have "only_audit d1 d2" using only_audit_record by (metis fst_conv)
    moreover have "d' = d2 \<and> j = i"
      using assms tx 1 au by (cases o2) (auto simp: prov_start_def Let_def)
    ultimately show ?thesis using 1(3) d1 by (auto simp: prov_quota.within_def)
  next
    case 2
    then obtain e where "o1 = Inl e" by (cases o1) auto
    with assms tx show ?thesis by (simp add: prov_start_def Let_def)
  qed
qed

text \<open>A workspace with room for one operation.\<close>

theorem provisioning_start_within_limit_witness:
  "\<exists>d'. prov_start (\<lambda>_. None) False ''a'' ''00000000-0000-4000-8000-000000000001'' 5 ''w'' ''p'' PkCreate None
      (empty_db\<lparr>workspaces := [\<lparr>ws_id = ''w'', ws_slug = ''w'', ws_name = ''W'', ws_team = True,
        ws_policy = SeparateReviewer, ws_maxProjects = 1, ws_maxMembers = 1, ws_maxTargets = 1,
        ws_maxConcurrentOperations = 1, ws_maxArtifactBytes = 0\<rparr>]\<rparr>) = (d', Inr ''00000000-0000-4000-8000-000000000001'')
    \<and> (\<forall>l. prov_limit ''w'' d' = Some l \<longrightarrow> prov_count ''w'' None d' \<le> l)"
proof -
  let ?d = "empty_db\<lparr>workspaces := [\<lparr>ws_id = ''w'', ws_slug = ''w'', ws_name = ''W'', ws_team = True,
        ws_policy = SeparateReviewer, ws_maxProjects = 1, ws_maxMembers = 1, ws_maxTargets = 1,
        ws_maxConcurrentOperations = 1, ws_maxArtifactBytes = 0\<rparr>]\<rparr>"
  let ?run = "prov_start (\<lambda>_. None) False ''a'' ''00000000-0000-4000-8000-000000000001'' 5 ''w'' ''p'' PkCreate None ?d"
  have "snd ?run = Inr ''00000000-0000-4000-8000-000000000001''"
    by (simp add: prov_start_def start_tx_def start_guard_def assert_available_def workspace_by_id_def
        running_deployments_def running_provisionings_def transaction_def start_write_def retry_of_def
        start_audit_def new_provisioning_def provisioning_action_def uuid_v4_def uuid_char_def is_hex_def
        audit_eval empty_db_def nat_str.simps)
  then obtain d' where run: "?run = (d', Inr ''00000000-0000-4000-8000-000000000001'')" by (cases ?run) simp
  from provisioning_start_within_limit [OF run] obtain d1 where "only_audit d1 d'"
      "\<forall>l. prov_limit ''w'' d1 = Some l \<longrightarrow> prov_count ''w'' None d1 \<le> l"
    by (auto simp: retry_of_def)
  moreover from this(1) obtain es where "d' = d1\<lparr>auditEvents := auditEvents d1 @ es\<rparr>" by (auto simp: only_audit_def)
  then have "prov_limit ''w'' d' = prov_limit ''w'' d1" "prov_count ''w'' None d' = prov_count ''w'' None d1"
    by (simp_all add: prov_limit_def prov_count_def workspace_by_id_def running_deployments_def
        running_provisionings_def environment_workspace_def environment_by_id_def project_by_id_def)
  ultimately show ?thesis using run by auto
qed

end
