(* ===== verification/GatewayHosts.thy ===== *)
theory GatewayHosts
  imports Prelude
begin

text \<open>
  DNS names of the managed gateway (\<open>targets/managed-gateway.ts\<close>): the normalised origin an
  administrator confirms, the zone of an allocation inside it, and the stable hostname of an
  environment, a readable prefix with a digest of the environment's id.

  \<open>parse\<close> is the URL parser of the platform (None when its constructor throws), \<open>is_ip\<close> the
  platform's test for an address, \<open>sha256\<close> the lower-case hexadecimal digest; all are parameters.
\<close>

record url =
  ur_protocol :: string
  ur_username :: string
  ur_password :: string
  ur_hostname :: string
  ur_port :: string
  ur_pathname :: string
  ur_search :: string
  ur_hash :: string
  ur_origin :: string

definition route_hash_length :: nat where "route_hash_length = 12"

definition alnum :: "char \<Rightarrow> bool" where
  "alnum c = (is_digit c \<or> is_lower c)"

text \<open>The pattern of a DNS label: 1 to 63 letters, digits and inner hyphens.\<close>

definition dns_label :: "string \<Rightarrow> bool" where
  "dns_label l = (l \<noteq> [] \<and> length l \<le> 63 \<and> alnum (hd l) \<and> alnum (last l) \<and>
     list_all (\<lambda>c. alnum c \<or> c = CHR ''-'') l)"

fun split_dots :: "string \<Rightarrow> string list" where
  "split_dots [] = [[]]"
| "split_dots (c # s) = (if c = CHR ''.'' then [] # split_dots s
     else (case split_dots s of [] \<Rightarrow> [[c]] | l # ls \<Rightarrow> (c # l) # ls))"

definition origin_error :: http_error where
  "origin_error = BadRequest ''Managed gateway base URL must be an HTTPS DNS origin without credentials, path, query or fragment''"

definition normalize_gateway_origin ::
  "(string \<Rightarrow> url option) \<Rightarrow> (string \<Rightarrow> bool) \<Rightarrow> string \<Rightarrow> string outcome" where
  "normalize_gateway_origin parse is_ip v = (case parse v of
      None \<Rightarrow> Inl origin_error
    | Some u \<Rightarrow> (let hostname = lower (ur_hostname u); labels = split_dots hostname in
        if ur_protocol u \<noteq> ''https:'' \<or> ur_username u \<noteq> [] \<or> ur_password u \<noteq> [] \<or> ur_port u \<noteq> [] \<or>
           ur_pathname u \<noteq> ''/'' \<or> ur_search u \<noteq> [] \<or> ur_hash u \<noteq> [] \<or> hostname = ''localhost'' \<or>
           ends_with ''.localhost'' hostname \<or> is_ip hostname \<or> length hostname > 253 \<or>
           list_ex (\<lambda>l. \<not> dns_label l) labels
        then Inl origin_error
        else Inr (lower (ur_origin u))))"

text \<open>The hostname of a string that was normalised before; its parser can still throw.\<close>

definition host_of :: "(string \<Rightarrow> url option) \<Rightarrow> string \<Rightarrow> string outcome" where
  "host_of parse s = (case parse s of None \<Rightarrow> Inl (ServerError ''Invalid URL'') | Some u \<Rightarrow> Inr (ur_hostname u))"

definition managed_gateway_origin ::
  "(string \<Rightarrow> url option) \<Rightarrow> (string \<Rightarrow> bool) \<Rightarrow> string option \<Rightarrow> string option \<Rightarrow> string outcome" where
  "managed_gateway_origin parse is_ip target allocation =
     (if \<not> truthy target then Inl (BadRequest ''Managed gateway target has no HTTPS base URL'')
      else (case normalize_gateway_origin parse is_ip (the target) of
        Inl e \<Rightarrow> Inl e
      | Inr targetOrigin \<Rightarrow>
          (case (if truthy allocation then normalize_gateway_origin parse is_ip (the allocation) else Inr targetOrigin) of
            Inl e \<Rightarrow> Inl e
          | Inr allocationOrigin \<Rightarrow> (case host_of parse targetOrigin of
              Inl e \<Rightarrow> Inl e
            | Inr targetHost \<Rightarrow> (case host_of parse allocationOrigin of
                Inl e \<Rightarrow> Inl e
              | Inr allocationHost \<Rightarrow>
                  if allocationHost \<noteq> targetHost \<and> \<not> ends_with (''.'' @ targetHost) allocationHost
                  then Inl (BadRequest ''Managed gateway allocation URL must stay inside the target DNS zone'')
                  else Inr allocationOrigin)))))"

text \<open>Runs of other characters become one hyphen.\<close>

function hyphenate :: "string \<Rightarrow> string" where
  "hyphenate [] = []"
| "hyphenate (c # s) = (if alnum c then c # hyphenate s
     else CHR ''-'' # hyphenate (dropWhile (\<lambda>x. \<not> alnum x) s))"
  by pat_completeness auto

termination
  by (relation "measure length") (auto simp: le_imp_less_Suc length_dropWhile_le)

definition strip_right :: "string \<Rightarrow> string" where
  "strip_right s = rev (dropWhile (\<lambda>c. c = CHR ''-'') (rev s))"

definition or_app :: "string \<Rightarrow> string" where
  "or_app s = (if s = [] then ''app'' else s)"

definition readable_name :: "string \<Rightarrow> string \<Rightarrow> string" where
  "readable_name project env = or_app (strip_right (dropWhile (\<lambda>c. c = CHR ''-'')
     (hyphenate (lower (project @ ''-'' @ env)))))"

definition stable_gateway_hostname ::
  "(string \<Rightarrow> string) \<Rightarrow> (string \<Rightarrow> url option) \<Rightarrow> (string \<Rightarrow> bool) \<Rightarrow> string \<Rightarrow> string \<Rightarrow> string \<Rightarrow> string
     \<Rightarrow> string outcome" where
  "stable_gateway_hostname sha256 parse is_ip project env envId gatewayOrigin =
     (case normalize_gateway_origin parse is_ip gatewayOrigin of
        Inl e \<Rightarrow> Inl e
      | Inr o' \<Rightarrow> (case host_of parse o' of
          Inl e \<Rightarrow> Inl e
        | Inr baseHost \<Rightarrow>
            (let digest = take route_hash_length (sha256 envId);
                 maxReadable = 63 - route_hash_length - 1;
                 prefix = or_app (strip_right (take maxReadable (readable_name project env)));
                 hostname = prefix @ ''-'' @ digest @ ''.'' @ baseHost
             in if length hostname > 253
                then Inl (BadRequest ''Managed gateway DNS zone is too long for an application hostname'')
                else Inr hostname)))"

section \<open>Labels\<close>

lemma split_dots_ne [simp]: "split_dots s \<noteq> []"
  by (induction s) (auto split: list.splits)

lemma split_dots_label:
  "CHR ''.'' \<notin> set l \<Longrightarrow> split_dots (l @ CHR ''.'' # s) = l # split_dots s"
  by (induction l) auto

lemma split_dots_single: "CHR ''.'' \<notin> set l \<Longrightarrow> split_dots l = [l]"
  by (induction l) auto

lemma alnum_not_special [simp]: "\<not> alnum (CHR ''.'')" "\<not> alnum (CHR ''-'')"
  by (simp_all add: alnum_def is_digit_def is_lower_def)

definition hyphen_name :: "string \<Rightarrow> bool" where
  "hyphen_name s = list_all (\<lambda>c. alnum c \<or> c = CHR ''-'') s"

lemma hyphen_name_no_dot: "hyphen_name s \<Longrightarrow> CHR ''.'' \<notin> set s"
  using alnum_not_special(1) by (auto simp: hyphen_name_def list_all_iff)

lemma hyphenate_name: "hyphen_name (hyphenate s)"
  by (induction s rule: hyphenate.induct) (auto simp: hyphen_name_def)

lemma strip_right_prefix: "\<exists>r. s = strip_right s @ r"
  unfolding strip_right_def by (metis rev_append rev_rev_ident takeWhile_dropWhile_id)

lemma set_strip_right: "set (strip_right s) \<subseteq> set s"
  by (metis strip_right_prefix set_append Un_upper1)

lemma hyphen_name_parts:
  "hyphen_name s \<Longrightarrow> hyphen_name (take n s)" "hyphen_name s \<Longrightarrow> hyphen_name (dropWhile p s)"
  "hyphen_name s \<Longrightarrow> hyphen_name (strip_right s)"
  using set_strip_right [of s] by (auto simp: hyphen_name_def list_all_iff dest: in_set_takeD set_dropWhileD)

lemma or_app_props:
  "hyphen_name s \<Longrightarrow> hyphen_name (or_app s)" "or_app s \<noteq> []"
  by (auto simp: or_app_def hyphen_name_def alnum_def is_lower_def)

lemma strip_right_last: "strip_right s \<noteq> [] \<Longrightarrow> last (strip_right s) \<noteq> CHR ''-''"
  unfolding strip_right_def using hd_dropWhile [of "\<lambda>c. c = CHR ''-''" "rev s"] by (simp add: last_rev)

lemma strip_right_hd: "strip_right s \<noteq> [] \<Longrightarrow> hd (strip_right s) = hd s"
proof -
  obtain r where "s = strip_right s @ r" using strip_right_prefix by blast
  then show "strip_right s \<noteq> [] \<Longrightarrow> hd (strip_right s) = hd s" by (metis hd_append2)
qed

lemma length_strip_right: "length (strip_right s) \<le> length s"
  by (metis strip_right_prefix length_append le_add1)

lemma app_alnum: "alnum (CHR ''a'')"
  by (simp add: alnum_def is_lower_def)

lemma stripped_hd:
  assumes "hyphen_name n"
  shows "alnum (hd (or_app (strip_right (dropWhile (\<lambda>c. c = CHR ''-'') n))))"
proof (cases "strip_right (dropWhile (\<lambda>c. c = CHR ''-'') n) = []")
  case True
  then show ?thesis by (simp add: or_app_def app_alnum)
next
  case False
  define m where "m = dropWhile (\<lambda>c. c = CHR ''-'') n"
  have "strip_right [] = []" by (simp add: strip_right_def)
  with False have ne: "m \<noteq> []" unfolding m_def by metis
  then have "hd m \<noteq> CHR ''-''" using hd_dropWhile [of "\<lambda>c. c = CHR ''-''" n] by (simp add: m_def)
  moreover have "hyphen_name m" unfolding m_def using assms by (rule hyphen_name_parts)
  with ne have "alnum (hd m) \<or> hd m = CHR ''-''" by (cases m) (auto simp: hyphen_name_def)
  ultimately show ?thesis using False by (simp add: or_app_def strip_right_hd m_def)
qed

lemma readable_hd: "alnum (hd (readable_name p e))"
  unfolding readable_name_def by (rule stripped_hd [OF hyphenate_name])

lemma readable_hyphen: "hyphen_name (readable_name p e)"
  unfolding readable_name_def by (intro or_app_props hyphen_name_parts hyphenate_name)

definition hostname_prefix :: "string \<Rightarrow> string \<Rightarrow> string" where
  "hostname_prefix p e = or_app (strip_right (take 50 (readable_name p e)))"

lemma hostname_prefix_props:
  "hyphen_name (hostname_prefix p e)" "hostname_prefix p e \<noteq> []" "length (hostname_prefix p e) \<le> 50"
  "alnum (hd (hostname_prefix p e))"
proof -
  let ?t = "take 50 (readable_name p e)"
  show "hyphen_name (hostname_prefix p e)"
    unfolding hostname_prefix_def by (intro or_app_props hyphen_name_parts readable_hyphen)
  show "hostname_prefix p e \<noteq> []" by (simp add: hostname_prefix_def or_app_props)
  show "length (hostname_prefix p e) \<le> 50"
    using length_strip_right [of ?t] by (auto simp: hostname_prefix_def or_app_def)
  show "alnum (hd (hostname_prefix p e))"
  proof (cases "strip_right ?t = []")
    case True
    then show ?thesis by (simp add: hostname_prefix_def or_app_def app_alnum)
  next
    case False
    have "readable_name p e \<noteq> []" by (simp add: readable_name_def or_app_props)
    then have "hd ?t = hd (readable_name p e)" by (cases "readable_name p e") simp_all
    with False show ?thesis by (simp add: hostname_prefix_def or_app_def strip_right_hd readable_hd)
  qed
qed

lemma split_dots_labels:
  assumes "CHR ''.'' \<notin> set l"
  shows "split_dots (l @ ''.'' @ b) = l # split_dots b"
  using split_dots_label [OF assms, of b] by simp

definition hex_digest :: "string \<Rightarrow> bool" where
  "hex_digest s = (length s = 64 \<and> list_all (\<lambda>c. is_digit c \<or> of_char c \<in> {97..102 :: nat}) s)"

lemma hex_digest_alnum: "hex_digest s \<Longrightarrow> list_all alnum (take n s)"
  by (auto simp: hex_digest_def list_all_iff alnum_def is_lower_def Let_def dest!: in_set_takeD)

text \<open>
  The documented behaviour of the URL parser the code relies on: the origin of an https URL without a
  port parses again, to the same host, and hosts are in lower case.
\<close>

definition origin_law :: "(string \<Rightarrow> url option) \<Rightarrow> bool" where
  "origin_law parse \<longleftrightarrow> (\<forall>s u. parse s = Some u \<and> ur_protocol u = ''https:'' \<and> ur_port u = [] \<longrightarrow>
     (\<exists>u'. parse (lower (ur_origin u)) = Some u' \<and> ur_hostname u' = lower (ur_hostname u)))"

lemma normalize_host:
  assumes "normalize_gateway_origin parse is_ip v = Inr o'" and "origin_law parse"
  obtains h where "host_of parse o' = Inr h" "list_all dns_label (split_dots h)" "length h \<le> 253"
proof -
  from assms(1) obtain u where u: "parse v = Some u" "ur_protocol u = ''https:''" "ur_port u = []"
    "list_all dns_label (split_dots (lower (ur_hostname u)))" "length (lower (ur_hostname u)) \<le> 253"
    "o' = lower (ur_origin u)"
    by (auto simp: normalize_gateway_origin_def Let_def list_all_iff list_ex_iff split: option.splits if_splits)
  with assms(2) obtain u' where "parse o' = Some u'" "ur_hostname u' = lower (ur_hostname u)"
    by (auto simp: origin_law_def)
  with u show thesis by (intro that [of "lower (ur_hostname u)"]) (simp_all add: host_of_def)
qed

lemma stable_hostname_shape:
  assumes "stable_gateway_hostname sha256 parse is_ip p e i z = Inr h"
  obtains o' b where "normalize_gateway_origin parse is_ip z = Inr o'" "host_of parse o' = Inr b"
    "h = (hostname_prefix p e @ ''-'' @ take 12 (sha256 i)) @ ''.'' @ b" "length h \<le> 253"
  using assms that
  by (auto simp: stable_gateway_hostname_def hostname_prefix_def route_hash_length_def Let_def
      split: sum.splits if_splits)

lemma prefix_digest_label:
  assumes "hex_digest s"
  shows "dns_label (hostname_prefix p e @ ''-'' @ take 12 s)" and "CHR ''.'' \<notin> set (hostname_prefix p e @ ''-'' @ take 12 s)"
proof -
  let ?l = "hostname_prefix p e @ ''-'' @ take 12 s"
  have d: "list_all alnum (take 12 s)" "length (take 12 s) = 12"
    using hex_digest_alnum [OF assms] assms by (auto simp: hex_digest_def)
  have "hyphen_name ?l" using d(1) hostname_prefix_props(1) by (auto simp: hyphen_name_def list_all_iff)
  then show "CHR ''.'' \<notin> set ?l" by (rule hyphen_name_no_dot)
  have ne: "take 12 s \<noteq> []" using d(2) by (metis list.size(3) zero_neq_numeral)
  then have "last ?l = last (take 12 s)" by simp
  with d(1) ne have "alnum (last ?l)" by (simp add: list_all_iff)
  moreover have "hd ?l = hd (hostname_prefix p e)" using hostname_prefix_props(2) by simp
  then have "alnum (hd ?l)" using hostname_prefix_props(4) by simp
  moreover have "length ?l \<le> 63" using hostname_prefix_props(3) [of p e] d(2) by simp
  moreover have "?l \<noteq> []" by simp
  ultimately show "dns_label ?l" using \<open>hyphen_name ?l\<close> unfolding dns_label_def hyphen_name_def by blast
qed

section \<open>Properties\<close>

text \<open>
  C17: A gateway hostname is always a valid DNS name inside the confirmed zone. Whatever the names of
  project and environment (empty, symbols only, very long), if a hostname is made then it is one label
  in front of the zone's own host, every label of it has 1 to 63 letters, digits and inner hyphens,
  and the whole name has at most 253 characters.
\<close>

theorem gateway_hostname_is_valid_dns:
  assumes "stable_gateway_hostname sha256 parse is_ip p e i z = Inr h" and "origin_law parse"
    and "hex_digest (sha256 i)"
  shows "length h \<le> 253 \<and> list_all dns_label (split_dots h) \<and>
    (\<exists>o' b. normalize_gateway_origin parse is_ip z = Inr o' \<and> host_of parse o' = Inr b \<and>
       tl (split_dots h) = split_dots b \<and> ends_with (''.'' @ b) h)"
proof -
  let ?l = "hostname_prefix p e @ ''-'' @ take 12 (sha256 i)"
  from assms(1) obtain o' b where shape: "normalize_gateway_origin parse is_ip z = Inr o'" "host_of parse o' = Inr b"
    "h = ?l @ ''.'' @ b" "length h \<le> 253"
    by (rule stable_hostname_shape)
  obtain b' where b': "host_of parse o' = Inr b'" "list_all dns_label (split_dots b')"
    using normalize_host [OF shape(1) assms(2)] by metis
  have split: "split_dots h = ?l # split_dots b"
    unfolding shape(3) by (rule split_dots_labels [OF prefix_digest_label(2) [OF assms(3)]])
  have "ends_with (''.'' @ b) h" unfolding ends_with_def starts_with_iff shape(3) by simp
  with split shape b' prefix_digest_label(1) [OF assms(3), of p e] show ?thesis by simp
qed

text \<open>A parser of bare https origins, for the witnesses.\<close>

definition sample_parse :: "string \<Rightarrow> url option" where
  "sample_parse s = (if starts_with ''https://'' s
     then Some \<lparr>ur_protocol = ''https:'', ur_username = [], ur_password = [], ur_hostname = lower (drop 8 s),
       ur_port = [], ur_pathname = ''/'', ur_search = [], ur_hash = [], ur_origin = ''https://'' @ lower (drop 8 s)\<rparr>
     else None)"

definition sample_sha :: "string \<Rightarrow> string" where
  "sample_sha s = replicate 64 (if s = ''e1'' then CHR ''a'' else CHR ''7'')"

lemma lower_char_idem: "lower_char (lower_char c) = lower_char c"
proof -
  have "(of_char (char_of (of_char c + 32 :: nat) :: char) :: nat) = of_char c + 32" if "of_char c \<le> (90 :: nat)"
    using that by (simp add: of_char_of)
  then show ?thesis by (auto simp: lower_char_def Let_def)
qed

lemma lower_idem: "lower (lower s) = lower s"
  by (simp add: lower_def lower_char_idem)

lemma sample_parse_law: "origin_law sample_parse"
proof -
  have "lower ''https://'' = ''https://''" by code_simp
  then have "lower (''https://'' @ x) = ''https://'' @ lower x" for x by (simp add: lower_def)
  moreover have "starts_with ''https://'' (''https://'' @ x)" "drop 8 (''https://'' @ x) = x" for x
    by (simp_all add: starts_with_iff)
  ultimately show ?thesis unfolding origin_law_def sample_parse_def by (auto simp: lower_idem)
qed

lemma sample_sha_hex: "hex_digest (sample_sha s)"
  by (simp add: hex_digest_def sample_sha_def list_all_iff is_digit_def Let_def)

theorem gateway_hostname_is_valid_dns_witness:
  "let h = ''my-app-dev-aaaaaaaaaaaa.apps.example.org'' in
     stable_gateway_hostname sample_sha sample_parse (\<lambda>_. False) ''-My App!'' ''dev'' ''e1'' ''https://apps.example.org'' = Inr h \<and>
     list_all dns_label (split_dots h)"
proof -
  have run: "stable_gateway_hostname sample_sha sample_parse (\<lambda>_. False) ''-My App!'' ''dev'' ''e1'' ''https://apps.example.org''
      = Inr ''my-app-dev-aaaaaaaaaaaa.apps.example.org''" by code_simp
  from gateway_hostname_is_valid_dns [OF run sample_parse_law sample_sha_hex] run show ?thesis by (simp add: Let_def)
qed

text \<open>
  Two environments never share a gateway hostname. Whatever their projects, names and zones are
  called, hostnames of environments whose ids differ in the first twelve digits of their digest differ.
\<close>

theorem gateway_hostnames_are_distinct:
  assumes "stable_gateway_hostname sha256 parse is_ip p e i z = Inr h"
    and "stable_gateway_hostname sha256 parse is_ip p' e' i' z' = Inr h'"
    and "hex_digest (sha256 i)" and "hex_digest (sha256 i')"
    and "take 12 (sha256 i) \<noteq> take 12 (sha256 i')"
  shows "h \<noteq> h'"
proof
  assume eq: "h = h'"
  let ?l = "hostname_prefix p e @ ''-'' @ take 12 (sha256 i)" and ?l' = "hostname_prefix p' e' @ ''-'' @ take 12 (sha256 i')"
  obtain b where h: "h = ?l @ ''.'' @ b" using stable_hostname_shape [OF assms(1)] by metis
  obtain b' where h': "h' = ?l' @ ''.'' @ b'" using stable_hostname_shape [OF assms(2)] by metis
  have "?l = hd (split_dots h)" "?l' = hd (split_dots h')"
    using split_dots_labels [OF prefix_digest_label(2) [OF assms(3)], of p e b]
      split_dots_labels [OF prefix_digest_label(2) [OF assms(4)], of p' e' b'] h h' by simp_all
  with eq have "?l = ?l'" by simp
  moreover have "length (take 12 (sha256 i)) = 12" "length (take 12 (sha256 i')) = 12"
    using assms(3,4) by (simp_all add: hex_digest_def)
  ultimately have "take 12 (sha256 i) = take 12 (sha256 i')"
    using append_eq_append_conv [of "hostname_prefix p e @ ''-''" "hostname_prefix p' e' @ ''-''"
      "take 12 (sha256 i)" "take 12 (sha256 i')"] by simp
  with assms(5) show False by simp
qed

theorem gateway_hostnames_are_distinct_witness:
  "\<exists>h h'. stable_gateway_hostname sample_sha sample_parse (\<lambda>_. False) ''app'' ''dev'' ''e1'' ''https://a.org'' = Inr h \<and>
     stable_gateway_hostname sample_sha sample_parse (\<lambda>_. False) ''app'' ''dev'' ''e2'' ''https://a.org'' = Inr h' \<and> h \<noteq> h'"
proof -
  have r1: "stable_gateway_hostname sample_sha sample_parse (\<lambda>_. False) ''app'' ''dev'' ''e1'' ''https://a.org'' = Inr ''app-dev-aaaaaaaaaaaa.a.org''"
    and r2: "stable_gateway_hostname sample_sha sample_parse (\<lambda>_. False) ''app'' ''dev'' ''e2'' ''https://a.org'' = Inr ''app-dev-777777777777.a.org''"
    by code_simp+
  have "take 12 (sample_sha ''e1'') \<noteq> take 12 (sample_sha ''e2'')" by code_simp
  from gateway_hostnames_are_distinct [OF r1 r2 sample_sha_hex sample_sha_hex this] r1 r2 show ?thesis by blast
qed

end
