(* ===== verification/Targets.thy ===== *)
theory Targets
  imports Workspaces
begin

text \<open>
  The management lifecycle of deployment targets (\<open>targets/targets.service.ts\<close>): who may see and
  administer a target, disconnecting and retiring it, restoring, verifying and removing it. Target
  settings (\<open>create\<close>, \<open>update\<close>, host keys) are not modelled.

  \<open>own\<close> says whether this is a self-hosted installation, \<open>now\<close> is the current time, \<open>down\<close> whether
  the audit log is unavailable. \<open>mid\<close> is what other requests commit between the reads of a method
  and its transaction, or during its outbound connection test.
\<close>

section \<open>Access\<close>

definition target_not_found :: "string \<Rightarrow> http_error" where
  "target_not_found i = NotFound (''Target '' @ [CHR 0x27] @ i @ [CHR 0x27] @ '' not found'')"

definition get_visible_target ::
  "bool \<Rightarrow> string \<Rightarrow> string \<Rightarrow> permission \<Rightarrow> db \<Rightarrow> target_row outcome" where
  "get_visible_target own i u p d = (case target_by_id (Some i) d of
      None \<Rightarrow> Inl (target_not_found i)
    | Some t \<Rightarrow>
        if tg_scope t = Builtin \<and> \<not> own then Inl (target_not_found i)
        else if tg_scope t \<noteq> Builtin
        then (if \<not> truthy (tg_workspaceId t) then Inl (Forbidden ''Target has no workspace assignment'')
              else (case require u (the (tg_workspaceId t)) p d of
                  Inl e \<Rightarrow> Inl e | Inr _ \<Rightarrow> Inr t))
        else Inr t)"

definition get_user_target ::
  "bool \<Rightarrow> string \<Rightarrow> string \<Rightarrow> permission \<Rightarrow> db \<Rightarrow> target_row outcome" where
  "get_user_target own i u p d = (case get_visible_target own i u p d of
      Inl e \<Rightarrow> Inl e
    | Inr t \<Rightarrow> if tg_scope t = Builtin then Inl (BadRequest ''Built-in targets cannot be modified'')
               else Inr t)"

section \<open>Disconnecting and retiring\<close>

definition bound_to :: "string \<Rightarrow> environment_row \<Rightarrow> bool" where
  "bound_to i e = (en_targetId e = Some i)"

definition unavailable_message :: "management_state \<Rightarrow> string" where
  "unavailable_message s = (if s = MgRetired then ''Target retired by a workspace administrator''
     else ''Target disconnected by a workspace administrator'')"

definition unavailable_target ::
  "provider_kind \<Rightarrow> management_state \<Rightarrow> instant \<Rightarrow> target_row \<Rightarrow> target_row" where
  "unavailable_target k s now t =
     (let t1 = t\<lparr>tg_managementState := s, tg_managementStateChangedAt := Some now, tg_verifiedAt := None\<rparr>
      in if k = Docker
         then t1\<lparr>tg_preflightStatus := PfNotRun, tg_preflightJobId := None, tg_preflightAt := None,
                 tg_preflightError := None, tg_gatewayCaSha256 := None\<rparr>
         else t1\<lparr>tg_secret := None\<rparr>)"

definition revoked_agent :: "instant \<Rightarrow> agent_row \<Rightarrow> agent_row" where
  "revoked_agent now a = a\<lparr>ag_disabledAt := Some now, ag_enrollmentTokenHash := None,
     ag_enrollmentExpiresAt := None, ag_credentialHash := None, ag_credentialActivatedAt := None,
     ag_pendingHash := None, ag_pendingGeneration := None, ag_pendingIssuedAt := None\<rparr>"

definition failed_diagnostic :: "string \<Rightarrow> instant \<Rightarrow> diagnostic_row \<Rightarrow> diagnostic_row" where
  "failed_diagnostic m now w = w\<lparr>wd_status := DgFailed, wd_message := Some m, wd_finishedAt := Some now\<rparr>"

definition open_job :: "agent_job_row \<Rightarrow> bool" where
  "open_job j = (aj_status j \<in> {JbBlocked, JbQueued, JbLeased})"

definition cancelled_job :: "string \<Rightarrow> instant \<Rightarrow> agent_job_row \<Rightarrow> agent_job_row" where
  "cancelled_job m now j = j\<lparr>aj_status := JbCancelled, aj_progressStage := ''cancelled'',
     aj_message := Some m, aj_leaseExpiresAt := None, aj_finishedAt := Some now\<rparr>"

definition on_target :: "string \<Rightarrow> db \<Rightarrow> string \<Rightarrow> bool" where
  "on_target i d e = list_ex (\<lambda>x. en_id x = e \<and> bound_to i x) (environments d)"

definition job_on_target :: "string \<Rightarrow> db \<Rightarrow> string option \<Rightarrow> bool" where
  "job_on_target i d j = list_ex (\<lambda>x. Some (aj_id x) = j \<and> aj_targetId x = i) (agentJobs d)"

definition cancelled_operation :: "string \<Rightarrow> instant \<Rightarrow> operation_row \<Rightarrow> operation_row" where
  "cancelled_operation m now r = r\<lparr>op_status := OpResult Cancelled, op_phase := Result Cancelled,
     op_message := Some m, op_finishedAt := Some now, op_owner := None, op_leaseExpiresAt := None\<rparr>"

definition released_environment :: "string \<Rightarrow> environment_row \<Rightarrow> environment_row" where
  "released_environment m e = e\<lparr>en_activeOperationId := None, en_status := EsFailed,
     en_statusReason := Some (m @ ''; the operation in progress was cancelled'')\<rparr>"

text \<open>The transaction: target, Agent, diagnostics, jobs and, behind an Agent, running operations.\<close>

definition unavailable_tx ::
  "target_row \<Rightarrow> management_state \<Rightarrow> nat \<Rightarrow> instant \<Rightarrow> db \<Rightarrow> db" where
  "unavailable_tx t s active now d =
     (let i = tg_id t; m = unavailable_message s; behind = (tg_kind t = Docker \<and> active > 0);
          d1 = d\<lparr>targets := rewrite (\<lambda>x. tg_id x = i) (unavailable_target (tg_kind t) s now) (targets d),
                 agents := rewrite (\<lambda>a. ag_targetId a = i) (revoked_agent now) (agents d),
                 diagnostics := rewrite (\<lambda>w. wd_status w \<in> {DgQueued, DgRunning} \<and> job_on_target i d (wd_currentJobId w))
                   (failed_diagnostic m now) (diagnostics d),
                 agentJobs := rewrite (\<lambda>j. aj_targetId j = i \<and> open_job j) (cancelled_job m now) (agentJobs d)\<rparr>
      in if behind
         then d1\<lparr>operations := rewrite (\<lambda>r. op_finishedAt r = None \<and> on_target i d (op_environmentId r))
                    (cancelled_operation m now) (operations d),
                 environments := rewrite (\<lambda>e. bound_to i e \<and> en_activeOperationId e \<noteq> None)
                    (released_environment m) (environments d)\<rparr>
         else d1)"

definition unavailable_audit ::
  "target_row \<Rightarrow> string \<Rightarrow> management_state \<Rightarrow> nat \<Rightarrow> nat \<Rightarrow> audit_input" where
  "unavailable_audit t u s bindings active = \<lparr>ai_workspaceId = tg_workspaceId t, ai_actorUserId = Some u,
     ai_anonymous = False, ai_action = ''target.'' @ management_str s, ai_outcome = None,
     ai_resourceType = ''target'', ai_resourceId = Some (tg_id t), ai_resourceName = Some (tg_name t),
     ai_operation = None,
     ai_details = Some ([(''kind'', JStr (provider_str (tg_kind t))), (''boundEnvironments'', JNum (int bindings))] @
       (if tg_kind t = Docker \<and> active > 0 then [(''cancelledOperations'', JNum (int active))] else []))\<rparr>"

definition agent_disabled_audit :: "target_row \<Rightarrow> string \<Rightarrow> agent_row \<Rightarrow> audit_input" where
  "agent_disabled_audit t u a = \<lparr>ai_workspaceId = tg_workspaceId t, ai_actorUserId = Some u,
     ai_anonymous = False, ai_action = ''agent.disabled'', ai_outcome = None,
     ai_resourceType = ''agent'', ai_resourceId = Some (ag_id a), ai_resourceName = Some (tg_name t),
     ai_operation = None, ai_details = Some [(''targetId'', JStr (tg_id t))]\<rparr>"

definition make_unavailable ::
  "(db \<Rightarrow> db) \<Rightarrow> bool \<Rightarrow> instant \<Rightarrow> target_row \<Rightarrow> string \<Rightarrow> management_state \<Rightarrow> db \<Rightarrow> db \<times> unit outcome" where
  "make_unavailable mid down now t u s d =
     (if tg_managementState t = s then (d, Inr ())
      else (let active = count_where (\<lambda>e. bound_to (tg_id t) e \<and> en_activeOperationId e \<noteq> None) (environments d);
                agent = (if tg_kind t = Docker then agent_of_target (tg_id t) d else None);
                bindings = count_where (bound_to (tg_id t)) (environments d)
        in if active > 0 \<and> tg_kind t \<noteq> Docker
           then (d, Inl (BadRequest (''This target has '' @ nat_str active @ '' environment operation(s) in progress. Wait for them to finish or cancel them before changing target management.'')))
           else (let d1 = mid d in
             if target_by_id (Some (tg_id t)) d1 = None then (d1, Inl (ServerError ''P2025''))
             else (let d2 = unavailable_tx t s active now d1 in
               case audit_record down (unavailable_audit t u s bindings active) d2 of
                 (d3, Inl e) \<Rightarrow> (d3, Inl e)
               | (d3, Inr _) \<Rightarrow> (case agent of
                     None \<Rightarrow> (d3, Inr ())
                   | Some a \<Rightarrow> audit_record down (agent_disabled_audit t u a) d3)))))"

definition target_disconnect ::
  "bool \<Rightarrow> (db \<Rightarrow> db) \<Rightarrow> bool \<Rightarrow> instant \<Rightarrow> string \<Rightarrow> string \<Rightarrow> db \<Rightarrow> db \<times> unit outcome" where
  "target_disconnect own mid down now i u d = (case get_user_target own i u Administer d of
      Inl e \<Rightarrow> (d, Inl e)
    | Inr t \<Rightarrow>
        if tg_managementState t = MgRetired
        then (d, Inl (BadRequest ''Restore this retired target before disconnecting it''))
        else make_unavailable mid down now t u MgDisconnected d)"

definition target_retire ::
  "bool \<Rightarrow> (db \<Rightarrow> db) \<Rightarrow> bool \<Rightarrow> instant \<Rightarrow> string \<Rightarrow> string \<Rightarrow> db \<Rightarrow> db \<times> unit outcome" where
  "target_retire own mid down now i u d = (case get_user_target own i u Administer d of
      Inl e \<Rightarrow> (d, Inl e)
    | Inr t \<Rightarrow> make_unavailable mid down now t u MgRetired d)"

section \<open>Restoring and verifying\<close>

definition target_audit ::
  "target_row \<Rightarrow> string \<Rightarrow> string \<Rightarrow> (string \<times> json) list \<Rightarrow> audit_input" where
  "target_audit t u action extra = \<lparr>ai_workspaceId = tg_workspaceId t, ai_actorUserId = Some u,
     ai_anonymous = False, ai_action = action, ai_outcome = None, ai_resourceType = ''target'',
     ai_resourceId = Some (tg_id t), ai_resourceName = Some (tg_name t), ai_operation = None,
     ai_details = Some ((''kind'', JStr (provider_str (tg_kind t))) # extra)\<rparr>"

definition target_restore ::
  "bool \<Rightarrow> (db \<Rightarrow> db) \<Rightarrow> bool \<Rightarrow> instant \<Rightarrow> string \<Rightarrow> string \<Rightarrow> db \<Rightarrow> db \<times> unit outcome" where
  "target_restore own mid down now i u d = (case get_user_target own i u Administer d of
      Inl e \<Rightarrow> (d, Inl e)
    | Inr t \<Rightarrow>
        if tg_managementState t \<noteq> MgRetired
        then (d, Inl (BadRequest ''Only a retired target can be restored''))
        else (let d1 = mid d in
          if target_by_id (Some i) d1 = None then (d1, Inl (ServerError ''P2025''))
          else audit_record down (target_audit t u ''target.restored'' [(''state'', JStr ''disconnected'')])
            (d1\<lparr>targets := rewrite (\<lambda>x. tg_id x = i) (\<lambda>x. x\<lparr>tg_managementState := MgDisconnected,
               tg_managementStateChangedAt := Some now, tg_verifiedAt := None\<rparr>) (targets d1)\<rparr>)))"

definition verified_target :: "bool \<Rightarrow> instant \<Rightarrow> target_row \<Rightarrow> target_row" where
  "verified_target reconnecting now x = x\<lparr>tg_verifiedAt := Some now, tg_managementState := MgActive,
     tg_managementStateChangedAt := (if reconnecting then Some now else tg_managementStateChangedAt x)\<rparr>"

text \<open>
  \<open>test\<close> is the provider's connection test on the row that was read: whether it succeeded, or the
  exception it threw.
\<close>

definition target_verify ::
  "bool \<Rightarrow> (target_row \<Rightarrow> bool outcome) \<Rightarrow> (db \<Rightarrow> db) \<Rightarrow> bool \<Rightarrow> instant \<Rightarrow> string \<Rightarrow> string
     \<Rightarrow> string option \<Rightarrow> db \<Rightarrow> db \<times> bool outcome" where
  "target_verify own test mid down now i u requested d = (case get_visible_target own i u Maintain d of
      Inl e \<Rightarrow> (d, Inl e)
    | Inr t \<Rightarrow>
        if tg_managementState t = MgRetired
        then (d, Inl (BadRequest ''Restore this retired target before verifying its connection''))
        else if tg_scope t = UserScope \<and> tg_kind t = Docker
        then (d, Inl (BadRequest ''Agent-backed Docker targets are verified by Agent heartbeat, not an inbound connection test''))
        else (case (if tg_scope t = Builtin
                    then (case resolve u requested d of
                        Inl e \<Rightarrow> Inl e
                      | Inr (w, _) \<Rightarrow> (case require u w Maintain d of Inl e \<Rightarrow> Inl e | Inr _ \<Rightarrow> Inr ()))
                    else Inr ()) of
            Inl e \<Rightarrow> (d, Inl e)
          | Inr _ \<Rightarrow> (let d1 = mid d in
              case test t of
                Inl e \<Rightarrow> (d1, Inl e)
              | Inr ok \<Rightarrow>
                  if ok \<and> tg_scope t = UserScope
                  then (let reconnecting = tg_managementState t \<noteq> MgActive in
                    if target_by_id (Some i) d1 = None then (d1, Inl (ServerError ''P2025''))
                    else (let d2 = d1\<lparr>targets := rewrite (\<lambda>x. tg_id x = i) (verified_target reconnecting now) (targets d1)\<rparr> in
                      if reconnecting
                      then (case audit_record down (target_audit t u ''target.connected'' []) d2 of
                          (d3, Inl e) \<Rightarrow> (d3, Inl e) | (d3, Inr _) \<Rightarrow> (d3, Inr ok))
                      else (d2, Inr ok)))
                  else (d1, Inr ok))))"

section \<open>Removing\<close>

text \<open>
  Deleting a target row: a gateway route restricts it; its Agent, jobs and allocations go with it
  and the references of environments, diagnostics and other jobs become null.
\<close>

definition delete_target :: "string \<Rightarrow> db \<Rightarrow> db outcome" where
  "delete_target i d =
     (if target_by_id (Some i) d = None then Inl (ServerError ''P2025'')
      else if list_ex (\<lambda>g. gr_targetId g = i) (gatewayRoutes d) then Inl (ServerError ''P2003'')
      else (let gone_allocation = (\<lambda>a. list_ex (\<lambda>x. al_targetId x = i \<and> Some (al_id x) = a) (allocations d));
                gone_agent = (\<lambda>a. list_ex (\<lambda>x. ag_targetId x = i \<and> Some (ag_id x) = a) (agents d))
        in Inr (d\<lparr>targets := delete_many (\<lambda>t. tg_id t = i) (targets d),
                 agents := delete_many (\<lambda>a. ag_targetId a = i) (agents d),
                 agentJobs := rewrite (\<lambda>j. gone_agent (aj_leasedByAgentId j)) (\<lambda>j. j\<lparr>aj_leasedByAgentId := None\<rparr>)
                   (delete_many (\<lambda>j. aj_targetId j = i) (agentJobs d)),
                 diagnostics := rewrite (\<lambda>w. job_on_target i d (wd_currentJobId w))
                   (\<lambda>w. w\<lparr>wd_currentJobId := None\<rparr>) (diagnostics d),
                 allocations := delete_many (\<lambda>a. al_targetId a = i) (allocations d),
                 environments := map (\<lambda>e. e\<lparr>
                   en_targetId := (if bound_to i e then None else en_targetId e),
                   en_allocationId := (if gone_allocation (en_allocationId e) then None else en_allocationId e)\<rparr>)
                   (environments d)\<rparr>)))"

definition records_deployment :: "environment_row \<Rightarrow> bool" where
  "records_deployment e = (en_status e \<noteq> EsEmpty \<or> en_version e \<noteq> None \<or> en_activeOperationId e \<noteq> None)"

definition unbound_tx :: "string \<Rightarrow> db \<Rightarrow> db outcome" where
  "unbound_tx i d = delete_target i (d\<lparr>
     gatewayRoutes := delete_many (\<lambda>g. gr_targetId g = i) (gatewayRoutes d),
     environments := rewrite (bound_to i) (\<lambda>e. e\<lparr>en_targetId := None, en_allocationId := None\<rparr>) (environments d)\<rparr>)"

fun comma_list :: "string list \<Rightarrow> string" where
  "comma_list [] = []"
| "comma_list [x] = x"
| "comma_list (x # y # zs) = x @ '', '' @ comma_list (y # zs)"

definition environment_label :: "db \<Rightarrow> environment_row \<Rightarrow> string" where
  "environment_label d e = (case project_by_id (en_projectId e) d of None \<Rightarrow> [] | Some p \<Rightarrow> pj_name p)
     @ ''/'' @ env_name_str (en_name e)"

definition remove_unmanaged :: "(db \<Rightarrow> db) \<Rightarrow> string \<Rightarrow> db \<Rightarrow> db \<times> unit outcome" where
  "remove_unmanaged mid i d =
     (let deployed = filter (\<lambda>e. bound_to i e \<and> records_deployment e) (environments d) in
      if deployed \<noteq> []
      then (d, Inl (BadRequest (''Release the deployments still recorded on this server first: ''
              @ comma_list (map (environment_label d) deployed) @ ''.'')))
      else (case unbound_tx i (mid d) of Inl e \<Rightarrow> (mid d, Inl e) | Inr d' \<Rightarrow> (d', Inr ())))"

definition target_remove ::
  "bool \<Rightarrow> (db \<Rightarrow> db) \<Rightarrow> bool \<Rightarrow> string \<Rightarrow> string \<Rightarrow> db \<Rightarrow> db \<times> unit outcome" where
  "target_remove own mid down i u d = (case get_user_target own i u Maintain d of
      Inl e \<Rightarrow> (d, Inl e)
    | Inr t \<Rightarrow> (let inUse = count_where (bound_to i) (environments d) in
        if inUse > 0 \<and> tg_managementState t = MgActive
        then (d, Inl (BadRequest (''This target is used by '' @ nat_str inUse @ '' environment(s). Point them at another target first.'')))
        else (case (if inUse > 0 then remove_unmanaged mid i d
                    else (case delete_target i (mid d) of
                        Inl e \<Rightarrow> (mid d, Inl e) | Inr d' \<Rightarrow> (d', Inr ()))) of
            (d1, Inl e) \<Rightarrow> (d1, Inl e)
          | (d1, Inr _) \<Rightarrow> audit_record down (target_audit t u ''target.deleted'' []) d1)))"

section \<open>Lemmas\<close>

lemma target_by_id_rewrite:
  assumes "\<And>t. tg_id (f t) = tg_id t"
  shows "find_first (\<lambda>t. tg_id t = i) (rewrite (\<lambda>t. tg_id t = i) f ts) =
    map_option f (find_first (\<lambda>t. tg_id t = i) ts)"
  using assms by (induction ts) (auto simp: rewrite_def)

lemma unavailable_target_id [simp]: "tg_id (unavailable_target k s now t) = tg_id t"
  by (simp add: unavailable_target_def Let_def)

lemma unavailable_target_fields [simp]:
  "tg_managementState (unavailable_target k s now t) = s"
  "k \<noteq> Docker \<Longrightarrow> tg_secret (unavailable_target k s now t) = None"
  by (simp_all add: unavailable_target_def Let_def)

lemma verified_target_fields [simp]:
  "tg_id (verified_target b now t) = tg_id t"
  "tg_managementState (verified_target b now t) = MgActive"
  "tg_secret (verified_target b now t) = tg_secret t"
  by (simp_all add: verified_target_def)

lemma get_visible_target_id:
  "get_visible_target own i u p d = Inr t \<Longrightarrow> target_by_id (Some i) d = Some t \<and> tg_id t = i"
  by (auto simp: get_visible_target_def target_by_id_def split: option.splits if_splits sum.splits
      dest: find_first_Some)

lemma get_user_targetD:
  "get_user_target own i u p d = Inr t \<Longrightarrow> get_visible_target own i u p d = Inr t \<and> tg_scope t = UserScope"
  by (auto simp: get_user_target_def split: sum.splits if_splits intro: target_scope.exhaust [of "tg_scope t"])

lemma get_user_target_role:
  "get_user_target own i u p d = Inr t \<Longrightarrow>
     \<exists>w r. tg_workspaceId t = Some w \<and> role_for u w d = Some r \<and> r \<in> permissions p"
  by (cases "tg_workspaceId t")
    (auto simp: get_user_target_def get_visible_target_def require_Inr split: sum.splits if_splits option.splits)

text \<open>The revoked Agents, cancelled jobs and freed environments after the transaction.\<close>

definition no_credentials :: "agent_row \<Rightarrow> bool" where
  "no_credentials a \<longleftrightarrow> ag_disabledAt a \<noteq> None \<and> ag_enrollmentTokenHash a = None \<and>
     ag_credentialHash a = None \<and> ag_pendingHash a = None"

definition cut_off :: "string \<Rightarrow> db \<Rightarrow> bool" where
  "cut_off i d \<longleftrightarrow> (\<forall>a \<in> set (agents d). ag_targetId a = i \<longrightarrow> no_credentials a) \<and>
     (\<forall>j \<in> set (agentJobs d). aj_targetId j = i \<longrightarrow> \<not> open_job j)"

lemma unavailable_tx_cut_off: "cut_off (tg_id t) (unavailable_tx t s active now d)"
  by (auto simp: cut_off_def unavailable_tx_def Let_def rewrite_def revoked_agent_def no_credentials_def
      cancelled_job_def open_job_def)

lemma unavailable_tx_target:
  "target_by_id (Some (tg_id t)) (unavailable_tx t s active now d) =
     map_option (unavailable_target (tg_kind t) s now) (target_by_id (Some (tg_id t)) d)"
  by (simp add: unavailable_tx_def Let_def target_by_id_def target_by_id_rewrite)

lemma unavailable_tx_environments:
  "environments (unavailable_tx t s active now d) =
     (if tg_kind t = Docker \<and> active > 0
      then rewrite (\<lambda>e. bound_to (tg_id t) e \<and> en_activeOperationId e \<noteq> None)
             (released_environment (unavailable_message s)) (environments d)
      else environments d)"
  by (simp add: unavailable_tx_def Let_def)

lemma only_audit_lookup:
  "only_audit d d' \<Longrightarrow> target_by_id i d' = target_by_id i d"
  "only_audit d d' \<Longrightarrow> cut_off k d' = cut_off k d"
  by (auto simp: target_by_id_def cut_off_def dest: only_audit_frame)

lemma make_unavailable_Inr:
  assumes "make_unavailable mid down now t u s d = (d', Inr ())" and "tg_managementState t \<noteq> s"
  obtains d2 active where "d2 = unavailable_tx t s active now (mid d)"
    "active = count_where (\<lambda>e. bound_to (tg_id t) e \<and> en_activeOperationId e \<noteq> None) (environments d)"
    "active = 0 \<or> tg_kind t = Docker" "only_audit d2 d'" "target_by_id (Some (tg_id t)) (mid d) \<noteq> None"
proof -
  have trans: "only_audit a c" if "only_audit a b" "only_audit b c" for a b c
    using that by (auto simp: only_audit_def)
  let ?n = "count_where (\<lambda>e. bound_to (tg_id t) e \<and> en_activeOperationId e \<noteq> None) (environments d)"
  let ?a = "audit_record down (unavailable_audit t u s (count_where (bound_to (tg_id t)) (environments d)) ?n)
    (unavailable_tx t s ?n now (mid d))"
  have "only_audit (unavailable_tx t s ?n now (mid d)) (fst ?a)" by (rule only_audit_record)
  moreover have "only_audit (fst ?a) d'"
    using assms by (auto simp: make_unavailable_def Let_def split: if_splits prod.splits sum.splits option.splits
        dest!: arg_cong [where f = fst] intro: only_audit_record)
  ultimately have "only_audit (unavailable_tx t s ?n now (mid d)) d'" by (rule trans)
  moreover have "?n = 0 \<or> tg_kind t = Docker" "target_by_id (Some (tg_id t)) (mid d) \<noteq> None"
    using assms by (auto simp: make_unavailable_def Let_def split: if_splits)
  ultimately show thesis by (intro that [OF refl refl]) auto
qed

lemma disconnect_or_retire:
  assumes "target_disconnect own mid down now i u d = (d', Inr ()) \<and> s = MgDisconnected \<or>
      target_retire own mid down now i u d = (d', Inr ()) \<and> s = MgRetired"
  obtains t where "get_user_target own i u Administer d = Inr t" "target_by_id (Some i) d = Some t" "tg_id t = i"
    "make_unavailable mid down now t u s d = (d', Inr ())"
  using assms get_user_targetD get_visible_target_id
  by (fastforce simp: target_disconnect_def target_retire_def split: sum.splits if_splits)

lemma freed_environment [simp]: "en_activeOperationId (released_environment m e) = None"
  by (simp add: released_environment_def)

section \<open>Properties\<close>

text \<open>
  C13: Disconnecting or retiring a target ends all work on it. When either returns normally for a
  target that was not yet in that state, the caller was an owner or admin of the target's workspace;
  the target is in the new state, a remote target has lost its stored credential; every Agent bound
  to it is disabled and holds neither a credential, nor a pending one, nor an enrollment; no job of
  the target is blocked, queued or leased; and, when no other request interferes, no environment
  bound to it is still locked by an operation.
\<close>

theorem disconnecting_ends_all_work:
  assumes "target_disconnect own mid down now i u d = (d', Inr ()) \<and> s = MgDisconnected \<or>
      target_retire own mid down now i u d = (d', Inr ()) \<and> s = MgRetired"
    and "target_by_id (Some i) d = Some t" and "tg_managementState t \<noteq> s"
  shows "(\<exists>w. tg_workspaceId t = Some w \<and> (role_for u w d = Some Owner \<or> role_for u w d = Some Admin))
    \<and> (\<exists>t'. target_by_id (Some i) d' = Some t' \<and> tg_managementState t' = s \<and>
         (tg_kind t \<noteq> Docker \<longrightarrow> tg_secret t' = None))
    \<and> (\<forall>a \<in> set (agents d'). ag_targetId a = i \<longrightarrow> no_credentials a)
    \<and> (\<forall>j \<in> set (agentJobs d'). aj_targetId j = i \<longrightarrow> \<not> open_job j)
    \<and> (environments (mid d) = environments d \<longrightarrow>
         (\<forall>e \<in> set (environments d'). bound_to i e \<longrightarrow> en_activeOperationId e = None))"
proof -
  obtain t0 where t0: "get_user_target own i u Administer d = Inr t0" "target_by_id (Some i) d = Some t0"
    "tg_id t0 = i" "make_unavailable mid down now t0 u s d = (d', Inr ())"
    using disconnect_or_retire [OF assms(1)] .
  with assms(2) have t: "t0 = t" by simp
  obtain d2 active where run: "d2 = unavailable_tx t s active now (mid d)"
    "active = count_where (\<lambda>e. bound_to (tg_id t) e \<and> en_activeOperationId e \<noteq> None) (environments d)"
    "active = 0 \<or> tg_kind t = Docker" "only_audit d2 d'" "target_by_id (Some (tg_id t)) (mid d) \<noteq> None"
    using make_unavailable_Inr [OF t0(4)] assms(3) t by blast
  have env: "environments d' = environments d2" using only_audit_frame [OF run(4)] by simp
  have "cut_off i d'"
    using unavailable_tx_cut_off [of t s active now "mid d"] run(1) only_audit_lookup(2) [OF run(4), of i] t0(3) t
    by simp
  moreover have "\<exists>t'. target_by_id (Some i) d' = Some t' \<and> tg_managementState t' = s \<and>
      (tg_kind t \<noteq> Docker \<longrightarrow> tg_secret t' = None)"
    using run(5) unavailable_tx_target [of t s active now "mid d"] run(1) only_audit_lookup(1) [OF run(4)] t0(3) t
    by auto
  moreover have "en_activeOperationId e = None"
    if "environments (mid d) = environments d" "e \<in> set (environments d')" "bound_to i e" for e
    using that run(1,2,3) env t0(3) t
    by (auto simp: unavailable_tx_environments rewrite_def count_where_0_iff split: if_splits)
  moreover have "\<exists>w. tg_workspaceId t = Some w \<and> (role_for u w d = Some Owner \<or> role_for u w d = Some Admin)"
    using get_user_target_role [OF t0(1)] t by auto
  ultimately show ?thesis by (auto simp: cut_off_def)
qed

definition sftp_target :: target_row where
  "sftp_target = \<lparr>tg_id = ''t'', tg_name = ''host'', tg_kind = Sftp, tg_scope = UserScope,
     tg_workspaceId = Some ''w'', tg_capabilities = ''static'', tg_remotePath = None, tg_publicUrl = None, tg_managementState = MgActive,
     tg_managementStateChangedAt = None, tg_routingMode = DirectPort, tg_gatewayAdapter = None,
     tg_preflightStatus = PfNotRun, tg_preflightJobId = None, tg_preflightAt = None,
     tg_preflightError = None, tg_gatewayCaSha256 = None, tg_secret = Some ''sealed'',
     tg_verifiedAt = None, tg_updatedAt = 0\<rparr>"

definition hosting_db :: db where
  "hosting_db = empty_db\<lparr>
     users := [\<lparr>us_id = ''u'', us_username = ''ann'', us_email = None, us_name = None, us_platformAdmin = False\<rparr>],
     members := [\<lparr>mb_workspaceId = ''w'', mb_userId = ''u'', mb_role = Admin\<rparr>],
     targets := [sftp_target, sftp_target\<lparr>tg_id := ''k'', tg_name := ''box'', tg_kind := Docker\<rparr>],
     agents := [\<lparr>ag_id = ''a'', ag_targetId = ''k'', ag_enrollmentTokenHash = None,
       ag_enrollmentExpiresAt = None, ag_credentialHash = Some ''h1'', ag_credentialGeneration = 1,
       ag_credentialActivatedAt = Some 0, ag_pendingHash = None, ag_pendingGeneration = None,
       ag_pendingIssuedAt = None, ag_protocolVersion = 1, ag_version = Some ''0.13.0'',
       ag_capabilities = None, ag_enrolledAt = Some 0, ag_lastSeenAt = None, ag_disabledAt = None\<rparr>]\<rparr>"

lemmas hosting_eval =
  hosting_db_def sftp_target_def empty_db_def get_user_target_def get_visible_target_def
  target_by_id_def agent_of_target_def require_def role_for_def membership_def

lemma hosting_retire:
  "i = ''t'' \<or> i = ''k'' \<Longrightarrow>
     succeeds (snd (target_retire True (\<lambda>x. x) False 5 i ''u'' hosting_db))"
  by (elim disjE)
    (simp_all add: target_retire_def make_unavailable_def unavailable_tx_def unavailable_audit_def
      agent_disabled_audit_def audit_eval hosting_eval nat_str.simps [of 0])

theorem disconnecting_ends_all_work_witness:
  "\<exists>d'. target_retire True (\<lambda>x. x) False 5 ''k'' ''u'' hosting_db = (d', Inr ()) \<and>
     (\<forall>a \<in> set (agents d'). ag_targetId a = ''k'' \<longrightarrow> no_credentials a)"
proof -
  obtain d' r where run: "target_retire True (\<lambda>x. x) False 5 ''k'' ''u'' hosting_db = (d', r)" by fastforce
  with hosting_retire [of "''k''"] have ok: "r = Inr ()" by (auto simp: succeeds_iff)
  have "target_by_id (Some ''k'') hosting_db = Some (sftp_target\<lparr>tg_id := ''k'', tg_name := ''box'', tg_kind := Docker\<rparr>)"
    by (simp add: hosting_eval)
  from disconnecting_ends_all_work [OF disjI2 [OF conjI [OF run [unfolded ok] refl]] this]
  show ?thesis using run ok by (simp add: sftp_target_def)
qed

lemma delete_target_Inr:
  "delete_target i d = Inr d' \<Longrightarrow> target_by_id (Some i) d' = None \<and> agents d' = delete_many (\<lambda>a. ag_targetId a = i) (agents d)
     \<and> environments d' = map (\<lambda>e. e\<lparr>en_targetId := (if bound_to i e then None else en_targetId e),
          en_allocationId := en_allocationId (e\<lparr>en_allocationId := (if list_ex (\<lambda>x. al_targetId x = i \<and>
             Some (al_id x) = en_allocationId e) (allocations d) then None else en_allocationId e)\<rparr>)\<rparr>) (environments d)"
  by (auto simp: delete_target_def Let_def target_by_id_def find_first_deleted split: if_splits)

text \<open>What is left of an environment when its target's row goes: everything but the binding.\<close>

definition same_deployment :: "string \<Rightarrow> environment_row \<Rightarrow> environment_row \<Rightarrow> bool" where
  "same_deployment i e e' \<longleftrightarrow>
     e'\<lparr>en_targetId := en_targetId e, en_allocationId := en_allocationId e\<rparr> = e \<and>
     en_targetId e' = (if bound_to i e then None else en_targetId e) \<and>
     (bound_to i e \<longrightarrow> \<not> records_deployment e)"

lemma delete_target_same:
  assumes "delete_target i d = Inr d'" and "\<forall>e \<in> set (environments d). bound_to i e \<longrightarrow> \<not> records_deployment e"
  shows "list_all2 (same_deployment i) (environments d) (environments d')"
  using delete_target_Inr [OF assms(1)] assms(2)
  by (auto simp: list_all2_conv_all_nth same_deployment_def)

lemma same_deploymentI:
  assumes "e'\<lparr>en_allocationId := en_allocationId e\<rparr> =
      (if bound_to i e then e\<lparr>en_targetId := None, en_allocationId := None\<rparr> else e)\<lparr>en_allocationId := en_allocationId e\<rparr>"
    and "bound_to i e \<Longrightarrow> \<not> records_deployment e"
  shows "same_deployment i e e'"
  using assms by (cases e; cases e') (auto simp: same_deployment_def bound_to_def split: if_splits)

lemma unbound_tx_same:
  assumes "unbound_tx i d = Inr d'" and "\<forall>e \<in> set (environments d). bound_to i e \<longrightarrow> \<not> records_deployment e"
  shows "list_all2 (same_deployment i) (environments d) (environments d')"
proof -
  let ?u = "\<lambda>e. e\<lparr>en_targetId := None, en_allocationId := None\<rparr>"
  have "list_all2 (\<lambda>e e'. e'\<lparr>en_allocationId := en_allocationId e\<rparr> =
      (if bound_to i e then ?u e else e)\<lparr>en_allocationId := en_allocationId e\<rparr>)
      (environments d) (environments d')"
    using delete_target_Inr [OF assms(1) [unfolded unbound_tx_def]]
    by (auto simp: list_all2_conv_all_nth rewrite_def bound_to_def)
  then show ?thesis
    by (rule list.rel_mono_strong) (use assms(2) in \<open>auto intro!: same_deploymentI\<close>)
qed

text \<open>
  Removing a target never forgets a workload. When \<open>remove\<close> returns normally (and no other
  request interferes) the caller could maintain the target's workspace, the target and its Agent are
  gone, and every environment keeps all it records, except that an environment bound to the target is
  unbound; and such an environment recorded no deployment: it was empty, without a version and
  without an operation in progress.
\<close>

theorem removing_target_forgets_no_workload:
  assumes "target_remove own (\<lambda>x. x) down i u d = (d', Inr ())"
  shows "(\<exists>w r. role_for u w d = Some r \<and> r \<in> permissions Maintain)
    \<and> target_by_id (Some i) d' = None \<and> (\<forall>a \<in> set (agents d'). ag_targetId a \<noteq> i)
    \<and> list_all2 (same_deployment i) (environments d) (environments d')"
proof -
  from assms obtain t where t: "get_user_target own i u Maintain d = Inr t"
    by (auto simp: target_remove_def split: sum.splits)
  let ?n = "count_where (bound_to i) (environments d)"
  let ?r = "if ?n > 0 then remove_unmanaged (\<lambda>x. x) i d
    else (case delete_target i d of Inl e \<Rightarrow> (d, Inl e) | Inr d' \<Rightarrow> (d', Inr ()))"
  from assms t obtain d1 where d1: "?r = (d1, Inr ())" "only_audit d1 d'"
    using only_audit_record [where down = down and i = "target_audit t u ''target.deleted'' []"]
    by (auto simp: target_remove_def Let_def split: if_splits prod.splits sum.splits) (metis fst_conv)+
  have "list_all2 (same_deployment i) (environments d) (environments d1) \<and>
      target_by_id (Some i) d1 = None \<and> (\<forall>a \<in> set (agents d1). ag_targetId a \<noteq> i)"
  proof (cases "?n > 0")
    case True
    with d1(1) have "\<forall>e \<in> set (environments d). bound_to i e \<longrightarrow> \<not> records_deployment e" "unbound_tx i d = Inr d1"
      by (auto simp: remove_unmanaged_def Let_def filter_empty_conv split: if_splits sum.splits)
    then show ?thesis
      using unbound_tx_same [of i d d1] delete_target_Inr [OF \<open>unbound_tx i d = Inr d1\<close> [unfolded unbound_tx_def]]
      by (simp add: delete_many_def)
  next
    case False
    with d1(1) have "delete_target i d = Inr d1" by (auto split: sum.splits)
    moreover from False have "\<forall>e \<in> set (environments d). bound_to i e \<longrightarrow> \<not> records_deployment e"
      by (auto simp: count_where_0_iff)
    ultimately show ?thesis using delete_target_same delete_target_Inr by (auto simp: delete_many_def)
  qed
  moreover from get_user_target_role [OF t] have "\<exists>w r. role_for u w d = Some r \<and> r \<in> permissions Maintain" by blast
  ultimately show ?thesis using only_audit_frame [OF d1(2)] only_audit_lookup(1) [OF d1(2)] by simp
qed

theorem removing_target_forgets_no_workload_witness:
  "\<exists>d'. target_remove True (\<lambda>x. x) False ''t'' ''u'' hosting_db = (d', Inr ()) \<and>
     target_by_id (Some ''t'') d' = None"
proof -
  obtain d' r where run: "target_remove True (\<lambda>x. x) False ''t'' ''u'' hosting_db = (d', r)" by fastforce
  have "succeeds (snd (target_remove True (\<lambda>x. x) False ''t'' ''u'' hosting_db))"
    by (simp add: target_remove_def delete_target_def target_audit_def audit_eval delete_many_def hosting_eval)
  with run have ok: "r = Inr ()" by (auto simp: succeeds_iff)
  from removing_target_forgets_no_workload [OF run [unfolded ok]] run ok show ?thesis by simp
qed

text \<open>
  A connection test that ends late undoes a retirement. While \<open>verify\<close> of an active remote target
  is testing the connection, an administrator retires the target; the test succeeds, and the
  unconditional write sets the retired target active again, without its credential, so only the
  audit log remembers the retirement.
\<close>

theorem late_verify_undoes_retirement:
  assumes "get_visible_target own i u Maintain d = Inr t" and "tg_managementState t = MgActive"
    and "tg_scope t = UserScope" and "tg_kind t \<noteq> Docker" and "test t = Inr True"
    and "target_retire own (\<lambda>x. x) False now i admin d = (d1, Inr ())"
  shows "(\<exists>t1. target_by_id (Some i) d1 = Some t1 \<and> tg_managementState t1 = MgRetired) \<and>
    (\<exists>d' t'. target_verify own test (\<lambda>_. d1) down now' i u req d = (d', Inr True) \<and>
      target_by_id (Some i) d' = Some t' \<and> tg_managementState t' = MgActive \<and> tg_secret t' = None)"
proof -
  have t: "target_by_id (Some i) d = Some t" using get_visible_target_id [OF assms(1)] by simp
  obtain t0 where t0: "target_by_id (Some i) d = Some t0" "tg_id t0 = i"
    "make_unavailable (\<lambda>x. x) False now t0 admin MgRetired d = (d1, Inr ())"
    using disconnect_or_retire [OF disjI2 [OF conjI [OF assms(6) refl]]] .
  with t have same: "t0 = t" by simp
  obtain d2 active where run: "d2 = unavailable_tx t MgRetired active now d" "only_audit d2 d1"
    using make_unavailable_Inr [OF t0(3)] assms(2) same by auto
  have retired: "target_by_id (Some i) d1 = Some (unavailable_target (tg_kind t) MgRetired now t)"
    using unavailable_tx_target [of t MgRetired active now d] run(1) t t0(2) same only_audit_lookup(1) [OF run(2)]
    by simp
  let ?d' = "d1\<lparr>targets := rewrite (\<lambda>x. tg_id x = i) (verified_target False now') (targets d1)\<rparr>"
  have "target_verify own test (\<lambda>_. d1) down now' i u req d = (?d', Inr True)"
    using assms(1-5) retired by (simp add: target_verify_def Let_def)
  moreover have "target_by_id (Some i) ?d' =
      Some (verified_target False now' (unavailable_target (tg_kind t) MgRetired now t))"
    using retired by (simp add: target_by_id_def target_by_id_rewrite)
  ultimately show ?thesis using retired assms(4) by simp
qed

theorem late_verify_undoes_retirement_witness:
  "\<exists>d' t'. target_verify True (\<lambda>_. Inr True)
       (\<lambda>_. fst (target_retire True (\<lambda>x. x) False 5 ''t'' ''u'' hosting_db)) False 6 ''t'' ''u'' None hosting_db = (d', Inr True) \<and>
     target_by_id (Some ''t'') d' = Some t' \<and> tg_managementState t' = MgActive \<and> tg_secret t' = None"
proof -
  obtain d1 r where run: "target_retire True (\<lambda>x. x) False 5 ''t'' ''u'' hosting_db = (d1, r)" by fastforce
  with hosting_retire [of "''t''"] have ok: "r = Inr ()" by (auto simp: succeeds_iff)
  have vis: "get_visible_target True ''t'' ''u'' Maintain hosting_db = Inr sftp_target"
    by (simp add: hosting_eval)
  have "tg_managementState sftp_target = MgActive" "tg_scope sftp_target = UserScope" "tg_kind sftp_target \<noteq> Docker"
    by (simp_all add: sftp_target_def)
  from late_verify_undoes_retirement [OF vis this, of "\<lambda>_. Inr True", OF refl run [unfolded ok], of False 6 None] run
  show ?thesis by (simp add: ok)
qed

end
