(* ===== verification/Agents.thy ===== *)
theory Agents
  imports Targets Lease
begin

text \<open>
  The trust bootstrap of InitPad Agents (\<open>agents/agents.service.ts\<close>, \<open>agents/agent-version.ts\<close>):
  single-use enrollment, authentication by a credential of which only the hash is stored, the
  two-phase rotation of credentials on heartbeats, and disabling.

  \<open>hash\<close> is SHA-256 of a token (\<open>common/token.ts\<close>) and \<open>tok\<close> the random token a call generates; both
  are parameters. \<open>mid\<close> is what other requests commit between a method's reads and its write.
\<close>

section \<open>Versions\<close>

definition min_lifecycle_version :: "nat list" where "min_lifecycle_version = [0, 3, 0]"
definition min_project_version :: "nat list" where "min_project_version = [0, 4, 0]"
definition min_gateway_version :: "nat list" where "min_gateway_version = [0, 5, 0]"
definition min_gateway_route_version :: "nat list" where "min_gateway_route_version = [0, 8, 0]"
definition min_diagnostics_version :: "nat list" where "min_diagnostics_version = [0, 9, 0]"
definition min_rotation_version :: "nat list" where "min_rotation_version = [0, 10, 0]"
definition min_remote_update_version :: "nat list" where "min_remote_update_version = [0, 13, 0]"

text \<open>Leading digits, at least one, and the rest.\<close>

definition number_prefix :: "string \<Rightarrow> (nat \<times> string) option" where
  "number_prefix s = (let ds = takeWhile is_digit s in
     if ds = [] then None else Some (digits_value ds, dropWhile is_digit s))"

definition is_line_end :: "char \<Rightarrow> bool" where
  "is_line_end c = (of_char c = (10 :: nat) \<or> of_char c = (13 :: nat))"

definition version_suffix :: "string \<Rightarrow> bool" where
  "version_suffix s = (case s of [] \<Rightarrow> True
     | c # cs \<Rightarrow> (c = CHR ''-'' \<or> c = CHR ''+'') \<and> list_all (\<lambda>x. \<not> is_line_end x) cs)"

text \<open>The pattern \<open>major.minor.patch\<close>, with an optional suffix after a minus or a plus.\<close>

definition parse_version :: "string \<Rightarrow> nat list option" where
  "parse_version s = (case number_prefix s of
      Some (a, CHR ''.'' # s1) \<Rightarrow> (case number_prefix s1 of
          Some (b, CHR ''.'' # s2) \<Rightarrow> (case number_prefix s2 of
              Some (c, s3) \<Rightarrow> if version_suffix s3 then Some [a, b, c] else None
            | None \<Rightarrow> None)
        | _ \<Rightarrow> None)
    | _ \<Rightarrow> None)"

text \<open>The loop over the minimum; a missing part of the version would compare as \<open>undefined\<close>.\<close>

fun at_least :: "nat list \<Rightarrow> nat list \<Rightarrow> bool" where
  "at_least as [] = True"
| "at_least [] (m # ms) = False"
| "at_least (a # as) (m # ms) = (if a \<noteq> m then a > m else at_least as ms)"

definition agent_version_at_least :: "string option \<Rightarrow> nat list \<Rightarrow> bool" where
  "agent_version_at_least v m =
     (if \<not> truthy v then False
      else case parse_version (the v) of None \<Rightarrow> False | Some actual \<Rightarrow> at_least actual m)"

definition supports_project_agent :: "string option \<Rightarrow> bool" where
  "supports_project_agent v = agent_version_at_least v min_project_version"

section \<open>Data\<close>

definition enrollment_ttl_ms :: int where "enrollment_ttl_ms = 15 * 60000"
definition online_after_ms :: int where "online_after_ms = 90000"
definition enrollment_prefix :: string where "enrollment_prefix = ''initpad_enroll_''"
definition credential_prefix :: string where "credential_prefix = ''initpad_agent_''"
definition rotate_after_ms :: int where "rotate_after_ms = 30 * 24 * 60 * 60000"
definition reissue_after_ms :: int where "reissue_after_ms = 24 * 60 * 60000"

record auth_agent =
  aa_id :: string
  aa_targetId :: string
  aa_credentialHash :: string
  aa_generation :: nat
  aa_protocolVersion :: nat
  aa_pending :: bool
  aa_activatedAt :: "instant option"
  aa_enrolledAt :: "instant option"
  aa_target :: "target_row option"

record enroll_input =
  ei_token :: string
  ei_version :: string
  ei_protocolVersion :: nat

record heartbeat_input =
  hi_version :: string
  hi_protocolVersion :: nat
  hi_docker :: json

record heartbeat_response =
  hr_targetId :: string
  hr_generation :: nat
  hr_acceptedAt :: instant
  hr_rotation :: "(string \<times> nat) option"

definition heartbeat_is_fresh :: "instant option \<Rightarrow> instant \<Rightarrow> bool" where
  "heartbeat_is_fresh seen now = (case seen of None \<Rightarrow> False | Some t \<Rightarrow> now - t \<le> online_after_ms)"

datatype agent_state = NotEnrolled | Offline | Online | AgentDisabled

record agent_summary =
  su_agent :: agent_row
  su_state :: agent_state
  su_enrollmentPending :: bool
  su_rotationPending :: bool

definition agent_summary_of :: "instant \<Rightarrow> agent_row \<Rightarrow> agent_summary" where
  "agent_summary_of now a = \<lparr>su_agent = a,
     su_state = (if ag_disabledAt a \<noteq> None then AgentDisabled
       else if truthy (ag_credentialHash a)
       then (if heartbeat_is_fresh (ag_lastSeenAt a) now then Online else Offline)
       else NotEnrolled),
     su_enrollmentPending = (truthy (ag_enrollmentTokenHash a) \<and> unexpired (ag_enrollmentExpiresAt a) now),
     su_rotationPending = truthy (ag_pendingHash a)\<rparr>"

section \<open>Access and enrollment\<close>

definition require_target_access ::
  "string \<Rightarrow> string \<Rightarrow> permission \<Rightarrow> db \<Rightarrow> (string \<times> target_row) outcome" where
  "require_target_access i u p d = (case target_by_id (Some i) d of
      None \<Rightarrow> Inl (target_not_found i)
    | Some t \<Rightarrow>
        if tg_scope t = Builtin \<or> \<not> truthy (tg_workspaceId t) then Inl (target_not_found i)
        else (case role_for u (the (tg_workspaceId t)) d of
            None \<Rightarrow> Inl (target_not_found i)
          | Some r \<Rightarrow>
              if p = Administer \<and> \<not> can r Administer
              then Inl (Forbidden ''Workspace admin access required to manage the Agent'')
              else if tg_kind t \<noteq> Docker
              then Inl (BadRequest ''InitPad Agent can only be bound to a Docker target'')
              else Inr (the (tg_workspaceId t), t)))"

definition get_for_target :: "instant \<Rightarrow> string \<Rightarrow> string \<Rightarrow> db \<Rightarrow> agent_summary option outcome" where
  "get_for_target now i u d = (case require_target_access i u Read d of
      Inl e \<Rightarrow> Inl e
    | Inr _ \<Rightarrow> Inr (map_option (agent_summary_of now) (agent_of_target i d)))"

definition new_agent :: "string \<Rightarrow> string \<Rightarrow> string \<Rightarrow> instant \<Rightarrow> agent_row" where
  "new_agent newId i h expires = \<lparr>ag_id = newId, ag_targetId = i, ag_enrollmentTokenHash = Some h,
     ag_enrollmentExpiresAt = Some expires, ag_credentialHash = None, ag_credentialGeneration = 0,
     ag_credentialActivatedAt = None, ag_pendingHash = None, ag_pendingGeneration = None,
     ag_pendingIssuedAt = None, ag_protocolVersion = 1, ag_version = None, ag_capabilities = None,
     ag_enrolledAt = None, ag_lastSeenAt = None, ag_disabledAt = None\<rparr>"

definition enrollment_issued :: "string \<Rightarrow> instant \<Rightarrow> agent_row \<Rightarrow> agent_row" where
  "enrollment_issued h expires a = a\<lparr>ag_enrollmentTokenHash := Some h,
     ag_enrollmentExpiresAt := Some expires, ag_disabledAt := None\<rparr>"

definition upsert_enrollment :: "string \<Rightarrow> string \<Rightarrow> string \<Rightarrow> instant \<Rightarrow> db \<Rightarrow> db" where
  "upsert_enrollment newId i h expires d = (case agent_of_target i d of
      None \<Rightarrow> d\<lparr>agents := create (new_agent newId i h expires) (agents d)\<rparr>
    | Some _ \<Rightarrow> d\<lparr>agents := rewrite (\<lambda>a. ag_targetId a = i) (enrollment_issued h expires) (agents d)\<rparr>)"

definition issue_enrollment ::
  "(string \<Rightarrow> string) \<Rightarrow> (db \<Rightarrow> db) \<Rightarrow> bool \<Rightarrow> instant \<Rightarrow> string \<Rightarrow> string \<Rightarrow> string \<Rightarrow> string \<Rightarrow> db
     \<Rightarrow> db \<times> (agent_summary \<times> string) outcome" where
  "issue_enrollment hash mid down now newId tok i u d = (case require_target_access i u Administer d of
      Inl e \<Rightarrow> (d, Inl e)
    | Inr (w, t) \<Rightarrow>
        if tg_managementState t = MgRetired
        then (d, Inl (BadRequest ''Restore this retired target before enrolling an Agent''))
        else (let token = enrollment_prefix @ tok;
                  d1 = upsert_enrollment newId i (hash token) (now + enrollment_ttl_ms) (mid d) in
          case agent_of_target i d1 of
            None \<Rightarrow> (d1, Inl (ServerError ''upsert''))
          | Some a \<Rightarrow>
              (case audit_record down \<lparr>ai_workspaceId = Some w, ai_actorUserId = Some u, ai_anonymous = False,
                  ai_action = ''agent.enrollment_issued'', ai_outcome = None, ai_resourceType = ''agent'',
                  ai_resourceId = Some (ag_id a), ai_resourceName = Some (tg_name t), ai_operation = None,
                  ai_details = Some [(''targetId'', JStr i),
                    (''generation'', JNum (int (ag_credentialGeneration a))), (''expiresInMinutes'', JNum 15)]\<rparr> d1 of
                (d2, Inl e) \<Rightarrow> (d2, Inl e)
              | (d2, Inr _) \<Rightarrow> (d2, Inr (agent_summary_of now a, token)))))"

definition invalid_enrollment :: http_error where
  "invalid_enrollment = Unauthorized ''Invalid or expired Agent enrollment token''"

definition redeemable :: "string \<Rightarrow> instant \<Rightarrow> agent_row \<Rightarrow> bool" where
  "redeemable h now a = (ag_enrollmentTokenHash a = Some h \<and>
     unexpired (ag_enrollmentExpiresAt a) now \<and> ag_disabledAt a = None)"

definition enrolled_agent :: "string \<Rightarrow> nat \<Rightarrow> instant \<Rightarrow> enroll_input \<Rightarrow> agent_row \<Rightarrow> agent_row" where
  "enrolled_agent h g now x a = a\<lparr>ag_enrollmentTokenHash := None, ag_enrollmentExpiresAt := None,
     ag_credentialHash := Some h, ag_credentialGeneration := g, ag_credentialActivatedAt := Some now,
     ag_pendingHash := None, ag_pendingGeneration := None, ag_pendingIssuedAt := None,
     ag_protocolVersion := ei_protocolVersion x, ag_version := Some (ei_version x),
     ag_enrolledAt := Some now, ag_lastSeenAt := None\<rparr>"

definition enroll_tx ::
  "string \<Rightarrow> string \<Rightarrow> instant \<Rightarrow> enroll_input \<Rightarrow> agent_row \<Rightarrow> db \<Rightarrow> db \<times> unit outcome" where
  "enroll_tx th h now x a d =
     (case update_many (\<lambda>r. ag_id r = ag_id a \<and> redeemable th now r)
         (enrolled_agent h (ag_credentialGeneration a + 1) now x) (agents d) of
        (n, rows) \<Rightarrow>
          if n \<noteq> 1 then (d\<lparr>agents := rows\<rparr>, Inl invalid_enrollment)
          else (case update_many (\<lambda>t. tg_id t = ag_targetId a \<and> tg_managementState t \<noteq> MgRetired)
              (\<lambda>t. t\<lparr>tg_managementState := MgActive, tg_managementStateChangedAt := Some now\<rparr>) (targets d) of
            (m, trows) \<Rightarrow>
              if m \<noteq> 1 then (d, Inl (Unauthorized ''Target is no longer available for Agent enrollment''))
              else (d\<lparr>agents := rows, targets := trows\<rparr>, Inr ())))"

definition enroll ::
  "(string \<Rightarrow> string) \<Rightarrow> (db \<Rightarrow> db) \<Rightarrow> instant \<Rightarrow> string \<Rightarrow> enroll_input \<Rightarrow> db
     \<Rightarrow> db \<times> (string \<times> nat) outcome" where
  "enroll hash mid now tok x d =
     (let th = hash (ei_token x) in
      case find_first (\<lambda>a. ag_enrollmentTokenHash a = Some th) (agents d) of
        None \<Rightarrow> (d, Inl invalid_enrollment)
      | Some a \<Rightarrow>
          if ag_disabledAt a \<noteq> None \<or> \<not> unexpired (ag_enrollmentExpiresAt a) now
          then (d, Inl invalid_enrollment)
          else (let credential = credential_prefix @ tok in
            case enroll_tx th (hash credential) now x a (mid d) of
              (d1, Inl e) \<Rightarrow> (d1, Inl e)
            | (d1, Inr _) \<Rightarrow> (d1, Inr (credential, ag_credentialGeneration a + 1))))"

section \<open>Authentication and heartbeats\<close>

definition is_base64url :: "char \<Rightarrow> bool" where
  "is_base64url c = (is_digit c \<or> is_lower c \<or> is_upper c \<or> c = CHR ''_'' \<or> c = CHR ''-'')"

definition bearer_credential :: "string option \<Rightarrow> string option" where
  "bearer_credential auth = (case auth of None \<Rightarrow> None
     | Some s \<Rightarrow> let p = ''Bearer '' @ credential_prefix in
         if take (length p) s = p \<and> length (drop (length p) s) = 43 \<and> list_all is_base64url (drop (length p) s)
         then Some (drop 7 s) else None)"

definition invalid_credential :: http_error where
  "invalid_credential = Unauthorized ''Invalid Agent credential''"

definition holds :: "string \<Rightarrow> agent_row \<Rightarrow> bool" where
  "holds h a = (ag_credentialHash a = Some h \<or> ag_pendingHash a = Some h)"

definition authenticate_credential ::
  "(string \<Rightarrow> string) \<Rightarrow> string option \<Rightarrow> db \<Rightarrow> auth_agent outcome" where
  "authenticate_credential hash auth d = (case bearer_credential auth of
      None \<Rightarrow> Inl invalid_credential
    | Some c \<Rightarrow> (let h = hash c in
        case find_first (holds h) (agents d) of
          None \<Rightarrow> Inl invalid_credential
        | Some a \<Rightarrow>
            if ag_disabledAt a \<noteq> None \<or> \<not> truthy (ag_credentialHash a) \<and> \<not> truthy (ag_pendingHash a)
            then Inl invalid_credential
            else (let pending = (ag_pendingHash a = Some h);
                      g = (if pending then (case ag_pendingGeneration a of None \<Rightarrow> 0 | Some n \<Rightarrow> n)
                           else ag_credentialGeneration a) in
              if g = 0 then Inl invalid_credential
              else Inr \<lparr>aa_id = ag_id a, aa_targetId = ag_targetId a, aa_credentialHash = h,
                aa_generation = g, aa_protocolVersion = ag_protocolVersion a, aa_pending = pending,
                aa_activatedAt = ag_credentialActivatedAt a, aa_enrolledAt = ag_enrolledAt a,
                aa_target = target_by_id (Some (ag_targetId a)) d\<rparr>)))"

definition rotation_audit :: "auth_agent \<Rightarrow> string \<Rightarrow> nat \<Rightarrow> bool \<Rightarrow> db \<Rightarrow> db" where
  "rotation_audit a action g down d = (case aa_target a of
      None \<Rightarrow> d
    | Some t \<Rightarrow>
        if \<not> truthy (tg_workspaceId t) then d
        else record_safely (audit_record down \<lparr>ai_workspaceId = tg_workspaceId t, ai_actorUserId = None,
          ai_anonymous = False, ai_action = action, ai_outcome = None, ai_resourceType = ''agent'',
          ai_resourceId = Some (aa_id a), ai_resourceName = Some (tg_name t), ai_operation = None,
          ai_details = Some [(''generation'', JNum (int g))]\<rparr>) d)"

definition seen_agent :: "instant \<Rightarrow> heartbeat_input \<Rightarrow> agent_row \<Rightarrow> agent_row" where
  "seen_agent now x a = a\<lparr>ag_version := Some (hi_version x), ag_protocolVersion := hi_protocolVersion x,
     ag_capabilities := Some (hi_docker x), ag_lastSeenAt := Some now\<rparr>"

definition activate_row ::
  "string \<Rightarrow> nat \<Rightarrow> instant \<Rightarrow> heartbeat_input \<Rightarrow> agent_row \<Rightarrow> agent_row option" where
  "activate_row h g now x = when_row
     (\<lambda>a. ag_pendingHash a = Some h \<and> ag_pendingGeneration a = Some g \<and> ag_disabledAt a = None)
     (\<lambda>a. seen_agent now x (a\<lparr>ag_credentialHash := Some h, ag_credentialGeneration := g,
        ag_credentialActivatedAt := Some now, ag_pendingHash := None, ag_pendingGeneration := None,
        ag_pendingIssuedAt := None\<rparr>))"

definition seen_row :: "string \<Rightarrow> instant \<Rightarrow> heartbeat_input \<Rightarrow> agent_row \<Rightarrow> agent_row option" where
  "seen_row h now x = when_row (\<lambda>a. ag_credentialHash a = Some h \<and> ag_disabledAt a = None) (seen_agent now x)"

definition issue_row :: "string \<Rightarrow> nat \<Rightarrow> string \<Rightarrow> instant \<Rightarrow> agent_row \<Rightarrow> agent_row option" where
  "issue_row h g new now = when_row
     (\<lambda>a. ag_credentialHash a = Some h \<and> ag_credentialGeneration a = g \<and> ag_disabledAt a = None \<and>
        (ag_pendingHash a = None \<or> expired (ag_pendingIssuedAt a) (now - reissue_after_ms)))
     (\<lambda>a. a\<lparr>ag_pendingHash := Some new, ag_pendingGeneration := Some (g + 1), ag_pendingIssuedAt := Some now\<rparr>)"

definition on_agent :: "string \<Rightarrow> (agent_row \<Rightarrow> agent_row option) \<Rightarrow> db \<Rightarrow> db \<times> agent_row option" where
  "on_agent i f d = (case update_row ag_id i f (agents d) of (rows, res) \<Rightarrow> (d\<lparr>agents := rows\<rparr>, res))"

definition rotation_due :: "auth_agent \<Rightarrow> instant \<Rightarrow> heartbeat_input \<Rightarrow> bool" where
  "rotation_due a now x =
     (let since = (case aa_activatedAt a of Some t \<Rightarrow> Some t | None \<Rightarrow> aa_enrolledAt a) in
      (case since of None \<Rightarrow> False | Some t \<Rightarrow> t \<le> now - rotate_after_ms) \<and>
      agent_version_at_least (Some (hi_version x)) min_rotation_version)"

definition heartbeat ::
  "(string \<Rightarrow> string) \<Rightarrow> (db \<Rightarrow> db) \<Rightarrow> (db \<Rightarrow> db) \<Rightarrow> bool \<Rightarrow> instant \<Rightarrow> string \<Rightarrow> string option
     \<Rightarrow> heartbeat_input \<Rightarrow> db \<Rightarrow> db \<times> heartbeat_response outcome" where
  "heartbeat hash mid mid' down now tok auth x d = (case authenticate_credential hash auth d of
      Inl e \<Rightarrow> (d, Inl e)
    | Inr a \<Rightarrow> (let h = aa_credentialHash a; g = aa_generation a;
          answer = \<lparr>hr_targetId = aa_targetId a, hr_generation = g, hr_acceptedAt = now, hr_rotation = None\<rparr> in
        if aa_pending a
        then (case on_agent (aa_id a) (activate_row h g now x) (mid d) of
            (d1, None) \<Rightarrow> (d1, Inl invalid_credential)
          | (d1, Some _) \<Rightarrow>
              (rotation_audit a ''agent.credential_rotation_activated'' g down d1, Inr answer))
        else (case on_agent (aa_id a) (seen_row h now x) (mid d) of
            (d1, None) \<Rightarrow> (d1, Inl invalid_credential)
          | (d1, Some _) \<Rightarrow>
              if rotation_due a now x
              then (let credential = credential_prefix @ tok in
                case on_agent (aa_id a) (issue_row h g (hash credential) now) (mid' d1) of
                  (d2, None) \<Rightarrow> (d2, Inr answer)
                | (d2, Some _) \<Rightarrow>
                    (rotation_audit a ''agent.credential_rotation_issued'' (g + 1) down d2,
                     Inr (answer\<lparr>hr_rotation := Some (credential, g + 1)\<rparr>)))
              else (d1, Inr answer))))"

section \<open>Disabling\<close>

definition agent_disable ::
  "bool \<Rightarrow> (db \<Rightarrow> db) \<Rightarrow> bool \<Rightarrow> instant \<Rightarrow> string \<Rightarrow> string \<Rightarrow> db \<Rightarrow> db \<times> unit outcome" where
  "agent_disable own mid down now i u d = (case require_target_access i u Administer d of
      Inl e \<Rightarrow> (d, Inl e)
    | Inr _ \<Rightarrow> (case agent_of_target i d of
        None \<Rightarrow> (d, Inl (NotFound (''Agent for target '' @ [CHR 0x27] @ i @ [CHR 0x27] @ '' not found'')))
      | Some _ \<Rightarrow> target_disconnect own mid down now i u d))"

section \<open>Credentials are never revived\<close>

text \<open>
  The atomic statements that touch Agent rows. \<open>beat_step h n\<close> are the statements of a heartbeat whose
  bearer's credential has hash \<open>h\<close>, where \<open>n\<close> is the hash of a newly issued credential, if any;
  \<open>admin_step\<close> those of enrollment, and of disconnecting and removing a target.
\<close>

inductive beat_step :: "string \<Rightarrow> string option \<Rightarrow> db \<Rightarrow> db \<Rightarrow> bool" for h where
  seen: "beat_step h None d (fst (on_agent i (seen_row h now x) d))"
| activated: "beat_step h None d (fst (on_agent i (activate_row h g now x) d))"
| issued: "beat_step h (Some new) d (fst (on_agent i (issue_row h g new now) d))"

inductive admin_step :: "string option \<Rightarrow> db \<Rightarrow> db \<Rightarrow> bool" where
  upserted: "admin_step None d (upsert_enrollment newId i th expires d)"
| enrolled: "admin_step (Some new) d
    (d\<lparr>agents := rewrite (\<lambda>r. ag_id r = i \<and> redeemable th now r) (enrolled_agent new g now x) (agents d)\<rparr>)"
| revoked: "admin_step None d (d\<lparr>agents := rewrite (\<lambda>a. ag_targetId a = i) (revoked_agent now) (agents d)\<rparr>)"
| removed: "admin_step None d (d\<lparr>agents := delete_many p (agents d)\<rparr>)"

text \<open>
  Runs of heartbeats that present hashes in \<open>P\<close>; and runs of all statements, in which \<open>U\<close> is the set of
  hashes of the tokens generated so far and the hash of a new token is none of them.
\<close>

inductive beat_run :: "string set \<Rightarrow> db \<Rightarrow> db \<Rightarrow> bool" for P where
  start: "beat_run P d d"
| beat: "beat_run P d d1 \<Longrightarrow> beat_step h n d1 d2 \<Longrightarrow> h \<in> P \<Longrightarrow> beat_run P d d2"
| other: "beat_run P d d1 \<Longrightarrow> agents d2 = agents d1 \<Longrightarrow> beat_run P d d2"

inductive cred_run :: "string set \<Rightarrow> db \<Rightarrow> string set \<Rightarrow> db \<Rightarrow> bool" where
  start: "cred_run U d U d"
| beat: "cred_run U d U1 d1 \<Longrightarrow> beat_step h n d1 d2 \<Longrightarrow> set_option n \<inter> U1 = {} \<Longrightarrow> cred_run U d (U1 \<union> set_option n) d2"
| admin: "cred_run U d U1 d1 \<Longrightarrow> admin_step n d1 d2 \<Longrightarrow> set_option n \<inter> U1 = {} \<Longrightarrow> cred_run U d (U1 \<union> set_option n) d2"
| other: "cred_run U d U1 d1 \<Longrightarrow> agents d2 = agents d1 \<Longrightarrow> cred_run U d U1 d2"

definition nobody_holds :: "string \<Rightarrow> db \<Rightarrow> bool" where
  "nobody_holds h d \<longleftrightarrow> (\<forall>a \<in> set (agents d). \<not> holds h a)"

lemma on_agent_agents: "agents (fst (on_agent i f d)) = fst (update_row ag_id i f (agents d))"
  by (simp add: on_agent_def split: prod.split)

lemma nobody_holds_on_agent:
  assumes "nobody_holds h d" and "\<And>a a'. f a = Some a' \<Longrightarrow> holds h a' \<Longrightarrow> holds h a"
  shows "nobody_holds h (fst (on_agent i f d))"
  using assms by (auto simp: nobody_holds_def on_agent_agents elim!: in_update_rowE)

lemma holds_rows:
  "seen_row k now x a = Some a' \<Longrightarrow> holds h a' = holds h a"
  "activate_row k g now x a = Some a' \<Longrightarrow> holds h a' \<Longrightarrow> holds h a"
  "issue_row k g new now a = Some a' \<Longrightarrow> holds h a' \<Longrightarrow> holds h a \<or> h = new"
  by (auto simp: seen_row_def activate_row_def issue_row_def seen_agent_def holds_def)

lemma beat_step_nobody:
  assumes "beat_step k n d d'" and "h \<notin> set_option n" and "nobody_holds h d"
  shows "nobody_holds h d'"
  using assms
proof (induction rule: beat_step.induct)
  case (seen d i now x)
  from nobody_holds_on_agent [OF seen(2), of "seen_row k now x" i] show ?case by (simp add: holds_rows(1))
next
  case (activated d i g now x)
  from nobody_holds_on_agent [OF activated(2), of "activate_row k g now x" i] show ?case
    using holds_rows(2) by blast
next
  case (issued new d i g now)
  then have "h \<noteq> new" by simp
  with nobody_holds_on_agent [OF issued(2), of "issue_row k g new now" i] show ?case
    using holds_rows(3) by blast
qed

lemma admin_step_nobody:
  assumes "admin_step n d d'" and "h \<notin> set_option n" and "nobody_holds h d"
  shows "nobody_holds h d'"
  using assms
  by (induction rule: admin_step.induct)
    (auto simp: nobody_holds_def holds_def set_rewrite upsert_enrollment_def new_agent_def enrollment_issued_def
      enrolled_agent_def revoked_agent_def delete_many_def create_def split: option.splits if_splits)

lemma cred_run_nobody:
  assumes "cred_run U d U' d'" and "h \<in> U" and "nobody_holds h d"
  shows "h \<in> U' \<and> nobody_holds h d'"
  using assms
proof (induction rule: cred_run.induct)
  case (beat U d U1 d1 k n d2)
  then have "h \<notin> set_option n" by blast
  with beat beat_step_nobody show ?case by blast
next
  case (admin U d U1 d1 n d2)
  then have "h \<notin> set_option n" by blast
  with admin admin_step_nobody show ?case by blast
qed (simp_all add: nobody_holds_def)

lemma nobody_authenticates:
  "nobody_holds (hash c) d \<Longrightarrow> bearer_credential auth = Some c \<Longrightarrow>
     authenticate_credential hash auth d = Inl invalid_credential"
  by (auto simp: authenticate_credential_def nobody_holds_def Let_def find_first_None [THEN iffD2])

text \<open>A handler is a run of its statements.\<close>

lemma rotation_audit_agents [simp]: "agents (rotation_audit a act g down d) = agents d"
  by (auto simp: rotation_audit_def record_safely_def split: option.splits)

lemma beat_run_trans: "beat_run P d1 d2 \<Longrightarrow> beat_run P d d1 \<Longrightarrow> beat_run P d d2"
  by (induction rule: beat_run.induct) (auto intro: beat_run.intros)

lemma beat_run_audit: "beat_run P d d1 \<Longrightarrow> beat_run P d (rotation_audit a act g down d1)"
  by (rule beat_run.other) simp_all

lemma heartbeat_is_run:
  assumes run: "heartbeat hash mid mid' down now tok auth x d = (d', r)"
    and mid: "\<forall>d0. beat_run P d0 (mid d0)" "\<forall>d0. beat_run P d0 (mid' d0)"
    and pres: "\<forall>c. bearer_credential auth = Some c \<longrightarrow> hash c \<in> P"
  shows "beat_run P d d'"
proof (cases "authenticate_credential hash auth d")
  case (Inl e)
  with run show ?thesis by (auto simp: heartbeat_def intro: beat_run.start)
next
  case (Inr a)
  have h: "aa_credentialHash a \<in> P"
    using Inr pres by (auto simp: authenticate_credential_def Let_def split: option.splits if_splits)
  let ?h = "aa_credentialHash a" and ?g = "aa_generation a" and ?i = "aa_id a"
  have U1: "beat_run P d (mid d)" using mid(1) by blast
  let ?s = "fst (on_agent ?i (seen_row ?h now x) (mid d))"
  have act: "beat_run P d (fst (on_agent ?i (activate_row ?h ?g now x) (mid d)))"
    using beat_run.beat [OF U1 beat_step.activated h] .
  have seen: "beat_run P d ?s" using beat_run.beat [OF U1 beat_step.seen h] .
  have "beat_run P ?s (mid' ?s)" using mid(2) by blast
  from beat_run_trans [OF this seen] have U2: "beat_run P d (mid' ?s)" .
  have iss: "beat_run P d
      (fst (on_agent ?i (issue_row ?h ?g (hash (credential_prefix @ tok)) now) (mid' ?s)))"
    using beat_run.beat [OF U2 beat_step.issued h] .
  from run Inr act seen iss show ?thesis
    by (auto simp: heartbeat_def Let_def split: if_splits prod.splits option.splits
        intro: beat_run_audit)
qed

text \<open>What heartbeats can do to an enrolled Agent: its active credential is one that was presented.\<close>

definition still_enrolled :: "string set \<Rightarrow> agent_row \<Rightarrow> bool" where
  "still_enrolled P a \<longleftrightarrow> ag_disabledAt a = None \<and> (\<exists>h \<in> P. ag_credentialHash a = Some h)"

lemma still_enrolled_rows:
  "seen_row h now x a = Some a' \<Longrightarrow> still_enrolled P a \<Longrightarrow> still_enrolled P a' \<and> ag_id a' = ag_id a"
  "activate_row h g now x a = Some a' \<Longrightarrow> still_enrolled P a \<Longrightarrow> h \<in> P \<Longrightarrow> still_enrolled P a' \<and> ag_id a' = ag_id a"
  "issue_row h g new now a = Some a' \<Longrightarrow> still_enrolled P a \<Longrightarrow> still_enrolled P a' \<and> ag_id a' = ag_id a"
  by (auto simp: seen_row_def activate_row_def issue_row_def seen_agent_def still_enrolled_def)

lemma still_enrolled_on_agent:
  assumes "\<exists>a \<in> set (agents d). ag_id a = j \<and> still_enrolled P a" and "keyed ag_id (agents d)"
    and "\<And>a a'. f a = Some a' \<Longrightarrow> ag_id a' = ag_id a"
    and "\<And>a a'. f a = Some a' \<Longrightarrow> still_enrolled P a \<Longrightarrow> still_enrolled P a'"
  shows "keyed ag_id (agents (fst (on_agent i f d))) \<and>
    (\<exists>a \<in> set (agents (fst (on_agent i f d))). ag_id a = j \<and> still_enrolled P a)"
proof -
  from assms(1) obtain a where a: "a \<in> set (agents d)" "ag_id a = j" "still_enrolled P a" by blast
  from find_first_key [OF assms(2) a(1)] a(2) have "find_first (\<lambda>x. ag_id x = j) (agents d) = Some a" by simp
  with find_update_row [where f = f and k = ag_id and i = i and j = j and t = "agents d", OF assms(3)] a
  obtain a' where "find_first (\<lambda>x. ag_id x = j) (fst (update_row ag_id i f (agents d))) = Some a'"
    "still_enrolled P a'"
    by (auto split: if_splits option.splits intro: assms(4))
  then show ?thesis
    using keyed_update_row [where f = f and k = ag_id, OF assms(3)] assms(2)
    by (auto simp: on_agent_agents dest!: find_first_Some)
qed

lemma beat_step_enrolled:
  assumes "beat_step h n d d'" and "h \<in> P" and "keyed ag_id (agents d)"
    and "\<exists>a \<in> set (agents d). ag_id a = j \<and> still_enrolled P a"
  shows "keyed ag_id (agents d') \<and> (\<exists>a \<in> set (agents d'). ag_id a = j \<and> still_enrolled P a)"
  using assms
proof (induction rule: beat_step.induct)
  case (seen d i now x)
  show ?case by (rule still_enrolled_on_agent [OF seen(3,2)])
    (auto simp: seen_row_def seen_agent_def still_enrolled_def)
next
  case (activated d i g now x)
  show ?case by (rule still_enrolled_on_agent [OF activated(3,2)])
    (use activated(1) in \<open>auto simp: activate_row_def seen_agent_def still_enrolled_def\<close>)
next
  case (issued new d i g now)
  show ?case by (rule still_enrolled_on_agent [OF issued(3,2)])
    (auto simp: issue_row_def still_enrolled_def)
qed

lemma beat_run_enrolled:
  assumes "beat_run P d d'" and "keyed ag_id (agents d)"
    and "\<exists>a \<in> set (agents d). ag_id a = j \<and> still_enrolled P a"
  shows "keyed ag_id (agents d') \<and> (\<exists>a \<in> set (agents d'). ag_id a = j \<and> still_enrolled P a)"
  using assms by (induction rule: beat_run.induct) (auto dest!: beat_step_enrolled)

lemma beat_run_mono: "beat_run P d d' \<Longrightarrow> P \<subseteq> Q \<Longrightarrow> beat_run Q d d'"
  by (induction rule: beat_run.induct) (auto intro: beat_run.intros)

section \<open>Properties\<close>

text \<open>
  C15: A revoked credential is dead for ever. Once a target has been retired (or disconnected), a
  credential that only its Agents held authenticates no request again: not after any further
  heartbeats, enrollments, disconnections and removals in any order, as long as new tokens do not
  collide with the hashes of the tokens generated before.
\<close>

theorem revoked_credential_stays_dead:
  assumes "target_retire own mid down now i u d = (d1, Inr ()) \<and> s = MgRetired \<or>
      target_disconnect own mid down now i u d = (d1, Inr ()) \<and> s = MgDisconnected"
    and "target_by_id (Some i) d = Some t" and "tg_managementState t \<noteq> s"
    and "\<forall>a \<in> set (agents (mid d)). holds (hash c) a \<longrightarrow> ag_targetId a = i"
    and "cred_run U d1 U' d2" and "hash c \<in> U" and "bearer_credential auth = Some c"
  shows "authenticate_credential hash auth d2 = Inl invalid_credential \<and>
    heartbeat hash m m' down' now' tok auth x d2 = (d2, Inl invalid_credential)"
proof -
  obtain t0 where t0: "target_by_id (Some i) d = Some t0" "tg_id t0 = i"
    "make_unavailable mid down now t0 u s d = (d1, Inr ())"
    using disconnect_or_retire [of own mid down now i u d d1 s] assms(1) by blast
  with assms(2) have t: "t0 = t" by simp
  obtain d0 active where run: "d0 = unavailable_tx t s active now (mid d)" "only_audit d0 d1"
    using make_unavailable_Inr [OF t0(3)] assms(3) t by metis
  have "agents d1 = rewrite (\<lambda>a. ag_targetId a = i) (revoked_agent now) (agents (mid d))"
    using only_audit_frame [OF run(2)] run(1) t0(2) t by (simp add: unavailable_tx_def Let_def)
  with assms(4) have "nobody_holds (hash c) d1"
    by (auto simp: nobody_holds_def set_rewrite revoked_agent_def holds_def)
  with cred_run_nobody [OF assms(5,6)] nobody_authenticates [OF _ assms(7)]
  have "authenticate_credential hash auth d2 = Inl invalid_credential" by blast
  then show ?thesis by (simp add: heartbeat_def)
qed

definition sample_auth :: "string option" where
  "sample_auth = Some (''Bearer initpad_agent_'' @ replicate 43 (CHR ''a''))"

definition sample_credential :: string where
  "sample_credential = ''initpad_agent_'' @ replicate 43 (CHR ''a'')"

lemma sample_bearer: "bearer_credential sample_auth = Some sample_credential"
  by code_simp

theorem revoked_credential_stays_dead_witness:
  "authenticate_credential (\<lambda>_. ''h1'') sample_auth
     (fst (target_retire True (\<lambda>x. x) False 5 ''k'' ''u'' hosting_db)) = Inl invalid_credential"
proof -
  obtain d' r where run: "target_retire True (\<lambda>x. x) False 5 ''k'' ''u'' hosting_db = (d', r)" by fastforce
  with hosting_retire [of "''k''"] have ok: "r = Inr ()" by (auto simp: succeeds_iff)
  have t: "target_by_id (Some ''k'') hosting_db = Some (sftp_target\<lparr>tg_id := ''k'', tg_name := ''box'', tg_kind := Docker\<rparr>)"
    by (simp add: hosting_eval)
  have st: "tg_managementState (sftp_target\<lparr>tg_id := ''k'', tg_name := ''box'', tg_kind := Docker\<rparr>) \<noteq> MgRetired"
    by (simp add: sftp_target_def)
  have own: "\<forall>a \<in> set (agents hosting_db). holds ''h1'' a \<longrightarrow> ag_targetId a = ''k''" by (simp add: hosting_db_def)
  have "''h1'' \<in> {''h1''}" by simp
  from revoked_credential_stays_dead [OF disjI1 [OF conjI [OF run [unfolded ok] refl]] t st, of "\<lambda>_. ''h1''",
      OF own cred_run.start this sample_bearer]
  have "authenticate_credential (\<lambda>_. ''h1'') sample_auth d' = Inl invalid_credential" by blast
  with run show ?thesis by simp
qed

text \<open>
  C16: Rotation never locks an Agent out. Let an enrolled Agent have the active credential \<open>h\<close>. After a
  heartbeat, with any other heartbeats running between its statements, the Agent is still
  enabled and its active credential is \<open>h\<close> or one that a heartbeat has presented, so one its holder
  has stored; an issued credential that was never used cannot displace the working one.
\<close>

theorem rotation_never_locks_out:
  assumes "heartbeat hash mid mid' down now tok auth x d = (d', r)"
    and "\<forall>d0. beat_run P d0 (mid d0)" and "\<forall>d0. beat_run P d0 (mid' d0)"
    and "\<forall>c. bearer_credential auth = Some c \<longrightarrow> hash c \<in> P"
    and "keyed ag_id (agents d)" and "a \<in> set (agents d)" and "ag_disabledAt a = None"
    and "ag_credentialHash a = Some h"
  shows "\<exists>a' \<in> set (agents d'). ag_id a' = ag_id a \<and> ag_disabledAt a' = None \<and>
    (\<exists>k \<in> insert h P. ag_credentialHash a' = Some k)"
proof -
  have run: "beat_run (insert h P) d d'"
    by (rule beat_run_mono [OF heartbeat_is_run [OF assms(1-4)]]) auto
  have "\<exists>b \<in> set (agents d). ag_id b = ag_id a \<and> still_enrolled (insert h P) b"
    using assms(6-8) by (auto simp: still_enrolled_def)
  from beat_run_enrolled [OF run assms(5) this] show ?thesis by (auto simp: still_enrolled_def)
qed

definition sample_beat :: heartbeat_input where
  "sample_beat = \<lparr>hi_version = ''0.13.0'', hi_protocolVersion = 1, hi_docker = JNull\<rparr>"

theorem rotation_never_locks_out_witness:
  "\<exists>a' \<in> set (agents (fst (heartbeat (\<lambda>_. ''h1'') (\<lambda>x. x) (\<lambda>x. x) False 9 ''tok'' sample_auth sample_beat hosting_db))).
     ag_id a' = ''a'' \<and> ag_disabledAt a' = None \<and> ag_credentialHash a' = Some ''h1''"
proof -
  obtain d' r where run: "heartbeat (\<lambda>_. ''h1'') (\<lambda>x. x) (\<lambda>x. x) False 9 ''tok'' sample_auth sample_beat hosting_db = (d', r)"
    by fastforce
  obtain a where a: "a \<in> set (agents hosting_db)" "ag_id a = ''a''" "ag_disabledAt a = None" "ag_credentialHash a = Some ''h1''"
    by (simp add: hosting_db_def)
  have k: "keyed ag_id (agents hosting_db)" by (simp add: hosting_db_def keyed_def)
  have m: "\<forall>d0 :: db. beat_run {''h1''} d0 d0" by (simp add: beat_run.start)
  have p: "\<forall>c. bearer_credential sample_auth = Some c \<longrightarrow> ''h1'' \<in> {''h1''}" by simp
  from rotation_never_locks_out [OF run m m p k a(1,3,4)] run a(2) show ?thesis by auto
qed

text \<open>The token that is redeemed once: who read the row before cannot redeem it either.\<close>

lemma enroll_tx_refused:
  assumes "\<forall>r \<in> set (agents d). ag_enrollmentTokenHash r \<noteq> Some th"
  shows "enroll_tx th h now x a d = (d, Inl invalid_enrollment)"
proof -
  have "\<not> (ag_id r = ag_id a \<and> redeemable th now r)" if "r \<in> set (agents d)" for r
    using assms that by (auto simp: redeemable_def)
  then have "update_many (\<lambda>r. ag_id r = ag_id a \<and> redeemable th now r) f (agents d) = (0, agents d)" for f
    by (auto simp: update_many_def count_where_0_iff intro!: rewrite_idle)
  then show ?thesis by (simp add: enroll_tx_def)
qed

lemma enroll_refused:
  assumes "\<forall>r \<in> set (agents d1). ag_enrollmentTokenHash r \<noteq> Some (hash (ei_token x))"
  shows "enroll hash (\<lambda>_. d1) now tok x d \<in> {(d, Inl invalid_enrollment), (d1, Inl invalid_enrollment)}"
  using enroll_tx_refused [OF assms] by (auto simp: enroll_def Let_def split: option.splits)

lemma count_where_le_1:
  assumes "count_where p t \<le> 1" and "r \<in> set t" "p r" and "s \<in> set t" "p s"
  shows "r = s"
proof -
  have "r \<in> set (filter p t)" "s \<in> set (filter p t)" using assms(2-5) by simp_all
  with assms(1) show ?thesis by (cases "filter p t") (auto simp: count_where_def)
qed

lemma enroll_tx_Inr:
  assumes "enroll_tx th h now x a d = (d', Inr ())"
  shows "agents d' = rewrite (\<lambda>r. ag_id r = ag_id a \<and> redeemable th now r)
      (enrolled_agent h (ag_credentialGeneration a + 1) now x) (agents d)"
    and "count_where (\<lambda>r. ag_id r = ag_id a \<and> redeemable th now r) (agents d) = 1"
    and "count_where (\<lambda>t. tg_id t = ag_targetId a \<and> tg_managementState t \<noteq> MgRetired) (targets d) = 1"
    and "targets d' = rewrite (\<lambda>t. tg_id t = ag_targetId a \<and> tg_managementState t \<noteq> MgRetired)
      (\<lambda>t. t\<lparr>tg_managementState := MgActive, tg_managementStateChangedAt := Some now\<rparr>) (targets d)"
  using assms by (auto simp: enroll_tx_def update_many_def split: if_splits)

text \<open>
  An enrollment token is redeemed at most once and never for a retired target. When \<open>enroll\<close>
  succeeds, exactly one enabled Agent had this unexpired token at the commit; it now has the new
  credential, no pending one and no token, and its target was not retired and is active. Every other
  attempt with the same token fails and changes nothing, be it later or one that had read the
  Agent's row before the winner committed.
\<close>

theorem enrollment_token_is_redeemed_once:
  assumes "enroll hash mid now tok x d = (d1, Inr (c, g))"
    and "count_where (\<lambda>a. ag_enrollmentTokenHash a = Some (hash (ei_token x))) (agents (mid d)) \<le> 1"
    and "\<forall>a \<in> set (agents d). \<forall>b \<in> set (agents (mid d)). ag_id a = ag_id b \<longrightarrow> ag_targetId a = ag_targetId b"
    and "ei_token y = ei_token x"
  shows "(\<exists>a \<in> set (agents (mid d)). redeemable (hash (ei_token x)) now a \<and>
      enrolled_agent (hash c) g now x a \<in> set (agents d1) \<and>
      (\<exists>t \<in> set (targets (mid d)). tg_id t = ag_targetId a \<and> tg_managementState t \<noteq> MgRetired))
    \<and> enroll hash (\<lambda>_. d1) now' tok' y d0 \<in> {(d0, Inl invalid_enrollment), (d1, Inl invalid_enrollment)}
    \<and> enroll hash (\<lambda>d. d) now' tok' y d1 = (d1, Inl invalid_enrollment)"
proof -
  let ?th = "hash (ei_token x)"
  from assms(1) obtain a where a: "find_first (\<lambda>a. ag_enrollmentTokenHash a = Some ?th) (agents d) = Some a"
    and tx: "enroll_tx ?th (hash (credential_prefix @ tok)) now x a (mid d) = (d1, Inr ())"
    and c: "c = credential_prefix @ tok" "g = ag_credentialGeneration a + 1"
    by (auto simp: enroll_def Let_def split: option.splits if_splits prod.splits sum.splits)
  note done' = enroll_tx_Inr [OF tx]
  from done'(2) obtain b where b: "b \<in> set (agents (mid d))" "ag_id b = ag_id a" "redeemable ?th now b"
    using count_where_pos_ex [of "\<lambda>r. ag_id r = ag_id a \<and> redeemable ?th now r" "agents (mid d)"] by auto
  from done'(3) obtain t where t: "t \<in> set (targets (mid d))" "tg_id t = ag_targetId a" "tg_managementState t \<noteq> MgRetired"
    using count_where_pos_ex [of "\<lambda>t. tg_id t = ag_targetId a \<and> tg_managementState t \<noteq> MgRetired" "targets (mid d)"]
    by auto
  have same: "r = b" if "r \<in> set (agents (mid d))" "ag_enrollmentTokenHash r = Some ?th" for r
    using count_where_le_1 [OF assms(2), of r b] that b(1,3) by (simp add: redeemable_def)
  have used: "\<forall>r \<in> set (agents d1). ag_enrollmentTokenHash r \<noteq> Some ?th"
    using same b(2,3) by (auto simp: done'(1) set_rewrite enrolled_agent_def)
  have now: "enrolled_agent (hash c) g now x b \<in> set (agents d1)"
    using b c by (auto simp: done'(1) set_rewrite)
  have "ag_targetId b = ag_targetId a" using assms(3) a b(1,2) by (auto dest!: find_first_Some)
  with b t now have "\<exists>b \<in> set (agents (mid d)). redeemable ?th now b \<and>
      enrolled_agent (hash c) g now x b \<in> set (agents d1) \<and>
      (\<exists>t \<in> set (targets (mid d)). tg_id t = ag_targetId b \<and> tg_managementState t \<noteq> MgRetired)"
    by (intro bexI [of _ b] conjI bexI [of _ t]) simp_all
  moreover have "enroll hash (\<lambda>_. d1) now' tok' y d0 \<in> {(d0, Inl invalid_enrollment), (d1, Inl invalid_enrollment)}"
    by (rule enroll_refused) (use used assms(4) in simp)
  moreover have "enroll hash (\<lambda>d. d) now' tok' y d1 = (d1, Inl invalid_enrollment)"
    using used assms(4) by (simp add: enroll_def Let_def find_first_None [THEN iffD2])
  ultimately show ?thesis by blast
qed

definition enrolling_db :: db where
  "enrolling_db = hosting_db\<lparr>agents := map (\<lambda>a. a\<lparr>ag_enrollmentTokenHash := Some ''e1'', ag_enrollmentExpiresAt := Some 100\<rparr>)
     (agents hosting_db)\<rparr>"

definition sample_enrollment :: enroll_input where
  "sample_enrollment = \<lparr>ei_token = ''e1'', ei_version = ''0.13.0'', ei_protocolVersion = 1\<rparr>"

theorem enrollment_token_is_redeemed_once_witness:
  "\<exists>d1. enroll (\<lambda>x. x) (\<lambda>d. d) 7 ''tok'' sample_enrollment enrolling_db = (d1, Inr (''initpad_agent_tok'', 2)) \<and>
     enroll (\<lambda>x. x) (\<lambda>d. d) 8 ''other'' sample_enrollment d1 = (d1, Inl invalid_enrollment)"
proof -
  obtain d1 r where run: "enroll (\<lambda>x. x) (\<lambda>d. d) 7 ''tok'' sample_enrollment enrolling_db = (d1, r)" by fastforce
  have "snd (enroll (\<lambda>x. x) (\<lambda>d. d) 7 ''tok'' sample_enrollment enrolling_db) = Inr (''initpad_agent_tok'', 2)"
    by (simp add: enroll_def enroll_tx_def update_many_def redeemable_def enrolling_db_def sample_enrollment_def
        hosting_db_def sftp_target_def credential_prefix_def Let_def)
  with run have ok: "r = Inr (''initpad_agent_tok'', 2)" by simp
  have c: "count_where (\<lambda>a. ag_enrollmentTokenHash a = Some (ei_token sample_enrollment)) (agents enrolling_db) \<le> 1"
    by (simp add: enrolling_db_def hosting_db_def)
  have t: "\<forall>a \<in> set (agents enrolling_db). \<forall>b \<in> set (agents enrolling_db). ag_id a = ag_id b \<longrightarrow> ag_targetId a = ag_targetId b"
    by (simp add: enrolling_db_def hosting_db_def)
  from enrollment_token_is_redeemed_once [OF run [unfolded ok] c t refl] run ok show ?thesis by blast
qed

lemma require_target_accessD:
  "require_target_access i u Administer d = Inr (w, t) \<Longrightarrow>
     target_by_id (Some i) d = Some t \<and> tg_workspaceId t = Some w \<and> w \<noteq> [] \<and> tg_scope t \<noteq> Builtin \<and>
     tg_kind t = Docker \<and> require u w Administer d \<in> range Inr"
  by (cases "tg_workspaceId t")
    (auto simp: require_target_access_def require_def can_def image_iff split: option.splits if_splits)

lemma access_get_user_target:
  assumes "require_target_access i u Administer d = Inr (w, t)"
  shows "get_user_target own i u Administer d = Inr t"
  using require_target_accessD [OF assms]
  by (auto simp: get_user_target_def get_visible_target_def)

lemma access_frame:
  assumes "targets d' = targets d" and "members d' = members d"
  shows "require_target_access i u p d' = require_target_access i u p d"
proof -
  have "role_for v w d' = role_for v w d" for v w using assms(2) by (simp add: role_for_def membership_def)
  moreover have "target_by_id (Some i) d' = target_by_id (Some i) d" using assms(1) by (simp add: target_by_id_def)
  ultimately show ?thesis by (cases "target_by_id (Some i) d") (auto simp: require_target_access_def)
qed

lemma upsert_enrollment_redeemable:
  "\<exists>a. agent_of_target i (upsert_enrollment newId i h e d) = Some a \<and> redeemable h (e - 1) a"
proof (cases "agent_of_target i d")
  case None
  then show ?thesis
    by (auto simp: upsert_enrollment_def agent_of_target_def find_first_create new_agent_def redeemable_def)
next
  case (Some a)
  then have "find_first (\<lambda>a. ag_targetId a = i) (rewrite (\<lambda>a. ag_targetId a = i) (enrollment_issued h e) (agents d)) =
      Some (enrollment_issued h e a)"
    by (subst find_first_rewrite) (auto simp: agent_of_target_def enrollment_issued_def dest: find_first_Some)
  with Some show ?thesis
    by (auto simp: upsert_enrollment_def agent_of_target_def enrollment_issued_def redeemable_def)
qed

lemma upsert_enrollment_frame [simp]:
  "targets (upsert_enrollment newId i h e d) = targets d" "members (upsert_enrollment newId i h e d) = members d"
  by (simp_all add: upsert_enrollment_def split: option.split)

text \<open>
  Disabling leaves a pending enrollment alive. On a target that is disconnected (where a new
  enrollment is the way to reconnect), an administrator issues an enrollment and then disables the
  Agent: the call reports success and changes nothing, the token stays redeemable until it expires,
  and redeeming it makes the target active again.
\<close>

theorem disabling_leaves_pending_enrollment:
  assumes "issue_enrollment hash (\<lambda>x. x) down now newId tok i u d = (d1, Inr (sm, token))"
    and "target_by_id (Some i) d = Some t" and "tg_managementState t = MgDisconnected" and "tg_scope t = UserScope"
  shows "agent_disable own mid down' now' i u d1 = (d1, Inr ()) \<and>
    (\<exists>a. agent_of_target i d1 = Some a \<and> redeemable (hash token) (now + enrollment_ttl_ms - 1) a)"
proof -
  let ?d0 = "upsert_enrollment newId i (hash token) (now + enrollment_ttl_ms) d"
  from assms(1,2) obtain w where acc: "require_target_access i u Administer d = Inr (w, t)"
    and d0: "only_audit ?d0 d1"
    using only_audit_record
    by (auto simp: issue_enrollment_def Let_def split: sum.splits prod.splits if_splits option.splits
        dest!: require_target_accessD) (metis fst_conv)+
  note frame = only_audit_frame [OF d0]
  obtain a where a: "agent_of_target i ?d0 = Some a" "redeemable (hash token) (now + enrollment_ttl_ms - 1) a"
    using upsert_enrollment_redeemable by blast
  have "agent_of_target i d1 = Some a" using a(1) frame by (simp add: agent_of_target_def)
  moreover have acc1: "require_target_access i u Administer d1 = Inr (w, t)"
    using acc access_frame [of d1 d] frame by simp
  moreover have "target_disconnect own mid down' now' i u d1 = (d1, Inr ())"
    using access_get_user_target [OF acc1] assms(3) by (simp add: target_disconnect_def make_unavailable_def)
  ultimately show ?thesis using a(2) by (simp add: agent_disable_def)
qed

definition disconnected_db :: db where
  "disconnected_db = hosting_db\<lparr>targets := map (\<lambda>t. t\<lparr>tg_managementState := MgDisconnected\<rparr>) (targets hosting_db)\<rparr>"

theorem disabling_leaves_pending_enrollment_witness:
  "\<exists>d1 sm. issue_enrollment (\<lambda>x. x) (\<lambda>x. x) False 5 ''n'' ''tok'' ''k'' ''u'' disconnected_db = (d1, Inr (sm, ''initpad_enroll_tok'')) \<and>
     agent_disable True (\<lambda>x. x) False 6 ''k'' ''u'' d1 = (d1, Inr ())"
proof -
  let ?t = "sftp_target\<lparr>tg_id := ''k'', tg_name := ''box'', tg_kind := Docker, tg_managementState := MgDisconnected\<rparr>"
  obtain d1 r where run: "issue_enrollment (\<lambda>x. x) (\<lambda>x. x) False 5 ''n'' ''tok'' ''k'' ''u'' disconnected_db = (d1, r)"
    by fastforce
  have "map_sum id snd (snd (issue_enrollment (\<lambda>x. x) (\<lambda>x. x) False 5 ''n'' ''tok'' ''k'' ''u'' disconnected_db)) = Inr ''initpad_enroll_tok''"
    by (simp add: issue_enrollment_def require_target_access_def upsert_enrollment_def can_def enrollment_prefix_def
        enrollment_issued_def nat_str.simps [of 15] nat_str.simps [of "Suc 0"] audit_eval disconnected_db_def hosting_eval)
  with run obtain sm where ok: "r = Inr (sm, ''initpad_enroll_tok'')" by (cases r) auto
  have t: "target_by_id (Some ''k'') disconnected_db = Some ?t"
    by (simp add: disconnected_db_def hosting_eval)
  have st: "tg_managementState ?t = MgDisconnected" "tg_scope ?t = UserScope" by (simp_all add: sftp_target_def)
  from disabling_leaves_pending_enrollment [OF run [unfolded ok] t st, of True "\<lambda>x. x" False 6] run ok
  show ?thesis by blast
qed

end
