(* ===== verification/GatewayRoutes.thy ===== *)
theory GatewayRoutes
  imports GatewayHosts Agents
begin

text \<open>
  Gateway routes (\<open>targets/gateway-routes.service.ts\<close>): the reservation of a stable hostname for an
  environment, and the durable, generation-fenced intents the Agent reconciles, one job per request id.

  The platform's parser and digest are parameters as in \<open>GatewayHosts\<close>; \<open>mid\<close> and \<open>mid'\<close> are what
  other requests commit between the reads and the write of a method.
\<close>

section \<open>Requests\<close>

record route_request =
  rr_requestId :: string
  rr_desiredState :: string
  rr_revision :: "string option"
  rr_projectSlug :: string
  rr_containerPort :: int
  rr_healthPath :: string
  rr_workloadSlot :: "string option"
  rr_activation :: "string option"
  rr_operationId :: "string option"
  rr_step :: "nat option"
  rr_correlationId :: "string option"

record route_job =
  rj_routeId :: string
  rj_jobId :: string
  rj_generation :: int
  rj_status :: job_status

definition uuid_position :: "nat \<times> char \<Rightarrow> bool" where
  "uuid_position p = (case p of (i, c) \<Rightarrow>
     if i \<in> {8, 13, 18, 23} then c = CHR ''-''
     else if i = 14 then c \<in> set ''12345678''
     else if i = 19 then lower_char c \<in> set ''89ab''
     else lower_char c \<in> set ''0123456789abcdef'')"

definition any_uuid :: "string \<Rightarrow> bool" where
  "any_uuid s = (length s = 36 \<and> list_all uuid_position (enumerate 0 s))"

definition name_char :: "char \<Rightarrow> bool" where
  "name_char c = (c \<in> set ''._-'')"

definition safe_id :: "string \<Rightarrow> bool" where
  "safe_id s = (s \<noteq> [] \<and> length s \<le> 128 \<and> alnum (hd s) \<and> list_all (\<lambda>c. alnum c \<or> name_char c) s)"

definition revision_ok :: "string \<Rightarrow> bool" where
  "revision_ok s = (s \<noteq> [] \<and> length s \<le> 128 \<and> (alnum (hd s) \<or> is_upper (hd s)) \<and>
     list_all (\<lambda>c. alnum c \<or> is_upper c \<or> name_char c) s)"

definition health_path_ok :: "string \<Rightarrow> bool" where
  "health_path_ok s = (s \<noteq> [] \<and> hd s = CHR ''/'' \<and> length s \<le> 256 \<and>
     list_all (\<lambda>c. alnum c \<or> is_upper c \<or> c = CHR 0x27 \<or> c \<in> set ''._~!$&()*+,;=:@%/-'') (tl s))"

definition workload_slot_ok :: "string \<Rightarrow> bool" where
  "workload_slot_ok s = (length s = 12 \<and> list_all (\<lambda>c. c \<in> set ''0123456789abcdef'') s)"

definition route_states :: "string list" where
  "route_states = [''active'', ''stopped'', ''absent'']"

definition validate_request :: "route_request \<Rightarrow> unit outcome" where
  "validate_request q =
     (if \<not> any_uuid (rr_requestId q) then Inl (BadRequest ''Gateway route request id is invalid'')
      else if rr_correlationId q \<noteq> None \<and> \<not> any_uuid (the (rr_correlationId q))
      then Inl (BadRequest ''Gateway route correlation id is invalid'')
      else if rr_desiredState q \<notin> set route_states
      then Inl (BadRequest ''Gateway route desired state is invalid'')
      else if \<not> safe_id (rr_projectSlug q) then Inl (BadRequest ''Gateway route project slug is invalid'')
      else if rr_containerPort q < 1 \<or> rr_containerPort q > 65535
      then Inl (BadRequest ''Gateway route container port is invalid'')
      else if \<not> health_path_ok (rr_healthPath q) then Inl (BadRequest ''Gateway route health path is invalid'')
      else if rr_revision q \<noteq> None \<and> \<not> revision_ok (the (rr_revision q))
      then Inl (BadRequest ''Gateway route revision is invalid'')
      else if rr_desiredState q \<noteq> ''absent'' \<and> \<not> truthy (rr_revision q)
      then Inl (BadRequest ''Gateway route active or stopped state requires a revision'')
      else if rr_desiredState q = ''absent'' \<and> rr_revision q \<noteq> None
      then Inl (BadRequest ''An absent gateway route cannot retain a desired revision'')
      else if rr_desiredState q = ''active'' \<and>
          (\<not> truthy (rr_workloadSlot q) \<or> \<not> workload_slot_ok (the (rr_workloadSlot q)))
      then Inl (BadRequest ''An active gateway route requires a verified workload slot'')
      else if rr_desiredState q = ''active'' \<and> rr_activation q \<notin> {Some ''deploy'', Some ''start''}
      then Inl (BadRequest ''An active gateway route requires a bounded activation mode'')
      else if rr_desiredState q \<noteq> ''active'' \<and> (rr_workloadSlot q \<noteq> None \<or> rr_activation q \<noteq> None)
      then Inl (BadRequest ''An inactive gateway route cannot activate a workload slot'')
      else if (rr_operationId q \<noteq> None) \<noteq> (rr_step q \<noteq> None)
      then Inl (BadRequest ''Gateway route workflow binding is incomplete'')
      else if rr_operationId q \<noteq> None \<and> \<not> any_uuid (the (rr_operationId q))
      then Inl (BadRequest ''Gateway route deployment operation id is invalid'')
      else if rr_step q \<noteq> None \<and> the (rr_step q) < 1
      then Inl (BadRequest ''Gateway route operation step is invalid'')
      else Inr ())"

section \<open>Reservation\<close>

definition route_of :: "string \<Rightarrow> db \<Rightarrow> gateway_route_row option" where
  "route_of e d = find_first (\<lambda>g. gr_environmentId g = e) (gatewayRoutes d)"

definition assert_same_binding :: "gateway_route_row \<Rightarrow> string \<Rightarrow> string \<Rightarrow> gateway_route_row outcome" where
  "assert_same_binding g t a =
     (if gr_targetId g \<noteq> t \<or> gr_allocationId g \<noteq> a
      then Inl (BadRequest ''The stable gateway hostname is still reserved on a different target; remove that route before moving the environment'')
      else Inr g)"

definition new_route :: "string \<Rightarrow> string \<Rightarrow> string \<Rightarrow> string \<Rightarrow> string \<Rightarrow> gateway_route_row" where
  "new_route i e t a h = \<lparr>gr_id = i, gr_environmentId = e, gr_targetId = t, gr_allocationId = a,
     gr_hostname = h, gr_publicUrl = ''https://'' @ h, gr_desiredState = ''reserved'', gr_desiredRevision = None,
     gr_observedState = ''absent'', gr_observedRevision = None, gr_generation = 0, gr_observedGeneration = 0,
     gr_reconcileJobId = None, gr_lastError = None, gr_reconciledAt = None\<rparr>"

text \<open>The unique columns of the table: environment, hostname and public address.\<close>

definition create_route :: "gateway_route_row \<Rightarrow> db \<Rightarrow> db option" where
  "create_route g d =
     (if list_ex (\<lambda>x. gr_environmentId x = gr_environmentId g \<or> gr_hostname x = gr_hostname g \<or>
          gr_publicUrl x = gr_publicUrl g) (gatewayRoutes d)
      then None else Some (d\<lparr>gatewayRoutes := create g (gatewayRoutes d)\<rparr>))"

definition active_access ::
  "environment_row \<Rightarrow> project_row \<Rightarrow> target_row option \<Rightarrow> allocation_row option \<Rightarrow> bool" where
  "active_access e p t a = (case (t, a) of
      (Some t, Some a) \<Rightarrow> tg_routingMode t = ManagedGateway \<and> en_targetId e = Some (tg_id t) \<and>
        en_allocationId e = Some (al_id a) \<and> al_targetId a = tg_id t \<and>
        al_workspaceId a = pj_workspaceId p \<and> al_active a
    | _ \<Rightarrow> False)"

definition reserve ::
  "(string \<Rightarrow> string) \<Rightarrow> (string \<Rightarrow> url option) \<Rightarrow> (string \<Rightarrow> bool) \<Rightarrow> (db \<Rightarrow> db) \<Rightarrow> string \<Rightarrow> string \<Rightarrow> db
     \<Rightarrow> db \<times> gateway_route_row outcome" where
  "reserve sha256 parse is_ip mid newId envId d =
     (case environment_by_id envId d of
        None \<Rightarrow> (d, Inl (BadRequest ''Gateway route environment does not exist''))
      | Some e \<Rightarrow> (case project_by_id (en_projectId e) d of
          None \<Rightarrow> (d, Inl (ServerError ''project relation''))
        | Some p \<Rightarrow>
            let t = target_by_id (en_targetId e) d; a = allocation_by_id (en_allocationId e) d in
            if \<not> active_access e p t a
            then (d, Inl (BadRequest ''Gateway route requires active workspace access to the managed-gateway server''))
            else (let ti = tg_id (the t); ai = al_id (the a) in
              case route_of envId d of
                Some g \<Rightarrow> (d, assert_same_binding g ti ai)
              | None \<Rightarrow>
                  (case managed_gateway_origin parse is_ip (tg_publicUrl (the t)) (al_publicUrl (the a)) of
                    Inl err \<Rightarrow> (d, Inl err)
                  | Inr o' \<Rightarrow>
                      (case stable_gateway_hostname sha256 parse is_ip (pj_name p) (env_name_str (en_name e)) envId o' of
                        Inl err \<Rightarrow> (d, Inl err)
                      | Inr h \<Rightarrow> (let g = new_route newId envId ti ai h; d1 = mid d in
                          case create_route g d1 of
                            Some d2 \<Rightarrow> (d2, Inr g)
                          | None \<Rightarrow> (case route_of envId d1 of
                              None \<Rightarrow> (d1, Inl (ServerError ''P2002''))
                            | Some w \<Rightarrow> (d1, assert_same_binding w ti ai))))))))"

section \<open>Intents\<close>

definition json_int :: "json option \<Rightarrow> int option" where
  "json_int j = (case j of Some (JNum n) \<Rightarrow> Some n | _ \<Rightarrow> None)"

definition reconcile_job :: "string \<Rightarrow> agent_job_row \<Rightarrow> int option \<Rightarrow> route_job outcome" where
  "reconcile_job routeId j known =
     (case (case known of Some n \<Rightarrow> Some n | None \<Rightarrow> json_int (json_get (aj_payload j) ''generation'')) of
        Some n \<Rightarrow> if n < 1 then Inl (BadRequest ''Existing gateway route job has an invalid generation'')
                 else Inr \<lparr>rj_routeId = routeId, rj_jobId = aj_id j, rj_generation = n, rj_status = aj_status j\<rparr>
      | None \<Rightarrow> Inl (BadRequest ''Existing gateway route job has an invalid generation''))"

definition route_dedupe_key :: "gateway_route_row \<Rightarrow> route_request \<Rightarrow> string" where
  "route_dedupe_key g q = ''gateway-route:'' @ gr_id g @ '':'' @ rr_requestId q"

definition job_by_key :: "string \<Rightarrow> db \<Rightarrow> agent_job_row option" where
  "job_by_key k d = find_first (\<lambda>j. aj_dedupeKey j = k) (agentJobs d)"

definition route_payload ::
  "gateway_route_row \<Rightarrow> allocation_row \<Rightarrow> environment_row \<Rightarrow> int \<Rightarrow> route_request \<Rightarrow> json" where
  "route_payload g a e n q = JObj [(''adapter'', JStr ''caddy''), (''routeId'', JStr (gr_id g)),
     (''generation'', JNum n), (''desiredState'', JStr (rr_desiredState q)), (''hostname'', JStr (gr_hostname g)),
     (''allocationId'', JStr (al_id a)), (''namespace'', JStr (al_namespace a)),
     (''projectSlug'', JStr (rr_projectSlug q)), (''environment'', JStr (env_name_str (en_name e))),
     (''revision'', json_str (rr_revision q)), (''containerPort'', JNum (rr_containerPort q)),
     (''healthPath'', JStr (rr_healthPath q)), (''workloadSlot'', json_str (rr_workloadSlot q)),
     (''activation'', json_str (rr_activation q))]"

definition new_route_job ::
  "string \<Rightarrow> string \<Rightarrow> instant \<Rightarrow> gateway_route_row \<Rightarrow> target_row \<Rightarrow> allocation_row \<Rightarrow> environment_row
     \<Rightarrow> int \<Rightarrow> route_request \<Rightarrow> agent_job_row" where
  "new_route_job i corr now g t a e n q = \<lparr>aj_id = i,
     aj_correlationId = (case rr_correlationId q of None \<Rightarrow> corr | Some c \<Rightarrow> c),
     aj_targetId = tg_id t, aj_allocationId = Some (al_id a), aj_operationId = rr_operationId q,
     aj_operationStep = rr_step q, aj_gatewayRouteId = Some (gr_id g), aj_leasedByAgentId = None,
     aj_dedupeKey = route_dedupe_key g q, aj_kind = ''gateway-route'', aj_protocolVersion = 1,
     aj_payload = route_payload g a e n q, aj_status = JbQueued, aj_attempt = 0, aj_leaseTokenHash = None,
     aj_leasedAt = None, aj_leaseExpiresAt = None, aj_progressSequence = 0, aj_progressPercent = 0,
     aj_progressStage = ''queued'', aj_message = Some ''Waiting for Agent gateway reconcile'',
     aj_resultCode = None, aj_result = None, aj_createdAt = now, aj_finishedAt = None\<rparr>"

definition superseded_job :: "instant \<Rightarrow> agent_job_row \<Rightarrow> agent_job_row" where
  "superseded_job now j = j\<lparr>aj_status := JbCancelled, aj_progressStage := ''cancelled'',
     aj_message := Some ''Superseded by a newer gateway route generation'', aj_finishedAt := Some now\<rparr>"

text \<open>The unique columns of a job: its dedupe key, and operation with step.\<close>

definition job_conflict :: "agent_job_row \<Rightarrow> agent_job_row list \<Rightarrow> bool" where
  "job_conflict j js = list_ex (\<lambda>x. aj_dedupeKey x = aj_dedupeKey j \<or>
     aj_operationId j \<noteq> None \<and> aj_operationStep j \<noteq> None \<and>
     aj_operationId x = aj_operationId j \<and> aj_operationStep x = aj_operationStep j) js"

definition intended_route :: "string \<Rightarrow> route_request \<Rightarrow> gateway_route_row \<Rightarrow> gateway_route_row" where
  "intended_route jobId q g = g\<lparr>gr_generation := gr_generation g + 1, gr_desiredState := rr_desiredState q,
     gr_desiredRevision := rr_revision q, gr_reconcileJobId := Some jobId\<rparr>"

text \<open>The transaction: the inserted job, or the error that rolls everything back.\<close>

definition queue_tx ::
  "string \<Rightarrow> string \<Rightarrow> instant \<Rightarrow> gateway_route_row \<Rightarrow> target_row \<Rightarrow> allocation_row \<Rightarrow> environment_row
     \<Rightarrow> route_request \<Rightarrow> db \<Rightarrow> db \<times> route_job outcome" where
  "queue_tx newId corr now g t a e q d =
     (case job_by_key (route_dedupe_key g q) d of
        Some j \<Rightarrow> (d, reconcile_job (gr_id g) j None)
      | None \<Rightarrow> (case find_first (\<lambda>x. gr_id x = gr_id g) (gatewayRoutes d) of
          None \<Rightarrow> (d, Inl (ServerError ''P2025''))
        | Some x \<Rightarrow> (let n = int (gr_generation x) + 1; j = new_route_job newId corr now g t a e n q in
            if job_conflict j (agentJobs d) then (d, Inl (ServerError ''P2002''))
            else (d\<lparr>agentJobs := create j (rewrite (\<lambda>j. aj_gatewayRouteId j = Some (gr_id g) \<and> aj_status j = JbQueued)
                       (superseded_job now) (agentJobs d)),
                   gatewayRoutes := rewrite (\<lambda>x. gr_id x = gr_id g) (intended_route newId q) (gatewayRoutes d)\<rparr>,
                  reconcile_job (gr_id g) j (Some n)))))"

definition preflighted ::
  "gateway_route_row \<Rightarrow> environment_row \<Rightarrow> project_row \<Rightarrow> target_row option \<Rightarrow> allocation_row option \<Rightarrow> bool" where
  "preflighted g e p t a = (case (t, a) of
      (Some t, Some a) \<Rightarrow> tg_id t = gr_targetId g \<and> en_targetId e = Some (tg_id t) \<and> tg_kind t = Docker \<and>
        tg_scope t = UserScope \<and> tg_workspaceId t = Some (pj_workspaceId p) \<and>
        tg_routingMode t = ManagedGateway \<and> tg_gatewayAdapter t = Some ''caddy'' \<and>
        tg_preflightStatus t = PfPassed \<and> al_id a = gr_allocationId g \<and> en_allocationId e = Some (al_id a) \<and>
        al_targetId a = tg_id t \<and> al_workspaceId a = pj_workspaceId p \<and> al_active a
    | _ \<Rightarrow> False)"

definition queue_reconcile ::
  "(string \<Rightarrow> string) \<Rightarrow> (string \<Rightarrow> url option) \<Rightarrow> (string \<Rightarrow> bool) \<Rightarrow> (db \<Rightarrow> db) \<Rightarrow> (db \<Rightarrow> db) \<Rightarrow> string
     \<Rightarrow> string \<Rightarrow> string \<Rightarrow> instant \<Rightarrow> string \<Rightarrow> route_request \<Rightarrow> db \<Rightarrow> db \<times> route_job outcome" where
  "queue_reconcile sha256 parse is_ip mid mid' newRoute newJob corr now envId q d =
     (case validate_request q of
        Inl err \<Rightarrow> (d, Inl err)
      | Inr _ \<Rightarrow> (case reserve sha256 parse is_ip mid newRoute envId d of
          (d1, Inl err) \<Rightarrow> (d1, Inl err)
        | (d1, Inr g) \<Rightarrow> (case environment_by_id envId d1 of
            None \<Rightarrow> (d1, Inl (BadRequest ''Gateway route requires a preflighted managed-gateway Agent allocation''))
          | Some e \<Rightarrow> (case project_by_id (en_projectId e) d1 of
              None \<Rightarrow> (d1, Inl (ServerError ''project relation''))
            | Some p \<Rightarrow>
                let t = target_by_id (en_targetId e) d1; a = allocation_by_id (en_allocationId e) d1 in
                if \<not> preflighted g e p t a
                then (d1, Inl (BadRequest ''Gateway route requires a preflighted managed-gateway Agent allocation''))
                else (case agent_of_target (tg_id (the t)) d1 of
                    None \<Rightarrow> (d1, Inl (BadRequest ''Enroll and connect the target Agent before reconciling gateway routes''))
                  | Some ag \<Rightarrow>
                      if \<not> truthy (ag_credentialHash ag) \<or> ag_disabledAt ag \<noteq> None
                      then (d1, Inl (BadRequest ''Enroll and connect the target Agent before reconciling gateway routes''))
                      else if \<not> agent_version_at_least (ag_version ag) min_gateway_route_version
                      then (d1, Inl (BadRequest ''Gateway routes require InitPad Agent 0.8.0 or newer''))
                      else (case job_by_key (route_dedupe_key g q) d1 of
                          Some j \<Rightarrow> (d1, reconcile_job (gr_id g) j None)
                        | None \<Rightarrow> (case queue_tx newJob corr now g (the t) (the a) e q (mid' d1) of
                            (d2, Inl (ServerError m)) \<Rightarrow>
                              if m = ''P2002''
                              then (case job_by_key (route_dedupe_key g q) d2 of
                                  None \<Rightarrow> (d2, Inl (ServerError m))
                                | Some w \<Rightarrow> (d2, reconcile_job (gr_id g) w None))
                              else (d2, Inl (ServerError m))
                          | (d2, r) \<Rightarrow> (d2, r))))))))"

section \<open>Replayed requests\<close>

lemma reserve_again:
  assumes "reserve sha256 parse is_ip (\<lambda>x. x) newId envId d = (d1, Inr g)"
  shows "route_of envId d1 = Some g" and "environments d1 = environments d" and "projects d1 = projects d"
    and "targets d1 = targets d" and "allocations d1 = allocations d" and "agentJobs d1 = agentJobs d"
    and "agents d1 = agents d"
    and "\<exists>e p t a. environment_by_id envId d = Some e \<and> project_by_id (en_projectId e) d = Some p \<and>
      target_by_id (en_targetId e) d = Some t \<and> allocation_by_id (en_allocationId e) d = Some a \<and>
      active_access e p (Some t) (Some a) \<and> gr_targetId g = tg_id t \<and> gr_allocationId g = al_id a"
proof -
  from assms obtain e p where e: "environment_by_id envId d = Some e" "project_by_id (en_projectId e) d = Some p"
    "active_access e p (target_by_id (en_targetId e) d) (allocation_by_id (en_allocationId e) d)"
    by (auto simp: reserve_def Let_def split: option.splits if_splits)
  then obtain t a where ta: "target_by_id (en_targetId e) d = Some t" "allocation_by_id (en_allocationId e) d = Some a"
    by (auto simp: active_access_def split: option.splits)
  show "\<exists>e p t a. environment_by_id envId d = Some e \<and> project_by_id (en_projectId e) d = Some p \<and>
      target_by_id (en_targetId e) d = Some t \<and> allocation_by_id (en_allocationId e) d = Some a \<and>
      active_access e p (Some t) (Some a) \<and> gr_targetId g = tg_id t \<and> gr_allocationId g = al_id a"
    using assms e ta
    by (auto simp: reserve_def Let_def assert_same_binding_def new_route_def
        split: option.splits if_splits sum.splits)
  have "route_of envId d1 = Some g \<and> environments d1 = environments d \<and> projects d1 = projects d \<and>
      targets d1 = targets d \<and> allocations d1 = allocations d \<and> agentJobs d1 = agentJobs d \<and> agents d1 = agents d"
  proof (cases "route_of envId d")
    case (Some g0)
    with assms e ta show ?thesis
      by (auto simp: reserve_def assert_same_binding_def split: if_splits)
  next
    case None
    with assms e ta obtain h where "create_route (new_route newId envId (tg_id t) (al_id a) h) d = Some d1"
      "g = new_route newId envId (tg_id t) (al_id a) h"
      by (auto simp: reserve_def Let_def split: sum.splits option.splits)
    with None show ?thesis
      by (auto simp: create_route_def route_of_def find_first_create new_route_def split: if_splits)
  qed
  then show "route_of envId d1 = Some g" "environments d1 = environments d" "projects d1 = projects d"
    "targets d1 = targets d" "allocations d1 = allocations d" "agentJobs d1 = agentJobs d" "agents d1 = agents d"
    by simp_all
qed

lemma lookup_cong:
  "environments d' = environments d \<Longrightarrow> environment_by_id i d' = environment_by_id i d"
  "projects d' = projects d \<Longrightarrow> project_by_id i d' = project_by_id i d"
  "targets d' = targets d \<Longrightarrow> target_by_id ti d' = target_by_id ti d"
  "allocations d' = allocations d \<Longrightarrow> allocation_by_id ti d' = allocation_by_id ti d"
  "agents d' = agents d \<Longrightarrow> agent_of_target i d' = agent_of_target i d"
  "agentJobs d' = agentJobs d \<Longrightarrow> job_by_key i d' = job_by_key i d"
  by (simp_all add: lookup_defs job_by_key_def)

text \<open>The guards of a request, on the database after the reservation.\<close>

definition route_guard :: "gateway_route_row \<Rightarrow> string \<Rightarrow> route_request \<Rightarrow> db \<Rightarrow> environment_row \<Rightarrow> target_row \<Rightarrow> allocation_row \<Rightarrow> bool" where
  "route_guard g envId q d e t a \<longleftrightarrow> (\<exists>p ag. validate_request q = Inr () \<and> environment_by_id envId d = Some e \<and>
     project_by_id (en_projectId e) d = Some p \<and> target_by_id (en_targetId e) d = Some t \<and>
     allocation_by_id (en_allocationId e) d = Some a \<and> preflighted g e p (Some t) (Some a) \<and>
     agent_of_target (tg_id t) d = Some ag \<and> truthy (ag_credentialHash ag) \<and> ag_disabledAt ag = None \<and>
     agent_version_at_least (ag_version ag) min_gateway_route_version)"

lemma queue_reconcile_Inr:
  assumes "queue_reconcile sha256 parse is_ip (\<lambda>x. x) (\<lambda>x. x) newRoute newJob corr now envId q d = (d', Inr r)"
  obtains d1 g e t a where "reserve sha256 parse is_ip (\<lambda>x. x) newRoute envId d = (d1, Inr g)"
    "route_guard g envId q d1 e t a"
    "(\<exists>j. job_by_key (route_dedupe_key g q) d1 = Some j \<and> d' = d1 \<and> reconcile_job (gr_id g) j None = Inr r) \<or>
     job_by_key (route_dedupe_key g q) d1 = None \<and> queue_tx newJob corr now g t a e q d1 = (d', Inr r)"
proof -
  from assms obtain d1 g where v: "validate_request q = Inr ()" and
    r: "reserve sha256 parse is_ip (\<lambda>x. x) newRoute envId d = (d1, Inr g)"
    by (auto simp: queue_reconcile_def split: sum.splits prod.splits)
  from assms v r obtain e p where e: "environment_by_id envId d1 = Some e" "project_by_id (en_projectId e) d1 = Some p"
    "preflighted g e p (target_by_id (en_targetId e) d1) (allocation_by_id (en_allocationId e) d1)"
    by (auto simp: queue_reconcile_def Let_def split: option.splits if_splits)
  then obtain t a where ta: "target_by_id (en_targetId e) d1 = Some t" "allocation_by_id (en_allocationId e) d1 = Some a"
    by (auto simp: preflighted_def split: option.splits)
  from assms v r e ta obtain ag where ag: "agent_of_target (tg_id t) d1 = Some ag" "truthy (ag_credentialHash ag)"
    "ag_disabledAt ag = None" "agent_version_at_least (ag_version ag) min_gateway_route_version"
    by (auto simp: queue_reconcile_def Let_def split: option.splits if_splits)
  have guard: "route_guard g envId q d1 e t a" using v e ta ag by (auto simp: route_guard_def)
  show thesis
  proof (cases "job_by_key (route_dedupe_key g q) d1")
    case (Some j)
    with assms v r e ta ag guard show thesis
      by (intro that [OF r guard]) (auto simp: queue_reconcile_def Let_def)
  next
    case None
    have none: "job_by_key (route_dedupe_key g q) d2 = None" if "queue_tx newJob corr now g t a e q d1 = (d2, Inl err)" for d2 err
      using that None by (auto simp: queue_tx_def Let_def reconcile_job_def split: option.splits if_splits)
    have "queue_tx newJob corr now g t a e q d1 = (d', Inr r)"
      using assms v r e ta ag None none
      by (auto simp: queue_reconcile_def Let_def split: prod.splits sum.splits http_error.splits if_splits option.splits)
    with None show thesis by (intro that [OF r guard]) simp
  qed
qed

lemma queue_tx_new:
  assumes "queue_tx newJob corr now g t a e q d = (d', Inr r)" and "job_by_key (route_dedupe_key g q) d = None"
  obtains x where "find_first (\<lambda>x. gr_id x = gr_id g) (gatewayRoutes d) = Some x"
    "d' = d\<lparr>agentJobs := create (new_route_job newJob corr now g t a e (int (gr_generation x) + 1) q)
        (rewrite (\<lambda>j. aj_gatewayRouteId j = Some (gr_id g) \<and> aj_status j = JbQueued) (superseded_job now) (agentJobs d)),
      gatewayRoutes := rewrite (\<lambda>x. gr_id x = gr_id g) (intended_route newJob q) (gatewayRoutes d)\<rparr>"
    "r = \<lparr>rj_routeId = gr_id g, rj_jobId = newJob, rj_generation = int (gr_generation x) + 1, rj_status = JbQueued\<rparr>"
  using assms
  by (auto simp: queue_tx_def Let_def reconcile_job_def new_route_job_def split: option.splits if_splits)

lemma new_route_job_key [simp]: "aj_dedupeKey (new_route_job i c now g t a e n q) = route_dedupe_key g q"
  by (simp add: new_route_job_def)

lemma intended_key [simp]:
  "route_dedupe_key (intended_route i q' g) q = route_dedupe_key g q" "gr_id (intended_route i q' g) = gr_id g"
  "gr_targetId (intended_route i q' g) = gr_targetId g" "gr_allocationId (intended_route i q' g) = gr_allocationId g"
  "gr_environmentId (intended_route i q' g) = gr_environmentId g"
  by (simp_all add: route_dedupe_key_def intended_route_def)

lemma job_found_after_tx:
  assumes "job_by_key (route_dedupe_key g q) d = None"
    and "agentJobs d' = create (new_route_job i c now g t a e n q)
      (rewrite (\<lambda>j. aj_gatewayRouteId j = Some (gr_id g) \<and> aj_status j = JbQueued) (superseded_job now) (agentJobs d))"
  shows "job_by_key (route_dedupe_key g q) d' = Some (new_route_job i c now g t a e n q)"
proof -
  have "find_first (\<lambda>j. aj_dedupeKey j = route_dedupe_key g q)
      (rewrite (\<lambda>j. aj_gatewayRouteId j = Some (gr_id g) \<and> aj_status j = JbQueued) (superseded_job now) (agentJobs d)) = None"
    using assms(1) by (subst find_first_rewrite) (auto simp: superseded_job_def job_by_key_def)
  with assms(2) show ?thesis by (simp add: job_by_key_def find_first_create)
qed

lemma queue_reconcile_known:
  assumes "route_guard g envId q d e t a" and "route_of envId d = Some g"
    and "active_access e p (Some t) (Some a)" and "project_by_id (en_projectId e) d = Some p"
    and "gr_targetId g = tg_id t" and "gr_allocationId g = al_id a"
    and "job_by_key (route_dedupe_key g q) d = Some j" and "reconcile_job (gr_id g) j None = Inr r"
  shows "queue_reconcile sha256 parse is_ip m m' newRoute newJob corr now envId q d = (d, Inr r)"
proof -
  have "reserve sha256 parse is_ip m newRoute envId d = (d, Inr g)"
    using assms by (auto simp: reserve_def route_guard_def assert_same_binding_def)
  with assms show ?thesis by (auto simp: queue_reconcile_def route_guard_def Let_def)
qed

lemma reserve_keyed:
  assumes "reserve sha256 parse is_ip (\<lambda>x. x) newId envId d = (d1, Inr g)"
    and "keyed gr_id (gatewayRoutes d)" and "newId \<notin> gr_id ` set (gatewayRoutes d)"
  shows "keyed gr_id (gatewayRoutes d1)"
proof -
  have "keyed gr_id (gatewayRoutes d2)" if "create_route (new_route newId envId t a h) d = Some d2" for t a h d2
    using that assms(2,3) by (auto simp: create_route_def create_def keyed_def new_route_def split: if_splits)
  with assms(1,2) show ?thesis
    by (auto simp: reserve_def Let_def split: option.splits if_splits sum.splits)
qed

text \<open>
  A route intent is recorded once per request and fences the older ones. When a request is
  accepted (without interference) for the first time, the route of the environment moves to the next
  generation with the desired state and names the new job, whose payload carries this generation,
  and no other job of the route is left queued. Repeating the same request at any later moment, with any
  new ids, answers with the same job and generation and changes nothing.
\<close>

theorem route_intents_are_idempotent:
  assumes "queue_reconcile sha256 parse is_ip (\<lambda>x. x) (\<lambda>x. x) newRoute newJob corr now envId q d = (d', Inr r)"
    and "keyed gr_id (gatewayRoutes d)" and "newRoute \<notin> gr_id ` set (gatewayRoutes d)"
  shows "queue_reconcile sha256 parse is_ip m m' newRoute2 newJob2 corr2 now2 envId q d' = (d', Inr r)
    \<and> (agentJobs d' = agentJobs d \<or>
       (\<exists>g g' j. route_of envId d' = Some g' \<and> g' = intended_route newJob q g \<and>
          rj_jobId r = newJob \<and> rj_generation r = int (gr_generation g') \<and> gr_reconcileJobId g' = Some newJob \<and>
          job_by_key (route_dedupe_key g q) d' = Some j \<and> aj_id j = newJob \<and>
          json_get (aj_payload j) ''generation'' = Some (JNum (rj_generation r)) \<and>
          (\<forall>k \<in> set (agentJobs d'). aj_gatewayRouteId k = Some (gr_id g) \<and> aj_status k = JbQueued \<longrightarrow> k = j)))"
proof -
  obtain d1 g e t a where res: "reserve sha256 parse is_ip (\<lambda>x. x) newRoute envId d = (d1, Inr g)"
    and guard: "route_guard g envId q d1 e t a"
    and cases: "(\<exists>j. job_by_key (route_dedupe_key g q) d1 = Some j \<and> d' = d1 \<and> reconcile_job (gr_id g) j None = Inr r) \<or>
     job_by_key (route_dedupe_key g q) d1 = None \<and> queue_tx newJob corr now g t a e q d1 = (d', Inr r)"
    using queue_reconcile_Inr [OF assms(1)] by metis
  note again = reserve_again [OF res]
  from again(8) guard obtain p where p: "project_by_id (en_projectId e) d1 = Some p"
    "active_access e p (Some t) (Some a)" "gr_targetId g = tg_id t" "gr_allocationId g = al_id a"
    by (auto simp: route_guard_def lookup_cong(1) [OF again(2)] lookup_cong(2) [OF again(3)]
        lookup_cong(3) [OF again(4)] lookup_cong(4) [OF again(5)])
  from cases show ?thesis
  proof
    assume "\<exists>j. job_by_key (route_dedupe_key g q) d1 = Some j \<and> d' = d1 \<and> reconcile_job (gr_id g) j None = Inr r"
    then show ?thesis using queue_reconcile_known [OF guard again(1) p(2,1,3,4)] again(6) by auto
  next
    assume new: "job_by_key (route_dedupe_key g q) d1 = None \<and> queue_tx newJob corr now g t a e q d1 = (d', Inr r)"
    obtain x where x: "find_first (\<lambda>x. gr_id x = gr_id g) (gatewayRoutes d1) = Some x"
      and d': "d' = d1\<lparr>agentJobs := create (new_route_job newJob corr now g t a e (int (gr_generation x) + 1) q)
        (rewrite (\<lambda>j. aj_gatewayRouteId j = Some (gr_id g) \<and> aj_status j = JbQueued) (superseded_job now) (agentJobs d1)),
        gatewayRoutes := rewrite (\<lambda>x. gr_id x = gr_id g) (intended_route newJob q) (gatewayRoutes d1)\<rparr>"
      and r: "r = \<lparr>rj_routeId = gr_id g, rj_jobId = newJob, rj_generation = int (gr_generation x) + 1, rj_status = JbQueued\<rparr>"
      by (rule queue_tx_new [OF conjunct2 [OF new] conjunct1 [OF new]])
    let ?j = "new_route_job newJob corr now g t a e (int (gr_generation x) + 1) q"
    have j: "job_by_key (route_dedupe_key g q) d' = Some ?j"
      by (rule job_found_after_tx [OF conjunct1 [OF new]]) (simp add: d')
    have g': "route_of envId d' = Some (intended_route newJob q g)"
      using again(1) by (simp add: route_of_def d' find_first_rewrite)
    have "g \<in> set (gatewayRoutes d1)" using again(1) by (auto simp: route_of_def dest: find_first_Some)
    then have "x = g" using x find_first_key [OF reserve_keyed [OF res assms(2,3)]] by auto
    then have r': "reconcile_job (gr_id (intended_route newJob q g)) ?j None = Inr r"
      using r by (simp add: reconcile_job_def new_route_job_def route_payload_def json_int_def)
    have same: "environments d' = environments d1" "projects d' = projects d1" "targets d' = targets d1"
      "allocations d' = allocations d1" "agents d' = agents d1" by (simp_all add: d')
    have "route_guard (intended_route newJob q g) envId q d' e t a"
      using guard by (simp add: route_guard_def preflighted_def lookup_cong(1) [OF same(1)] lookup_cong(2) [OF same(2)]
          lookup_cong(3) [OF same(3)] lookup_cong(4) [OF same(4)] lookup_cong(5) [OF same(5)])
    moreover have "project_by_id (en_projectId e) d' = Some p" using p(1) same(2) lookup_cong(2) by metis
    ultimately have replay: "queue_reconcile sha256 parse is_ip m m' newRoute2 newJob2 corr2 now2 envId q d' = (d', Inr r)"
      using queue_reconcile_known [OF _ g' p(2), of q, OF _ _ _ _ _ r'] p(3,4) j by simp
    have queued: "k = ?j" if "k \<in> set (agentJobs d')" "aj_gatewayRouteId k = Some (gr_id g)" "aj_status k = JbQueued" for k
      using that by (auto simp: d' create_def set_rewrite superseded_job_def)
    show ?thesis
      using replay g' r \<open>x = g\<close> j queued
      by (intro conjI disjI2 exI [of _ g] exI [of _ "intended_route newJob q g"] exI [of _ ?j])
        (auto simp: intended_route_def new_route_job_def route_payload_def)
  qed
qed

definition gateway_target :: target_row where
  "gateway_target = sftp_target\<lparr>tg_id := ''k'', tg_name := ''box'', tg_kind := Docker,
     tg_publicUrl := Some ''https://a.org'', tg_routingMode := ManagedGateway, tg_gatewayAdapter := Some ''caddy'',
     tg_preflightStatus := PfPassed\<rparr>"

definition routed_db :: db where
  "routed_db = hosting_db\<lparr>targets := [gateway_target],
     allocations := [\<lparr>al_id = ''al'', al_targetId = ''k'', al_workspaceId = ''w'', al_namespace = ''ns'',
       al_rootPath = None, al_publicUrl = None, al_capabilities = ''static'', al_active = True, al_maxEnvironments = 50,
       al_cpuLimitMillicores = 1000, al_memoryLimitMb = 512, al_pidsLimit = 256, al_ttl = \<lparr>devTtlHours = None, testTtlHours = None\<rparr>, al_updatedAt = 0\<rparr>],
     projects := [\<lparr>pj_id = ''p'', pj_name = ''app'', pj_workspaceId = ''w'', pj_preset = DevTestProd, pj_scmProvider = ''gitea'', pj_scmFullName = ''o/p'',
       pj_scmDefaultBranch = ''main'', pj_ciDeployTokenHash = None, pj_lastCommit = []\<rparr>],
     environments := [\<lparr>en_id = ''e1'', en_projectId = ''p'', en_name = Dev, en_provider = Docker,
     en_status = EsRunning, en_version = Some ''v1'', en_url = None, en_statusReason = None,
     en_deploymentRequired = False, en_targetId = Some ''k'', en_allocationId = Some ''al'',
     en_activeOperationId = None, en_buildArtifactId = None, en_configRevision = 0,
     en_expiresAt = None, en_expiryWarningAt = None\<rparr>]\<rparr>"

definition stop_request :: route_request where
  "stop_request = \<lparr>rr_requestId = ''00000000-0000-4000-8000-000000000001'', rr_desiredState = ''stopped'',
     rr_revision = Some ''v1'', rr_projectSlug = ''app'', rr_containerPort = 8080, rr_healthPath = ''/'',
     rr_workloadSlot = None, rr_activation = None, rr_operationId = None, rr_step = None, rr_correlationId = None\<rparr>"

theorem route_intents_are_idempotent_witness:
  "\<exists>d' r. queue_reconcile sample_sha sample_parse (\<lambda>_. False) (\<lambda>x. x) (\<lambda>x. x) ''r'' ''j'' ''c'' 5 ''e1'' stop_request routed_db = (d', Inr r) \<and>
     queue_reconcile sample_sha sample_parse (\<lambda>_. False) (\<lambda>x. x) (\<lambda>x. x) ''r2'' ''j2'' ''c'' 6 ''e1'' stop_request d' = (d', Inr r)"
proof -
  obtain d' r where run: "queue_reconcile sample_sha sample_parse (\<lambda>_. False) (\<lambda>x. x) (\<lambda>x. x) ''r'' ''j'' ''c'' 5 ''e1'' stop_request routed_db = (d', r)"
    by fastforce
  have "succeeds (snd (queue_reconcile sample_sha sample_parse (\<lambda>_. False) (\<lambda>x. x) (\<lambda>x. x) ''r'' ''j'' ''c'' 5 ''e1'' stop_request routed_db))"
    by code_simp
  with run obtain j where ok: "r = Inr j" by (auto simp: succeeds_iff)
  have "keyed gr_id (gatewayRoutes routed_db)" "''r'' \<notin> gr_id ` set (gatewayRoutes routed_db)"
    by (simp_all add: keyed_def routed_db_def hosting_db_def empty_db_def)
  from route_intents_are_idempotent [OF run [unfolded ok] this] run ok show ?thesis by blast
qed

end
