(* ===== verification/AgentLeases.thy ===== *)
theory AgentLeases
  imports GatewayRoutes
begin

text \<open>
  Ownership of Agent jobs (\<open>agents/agent-job-leases.ts\<close>) and, below it, every statement of the control
  plane on the row of a job: claims, renewals, progress and results of the Agent, and the cancelling
  and unblocking by other services. \<open>job_run\<close> is any sequence of them.

  \<open>hash\<close> is the digest of tokens, \<open>tok\<close> a fresh random token, and \<open>mid\<close>, \<open>mid'\<close> what other requests
  commit between the statements of a method.
\<close>

section \<open>Conditions\<close>

definition job_lease_prefix :: string where "job_lease_prefix = ''initpad_lease_''"
definition next_poll_seconds :: nat where "next_poll_seconds = 2"
definition job_lease_ms :: int where "job_lease_ms = 30000"

definition active_credential :: "auth_agent \<Rightarrow> db \<Rightarrow> agent_job_row \<Rightarrow> bool" where
  "active_credential a d j = (case target_by_id (Some (aj_targetId j)) d of
      None \<Rightarrow> False
    | Some t \<Rightarrow> (case agent_of_target (tg_id t) d of
        None \<Rightarrow> False
      | Some g \<Rightarrow> ag_id g = aa_id a \<and> ag_disabledAt g = None \<and> holds (aa_credentialHash a) g))"

definition bound_lease :: "auth_agent \<Rightarrow> string \<Rightarrow> string \<Rightarrow> db \<Rightarrow> agent_job_row \<Rightarrow> bool" where
  "bound_lease a i h d j = (aj_id j = i \<and> aj_targetId j = aa_targetId a \<and>
     aj_leasedByAgentId j = Some (aa_id a) \<and> aj_leaseTokenHash j = Some h \<and> active_credential a d j)"

definition active_lease :: "auth_agent \<Rightarrow> string \<Rightarrow> string \<Rightarrow> instant \<Rightarrow> db \<Rightarrow> agent_job_row \<Rightarrow> bool" where
  "active_lease a i h now d j = (bound_lease a i h d j \<and> aj_status j = JbLeased \<and>
     unexpired (aj_leaseExpiresAt j) now)"

definition has_token_shape :: "string option \<Rightarrow> bool" where
  "has_token_shape t = (case t of None \<Rightarrow> False | Some s \<Rightarrow> starts_with job_lease_prefix s)"

definition lost_job_lease :: http_error where
  "lost_job_lease = Conflict ''Agent job lease is no longer valid''"

section \<open>Claiming and renewing\<close>

datatype claim_attempt = ClaimEmpty | ClaimRaced | Claimed agent_job_row string instant

definition claimable_by :: "auth_agent \<Rightarrow> instant \<Rightarrow> db \<Rightarrow> agent_job_row \<Rightarrow> bool" where
  "claimable_by a now d j = (aj_targetId j = aa_targetId a \<and> aj_protocolVersion j \<le> aa_protocolVersion a \<and>
     (aj_status j = JbQueued \<or> aj_status j = JbLeased \<and> expired (aj_leaseExpiresAt j) now) \<and>
     active_credential a d j)"

definition claim_candidate :: "auth_agent \<Rightarrow> instant \<Rightarrow> db \<Rightarrow> agent_job_row option" where
  "claim_candidate a now d = find_first (claimable_by a now d) (sort_key aj_createdAt (agentJobs d))"

definition still_candidate :: "agent_job_row \<Rightarrow> instant \<Rightarrow> agent_job_row \<Rightarrow> bool" where
  "still_candidate seen now j =
     (if aj_status seen = JbQueued then aj_status j = JbQueued
      else aj_status j = JbLeased \<and> expired (aj_leaseExpiresAt j) now \<and>
           aj_leaseTokenHash j = aj_leaseTokenHash seen)"

definition claimed_job :: "string \<Rightarrow> string \<Rightarrow> instant \<Rightarrow> agent_job_row \<Rightarrow> agent_job_row" where
  "claimed_job ag h now j = j\<lparr>aj_status := JbLeased, aj_leasedByAgentId := Some ag,
     aj_leaseTokenHash := Some h, aj_leasedAt := Some now, aj_leaseExpiresAt := Some (now + job_lease_ms),
     aj_attempt := aj_attempt j + 1, aj_progressSequence := 0, aj_progressPercent := 0,
     aj_progressStage := ''assigned'', aj_message := Some ''Claimed by Agent'', aj_resultCode := None,
     aj_result := None, aj_finishedAt := None\<rparr>"

definition claim_job_row ::
  "db \<Rightarrow> auth_agent \<Rightarrow> string \<Rightarrow> instant \<Rightarrow> agent_job_row \<Rightarrow> agent_job_row \<Rightarrow> agent_job_row option" where
  "claim_job_row d a h now seen = when_row
     (\<lambda>j. aj_targetId j = aa_targetId a \<and> active_credential a d j \<and> still_candidate seen now j)
     (claimed_job (aa_id a) h now)"

definition on_job ::
  "string \<Rightarrow> (agent_job_row \<Rightarrow> agent_job_row option) \<Rightarrow> db \<Rightarrow> db \<times> agent_job_row option" where
  "on_job i f d = (case update_row aj_id i f (agentJobs d) of (js, r) \<Rightarrow> (d\<lparr>agentJobs := js\<rparr>, r))"

definition claim_once ::
  "(string \<Rightarrow> string) \<Rightarrow> (db \<Rightarrow> db) \<Rightarrow> (db \<Rightarrow> db) \<Rightarrow> string \<Rightarrow> auth_agent \<Rightarrow> instant \<Rightarrow> db
     \<Rightarrow> db \<times> claim_attempt outcome" where
  "claim_once hash mid mid' tok a now d = (case claim_candidate a now d of
      None \<Rightarrow> (d, Inr ClaimEmpty)
    | Some c \<Rightarrow> (let token = job_lease_prefix @ tok; d1 = mid d in
        case on_job (aj_id c) (claim_job_row d1 a (hash token) now c) d1 of
          (d2, None) \<Rightarrow> (d2, Inr ClaimRaced)
        | (d2, Some _) \<Rightarrow> (let d3 = mid' d2 in case agent_job_by_id (aj_id c) d3 of
            None \<Rightarrow> (d3, Inl (ServerError ''P2025''))
          | Some j \<Rightarrow> (d3, Inr (Claimed j token (now + job_lease_ms))))))"

definition renew_job_row ::
  "db \<Rightarrow> auth_agent \<Rightarrow> string \<Rightarrow> string \<Rightarrow> instant \<Rightarrow> agent_job_row \<Rightarrow> agent_job_row option" where
  "renew_job_row d a i h now = when_row (active_lease a i h now d)
     (\<lambda>j. j\<lparr>aj_leaseExpiresAt := Some (now + job_lease_ms)\<rparr>)"

definition renew_job ::
  "(string \<Rightarrow> string) \<Rightarrow> (db \<Rightarrow> db) \<Rightarrow> string option \<Rightarrow> string \<Rightarrow> string \<Rightarrow> instant \<Rightarrow> db
     \<Rightarrow> db \<times> instant outcome" where
  "renew_job hash mid auth i token now d = (case authenticate_credential hash auth d of
      Inl e \<Rightarrow> (d, Inl e)
    | Inr a \<Rightarrow> (let d1 = mid d in
        case on_job i (renew_job_row d1 a i (hash token) now) d1 of
          (d2, None) \<Rightarrow> (d2, Inl lost_job_lease)
        | (d2, Some _) \<Rightarrow> (d2, Inr (now + job_lease_ms))))"

section \<open>The other statements on a job\<close>

text \<open>Of the Agent, under its lease (\<open>agents/agent-jobs.service.ts\<close>).\<close>

record progress_input =
  pi_leaseToken :: string
  pi_sequence :: nat
  pi_percent :: nat
  pi_stage :: string
  pi_message :: string

definition progress_job_row ::
  "db \<Rightarrow> auth_agent \<Rightarrow> string \<Rightarrow> string \<Rightarrow> instant \<Rightarrow> progress_input \<Rightarrow> agent_job_row \<Rightarrow> agent_job_row option" where
  "progress_job_row d a i h now p = when_row
     (\<lambda>j. active_lease a i h now d j \<and> aj_progressSequence j < pi_sequence p)
     (\<lambda>j. j\<lparr>aj_progressSequence := pi_sequence p, aj_progressPercent := pi_percent p,
        aj_progressStage := pi_stage p, aj_message := Some (pi_message p)\<rparr>)"

datatype completion = CoSucceeded | CoFailed

fun completion_status :: "completion \<Rightarrow> job_status" where
  "completion_status CoSucceeded = JbSucceeded"
| "completion_status CoFailed = JbFailed"

fun completion_str :: "completion \<Rightarrow> string" where
  "completion_str CoSucceeded = ''succeeded''"
| "completion_str CoFailed = ''failed''"

record job_result =
  jr_state :: string
  jr_revision :: "string option"
  jr_hostPort :: "int option"
  jr_workloadSlot :: "string option"

record diagnostic_input =
  di_exitCode :: "int option"
  di_health :: string
  di_logs :: string

record complete_input =
  ci_leaseToken :: string
  ci_status :: completion
  ci_message :: string
  ci_resultCode :: "string option"
  ci_result :: "job_result option"
  ci_gatewayCaSha256 :: "string option"
  ci_diagnostic :: "diagnostic_input option"

definition result_json :: "job_result \<Rightarrow> json" where
  "result_json r = JObj ([(''state'', JStr (jr_state r))]
     @ (if truthy (jr_revision r) then [(''revision'', JStr (the (jr_revision r)))] else [])
     @ (if jr_hostPort r \<noteq> None \<and> jr_hostPort r \<noteq> Some 0 then [(''hostPort'', JNum (the (jr_hostPort r)))] else [])
     @ (if truthy (jr_workloadSlot r) then [(''workloadSlot'', JStr (the (jr_workloadSlot r)))] else []))"

definition completed_job :: "complete_input \<Rightarrow> instant \<Rightarrow> agent_job_row \<Rightarrow> agent_job_row" where
  "completed_job c now j = j\<lparr>aj_status := completion_status (ci_status c),
     aj_progressPercent := (if ci_status c = CoSucceeded then 100 else aj_progressPercent j),
     aj_progressStage := completion_str (ci_status c), aj_message := Some (ci_message c),
     aj_resultCode := ci_resultCode c, aj_result := map_option result_json (ci_result c),
     aj_leaseExpiresAt := None, aj_finishedAt := Some now\<rparr>"

definition complete_job_row ::
  "db \<Rightarrow> auth_agent \<Rightarrow> string \<Rightarrow> string \<Rightarrow> instant \<Rightarrow> complete_input \<Rightarrow> agent_job_row \<Rightarrow> agent_job_row option" where
  "complete_job_row d a i h now c = when_row (active_lease a i h now d) (completed_job c now)"

definition invalid_delivery_row ::
  "db \<Rightarrow> auth_agent \<Rightarrow> string \<Rightarrow> string \<Rightarrow> instant \<Rightarrow> string \<Rightarrow> agent_job_row \<Rightarrow> agent_job_row option" where
  "invalid_delivery_row d a i h now m = when_row (active_lease a i h now d)
     (\<lambda>j. j\<lparr>aj_status := JbFailed, aj_progressStage := ''failed'', aj_message := Some (take 500 m),
        aj_resultCode := Some ''delivery_invalid'', aj_result := None, aj_leaseExpiresAt := None,
        aj_finishedAt := Some now\<rparr>)"

text \<open>Of a workflow of two steps: the second step is released, or both are given up.\<close>

definition workflow_cancelled :: "instant \<Rightarrow> agent_job_row \<Rightarrow> agent_job_row" where
  "workflow_cancelled now j = j\<lparr>aj_status := JbCancelled, aj_progressStage := ''cancelled'',
     aj_message := Some ''Cancelled because another workflow step failed'', aj_finishedAt := Some now\<rparr>"

definition cleanup_released :: "agent_job_row \<Rightarrow> agent_job_row" where
  "cleanup_released j = j\<lparr>aj_status := JbQueued, aj_progressStage := ''queued'',
     aj_message := Some ''Gateway route updated; waiting for Agent workload cleanup''\<rparr>"

text \<open>
  Cancelling an open job, as targets, projects, environments and workflows do it: the row keeps its
  identity and attempt, and its lease token is kept or cleared.
\<close>

definition cancels :: "agent_job_row \<Rightarrow> agent_job_row \<Rightarrow> bool" where
  "cancels j j' \<longleftrightarrow> open_job j \<and> aj_leaseTokenHash j' \<in> {None, aj_leaseTokenHash j} \<and>
     j' = j\<lparr>aj_status := JbCancelled, aj_progressStage := aj_progressStage j', aj_message := aj_message j',
       aj_resultCode := aj_resultCode j', aj_leasedByAgentId := aj_leasedByAgentId j',
       aj_leaseTokenHash := aj_leaseTokenHash j', aj_leaseExpiresAt := aj_leaseExpiresAt j',
       aj_finishedAt := aj_finishedAt j'\<rparr>"

section \<open>Runs of statements on one job\<close>

text \<open>\<open>T\<close> are the digests of the tokens that claims in the run were given.\<close>

inductive job_step :: "string set \<Rightarrow> agent_job_row \<Rightarrow> agent_job_row \<Rightarrow> bool" where
  claim: "claim_job_row d a h now seen j = Some j' \<Longrightarrow> h \<in> T \<Longrightarrow> job_step T j j'"
| renew: "renew_job_row d a i h now j = Some j' \<Longrightarrow> job_step T j j'"
| progress: "progress_job_row d a i h now p j = Some j' \<Longrightarrow> job_step T j j'"
| complete: "complete_job_row d a i h now c j = Some j' \<Longrightarrow> job_step T j j'"
| delivery: "invalid_delivery_row d a i h now m j = Some j' \<Longrightarrow> job_step T j j'"
| cancel: "cancels j j' \<Longrightarrow> job_step T j j'"
| release: "aj_status j = JbBlocked \<Longrightarrow> job_step T j (cleanup_released j)"

inductive job_run :: "string set \<Rightarrow> agent_job_row \<Rightarrow> agent_job_row \<Rightarrow> bool" where
  none: "job_run T j j"
| step: "job_run T j j' \<Longrightarrow> job_step T j' j'' \<Longrightarrow> job_run T j j''"

inductive_cases job_stepE: "job_step T j j'"

lemma cancels_intros:
  "open_job j \<Longrightarrow> cancels j (cancelled_job m now j)"
  "aj_status j = JbQueued \<Longrightarrow> cancels j (superseded_job now j)"
  "aj_status j \<in> {JbBlocked, JbQueued} \<Longrightarrow> cancels j (workflow_cancelled now j)"
  by (auto simp: cancels_def cancelled_job_def superseded_job_def workflow_cancelled_def open_job_def)

text \<open>What a statement other than a claim leaves alone.\<close>

lemma cancelled_frame:
  assumes "cancels j j'"
  shows "aj_status j' = JbCancelled" "aj_attempt j' = aj_attempt j" "aj_id j' = aj_id j"
    "aj_targetId j' = aj_targetId j" "aj_kind j' = aj_kind j" "aj_payload j' = aj_payload j"
    "aj_operationId j' = aj_operationId j" "aj_operationStep j' = aj_operationStep j"
    "aj_dedupeKey j' = aj_dedupeKey j" "aj_gatewayRouteId j' = aj_gatewayRouteId j" "aj_progressSequence j' = aj_progressSequence j" "open_job j"
  using assms unfolding cancels_def
  by (cases j'; simp)+

lemmas job_row_defs = claim_job_row_def renew_job_row_def progress_job_row_def complete_job_row_def
  invalid_delivery_row_def claimed_job_def completed_job_def cleanup_released_def

text \<open>The claim as the lease interface sees it, and who holds a job.\<close>

definition job_holder :: "agent_job_row \<Rightarrow> (string \<times> string) option" where
  "job_holder j = (if aj_status j = JbLeased
     then Option.bind (aj_leasedByAgentId j) (\<lambda>a. map_option (Pair a) (aj_leaseTokenHash j)) else None)"

definition take_job :: "string \<times> string \<Rightarrow> instant \<Rightarrow> agent_job_row \<Rightarrow> agent_job_row option" where
  "take_job i now = when_row
     (\<lambda>j. aj_status j = JbQueued \<or> aj_status j = JbLeased \<and> expired (aj_leaseExpiresAt j) now)
     (claimed_job (fst i) (snd i) now)"

lemma claim_is_take:
  "claim_job_row d a h now seen j = Some j' \<Longrightarrow> take_job (aa_id a, h) now j = Some j'"
  by (auto simp: claim_job_row_def take_job_def still_candidate_def split: if_splits)

interpretation jl: generation_lease job_holder aj_attempt take_job "job_step {}"
proof
  show "other_frame": "aj_attempt r' = aj_attempt r \<and> (job_holder r' = job_holder r \<or> job_holder r' = None)"
    if "job_step {} r r'" for r r'
    using that
    by cases (auto simp: job_row_defs job_holder_def active_lease_def cancelled_frame completion_status.simps
      split: if_splits elim: completion_status.elims)
qed (auto simp: take_job_def claimed_job_def job_holder_def)

lemma job_step_cases:
  assumes "job_step T j j'"
  obtains (claim) d a h now seen where "claim_job_row d a h now seen j = Some j'" "h \<in> T"
    | (other) "job_step {} j j'"
  using assms by cases (auto intro: job_step.intros)

lemma job_run_lease: "job_run T j j' \<Longrightarrow> jl.lease_run j j'"
proof (induction rule: job_run.induct)
  case (none T j)
  then show ?case by (rule jl.lease_run.start)
next
  case (step T j j' j'')
  from step.hyps(2) have "jl.lease_step j' j''"
    by (cases rule: job_step_cases) (auto intro: jl.lease_step.intros dest: claim_is_take)
  with step.IH show ?case by (rule jl.lease_run.more)
qed

text \<open>A job under a lease token is under it since the claim that used the token.\<close>

definition leased_under :: "string \<Rightarrow> agent_job_row \<Rightarrow> bool" where
  "leased_under h j \<longleftrightarrow> aj_status j = JbLeased \<and> aj_leaseTokenHash j = Some h"

lemma active_lease_under: "active_lease a i h now d j \<Longrightarrow> leased_under h j \<and> job_holder j = Some (aa_id a, h)"
  by (simp add: active_lease_def bound_lease_def leased_under_def job_holder_def)

lemma job_step_token:
  "job_step T j j' \<Longrightarrow> h \<notin> T \<Longrightarrow> leased_under h j' \<Longrightarrow> leased_under h j \<and> job_holder j' = job_holder j"
  by (cases rule: job_step.cases)
    (auto simp: job_row_defs leased_under_def job_holder_def active_lease_def cancelled_frame
      split: if_splits elim: completion_status.elims)

lemma job_run_token:
  "job_run T j j' \<Longrightarrow> h \<notin> T \<Longrightarrow> leased_under h j' \<Longrightarrow> leased_under h j \<and> job_holder j' = job_holder j"
proof (induction rule: job_run.induct)
  case (step T j j' j'')
  then show ?case using job_step_token [OF step.hyps(2)] by simp
qed simp

lemma leased_is_not_taken:
  "aj_status j = JbLeased \<Longrightarrow> unexpired (aj_leaseExpiresAt j) t \<Longrightarrow> claim_job_row d a h t seen j = None"
  using expired_not_unexpired by (auto simp: claim_job_row_def still_candidate_def)

text \<open>
  C18: An Agent job is in the hands of one lease at a time. After a claim under a token, whatever claims,
  renewals, reports, completions and cancellations follow: within the attempt of the claim only its
  token ever holds the job; an unexpired lease is never taken over; a renewal, a progress report, a
  result or a failed delivery is accepted only from the Agent and token that hold the job, while the
  lease lasts (the control plane itself may cancel the job); and once the token does not hold the job
  (and no other claim drew the same random token) it never passes the condition that guards renewals,
  reports and completions again.
\<close>

theorem job_lease_is_exclusive:
  assumes "claim_job_row d a h now seen j = Some j0" and "job_run T j0 j1" and "h \<notin> T"
  shows "(aj_attempt j1 = aj_attempt j0 \<and> job_holder j1 \<noteq> None \<longrightarrow> job_holder j1 = Some (aa_id a, h))
    \<and> (aj_status j1 = JbLeased \<and> (\<exists>x. aj_leaseExpiresAt j1 = Some x \<and> t < x) \<longrightarrow>
         claim_job_row d' a' h' t seen' j1 = None)
    \<and> (renew_job_row d' a' i h' t j1 \<noteq> None \<or> progress_job_row d' a' i h' t p j1 \<noteq> None \<or>
         complete_job_row d' a' i h' t c j1 \<noteq> None \<or> invalid_delivery_row d' a' i h' t m j1 \<noteq> None \<longrightarrow>
         aj_status j1 = JbLeased \<and> aj_leasedByAgentId j1 = Some (aa_id a') \<and> aj_leaseTokenHash j1 = Some h' \<and>
         (\<exists>x. aj_leaseExpiresAt j1 = Some x \<and> t < x))
    \<and> (job_holder j1 \<noteq> Some (aa_id a, h) \<and> job_run T' j1 j2 \<and> h \<notin> T' \<longrightarrow> \<not> active_lease a i h t d' j2)"
proof -
  have 1: "job_holder j1 = Some (aa_id a, h)" if "aj_attempt j1 = aj_attempt j0 \<and> job_holder j1 \<noteq> None"
    using jl.generation_exclusive [OF claim_is_take [OF assms(1)] job_run_lease [OF assms(2)]] that by blast
  have 2: "claim_job_row d' a' h' t seen' j1 = None"
    if "aj_status j1 = JbLeased \<and> (\<exists>x. aj_leaseExpiresAt j1 = Some x \<and> t < x)"
    using that by (intro leased_is_not_taken) (auto simp: unexpired_def)
  have "active_lease a' i h' t d' j1"
    if "renew_job_row d' a' i h' t j1 \<noteq> None \<or> progress_job_row d' a' i h' t p j1 \<noteq> None \<or>
         complete_job_row d' a' i h' t c j1 \<noteq> None \<or> invalid_delivery_row d' a' i h' t m j1 \<noteq> None"
    using that by (auto simp: renew_job_row_def progress_job_row_def complete_job_row_def invalid_delivery_row_def)
  then have 3: "aj_status j1 = JbLeased \<and> aj_leasedByAgentId j1 = Some (aa_id a') \<and> aj_leaseTokenHash j1 = Some h' \<and>
         (\<exists>x. aj_leaseExpiresAt j1 = Some x \<and> t < x)"
    if "renew_job_row d' a' i h' t j1 \<noteq> None \<or> progress_job_row d' a' i h' t p j1 \<noteq> None \<or>
         complete_job_row d' a' i h' t c j1 \<noteq> None \<or> invalid_delivery_row d' a' i h' t m j1 \<noteq> None"
    using that by (auto simp: active_lease_def bound_lease_def unexpired_def split: option.splits)
  have 4: "\<not> active_lease a i h t d' j2"
    if "job_holder j1 \<noteq> Some (aa_id a, h) \<and> job_run T' j1 j2 \<and> h \<notin> T'"
  proof
    assume "active_lease a i h t d' j2"
    with active_lease_under have "leased_under h j2" "job_holder j2 = Some (aa_id a, h)" by blast+
    with that job_run_token show False by fastforce
  qed
  show ?thesis
    by (rule conjI [OF impI [OF 1] conjI [OF impI [OF 2] conjI [OF impI [OF 3] impI [OF 4]]]])
qed

definition job_grows :: "agent_job_row \<Rightarrow> agent_job_row \<Rightarrow> bool" where
  "job_grows j j' \<longleftrightarrow> aj_id j' = aj_id j \<and> aj_targetId j' = aj_targetId j \<and> aj_kind j' = aj_kind j \<and>
     aj_payload j' = aj_payload j \<and> aj_operationId j' = aj_operationId j \<and>
     aj_operationStep j' = aj_operationStep j \<and> aj_gatewayRouteId j' = aj_gatewayRouteId j \<and>
     aj_dedupeKey j' = aj_dedupeKey j \<and> aj_attempt j \<le> aj_attempt j' \<and>
     (aj_attempt j' = aj_attempt j \<longrightarrow> aj_progressSequence j \<le> aj_progressSequence j') \<and>
     (\<not> open_job j \<longrightarrow> j' = j)"

lemma job_step_grows: "job_step T j j' \<Longrightarrow> job_grows j j'"
  by (cases rule: job_step.cases)
    (auto simp: job_grows_def job_row_defs active_lease_def open_job_def still_candidate_def cancelled_frame
      split: if_splits dest: cancelled_frame(12))

lemma job_grows_trans: "job_grows j j' \<Longrightarrow> job_grows j' j'' \<Longrightarrow> job_grows j j''"
  by (auto simp: job_grows_def)

text \<open>
  What an Agent job was asked to do never changes, its attempts are counted and its end is final.
  Along any sequence of statements a job keeps its identity, target, kind, payload, operation and step; its
  attempt never decreases, within an attempt the reported sequence number never decreases, and a
  succeeded, failed or cancelled job is never changed again.
\<close>

theorem job_results_are_final:
  assumes "job_run T j j'"
  shows "job_grows j j'"
  using assms
proof (induction rule: job_run.induct)
  case (none T j)
  then show ?case by (simp add: job_grows_def)
next
  case (step T j j' j'')
  then show ?case using job_step_grows job_grows_trans by blast
qed

text \<open>A concrete job and Agent.\<close>

definition sample_job :: agent_job_row where
  "sample_job = \<lparr>aj_id = ''j'', aj_correlationId = ''c'', aj_targetId = ''k'', aj_allocationId = None,
     aj_operationId = None, aj_operationStep = None, aj_gatewayRouteId = None, aj_leasedByAgentId = None,
     aj_dedupeKey = ''probe:k:1'', aj_kind = ''probe'', aj_protocolVersion = 1,
     aj_payload = JObj [(''durationSeconds'', JNum 5)], aj_status = JbQueued, aj_attempt = 0,
     aj_leaseTokenHash = None, aj_leasedAt = None, aj_leaseExpiresAt = None, aj_progressSequence = 0,
     aj_progressPercent = 0, aj_progressStage = ''queued'', aj_message = Some ''Waiting for Agent'',
     aj_resultCode = None, aj_result = None, aj_createdAt = 0, aj_finishedAt = None\<rparr>"

definition sample_auth_agent :: auth_agent where
  "sample_auth_agent = \<lparr>aa_id = ''a'', aa_targetId = ''k'', aa_credentialHash = ''h1'', aa_generation = 1,
     aa_protocolVersion = 1, aa_pending = False, aa_activatedAt = Some 0, aa_enrolledAt = Some 0, aa_target = None\<rparr>"

definition working_db :: db where
  "working_db = hosting_db\<lparr>agentJobs := [sample_job]\<rparr>"

lemmas working_eval = working_db_def sample_job_def sample_auth_agent_def active_credential_def holds_def hosting_eval

lemma sample_claim: "claim_job_row working_db sample_auth_agent h now sample_job sample_job
    = Some (claimed_job ''a'' h now sample_job)"
  by (simp add: claim_job_row_def still_candidate_def working_eval)

lemma sample_takeover: "claim_job_row working_db sample_auth_agent ''t2'' 40000 (claimed_job ''a'' ''t1'' 5 sample_job)
    (claimed_job ''a'' ''t1'' 5 sample_job) = Some (claimed_job ''a'' ''t2'' 40000 (claimed_job ''a'' ''t1'' 5 sample_job))"
  by (simp add: claim_job_row_def still_candidate_def claimed_job_def job_lease_ms_def working_eval)

theorem job_lease_is_exclusive_witness:
  "let j = claimed_job ''a'' ''t2'' 40000 (claimed_job ''a'' ''t1'' 5 sample_job) in
     job_run {''t2''} (claimed_job ''a'' ''t1'' 5 sample_job) j \<and>
     \<not> active_lease sample_auth_agent ''j'' ''t1'' 40001 working_db j"
proof -
  let ?j = "claimed_job ''a'' ''t2'' 40000 (claimed_job ''a'' ''t1'' 5 sample_job)"
  have run: "job_run {''t2''} (claimed_job ''a'' ''t1'' 5 sample_job) ?j"
    using job_run.step [OF job_run.none job_step.claim [OF sample_takeover]] by simp
  have lost: "job_holder ?j \<noteq> Some (aa_id sample_auth_agent, ''t1'')"
    by (simp add: job_holder_def claimed_job_def)
  have "''t1'' \<notin> {''t2''}" "''t1'' \<notin> {}" by simp_all
  from job_lease_is_exclusive [OF sample_claim run this(1), where T' = "{}" and ?j2.0 = ?j and i = "''j''" and t = 40001 and d' = working_db]
    lost this(2) job_run.none [of "{}" ?j]
  have "\<not> active_lease sample_auth_agent ''j'' ''t1'' 40001 working_db ?j" by blast
  with run show ?thesis by simp
qed

theorem job_results_are_final_witness:
  "job_grows sample_job (claimed_job ''a'' ''t1'' 5 sample_job)"
  by (rule job_results_are_final [OF job_run.step [OF job_run.none job_step.claim [OF sample_claim]], where T = "{''t1''}"]) simp

section \<open>What a claim finds\<close>

lemma on_job_frame [simp]:
  "targets (fst (on_job i f d)) = targets d" "agents (fst (on_job i f d)) = agents d"
  "operations (fst (on_job i f d)) = operations d" "environments (fst (on_job i f d)) = environments d"
  "gatewayRoutes (fst (on_job i f d)) = gatewayRoutes d" "diagnostics (fst (on_job i f d)) = diagnostics d"
  by (simp_all add: on_job_def split: prod.splits)

lemma agentJobs_on_job [simp]: "agentJobs (fst (on_job i f d)) = fst (update_row aj_id i f (agentJobs d))"
  by (simp add: on_job_def split: prod.splits)

lemma on_job_refused: "(\<And>j. j \<in> set (agentJobs d) \<Longrightarrow> aj_id j = i \<Longrightarrow> f j = None) \<Longrightarrow> on_job i f d = (d, None)"
  by (simp add: on_job_def update_row_refused)

lemma active_credential_frame:
  "targets d' = targets d \<Longrightarrow> agents d' = agents d \<Longrightarrow> active_credential a d' j = active_credential a d j"
  by (simp add: active_credential_def target_by_id_def agent_of_target_def cong: option.case_cong)

lemma active_credential_job: "aj_targetId j' = aj_targetId j \<Longrightarrow> active_credential a d j' = active_credential a d j"
  by (simp add: active_credential_def)

lemma sorted_find_first_least:
  assumes "find_first p (sort_key k t) = Some c" and "x \<in> set t" and "p x"
  shows "k c \<le> k x"
proof -
  have "sorted (map k xs) \<Longrightarrow> find_first p xs = Some c \<Longrightarrow> x \<in> set xs \<Longrightarrow> k c \<le> k x" for xs
    using assms(3) by (induction xs) (auto split: if_splits dest: find_first_Some)
  from this [of "sort_key k t"] assms(1,2) show ?thesis by simp
qed

text \<open>
  C19: An open job is not lost. Call a job ready when it is of the Agent's target and a protocol the
  Agent speaks, is queued or leased with a lease that ended, and the Agent is enrolled on the target.
  When no other request interferes, a poll finds nothing exactly when no job is ready; otherwise it
  takes a ready job that was created before every other ready one and then holds a lease on it that is
  good for the whole lease time.
\<close>

theorem oldest_open_job_is_claimed:
  assumes "keyed aj_id (agentJobs d)"
    and ready: "\<And>j. ready j \<longleftrightarrow> aj_targetId j = aa_targetId a \<and> aj_protocolVersion j \<le> aa_protocolVersion a \<and>
      (aj_status j = JbQueued \<or> aj_status j = JbLeased \<and> (\<exists>x. aj_leaseExpiresAt j = Some x \<and> x \<le> now)) \<and>
      active_credential a d j"
  shows "((\<forall>j \<in> set (agentJobs d). \<not> ready j) \<and>
      claim_once hash (\<lambda>x. x) (\<lambda>x. x) tok a now d = (d, Inr ClaimEmpty)) \<or>
    (\<exists>c d' j. c \<in> set (agentJobs d) \<and> ready c \<and>
      (\<forall>j \<in> set (agentJobs d). ready j \<longrightarrow> aj_createdAt c \<le> aj_createdAt j) \<and>
      claim_once hash (\<lambda>x. x) (\<lambda>x. x) tok a now d = (d', Inr (Claimed j (job_lease_prefix @ tok) (now + job_lease_ms))) \<and>
      agent_job_by_id (aj_id c) d' = Some j \<and> aj_id j = aj_id c \<and> aj_payload j = aj_payload c \<and>
      (\<forall>t < now + job_lease_ms. active_lease a (aj_id c) (hash (job_lease_prefix @ tok)) t d' j))"
proof -
  have claimable: "claimable_by a now d = ready"
    by (rule ext) (auto simp: ready claimable_by_def expired_def split: option.splits)
  show ?thesis
  proof (cases "claim_candidate a now d")
    case None
    then have "\<forall>j \<in> set (agentJobs d). \<not> ready j"
      by (simp add: claim_candidate_def find_first_None claimable)
    with None show ?thesis by (simp add: claim_once_def)
  next
    case (Some c)
    let ?h = "hash (job_lease_prefix @ tok)"
    let ?j = "claimed_job (aa_id a) ?h now c"
    from Some have c: "c \<in> set (agentJobs d)" "claimable_by a now d c"
      by (auto simp: claim_candidate_def dest!: find_first_Some)
    have least: "\<forall>j \<in> set (agentJobs d). ready j \<longrightarrow> aj_createdAt c \<le> aj_createdAt j"
      by (simp add: sorted_find_first_least [OF Some [unfolded claim_candidate_def claimable]])
    have row: "claim_job_row d a ?h now c c = Some ?j"
      using c(2) by (auto simp: claim_job_row_def claimable_by_def still_candidate_def)
    have found: "find_first (\<lambda>x. aj_id x = aj_id c) (agentJobs d) = Some c"
      by (rule find_first_key [OF assms(1) c(1)])
    define D where "D = fst (on_job (aj_id c) (claim_job_row d a ?h now c) d)"
    have id: "aj_id j' = aj_id j" if "claim_job_row d a ?h now c j = Some j'" for j j'
      using that by (auto simp: claim_job_row_def claimed_job_def)
    have upd: "on_job (aj_id c) (claim_job_row d a ?h now c) d = (D, Some ?j)"
      using found row by (simp add: D_def on_job_def update_row_def)
    have by_id: "agent_job_by_id (aj_id c) D = Some ?j"
      using find_update_row [of "claim_job_row d a ?h now c" aj_id "aj_id c" "aj_id c" "agentJobs d", OF id] found row
      by (simp add: D_def agent_job_by_id_def)
    have run: "claim_once hash (\<lambda>x. x) (\<lambda>x. x) tok a now d = (D, Inr (Claimed ?j (job_lease_prefix @ tok) (now + job_lease_ms)))"
      using upd by_id by (simp add: claim_once_def Some Let_def)
    have cred: "active_credential a D j = active_credential a d j" for j
      by (rule active_credential_frame) (simp_all add: D_def)
    have "active_lease a (aj_id c) ?h t D ?j" if "t < now + job_lease_ms" for t
      using c(2) that cred active_credential_job [of ?j c a d]
      by (simp add: active_lease_def bound_lease_def claimed_job_def claimable_by_def)
    moreover have "aj_id ?j = aj_id c" "aj_payload ?j = aj_payload c" by (simp_all add: claimed_job_def)
    ultimately show ?thesis
      using c [unfolded claimable] least run by_id by (intro disjI2 exI [of _ c] exI [of _ D] exI [of _ ?j]) simp
  qed
qed

theorem oldest_open_job_is_claimed_witness:
  "\<exists>d' j. claim_once (\<lambda>x. x) (\<lambda>x. x) (\<lambda>x. x) ''t'' sample_auth_agent 5 working_db =
     (d', Inr (Claimed j ''initpad_lease_t'' 30005)) \<and> aj_id j = ''j''"
proof -
  have k: "keyed aj_id (agentJobs working_db)" by (simp add: keyed_def working_db_def)
  define ready where "ready = (\<lambda>j. aj_targetId j = aa_targetId sample_auth_agent \<and> aj_protocolVersion j \<le> aa_protocolVersion sample_auth_agent \<and>
      (aj_status j = JbQueued \<or> aj_status j = JbLeased \<and> (\<exists>x. aj_leaseExpiresAt j = Some x \<and> x \<le> 5)) \<and>
      active_credential sample_auth_agent working_db j)"
  have jobs: "agentJobs working_db = [sample_job]" by (simp add: working_db_def)
  have "ready sample_job" by (simp add: ready_def working_eval)
  with oldest_open_job_is_claimed [OF k, of ready sample_auth_agent 5 "\<lambda>x. x" "''t''"] jobs
  obtain d' j where "claim_once (\<lambda>x. x) (\<lambda>x. x) (\<lambda>x. x) ''t'' sample_auth_agent 5 working_db =
      (d', Inr (Claimed j (job_lease_prefix @ ''t'') (5 + job_lease_ms)))" "aj_id j = aj_id sample_job"
    by (auto simp: ready_def)
  then show ?thesis by (simp add: job_lease_prefix_def job_lease_ms_def sample_job_def)
qed

section \<open>Revocation\<close>

definition cut_credentials :: "auth_agent \<Rightarrow> db \<Rightarrow> bool" where
  "cut_credentials a d \<longleftrightarrow> (\<forall>g \<in> set (agents d). ag_targetId g = aa_targetId a \<longrightarrow> \<not> holds (aa_credentialHash a) g)"

lemma cut_not_active: "cut_credentials a d \<Longrightarrow> aj_targetId j = aa_targetId a \<Longrightarrow> \<not> active_credential a d j"
  by (auto simp: active_credential_def cut_credentials_def agent_of_target_def target_by_id_def
      split: option.splits dest!: find_first_Some)

lemma cut_no_lease: "cut_credentials a d \<Longrightarrow> \<not> active_lease a i h now d j \<and> \<not> bound_lease a i h d j"
  using cut_not_active by (auto simp: active_lease_def bound_lease_def)

lemma cut_off_credentials: "cut_off (aa_targetId a) d \<Longrightarrow> cut_credentials a d"
  by (auto simp: cut_off_def cut_credentials_def no_credentials_def holds_def)

end
