(* ===== verification/AgentJobs.thy ===== *)
theory AgentJobs
  imports AgentLeases
begin

text \<open>
  The jobs of Agents (\<open>agents/agent-jobs.service.ts\<close>, \<open>agents/agent-config-fingerprint.ts\<close>): how a
  job's end becomes the state of the gateway, of the deployment operation and of its environment, the
  workflow of two steps behind a managed gateway, delivery of the artifact and configuration to the lease
  that won, and the handlers the Agent calls.

  What is not under the modelled sources is a field of \<open>platform\<close>: digests, decryption, the artifact
  store, the URL parser, fresh ids and tokens, the collation of strings, whether the audit log is down,
  and \<open>pf_mid k\<close>, what other requests commit at the \<open>k\<close>-th pause of a method. A method reads the clock
  once. The summary of a job that handlers return is its row.
\<close>

record platform =
  pf_hash :: "string \<Rightarrow> string"
  pf_sha256 :: "string \<Rightarrow> string"
  pf_hmac :: "string \<Rightarrow> string"
  pf_collate :: "string \<Rightarrow> string \<Rightarrow> bool"
  pf_decrypt :: "string \<Rightarrow> string outcome"
  pf_head :: "string \<Rightarrow> nat option"
  pf_parse :: "string \<Rightarrow> url option"
  pf_is_ip :: "string \<Rightarrow> bool"
  pf_with_port :: "string \<Rightarrow> int \<Rightarrow> string option"
  pf_id :: "nat \<Rightarrow> string"
  pf_token :: "nat \<Rightarrow> string"
  pf_now :: "nat \<Rightarrow> instant"
  pf_down :: bool
  pf_mid :: "nat \<Rightarrow> db \<Rightarrow> db"

definition error_message :: "http_error \<Rightarrow> string" where
  "error_message e = (case e of BadRequest m \<Rightarrow> m | Unauthorized m \<Rightarrow> m | Forbidden m \<Rightarrow> m | NotFound m \<Rightarrow> m
     | Conflict m \<Rightarrow> m | TooManyRequests m \<Rightarrow> m | ServerError m \<Rightarrow> m)"

definition or_else :: "string option \<Rightarrow> string \<Rightarrow> string" where
  "or_else m x = (case m of None \<Rightarrow> x | Some s \<Rightarrow> s)"

definition or_falsy :: "string option \<Rightarrow> string \<Rightarrow> string" where
  "or_falsy m x = (if truthy m then the m else x)"

definition ended :: "agent_job_row \<Rightarrow> bool" where
  "ended j = (aj_status j = JbSucceeded \<or> aj_status j = JbFailed)"

section \<open>Results\<close>

definition job_states :: "string list" where
  "job_states = [''running'', ''stopped'', ''missing'']"

text \<open>
  The stored result, validated. A state that is not a string is refused here; the source accepts an array
  of one such string, which then equals no state and is refused by every caller.
\<close>

definition opt_field :: "json \<Rightarrow> string \<Rightarrow> (json \<Rightarrow> 'a option) \<Rightarrow> 'a option option" where
  "opt_field v k f = (case json_get v k of None \<Rightarrow> Some None | Some x \<Rightarrow> map_option Some (f x))"

definition json_string :: "json \<Rightarrow> string option" where
  "json_string v = (case v of JStr s \<Rightarrow> Some s | _ \<Rightarrow> None)"

definition json_port :: "json \<Rightarrow> int option" where
  "json_port v = (case v of JNum n \<Rightarrow> if 1 \<le> n \<and> n \<le> 65535 then Some n else None | _ \<Rightarrow> None)"

definition json_slot :: "json \<Rightarrow> string option" where
  "json_slot v = (case v of JStr s \<Rightarrow> if workload_slot_ok s then Some s else None | _ \<Rightarrow> None)"

definition job_result_of :: "json option \<Rightarrow> job_result option" where
  "job_result_of v = (case v of None \<Rightarrow> None
    | Some x \<Rightarrow> (case json_get x ''state'' of
        Some (JStr s) \<Rightarrow>
          if s \<notin> set job_states then None
          else (case (opt_field x ''revision'' json_string, opt_field x ''hostPort'' json_port,
                      opt_field x ''workloadSlot'' json_slot) of
              (Some r, Some p, Some w) \<Rightarrow> Some \<lparr>jr_state = s, jr_revision = r, jr_hostPort = p, jr_workloadSlot = w\<rparr>
            | _ \<Rightarrow> None)
      | _ \<Rightarrow> None))"

definition same_result :: "json option \<Rightarrow> job_result option \<Rightarrow> bool" where
  "same_result stored received = (case received of
      None \<Rightarrow> stored = None \<or> stored = Some JNull
    | Some r \<Rightarrow> job_result_of stored = Some r)"

text \<open>The address of a workload on its published port, without a final slash.\<close>

definition strip_slash :: "string \<Rightarrow> string" where
  "strip_slash s = (if s \<noteq> [] \<and> last s = CHR ''/'' then butlast s else s)"

definition workload_url :: "(string \<Rightarrow> int \<Rightarrow> string option) \<Rightarrow> string option \<Rightarrow> int \<Rightarrow> string outcome" where
  "workload_url with_port u p =
     (if \<not> truthy u then Inl (BadRequest ''Agent target has no public URL'')
      else (case with_port (the u) p of
          None \<Rightarrow> Inl (ServerError ''Invalid URL'')
        | Some s \<Rightarrow> Inr (strip_slash s)))"

section \<open>The gateway after a job\<close>

definition preflight_observed :: "agent_job_row \<Rightarrow> instant \<Rightarrow> target_row \<Rightarrow> target_row" where
  "preflight_observed j now t = t\<lparr>
     tg_preflightStatus := (if aj_status j = JbSucceeded then PfPassed else PfFailed),
     tg_preflightAt := Some (case aj_finishedAt j of None \<Rightarrow> now | Some x \<Rightarrow> x),
     tg_preflightError := (if aj_status j = JbFailed then Some (or_else (aj_message j) ''Gateway preflight failed'') else None)\<rparr>"

definition current_preflight :: "agent_job_row \<Rightarrow> target_row \<Rightarrow> bool" where
  "current_preflight j t = (tg_id t = aj_targetId j \<and> tg_preflightJobId t = Some (aj_id j))"

definition reconcile_gateway_preflight :: "(db \<Rightarrow> db) \<Rightarrow> instant \<Rightarrow> string \<Rightarrow> db \<Rightarrow> db" where
  "reconcile_gateway_preflight mid now i d = (case agent_job_by_id i d of
      None \<Rightarrow> d
    | Some j \<Rightarrow>
        if aj_kind j \<noteq> ''gateway-preflight'' \<or> \<not> ended j then d
        else (let d1 = mid d in
          d1\<lparr>targets := rewrite (current_preflight j) (preflight_observed j now) (targets d1)\<rparr>))"

definition route_intent :: "json \<Rightarrow> (int \<times> string \<times> string option) option" where
  "route_intent p = (case (json_get p ''generation'', json_get p ''desiredState'', json_get p ''revision'') of
      (Some (JNum n), Some (JStr s), Some r) \<Rightarrow>
        if n < 1 \<or> s \<notin> set route_states then None
        else (case r of JNull \<Rightarrow> Some (n, s, None) | JStr v \<Rightarrow> Some (n, s, Some v) | _ \<Rightarrow> None)
    | _ \<Rightarrow> None)"

definition fenced_route :: "agent_job_row \<Rightarrow> string \<Rightarrow> int \<Rightarrow> gateway_route_row \<Rightarrow> bool" where
  "fenced_route j i n g = (gr_id g = i \<and> int (gr_generation g) = n \<and> gr_reconcileJobId g = Some (aj_id j))"

definition route_observed :: "int \<Rightarrow> string \<Rightarrow> string option \<Rightarrow> instant \<Rightarrow> gateway_route_row \<Rightarrow> gateway_route_row" where
  "route_observed n s r now g = g\<lparr>gr_observedState := s,
     gr_observedRevision := (if s = ''absent'' then None else r), gr_observedGeneration := nat n,
     gr_reconcileJobId := None, gr_lastError := None, gr_reconciledAt := Some now\<rparr>"

definition route_failed :: "agent_job_row \<Rightarrow> instant \<Rightarrow> gateway_route_row \<Rightarrow> gateway_route_row" where
  "route_failed j now g = g\<lparr>gr_reconcileJobId := None,
     gr_lastError := Some (take 500 (or_else (aj_message j) ''Gateway route reconcile failed'')),
     gr_reconciledAt := Some now\<rparr>"

definition reconcile_gateway_route :: "(db \<Rightarrow> db) \<Rightarrow> instant \<Rightarrow> string \<Rightarrow> db \<Rightarrow> db" where
  "reconcile_gateway_route mid now i d = (case agent_job_by_id i d of
      None \<Rightarrow> d
    | Some j \<Rightarrow>
        if aj_kind j \<noteq> ''gateway-route'' \<or> \<not> truthy (aj_gatewayRouteId j) \<or> \<not> ended j then d
        else (case route_intent (aj_payload j) of
            None \<Rightarrow> d
          | Some (n, s, r) \<Rightarrow> (let d1 = mid d; at = (case aj_finishedAt j of None \<Rightarrow> now | Some x \<Rightarrow> x) in
              d1\<lparr>gatewayRoutes := rewrite (fenced_route j (the (aj_gatewayRouteId j)) n)
                (if aj_status j = JbSucceeded then route_observed n s r at else route_failed j at)
                (gatewayRoutes d1)\<rparr>)))"

section \<open>Ending an operation\<close>

definition running_op :: "operation_row \<Rightarrow> bool" where
  "running_op r = (op_status r = OpRunning \<and> op_finishedAt r = None)"

definition ended_operation ::
  "op_result \<Rightarrow> phase \<Rightarrow> string option \<Rightarrow> instant \<Rightarrow> operation_row \<Rightarrow> operation_row" where
  "ended_operation s p m now r = r\<lparr>op_status := OpResult s, op_phase := p, op_message := m, op_finishedAt := Some now\<rparr>"

text \<open>The transaction that ends an operation: the environment it still holds, and its row if still running.\<close>

definition settle ::
  "operation_row \<Rightarrow> (environment_row \<Rightarrow> environment_row) \<Rightarrow> op_result \<Rightarrow> phase \<Rightarrow> string option \<Rightarrow> instant
     \<Rightarrow> db \<Rightarrow> db" where
  "settle r f s p m now d = d\<lparr>
     environments := rewrite (\<lambda>e. en_id e = op_environmentId r \<and> en_activeOperationId e = Some (op_id r))
       (\<lambda>e. (f e)\<lparr>en_activeOperationId := None\<rparr>) (environments d),
     operations := rewrite (\<lambda>x. op_id x = op_id r \<and> running_op x) (ended_operation s p m now) (operations d)\<rparr>"

definition deployed_environment ::
  "operation_row \<Rightarrow> string \<Rightarrow> instant option \<times> instant option \<Rightarrow> environment_row \<Rightarrow> environment_row" where
  "deployed_environment r url x e = e\<lparr>en_status := EsRunning, en_version := op_version r,
     en_buildArtifactId := op_buildArtifactId r, en_url := Some url, en_statusReason := None,
     en_deploymentRequired := False, en_expiresAt := fst x, en_expiryWarningAt := snd x\<rparr>"

definition started_environment :: "string \<Rightarrow> environment_row \<Rightarrow> environment_row" where
  "started_environment url e = e\<lparr>en_status := EsRunning, en_url := Some url, en_statusReason := None\<rparr>"

definition stopped_environment :: "environment_row \<Rightarrow> environment_row" where
  "stopped_environment e = e\<lparr>en_status := EsStopped, en_statusReason := None\<rparr>"

definition emptied_environment :: "environment_row \<Rightarrow> environment_row" where
  "emptied_environment e = e\<lparr>en_status := EsEmpty, en_version := None, en_buildArtifactId := None,
     en_url := None, en_statusReason := None, en_deploymentRequired := False, en_expiresAt := None,
     en_expiryWarningAt := None\<rparr>"

definition broken_environment :: "string \<Rightarrow> environment_row \<Rightarrow> environment_row" where
  "broken_environment m e = e\<lparr>en_status := EsFailed, en_statusReason := Some m, en_deploymentRequired := True\<rparr>"

definition finish_lifecycle ::
  "operation_row \<Rightarrow> string option \<Rightarrow> (environment_row \<Rightarrow> environment_row) \<Rightarrow> instant \<Rightarrow> db \<Rightarrow> db" where
  "finish_lifecycle r m f now d = settle r f Succeeded (Result Succeeded) m now d"

text \<open>An Agent result that is what the operation asked for, on a directly published port.\<close>

definition runs_version :: "operation_row \<Rightarrow> job_result option \<Rightarrow> bool" where
  "runs_version r res = (case res of None \<Rightarrow> False
     | Some x \<Rightarrow> jr_state x = ''running'' \<and> jr_revision x \<noteq> None \<and> jr_revision x = op_version r)"

definition stopped_version :: "operation_row \<Rightarrow> job_result option \<Rightarrow> bool" where
  "stopped_version r res = (case res of None \<Rightarrow> False
     | Some x \<Rightarrow> jr_state x = ''stopped'' \<and> jr_revision x \<noteq> None \<and> jr_revision x = op_version r)"

definition workload_missing :: "job_result option \<Rightarrow> bool" where
  "workload_missing res = (case res of None \<Rightarrow> False | Some x \<Rightarrow> jr_state x = ''missing'')"

definition host_port :: "job_result option \<Rightarrow> int option" where
  "host_port res = Option.bind res jr_hostPort"

definition expiry_of :: "db \<Rightarrow> environment_row \<Rightarrow> instant \<Rightarrow> instant option \<times> instant option" where
  "expiry_of s e now = environment_expiry (en_name e) (map_option al_ttl (allocation_by_id (en_allocationId e) s)) now"

text \<open>\<open>s\<close> is the database the job was read in, \<open>d\<close> the one the transaction runs in.\<close>

definition reconcile_direct ::
  "platform \<Rightarrow> instant \<Rightarrow> agent_job_row \<Rightarrow> operation_row \<Rightarrow> environment_row \<Rightarrow> db \<Rightarrow> db \<Rightarrow> db \<times> unit outcome" where
  "reconcile_direct pf now j r e s d =
     (let res = job_result_of (aj_result j); ok = (aj_status j = JbSucceeded);
          url = workload_url (pf_with_port pf) (Option.bind (target_by_id (en_targetId e) s) tg_publicUrl) (the (host_port res));
          live = (ok \<and> runs_version r res \<and> host_port res \<noteq> None) in
      if aj_kind j = ''deploy'' \<and> live
      then (case url of Inl err \<Rightarrow> (d, Inl err)
        | Inr u \<Rightarrow> (settle r (deployed_environment r u (expiry_of s e now)) Succeeded (Result Succeeded) (aj_message j) now d, Inr ()))
      else if aj_kind j = ''start'' \<and> live
      then (case url of Inl err \<Rightarrow> (d, Inl err)
        | Inr u \<Rightarrow> (finish_lifecycle r (aj_message j) (started_environment u) now d, Inr ()))
      else if aj_kind j = ''stop'' \<and> ok \<and> stopped_version r res
      then (finish_lifecycle r (aj_message j) stopped_environment now d, Inr ())
      else if aj_kind j = ''remove'' \<and> ok \<and> workload_missing res
      then (finish_lifecycle r (aj_message j) emptied_environment now d, Inr ())
      else (let reason = (if aj_status j = JbFailed then or_falsy (aj_message j) ''Agent deployment failed''
                          else ''Agent returned an invalid deployment result'') in
        (settle r (broken_environment reason) Failed (terminal_deployment_phase Failed (Some reason)) (Some reason) now d, Inr ())))"

section \<open>Behind a managed gateway\<close>

datatype route_rollback = RbServing | RbStopped | RbUnknown

definition rollback_of :: "agent_job_row \<Rightarrow> string \<Rightarrow> route_rollback option" where
  "rollback_of j reason =
     (if aj_kind j \<noteq> ''gateway-route'' then None
      else if contains ''previous serving route restored'' reason then Some RbServing
      else if contains ''previous gateway state restored'' reason then Some RbStopped
      else Some RbUnknown)"

definition still_shows :: "string \<Rightarrow> environment_row \<Rightarrow> gateway_route_row option \<Rightarrow> bool" where
  "still_shows s e g = (case g of None \<Rightarrow> False
     | Some x \<Rightarrow> gr_observedState x = s \<and> truthy (gr_observedRevision x) \<and> gr_observedRevision x = en_version e)"

definition still_serving :: "environment_row \<Rightarrow> gateway_route_row option \<Rightarrow> route_rollback option \<Rightarrow> bool" where
  "still_serving e g rb = (still_shows ''active'' e g \<and> (rb = None \<or> rb = Some RbServing))"

definition still_stopped ::
  "operation_row \<Rightarrow> environment_row \<Rightarrow> gateway_route_row option \<Rightarrow> route_rollback option \<Rightarrow> bool" where
  "still_stopped r e g rb = (op_kind r = ''start'' \<and> still_shows ''stopped'' e g \<and> (rb = None \<or> rb = Some RbStopped))"

definition preserved_message ::
  "operation_row \<Rightarrow> environment_row \<Rightarrow> gateway_route_row option \<Rightarrow> route_rollback option \<Rightarrow> string \<Rightarrow> string" where
  "preserved_message r e g rb m =
     (if still_serving e g rb
      then take 500 (''Deployment failed; revision '' @ take 12 (the (gr_observedRevision (the g))) @ '' remains online. '' @ m)
      else if still_stopped r e g rb
      then take 500 (''Start failed; the previous revision remains stopped. '' @ m)
      else m)"

definition preserved_environment ::
  "operation_row \<Rightarrow> gateway_route_row option \<Rightarrow> string \<Rightarrow> environment_row \<Rightarrow> environment_row" where
  "preserved_environment r g m e = e\<lparr>en_status := EsRunning, en_url := Some (gr_publicUrl (the g)),
     en_statusReason := Some m, en_deploymentRequired := (op_kind r \<notin> {''start'', ''stop'', ''remove''})\<rparr>"

definition kept_stopped_environment :: "gateway_route_row option \<Rightarrow> string \<Rightarrow> environment_row \<Rightarrow> environment_row" where
  "kept_stopped_environment g m e = e\<lparr>en_status := EsStopped, en_url := Some (gr_publicUrl (the g)),
     en_statusReason := Some m, en_deploymentRequired := False\<rparr>"

definition waiting_step :: "operation_row \<Rightarrow> agent_job_row \<Rightarrow> bool" where
  "waiting_step r j = (aj_operationId j = Some (op_id r) \<and> aj_status j \<in> {JbBlocked, JbQueued})"

text \<open>\<open>e\<close> and \<open>g\<close> are the environment and its route as they were read with the job.\<close>

definition fail_managed ::
  "instant \<Rightarrow> operation_row \<Rightarrow> environment_row \<Rightarrow> gateway_route_row option \<Rightarrow> string \<Rightarrow> route_rollback option
     \<Rightarrow> db \<Rightarrow> db" where
  "fail_managed now r e g reason rb d =
     (let m = take 500 reason; shown = preserved_message r e g rb m in
      settle r (if still_serving e g rb then preserved_environment r g shown
                else if still_stopped r e g rb then kept_stopped_environment g shown
                else broken_environment m)
        Failed (terminal_deployment_phase Failed (Some shown)) (Some shown) now
        (d\<lparr>agentJobs := rewrite (waiting_step r) (workflow_cancelled now) (agentJobs d)\<rparr>))"

definition publish_managed_progress :: "operation_row \<Rightarrow> string \<Rightarrow> db \<Rightarrow> db" where
  "publish_managed_progress r m d = d\<lparr>
     operations := rewrite (\<lambda>x. op_id x = op_id r \<and> running_op x)
       (\<lambda>x. x\<lparr>op_phase := Active Verifying, op_message := Some m\<rparr>) (operations d),
     environments := rewrite (\<lambda>e. en_id e = op_environmentId r \<and> en_activeOperationId e = Some (op_id r))
       (\<lambda>e. e\<lparr>en_statusReason := Some m\<rparr>) (environments d)\<rparr>"

definition step_of :: "operation_row \<Rightarrow> nat \<Rightarrow> agent_job_row \<Rightarrow> bool" where
  "step_of r n j = (aj_operationId j = Some (op_id r) \<and> aj_operationStep j = Some n)"

text \<open>The first step of stopping and removing: the route is gone, the workload's turn.\<close>

definition managed_teardown ::
  "(string \<Rightarrow> db \<Rightarrow> db \<times> unit outcome) \<Rightarrow> instant \<Rightarrow> operation_row \<Rightarrow> environment_row \<Rightarrow> gateway_route_row option
     \<Rightarrow> agent_job_row \<Rightarrow> db \<Rightarrow> db \<times> unit outcome" where
  "managed_teardown again now r e g j d =
     (if aj_kind j \<noteq> ''gateway-route''
      then (fail_managed now r e g ''Managed teardown did not remove its gateway route first'' None d, Inr ())
      else case update_many (\<lambda>x. step_of r 2 x \<and> aj_status x = JbBlocked) cleanup_released (agentJobs d) of
        (n, js) \<Rightarrow>
          if n = 0
          then (case find_first (step_of r 2) (agentJobs d) of
              None \<Rightarrow> (fail_managed now r e g ''Managed teardown workload step is missing'' None d, Inr ())
            | Some x \<Rightarrow>
                if aj_status x \<notin> {JbQueued, JbLeased, JbSucceeded}
                then (fail_managed now r e g ''Managed teardown workload step is missing'' None d, Inr ())
                else if aj_status x = JbSucceeded then again (aj_id x) d else (d, Inr ()))
          else (publish_managed_progress r ''Gateway route updated; waiting for Agent workload cleanup''
                  (d\<lparr>agentJobs := js\<rparr>), Inr ()))"

text \<open>The first step of deploying and starting: the workload runs, its route's turn.\<close>

definition activation_request ::
  "operation_row \<Rightarrow> job_result option \<Rightarrow> agent_job_row \<Rightarrow> route_request option" where
  "activation_request r res j =
     (case (json_get (aj_payload j) ''projectSlug'', json_get (aj_payload j) ''containerPort'',
            json_get (aj_payload j) ''healthPath'') of
        (Some (JStr slug), Some (JNum port), Some (JStr health)) \<Rightarrow>
          if aj_kind j \<notin> {''deploy'', ''start''} \<or> \<not> truthy (op_version r) \<or> \<not> runs_version r res \<or>
             \<not> truthy (Option.bind res jr_workloadSlot)
          then None
          else Some \<lparr>rr_requestId = op_id r, rr_desiredState = ''active'', rr_revision = op_version r,
            rr_projectSlug = slug, rr_containerPort = port, rr_healthPath = health,
            rr_workloadSlot = Option.bind res jr_workloadSlot,
            rr_activation = Some (if op_kind r = ''start'' then ''start'' else ''deploy''),
            rr_operationId = Some (op_id r), rr_step = Some 2, rr_correlationId = Some (op_correlationId r)\<rparr>
      | _ \<Rightarrow> None)"

definition managed_activation ::
  "(string \<Rightarrow> db \<Rightarrow> db \<times> unit outcome) \<Rightarrow> platform \<Rightarrow> instant \<Rightarrow> operation_row \<Rightarrow> environment_row
     \<Rightarrow> gateway_route_row option \<Rightarrow> agent_job_row \<Rightarrow> db \<Rightarrow> db \<times> unit outcome" where
  "managed_activation again pf now r e g j d =
     (case activation_request r (job_result_of (aj_result j)) j of
        None \<Rightarrow> (fail_managed now r e g ''Agent returned an invalid managed workload result'' None d, Inr ())
      | Some q \<Rightarrow>
          (case (case queue_reconcile (pf_sha256 pf) (pf_parse pf) (pf_is_ip pf) (pf_mid pf 1) (pf_mid pf 2)
                       (pf_id pf 0) (pf_id pf 1) (pf_id pf 2) now (op_environmentId r) q d of
                   (d1, Inl err) \<Rightarrow> (d1, Inl err)
                 | (d1, Inr rj) \<Rightarrow>
                     (let d2 = publish_managed_progress r ''Workload is ready; waiting for gateway route'' d1 in
                      if rj_status rj = JbSucceeded
                      then again (rj_jobId rj) (reconcile_gateway_route (pf_mid pf 3) now (rj_jobId rj) d2)
                      else (d2, Inr ()))) of
             (d3, Inl err) \<Rightarrow> (fail_managed now r e g (error_message err) None d3, Inr ())
           | (d3, Inr _) \<Rightarrow> (d3, Inr ())))"

definition managed_workload_gone ::
  "instant \<Rightarrow> operation_row \<Rightarrow> environment_row \<Rightarrow> gateway_route_row option \<Rightarrow> agent_job_row \<Rightarrow> db \<Rightarrow> db" where
  "managed_workload_gone now r e g j d =
     (let res = job_result_of (aj_result j) in
      if op_kind r = ''stop'' \<and> aj_kind j = ''stop'' \<and> stopped_version r res
      then finish_lifecycle r (aj_message j) stopped_environment now d
      else if op_kind r = ''remove'' \<and> aj_kind j = ''remove'' \<and> workload_missing res
      then finish_lifecycle r (aj_message j) emptied_environment now d
      else fail_managed now r e g ''Agent returned an invalid managed teardown result'' None d)"

text \<open>The route the Agent published is the one asked for, at the revision of the operation.\<close>

definition published_route :: "operation_row \<Rightarrow> gateway_route_row option \<Rightarrow> agent_job_row \<Rightarrow> gateway_route_row option" where
  "published_route r g j = (case g of None \<Rightarrow> None
     | Some x \<Rightarrow> if aj_kind j = ''gateway-route'' \<and> gr_observedState x = ''active'' \<and>
          gr_observedRevision x = op_version r \<and>
          json_get (aj_payload j) ''generation'' = Some (JNum (int (gr_observedGeneration x)))
        then Some x else None)"

definition managed_published ::
  "instant \<Rightarrow> operation_row \<Rightarrow> environment_row \<Rightarrow> gateway_route_row option \<Rightarrow> agent_job_row \<Rightarrow> db \<Rightarrow> db \<Rightarrow> db" where
  "managed_published now r e g j s d = (case published_route r g j of
      None \<Rightarrow> fail_managed now r e g ''Gateway did not publish the requested workload revision'' (Some RbUnknown) d
    | Some x \<Rightarrow>
        if op_kind r = ''start''
        then finish_lifecycle r (aj_message j) (started_environment (gr_publicUrl x)) now d
        else settle r (deployed_environment r (gr_publicUrl x) (expiry_of s e now)) Succeeded (Result Succeeded)
          (aj_message j) now d)"

definition reconcile_managed ::
  "(string \<Rightarrow> db \<Rightarrow> db \<times> unit outcome) \<Rightarrow> platform \<Rightarrow> instant \<Rightarrow> agent_job_row \<Rightarrow> operation_row \<Rightarrow> environment_row
     \<Rightarrow> gateway_route_row option \<Rightarrow> db \<Rightarrow> db \<Rightarrow> db \<times> unit outcome" where
  "reconcile_managed again pf now j r e g s d =
     (if aj_status j = JbFailed
      then (let reason = or_falsy (aj_message j) ''Agent operation failed'' in
        (fail_managed now r e g reason (rollback_of j reason) d, Inr ()))
      else if aj_operationStep j \<notin> {Some 1, Some 2}
      then (fail_managed now r e g ''Agent returned an invalid managed gateway workflow step'' None d, Inr ())
      else if aj_operationStep j = Some 1 \<and> op_kind r \<in> {''stop'', ''remove''}
      then managed_teardown again now r e g j d
      else if aj_operationStep j = Some 1 then managed_activation again pf now r e g j d
      else if op_kind r \<in> {''stop'', ''remove''} then (managed_workload_gone now r e g j d, Inr ())
      else (managed_published now r e g j s d, Inr ()))"

definition reconcile_projection ::
  "(string \<Rightarrow> db \<Rightarrow> db \<times> unit outcome) \<Rightarrow> platform \<Rightarrow> instant \<Rightarrow> string \<Rightarrow> db \<Rightarrow> db \<times> unit outcome" where
  "reconcile_projection again pf now i s = (case agent_job_by_id i s of
      None \<Rightarrow> (s, Inr ())
    | Some j \<Rightarrow> (case Option.bind (aj_operationId j) (\<lambda>o'. operation_by_id o' s) of
        None \<Rightarrow> (s, Inr ())
      | Some r \<Rightarrow>
          if \<not> ended j \<or> \<not> running_op r then (s, Inr ())
          else (case environment_by_id (op_environmentId r) s of
              None \<Rightarrow> (s, Inl (ServerError ''environment relation''))
            | Some e \<Rightarrow> (let d = pf_mid pf 0 s in
                if map_option tg_routingMode (target_by_id (en_targetId e) s) = Some ManagedGateway
                then reconcile_managed again pf now j r e (route_of (en_id e) s) s d
                else reconcile_direct pf now j r e s d))))"

text \<open>
  The recursion follows the workflow to its second step. The fuel is the depth of the recursion, and
  \<open>reconcile_depth\<close> is enough: a run that would need more ends in the error ''recursion''.
\<close>

fun reconcile_terminal :: "nat \<Rightarrow> platform \<Rightarrow> instant \<Rightarrow> string \<Rightarrow> db \<Rightarrow> db \<times> unit outcome" where
  "reconcile_terminal 0 pf now i d = (d, Inl (ServerError ''recursion''))"
| "reconcile_terminal (Suc n) pf now i d =
     (case reconcile_projection (reconcile_terminal n pf now) pf now i d of
        (d1, Inl e) \<Rightarrow> (d1, Inl e)
      | (d1, Inr _) \<Rightarrow> (case Option.bind (agent_job_by_id i d1) aj_operationId of
          None \<Rightarrow> (d1, Inr ())
        | Some o' \<Rightarrow> (record_safely (record_deployment_result (pf_down pf) o') d1, Inr ())))"

definition reconcile_depth :: nat where "reconcile_depth = 3"

section \<open>Mirroring progress\<close>

definition advance_phase_to :: "string option \<Rightarrow> active_phase \<Rightarrow> string \<Rightarrow> db \<Rightarrow> db" where
  "advance_phase_to o' p m d = (if \<not> truthy o' then d else
     d\<lparr>operations := rewrite (\<lambda>x. op_id x = the o' \<and> running_op x \<and> op_phase x \<in> set (active_phase_predecessors p))
       (\<lambda>x. x\<lparr>op_phase := Active p, op_message := Some m\<rparr>) (operations d)\<rparr>)"

definition stage_phase :: "string \<Rightarrow> active_phase" where
  "stage_phase s = (if s = ''verifying'' then Verifying else if s = ''working'' then Running else Assigned)"

definition mirror_deployment :: "string \<Rightarrow> string \<Rightarrow> string \<Rightarrow> db \<Rightarrow> db" where
  "mirror_deployment i stage m d = (case Option.bind (agent_job_by_id i d) aj_operationId of
      None \<Rightarrow> d
    | Some o' \<Rightarrow> if o' = [] then d else (let p = stage_phase stage in
        d\<lparr>operations := rewrite (\<lambda>x. op_id x = o' \<and> running_op x \<and> op_phase x \<in> set (active_phase_predecessors p))
             (\<lambda>x. x\<lparr>op_phase := Active p\<rparr>)
             (rewrite (\<lambda>x. op_id x = o' \<and> op_status x = OpRunning) (\<lambda>x. x\<lparr>op_message := Some m\<rparr>) (operations d)),
          environments := rewrite (\<lambda>e. en_activeOperationId e = Some o') (\<lambda>e. e\<lparr>en_statusReason := Some m\<rparr>)
             (environments d)\<rparr>))"

definition mirror_preflight :: "string \<Rightarrow> db \<Rightarrow> db" where
  "mirror_preflight i d = (case agent_job_by_id i d of
      None \<Rightarrow> d
    | Some j \<Rightarrow> if aj_kind j \<noteq> ''gateway-preflight'' then d
        else d\<lparr>targets := rewrite (current_preflight j) (\<lambda>t. t\<lparr>tg_preflightStatus := PfRunning\<rparr>) (targets d)\<rparr>)"

definition active_diagnostic :: "string \<Rightarrow> diagnostic_row \<Rightarrow> bool" where
  "active_diagnostic i w = (wd_currentJobId w = Some i \<and> wd_status w \<in> {DgQueued, DgRunning})"

definition mirror_diagnostic :: "string \<Rightarrow> string \<Rightarrow> db \<Rightarrow> db" where
  "mirror_diagnostic i m d = d\<lparr>diagnostics := rewrite (active_diagnostic i)
     (\<lambda>w. w\<lparr>wd_status := DgRunning, wd_message := Some m\<rparr>) (diagnostics d)\<rparr>"

definition mirror_progress :: "string \<Rightarrow> string \<Rightarrow> string \<Rightarrow> db \<Rightarrow> db" where
  "mirror_progress i stage m d = mirror_diagnostic i m (mirror_preflight i (mirror_deployment i stage m d))"

text \<open>A report that is not newer than the stored one mirrors the stored one.\<close>

definition progress ::
  "platform \<Rightarrow> string option \<Rightarrow> string \<Rightarrow> progress_input \<Rightarrow> db \<Rightarrow> db \<times> agent_job_row outcome" where
  "progress pf auth i p d = (case authenticate_credential (pf_hash pf) auth d of
      Inl e \<Rightarrow> (d, Inl e)
    | Inr a \<Rightarrow> (let now = pf_now pf 0; h = pf_hash pf (pi_leaseToken p) in
        case on_job i (progress_job_row (pf_mid pf 0 d) a i h now p) (pf_mid pf 0 d) of
          (d1, None) \<Rightarrow> (let d2 = pf_mid pf 1 d1 in case find_first (active_lease a i h now d2) (agentJobs d2) of
              None \<Rightarrow> (d2, Inl lost_job_lease)
            | Some j \<Rightarrow> (mirror_progress i (aj_progressStage j) (or_else (aj_message j) (pi_message p)) d2, Inr j))
        | (d1, Some _) \<Rightarrow> (let d2 = pf_mid pf 1 d1 in case agent_job_by_id i d2 of
              None \<Rightarrow> (d2, Inl (ServerError ''P2025''))
            | Some j \<Rightarrow> (mirror_progress i (pi_stage p) (pi_message p) d2, Inr j))))"

section \<open>Completing a job\<close>

definition healthy_report :: "job_result \<Rightarrow> diagnostic_input \<Rightarrow> bool" where
  "healthy_report r g = (jr_state r = ''running'' \<and> di_health g \<in> {''healthy'', ''unhealthy''} \<or>
     jr_state r = ''stopped'' \<and> di_health g = ''not-running'' \<or>
     jr_state r = ''missing'' \<and> di_health g = ''missing'')"

definition completion_error :: "string \<Rightarrow> complete_input \<Rightarrow> http_error option" where
  "completion_error kind c =
     (if truthy (ci_gatewayCaSha256 c) \<and> kind \<noteq> ''gateway-preflight''
      then Some (BadRequest ''A gateway CA fingerprint is accepted only for a gateway preflight'')
      else if ci_diagnostic c \<noteq> None \<and> kind \<noteq> ''logs''
      then Some (BadRequest ''Diagnostic output is accepted only for a logs job'')
      else if kind = ''logs'' \<and> ci_status c = CoSucceeded \<and> (ci_result c = None \<or> ci_diagnostic c = None)
      then Some (BadRequest ''A successful logs job requires runtime and diagnostic output'')
      else if kind = ''logs'' \<and> ci_result c \<noteq> None \<and> ci_diagnostic c \<noteq> None \<and>
          \<not> healthy_report (the (ci_result c)) (the (ci_diagnostic c))
      then Some (BadRequest ''Diagnostic health does not match the workload state'')
      else None)"

definition diagnosed :: "complete_input \<Rightarrow> instant \<Rightarrow> diagnostic_row \<Rightarrow> diagnostic_row" where
  "diagnosed c now w = (case (ci_status c, ci_result c, ci_diagnostic c) of
      (CoSucceeded, Some r, Some g) \<Rightarrow> w\<lparr>wd_status := DgSucceeded, wd_runtimeState := Some (jr_state r),
         wd_revision := jr_revision r, wd_exitCode := di_exitCode g, wd_health := Some (di_health g),
         wd_logs := di_logs g, wd_message := Some (ci_message c), wd_observedAt := Some now,
         wd_finishedAt := Some now\<rparr>
    | _ \<Rightarrow> w\<lparr>wd_status := DgFailed, wd_message := Some (ci_message c), wd_finishedAt := Some now\<rparr>)"

text \<open>The transaction of a completion whose lease holds.\<close>

definition complete_tx ::
  "auth_agent \<Rightarrow> string \<Rightarrow> string \<Rightarrow> instant \<Rightarrow> string \<Rightarrow> complete_input \<Rightarrow> db \<Rightarrow> db \<times> agent_job_row option" where
  "complete_tx a i h now kind c d = (case on_job i (complete_job_row d a i h now c) d of
      (d1, None) \<Rightarrow> (d1, None)
    | (d1, Some j) \<Rightarrow>
        (d1\<lparr>targets := (if truthy (ci_gatewayCaSha256 c) \<and> ci_status c = CoSucceeded
              then rewrite (\<lambda>t. tg_preflightJobId t = Some i) (\<lambda>t. t\<lparr>tg_gatewayCaSha256 := ci_gatewayCaSha256 c\<rparr>) (targets d1)
              else targets d1),
            diagnostics := (if kind = ''logs'' then rewrite (active_diagnostic i) (diagnosed c now) (diagnostics d1)
              else diagnostics d1)\<rparr>, Some j))"

definition same_diagnostic :: "string \<Rightarrow> complete_input \<Rightarrow> db \<Rightarrow> bool" where
  "same_diagnostic i c d = (case find_first (\<lambda>w. wd_currentJobId w = Some i) (diagnostics d) of
      None \<Rightarrow> False
    | Some w \<Rightarrow>
        if wd_status w \<noteq> (if ci_status c = CoSucceeded then DgSucceeded else DgFailed) \<or>
           wd_message w \<noteq> Some (ci_message c) then False
        else if ci_status c = CoFailed then True
        else (case (ci_result c, ci_diagnostic c) of
            (Some r, Some g) \<Rightarrow> wd_runtimeState w = Some (jr_state r) \<and> wd_revision w = jr_revision r \<and>
              wd_exitCode w = di_exitCode g \<and> wd_health w = Some (di_health g) \<and> wd_logs w = di_logs g
          | _ \<Rightarrow> False))"

definition replays :: "string \<Rightarrow> complete_input \<Rightarrow> db \<Rightarrow> agent_job_row \<Rightarrow> bool" where
  "replays kind c d j = (aj_status j = completion_status (ci_status c) \<and> aj_message j = Some (ci_message c) \<and>
     aj_resultCode j = ci_resultCode c \<and> same_result (aj_result j) (ci_result c) \<and>
     (kind = ''logs'' \<longrightarrow> same_diagnostic (aj_id j) c d))"

text \<open>The audit record of an update of the Agent itself.\<close>

definition record_agent_job_result :: "bool \<Rightarrow> string \<Rightarrow> db \<Rightarrow> db \<times> unit outcome" where
  "record_agent_job_result down i d =
     (if \<not> uuid_v4 i then (d, Inl (ServerError ''Invalid audit operation id''))
      else case agent_job_by_id i d of
        None \<Rightarrow> (d, Inr ())
      | Some j \<Rightarrow> (case target_by_id (Some (aj_targetId j)) d of
          None \<Rightarrow> (d, Inl (ServerError ''target relation''))
        | Some t \<Rightarrow>
            if aj_kind j \<noteq> ''agent-update'' \<or> \<not> truthy (tg_workspaceId t) \<or>
               aj_status j \<notin> {JbSucceeded, JbFailed, JbCancelled} then (d, Inr ())
            else record_terminal down
              \<lparr>au_workspaceId = tg_workspaceId t, au_actorUserId = None, au_actorUsername = ''initpad'',
               au_action = ''agent.update_completed'',
               au_outcome = (case aj_status j of JbSucceeded \<Rightarrow> AoSucceeded | JbFailed \<Rightarrow> AoFailed | _ \<Rightarrow> AoCancelled),
               au_resourceType = ''agent'', au_resourceId = Some (aj_id j), au_resourceName = Some (tg_name t),
               au_operation = Some (AtAgentJob, i),
               au_details = Some [(''toVersion'', JStr (case Option.bind (json_get (aj_payload j) ''version'') json_string of
                  Some v \<Rightarrow> v | None \<Rightarrow> ''unknown''))]\<rparr> d))"

definition after_completion :: "platform \<Rightarrow> instant \<Rightarrow> string \<Rightarrow> db \<Rightarrow> db \<times> unit outcome" where
  "after_completion pf now i d = reconcile_terminal reconcile_depth pf now i
     (reconcile_gateway_route (pf_mid pf 5) now i (reconcile_gateway_preflight (pf_mid pf 4) now i d))"

definition audit_update :: "platform \<Rightarrow> string \<Rightarrow> agent_job_row \<Rightarrow> db \<Rightarrow> db \<times> unit outcome" where
  "audit_update pf i j d = (if aj_kind j = ''agent-update'' then record_agent_job_result (pf_down pf) i d else (d, Inr ()))"

definition complete_job ::
  "platform \<Rightarrow> string option \<Rightarrow> string \<Rightarrow> complete_input \<Rightarrow> db \<Rightarrow> db \<times> agent_job_row outcome" where
  "complete_job pf auth i c d = (case authenticate_credential (pf_hash pf) auth d of
      Inl e \<Rightarrow> (d, Inl e)
    | Inr a \<Rightarrow> (let now = pf_now pf 0; h = pf_hash pf (ci_leaseToken c); d0 = pf_mid pf 6 d in
        case find_first (bound_lease a i h d0) (agentJobs d0) of
          None \<Rightarrow> (d0, Inl lost_job_lease)
        | Some b \<Rightarrow> (case completion_error (aj_kind b) c of
            Some e \<Rightarrow> (d0, Inl e)
          | None \<Rightarrow> (case complete_tx a i h now (aj_kind b) c (pf_mid pf 7 d0) of
              (d1, None) \<Rightarrow> (let d2 = pf_mid pf 8 d1 in
                case find_first (bound_lease a i h d2) (agentJobs d2) of
                  None \<Rightarrow> (d2, Inl lost_job_lease)
                | Some j \<Rightarrow>
                    if \<not> replays (aj_kind b) c d2 j then (d2, Inl lost_job_lease)
                    else (case after_completion pf now i d2 of
                        (d3, Inl e) \<Rightarrow> (d3, Inl e)
                      | (d3, Inr _) \<Rightarrow> (case audit_update pf i j d3 of
                          (d4, Inl e) \<Rightarrow> (d4, Inl e)
                        | (d4, Inr _) \<Rightarrow> (d4, Inr j))))
            | (d1, Some _) \<Rightarrow> (case after_completion pf now i d1 of
                (d2, Inl e) \<Rightarrow> (d2, Inl e)
              | (d2, Inr _) \<Rightarrow> (case agent_job_by_id i d2 of
                  None \<Rightarrow> (d2, Inl (ServerError ''P2025''))
                | Some j \<Rightarrow> (case audit_update pf i j d2 of
                    (d3, Inl e) \<Rightarrow> (d3, Inl e)
                  | (d3, Inr _) \<Rightarrow> (d3, Inr j))))))))"

section \<open>Delivery\<close>

text \<open>Configuration of an environment in the collation order of its keys.\<close>

fun insert_var :: "(string \<Rightarrow> string \<Rightarrow> bool) \<Rightarrow> config_var_row \<Rightarrow> config_var_row list \<Rightarrow> config_var_row list" where
  "insert_var le v [] = [v]"
| "insert_var le v (w # ws) = (if le (cv_key v) (cv_key w) then v # w # ws else w # insert_var le v ws)"

definition sort_vars :: "(string \<Rightarrow> string \<Rightarrow> bool) \<Rightarrow> config_var_row list \<Rightarrow> config_var_row list" where
  "sort_vars le vs = foldr (insert_var le) vs []"

definition fingerprint_part :: "config_var_row \<Rightarrow> string" where
  "fingerprint_part v = cv_key v @ [CHR 0x00] @ (if cv_isSecret v then ''secret'' else ''plain'') @ [CHR 0x00]
     @ cv_value v @ [CHR 0x00]"

definition agent_config_fingerprint ::
  "(string \<Rightarrow> string) \<Rightarrow> (string \<Rightarrow> string \<Rightarrow> bool) \<Rightarrow> config_var_row list \<Rightarrow> string" where
  "agent_config_fingerprint hmac le vs = hmac (concat (map fingerprint_part (sort_vars le vs)))"

definition config_of :: "(string \<Rightarrow> string \<Rightarrow> bool) \<Rightarrow> string \<Rightarrow> db \<Rightarrow> config_var_row list" where
  "config_of le e d = sort_vars le (filter (\<lambda>v. cv_environmentId v = e) (configVars d))"

record delivery_binding =
  db_job :: agent_job_row
  db_artifact :: artifact_row
  db_storageRef :: string
  db_environment :: environment_row

definition deployment_kinds :: "string list" where
  "deployment_kinds = [''deploy'', ''rollback'']"

definition assert_delivery_binding :: "agent_job_row \<Rightarrow> db \<Rightarrow> delivery_binding outcome" where
  "assert_delivery_binding j d =
     (let none = Inl (BadRequest ''Agent job is not bound to an available deployment artifact'') in
      case Option.bind (aj_operationId j) (\<lambda>o'. operation_by_id o' d) of
        None \<Rightarrow> none
      | Some r \<Rightarrow> (case artifact_by_id (op_buildArtifactId r) d of
          None \<Rightarrow> none
        | Some b \<Rightarrow> (case environment_by_id (op_environmentId r) d of
            None \<Rightarrow> none
          | Some e \<Rightarrow>
              if \<not> truthy (ba_storageRef b) \<or> ba_status b \<noteq> AfAvailable \<or> ba_storageKind b \<noteq> Some ''object-store'' \<or>
                 en_targetId e \<noteq> Some (aj_targetId j) \<or> en_allocationId e \<noteq> aj_allocationId j
              then none
              else Inr \<lparr>db_job = j, db_artifact = b, db_storageRef = the (ba_storageRef b), db_environment = e\<rparr>)))"

definition safe_size :: "nat \<Rightarrow> nat outcome" where
  "safe_size n = (if n < 1 \<or> n > 2 ^ 53 - 1 then Inl (BadRequest ''Build artifact has an invalid size'') else Inr n)"

definition normalized_digest :: "string \<Rightarrow> string outcome" where
  "normalized_digest v = (let l = lower v; g = (if starts_with ''sha256:'' l then drop 7 l else l) in
     if length g = 64 \<and> list_all (\<lambda>c. c \<in> set ''0123456789abcdef'') g then Inr g
     else Inl (BadRequest ''Build artifact has an invalid SHA-256 digest''))"

record delivery =
  dl_path :: string
  dl_sha256 :: string
  dl_sizeBytes :: nat
  dl_envVars :: "(string \<times> string) list"

fun decrypt_vars :: "(string \<Rightarrow> string outcome) \<Rightarrow> config_var_row list \<Rightarrow> (string \<times> string) list outcome" where
  "decrypt_vars dec [] = Inr []"
| "decrypt_vars dec (v # vs) =
     (case (if cv_isSecret v then dec (cv_value v) else Inr (cv_value v)) of
        Inl e \<Rightarrow> Inl e
      | Inr x \<Rightarrow> (case decrypt_vars dec vs of Inl e \<Rightarrow> Inl e | Inr xs \<Rightarrow> Inr ((cv_key v, x) # xs)))"

definition queued_fingerprint :: "agent_job_row \<Rightarrow> string" where
  "queued_fingerprint j = or_else (Option.bind (json_get (aj_payload j) ''configFingerprint'') json_string) []"

definition stored_object :: "platform \<Rightarrow> delivery_binding \<Rightarrow> nat outcome" where
  "stored_object pf b = (case safe_size (ba_sizeBytes (db_artifact b)) of
      Inl e \<Rightarrow> Inl e
    | Inr n \<Rightarrow> if pf_head pf (db_storageRef b) = Some n then Inr n
        else Inl (NotFound ''Verified build artifact is no longer available''))"

definition delivery_for_lease ::
  "platform \<Rightarrow> auth_agent \<Rightarrow> string \<Rightarrow> string \<Rightarrow> instant \<Rightarrow> db \<Rightarrow> delivery outcome" where
  "delivery_for_lease pf a i token now d =
     (case find_first (active_lease a i (pf_hash pf token) now d) (agentJobs d) of
        None \<Rightarrow> Inl lost_job_lease
      | Some j \<Rightarrow> (case assert_delivery_binding j d of
          Inl e \<Rightarrow> Inl e
        | Inr b \<Rightarrow> (let vars = config_of (pf_collate pf) (en_id (db_environment b)) d; q = queued_fingerprint j in
            if q = [] \<or> q \<noteq> agent_config_fingerprint (pf_hmac pf) (pf_collate pf) vars
            then Inl (BadRequest ''Application config changed after this deployment was queued; start a new deployment'')
            else (case stored_object pf b of
                Inl e \<Rightarrow> Inl e
              | Inr n \<Rightarrow> (case decrypt_vars (pf_decrypt pf) vars of
                  Inl e \<Rightarrow> Inl e
                | Inr env \<Rightarrow> (case normalized_digest (ba_digest (db_artifact b)) of
                    Inl e \<Rightarrow> Inl e
                  | Inr g \<Rightarrow> Inr \<lparr>dl_path = ''/api/agent/jobs/'' @ i @ ''/artifact'', dl_sha256 = g,
                      dl_sizeBytes = n, dl_envVars = env\<rparr>))))))"

definition fail_invalid_delivery ::
  "platform \<Rightarrow> auth_agent \<Rightarrow> string \<Rightarrow> string \<Rightarrow> instant \<Rightarrow> string \<Rightarrow> db \<Rightarrow> db \<times> unit outcome" where
  "fail_invalid_delivery pf a i token now m d =
     (case on_job i (invalid_delivery_row d a i (pf_hash pf token) now m) d of
        (d1, None) \<Rightarrow> (d1, Inr ())
      | (d1, Some _) \<Rightarrow> reconcile_terminal reconcile_depth pf now i d1)"

text \<open>What the store is asked to open: the reference, the digest and the size.\<close>

definition open_artifact ::
  "platform \<Rightarrow> string option \<Rightarrow> string \<Rightarrow> string option \<Rightarrow> db \<Rightarrow> (string \<times> string \<times> nat) outcome" where
  "open_artifact pf auth i token d =
     (if \<not> has_token_shape token then Inl lost_job_lease
      else case authenticate_credential (pf_hash pf) auth d of
        Inl e \<Rightarrow> Inl e
      | Inr a \<Rightarrow> (case find_first (active_lease a i (pf_hash pf (the token)) (pf_now pf 0) d) (agentJobs d) of
          None \<Rightarrow> Inl lost_job_lease
        | Some j \<Rightarrow>
            if aj_kind j \<notin> set deployment_kinds then Inl lost_job_lease
            else (case assert_delivery_binding j d of
                Inl e \<Rightarrow> Inl e
              | Inr b \<Rightarrow> (case stored_object pf b of
                  Inl e \<Rightarrow> Inl e
                | Inr n \<Rightarrow> (case normalized_digest (ba_digest (db_artifact b)) of
                    Inl e \<Rightarrow> Inl e
                  | Inr g \<Rightarrow> Inr (db_storageRef b, g, n))))))"

section \<open>Claiming\<close>

record job_offer =
  jo_job :: agent_job_row
  jo_leaseToken :: string
  jo_leaseExpiresAt :: instant
  jo_delivery :: "delivery option"

record claim_response =
  cr_job :: "job_offer option"
  cr_nextPollSeconds :: nat

definition announce_claim :: "agent_job_row \<Rightarrow> db \<Rightarrow> db" where
  "announce_claim j d = advance_phase_to (aj_operationId j) Assigned ''Claimed by Agent''
     (if aj_kind j = ''logs'' then mirror_diagnostic (aj_id j) ''Claimed by Agent'' d else d)"

text \<open>The loop over lost races and invalid deliveries: \<open>n\<close> attempts are left.\<close>

fun claim_loop :: "nat \<Rightarrow> platform \<Rightarrow> auth_agent \<Rightarrow> db \<Rightarrow> db \<times> claim_response outcome" where
  "claim_loop 0 pf a d = (d, Inr \<lparr>cr_job = None, cr_nextPollSeconds = 1\<rparr>)"
| "claim_loop (Suc n) pf a d =
     (let now = pf_now pf n in
      case claim_once (pf_hash pf) (pf_mid pf 9) (pf_mid pf 10) (pf_token pf n) a now d of
        (d1, Inl e) \<Rightarrow> (d1, Inl e)
      | (d1, Inr ClaimEmpty) \<Rightarrow> (d1, Inr \<lparr>cr_job = None, cr_nextPollSeconds = next_poll_seconds\<rparr>)
      | (d1, Inr ClaimRaced) \<Rightarrow> claim_loop n pf a d1
      | (d1, Inr (Claimed j token expires)) \<Rightarrow> (let d2 = announce_claim j d1 in
          if aj_kind j \<notin> set deployment_kinds
          then (d2, Inr \<lparr>cr_job = Some \<lparr>jo_job = j, jo_leaseToken = token, jo_leaseExpiresAt = expires,
                  jo_delivery = None\<rparr>, cr_nextPollSeconds = next_poll_seconds\<rparr>)
          else (case delivery_for_lease pf a (aj_id j) token now d2 of
              Inl e \<Rightarrow> (case fail_invalid_delivery pf a (aj_id j) token now (error_message e) d2 of
                  (d3, Inl e') \<Rightarrow> (d3, Inl e')
                | (d3, Inr _) \<Rightarrow> claim_loop n pf a d3)
            | Inr dl \<Rightarrow> (d2, Inr \<lparr>cr_job = Some \<lparr>jo_job = j, jo_leaseToken = token, jo_leaseExpiresAt = expires,
                  jo_delivery = Some dl\<rparr>, cr_nextPollSeconds = next_poll_seconds\<rparr>))))"

definition claim_attempts :: nat where "claim_attempts = 3"

definition claim_job :: "platform \<Rightarrow> string option \<Rightarrow> db \<Rightarrow> db \<times> claim_response outcome" where
  "claim_job pf auth d = (case authenticate_credential (pf_hash pf) auth d of
      Inl e \<Rightarrow> (d, Inl e)
    | Inr a \<Rightarrow> claim_loop claim_attempts pf a d)"

section \<open>Jobs an administrator asks for\<close>

definition queued_job ::
  "string \<Rightarrow> string \<Rightarrow> instant \<Rightarrow> string \<Rightarrow> string \<Rightarrow> string \<Rightarrow> json \<Rightarrow> agent_job_row" where
  "queued_job i corr now t key kind payload = \<lparr>aj_id = i, aj_correlationId = corr, aj_targetId = t,
     aj_allocationId = None, aj_operationId = None, aj_operationStep = None, aj_gatewayRouteId = None,
     aj_leasedByAgentId = None, aj_dedupeKey = key, aj_kind = kind, aj_protocolVersion = 1,
     aj_payload = payload, aj_status = JbQueued, aj_attempt = 0, aj_leaseTokenHash = None,
     aj_leasedAt = None, aj_leaseExpiresAt = None, aj_progressSequence = 0, aj_progressPercent = 0,
     aj_progressStage = ''queued'', aj_message = Some ''Waiting for Agent'', aj_resultCode = None,
     aj_result = None, aj_createdAt = now, aj_finishedAt = None\<rparr>"

definition upsert_job :: "agent_job_row \<Rightarrow> db \<Rightarrow> db \<times> agent_job_row" where
  "upsert_job j d = (case job_by_key (aj_dedupeKey j) d of
      Some x \<Rightarrow> (d, x)
    | None \<Rightarrow> (d\<lparr>agentJobs := create j (agentJobs d)\<rparr>, j))"

definition connected_agent :: "string \<Rightarrow> db \<Rightarrow> agent_row option" where
  "connected_agent i d = (case agent_of_target i d of
      None \<Rightarrow> None
    | Some g \<Rightarrow> if \<not> truthy (ag_credentialHash g) \<or> ag_disabledAt g \<noteq> None then None else Some g)"

definition create_probe ::
  "platform \<Rightarrow> string \<Rightarrow> string \<Rightarrow> string \<Rightarrow> nat \<Rightarrow> db \<Rightarrow> db \<times> agent_job_row outcome" where
  "create_probe pf t u requestId seconds d = (case require_target_access t u Administer d of
      Inl e \<Rightarrow> (d, Inl e)
    | Inr _ \<Rightarrow> (case connected_agent t d of
        None \<Rightarrow> (d, Inl (BadRequest ''Enroll and connect the Agent before testing its job protocol''))
      | Some _ \<Rightarrow> (case upsert_job (queued_job (pf_id pf 0) (pf_id pf 1) (pf_now pf 0) t
              (''probe:'' @ t @ '':'' @ requestId) ''probe'' (JObj [(''durationSeconds'', JNum (int seconds))])) (pf_mid pf 0 d) of
          (d1, j) \<Rightarrow> (d1, Inr j))))"

definition lifecycle_test_image :: string where
  "lifecycle_test_image = ''nginx@sha256:54f2a904c251d5a34adf545a72d32515a15e08418dae0266e23be2e18c66fefa''"

definition lifecycle_diagnostic_environment :: "(string \<Rightarrow> string) \<Rightarrow> string \<Rightarrow> string" where
  "lifecycle_diagnostic_environment sha256 i = ''diagnostic-'' @ take 12 (sha256 i)"

definition upsert_allocation :: "string \<Rightarrow> instant \<Rightarrow> target_row \<Rightarrow> workspace_row \<Rightarrow> db \<Rightarrow> db \<times> allocation_row" where
  "upsert_allocation newId now t w d =
     (case find_first (\<lambda>a. al_workspaceId a = ws_id w \<and> al_targetId a = tg_id t) (allocations d) of
        Some a \<Rightarrow> (d, a)
      | None \<Rightarrow> (let a = \<lparr>al_id = newId, al_targetId = tg_id t, al_workspaceId = ws_id w, al_namespace = ws_slug w,
            al_rootPath = None, al_publicUrl = tg_publicUrl t, al_capabilities = tg_capabilities t, al_active = True,
            al_maxEnvironments = 50, al_cpuLimitMillicores = 1000, al_memoryLimitMb = 512, al_pidsLimit = 256,
            al_ttl = \<lparr>devTtlHours = None, testTtlHours = None\<rparr>, al_updatedAt = now\<rparr>
          in (d\<lparr>allocations := create a (allocations d)\<rparr>, a)))"

definition create_lifecycle_test ::
  "platform \<Rightarrow> string \<Rightarrow> string \<Rightarrow> string \<Rightarrow> db \<Rightarrow> db \<times> agent_job_row outcome" where
  "create_lifecycle_test pf i u requestId d = (case require_target_access i u Administer d of
      Inl e \<Rightarrow> (d, Inl e)
    | Inr _ \<Rightarrow> (case connected_agent i d of
        None \<Rightarrow> (d, Inl (BadRequest ''Enroll and connect the Agent before testing Docker lifecycle operations''))
      | Some g \<Rightarrow>
          if \<not> agent_version_at_least (ag_version g) min_lifecycle_version
          then (d, Inl (BadRequest ''Docker lifecycle testing requires InitPad Agent 0.3.0 or newer''))
          else (case target_by_id (Some i) d of
              None \<Rightarrow> (d, Inl (ServerError ''target relation''))
            | Some t \<Rightarrow> (case Option.bind (tg_workspaceId t) (\<lambda>w. workspace_by_id w d) of
                None \<Rightarrow> (d, Inl (BadRequest ''Docker lifecycle testing requires a workspace-owned Docker target''))
              | Some w \<Rightarrow>
                  if tg_kind t \<noteq> Docker \<or> tg_scope t \<noteq> UserScope \<or> \<not> truthy (tg_workspaceId t) \<or> ws_slug w = []
                  then (d, Inl (BadRequest ''Docker lifecycle testing requires a workspace-owned Docker target''))
                  else (case upsert_allocation (pf_id pf 2) (pf_now pf 0) t w (pf_mid pf 0 d) of
                    (d1, a) \<Rightarrow> (case upsert_job ((queued_job (pf_id pf 0) (pf_id pf 1) (pf_now pf 0) i
                          (''lifecycle-test:'' @ i @ '':'' @ requestId) ''lifecycle-test''
                          (JObj [(''allocationId'', JStr (al_id a)), (''namespace'', JStr (al_namespace a)),
                             (''projectSlug'', JStr ''agent-lifecycle-check''),
                             (''environment'', JStr (lifecycle_diagnostic_environment (pf_sha256 pf) (al_id a))),
                             (''revision'', JStr (''probe-'' @ take 12 (filter (\<lambda>c. c \<noteq> CHR ''-'') requestId))),
                             (''imageRef'', JStr lifecycle_test_image), (''containerPort'', JNum 80),
                             (''healthPath'', JStr ''/'')]))\<lparr>aj_allocationId := Some (al_id a)\<rparr>) (pf_mid pf 1 d1) of
                        (d2, j) \<Rightarrow> (d2, Inr j)))))))"

definition preflight_queued :: "string \<Rightarrow> target_row \<Rightarrow> target_row" where
  "preflight_queued i t = t\<lparr>tg_preflightStatus := PfQueued, tg_preflightJobId := Some i,
     tg_preflightAt := None, tg_preflightError := None\<rparr>"

text \<open>A repeated request finds its job and leaves the fence on the target where it is.\<close>

definition create_gateway_preflight ::
  "platform \<Rightarrow> string \<Rightarrow> string \<Rightarrow> string \<Rightarrow> db \<Rightarrow> db \<times> agent_job_row outcome" where
  "create_gateway_preflight pf i u requestId d = (case require_target_access i u Administer d of
      Inl e \<Rightarrow> (d, Inl e)
    | Inr _ \<Rightarrow> (case connected_agent i d of
        None \<Rightarrow> (d, Inl (BadRequest ''Enroll and connect the Agent before testing its gateway''))
      | Some g \<Rightarrow>
          if \<not> agent_version_at_least (ag_version g) min_gateway_version
          then (d, Inl (BadRequest ''Gateway preflight requires InitPad Agent 0.5.0 or newer''))
          else (case target_by_id (Some i) d of
              None \<Rightarrow> (d, Inl (ServerError ''target relation''))
            | Some t \<Rightarrow>
                if tg_kind t \<noteq> Docker \<or> tg_scope t \<noteq> UserScope \<or> tg_routingMode t \<noteq> ManagedGateway \<or>
                   tg_gatewayAdapter t \<noteq> Some ''caddy'' \<or> \<not> truthy (tg_publicUrl t)
                then (d, Inl (BadRequest ''Gateway preflight requires a managed-gateway Docker target''))
                else (let key = ''gateway-preflight:'' @ i @ '':'' @ requestId; d1 = pf_mid pf 0 d;
                          j = queued_job (pf_id pf 0) (pf_id pf 1) (pf_now pf 0) i key ''gateway-preflight''
                            (JObj [(''adapter'', JStr ''caddy''), (''publicUrl'', json_str (tg_publicUrl t))]) in
                  if job_conflict j (agentJobs d1)
                  then (case job_by_key key d1 of
                      None \<Rightarrow> (d1, Inl (ServerError ''P2002''))
                    | Some x \<Rightarrow> (d1, Inr x))
                  else if target_by_id (Some i) d1 = None then (d1, Inl (ServerError ''P2025''))
                  else (d1\<lparr>agentJobs := create j (agentJobs d1),
                           targets := rewrite (\<lambda>x. tg_id x = i) (preflight_queued (pf_id pf 0)) (targets d1)\<rparr>, Inr j)))))"

definition list_jobs :: "string \<Rightarrow> string \<Rightarrow> db \<Rightarrow> agent_job_row list outcome" where
  "list_jobs i u d = (case require_target_access i u Read d of
      Inl e \<Rightarrow> Inl e
    | Inr _ \<Rightarrow> Inr (take 10 (newest_first aj_createdAt (filter (\<lambda>j. aj_targetId j = i) (agentJobs d)))))"

section \<open>Recovery at start\<close>

definition unprojected :: "db \<Rightarrow> agent_job_row \<Rightarrow> bool" where
  "unprojected d j = (ended j \<and> (case Option.bind (aj_operationId j) (\<lambda>o'. operation_by_id o' d) of
      None \<Rightarrow> False | Some r \<Rightarrow> running_op r))"

definition replay_job :: "platform \<Rightarrow> agent_job_row \<Rightarrow> db \<Rightarrow> db" where
  "replay_job pf j d = fst (reconcile_terminal reconcile_depth pf (pf_now pf 0) (aj_id j)
     (reconcile_gateway_route (pf_mid pf 5) (pf_now pf 0) (aj_id j) d))"

definition on_module_init :: "platform \<Rightarrow> db \<Rightarrow> db" where
  "on_module_init pf d =
     (let d1 = fold (replay_job pf) (filter (unprojected d) (agentJobs d)) d;
          d2 = fold (\<lambda>t. case tg_preflightJobId t of
                 None \<Rightarrow> id | Some i \<Rightarrow> reconcile_gateway_preflight (pf_mid pf 4) (pf_now pf 0) i)
               (filter (\<lambda>t. tg_preflightStatus t \<in> {PfQueued, PfRunning} \<and> tg_preflightJobId t \<noteq> None) (targets d1)) d1
      in fold (\<lambda>g. case gr_reconcileJobId g of
                 None \<Rightarrow> id | Some i \<Rightarrow> reconcile_gateway_route (pf_mid pf 5) (pf_now pf 0) i)
               (filter (\<lambda>g. gr_reconcileJobId g \<noteq> None) (gatewayRoutes d2)) d2)"

end
