(* ===== verification/AgentJobProofs.thy ===== *)
theory AgentJobProofs
  imports AgentJobs
begin

text \<open>
  What the handlers of \<open>AgentJobs\<close> guarantee: deactivation reaches requests in flight, results survive
  storage, an operation ends with its job, ended jobs stay as they are, completions may be repeated,
  deliveries are what was queued, and the workflow behind a managed gateway.
\<close>

section \<open>Revocation in flight\<close>

lemma cut_no_candidate:
  "cut_credentials a d \<Longrightarrow> find_first (bound_lease a i h d) (agentJobs d) = None"
  "cut_credentials a d \<Longrightarrow> find_first (active_lease a i h now d) (agentJobs d) = None"
  by (simp_all add: find_first_None cut_no_lease)

lemma cut_on_job:
  assumes "cut_credentials a d" and "\<And>j j'. f j = Some j' \<Longrightarrow> active_lease a i h now d j"
  shows "on_job i' f d = (d, None)"
  by (rule on_job_refused) (use assms cut_no_lease in fastforce)

text \<open>
  Deactivation reaches requests in flight. An Agent has authenticated and its request is under way
  when its target is deactivated: at no later point does the request change a job. Renewals, reports and
  completions are answered with a lost lease, a poll with no job, an artifact is not opened, and the
  database is the one the others committed.
\<close>

theorem deactivation_reaches_requests_in_flight:
  assumes "authenticate_credential (pf_hash pf) auth d = Inr a"
    and "\<And>k x. cut_off (aa_targetId a) (pf_mid pf k x)"
  shows "renew_job (pf_hash pf) (pf_mid pf 0) auth i token now d = (pf_mid pf 0 d, Inl lost_job_lease) \<and>
    progress pf auth i p d = (pf_mid pf 1 (pf_mid pf 0 d), Inl lost_job_lease) \<and>
    complete_job pf auth i c d = (pf_mid pf 6 d, Inl lost_job_lease) \<and>
    (claim_once (pf_hash pf) (pf_mid pf 9) (pf_mid pf 10) tok a now d \<in> {(d, Inr ClaimEmpty), (pf_mid pf 9 d, Inr ClaimRaced)}) \<and>
    (\<forall>x. delivery_for_lease pf a i token now (pf_mid pf k x) = Inl lost_job_lease)"
proof (intro conjI)
  have cut: "cut_credentials a (pf_mid pf k x)" for k x
    by (rule cut_off_credentials) (rule assms(2))
  show "renew_job (pf_hash pf) (pf_mid pf 0) auth i token now d = (pf_mid pf 0 d, Inl lost_job_lease)"
    using cut_on_job [OF cut, of "renew_job_row (pf_mid pf 0 d) a i (pf_hash pf token) now"]
    by (simp add: renew_job_def assms(1) renew_job_row_def)
  show "progress pf auth i p d = (pf_mid pf 1 (pf_mid pf 0 d), Inl lost_job_lease)"
  proof -
    let ?h = "pf_hash pf (pi_leaseToken p)"
    have "on_job i (progress_job_row (pf_mid pf 0 d) a i ?h (pf_now pf 0) p) (pf_mid pf 0 d) = (pf_mid pf 0 d, None)"
      by (rule cut_on_job [OF cut, where i = i and h = ?h and now = "pf_now pf 0"]) (simp add: progress_job_row_def)
    then show ?thesis by (simp add: progress_def assms(1) Let_def cut_no_candidate [OF cut])
  qed
  show "complete_job pf auth i c d = (pf_mid pf 6 d, Inl lost_job_lease)"
    by (simp add: complete_job_def assms(1) Let_def cut_no_candidate [OF cut])
  show "claim_once (pf_hash pf) (pf_mid pf 9) (pf_mid pf 10) tok a now d \<in> {(d, Inr ClaimEmpty), (pf_mid pf 9 d, Inr ClaimRaced)}"
  proof (cases "claim_candidate a now d")
    case None
    then show ?thesis by (simp add: claim_once_def)
  next
    case (Some x)
    have "on_job (aj_id x) (claim_job_row (pf_mid pf 9 d) a h now x) (pf_mid pf 9 d) = (pf_mid pf 9 d, None)" for h
      by (rule on_job_refused) (use cut_not_active [OF cut] in \<open>auto simp: claim_job_row_def when_row_def\<close>)
    with Some show ?thesis by (simp add: claim_once_def Let_def)
  qed
  show "\<forall>x. delivery_for_lease pf a i token now (pf_mid pf k x) = Inl lost_job_lease"
    by (simp add: delivery_for_lease_def cut_no_candidate [OF cut])
qed

section \<open>The result an Agent reports\<close>

text \<open>A report the request validation accepts.\<close>

definition valid_result :: "job_result \<Rightarrow> bool" where
  "valid_result r \<longleftrightarrow> jr_state r \<in> set job_states \<and> jr_revision r \<noteq> Some [] \<and>
     (case jr_hostPort r of None \<Rightarrow> True | Some n \<Rightarrow> 1 \<le> n \<and> n \<le> 65535) \<and>
     (case jr_workloadSlot r of None \<Rightarrow> True | Some s \<Rightarrow> workload_slot_ok s)"

text \<open>
  C20: What the Agent reported is what later decisions read. A result that passed the request validation is
  read back from its stored form field by field, so the comparison of a repeated report succeeds exactly
  on the report that was stored.
\<close>

theorem agent_result_round_trip:
  assumes "valid_result r" and "\<And>r'. received = Some r' \<Longrightarrow> valid_result r'"
  shows "job_result_of (Some (result_json r)) = Some r \<and>
    (same_result (map_option result_json (Some r)) received \<longleftrightarrow> received = Some r)"
proof -
  have "job_result_of (Some (result_json r)) = Some r"
    using assms(1)
    by (cases r)
      (auto simp: job_result_of_def result_json_def opt_field_def json_string_def json_port_def json_slot_def
        valid_result_def workload_slot_ok_def split: option.splits if_splits elim: truthy.elims)
  then show ?thesis
    by (auto simp: same_result_def result_json_def split: option.splits)
qed

section \<open>Ending a directly published operation\<close>

lemma settle_operation:
  assumes "operation_by_id i d = Some x" and "op_id r = i" and "running_op x"
  shows "operation_by_id i (settle r f s p m now d) = Some (ended_operation s p m now x)"
proof -
  have "operation_by_id i (settle r f s p m now d) =
      map_option (\<lambda>y. if op_id y = op_id r \<and> running_op y then ended_operation s p m now y else y) (operation_by_id i d)"
    by (simp add: operation_by_id_def settle_def find_first_rewrite ended_operation_def)
  moreover have "op_id x = i" using assms(1) by (auto simp: operation_by_id_def dest: find_first_Some)
  ultimately show ?thesis using assms by simp
qed

lemma settle_environment:
  assumes "environment_by_id i d = Some e" and "op_environmentId r = i" and "en_activeOperationId e = Some (op_id r)"
    and "\<And>x. en_id (f x) = en_id x"
  shows "environment_by_id i (settle r f s p m now d) = Some ((f e)\<lparr>en_activeOperationId := None\<rparr>)"
proof -
  have "environment_by_id i (settle r f s p m now d) =
      map_option (\<lambda>y. if en_id y = op_environmentId r \<and> en_activeOperationId y = Some (op_id r)
        then (f y)\<lparr>en_activeOperationId := None\<rparr> else y) (environment_by_id i d)"
    by (simp add: environment_by_id_def settle_def find_first_rewrite assms(4))
  moreover have "en_id e = i" using assms(1) by (auto simp: environment_by_id_def dest: find_first_Some)
  ultimately show ?thesis using assms by simp
qed

lemma environment_ids [simp]:
  "en_id (deployed_environment r u x e) = en_id e" "en_id (started_environment u e) = en_id e"
  "en_id (stopped_environment e) = en_id e" "en_id (emptied_environment e) = en_id e"
  "en_id (broken_environment m e) = en_id e" "en_id (preserved_environment r g m e) = en_id e"
  "en_id (kept_stopped_environment g m e) = en_id e"
  by (simp_all add: deployed_environment_def started_environment_def stopped_environment_def
      emptied_environment_def broken_environment_def preserved_environment_def kept_stopped_environment_def)

lemma settle_frame [simp]:
  "agentJobs (settle r f s p m now d) = agentJobs d" "gatewayRoutes (settle r f s p m now d) = gatewayRoutes d"
  "targets (settle r f s p m now d) = targets d" "agents (settle r f s p m now d) = agents d"
  "diagnostics (settle r f s p m now d) = diagnostics d" "projects (settle r f s p m now d) = projects d"
  by (simp_all add: settle_def)

text \<open>The result the operation waits for.\<close>

definition fulfils :: "operation_row \<Rightarrow> agent_job_row \<Rightarrow> bool" where
  "fulfils r j \<longleftrightarrow> aj_status j = JbSucceeded \<and> (let res = job_result_of (aj_result j) in
     aj_kind j \<in> {''deploy'', ''start''} \<and> runs_version r res \<and> host_port res \<noteq> None \<or>
     aj_kind j = ''stop'' \<and> stopped_version r res \<or> aj_kind j = ''remove'' \<and> workload_missing res)"

text \<open>What the environment is afterwards.\<close>

definition fulfilled_environment :: "operation_row \<Rightarrow> agent_job_row \<Rightarrow> environment_row \<Rightarrow> environment_row \<Rightarrow> bool" where
  "fulfilled_environment r j e e' \<longleftrightarrow> en_activeOperationId e' = None \<and>
     (if \<not> fulfils r j then en_status e' = EsFailed \<and> en_deploymentRequired e' \<and> en_version e' = en_version e
      else if aj_kind j = ''deploy'' then en_status e' = EsRunning \<and> en_version e' = op_version r \<and>
          en_buildArtifactId e' = op_buildArtifactId r \<and> \<not> en_deploymentRequired e' \<and> en_url e' \<noteq> None
      else if aj_kind j = ''start'' then en_status e' = EsRunning \<and> en_version e' = en_version e \<and> en_url e' \<noteq> None
      else if aj_kind j = ''stop'' then en_status e' = EsStopped \<and> en_version e' = en_version e
      else en_status e' = EsEmpty \<and> en_version e' = None \<and> en_url e' = None)"

lemma reconcile_direct_settles:
  assumes "\<And>p. host_port (job_result_of (aj_result j)) = Some p \<Longrightarrow>
      \<exists>u. workload_url (pf_with_port pf) (Option.bind (target_by_id (en_targetId e) s) tg_publicUrl) p = Inr u"
    and "ended j"
  obtains f p m where
    "reconcile_direct pf now j r e s d =
       (settle r f (if fulfils r j then Succeeded else Failed) p m now d, Inr ())"
    "\<And>x. en_id (f x) = en_id x" "fulfilled_environment r j e ((f e)\<lparr>en_activeOperationId := None\<rparr>)"
proof -
  let ?res = "job_result_of (aj_result j)"
  note envs = deployed_environment_def started_environment_def stopped_environment_def emptied_environment_def
    broken_environment_def
  show thesis
  proof (cases "fulfils r j")
    case False
    then obtain p m reason where run: "reconcile_direct pf now j r e s d =
        (settle r (broken_environment reason) Failed p m now d, Inr ())"
      by (auto simp: reconcile_direct_def fulfils_def Let_def)
    show thesis
      by (rule that [of "broken_environment reason" p m])
        (use False run in \<open>simp_all add: fulfilled_environment_def broken_environment_def\<close>)
  next
    case True
    then consider (live) p where "aj_kind j \<in> {''deploy'', ''start''}" "host_port ?res = Some p"
      | (stop) "aj_kind j = ''stop''" | (remove) "aj_kind j = ''remove''"
      by (auto simp: fulfils_def Let_def)
    then show thesis
    proof cases
      case live
      with assms(1) obtain u where
        u: "workload_url (pf_with_port pf) (Option.bind (target_by_id (en_targetId e) s) tg_publicUrl) p = Inr u" by blast
      show thesis
      proof (cases "aj_kind j = ''deploy''")
        case deploy: True
        show thesis
          by (rule that [of "deployed_environment r u (expiry_of s e now)" "Result Succeeded" "aj_message j"])
            (use True live u deploy in \<open>auto simp: reconcile_direct_def fulfils_def fulfilled_environment_def envs Let_def\<close>)
      next
        case start: False
        show thesis
          by (rule that [of "started_environment u" "Result Succeeded" "aj_message j"])
            (use True live u start in \<open>auto simp: reconcile_direct_def finish_lifecycle_def fulfils_def fulfilled_environment_def envs Let_def\<close>)
      qed
    next
      case stop
      show thesis
        by (rule that [of stopped_environment "Result Succeeded" "aj_message j"])
          (use True stop in \<open>auto simp: reconcile_direct_def finish_lifecycle_def fulfils_def fulfilled_environment_def envs Let_def\<close>)
    next
      case remove
      show thesis
        by (rule that [of emptied_environment "Result Succeeded" "aj_message j"])
          (use True remove in \<open>auto simp: reconcile_direct_def finish_lifecycle_def fulfils_def fulfilled_environment_def envs Let_def\<close>)
    qed
  qed
qed

lemma reconcile_terminal_direct:
  assumes "agent_job_by_id i d = Some j" and "aj_operationId j = Some (op_id r)" and "operation_by_id (op_id r) d = Some r"
    and "running_op r" and "ended j" and "environment_by_id (op_environmentId r) d = Some e"
    and "map_option tg_routingMode (target_by_id (en_targetId e) d) \<noteq> Some ManagedGateway" and "pf_mid pf 0 d = d"
    and "reconcile_direct pf now j r e d d = (d1, Inr ())"
  shows "\<exists>d'. reconcile_terminal (Suc n) pf now i d = (d', Inr ()) \<and> only_audit d1 d'"
proof -
  have "reconcile_projection again pf now i d = (d1, Inr ())" for again
    using assms by (auto simp: reconcile_projection_def Let_def)
  then show ?thesis
    by (auto simp: record_safely_def only_audit_deployment_result split: option.splits)
qed

lemma reconcile_finished:
  assumes "agent_job_by_id i d = Some j" and "aj_operationId j = Some o'" and "operation_by_id o' d = Some r"
    and "\<not> running_op r"
  shows "\<exists>d'. reconcile_terminal (Suc n) pf now i d = (d', Inr ()) \<and> only_audit d d'"
proof -
  have "reconcile_projection again pf now i d = (d, Inr ())" for again
    using assms by (simp add: reconcile_projection_def)
  with assms show ?thesis by (simp add: record_safely_def only_audit_deployment_result)
qed

lemma only_audit_lookups:
  assumes "only_audit d d'"
  shows "operation_by_id i d' = operation_by_id i d" "environment_by_id i d' = environment_by_id i d"
    "agent_job_by_id i d' = agent_job_by_id i d" "target_by_id x d' = target_by_id x d"
  using only_audit_frame [OF assms] by (simp_all add: lookup_defs)

text \<open>
  The end of a job is the end of its operation. When the job of a running operation on a directly
  published target has ended (and the target has an address), reconciling it finishes the operation and
  releases its environment in one step: as a success exactly when the Agent reported what the operation
  asked for, the revision included, and otherwise as a failure that keeps the recorded version. Reconciling
  it again, at any time and by any replica, changes nothing but the audit log.
\<close>

theorem direct_operation_ends_with_its_job:
  assumes "agent_job_by_id i d = Some j" and "aj_operationId j = Some (op_id r)" and "operation_by_id (op_id r) d = Some r"
    and "running_op r" and "ended j" and "environment_by_id (op_environmentId r) d = Some e"
    and "en_activeOperationId e = Some (op_id r)"
    and "map_option tg_routingMode (target_by_id (en_targetId e) d) \<noteq> Some ManagedGateway" and "pf_mid pf 0 d = d"
    and "\<And>p. host_port (job_result_of (aj_result j)) = Some p \<Longrightarrow>
      \<exists>u. workload_url (pf_with_port pf) (Option.bind (target_by_id (en_targetId e) d) tg_publicUrl) p = Inr u"
  shows "\<exists>d' r' e'. reconcile_terminal (Suc n) pf now i d = (d', Inr ()) \<and>
    operation_by_id (op_id r) d' = Some r' \<and> op_finishedAt r' = Some now \<and>
    op_status r' = OpResult (if fulfils r j then Succeeded else Failed) \<and>
    environment_by_id (op_environmentId r) d' = Some e' \<and> fulfilled_environment r j e e' \<and>
    (\<forall>m pf' now'. \<exists>d''. reconcile_terminal (Suc m) pf' now' i d' = (d'', Inr ()) \<and> only_audit d' d'')"
proof -
  from reconcile_direct_settles [OF assms(10,5), where now = now and r = r and d = d]
  obtain f p m where run: "reconcile_direct pf now j r e d d =
      (settle r f (if fulfils r j then Succeeded else Failed) p m now d, Inr ())"
    and f: "\<And>x. en_id (f x) = en_id x" and e': "fulfilled_environment r j e ((f e)\<lparr>en_activeOperationId := None\<rparr>)"
    by metis
  let ?d1 = "settle r f (if fulfils r j then Succeeded else Failed) p m now d"
  from reconcile_terminal_direct [OF assms(1-6,8,9) run]
  obtain d' where d': "reconcile_terminal (Suc n) pf now i d = (d', Inr ())" "only_audit ?d1 d'" by metis
  note same = only_audit_lookups [OF d'(2)]
  let ?r = "ended_operation (if fulfils r j then Succeeded else Failed) p m now r"
  have r': "operation_by_id (op_id r) d' = Some ?r"
    unfolding same by (rule settle_operation [OF assms(3) refl assms(4)])
  have env: "environment_by_id (op_environmentId r) d' = Some ((f e)\<lparr>en_activeOperationId := None\<rparr>)"
    unfolding same by (rule settle_environment [OF assms(6) refl assms(7) f])
  have "agent_job_by_id i d' = Some j" using assms(1) same(3) by (simp add: agent_job_by_id_def)
  then have "\<exists>d''. reconcile_terminal (Suc m) pf' now' i d' = (d'', Inr ()) \<and> only_audit d' d''" for m pf' now'
    by (rule reconcile_finished [OF _ assms(2) r']) (simp add: running_op_def ended_operation_def)
  with d'(1) r' env e' show ?thesis by (auto simp: ended_operation_def)
qed

section \<open>What reconciling leaves alone\<close>

text \<open>
  A relation between databases that the writes of a reconciliation respect: anything outside of jobs,
  Agents and targets, statements on jobs, and new jobs. \<open>quiet_under\<close>: what others commit respects it too.
\<close>

definition quiet_under :: "(db \<Rightarrow> db \<Rightarrow> bool) \<Rightarrow> platform \<Rightarrow> bool" where
  "quiet_under R pf \<longleftrightarrow> (\<forall>k x. R x (pf_mid pf k x))"

lemma job_grows_refl [simp]: "job_grows j j"
  by (simp add: job_grows_def)

lemma workflow_cancelled_grows: "waiting_step r j \<Longrightarrow> job_grows j (workflow_cancelled now j)"
  using job_step_grows [OF job_step.cancel [OF cancels_intros(3)]] by (simp add: waiting_step_def)

lemma cleanup_released_grows: "step_of r 2 j \<and> aj_status j = JbBlocked \<Longrightarrow> job_grows j (cleanup_released j)"
  using job_step_grows [OF job_step.release] by simp

lemma superseded_grows: "aj_gatewayRouteId j = x \<and> aj_status j = JbQueued \<Longrightarrow> job_grows j (superseded_job now j)"
  using job_step_grows [OF job_step.cancel [OF cancels_intros(2)]] by simp

lemma publish_frame [simp]:
  "agentJobs (publish_managed_progress r m d) = agentJobs d" "agents (publish_managed_progress r m d) = agents d"
  "targets (publish_managed_progress r m d) = targets d"
  by (simp_all add: publish_managed_progress_def)

locale reconcile_frame =
  fixes R :: "db \<Rightarrow> db \<Rightarrow> bool"
  assumes R_refl: "R d d"
    and R_trans: "R d d' \<Longrightarrow> R d' d'' \<Longrightarrow> R d d''"
    and R_frame: "agentJobs d' = agentJobs d \<Longrightarrow> agents d' = agents d \<Longrightarrow> targets d' = targets d \<Longrightarrow> R d d'"
    and R_jobs: "(\<And>j. p j \<Longrightarrow> job_grows j (f j)) \<Longrightarrow> R d (d\<lparr>agentJobs := rewrite p f (agentJobs d)\<rparr>)"
    and R_new: "R d (d\<lparr>agentJobs := create j (agentJobs d)\<rparr>)"
begin

lemma R_then: "R d x \<Longrightarrow> agentJobs d' = agentJobs x \<Longrightarrow> agents d' = agents x \<Longrightarrow> targets d' = targets x \<Longrightarrow> R d d'"
  by (rule R_trans [OF _ R_frame])

lemma quietD: "quiet_under R pf \<Longrightarrow> R x (pf_mid pf k x)"
  by (simp add: quiet_under_def)

lemma R_fail_managed: "R d (fail_managed now r e g reason rb d)"
  by (rule R_then [OF R_jobs [where p = "waiting_step r" and f = "workflow_cancelled now"]])
    (simp_all add: workflow_cancelled_grows fail_managed_def Let_def)

lemma R_reconcile_route:
  assumes "\<And>x. R x (mid x)"
  shows "R d (reconcile_gateway_route mid now i d)"
proof -
  have "R d (mid d\<lparr>gatewayRoutes := g\<rparr>)" for g by (rule R_then [OF assms]) simp_all
  then show ?thesis by (auto simp: reconcile_gateway_route_def Let_def R_refl split: option.splits)
qed

lemma R_queue_tx: "R d (fst (queue_tx i corr now g t a e q d))"
proof -
  let ?p = "\<lambda>j. aj_gatewayRouteId j = Some (gr_id g) \<and> aj_status j = JbQueued"
  have "R d (d\<lparr>agentJobs := create j (rewrite ?p (superseded_job now) (agentJobs d)), gatewayRoutes := gs\<rparr>)" for j gs
  proof (rule R_then)
    show "R d ((d\<lparr>agentJobs := rewrite ?p (superseded_job now) (agentJobs d)\<rparr>)\<lparr>agentJobs :=
        create j (agentJobs (d\<lparr>agentJobs := rewrite ?p (superseded_job now) (agentJobs d)\<rparr>))\<rparr>)"
      by (rule R_trans [OF R_jobs R_new]) (rule superseded_grows, assumption)
  qed simp_all
  then show ?thesis by (auto simp: queue_tx_def Let_def R_refl split: option.splits)
qed

lemma R_reserve:
  assumes "\<And>x. R x (mid x)"
  shows "R d (fst (reserve sha256 parse is_ip mid i envId d))"
proof -
  have "R d d2" if "create_route g (mid d) = Some d2" for g d2
    by (rule R_then [OF assms]) (use that in \<open>auto simp: create_route_def split: if_splits\<close>)
  with assms show ?thesis
    by (auto simp: reserve_def Let_def R_refl split: option.splits sum.splits)
qed

lemma R_queue_reconcile:
  assumes "\<And>x. R x (mid x)" and "\<And>x. R x (mid' x)"
  shows "R d (fst (queue_reconcile sha256 parse is_ip mid mid' newRoute newJob corr now envId q d))"
proof (cases "reserve sha256 parse is_ip mid newRoute envId d")
  case (Pair d1 res)
  have one: "R d d1" using R_reserve [OF assms(1)] Pair by (metis fst_conv)
  have two: "R d d2" if "queue_tx newJob corr now g t a e q (mid' d1) = (d2, r)" for g t a e d2 r
    using R_trans [OF one R_trans [OF assms(2) R_queue_tx]] that by (metis fst_conv)
  show ?thesis
    using one two
    by (auto simp: queue_reconcile_def Pair Let_def R_refl split: sum.splits option.splits prod.splits http_error.splits)
qed

lemma R_teardown:
  assumes "\<And>i x. R x (fst (again i x))"
  shows "R d (fst (managed_teardown again now r e g j d))"
proof -
  have "R d (publish_managed_progress r m
      (d\<lparr>agentJobs := rewrite (\<lambda>x. step_of r 2 x \<and> aj_status x = JbBlocked) cleanup_released (agentJobs d)\<rparr>))" for m
    by (rule R_then [OF R_jobs]) (rule cleanup_released_grows, assumption, simp_all)
  then show ?thesis using assms
    by (auto simp: managed_teardown_def update_many_def R_fail_managed R_refl split: option.splits)
qed

lemma R_activation:
  assumes "\<And>i x. R x (fst (again i x))" and "quiet_under R pf"
  shows "R d (fst (managed_activation again pf now r e g j d))"
proof (cases "activation_request r (job_result_of (aj_result j)) j")
  case None
  then show ?thesis by (simp add: managed_activation_def R_fail_managed)
next
  case (Some q)
  obtain d1 res where queued: "queue_reconcile (pf_sha256 pf) (pf_parse pf) (pf_is_ip pf) (pf_mid pf 1) (pf_mid pf 2)
      (pf_id pf 0) (pf_id pf 1) (pf_id pf 2) now (op_environmentId r) q d = (d1, res)" by fastforce
  have "R d (fst (queue_reconcile (pf_sha256 pf) (pf_parse pf) (pf_is_ip pf) (pf_mid pf 1) (pf_mid pf 2)
      (pf_id pf 0) (pf_id pf 1) (pf_id pf 2) now (op_environmentId r) q d))"
    by (rule R_queue_reconcile) (rule quietD [OF assms(2)])+
  with queued have one: "R d d1" by simp
  have two: "R d (publish_managed_progress r m d1)" for m
    by (rule R_then [OF one]) simp_all
  have three: "R d x" if "again i (reconcile_gateway_route (pf_mid pf 3) now i' (publish_managed_progress r m d1)) = (x, y)"
    for i i' m x y
  proof -
    have "R d (fst (again i (reconcile_gateway_route (pf_mid pf 3) now i' (publish_managed_progress r m d1))))"
      by (rule R_trans [OF R_trans [OF two R_reconcile_route [OF quietD [OF assms(2)]]] assms(1)])
    with that show ?thesis by simp
  qed
  have fail: "R d (fail_managed now r e g m rb x)" if "R d x" for m rb x
    by (rule R_trans [OF that R_fail_managed])
  show ?thesis
  proof (cases res)
    case (Inl err)
    with fail [OF one] show ?thesis by (simp add: managed_activation_def Some queued del: One_nat_def)
  next
    case (Inr rj)
    with two three fail show ?thesis
      by (auto simp: managed_activation_def Some queued Let_def simp del: One_nat_def split: sum.splits prod.splits)
  qed
qed

lemma R_settle: "R d (settle r f s p m now d)"
  by (rule R_frame) simp_all

lemma R_managed:
  assumes "\<And>i x. R x (fst (again i x))" and "quiet_under R pf"
  shows "R d (fst (reconcile_managed again pf now j r e g s d))"
  using R_teardown [OF assms(1)] R_activation [OF assms]
  by (simp add: reconcile_managed_def Let_def R_fail_managed managed_workload_gone_def managed_published_def
      finish_lifecycle_def R_settle split: option.split)

lemma R_direct: "R d (fst (reconcile_direct pf now j r e s d))"
  by (auto simp: reconcile_direct_def Let_def finish_lifecycle_def R_settle R_refl split: sum.splits)

lemma R_projection:
  assumes "\<And>i x. R x (fst (again i x))" and "quiet_under R pf"
  shows "R s (fst (reconcile_projection again pf now i s))"
  using R_trans [OF quietD [OF assms(2)] R_managed [OF assms]] R_trans [OF quietD [OF assms(2)] R_direct]
  by (auto simp: reconcile_projection_def Let_def R_refl split: option.splits)

lemma R_audit: "R x (record_safely (record_deployment_result down o') x)"
  by (rule R_frame) (simp_all add: record_safely_def only_audit_frame [OF only_audit_deployment_result])

lemma R_terminal:
  assumes "quiet_under R pf"
  shows "R d (fst (reconcile_terminal n pf now i d))"
proof (induction n arbitrary: i d)
  case 0
  then show ?case by (simp add: R_refl)
next
  case (Suc n)
  from R_projection [OF Suc.IH assms]
  have one: "R d (fst (reconcile_projection (reconcile_terminal n pf now) pf now i d))" .
  then show ?case
    by (auto intro: R_trans [OF _ R_audit] split: prod.splits sum.splits option.splits)
qed

end

text \<open>Every job is still there, changed by statements only.\<close>

definition jobs_extend :: "db \<Rightarrow> db \<Rightarrow> bool" where
  "jobs_extend d d' \<longleftrightarrow> (\<forall>i j. agent_job_by_id i d = Some j \<longrightarrow>
     (\<exists>j'. agent_job_by_id i d' = Some j' \<and> job_grows j j'))"

text \<open>Agents and targets are as they were.\<close>

definition same_hosts :: "db \<Rightarrow> db \<Rightarrow> bool" where
  "same_hosts d d' \<longleftrightarrow> agents d' = agents d \<and> targets d' = targets d"

interpretation je: reconcile_frame jobs_extend
proof
  show "jobs_extend d d" for d by (auto simp: jobs_extend_def)
  show "jobs_extend d d''" if "jobs_extend d d'" "jobs_extend d' d''" for d d' d''
    using that unfolding jobs_extend_def by (meson job_grows_trans)
  show "jobs_extend d d'" if "agentJobs d' = agentJobs d" for d d'
    using that by (auto simp: jobs_extend_def agent_job_by_id_def)
  show "jobs_extend d (d\<lparr>agentJobs := create j (agentJobs d)\<rparr>)" for d j
    by (auto simp: jobs_extend_def agent_job_by_id_def find_first_create)
  show "jobs_extend d (d\<lparr>agentJobs := rewrite p f (agentJobs d)\<rparr>)" if "\<And>j. p j \<Longrightarrow> job_grows j (f j)" for p f d
  proof -
    have "agent_job_by_id i (d\<lparr>agentJobs := rewrite p f (agentJobs d)\<rparr>) =
        map_option (\<lambda>j. if p j then f j else j) (agent_job_by_id i d)" for i
      using that by (auto simp: agent_job_by_id_def job_grows_def intro: find_first_rewrite)
    with that show ?thesis by (auto simp: jobs_extend_def)
  qed
qed

interpretation sh: reconcile_frame same_hosts
  by unfold_locales (simp_all add: same_hosts_def)

lemma jobs_extend_ended: "jobs_extend d d' \<Longrightarrow> agent_job_by_id k d = Some x \<Longrightarrow> \<not> open_job x \<Longrightarrow> agent_job_by_id k d' = Some x"
  by (fastforce simp: jobs_extend_def job_grows_def)

text \<open>
  Nothing the control plane concludes from a job rewrites a job that has ended. Reconciling any job,
  direct or through a gateway workflow, keeps every succeeded, failed or cancelled job exactly as it is,
  as long as other requests change jobs by statements only.
\<close>

theorem reconciling_keeps_ended_jobs:
  assumes "quiet_under jobs_extend pf" and "agent_job_by_id k d = Some x" and "\<not> open_job x"
  shows "agent_job_by_id k (fst (reconcile_terminal n pf now i d)) = Some x"
  by (rule jobs_extend_ended [OF je.R_terminal [OF assms(1)] assms(2,3)])

section \<open>Repeated completions\<close>

text \<open>The same Agents on the same targets, whatever else changed in the rows of the targets.\<close>

definition host_ids :: "db \<Rightarrow> db \<Rightarrow> bool" where
  "host_ids d d' \<longleftrightarrow> agents d' = agents d \<and>
     (\<forall>x. map_option tg_id (target_by_id x d') = map_option tg_id (target_by_id x d))"

lemma host_ids_trans: "host_ids d d' \<Longrightarrow> host_ids d' d'' \<Longrightarrow> host_ids d d''"
  by (simp add: host_ids_def)

lemma same_hosts_ids: "same_hosts d d' \<Longrightarrow> host_ids d d'"
  by (simp add: same_hosts_def host_ids_def target_by_id_def)

lemma host_ids_rewrite:
  assumes "\<And>t. tg_id (f t) = tg_id t" and "agents d' = agents d" and "targets d' = rewrite p f (targets d)"
  shows "host_ids d d'"
proof -
  have "map_option tg_id (find_first (\<lambda>t. tg_id t = i) (rewrite p f (targets d))) =
      map_option tg_id (find_first (\<lambda>t. tg_id t = i) (targets d))" for i
    by (subst find_first_rewrite) (auto simp: assms(1) option.map_comp comp_def split: option.splits intro!: map_option_cong)
  then have "map_option tg_id (target_by_id x d') = map_option tg_id (target_by_id x d)" for x
    by (cases x) (simp_all add: target_by_id_def assms(3))
  with assms(2) show ?thesis by (simp add: host_ids_def)
qed

lemma host_ids_refl [simp]: "host_ids d d"
  by (simp add: host_ids_def)

lemma host_ids_credential:
  assumes "host_ids d d'"
  shows "active_credential a d' j = active_credential a d j"
proof -
  have ids: "map_option tg_id (target_by_id (Some (aj_targetId j)) d') = map_option tg_id (target_by_id (Some (aj_targetId j)) d)"
    and ag: "agent_of_target k d' = agent_of_target k d" for k
    using assms by (simp_all add: host_ids_def agent_of_target_def)
  from ids show ?thesis
    by (cases "target_by_id (Some (aj_targetId j)) d"; cases "target_by_id (Some (aj_targetId j)) d'")
      (simp_all add: active_credential_def ag)
qed

lemma host_ids_bound: "host_ids d d' \<Longrightarrow> bound_lease a i h d' j = bound_lease a i h d j"
  by (simp add: bound_lease_def host_ids_credential)

lemma bound_lease_target [simp]:
  "bound_lease (a\<lparr>aa_target := t\<rparr>) i h d = bound_lease a i h d"
  "active_lease (a\<lparr>aa_target := t\<rparr>) i h now d = active_lease a i h now d"
  by (simp_all add: fun_eq_iff active_lease_def bound_lease_def active_credential_def cong: option.case_cong)

lemma authenticate_again:
  "authenticate_credential hash auth d = Inr a \<Longrightarrow> agents d' = agents d \<Longrightarrow>
     \<exists>t. authenticate_credential hash auth d' = Inr (a\<lparr>aa_target := t\<rparr>)"
  by (auto simp: authenticate_credential_def Let_def split: option.splits if_splits)

lemma find_first_stronger:
  "find_first p t = Some x \<Longrightarrow> q x \<Longrightarrow> (\<And>y. q y \<Longrightarrow> p y) \<Longrightarrow> find_first q t = Some x"
  by (induction t) (auto split: if_splits)

lemma after_completion_quiet:
  assumes "\<And>k x. pf_mid pf k x = x"
  shows "jobs_extend d (fst (after_completion pf now i d)) \<and> host_ids d (fst (after_completion pf now i d))"
proof -
  let ?p = "reconcile_gateway_preflight (pf_mid pf 4) now i d"
  let ?r = "reconcile_gateway_route (pf_mid pf 5) now i ?p"
  have "quiet_under jobs_extend pf" "quiet_under same_hosts pf"
    using je.R_refl sh.R_refl by (simp_all add: quiet_under_def assms)
  moreover have "jobs_extend d ?p"
    by (auto simp: reconcile_gateway_preflight_def Let_def assms jobs_extend_def agent_job_by_id_def split: option.splits)
  moreover have "host_ids x (x\<lparr>targets := rewrite p (preflight_observed j now) (targets x)\<rparr>)" for x p j
    by (rule host_ids_rewrite [where f = "preflight_observed j now" and p = p]) (simp_all add: preflight_observed_def)
  then have "host_ids d ?p"
    by (simp add: reconcile_gateway_preflight_def Let_def assms split: option.splits)
  moreover have "jobs_extend ?p ?r" "same_hosts ?p ?r"
    by (rule je.R_reconcile_route sh.R_reconcile_route, simp add: assms je.R_refl sh.R_refl)+
  ultimately show ?thesis
    unfolding after_completion_def
    by (meson host_ids_trans je.R_terminal je.R_trans same_hosts_ids sh.R_terminal)
qed

lemma complete_tx_Some:
  assumes "complete_tx a i h now kind c d = (d1, Some j)"
  shows "\<exists>x. agent_job_by_id i d = Some x \<and> active_lease a i h now d x \<and> j = completed_job c now x \<and>
    agent_job_by_id i d1 = Some j \<and> host_ids d d1"
proof -
  obtain D where D: "on_job i (complete_job_row d a i h now c) d = (D, Some j)"
    and d1: "agentJobs d1 = agentJobs D" "agents d1 = agents D"
      "targets d1 = targets D \<or> targets d1 = rewrite (\<lambda>t. tg_preflightJobId t = Some i)
         (\<lambda>t. t\<lparr>tg_gatewayCaSha256 := ci_gatewayCaSha256 c\<rparr>) (targets D)"
    using assms by (auto simp: complete_tx_def split: prod.splits option.splits if_splits)
  have "D = fst (on_job i (complete_job_row d a i h now c) d)" using D by simp
  then have same: "agents D = agents d" "targets D = targets d" by simp_all
  from D obtain x where x: "find_first (\<lambda>y. aj_id y = i) (agentJobs d) = Some x" "active_lease a i h now d x"
      "j = completed_job c now x" and js: "agentJobs D = rewrite (\<lambda>y. aj_id y = i) (\<lambda>_. j) (agentJobs d)"
    by (auto simp: on_job_def complete_job_row_def update_row_def split: option.splits prod.splits if_splits)
  have "aj_id x = i" using x(1) by (auto dest: find_first_Some)
  then have "agent_job_by_id i d1 = Some j"
    using x js d1(1) find_first_rewrite [of "\<lambda>y. aj_id y = i" "\<lambda>y. aj_id y = i" "\<lambda>_. j" "agentJobs d"]
    by (simp add: agent_job_by_id_def completed_job_def)
  moreover have "host_ids d d1"
    using d1(3)
  proof
    assume "targets d1 = targets D"
    then show ?thesis using d1(2) same by (simp add: host_ids_def target_by_id_def)
  next
    assume "targets d1 = rewrite (\<lambda>t. tg_preflightJobId t = Some i)
         (\<lambda>t. t\<lparr>tg_gatewayCaSha256 := ci_gatewayCaSha256 c\<rparr>) (targets D)"
    then show ?thesis using d1(2) same by (intro host_ids_rewrite) simp_all
  qed
  ultimately show ?thesis using x by (auto simp: agent_job_by_id_def)
qed

lemma complete_tx_None: "complete_tx a i h now kind c d = (d1, None) \<Longrightarrow> d1 = d"
  by (auto simp: complete_tx_def on_job_def update_row_def split: prod.splits option.splits)

lemma record_agent_job_result_frame: "only_audit d (fst (record_agent_job_result down i d))"
  by (auto simp: record_agent_job_result_def only_audit_terminal split: option.splits)

lemma audit_update_frame:
  assumes "audit_update pf i j d = (d', r)"
  shows "agents d' = agents d \<and> targets d' = targets d \<and> agentJobs d' = agentJobs d"
proof -
  have "only_audit d d'"
    using assms record_agent_job_result_frame [of d "pf_down pf" i]
    by (auto simp: audit_update_def split: if_splits)
  from only_audit_frame [OF this] show ?thesis by simp
qed

lemma bound_job:
  assumes "keyed aj_id (agentJobs d)" and "find_first (bound_lease a i h d) (agentJobs d) = Some b"
  shows "agent_job_by_id i d = Some b \<and> bound_lease a i h d b"
proof -
  from find_first_Some [OF assms(2)] have b: "b \<in> set (agentJobs d)" "bound_lease a i h d b" by auto
  then have i: "aj_id b = i" by (simp add: bound_lease_def)
  show ?thesis
    unfolding agent_job_by_id_def using find_first_key [OF assms(1) b(1), unfolded i] b(2) by (rule conjI)
qed

lemma bound_job_found: "agent_job_by_id i d = Some b \<Longrightarrow> bound_lease a i h d b \<Longrightarrow>
    find_first (bound_lease a i h d) (agentJobs d) = Some b"
  unfolding agent_job_by_id_def by (erule find_first_stronger) (auto simp: bound_lease_def)

text \<open>What holds of the job after an accepted completion.\<close>

definition settled_job :: "auth_agent \<Rightarrow> string \<Rightarrow> string \<Rightarrow> complete_input \<Rightarrow> db \<Rightarrow> agent_job_row \<Rightarrow> bool" where
  "settled_job a i h c d j \<longleftrightarrow> agent_job_by_id i d = Some j \<and> bound_lease a i h d j \<and>
     aj_status j = completion_status (ci_status c) \<and> completion_error (aj_kind j) c = None \<and>
     (aj_kind j = ''logs'' \<or> replays (aj_kind j) c d j)"

lemma completion_status_closed: "aj_status j = completion_status s \<Longrightarrow> \<not> open_job j"
  by (cases s) (auto simp: open_job_def)

lemma settled_job_kept:
  assumes "settled_job a i h c d j" and "jobs_extend d d'" and "host_ids d d'"
  shows "settled_job a i h c d' j"
proof -
  have "\<not> open_job j" using assms(1) completion_status_closed by (auto simp: settled_job_def)
  then have "agent_job_by_id i d' = Some j"
    using assms(1,2) jobs_extend_ended by (auto simp: settled_job_def)
  with assms(1) host_ids_bound [OF assms(3)] show ?thesis
    by (auto simp: settled_job_def replays_def)
qed

lemma completed_is_settled:
  assumes "complete_tx a i h now kind c d = (d1, Some j)" and "keyed aj_id (agentJobs d)"
    and "find_first (bound_lease a i h d) (agentJobs d) = Some b" and "completion_error (aj_kind b) c = None"
    and "\<And>r. ci_result c = Some r \<Longrightarrow> job_result_of (Some (result_json r)) = Some r"
  shows "settled_job a i h c d1 j"
proof -
  from complete_tx_Some [OF assms(1)] obtain x where x: "agent_job_by_id i d = Some x" "active_lease a i h now d x"
    "j = completed_job c now x" "agent_job_by_id i d1 = Some j" "host_ids d d1" by blast
  from bound_job [OF assms(2,3)] x(1) have "b = x" by simp
  have "bound_lease a i h d j"
  proof -
    have "aj_targetId j = aj_targetId x" by (simp add: x(3) completed_job_def)
    from active_credential_job [OF this] x(2) show ?thesis
      by (simp add: active_lease_def bound_lease_def x(3) completed_job_def)
  qed
  with host_ids_bound [OF x(5)] have "bound_lease a i h d1 j" by simp
  moreover have "same_result (aj_result j) (ci_result c)"
    using assms(5) x(3) by (auto simp: completed_job_def same_result_def split: option.splits)
  ultimately show ?thesis
    using assms(4) x \<open>b = x\<close> by (simp add: settled_job_def replays_def completed_job_def)
qed

lemma complete_job_settles:
  assumes "complete_job pf auth i c d = (d', Inr j)" and "\<And>k x. pf_mid pf k x = x"
    and "keyed aj_id (agentJobs d)" and "\<And>r. ci_result c = Some r \<Longrightarrow> job_result_of (Some (result_json r)) = Some r"
  shows "\<exists>a. authenticate_credential (pf_hash pf) auth d = Inr a \<and> agents d' = agents d \<and>
    settled_job a i (pf_hash pf (ci_leaseToken c)) c d' j"
proof -
  let ?h = "pf_hash pf (ci_leaseToken c)" and ?now = "pf_now pf 0"
  from assms(1) obtain a b where a: "authenticate_credential (pf_hash pf) auth d = Inr a"
    and b: "find_first (bound_lease a i ?h d) (agentJobs d) = Some b" "completion_error (aj_kind b) c = None"
    by (auto simp: complete_job_def assms(2) Let_def split: sum.splits option.splits)
  have "\<exists>d1 d2 x. settled_job a i ?h c d1 x \<and> agents d1 = agents d \<and> after_completion pf ?now i d1 = (d2, Inr ()) \<and>
      (\<exists>y. agent_job_by_id i d2 = Some y \<and> audit_update pf i y d2 = (d', Inr ()) \<and> j = y)"
  proof (cases "complete_tx a i ?h ?now (aj_kind b) c d")
    case (Pair d1 r)
    show ?thesis
    proof (cases r)
      case None
      with Pair complete_tx_None have "d1 = d" by blast
      with assms(1) a b Pair None obtain d2 where d2: "replays (aj_kind b) c d b" "j = b"
        "after_completion pf ?now i d = (d2, Inr ())" "audit_update pf i b d2 = (d', Inr ())"
        by (auto simp: complete_job_def assms(2) Let_def split: sum.splits prod.splits if_splits)
      have s: "settled_job a i ?h c d b"
        using bound_job [OF assms(3) b(1)] b(2) d2(1) by (simp add: settled_job_def replays_def)
      moreover have "agent_job_by_id i d2 = Some b"
        using after_completion_quiet [OF assms(2), of d ?now i] d2(3) settled_job_kept [OF s, of d2]
        by (simp add: settled_job_def)
      ultimately show ?thesis using d2 by blast
    next
      case (Some x)
      with assms(1) a b Pair obtain d2 y where "after_completion pf ?now i d1 = (d2, Inr ())"
        "agent_job_by_id i d2 = Some y" "audit_update pf i y d2 = (d', Inr ())" "j = y"
        by (auto simp: complete_job_def assms(2) Let_def split: sum.splits prod.splits if_splits option.splits)
      moreover have "settled_job a i ?h c d1 x"
        using completed_is_settled [OF Pair [unfolded Some] assms(3) b assms(4)] .
      moreover have "agents d1 = agents d"
        using complete_tx_Some [OF Pair [unfolded Some]] by (auto simp: host_ids_def)
      ultimately show ?thesis by blast
    qed
  qed
  then obtain d1 d2 x where s: "settled_job a i ?h c d1 x" "agents d1 = agents d" "after_completion pf ?now i d1 = (d2, Inr ())"
    "agent_job_by_id i d2 = Some j" "audit_update pf i j d2 = (d', Inr ())" by blast
  have q: "jobs_extend d1 d2" "host_ids d1 d2"
    using after_completion_quiet [OF assms(2), of d1 ?now i] s(3) by simp_all
  from settled_job_kept [OF s(1) q] s(4) have "settled_job a i ?h c d2 j" by (auto simp: settled_job_def)
  moreover note frame = audit_update_frame [OF s(5)]
  have "jobs_extend d2 d'" "host_ids d2 d'"
    using frame je.R_frame sh.R_frame same_hosts_ids by blast+
  ultimately have "settled_job a i ?h c d' j" by (rule settled_job_kept)
  moreover have "agents d' = agents d" using frame q(2) s(2) by (simp add: host_ids_def)
  ultimately show ?thesis using a by blast
qed

text \<open>
  Completing a job is safe to repeat. After a completion was accepted (without interference), the same
  report of the same Agent is never answered with a lost lease and never changes the job: it passes the
  checks of its lease, finds the job as it left it and only runs the projections again, at whatever time
  and with whatever new ids.
\<close>

theorem completion_is_repeatable:
  assumes "complete_job pf auth i c d = (d', Inr j)" and "\<And>k x. pf_mid pf k x = x"
    and "keyed aj_id (agentJobs d)" and "\<And>r. ci_result c = Some r \<Longrightarrow> valid_result r" and "aj_kind j \<noteq> ''logs''"
    and "\<And>k x. pf_mid pf' k x = x" and "pf_hash pf' = pf_hash pf"
  shows "\<exists>d'' r. complete_job pf' auth i c d' = (d'', r) \<and> agent_job_by_id i d'' = Some j \<and>
    (case after_completion pf' (pf_now pf' 0) i d' of
       (_, Inl e) \<Rightarrow> r = Inl e
     | (d3, Inr _) \<Rightarrow> (case snd (audit_update pf' i j d3) of Inl e \<Rightarrow> r = Inl e | Inr _ \<Rightarrow> r = Inr j))"
proof -
  have rt: "job_result_of (Some (result_json r)) = Some r" if "ci_result c = Some r" for r
    using assms(4) [OF that]
    by (cases r)
      (auto simp: job_result_of_def result_json_def opt_field_def json_string_def json_port_def json_slot_def
        valid_result_def workload_slot_ok_def split: option.splits if_splits elim: truthy.elims)
  from complete_job_settles [OF assms(1-3) rt] obtain a where
    a: "authenticate_credential (pf_hash pf) auth d = Inr a" "agents d' = agents d"
    and s: "settled_job a i (pf_hash pf (ci_leaseToken c)) c d' j" by blast
  let ?h = "pf_hash pf (ci_leaseToken c)"
  from authenticate_again [OF a] obtain t where
    auth: "authenticate_credential (pf_hash pf') auth d' = Inr (a\<lparr>aa_target := t\<rparr>)" unfolding assms(7) by blast
  have found: "find_first (bound_lease a i ?h d') (agentJobs d') = Some j"
    using s bound_job_found by (simp add: settled_job_def)
  have "complete_tx (a\<lparr>aa_target := t\<rparr>) i ?h now (aj_kind j) c d' = (d', None)" for now
  proof (cases "complete_tx (a\<lparr>aa_target := t\<rparr>) i ?h now (aj_kind j) c d'")
    case (Pair x r)
    show ?thesis
    proof (cases r)
      case None
      with Pair complete_tx_None show ?thesis by blast
    next
      case (Some y)
      from complete_tx_Some [OF Pair [unfolded Some]] s have False
        by (cases "ci_status c") (auto simp: settled_job_def active_lease_def)
      then show ?thesis ..
    qed
  qed
  then have run: "complete_job pf' auth i c d' = (case after_completion pf' (pf_now pf' 0) i d' of
      (d3, Inl e) \<Rightarrow> (d3, Inl e)
    | (d3, Inr _) \<Rightarrow> (case audit_update pf' i j d3 of (d4, Inl e) \<Rightarrow> (d4, Inl e) | (d4, Inr _) \<Rightarrow> (d4, Inr j)))"
    using s assms(5,6) found by (simp add: complete_job_def auth [unfolded assms(7)] assms(7) Let_def settled_job_def)
  obtain d3 r3 where d3: "after_completion pf' (pf_now pf' 0) i d' = (d3, r3)" by fastforce
  have "settled_job a i ?h c d3 j"
    using settled_job_kept [OF s] after_completion_quiet [OF assms(6), of d' "pf_now pf' 0" i] d3 by simp
  then have j3: "agent_job_by_id i d3 = Some j" by (simp add: settled_job_def)
  obtain d4 r4 where d4: "audit_update pf' i j d3 = (d4, r4)" by fastforce
  from audit_update_frame [OF this] j3 have "agent_job_by_id i d4 = Some j" by (simp add: agent_job_by_id_def)
  with run d3 d4 j3 show ?thesis by (auto split: sum.splits)
qed

section \<open>Delivery is what was queued\<close>

text \<open>Text columns hold no NUL character.\<close>

definition no_nul :: "string \<Rightarrow> bool" where
  "no_nul s \<longleftrightarrow> CHR 0x00 \<notin> set s"

definition clean_vars :: "config_var_row list \<Rightarrow> bool" where
  "clean_vars vs \<longleftrightarrow> (\<forall>v \<in> set vs. no_nul (cv_key v) \<and> no_nul (cv_value v))"

definition config_value :: "config_var_row \<Rightarrow> string \<times> bool \<times> string" where
  "config_value v = (cv_key v, cv_isSecret v, cv_value v)"

lemma nul_split: "no_nul a \<Longrightarrow> no_nul b \<Longrightarrow> a @ CHR 0x00 # x = b @ CHR 0x00 # y \<longleftrightarrow> a = b \<and> x = y"
proof (induction a arbitrary: b)
  case Nil
  then show ?case by (cases b) (auto simp: no_nul_def)
next
  case (Cons c a)
  then show ?case by (cases b) (auto simp: no_nul_def)
qed

lemma kind_no_nul: "no_nul (if s then ''secret'' else ''plain'')"
  by (simp add: no_nul_def)

lemma fingerprint_part_nonempty: "fingerprint_part v \<noteq> []"
  by (simp add: fingerprint_part_def)

lemma kind_eq: "(if s then ''secret'' else ''plain'') = (if t then ''secret'' else ''plain'') \<longleftrightarrow> s = t"
  by simp

lemma fingerprint_part_append:
  assumes "no_nul (cv_key v)" "no_nul (cv_key w)" "no_nul (cv_value v)" "no_nul (cv_value w)"
  shows "fingerprint_part v @ x = fingerprint_part w @ y \<longleftrightarrow> config_value v = config_value w \<and> x = y"
  unfolding fingerprint_part_def append.assoc append_Cons append_Nil
  by (simp only: nul_split [OF assms(1,2)] nul_split [OF assms(3,4)] nul_split [OF kind_no_nul kind_no_nul] kind_eq)
    (auto simp: config_value_def)

lemma fingerprint_message_injective:
  "clean_vars vs \<Longrightarrow> clean_vars ws \<Longrightarrow> concat (map fingerprint_part vs) = concat (map fingerprint_part ws) \<Longrightarrow>
     map config_value vs = map config_value ws"
proof (induction vs arbitrary: ws)
  case Nil
  then show ?case using fingerprint_part_nonempty by (cases ws) auto
next
  case (Cons v vs)
  then obtain w ws' where ws: "ws = w # ws'" using fingerprint_part_nonempty by (cases ws) auto
  with Cons.prems have clean: "no_nul (cv_key v)" "no_nul (cv_key w)" "no_nul (cv_value v)" "no_nul (cv_value w)"
      "clean_vars vs" "clean_vars ws'"
    by (auto simp: clean_vars_def)
  from Cons.prems(3) show ?case
    using Cons.IH [OF clean(5,6)] by (simp add: ws fingerprint_part_append [OF clean(1-4)])
qed

text \<open>Sorting by a total collation; sorting again changes nothing.\<close>

definition sorted_vars :: "(string \<Rightarrow> string \<Rightarrow> bool) \<Rightarrow> config_var_row list \<Rightarrow> bool" where
  "sorted_vars le = successively (\<lambda>v w. le (cv_key v) (cv_key w))"

lemma sorted_insert_var:
  assumes "\<And>x y. le x y \<or> le y x"
  shows "sorted_vars le ws \<Longrightarrow> sorted_vars le (insert_var le v ws)"
  by (induction ws rule: induct_list012) (use assms in \<open>auto simp: sorted_vars_def\<close>)

lemma sorted_sort_vars: "(\<And>x y. le x y \<or> le y x) \<Longrightarrow> sorted_vars le (sort_vars le vs)"
proof (induction vs)
  case Nil
  then show ?case by (simp add: sort_vars_def sorted_vars_def)
next
  case (Cons v vs)
  then have "sorted_vars le (sort_vars le vs)" by blast
  from sorted_insert_var [OF Cons.prems this] show ?case by (simp add: sort_vars_def)
qed

lemma sort_sorted_vars: "sorted_vars le vs \<Longrightarrow> sort_vars le vs = vs"
proof (induction vs)
  case Nil
  then show ?case by (simp add: sort_vars_def)
next
  case (Cons v vs)
  then have "sorted_vars le vs" by (cases vs) (simp_all add: sorted_vars_def)
  with Cons.IH have "sort_vars le (v # vs) = insert_var le v vs" by (simp add: sort_vars_def)
  with Cons.prems show ?case by (cases vs) (simp_all add: sorted_vars_def)
qed

lemma set_sort_vars [simp]: "set (sort_vars le vs) = set vs"
proof -
  have "set (insert_var le v ws) = insert v (set ws)" for v ws by (induction ws) auto
  then show ?thesis by (induction vs) (simp_all add: sort_vars_def)
qed

text \<open>A variable as the Agent gets it.\<close>

definition delivered :: "(string \<Rightarrow> string outcome) \<Rightarrow> config_var_row \<Rightarrow> string \<times> string \<Rightarrow> bool" where
  "delivered dec v x \<longleftrightarrow> fst x = cv_key v \<and>
     (if cv_isSecret v then dec (cv_value v) = Inr (snd x) else snd x = cv_value v)"

lemma decrypt_vars_Inr: "decrypt_vars dec vs = Inr xs \<Longrightarrow> list_all2 (delivered dec) vs xs"
proof (induction vs arbitrary: xs)
  case Nil
  then show ?case by simp
next
  case (Cons v vs)
  then obtain y ys where "xs = (cv_key v, y) # ys" "decrypt_vars dec vs = Inr ys"
    "(if cv_isSecret v then dec (cv_value v) else Inr (cv_value v)) = Inr y"
    by (auto split: sum.splits)
  with Cons.IH show ?case by (auto simp: delivered_def split: if_splits)
qed

lemma delivered_values:
  "map config_value vs = map config_value ws \<Longrightarrow> list_all2 (delivered dec) vs xs \<Longrightarrow> list_all2 (delivered dec) ws xs"
proof (induction vs arbitrary: ws xs)
  case Nil
  then show ?case by simp
next
  case (Cons v vs)
  from Cons.prems(1) obtain w ws' where w: "ws = w # ws'" by (cases ws) simp_all
  from Cons.prems(2) obtain x xs' where x: "xs = x # xs'" by (cases xs) simp_all
  note eq = w x
  have vw: "config_value v = config_value w" "delivered dec v x"
    and rest: "map config_value vs = map config_value ws'" "list_all2 (delivered dec) vs xs'"
    using Cons.prems unfolding eq by simp_all
  from vw have "delivered dec w x" unfolding delivered_def config_value_def by (metis prod.inject)
  with Cons.IH [OF rest] show ?case by (simp add: eq)
qed

lemma truthy_iff: "truthy x \<longleftrightarrow> x \<noteq> None \<and> x \<noteq> Some []"
  by (cases x) auto

lemma assert_delivery_binding_Inr:
  "assert_delivery_binding j d = Inr b \<Longrightarrow> ba_status (db_artifact b) = AfAvailable \<and>
     en_targetId (db_environment b) = Some (aj_targetId j) \<and> en_allocationId (db_environment b) = aj_allocationId j"
  by (auto simp: assert_delivery_binding_def Let_def split: option.splits if_splits)

lemma assert_delivery_binding_rows:
  assumes "assert_delivery_binding j d = Inr b"
  shows "\<exists>o' r. aj_operationId j = Some o' \<and> operation_by_id o' d = Some r \<and>
    artifact_by_id (op_buildArtifactId r) d = Some (db_artifact b) \<and>
    environment_by_id (op_environmentId r) d = Some (db_environment b) \<and>
    ba_storageKind (db_artifact b) = Some ''object-store'' \<and> ba_storageRef (db_artifact b) = Some (db_storageRef b)"
  using assms
  by (cases "aj_operationId j") (auto simp: assert_delivery_binding_def Let_def truthy_iff split: option.splits if_splits)

lemma stored_object_Inr: "stored_object pf b = Inr n \<Longrightarrow> n = ba_sizeBytes (db_artifact b) \<and> pf_head pf (db_storageRef b) = Some n"
  by (auto simp: stored_object_def safe_size_def split: sum.splits if_splits)

lemma starts_with_split: "starts_with p s \<Longrightarrow> s = p @ drop (length p) s"
  by (induction p s rule: starts_with.induct) auto

lemma normalized_digest_Inr:
  assumes "normalized_digest v = Inr g"
  shows "length g = 64 \<and> list_all (\<lambda>c. c \<in> set ''0123456789abcdef'') g \<and> lower v \<in> {g, ''sha256:'' @ g}"
proof -
  let ?g = "if starts_with ''sha256:'' (lower v) then drop 7 (lower v) else lower v"
  from assms have g: "g = ?g" "length g = 64" "list_all (\<lambda>c. c \<in> set ''0123456789abcdef'') g"
    by (simp_all add: normalized_digest_def Let_def split: if_splits)
  have "lower v \<in> {g, ''sha256:'' @ g}"
  proof (cases "starts_with ''sha256:'' (lower v)")
    case True
    have "length ''sha256:'' = 7" by simp
    with starts_with_split [OF True] have "lower v = ''sha256:'' @ drop 7 (lower v)" by (simp only:)
    moreover from g(1) True have "g = drop 7 (lower v)" by (simp only: if_True)
    ultimately have "lower v = ''sha256:'' @ g" by (simp only:)
    then show ?thesis by blast
  next
    case False
    with g(1) show ?thesis by simp
  qed
  with g show ?thesis by blast
qed

text \<open>
  C21: An Agent is handed exactly the configuration and artifact that were queued. A delivery is made only to
  the holder of an unexpired lease of the job. Its artifact is the one of the job's operation: available,
  kept in the object store under its reference with exactly the recorded size; the digest delivered is the
  recorded one, normalised to 64 lower-case hexadecimal digits; and the operation's environment is on the
  job's target and allocation. When the fingerprint in the job was computed from some configuration (and the
  keyed digest has no collisions), the variables delivered are that configuration, each secret decrypted.
\<close>

theorem delivery_is_the_queued_configuration:
  assumes "delivery_for_lease pf a i token now d = Inr dl" and "\<And>x y. pf_hmac pf x = pf_hmac pf y \<Longrightarrow> x = y"
    and "\<And>x y. pf_collate pf x y \<or> pf_collate pf y x" and "clean_vars vars" and "clean_vars (configVars d)"
    and "\<And>j. j \<in> set (agentJobs d) \<Longrightarrow> aj_id j = i \<Longrightarrow>
      queued_fingerprint j = agent_config_fingerprint (pf_hmac pf) (pf_collate pf) vars"
  shows "\<exists>j o' r b ref e x. j \<in> set (agentJobs d) \<and> aj_id j = i \<and> aj_status j = JbLeased \<and>
    aj_leasedByAgentId j = Some (aa_id a) \<and> aj_leaseTokenHash j = Some (pf_hash pf token) \<and>
    aj_leaseExpiresAt j = Some x \<and> now < x \<and>
    aj_operationId j = Some o' \<and> operation_by_id o' d = Some r \<and>
    artifact_by_id (op_buildArtifactId r) d = Some b \<and> environment_by_id (op_environmentId r) d = Some e \<and>
    en_targetId e = Some (aj_targetId j) \<and> en_allocationId e = aj_allocationId j \<and>
    ba_status b = AfAvailable \<and> ba_storageKind b = Some ''object-store'' \<and> ba_storageRef b = Some ref \<and>
    dl_sizeBytes dl = ba_sizeBytes b \<and> pf_head pf ref = Some (ba_sizeBytes b) \<and>
    lower (ba_digest b) \<in> {dl_sha256 dl, ''sha256:'' @ dl_sha256 dl} \<and> length (dl_sha256 dl) = 64 \<and>
    list_all (\<lambda>c. c \<in> set ''0123456789abcdef'') (dl_sha256 dl) \<and>
    list_all2 (delivered (pf_decrypt pf)) (sort_vars (pf_collate pf) vars) (dl_envVars dl)"
proof -
  from assms(1) obtain j where j: "find_first (active_lease a i (pf_hash pf token) now d) (agentJobs d) = Some j"
    by (cases "find_first (active_lease a i (pf_hash pf token) now d) (agentJobs d)") (simp_all add: delivery_for_lease_def)
  with assms(1) obtain b where b: "assert_delivery_binding j d = Inr b"
    by (cases "assert_delivery_binding j d") (simp_all add: delivery_for_lease_def)
  let ?cfg = "config_of (pf_collate pf) (en_id (db_environment b)) d"
  from assms(1) j b have q: "queued_fingerprint j = agent_config_fingerprint (pf_hmac pf) (pf_collate pf) ?cfg"
    by (simp add: delivery_for_lease_def Let_def split: if_splits)
  with assms(1) j b obtain n where n1: "stored_object pf b = Inr n"
    by (cases "stored_object pf b") (simp_all add: delivery_for_lease_def Let_def split: if_splits)
  with assms(1) j b q obtain env where n2: "decrypt_vars (pf_decrypt pf) ?cfg = Inr env"
    by (cases "decrypt_vars (pf_decrypt pf) ?cfg") (simp_all add: delivery_for_lease_def Let_def split: if_splits)
  with assms(1) j b q n1 obtain g where n3: "normalized_digest (ba_digest (db_artifact b)) = Inr g"
    by (cases "normalized_digest (ba_digest (db_artifact b))") (simp_all add: delivery_for_lease_def Let_def split: if_splits)
  note n = n1 n2 n3
  from assms(1) j b q n have dl: "dl_sha256 dl = g" "dl_sizeBytes dl = n" "dl_envVars dl = env"
    by (auto simp: delivery_for_lease_def Let_def split: if_splits)
  from find_first_Some [OF j] have mem: "j \<in> set (agentJobs d)" "active_lease a i (pf_hash pf token) now d j" by auto
  then have "aj_id j = i" by (simp add: active_lease_def bound_lease_def)
  from q assms(6) [OF mem(1) this] have
    "pf_hmac pf (concat (map fingerprint_part (sort_vars (pf_collate pf) ?cfg))) =
     pf_hmac pf (concat (map fingerprint_part (sort_vars (pf_collate pf) vars)))"
    by (simp add: agent_config_fingerprint_def)
  then have "concat (map fingerprint_part (sort_vars (pf_collate pf) ?cfg)) = concat (map fingerprint_part (sort_vars (pf_collate pf) vars))"
    by (rule assms(2))
  moreover have "clean_vars (sort_vars (pf_collate pf) ?cfg)" "clean_vars (sort_vars (pf_collate pf) vars)"
    using assms(4,5) by (auto simp: clean_vars_def config_of_def)
  moreover have "sort_vars (pf_collate pf) ?cfg = ?cfg"
    unfolding config_of_def by (rule sort_sorted_vars [OF sorted_sort_vars [OF assms(3)]])
  ultimately have "map config_value ?cfg = map config_value (sort_vars (pf_collate pf) vars)"
    using fingerprint_message_injective by metis
  from delivered_values [OF this decrypt_vars_Inr [OF n(2)]]
  have "list_all2 (delivered (pf_decrypt pf)) (sort_vars (pf_collate pf) vars) (dl_envVars dl)" by (simp add: dl)
  moreover from mem(2) obtain x where "aj_id j = i" "aj_status j = JbLeased" "aj_leasedByAgentId j = Some (aa_id a)"
      "aj_leaseTokenHash j = Some (pf_hash pf token)" "aj_leaseExpiresAt j = Some x" "now < x"
    by (auto simp: active_lease_def bound_lease_def unexpired_def split: option.splits)
  moreover from assert_delivery_binding_rows [OF b] obtain o' r where "aj_operationId j = Some o'"
      "operation_by_id o' d = Some r" "artifact_by_id (op_buildArtifactId r) d = Some (db_artifact b)"
      "environment_by_id (op_environmentId r) d = Some (db_environment b)"
      "ba_storageKind (db_artifact b) = Some ''object-store''" "ba_storageRef (db_artifact b) = Some (db_storageRef b)"
    by blast
  ultimately show ?thesis
    using mem(1) assert_delivery_binding_Inr [OF b] stored_object_Inr [OF n(1)] normalized_digest_Inr [OF n(3)]
    unfolding dl by blast
qed

section \<open>The workflow behind a managed gateway\<close>

text \<open>How an operation behind a gateway can end, by the environment and route read with its last job.\<close>

definition managed_success ::
  "operation_row \<Rightarrow> agent_job_row \<Rightarrow> gateway_route_row option \<Rightarrow> environment_row \<Rightarrow> environment_row \<Rightarrow> bool" where
  "managed_success r j g e e' \<longleftrightarrow> aj_status j = JbSucceeded \<and> (\<exists>x. g = Some x \<and> gr_observedState x = ''active'' \<and>
     gr_observedRevision x = op_version r \<and> en_status e' = EsRunning \<and> en_url e' = Some (gr_publicUrl x) \<and>
     en_version e' = (if op_kind r = ''start'' then en_version e else op_version r))"

definition managed_failure ::
  "operation_row \<Rightarrow> gateway_route_row option \<Rightarrow> environment_row \<Rightarrow> environment_row \<Rightarrow> bool" where
  "managed_failure r g e e' \<longleftrightarrow> en_version e' = en_version e \<and> en_statusReason e' \<noteq> None \<and>
     (en_status e' = EsFailed \<and> en_deploymentRequired e' \<or>
      (\<exists>x. g = Some x \<and> gr_observedRevision x = en_version e \<and> en_version e \<noteq> None \<and> en_url e' = Some (gr_publicUrl x) \<and>
         (en_status e' = EsRunning \<and> gr_observedState x = ''active'' \<or>
          en_status e' = EsStopped \<and> gr_observedState x = ''stopped'' \<and> op_kind r = ''start'')))"

lemma fail_managed_settles:
  obtains f p m D where "fail_managed now r e g reason rb d = settle r f Failed p m now D"
    "operations D = operations d" "environments D = environments d" "\<And>x. en_id (f x) = en_id x"
    "managed_failure r g e ((f e)\<lparr>en_activeOperationId := None\<rparr>)"
proof (rule that)
  let ?m = "take 500 reason"
  let ?s = "preserved_message r e g rb ?m"
  show "fail_managed now r e g reason rb d = settle r
      (if still_serving e g rb then preserved_environment r g ?s
       else if still_stopped r e g rb then kept_stopped_environment g ?s else broken_environment ?m)
      Failed (terminal_deployment_phase Failed (Some ?s)) (Some ?s) now
      (d\<lparr>agentJobs := rewrite (waiting_step r) (workflow_cancelled now) (agentJobs d)\<rparr>)"
    by (simp add: fail_managed_def Let_def)
qed (auto simp: managed_failure_def preserved_environment_def kept_stopped_environment_def broken_environment_def
    still_serving_def still_stopped_def still_shows_def truthy_iff split: option.splits)

lemma managed_published_settles:
  assumes "aj_status j = JbSucceeded"
  obtains f res p m D where "managed_published now r e g j s d = settle r f res p m now D"
    "operations D = operations d" "environments D = environments d" "\<And>x. en_id (f x) = en_id x"
    "res = Succeeded \<and> managed_success r j g e ((f e)\<lparr>en_activeOperationId := None\<rparr>) \<or>
     res = Failed \<and> managed_failure r g e ((f e)\<lparr>en_activeOperationId := None\<rparr>)"
proof (cases "published_route r g j")
  case None
  from fail_managed_settles [of now r e g "''Gateway did not publish the requested workload revision''" "Some RbUnknown" d]
  show thesis using None that by (simp add: managed_published_def) metis
next
  case (Some x)
  then have x: "g = Some x" "gr_observedState x = ''active''" "gr_observedRevision x = op_version r"
    by (auto simp: published_route_def split: option.splits if_splits)
  show thesis
  proof (cases "op_kind r = ''start''")
    case True
    show thesis
      by (rule that [of "started_environment (gr_publicUrl x)" Succeeded "Result Succeeded" "aj_message j" d])
        (use True Some x assms in \<open>simp_all add: managed_published_def finish_lifecycle_def managed_success_def started_environment_def\<close>)
  next
    case False
    show thesis
      by (rule that [of "deployed_environment r (gr_publicUrl x) (expiry_of s e now)" Succeeded "Result Succeeded" "aj_message j" d])
        (use False Some x assms in \<open>simp_all add: managed_published_def managed_success_def deployed_environment_def\<close>)
  qed
qed

text \<open>
  C22: Behind a managed gateway a deployment counts only when the gateway serves it. When a failed job or the
  last step of the workflow ends an operation that deploys or starts, the operation is finished and its
  environment released in one step: as a success only if the gateway was observed serving exactly the
  version of the operation, at the address of its route; otherwise as a failure that keeps the recorded
  version, and then the environment is shown as running (or stopped) only while the gateway still serves (or
  holds) that version.
\<close>

theorem managed_deployment_is_published:
  assumes "ended j" and "aj_status j = JbFailed \<or> aj_operationStep j \<noteq> Some 1" and "op_kind r \<notin> {''stop'', ''remove''}"
    and "operation_by_id (op_id r) d = Some r" and "running_op r"
    and "environment_by_id (op_environmentId r) d = Some e" and "en_activeOperationId e = Some (op_id r)"
  shows "\<exists>d' r' e'. reconcile_managed again pf now j r e g s d = (d', Inr ()) \<and>
    operation_by_id (op_id r) d' = Some r' \<and> op_finishedAt r' = Some now \<and>
    environment_by_id (op_environmentId r) d' = Some e' \<and> en_activeOperationId e' = None \<and>
    (op_status r' = OpResult Succeeded \<and> managed_success r j g e e' \<or>
     op_status r' = OpResult Failed \<and> managed_failure r g e e')"
proof -
  have "\<exists>f res p m D. reconcile_managed again pf now j r e g s d = (settle r f res p m now D, Inr ()) \<and>
      operations D = operations d \<and> environments D = environments d \<and> (\<forall>x. en_id (f x) = en_id x) \<and>
      (res = Succeeded \<and> managed_success r j g e ((f e)\<lparr>en_activeOperationId := None\<rparr>) \<or>
       res = Failed \<and> managed_failure r g e ((f e)\<lparr>en_activeOperationId := None\<rparr>))"
  proof (cases "aj_status j = JbFailed \<or> aj_operationStep j \<notin> {Some 1, Some 2}")
    case True
    have "\<exists>reason rb. reconcile_managed again pf now j r e g s d = (fail_managed now r e g reason rb d, Inr ())"
    proof (cases "aj_status j = JbFailed")
      case True
      then show ?thesis unfolding reconcile_managed_def Let_def by auto
    next
      case False
      with True have "aj_operationStep j \<notin> {Some 1, Some 2}" by simp
      with False show ?thesis unfolding reconcile_managed_def by auto
    qed
    then obtain reason rb where "reconcile_managed again pf now j r e g s d = (fail_managed now r e g reason rb d, Inr ())"
      by blast
    with fail_managed_settles [of now r e g reason rb d] show ?thesis by metis
  next
    case False
    with assms(1-3) have "aj_status j = JbSucceeded" "reconcile_managed again pf now j r e g s d = (managed_published now r e g j s d, Inr ())"
      by (auto simp: reconcile_managed_def ended_def)
    with managed_published_settles [of j now r e g s d] show ?thesis by metis
  qed
  then obtain f res p m D where run: "reconcile_managed again pf now j r e g s d = (settle r f res p m now D, Inr ())"
    and D: "operations D = operations d" "environments D = environments d" and f: "\<And>x. en_id (f x) = en_id x"
    and res: "res = Succeeded \<and> managed_success r j g e ((f e)\<lparr>en_activeOperationId := None\<rparr>) \<or>
       res = Failed \<and> managed_failure r g e ((f e)\<lparr>en_activeOperationId := None\<rparr>)" by blast
  have "operation_by_id (op_id r) D = Some r" "environment_by_id (op_environmentId r) D = Some e"
    using assms(4,6) D by (simp_all add: lookup_defs)
  from settle_operation [OF this(1) refl assms(5)] settle_environment [OF this(2) refl assms(7) f] run res
  show ?thesis by (fastforce simp: ended_operation_def)
qed

section \<open>Results of older route intents\<close>

lemma reconcile_route_other:
  assumes "gr_reconcileJobId g \<noteq> Some i" and "route_of envId d = Some g"
  shows "route_of envId (reconcile_gateway_route (\<lambda>x. x) now i d) = Some g"
proof (cases "agent_job_by_id i d")
  case (Some j)
  then have "aj_id j = i" by (auto simp: agent_job_by_id_def dest: find_first_Some)
  have "find_first (\<lambda>x. gr_environmentId x = envId) (rewrite (fenced_route j k n) f (gatewayRoutes d)) = Some g"
    if "\<And>x. gr_environmentId (f x) = gr_environmentId x" for k n f
    using assms \<open>aj_id j = i\<close> that
    by (subst find_first_rewrite) (auto simp: route_of_def fenced_route_def)
  moreover have "gr_environmentId (route_observed n st r at x) = gr_environmentId x"
    "gr_environmentId (route_failed j at x) = gr_environmentId x" for n st r at x
    by (simp_all add: route_observed_def route_failed_def)
  ultimately show ?thesis using assms(2)
    by (auto simp: reconcile_gateway_route_def Some Let_def route_of_def split: option.splits)
qed (simp add: reconcile_gateway_route_def assms(2))

lemma reconcile_route_current:
  assumes "agent_job_by_id i d = Some j" and "aj_kind j = ''gateway-route''" and "aj_gatewayRouteId j = Some (gr_id g)"
    and "gr_id g \<noteq> []" and "aj_status j = JbSucceeded" and "route_intent (aj_payload j) = Some (n, st, r)"
    and "route_of envId d = Some g" and "int (gr_generation g) = n" and "gr_reconcileJobId g = Some i"
  shows "\<exists>t. route_of envId (reconcile_gateway_route (\<lambda>x. x) now i d) = Some (route_observed n st r t g)"
proof -
  have "aj_id j = i" using assms(1) by (auto simp: agent_job_by_id_def dest: find_first_Some)
  then have "route_of envId (d\<lparr>gatewayRoutes := rewrite (fenced_route j (gr_id g) n) (route_observed n st r t) (gatewayRoutes d)\<rparr>) =
      Some (route_observed n st r t g)" for t
    using assms(7-9) by (simp add: route_of_def find_first_rewrite route_observed_def fenced_route_def)
  then show ?thesis using assms(1-6) by (auto simp: reconcile_gateway_route_def Let_def ended_def)
qed

lemma intent_of_payload:
  "validate_request q = Inr () \<Longrightarrow> 0 < n \<Longrightarrow> route_intent (route_payload g a e n q) = Some (n, rr_desiredState q, rr_revision q)"
  by (cases "rr_revision q") (auto simp: route_intent_def route_payload_def validate_request_def split: if_splits)

text \<open>The recorded intent, when a request was accepted for the first time.\<close>

lemma recorded_intent:
  assumes "queue_reconcile sha256 parse is_ip (\<lambda>x. x) (\<lambda>x. x) newRoute newJob corr now envId q d = (d', Inr r)"
    and "keyed gr_id (gatewayRoutes d)" and "newRoute \<notin> gr_id ` set (gatewayRoutes d)"
    and "agentJobs d' \<noteq> agentJobs d" and "newJob \<notin> aj_id ` set (agentJobs d)"
  obtains g t a e where "route_of envId d' = Some (intended_route newJob q g)" "validate_request q = Inr ()"
    "agent_job_by_id newJob d' = Some (new_route_job newJob corr now g t a e (int (gr_generation g) + 1) q)"
proof -
  obtain d1 g e t a where res: "reserve sha256 parse is_ip (\<lambda>x. x) newRoute envId d = (d1, Inr g)"
    and guard: "route_guard g envId q d1 e t a"
    and cases: "(\<exists>j. job_by_key (route_dedupe_key g q) d1 = Some j \<and> d' = d1 \<and> reconcile_job (gr_id g) j None = Inr r) \<or>
     job_by_key (route_dedupe_key g q) d1 = None \<and> queue_tx newJob corr now g t a e q d1 = (d', Inr r)"
    using queue_reconcile_Inr [OF assms(1)] by metis
  note again = reserve_again [OF res]
  from cases assms(4) again(6) have new: "job_by_key (route_dedupe_key g q) d1 = None" "queue_tx newJob corr now g t a e q d1 = (d', Inr r)"
    by auto
  obtain x where x: "find_first (\<lambda>x. gr_id x = gr_id g) (gatewayRoutes d1) = Some x"
      and d': "d' = d1\<lparr>agentJobs := create (new_route_job newJob corr now g t a e (int (gr_generation x) + 1) q)
        (rewrite (\<lambda>j. aj_gatewayRouteId j = Some (gr_id g) \<and> aj_status j = JbQueued) (superseded_job now) (agentJobs d1)),
        gatewayRoutes := rewrite (\<lambda>x. gr_id x = gr_id g) (intended_route newJob q) (gatewayRoutes d1)\<rparr>"
    by (rule queue_tx_new [OF new(2,1)])
  have "g \<in> set (gatewayRoutes d1)" using again(1) by (auto simp: route_of_def dest: find_first_Some)
  then have xg: "x = g" using x find_first_key [OF reserve_keyed [OF res assms(2,3)]] by auto
  have route: "route_of envId d' = Some (intended_route newJob q g)"
    using again(1) by (simp add: route_of_def d' find_first_rewrite)
  have "find_first (\<lambda>j. aj_id j = newJob) (rewrite (\<lambda>j. aj_gatewayRouteId j = Some (gr_id g) \<and> aj_status j = JbQueued)
      (superseded_job now) (agentJobs d1)) = None"
    using assms(5) again(6) by (auto simp: find_first_None set_rewrite superseded_job_def)
  then have job: "agent_job_by_id newJob d' = Some (new_route_job newJob corr now g t a e (int (gr_generation g) + 1) q)"
    by (simp add: agent_job_by_id_def d' find_first_create new_route_job_def xg)
  have "validate_request q = Inr ()" using guard by (auto simp: route_guard_def)
  with route show thesis using job by (rule that)
qed

text \<open>
  The newest route intent decides what the gateway is known to show. After a request was accepted for the
  first time, no result of any other job, whenever it arrives, changes what is recorded of the route; and when
  the job of the request succeeds, the recorded state, revision and generation are exactly the ones requested
  and the fence is lifted.
\<close>

theorem newest_route_intent_wins:
  assumes "queue_reconcile sha256 parse is_ip (\<lambda>x. x) (\<lambda>x. x) newRoute newJob corr now envId q d = (d', Inr r)"
    and "keyed gr_id (gatewayRoutes d)" and "newRoute \<notin> gr_id ` set (gatewayRoutes d)"
    and "agentJobs d' \<noteq> agentJobs d" and "newJob \<notin> aj_id ` set (agentJobs d)" and "gatewayRoutes d2 = gatewayRoutes d'"
    and "\<And>g. g \<in> set (gatewayRoutes d') \<Longrightarrow> gr_id g \<noteq> []"
  shows "(i \<noteq> newJob \<longrightarrow> route_of envId (reconcile_gateway_route (\<lambda>x. x) t i d2) = route_of envId d') \<and>
    (\<exists>j0 g. agent_job_by_id newJob d' = Some j0 \<and> route_of envId d' = Some g \<and>
      (\<forall>j. agent_job_by_id newJob d2 = Some j \<and> job_grows j0 j \<and> aj_status j = JbSucceeded \<longrightarrow>
        (\<exists>g'. route_of envId (reconcile_gateway_route (\<lambda>x. x) t newJob d2) = Some g' \<and>
           gr_observedState g' = rr_desiredState q \<and>
           (rr_desiredState q \<noteq> ''absent'' \<longrightarrow> gr_observedRevision g' = rr_revision q) \<and>
           gr_observedGeneration g' = gr_generation g \<and> gr_reconcileJobId g' = None)))"
proof -
  obtain g tg a e where g: "route_of envId d' = Some (intended_route newJob q g)" and v: "validate_request q = Inr ()"
    and j0: "agent_job_by_id newJob d' = Some (new_route_job newJob corr now g tg a e (int (gr_generation g) + 1) q)"
    by (rule recorded_intent [OF assms(1-5)])
  let ?g = "intended_route newJob q g" and ?j0 = "new_route_job newJob corr now g tg a e (int (gr_generation g) + 1) q"
  have g2: "route_of envId d2 = Some ?g" using g assms(6) by (simp add: route_of_def)
  have "?g \<in> set (gatewayRoutes d')" using g by (auto simp: route_of_def dest: find_first_Some)
  with assms(7) have id: "gr_id g \<noteq> []" by fastforce
  have "route_of envId (reconcile_gateway_route (\<lambda>x. x) t i d2) = Some ?g" if "i \<noteq> newJob"
    by (rule reconcile_route_other [OF _ g2]) (use that in \<open>simp add: intended_route_def\<close>)
  moreover have "\<exists>g'. route_of envId (reconcile_gateway_route (\<lambda>x. x) t newJob d2) = Some g' \<and>
      gr_observedState g' = rr_desiredState q \<and> (rr_desiredState q \<noteq> ''absent'' \<longrightarrow> gr_observedRevision g' = rr_revision q) \<and>
      gr_observedGeneration g' = gr_generation ?g \<and> gr_reconcileJobId g' = None"
    if j: "agent_job_by_id newJob d2 = Some j" "job_grows ?j0 j" "aj_status j = JbSucceeded" for j
  proof -
    have "aj_kind j = ''gateway-route''" "aj_gatewayRouteId j = Some (gr_id ?g)"
      "route_intent (aj_payload j) = Some (int (gr_generation g) + 1, rr_desiredState q, rr_revision q)"
      using j(2) intent_of_payload [OF v] by (simp_all add: job_grows_def new_route_job_def)
    from reconcile_route_current [OF j(1) this(1,2) _ j(3) this(3) g2, of t] id
    show ?thesis by (fastforce simp: intended_route_def route_observed_def nat_add_distrib)
  qed
  ultimately show ?thesis using g j0 by auto
qed

section \<open>The depth of a workflow\<close>

text \<open>Ids of jobs are unique, and only gateway jobs carry the dedupe key of a route.\<close>

definition sound_jobs :: "db \<Rightarrow> bool" where
  "sound_jobs d \<longleftrightarrow> keyed aj_id (agentJobs d) \<and>
     (\<forall>j \<in> set (agentJobs d). starts_with ''gateway-route:'' (aj_dedupeKey j) \<longrightarrow> aj_kind j = ''gateway-route'')"

definition sound_pauses :: "platform \<Rightarrow> bool" where
  "sound_pauses pf \<longleftrightarrow> (\<forall>k x. sound_jobs x \<longrightarrow> sound_jobs (pf_mid pf k x))"

lemma sound_same: "agentJobs d' = agentJobs d \<Longrightarrow> sound_jobs d' = sound_jobs d"
  by (simp add: sound_jobs_def)

lemma sound_lookup: "sound_jobs d \<Longrightarrow> x \<in> set (agentJobs d) \<Longrightarrow> agent_job_by_id (aj_id x) d = Some x"
  by (simp add: sound_jobs_def agent_job_by_id_def find_first_key)

lemma reserve_jobs:
  assumes "reserve sha256 parse is_ip mid i envId d = (d1, r)"
  shows "agentJobs d1 = agentJobs d \<or> agentJobs d1 = agentJobs (mid d)"
  using assms by (auto simp: reserve_def Let_def create_route_def split: option.splits if_splits sum.splits)

lemma existing_route_job:
  assumes "job_by_key (route_dedupe_key g q) d = Some j" and "sound_jobs d" and "reconcile_job (gr_id g) j None = Inr rj"
  shows "\<exists>j \<in> set (agentJobs d). aj_id j = rj_jobId rj \<and> aj_kind j = ''gateway-route''"
proof -
  from assms(1) have j: "j \<in> set (agentJobs d)" "aj_dedupeKey j = route_dedupe_key g q"
    by (auto simp: job_by_key_def dest: find_first_Some)
  moreover have "starts_with ''gateway-route:'' (route_dedupe_key g q)" by (simp add: route_dedupe_key_def)
  ultimately have "aj_kind j = ''gateway-route''" using assms(2) by (auto simp: sound_jobs_def)
  moreover have "aj_id j = rj_jobId rj"
    using assms(3) by (auto simp: reconcile_job_def split: option.splits if_splits)
  ultimately show ?thesis using j(1) by blast
qed

lemma queue_tx_done:
  assumes "queue_tx i corr now g t a e q d = (d', Inr rj)" and "rj_status rj = JbSucceeded"
  shows "d' = d \<and> (\<exists>j. job_by_key (route_dedupe_key g q) d = Some j \<and> reconcile_job (gr_id g) j None = Inr rj)"
proof (cases "job_by_key (route_dedupe_key g q) d")
  case None
  show ?thesis by (rule queue_tx_new [OF assms(1) None]) (use assms(2) in simp)
next
  case (Some j)
  with assms show ?thesis by (simp add: queue_tx_def)
qed

lemma queue_reconcile_done:
  assumes "queue_reconcile sha256 parse is_ip mid mid' newRoute newJob corr now envId q d = (d', Inr rj)"
    and "rj_status rj = JbSucceeded" and "sound_jobs d"
    and "\<And>x. sound_jobs x \<Longrightarrow> sound_jobs (mid x)" and "\<And>x. sound_jobs x \<Longrightarrow> sound_jobs (mid' x)"
  shows "sound_jobs d' \<and> (\<exists>j \<in> set (agentJobs d'). aj_id j = rj_jobId rj \<and> aj_kind j = ''gateway-route'')"
proof -
  from assms(1) obtain d1 g where res: "reserve sha256 parse is_ip mid newRoute envId d = (d1, Inr g)"
    by (auto simp: queue_reconcile_def split: sum.splits prod.splits)
  have s1: "sound_jobs d1" using reserve_jobs [OF res] assms(3,4) sound_same by metis
  then have s2: "sound_jobs (mid' d1)" by (rule assms(5))
  have "(d' = d1 \<and> (\<exists>j. job_by_key (route_dedupe_key g q) d1 = Some j \<and> reconcile_job (gr_id g) j None = Inr rj)) \<or>
      (\<exists>t a e. queue_tx newJob corr now g t a e q (mid' d1) = (d', Inr rj)) \<or>
      (\<exists>t a e err. queue_tx newJob corr now g t a e q (mid' d1) = (d', Inl err) \<and>
        (\<exists>j. job_by_key (route_dedupe_key g q) d' = Some j \<and> reconcile_job (gr_id g) j None = Inr rj))"
    using assms(1) res
    by (auto simp: queue_reconcile_def Let_def split: sum.splits prod.splits option.splits if_splits http_error.splits)
  then consider (known) j where "d' = d1" "job_by_key (route_dedupe_key g q) d1 = Some j" "reconcile_job (gr_id g) j None = Inr rj"
    | (tx) t a e where "queue_tx newJob corr now g t a e q (mid' d1) = (d', Inr rj)"
    | (raced) t a e err j where "queue_tx newJob corr now g t a e q (mid' d1) = (d', Inl err)"
        "job_by_key (route_dedupe_key g q) d' = Some j" "reconcile_job (gr_id g) j None = Inr rj"
    by blast
  then show ?thesis
  proof cases
    case known
    with s1 existing_route_job show ?thesis by blast
  next
    case tx
    from queue_tx_done [OF this assms(2)] s2 existing_route_job show ?thesis by blast
  next
    case raced
    then have "d' = mid' d1" by (auto simp: queue_tx_def Let_def reconcile_job_def split: option.splits if_splits)
    with raced s2 existing_route_job show ?thesis by blast
  qed
qed

lemma teardown_cong:
  "(\<And>x. find_first (step_of r 2) (agentJobs d) = Some x \<Longrightarrow> again (aj_id x) d = again' (aj_id x) d) \<Longrightarrow>
     managed_teardown again now r e g j d = managed_teardown again' now r e g j d"
  by (auto simp: managed_teardown_def split: option.splits prod.splits)

lemma reconcile_last_step:
  assumes "agent_job_by_id i s = Some j" and "aj_operationStep j \<noteq> Some 1"
  shows "reconcile_terminal (Suc n) pf now i s = reconcile_terminal (Suc m) pf now i s"
proof -
  have "reconcile_projection again pf now i s = reconcile_projection again' pf now i s" for again again'
    using assms by (auto simp: reconcile_projection_def reconcile_managed_def Let_def split: option.splits)
  from this [of "reconcile_terminal n pf now" "reconcile_terminal m pf now"] show ?thesis by simp
qed

lemma teardown_depth:
  assumes "sound_jobs d"
  shows "managed_teardown (reconcile_terminal (Suc n) pf now) now r e g j d =
    managed_teardown (reconcile_terminal (Suc m) pf now) now r e g j d"
proof (rule teardown_cong)
  fix x assume "find_first (step_of r 2) (agentJobs d) = Some x"
  then have "x \<in> set (agentJobs d)" "aj_operationStep x = Some 2" by (auto simp: step_of_def dest: find_first_Some)
  with sound_lookup [OF assms] show "reconcile_terminal (Suc n) pf now (aj_id x) d = reconcile_terminal (Suc m) pf now (aj_id x) d"
    by (intro reconcile_last_step) auto
qed

lemma projection_cong:
  assumes "\<And>j r e g. agent_job_by_id i s = Some j \<Longrightarrow>
    reconcile_managed again pf now j r e g s (pf_mid pf 0 s) = reconcile_managed again' pf now j r e g s (pf_mid pf 0 s)"
  shows "reconcile_projection again pf now i s = reconcile_projection again' pf now i s"
  using assms by (auto simp: reconcile_projection_def Let_def split: option.splits)

lemma reconcile_route_job_depth:
  assumes "sound_jobs s" and "sound_pauses pf" and "agent_job_by_id i s = Some j" and "aj_kind j = ''gateway-route''"
  shows "reconcile_terminal (Suc (Suc n)) pf now i s = reconcile_terminal (Suc (Suc m)) pf now i s"
proof -
  have "sound_jobs (pf_mid pf 0 s)" using assms(1,2) by (simp add: sound_pauses_def)
  note tear = teardown_depth [OF this, of n pf now _ _ _ _ m]
  have "activation_request r res j = None" for r res
    using assms(4) by (auto simp: activation_request_def split: option.splits json.splits)
  then have act: "managed_activation (reconcile_terminal (Suc n) pf now) pf now r e g j d =
      managed_activation (reconcile_terminal (Suc m) pf now) pf now r e g j d" for r e g d
    by (simp only: managed_activation_def option.case)
  from tear act assms(3) have "reconcile_projection (reconcile_terminal (Suc n) pf now) pf now i s =
      reconcile_projection (reconcile_terminal (Suc m) pf now) pf now i s"
    by (intro projection_cong) (auto simp only: reconcile_managed_def option.inject)
  then show ?thesis by (simp only: reconcile_terminal.simps)
qed

text \<open>
  C23: Following a workflow ends. Reconciling a job follows at most one further job, and from it at most one
  more, so the depth the code recurses to never exceeds \<open>reconcile_depth\<close>: with that much fuel, or any more,
  the outcome is the same, and never the exhaustion of the fuel.
\<close>

theorem reconcile_depth_suffices:
  assumes "sound_jobs s" and "sound_pauses pf" and "quiet_under jobs_extend pf"
  shows "reconcile_terminal (reconcile_depth + n) pf now i s = reconcile_terminal reconcile_depth pf now i s"
proof -
  let ?A = "\<lambda>n. reconcile_terminal (Suc (Suc n)) pf now"
  let ?d = "pf_mid pf 0 s"
  have sd: "sound_jobs ?d" using assms(1,2) by (simp add: sound_pauses_def)
  have again: "?A n (rj_jobId rj) (reconcile_gateway_route (pf_mid pf 3) now (rj_jobId rj) (publish_managed_progress r m d1)) =
      ?A 0 (rj_jobId rj) (reconcile_gateway_route (pf_mid pf 3) now (rj_jobId rj) (publish_managed_progress r m d1))"
    if q: "queue_reconcile (pf_sha256 pf) (pf_parse pf) (pf_is_ip pf) (pf_mid pf 1) (pf_mid pf 2)
      (pf_id pf 0) (pf_id pf 1) (pf_id pf 2) now (op_environmentId r) q ?d = (d1, Inr rj)" "rj_status rj = JbSucceeded" for q d1 rj r m
  proof -
    let ?p = "publish_managed_progress r m d1"
    let ?D = "reconcile_gateway_route (pf_mid pf 3) now (rj_jobId rj) ?p"
    from queue_reconcile_done [OF q sd] assms(2) obtain j where s1: "sound_jobs d1" and
      j: "j \<in> set (agentJobs d1)" "aj_id j = rj_jobId rj" "aj_kind j = ''gateway-route''"
      by (auto simp: sound_pauses_def)
    have sp: "sound_jobs ?p" using s1 by (simp add: sound_jobs_def)
    have "agentJobs ?D = agentJobs ?p \<or> agentJobs ?D = agentJobs (pf_mid pf 3 ?p)"
      by (auto simp: reconcile_gateway_route_def Let_def split: option.splits)
    then have sD: "sound_jobs ?D" using sp assms(2) sound_same unfolding sound_pauses_def by metis
    have "agent_job_by_id (rj_jobId rj) ?p = Some j" using sound_lookup [OF sp, of j] j by simp
    moreover have "jobs_extend ?p ?D" by (rule je.R_reconcile_route) (rule je.quietD [OF assms(3)])
    ultimately obtain j' where "agent_job_by_id (rj_jobId rj) ?D = Some j'" "job_grows j j'" unfolding jobs_extend_def by blast
    with j(3) reconcile_route_job_depth [OF sD assms(2), of "rj_jobId rj" j'] show ?thesis by (simp only: job_grows_def)
  qed
  have act: "managed_activation (?A n) pf now r e g j ?d = managed_activation (?A 0) pf now r e g j ?d" for r e g j
  proof (cases "activation_request r (job_result_of (aj_result j)) j")
    case None
    then show ?thesis by (simp add: managed_activation_def)
  next
    case (Some q)
    obtain d1 res where run: "queue_reconcile (pf_sha256 pf) (pf_parse pf) (pf_is_ip pf) (pf_mid pf 1) (pf_mid pf 2)
      (pf_id pf 0) (pf_id pf 1) (pf_id pf 2) now (op_environmentId r) q ?d = (d1, res)" by fastforce
    show ?thesis
    proof (cases res)
      case (Inr rj)
      with again [OF run [unfolded Inr]] run Some show ?thesis
        unfolding managed_activation_def Let_def by (cases "rj_status rj = JbSucceeded") (simp_all del: One_nat_def reconcile_terminal.simps)
    qed (use run Some in \<open>simp add: managed_activation_def del: One_nat_def\<close>)
  qed
  have "reconcile_managed (?A n) pf now j r e g s ?d = reconcile_managed (?A 0) pf now j r e g s ?d" for j r e g
    using teardown_depth [OF sd, of "Suc n" pf now r e g j "Suc 0"] act unfolding reconcile_managed_def by simp
  then have "reconcile_projection (?A n) pf now i s = reconcile_projection (?A 0) pf now i s"
    by (intro projection_cong)
  then have "reconcile_terminal (Suc (Suc (Suc n))) pf now i s = reconcile_terminal (Suc (Suc (Suc 0))) pf now i s"
    by (simp only: reconcile_terminal.simps)
  then show ?thesis by (simp add: reconcile_depth_def eval_nat_numeral del: reconcile_terminal.simps)
qed

section \<open>Concrete runs\<close>

definition sample_platform :: platform where
  "sample_platform = \<lparr>pf_hash = (\<lambda>_. ''h1''), pf_sha256 = sample_sha, pf_hmac = (\<lambda>x. x), pf_collate = (\<lambda>_ _. True),
     pf_decrypt = Inr, pf_head = (\<lambda>_. Some 7), pf_parse = sample_parse, pf_is_ip = (\<lambda>_. False),
     pf_with_port = (\<lambda>u _. Some u), pf_id = (\<lambda>_. ''n''), pf_token = (\<lambda>_. ''t''), pf_now = (\<lambda>_. 5),
     pf_down = False, pf_mid = (\<lambda>_ d. d)\<rparr>"

definition sample_op :: operation_row where
  "sample_op = \<lparr>op_id = ''o'', op_correlationId = ''c'', op_environmentId = ''e1'', op_buildArtifactId = Some ''b'',
     op_kind = ''deploy'', op_status = OpRunning, op_phase = Queued, op_version = Some ''v2'', op_message = None,
     op_owner = None, op_generation = 0, op_leaseExpiresAt = None, op_targetIdSnapshot = Some ''k'',
     op_targetName = ''box'', op_providerSnapshot = Docker, op_createdAt = 0, op_finishedAt = None\<rparr>"

definition sample_env :: environment_row where
  "sample_env = \<lparr>en_id = ''e1'', en_projectId = ''p'', en_name = Dev, en_provider = Docker,
     en_status = EsDeploying, en_version = Some ''v1'', en_url = None, en_statusReason = None,
     en_deploymentRequired = False, en_targetId = Some ''k'', en_allocationId = None,
     en_activeOperationId = Some ''o'', en_buildArtifactId = None, en_configRevision = 0,
     en_expiresAt = None, en_expiryWarningAt = None\<rparr>"

definition sample_var :: config_var_row where
  "sample_var = \<lparr>cv_environmentId = ''e1'', cv_key = ''K'', cv_value = ''x'', cv_isSecret = True, cv_updatedAt = 0\<rparr>"

definition sample_artifact :: artifact_row where
  "sample_artifact = \<lparr>ba_id = ''b'', ba_projectId = ''p'', ba_sourceProvider = ''gitea'', ba_providerArtifactId = ''1'',
     ba_commitSha = ''v2'', ba_digest = ''sha256:'' @ replicate 64 (CHR ''a''), ba_providerRunId = ''1'',
     ba_storageKind = Some ''object-store'', ba_storageRef = Some ''ref'', ba_sizeBytes = 7, ba_status = AfAvailable,
     ba_imageRef = None, ba_error = None, ba_owner = None, ba_generation = 0, ba_leaseExpiresAt = None, ba_updatedAt = 0, ba_createdAt = 0\<rparr>"

definition deploy_job :: agent_job_row where
  "deploy_job = sample_job\<lparr>aj_kind := ''deploy'', aj_operationId := Some ''o'', aj_operationStep := Some 1,
     aj_payload := JObj [(''configFingerprint'', JStr (fingerprint_part sample_var))],
     aj_status := JbLeased, aj_attempt := 1, aj_leasedByAgentId := Some ''a'', aj_leaseTokenHash := Some ''h1'',
     aj_leaseExpiresAt := Some 100\<rparr>"

definition running_report :: complete_input where
  "running_report = \<lparr>ci_leaseToken = ''t'', ci_status = CoSucceeded, ci_message = ''up'', ci_resultCode = None,
     ci_result = Some \<lparr>jr_state = ''running'', jr_revision = Some ''v2'', jr_hostPort = Some 8080, jr_workloadSlot = None\<rparr>,
     ci_gatewayCaSha256 = None, ci_diagnostic = None\<rparr>"

definition deploying_db :: db where
  "deploying_db = hosting_db\<lparr>targets := [sftp_target\<lparr>tg_id := ''k'', tg_name := ''box'', tg_kind := Docker, tg_publicUrl := Some ''http://a/''\<rparr>],
     environments := [sample_env], operations := [sample_op], agentJobs := [deploy_job],
     artifacts := [sample_artifact], configVars := [sample_var]\<rparr>"

definition revoked_db :: db where
  "revoked_db = unavailable_tx (sftp_target\<lparr>tg_id := ''k'', tg_kind := Docker\<rparr>) MgRetired 0 4 deploying_db"

theorem deactivation_reaches_requests_in_flight_witness:
  "let pf = sample_platform\<lparr>pf_mid := \<lambda>_ _. revoked_db\<rparr> in
     complete_job pf sample_auth ''j'' running_report deploying_db = (revoked_db, Inl lost_job_lease) \<and>
     complete_job sample_platform sample_auth ''j'' running_report deploying_db \<noteq> (deploying_db, Inl lost_job_lease)"
proof -
  let ?pf = "sample_platform\<lparr>pf_mid := \<lambda>_ _. revoked_db\<rparr>"
  obtain a where a: "authenticate_credential (pf_hash ?pf) sample_auth deploying_db = Inr a" "aa_targetId a = ''k''"
  proof -
    have "map_sum id aa_targetId (authenticate_credential (pf_hash ?pf) sample_auth deploying_db) = Inr ''k''" by code_simp
    then show thesis using that by (cases "authenticate_credential (pf_hash ?pf) sample_auth deploying_db") auto
  qed
  have "cut_off ''k'' revoked_db"
    using unavailable_tx_cut_off [of "sftp_target\<lparr>tg_id := ''k'', tg_kind := Docker\<rparr>"] by (simp add: revoked_db_def)
  with a(2) have cut: "cut_off (aa_targetId a) (pf_mid ?pf k x)" for k x by simp
  have "succeeds (snd (complete_job sample_platform sample_auth ''j'' running_report deploying_db))" by code_simp
  then have "complete_job sample_platform sample_auth ''j'' running_report deploying_db \<noteq> (deploying_db, Inl lost_job_lease)" by auto
  moreover from deactivation_reaches_requests_in_flight [OF a(1) cut, where i = "''j''" and c = running_report]
  have "complete_job ?pf sample_auth ''j'' running_report deploying_db = (revoked_db, Inl lost_job_lease)" by simp
  ultimately show ?thesis by (simp add: Let_def)
qed

theorem agent_result_round_trip_witness:
  "let r = \<lparr>jr_state = ''running'', jr_revision = Some ''v2'', jr_hostPort = Some 8080, jr_workloadSlot = None\<rparr> in
     job_result_of (Some (result_json r)) = Some r \<and> \<not> same_result (Some (result_json r)) None"
proof -
  let ?r = "\<lparr>jr_state = ''running'', jr_revision = Some ''v2'', jr_hostPort = Some 8080, jr_workloadSlot = None\<rparr> :: job_result"
  have "valid_result ?r" by (simp add: valid_result_def job_states_def)
  from agent_result_round_trip [OF this, of None] show ?thesis by simp
qed

definition ended_job :: agent_job_row where
  "ended_job = completed_job running_report 6 deploy_job"

definition ended_db :: db where
  "ended_db = deploying_db\<lparr>agentJobs := [ended_job]\<rparr>"

theorem direct_operation_ends_with_its_job_witness:
  "\<exists>d' r' e'. reconcile_terminal reconcile_depth sample_platform 9 ''j'' ended_db = (d', Inr ()) \<and>
     operation_by_id ''o'' d' = Some r' \<and> op_status r' = OpResult Succeeded \<and>
     environment_by_id ''e1'' d' = Some e' \<and> en_version e' = Some ''v2''"
proof -
  have j: "agent_job_by_id ''j'' ended_db = Some ended_job" "aj_operationId ended_job = Some (op_id sample_op)"
    and r: "operation_by_id (op_id sample_op) ended_db = Some sample_op" "running_op sample_op" "ended ended_job"
    and e: "environment_by_id (op_environmentId sample_op) ended_db = Some sample_env"
      "en_activeOperationId sample_env = Some (op_id sample_op)"
    and t: "map_option tg_routingMode (target_by_id (en_targetId sample_env) ended_db) \<noteq> Some ManagedGateway"
    and m: "pf_mid sample_platform 0 ended_db = ended_db"
    by (simp_all add: ended_db_def deploying_db_def ended_job_def deploy_job_def sample_job_def completed_job_def running_report_def
        sample_op_def sample_env_def agent_job_by_id_def operation_by_id_def environment_by_id_def running_op_def ended_def
        target_by_id_def sftp_target_def sample_platform_def)
  have url: "\<exists>u. workload_url (pf_with_port sample_platform)
      (Option.bind (target_by_id (en_targetId sample_env) ended_db) tg_publicUrl) p = Inr u" for p
    by (simp add: workload_url_def sample_platform_def ended_db_def deploying_db_def sample_env_def target_by_id_def sftp_target_def)
  have f: "fulfils sample_op ended_job" by code_simp
  have k: "aj_kind ended_job = ''deploy''" "op_version sample_op = Some ''v2''" "op_id sample_op = ''o''" "op_environmentId sample_op = ''e1''"
    by (simp_all add: ended_job_def deploy_job_def completed_job_def sample_op_def)
  from direct_operation_ends_with_its_job [OF j r e t m url, of 2 9] f k
  show ?thesis by (auto simp: fulfilled_environment_def reconcile_depth_def eval_nat_numeral simp del: reconcile_terminal.simps)
qed

theorem reconciling_keeps_ended_jobs_witness:
  "agent_job_by_id ''j'' (fst (reconcile_terminal reconcile_depth sample_platform 9 ''j'' ended_db)) = Some ended_job"
proof -
  have "quiet_under jobs_extend sample_platform" by (simp add: quiet_under_def sample_platform_def je.R_refl)
  moreover have "agent_job_by_id ''j'' ended_db = Some ended_job" "\<not> open_job ended_job"
    by (simp_all add: ended_db_def ended_job_def deploy_job_def sample_job_def completed_job_def running_report_def
        agent_job_by_id_def open_job_def)
  ultimately show ?thesis by (rule reconciling_keeps_ended_jobs)
qed

theorem completion_is_repeatable_witness:
  "\<exists>d' d'' j. complete_job sample_platform sample_auth ''j'' running_report deploying_db = (d', Inr j) \<and>
     fst (complete_job (sample_platform\<lparr>pf_now := \<lambda>_. 50\<rparr>) sample_auth ''j'' running_report d') = d'' \<and>
     agent_job_by_id ''j'' d'' = Some j"
proof -
  obtain d' r where run: "complete_job sample_platform sample_auth ''j'' running_report deploying_db = (d', r)" by fastforce
  have "map_sum id aj_kind (snd (complete_job sample_platform sample_auth ''j'' running_report deploying_db)) = Inr ''deploy''"
    by code_simp
  with run obtain j where j: "r = Inr j" "aj_kind j \<noteq> ''logs''" by (cases r) auto
  have m: "pf_mid sample_platform k x = x" "pf_mid (sample_platform\<lparr>pf_now := \<lambda>_. 50\<rparr>) k x = x" for k x
    by (simp_all add: sample_platform_def)
  have k: "keyed aj_id (agentJobs deploying_db)" by (simp add: deploying_db_def keyed_def)
  have v: "valid_result x" if "ci_result running_report = Some x" for x
    using that by (auto simp: running_report_def valid_result_def job_states_def)
  from completion_is_repeatable [OF run [unfolded j(1)] m(1) k v j(2) m(2)] run j(1)
  show ?thesis by fastforce
qed

lemma sample_digest: "normalized_digest (''sha256:'' @ replicate 64 (CHR ''a'')) = Inr (replicate 64 (CHR ''a''))" by code_simp

lemma sample_binding: "assert_delivery_binding deploy_job deploying_db =
  Inr \<lparr>db_job = deploy_job, db_artifact = sample_artifact, db_storageRef = ''ref'', db_environment = sample_env\<rparr>"
  by (simp add: assert_delivery_binding_def deploying_db_def deploy_job_def sample_job_def sample_op_def operation_by_id_def
      artifact_by_id_def environment_by_id_def sample_artifact_def sample_env_def)

lemma sample_lease: "find_first (active_lease sample_auth_agent ''j'' ''h1'' 9 deploying_db) (agentJobs deploying_db) = Some deploy_job"
proof -
  have "active_lease sample_auth_agent ''j'' ''h1'' 9 deploying_db deploy_job" by code_simp
  then show ?thesis by (simp add: deploying_db_def)
qed

lemma sample_config: "config_of (pf_collate sample_platform) ''e1'' deploying_db = [sample_var]"
  "queued_fingerprint deploy_job = agent_config_fingerprint (pf_hmac sample_platform) (pf_collate sample_platform) [sample_var]"
  "queued_fingerprint deploy_job \<noteq> []"
  by code_simp+

lemma sample_delivery: "map_sum id dl_envVars (delivery_for_lease sample_platform sample_auth_agent ''j'' ''t'' 9 deploying_db) =
  Inr [(''K'', ''x'')]"
proof -
  have "pf_hash sample_platform ''t'' = ''h1''" "pf_decrypt sample_platform = Inr" "pf_head sample_platform r = Some 7" for r
    by (simp_all add: sample_platform_def)
  moreover have "en_id sample_env = ''e1''" "ba_sizeBytes sample_artifact = 7"
    "ba_digest sample_artifact = ''sha256:'' @ replicate 64 (CHR ''a'')"
    by (simp_all add: sample_env_def sample_artifact_def)
  moreover have "cv_isSecret sample_var" "cv_value sample_var = ''x''" "cv_key sample_var = ''K''" by (simp_all add: sample_var_def)
  moreover note sample_config(3) [unfolded sample_config(2)]
  ultimately show ?thesis
    by (simp only: delivery_for_lease_def sample_lease option.case sample_binding sum.case Let_def delivery_binding.simps
        sample_config stored_object_def safe_size_def sample_digest) simp
qed

theorem delivery_is_the_queued_configuration_witness:
  "\<exists>dl a. delivery_for_lease sample_platform a ''j'' ''t'' 9 deploying_db = Inr dl \<and> dl_envVars dl = [(''K'', ''x'')] \<and>
     list_all2 (delivered Inr) [sample_var] (dl_envVars dl)"
proof -
  let ?a = sample_auth_agent
  obtain r where run: "delivery_for_lease sample_platform ?a ''j'' ''t'' 9 deploying_db = r" by blast
  from sample_delivery run obtain dl where dl: "r = Inr dl" "dl_envVars dl = [(''K'', ''x'')]" by (cases r) auto
  have clean: "clean_vars [sample_var]" "clean_vars (configVars deploying_db)"
    by (simp_all add: clean_vars_def no_nul_def sample_var_def deploying_db_def)
  have q: "queued_fingerprint j = agent_config_fingerprint (pf_hmac sample_platform) (pf_collate sample_platform) [sample_var]"
    if "j \<in> set (agentJobs deploying_db)" for j
    using that by (simp add: deploying_db_def deploy_job_def queued_fingerprint_def json_string_def or_else_def
        agent_config_fingerprint_def sort_vars_def sample_platform_def)
  have h: "pf_hmac sample_platform x = pf_hmac sample_platform y \<Longrightarrow> x = y" for x y by (simp add: sample_platform_def)
  have c: "pf_collate sample_platform x y \<or> pf_collate sample_platform y x" for x y by (simp add: sample_platform_def)
  from delivery_is_the_queued_configuration [OF run [unfolded dl(1)] h c clean q] run dl
  show ?thesis by (auto simp: sample_platform_def sort_vars_def)
qed

definition sample_route :: gateway_route_row where
  "sample_route = (new_route ''g'' ''e1'' ''k'' ''al'' ''h.a.org'')\<lparr>gr_observedState := ''active'', gr_observedRevision := Some ''v2'',
     gr_observedGeneration := 1\<rparr>"

definition route_job_done :: agent_job_row where
  "route_job_done = ended_job\<lparr>aj_kind := ''gateway-route'', aj_operationStep := Some 2, aj_payload := JObj [(''generation'', JNum 1)]\<rparr>"

theorem managed_deployment_is_published_witness:
  "\<exists>d' e'. reconcile_managed (\<lambda>_ d. (d, Inr ())) sample_platform 9 route_job_done sample_op sample_env (Some sample_route) ended_db ended_db = (d', Inr ()) \<and>
     environment_by_id ''e1'' d' = Some e' \<and> en_activeOperationId e' = None"
proof -
  have "ended route_job_done" "aj_status route_job_done = JbFailed \<or> aj_operationStep route_job_done \<noteq> Some 1"
    "op_kind sample_op \<notin> {''stop'', ''remove''}" "operation_by_id (op_id sample_op) ended_db = Some sample_op" "running_op sample_op"
    "environment_by_id (op_environmentId sample_op) ended_db = Some sample_env" "en_activeOperationId sample_env = Some (op_id sample_op)"
    by (simp_all add: route_job_done_def ended_job_def deploy_job_def completed_job_def running_report_def ended_def sample_op_def
        sample_env_def ended_db_def deploying_db_def operation_by_id_def environment_by_id_def running_op_def)
  from managed_deployment_is_published [OF this, of "\<lambda>_ d. (d, Inr ())" sample_platform 9 "Some sample_route" ended_db]
  show ?thesis by (auto simp: sample_op_def)
qed

theorem newest_route_intent_wins_witness:
  "\<exists>d' r. queue_reconcile sample_sha sample_parse (\<lambda>_. False) (\<lambda>x. x) (\<lambda>x. x) ''r'' ''j'' ''c'' 5 ''e1'' stop_request routed_db = (d', Inr r) \<and>
     route_of ''e1'' (reconcile_gateway_route (\<lambda>x. x) 9 ''old'' d') = route_of ''e1'' d'"
proof -
  obtain d' r where run: "queue_reconcile sample_sha sample_parse (\<lambda>_. False) (\<lambda>x. x) (\<lambda>x. x) ''r'' ''j'' ''c'' 5 ''e1'' stop_request routed_db = (d', r)"
    by fastforce
  have "succeeds (snd (queue_reconcile sample_sha sample_parse (\<lambda>_. False) (\<lambda>x. x) (\<lambda>x. x) ''r'' ''j'' ''c'' 5 ''e1'' stop_request routed_db))"
    by code_simp
  with run obtain j where ok: "r = Inr j" by (auto simp: succeeds_iff)
  have "length (agentJobs (fst (queue_reconcile sample_sha sample_parse (\<lambda>_. False) (\<lambda>x. x) (\<lambda>x. x) ''r'' ''j'' ''c'' 5 ''e1'' stop_request routed_db))) = 1
    \<and> map gr_id (gatewayRoutes (fst (queue_reconcile sample_sha sample_parse (\<lambda>_. False) (\<lambda>x. x) (\<lambda>x. x) ''r'' ''j'' ''c'' 5 ''e1'' stop_request routed_db))) = [''r'']"
    by code_simp
  with run have len: "length (agentJobs d') = 1" "map gr_id (gatewayRoutes d') = [''r'']" by simp_all
  have none: "agentJobs routed_db = []" by (simp add: routed_db_def hosting_db_def empty_db_def)
  with len have new: "agentJobs d' \<noteq> agentJobs routed_db" by auto
  have ids: "gr_id g \<noteq> []" if "g \<in> set (gatewayRoutes d')" for g
  proof -
    have "gr_id g \<in> set (map gr_id (gatewayRoutes d'))" using that by simp
    then show ?thesis unfolding len(2) by simp
  qed
  have "keyed gr_id (gatewayRoutes routed_db)" "''r'' \<notin> gr_id ` set (gatewayRoutes routed_db)" "''j'' \<notin> aj_id ` set (agentJobs routed_db)"
    by (simp_all add: keyed_def routed_db_def hosting_db_def empty_db_def)
  from newest_route_intent_wins [OF run [unfolded ok] this(1,2) new this(3) refl ids, of "''old''" 9] run ok
  show ?thesis by auto
qed

theorem reconcile_depth_suffices_witness:
  "reconcile_terminal 10 sample_platform 9 ''j'' ended_db = reconcile_terminal reconcile_depth sample_platform 9 ''j'' ended_db"
proof -
  have "sound_jobs ended_db" by (simp add: sound_jobs_def keyed_def ended_db_def ended_job_def deploy_job_def sample_job_def completed_job_def)
  moreover have "sound_pauses sample_platform" "quiet_under jobs_extend sample_platform"
    by (simp_all add: sound_pauses_def quiet_under_def sample_platform_def je.R_refl)
  ultimately have "reconcile_terminal (reconcile_depth + 7) sample_platform 9 ''j'' ended_db =
      reconcile_terminal reconcile_depth sample_platform 9 ''j'' ended_db" by (rule reconcile_depth_suffices)
  moreover have "reconcile_depth + 7 = 10" by (simp add: reconcile_depth_def)
  ultimately show ?thesis by (simp only:)
qed

end

