(* ===== verification/SupervisorRelease.thy ===== *)
theory SupervisorRelease
  imports Agents GatewayHosts
begin

text \<open>
  What the Supervisor accepts (\<open>apps/supervisor/src/release.ts\<close>, \<open>auth.ts\<close>): versions and their order, the
  canonical base64 of a release manifest, the manifest itself, the signed release, and the signature of
  a request. JSON parsing, the Sigstore verifier and the digests are parameters. Versions are compared
  as unbounded numbers, manifests are lists of bytes.
\<close>

section \<open>Versions\<close>

type_synonym 'a checked = "string + 'a"

definition canonical_number :: "string \<Rightarrow> bool" where
  "canonical_number ds = (ds \<noteq> [] \<and> list_all is_digit ds \<and> (hd ds = CHR ''0'' \<longrightarrow> ds = ''0''))"

definition parse_release_version :: "string \<Rightarrow> (nat \<times> nat \<times> nat) option" where
  "parse_release_version s = (case split_dots s of
      [a, b, c] \<Rightarrow> if canonical_number a \<and> canonical_number b \<and> canonical_number c
        then Some (digits_value a, digits_value b, digits_value c) else None
    | _ \<Rightarrow> None)"

definition compare_versions :: "string \<Rightarrow> string \<Rightarrow> int checked" where
  "compare_versions l r = (case (parse_release_version l, parse_release_version r) of
      (Some (a0, a1, a2), Some (b0, b1, b2)) \<Rightarrow> Inr
        (if a0 \<noteq> b0 then int a0 - int b0 else if a1 \<noteq> b1 then int a1 - int b1
         else if a2 \<noteq> b2 then int a2 - int b2 else 0)
    | _ \<Rightarrow> Inl ''Platform release version is invalid'')"

section \<open>Base64\<close>

definition b64_alphabet :: string where
  "b64_alphabet = ''ABCDEFGHIJKLMNOPQRSTUVWXYZabcdefghijklmnopqrstuvwxyz0123456789+/''"

definition b64_char :: "nat \<Rightarrow> char" where
  "b64_char n = b64_alphabet ! n"

definition b64_value :: "char \<Rightarrow> nat" where
  "b64_value c = length (takeWhile (\<lambda>x. x \<noteq> c) b64_alphabet)"

fun b64_sextets :: "nat list \<Rightarrow> nat list" where
  "b64_sextets (a # b # c # r) =
     [a div 4, a mod 4 * 16 + b div 16, b mod 16 * 4 + c div 64, c mod 64] @ b64_sextets r"
| "b64_sextets [a, b] = [a div 4, a mod 4 * 16 + b div 16, b mod 16 * 4]"
| "b64_sextets [a] = [a div 4, a mod 4 * 16]"
| "b64_sextets [] = []"

fun b64_bytes :: "nat list \<Rightarrow> nat list" where
  "b64_bytes (a # b # c # e # r) =
     [a * 4 + b div 16, b mod 16 * 16 + c div 4, c mod 4 * 64 + e] @ b64_bytes r"
| "b64_bytes [a, b, c] = [a * 4 + b div 16, b mod 16 * 16 + c div 4]"
| "b64_bytes [a, b] = [a * 4 + b div 16]"
| "b64_bytes _ = []"

definition b64_padding :: "nat \<Rightarrow> string" where
  "b64_padding n = (if n mod 3 = 1 then ''=='' else if n mod 3 = 2 then ''='' else [])"

text \<open>\<open>Buffer.toString('base64')\<close>, and \<open>Buffer.from\<close> on text of the alphabet with padding at its end.\<close>

definition b64_encode :: "nat list \<Rightarrow> string" where
  "b64_encode bs = map b64_char (b64_sextets bs) @ b64_padding (length bs)"

definition b64_decode :: "string \<Rightarrow> nat list" where
  "b64_decode s = b64_bytes (map b64_value (takeWhile (\<lambda>c. c \<noteq> CHR ''='') s))"

definition b64_shape :: "string \<Rightarrow> bool" where
  "b64_shape s = (let body = takeWhile (\<lambda>c. c \<in> set b64_alphabet) s; rest = dropWhile (\<lambda>c. c \<in> set b64_alphabet) s
     in body \<noteq> [] \<and> rest \<in> {[], ''='', ''==''})"

definition max_manifest_bytes :: nat where "max_manifest_bytes = 512 * 1024"

definition decode_manifest :: "json \<Rightarrow> nat list checked" where
  "decode_manifest v =
     (let bad = Inl ''Platform release manifest encoding is invalid'' in
      case v of
        JStr s \<Rightarrow>
          if s = [] \<or> length s > (max_manifest_bytes * 4 + 2) div 3 + 4 \<or> \<not> b64_shape s then bad
          else (let bytes = b64_decode s in
            if bytes = [] \<or> length bytes > max_manifest_bytes \<or> b64_encode bytes \<noteq> s then bad else Inr bytes)
      | _ \<Rightarrow> bad)"

section \<open>The manifest\<close>

record platform_image =
  pi_name :: string
  pi_digest :: string
  pi_reference :: string

record release_manifest =
  rm_version :: string
  rm_repository :: string
  rm_tag :: string
  rm_commit :: string
  rm_api :: platform_image
  rm_web :: platform_image
  rm_supervisor :: platform_image
  rm_composeSha256 :: string

definition hex_digits :: "nat \<Rightarrow> string \<Rightarrow> bool" where
  "hex_digits n s = (length s = n \<and> list_all (\<lambda>c. c \<in> set ''0123456789abcdef'') s)"

definition digest_ok :: "string \<Rightarrow> bool" where
  "digest_ok s = (starts_with ''sha256:'' s \<and> hex_digits 64 (drop 7 s))"

definition image_char :: "char \<Rightarrow> bool" where
  "image_char c = (is_upper c \<or> is_lower c \<or> is_digit c \<or> c \<in> set ''._:/-'')"

text \<open>Characters of an image name, an at sign, and a digest.\<close>

definition image_ok :: "string \<Rightarrow> bool" where
  "image_ok s = (let name = takeWhile image_char s; rest = dropWhile image_char s in
     name \<noteq> [] \<and> rest \<noteq> [] \<and> hd rest = CHR ''@'' \<and> digest_ok (tl rest))"

definition exact_keys :: "json \<Rightarrow> string list \<Rightarrow> bool" where
  "exact_keys v ks = (case v of JObj fs \<Rightarrow> length fs = length ks \<and> list_all (\<lambda>f. fst f \<in> set ks) fs | _ \<Rightarrow> False)"

definition is_object :: "json option \<Rightarrow> bool" where
  "is_object v = (case v of Some (JObj _) \<Rightarrow> True | _ \<Rightarrow> False)"

definition text_field :: "json \<Rightarrow> string \<Rightarrow> string option" where
  "text_field v k = (case json_get v k of Some (JStr s) \<Rightarrow> Some s | _ \<Rightarrow> None)"

definition both_platforms :: "json option \<Rightarrow> bool" where
  "both_platforms v = (case v of
      Some (JArr [JStr a, JStr b]) \<Rightarrow> {''linux/amd64'', ''linux/arm64''} \<subseteq> {a, b}
    | _ \<Rightarrow> False)"

definition parse_image :: "json option \<Rightarrow> platform_image checked" where
  "parse_image v =
     (let bad = Inl ''Platform release image is invalid'' in
      if \<not> is_object v then bad
      else if \<not> exact_keys (the v) [''name'', ''digest'', ''immutableReference'', ''platforms'']
      then Inl ''Platform release image has unsupported fields''
      else (case (text_field (the v) ''name'', text_field (the v) ''digest'', text_field (the v) ''immutableReference'') of
          (Some n, Some g, Some r) \<Rightarrow>
            if contains ''@'' n \<or> contains '':'' n \<or> \<not> digest_ok g \<or> \<not> image_ok r \<or> r \<noteq> n @ ''@'' @ g \<or>
               \<not> both_platforms (json_get (the v) ''platforms'')
            then bad else Inr \<lparr>pi_name = n, pi_digest = g, pi_reference = r\<rparr>
        | _ \<Rightarrow> bad))"

definition manifest_ok :: "string \<Rightarrow> string \<Rightarrow> json \<Rightarrow> bool" where
  "manifest_ok repository version m =
     (let source = the (json_get m ''source''); compose = the (json_get m ''compose''); database = the (json_get m ''database'') in
      json_get m ''schemaVersion'' = Some (JNum 1) \<and> text_field m ''component'' = Some ''initpad-platform'' \<and>
      text_field m ''version'' = Some version \<and> parse_release_version version \<noteq> None \<and>
      text_field source ''repository'' = Some (''https://github.com/'' @ repository) \<and>
      text_field source ''tag'' = Some (''initpad-v'' @ version) \<and>
      (case text_field source ''commit'' of Some c \<Rightarrow> hex_digits 40 c | None \<Rightarrow> False) \<and>
      text_field compose ''file'' = Some ''initpad-release.override.yml'' \<and>
      (case text_field compose ''sha256'' of Some h \<Rightarrow> hex_digits 64 h | None \<Rightarrow> False) \<and>
      text_field database ''migrationMode'' = Some ''expand-contract'' \<and>
      text_field database ''rollback'' = Some ''image-compatible'' \<and>
      json_get database ''backupRequired'' = Some (JBool True))"

definition parse_manifest :: "json \<Rightarrow> string \<Rightarrow> string \<Rightarrow> release_manifest checked" where
  "parse_manifest m repository version =
     (if \<not> is_object (Some m) then Inl ''Platform release manifest is invalid''
      else if \<not> exact_keys m [''schemaVersion'', ''component'', ''version'', ''source'', ''images'', ''compose'', ''database'']
      then Inl ''Platform release manifest has unsupported fields''
      else if \<not> is_object (json_get m ''source'') \<or> \<not> is_object (json_get m ''images'') \<or>
          \<not> is_object (json_get m ''compose'') \<or> \<not> is_object (json_get m ''database'')
      then Inl ''Platform release manifest is invalid''
      else if \<not> exact_keys (the (json_get m ''source'')) [''repository'', ''tag'', ''commit'']
      then Inl ''Platform release source has unsupported fields''
      else if \<not> exact_keys (the (json_get m ''images'')) [''api'', ''web'', ''supervisor'']
      then Inl ''Platform release images has unsupported fields''
      else if \<not> exact_keys (the (json_get m ''compose'')) [''file'', ''sha256'']
      then Inl ''Platform release Compose descriptor has unsupported fields''
      else if \<not> exact_keys (the (json_get m ''database'')) [''migrationMode'', ''rollback'', ''backupRequired'']
      then Inl ''Platform release database contract has unsupported fields''
      else if \<not> manifest_ok repository version m then Inl ''Platform release manifest is invalid''
      else (let images = the (json_get m ''images'') in
        case parse_image (json_get images ''api'') of Inl e \<Rightarrow> Inl e
        | Inr a \<Rightarrow> (case parse_image (json_get images ''web'') of Inl e \<Rightarrow> Inl e
          | Inr w \<Rightarrow> (case parse_image (json_get images ''supervisor'') of Inl e \<Rightarrow> Inl e
            | Inr s \<Rightarrow> Inr \<lparr>rm_version = version, rm_repository = ''https://github.com/'' @ repository,
                rm_tag = ''initpad-v'' @ version, rm_commit = the (text_field (the (json_get m ''source'')) ''commit''),
                rm_api = a, rm_web = w, rm_supervisor = s,
                rm_composeSha256 = the (text_field (the (json_get m ''compose'')) ''sha256'')\<rparr>))))"

section \<open>The signed release\<close>

text \<open>
  \<open>parse\<close> is \<open>JSON.parse\<close> and \<open>verifier bundle bytes identity\<close> the check of the Sigstore bundle against the
  workflow identity that must have signed it: the error it throws, or nothing.
\<close>

definition release_identity :: "string \<Rightarrow> string \<Rightarrow> string" where
  "release_identity repository version = ''https://github.com/'' @ repository @
     ''/.github/workflows/release-platform.yml@refs/tags/initpad-v'' @ version"

definition verify_release ::
  "(nat list \<Rightarrow> json option) \<Rightarrow> (json \<Rightarrow> nat list \<Rightarrow> string \<Rightarrow> string option) \<Rightarrow> string \<Rightarrow> json \<Rightarrow> string
     \<Rightarrow> release_manifest checked" where
  "verify_release parse verifier repository r current =
     (if \<not> is_object (Some r) then Inl ''Signed platform release is invalid''
      else if \<not> exact_keys r [''version'', ''manifestBase64'', ''bundle''] then Inl ''Signed platform release has unsupported fields''
      else case Option.bind (text_field r ''version'') (\<lambda>v. map_option (\<lambda>_. v) (parse_release_version v)) of
        None \<Rightarrow> Inl ''Platform release version is invalid''
      | Some v \<Rightarrow> (case compare_versions v current of Inl e \<Rightarrow> Inl e
        | Inr n \<Rightarrow>
            if n \<le> 0 then Inl ''Platform release must be newer than the installed version''
            else (case decode_manifest (case json_get r ''manifestBase64'' of None \<Rightarrow> JNull | Some x \<Rightarrow> x) of Inl e \<Rightarrow> Inl e
              | Inr bytes \<Rightarrow>
                  if \<not> is_object (json_get r ''bundle'') then Inl ''Platform release signature bundle is invalid''
                  else (case parse bytes of None \<Rightarrow> Inl ''Platform release manifest is not valid JSON''
                    | Some j \<Rightarrow> (case parse_manifest j repository v of Inl e \<Rightarrow> Inl e
                      | Inr m \<Rightarrow> (case verifier (the (json_get r ''bundle'')) bytes (release_identity repository v) of
                          Some e \<Rightarrow> Inl e | None \<Rightarrow> Inr m))))))"

definition as_signed_release :: "json \<Rightarrow> json checked" where
  "as_signed_release v = (case (text_field v ''version'', text_field v ''manifestBase64'') of
      (Some ver, Some b) \<Rightarrow>
        if \<not> is_object (json_get v ''bundle'') then Inl ''Signed platform release is invalid''
        else Inr (JObj [(''version'', JStr ver), (''manifestBase64'', JStr b), (''bundle'', the (json_get v ''bundle''))])
    | _ \<Rightarrow> Inl ''Signed platform release is invalid'')"

section \<open>Signed requests\<close>

text \<open>\<open>hmac secret text\<close> and \<open>sha\<close> print hexadecimal digits.\<close>

definition line_feed :: string where "line_feed = [CHR 0x0A]"

definition signed_text ::
  "(string \<Rightarrow> string) \<Rightarrow> string \<Rightarrow> string \<Rightarrow> string \<Rightarrow> string \<Rightarrow> string \<Rightarrow> string" where
  "signed_text sha meth path timestamp requestId body =
     ''v2'' @ line_feed @ meth @ line_feed @ path @ line_feed @ timestamp @ line_feed @ requestId @ line_feed @ sha body"

definition sign_request ::
  "(string \<Rightarrow> string \<Rightarrow> string) \<Rightarrow> (string \<Rightarrow> string) \<Rightarrow> string \<Rightarrow> string \<Rightarrow> string \<Rightarrow> string \<Rightarrow> string \<Rightarrow> string \<Rightarrow> string" where
  "sign_request hmac sha secret meth path timestamp requestId body =
     hmac secret (signed_text sha meth path timestamp requestId body)"

record signed_request =
  sq_method :: string
  sq_path :: string
  sq_timestamp :: "string option"
  sq_requestId :: "string option"
  sq_signature :: "string option"
  sq_body :: string

definition request_millis :: "string \<Rightarrow> nat" where
  "request_millis t = (if length t = 10 then digits_value t * 1000 else digits_value t)"

definition authenticate_request ::
  "(string \<Rightarrow> string \<Rightarrow> string) \<Rightarrow> (string \<Rightarrow> string) \<Rightarrow> string \<Rightarrow> instant \<Rightarrow> signed_request \<Rightarrow> string option" where
  "authenticate_request hmac sha secret now q =
     (if length secret < 32 then Some ''Supervisor shared secret is not configured safely''
      else case sq_timestamp q of
        None \<Rightarrow> Some ''Supervisor request timestamp is invalid''
      | Some t \<Rightarrow>
          if \<not> (10 \<le> length t \<and> length t \<le> 13 \<and> list_all is_digit t) then Some ''Supervisor request timestamp is invalid''
          else if abs (now - int (request_millis t)) > 60000
          then Some ''Supervisor request timestamp is outside the allowed window''
          else (case sq_requestId q of
              None \<Rightarrow> Some ''Supervisor request id is invalid''
            | Some i \<Rightarrow>
                if \<not> uuid_v4 i then Some ''Supervisor request id is invalid''
                else (case sq_signature q of
                    None \<Rightarrow> Some ''Supervisor request signature is invalid''
                  | Some g \<Rightarrow>
                      if \<not> hex_digits 64 g \<or> g \<noteq> sign_request hmac sha secret (sq_method q) (sq_path q) t i (sq_body q)
                      then Some ''Supervisor request signature is invalid'' else None)))"

section \<open>The order of versions\<close>

lemma digits_value_snoc: "digits_value (ds @ [c]) = 10 * digits_value ds + (of_char c - 48)"
  by (simp add: digits_value_def)

lemma digit_back: "is_digit c \<Longrightarrow> char_of (48 + (of_char c - 48) :: nat) = c"
  by (simp add: is_digit_def Let_def)

lemma digit_bound: "is_digit c \<Longrightarrow> (of_char c - 48 :: nat) < 10"
  by (auto simp: is_digit_def Let_def)

lemma digits_value_0: "list_all is_digit ds \<Longrightarrow> digits_value ds = 0 \<Longrightarrow> set ds \<subseteq> {CHR ''0''}"
proof (induction ds rule: rev_induct)
  case Nil
  then show ?case by simp
next
  case (snoc c ds)
  then have c: "is_digit c" "(of_char c - 48 :: nat) = 0" and ds: "digits_value ds = 0" "list_all is_digit ds"
    by (simp_all add: digits_value_snoc)
  have "char_of (48 :: nat) = CHR ''0''" by code_simp
  with c digit_back [OF c(1)] have "c = CHR ''0''" by simp
  with snoc.IH ds show ?case by simp
qed

lemma canonical_printed: "canonical_number ds \<Longrightarrow> nat_str (digits_value ds) = ds"
proof (induction ds rule: rev_induct)
  case Nil
  then show ?case by (simp add: canonical_number_def)
next
  case (snoc c ds)
  then have c: "is_digit c" and ds: "list_all is_digit ds" by (simp_all add: canonical_number_def)
  show ?case
  proof (cases "ds = []")
    case True
    with c digit_bound [OF c] digit_back [OF c] show ?thesis
      by (simp add: nat_str.simps digits_value_def)
  next
    case False
    with snoc.prems have h: "hd ds \<noteq> CHR ''0''" by (auto simp: canonical_number_def)
    with False ds have can: "canonical_number ds" by (auto simp: canonical_number_def)
    have "digits_value ds \<noteq> 0"
    proof
      assume "digits_value ds = 0"
      from digits_value_0 [OF ds this] False have "hd ds = CHR ''0''" by (cases ds) auto
      with h show False ..
    qed
    with digit_bound [OF c] digit_back [OF c] snoc.IH [OF can] show ?thesis
      by (subst nat_str.simps) (simp add: digits_value_snoc)
  qed
qed

lemma split_dots_join: "split_dots s = [a, b, c] \<Longrightarrow> s = a @ ''.'' @ b @ ''.'' @ c"
proof -
  have join: "s = concat (map (\<lambda>l. l @ ''.'') (butlast (split_dots s))) @ last (split_dots s)" for s
    by (induction s) (auto split: list.splits)
  assume "split_dots s = [a, b, c]"
  with join [of s] show ?thesis by simp
qed

definition version_before :: "nat \<times> nat \<times> nat \<Rightarrow> nat \<times> nat \<times> nat \<Rightarrow> bool" where
  "version_before x y = (case (x, y) of ((a, b, c), (a', b', c')) \<Rightarrow> a < a' \<or> a = a' \<and> (b < b' \<or> b = b' \<and> c < c'))"

lemma release_version_injective:
  assumes "parse_release_version l = Some v" and "parse_release_version r = Some v"
  shows "l = r"
proof -
  have "s = nat_str (fst v) @ ''.'' @ nat_str (fst (snd v)) @ ''.'' @ nat_str (snd (snd v))"
    if "parse_release_version s = Some v" for s
    using that by (auto simp: parse_release_version_def canonical_printed dest!: split_dots_join
      split: list.splits if_splits)
  with assms show ?thesis by metis
qed

lemma compare_parsed:
  assumes "parse_release_version l = Some v" and "parse_release_version r = Some w"
  shows "\<exists>n. compare_versions l r = Inr n \<and> (n < 0 \<longleftrightarrow> version_before v w) \<and> (n > 0 \<longleftrightarrow> version_before w v) \<and>
    (n = 0 \<longleftrightarrow> v = w)"
proof -
  obtain a b c where v: "v = (a, b, c)" by (cases v) auto
  obtain a' b' c' where w: "w = (a', b', c')" by (cases w) auto
  show ?thesis using assms by (auto simp: compare_versions_def version_before_def v w)
qed

text \<open>
  On two valid versions the comparison is the lexicographic order of major, minor and patch: it is
  negative, zero or positive exactly when the left is before, the same text as, or after the right.
\<close>

theorem compare_versions_is_lexicographic:
  assumes "parse_release_version l = Some v" and "parse_release_version r = Some w"
  shows "\<exists>n. compare_versions l r = Inr n \<and> (n < 0 \<longleftrightarrow> version_before v w) \<and> (n > 0 \<longleftrightarrow> version_before w v) \<and>
    (n = 0 \<longleftrightarrow> l = r)"
proof -
  have "v = w \<longleftrightarrow> l = r" using assms release_version_injective by (metis option.inject)
  with compare_parsed [OF assms] show ?thesis by simp
qed

theorem compare_versions_is_lexicographic_witness:
  "\<exists>n. compare_versions ''0.9.12'' ''0.10.1'' = Inr n \<and> n < 0"
proof -
  have "parse_release_version ''0.9.12'' = Some (0, 9, 12)" "parse_release_version ''0.10.1'' = Some (0, 10, 1)"
    by code_simp+
  from compare_versions_is_lexicographic [OF this] show ?thesis by (auto simp: version_before_def)
qed

section \<open>Base64 is canonical\<close>

abbreviation octets :: "nat list \<Rightarrow> bool" where
  "octets bs \<equiv> \<forall>b \<in> set bs. b < 256"

lemma b64_table: "n < 64 \<Longrightarrow> b64_value (b64_char n) = n \<and> b64_char n \<in> set b64_alphabet \<and> b64_char n \<noteq> CHR ''=''"
proof -
  have "list_all (\<lambda>n. b64_value (b64_char n) = n \<and> b64_char n \<in> set b64_alphabet \<and> b64_char n \<noteq> CHR ''='') [0..<64]"
    by code_simp
  then show "n < 64 \<Longrightarrow> ?thesis" by (auto simp: list_all_iff)
qed

lemma sextets_small: "octets bs \<Longrightarrow> n \<in> set (b64_sextets bs) \<Longrightarrow> n < 64"
  by (induction bs rule: b64_sextets.induct) auto

lemma three_bytes:
  assumes "(a :: nat) < 256" and "b < 256" and "c < 256"
  shows "a div 4 * 4 + (a mod 4 * 16 + b div 16) div 16 = a"
    and "(a mod 4 * 16 + b div 16) mod 16 * 16 + (b mod 16 * 4 + c div 64) div 4 = b"
    and "(b mod 16 * 4 + c div 64) mod 4 * 64 + c mod 64 = c"
    and "(a mod 4 * 16 + b div 16) mod 16 * 16 + b mod 16 * 4 div 4 = b"
proof -
  have "b div 16 < 16" "c div 64 < 4" using assms by (simp_all add: less_mult_imp_div_less)
  then show "a div 4 * 4 + (a mod 4 * 16 + b div 16) div 16 = a"
    "(a mod 4 * 16 + b div 16) mod 16 * 16 + (b mod 16 * 4 + c div 64) div 4 = b"
    "(b mod 16 * 4 + c div 64) mod 4 * 64 + c mod 64 = c"
    "(a mod 4 * 16 + b div 16) mod 16 * 16 + b mod 16 * 4 div 4 = b"
    by simp_all
qed

lemma bytes_of_sextets: "octets bs \<Longrightarrow> b64_bytes (b64_sextets bs) = bs"
  by (induction bs rule: b64_sextets.induct) (auto simp: three_bytes)

lemma sextets_chars:
  assumes "octets bs"
  shows "set (map b64_char (b64_sextets bs)) \<subseteq> set b64_alphabet" and "CHR ''='' \<notin> set (map b64_char (b64_sextets bs))"
    and "map b64_value (map b64_char (b64_sextets bs)) = b64_sextets bs"
proof -
  have t: "b64_value (b64_char n) = n \<and> b64_char n \<in> set b64_alphabet \<and> b64_char n \<noteq> CHR ''=''" if "n \<in> set (b64_sextets bs)" for n
    using b64_table [OF sextets_small [OF assms that]] .
  show "set (map b64_char (b64_sextets bs)) \<subseteq> set b64_alphabet" using t by auto
  show "CHR ''='' \<notin> set (map b64_char (b64_sextets bs))" using t by fastforce
  show "map b64_value (map b64_char (b64_sextets bs)) = b64_sextets bs" using t by (simp add: map_idI)
qed

lemma padding_cases: "b64_padding n \<in> {[], ''='', ''==''}"
  by (simp add: b64_padding_def)

lemma takeWhile_split: "list_all p u \<Longrightarrow> v = [] \<or> \<not> p (hd v) \<Longrightarrow> takeWhile p (u @ v) = u \<and> dropWhile p (u @ v) = v"
  by (induction u) (cases v; simp)+

lemma decode_encode:
  assumes "octets bs"
  shows "b64_decode (b64_encode bs) = bs"
proof -
  have "list_all (\<lambda>c. c \<noteq> CHR ''='') (map b64_char (b64_sextets bs))"
    using sextets_chars(2) [OF assms] unfolding list_all_iff by metis
  moreover have "b64_padding (length bs) = [] \<or> \<not> hd (b64_padding (length bs)) \<noteq> CHR ''=''"
    using padding_cases [of "length bs"] by auto
  ultimately have "takeWhile (\<lambda>c. c \<noteq> CHR ''='') (b64_encode bs) = map b64_char (b64_sextets bs)"
    unfolding b64_encode_def using takeWhile_split [of "\<lambda>c. c \<noteq> CHR ''=''"] by blast
  then have "b64_decode (b64_encode bs) = b64_bytes (b64_sextets bs)"
    using sextets_chars(3) [OF assms] by (simp add: b64_decode_def)
  then show ?thesis by (simp add: bytes_of_sextets [OF assms])
qed

lemma length_sextets: "length (b64_sextets bs) = length bs + (length bs + 2) div 3"
  by (induction bs rule: b64_sextets.induct) simp_all

lemma length_encode: "length (b64_encode bs) \<le> (length bs * 4 + 2) div 3 + 4"
proof -
  have "length (b64_padding (length bs)) \<le> 2" using padding_cases [of "length bs"] by auto
  moreover have "length bs + (length bs + 2) div 3 \<le> (length bs * 4 + 2) div 3" by linarith
  ultimately show ?thesis by (simp add: b64_encode_def length_sextets)
qed

lemma encode_shape:
  assumes "octets bs" and "bs \<noteq> []"
  shows "b64_shape (b64_encode bs)" and "b64_encode bs \<noteq> []"
proof -
  have "list_all (\<lambda>c. c \<in> set b64_alphabet) (map b64_char (b64_sextets bs))"
    using sextets_chars(1) [OF assms(1)] by (auto simp: list_all_iff)
  moreover have "CHR ''='' \<notin> set b64_alphabet" by code_simp
  then have "b64_padding (length bs) = [] \<or> \<not> hd (b64_padding (length bs)) \<in> set b64_alphabet"
    using padding_cases [of "length bs"] by auto
  ultimately have split: "takeWhile (\<lambda>c. c \<in> set b64_alphabet) (b64_encode bs) = map b64_char (b64_sextets bs)"
    "dropWhile (\<lambda>c. c \<in> set b64_alphabet) (b64_encode bs) = b64_padding (length bs)"
    unfolding b64_encode_def using takeWhile_split [of "\<lambda>c. c \<in> set b64_alphabet"] by blast+
  have "b64_sextets bs \<noteq> []" using assms(2) length_sextets [of bs] by (cases bs) auto
  with split show "b64_shape (b64_encode bs)" using padding_cases by (simp add: b64_shape_def)
  show "b64_encode bs \<noteq> []" using \<open>b64_sextets bs \<noteq> []\<close> by (simp add: b64_encode_def)
qed

lemma value_small: "c \<in> set b64_alphabet \<Longrightarrow> b64_value c < 64"
proof -
  have "length b64_alphabet = 64" by code_simp
  moreover have "c \<in> set xs \<Longrightarrow> length (takeWhile (\<lambda>x. x \<noteq> c) xs) < length xs" for xs :: string
    by (induction xs) auto
  ultimately show "c \<in> set b64_alphabet \<Longrightarrow> ?thesis" by (metis b64_value_def)
qed

lemma bytes_small: "\<forall>n \<in> set ns. n < 64 \<Longrightarrow> octets (b64_bytes ns)"
  by (induction ns rule: b64_bytes.induct; auto; linarith)

lemma shaped_body:
  assumes "b64_shape s" and "c \<in> set (takeWhile (\<lambda>x. x \<noteq> CHR ''='') s)"
  shows "c \<in> set b64_alphabet"
proof -
  let ?p = "\<lambda>c. c \<in> set b64_alphabet"
  have rest: "dropWhile ?p s \<in> {[], ''='', ''==''}" using assms(1) by (simp add: b64_shape_def Let_def)
  have eq: "CHR ''='' \<notin> set b64_alphabet" by code_simp
  have "list_all (\<lambda>x. x \<noteq> CHR ''='') (takeWhile ?p s)"
    using eq by (auto simp: list_all_iff dest: set_takeWhileD)
  moreover have "dropWhile ?p s = [] \<or> \<not> hd (dropWhile ?p s) \<noteq> CHR ''=''" using rest by auto
  ultimately have "takeWhile (\<lambda>x. x \<noteq> CHR ''='') (takeWhile ?p s @ dropWhile ?p s) = takeWhile ?p s"
    using takeWhile_split [of "\<lambda>x. x \<noteq> CHR ''=''" "takeWhile ?p s" "dropWhile ?p s"] by blast
  with assms(2) show ?thesis by (auto dest: set_takeWhileD)
qed

lemma decode_manifest_iff:
  "decode_manifest (JStr s) = Inr bs \<longleftrightarrow>
     octets bs \<and> bs \<noteq> [] \<and> length bs \<le> max_manifest_bytes \<and> s = b64_encode bs"
proof
  assume run: "decode_manifest (JStr s) = Inr bs"
  then have shape: "b64_shape s" and bs: "bs = b64_decode s" "bs \<noteq> []" "length bs \<le> max_manifest_bytes" "b64_encode bs = s"
    by (auto simp: decode_manifest_def Let_def split: if_splits)
  have "octets bs"
    unfolding bs(1) b64_decode_def using shaped_body [OF shape] value_small by (intro bytes_small) auto
  with bs show "octets bs \<and> bs \<noteq> [] \<and> length bs \<le> max_manifest_bytes \<and> s = b64_encode bs" by simp
next
  assume a: "octets bs \<and> bs \<noteq> [] \<and> length bs \<le> max_manifest_bytes \<and> s = b64_encode bs"
  then have "length s \<le> (max_manifest_bytes * 4 + 2) div 3 + 4"
    using length_encode [of bs] div_le_mono [of "length bs * 4 + 2" "max_manifest_bytes * 4 + 2" 3] by simp
  with a encode_shape [of bs] decode_encode [of bs] show "decode_manifest (JStr s) = Inr bs"
    by (simp add: decode_manifest_def Let_def)
qed

text \<open>
  A manifest is accepted exactly as the canonical base64 of between one and 512 KiB bytes, and is
  decoded to those bytes; no second spelling of the same bytes is accepted.
\<close>

theorem manifest_encoding_is_canonical:
  "decode_manifest (JStr s) = Inr bs \<longleftrightarrow>
     octets bs \<and> bs \<noteq> [] \<and> length bs \<le> max_manifest_bytes \<and> s = b64_encode bs"
  by (rule decode_manifest_iff)

section \<open>An accepted release\<close>

lemma decode_manifest_text: "decode_manifest v = Inr bs \<Longrightarrow> \<exists>s. v = JStr s"
  by (cases v) (simp_all add: decode_manifest_def)

lemma image_pinned:
  assumes "parse_image v = Inr i"
  shows "pi_reference i = pi_name i @ ''@'' @ pi_digest i" and "digest_ok (pi_digest i)"
  using assms by (auto simp: parse_image_def Let_def split: if_splits option.splits)

lemma parse_manifestD:
  assumes "parse_manifest m repository version = Inr r"
  obtains a w s where "manifest_ok repository version m" "rm_version r = version" "rm_tag r = ''initpad-v'' @ version"
    "rm_repository r = ''https://github.com/'' @ repository"
    "parse_image a = Inr (rm_api r)" "parse_image w = Inr (rm_web r)" "parse_image s = Inr (rm_supervisor r)"
  using assms that by (auto simp: parse_manifest_def Let_def split: if_splits sum.splits)

definition pinned :: "platform_image \<Rightarrow> bool" where
  "pinned i = (digest_ok (pi_digest i) \<and> pi_reference i = pi_name i @ ''@'' @ pi_digest i)"

text \<open>
  C27: a release the Supervisor accepts is newer than what is installed, its manifest names its tag, its
  three images are pinned by a digest, and the verifier accepted the bundle over exactly those bytes
  for the workflow of the repository at the tag of that version.
\<close>

theorem accepted_release_is_signed_and_newer:
  assumes "verify_release parse verifier repository r current = Inr m"
  shows "\<exists>v c bytes bundle. parse_release_version (rm_version m) = Some v \<and> parse_release_version current = Some c \<and>
    version_before c v \<and> rm_tag m = ''initpad-v'' @ rm_version m \<and>
    list_all pinned [rm_api m, rm_web m, rm_supervisor m] \<and>
    text_field r ''manifestBase64'' = Some (b64_encode bytes) \<and> json_get r ''bundle'' = Some bundle \<and>
    verifier bundle bytes (release_identity repository (rm_version m)) = None \<and>
    (\<exists>j. parse bytes = Some j \<and> parse_manifest j repository (rm_version m) = Inr m)"
proof -
  from assms obtain v n bytes j where v: "text_field r ''version'' = Some v" "parse_release_version v \<noteq> None"
    and n: "compare_versions v current = Inr n" "n > 0"
    and bytes: "decode_manifest (case json_get r ''manifestBase64'' of None \<Rightarrow> JNull | Some x \<Rightarrow> x) = Inr bytes"
    and bnd: "is_object (json_get r ''bundle'')" and j: "parse bytes = Some j" "parse_manifest j repository v = Inr m"
    and ok: "verifier (the (json_get r ''bundle'')) bytes (release_identity repository v) = None"
    by (auto simp: verify_release_def bind_eq_Some_conv split: if_splits option.splits sum.splits)
  obtain x where x: "parse_release_version v = Some x" using v(2) by auto
  obtain c where c: "parse_release_version current = Some c" using n(1)
    by (auto simp: compare_versions_def split: option.splits prod.splits)
  have newer: "version_before c x" using compare_parsed [OF x c] n by auto
  from j(2) have m: "rm_version m = v" "rm_tag m = ''initpad-v'' @ v" "list_all pinned [rm_api m, rm_web m, rm_supervisor m]"
    by (auto elim!: parse_manifestD simp: pinned_def image_pinned)
  from bytes obtain s where s: "json_get r ''manifestBase64'' = Some (JStr s)" "decode_manifest (JStr s) = Inr bytes"
    using decode_manifest_text [OF bytes] by (auto split: option.splits)
  then have "s = b64_encode bytes" by (auto simp: decode_manifest_def Let_def split: if_splits)
  with s(1) have "text_field r ''manifestBase64'' = Some (b64_encode bytes)" by (simp add: text_field_def)
  moreover obtain b where "json_get r ''bundle'' = Some b" using bnd by (auto simp: is_object_def split: option.splits)
  ultimately show ?thesis using x c newer m ok j unfolding m(1) by auto
qed

definition sample_image :: "string \<Rightarrow> json" where
  "sample_image n = JObj [(''name'', JStr n), (''digest'', JStr (''sha256:'' @ replicate 64 (CHR ''0''))),
     (''immutableReference'', JStr (n @ ''@sha256:'' @ replicate 64 (CHR ''0''))),
     (''platforms'', JArr [JStr ''linux/amd64'', JStr ''linux/arm64''])]"

definition sample_manifest :: json where
  "sample_manifest = JObj [(''schemaVersion'', JNum 1), (''component'', JStr ''initpad-platform''),
     (''version'', JStr ''0.3.0''),
     (''source'', JObj [(''repository'', JStr ''https://github.com/o/r''), (''tag'', JStr ''initpad-v0.3.0''),
        (''commit'', JStr (replicate 40 (CHR ''a'')))]),
     (''images'', JObj [(''api'', sample_image ''r/api''), (''web'', sample_image ''r/web''), (''supervisor'', sample_image ''r/sup'')]),
     (''compose'', JObj [(''file'', JStr ''initpad-release.override.yml''), (''sha256'', JStr (replicate 64 (CHR ''b'')))]),
     (''database'', JObj [(''migrationMode'', JStr ''expand-contract''), (''rollback'', JStr ''image-compatible''),
        (''backupRequired'', JBool True)])]"

definition sample_release :: json where
  "sample_release = JObj [(''version'', JStr ''0.3.0''), (''manifestBase64'', JStr (b64_encode [123, 125])), (''bundle'', JObj [])]"

lemma sample_accepted:
  "case verify_release (\<lambda>_. Some sample_manifest) (\<lambda>_ _ _. None) ''o/r'' sample_release ''0.2.30'' of
     Inl _ \<Rightarrow> False | Inr m \<Rightarrow> rm_version m = ''0.3.0''"
proof -
  have d: "decode_manifest (JStr (b64_encode [123, 125])) = Inr [123, 125]"
    by (subst decode_manifest_iff) (simp add: max_manifest_bytes_def)
  have p: "case parse_manifest sample_manifest ''o/r'' ''0.3.0'' of Inl _ \<Rightarrow> False | Inr m \<Rightarrow> rm_version m = ''0.3.0''" by code_simp
  have v: "text_field sample_release ''version'' = Some ''0.3.0''" "parse_release_version ''0.3.0'' = Some (0, 3, 0)"
    "compare_versions ''0.3.0'' ''0.2.30'' = Inr 1" by code_simp+
  have k: "is_object (Some sample_release)" "exact_keys sample_release [''version'', ''manifestBase64'', ''bundle'']"
    "json_get sample_release ''manifestBase64'' = Some (JStr (b64_encode [123, 125]))" "is_object (json_get sample_release ''bundle'')"
    by (simp_all add: sample_release_def is_object_def exact_keys_def)
  show ?thesis using p by (simp add: verify_release_def k v d split: sum.splits)
qed

theorem accepted_release_is_signed_and_newer_witness:
  "\<exists>m v c. verify_release (\<lambda>_. Some sample_manifest) (\<lambda>_ _ _. None) ''o/r'' sample_release ''0.2.30'' = Inr m \<and>
     rm_version m = ''0.3.0'' \<and> version_before c v \<and> pinned (rm_api m)"
proof -
  obtain m where m: "verify_release (\<lambda>_. Some sample_manifest) (\<lambda>_ _ _. None) ''o/r'' sample_release ''0.2.30'' = Inr m"
    "rm_version m = ''0.3.0''"
    using sample_accepted by (auto split: sum.splits)
  from accepted_release_is_signed_and_newer [OF m(1)] obtain v c where "version_before c v"
    "list_all pinned [rm_api m, rm_web m, rm_supervisor m]" by blast
  then have "version_before c v" "pinned (rm_api m)" by simp_all
  with m show ?thesis by blast
qed

section \<open>What a signature binds\<close>

lemma cut_at_line:
  assumes "u @ line_feed @ v = u' @ line_feed @ v'" and "CHR 0x0A \<notin> set u" and "CHR 0x0A \<notin> set u'"
  shows "u = u'" and "v = v'"
proof -
  have "u = u' \<and> v = v'"
    using assms
  proof (induction u arbitrary: u')
    case Nil
    then show ?case by (cases u') (auto simp: line_feed_def)
  next
    case (Cons c u)
    then show ?case by (cases u') (auto simp: line_feed_def)
  qed
  then show "u = u'" and "v = v'" by simp_all
qed

lemma uuid_one_line: "uuid_v4 i \<Longrightarrow> CHR 0x0A \<notin> set i"
proof
  assume u: "uuid_v4 i" and "CHR 0x0A \<in> set i"
  then obtain n where n: "n < length i" "i ! n = CHR 0x0A" by (metis in_set_conv_nth)
  then have "(n, CHR 0x0A) \<in> set (enumerate 0 i)" by (auto simp: in_set_enumerate_eq)
  with u have "uuid_char (n, CHR 0x0A)" by (auto simp: uuid_v4_def list_all_iff)
  moreover have "\<not> is_hex (CHR 0x0A)" "lower_char (CHR 0x0A) = CHR 0x0A" by code_simp+
  ultimately show False by (auto simp: uuid_char_def split: if_splits)
qed

lemma digits_one_line: "list_all is_digit t \<Longrightarrow> CHR 0x0A \<notin> set t"
proof -
  have "\<not> is_digit (CHR 0x0A)" by code_simp
  then show "list_all is_digit t \<Longrightarrow> ?thesis" by (auto simp: list_all_iff)
qed

lemma authenticated:
  assumes "authenticate_request hmac sha secret now q = None"
  obtains t i where "sq_timestamp q = Some t" "sq_requestId q = Some i"
    "sq_signature q = Some (sign_request hmac sha secret (sq_method q) (sq_path q) t i (sq_body q))"
    "list_all is_digit t" "uuid_v4 i" "abs (now - int (request_millis t)) \<le> 60000"
  using assms that by (auto simp: authenticate_request_def split: option.splits if_splits)

lemma signed_text_injective:
  assumes "signed_text sha m p t i b = signed_text sha m' p' t' i' b'"
    and "CHR 0x0A \<notin> set (m @ p @ m' @ p')" and "list_all is_digit t" and "list_all is_digit t'" and "uuid_v4 i" and "uuid_v4 i'"
  shows "m = m' \<and> p = p' \<and> t = t' \<and> i = i' \<and> sha b = sha b'"
proof -
  have e: "m @ line_feed @ p @ line_feed @ t @ line_feed @ i @ line_feed @ sha b =
      m' @ line_feed @ p' @ line_feed @ t' @ line_feed @ i' @ line_feed @ sha b'"
    using assms(1) by (simp add: signed_text_def line_feed_def)
  have m: "m = m'" and e1: "p @ line_feed @ t @ line_feed @ i @ line_feed @ sha b =
      p' @ line_feed @ t' @ line_feed @ i' @ line_feed @ sha b'"
    using cut_at_line [OF e] assms(2) by simp_all
  have p: "p = p'" and e2: "t @ line_feed @ i @ line_feed @ sha b = t' @ line_feed @ i' @ line_feed @ sha b'"
    using cut_at_line [OF e1] assms(2) by simp_all
  have t: "t = t'" and e3: "i @ line_feed @ sha b = i' @ line_feed @ sha b'"
    using cut_at_line [OF e2] assms(3,4) by (simp_all add: digits_one_line)
  have "i = i'" and "sha b = sha b'"
    using cut_at_line [OF e3] assms(5,6) by (simp_all add: uuid_one_line)
  with m p t show ?thesis by simp
qed

text \<open>The text and the body of a request, as they are digested.\<close>

definition request_text :: "(string \<Rightarrow> string) \<Rightarrow> signed_request \<Rightarrow> string" where
  "request_text sha q = signed_text sha (sq_method q) (sq_path q) (the (sq_timestamp q)) (the (sq_requestId q)) (sq_body q)"

text \<open>
  Where the digests have no collision among the texts \<open>T\<close> and the bodies \<open>B\<close> in use, two authenticated
  requests with one signature ask for the same method, path, request id, time and body, within a minute
  of the clock. So a captured signed status read authorizes no update, and an update no other update.
\<close>

theorem signature_binds_the_request:
  assumes "authenticate_request hmac sha secret now q = None" and "authenticate_request hmac sha secret now' q' = None"
    and "sq_signature q = sq_signature q'"
    and "inj_on (hmac secret) T" and "{request_text sha q, request_text sha q'} \<subseteq> T"
    and "inj_on sha B" and "{sq_body q, sq_body q'} \<subseteq> B"
    and "CHR 0x0A \<notin> set (sq_method q @ sq_path q @ sq_method q' @ sq_path q')"
  shows "q = q' \<and> (\<exists>t. sq_timestamp q = Some t \<and> abs (now' - int (request_millis t)) \<le> 60000)"
proof -
  from assms(1) obtain t i where q: "sq_timestamp q = Some t" "sq_requestId q = Some i"
    "sq_signature q = Some (sign_request hmac sha secret (sq_method q) (sq_path q) t i (sq_body q))"
    "list_all is_digit t" "uuid_v4 i" by (rule authenticated)
  from assms(2) obtain t' i' where q': "sq_timestamp q' = Some t'" "sq_requestId q' = Some i'"
    "sq_signature q' = Some (sign_request hmac sha secret (sq_method q') (sq_path q') t' i' (sq_body q'))"
    "list_all is_digit t'" "uuid_v4 i'" "abs (now' - int (request_millis t')) \<le> 60000" by (rule authenticated)
  have "hmac secret (request_text sha q) = hmac secret (request_text sha q')"
    using q(1-3) q'(1-3) assms(3) by (simp add: sign_request_def request_text_def)
  with assms(4,5) have "request_text sha q = request_text sha q'" by (auto dest: inj_onD)
  then have same: "sq_method q = sq_method q' \<and> sq_path q = sq_path q' \<and> t = t' \<and> i = i' \<and> sha (sq_body q) = sha (sq_body q')"
    using q q' assms(8) by (intro signed_text_injective) (simp_all add: request_text_def)
  with assms(6,7) have "sq_body q = sq_body q'" by (auto dest: inj_onD)
  with same q(1,2) q'(1,2) assms(3) have "q = q'" by simp
  with q' same q(1) show ?thesis by auto
qed

definition signed_sample :: signed_request where
  "signed_sample = \<lparr>sq_method = ''POST'', sq_path = ''/v1/update'', sq_timestamp = Some ''1700000000'',
     sq_requestId = Some ''00000000-0000-4000-8000-000000000000'', sq_signature = Some (replicate 64 (CHR ''a'')), sq_body = ''{}''\<rparr>"

lemma sample_authenticated:
  "authenticate_request (\<lambda>_ _. replicate 64 (CHR ''a'')) (\<lambda>x. x) (replicate 32 (CHR ''s'')) 1700000030000 signed_sample = None"
proof -
  have ms: "request_millis ''1700000000'' = 1700000000 * 1000"
    by (simp add: request_millis_def digits_value_def)
  have c: "is_hex (CHR ''0'')" "lower_char (CHR ''8'') = CHR ''8''" by code_simp+
  have u: "uuid_v4 ''00000000-0000-4000-8000-000000000000''"
    by (simp add: uuid_v4_def uuid_char_def c)
  have v: "list_all is_digit ''1700000000''" by code_simp
  have w: "hex_digits 64 (replicate 64 (CHR ''a''))" by (simp add: hex_digits_def list_all_iff)
  show ?thesis
    by (simp add: authenticate_request_def signed_sample_def sign_request_def ms u v [simplified] w)
qed

theorem signature_binds_the_request_witness:
  "signed_sample = signed_sample \<and> abs (1700000030000 - int (request_millis ''1700000000'')) \<le> 60000"
proof -
  have nl: "CHR 0x0A \<notin> set (sq_method signed_sample @ sq_path signed_sample @ sq_method signed_sample @ sq_path signed_sample)"
    by (simp add: signed_sample_def)
  from signature_binds_the_request [OF sample_authenticated sample_authenticated refl, of "{request_text (\<lambda>x. x) signed_sample}" "{''{}''}"] nl
  show ?thesis by (simp add: signed_sample_def)
qed

end
