(* ===== verification/Crash.thy ===== *)
theory Crash
  imports Prelude
begin

text \<open>
  Programs that may lose power. An action changes a world and returns, throws, or is killed: every
  effect on the world may be the last one, and no handler and no cleanup runs after that. The number of
  effects still to come is a field of the world, so an action has one execution per crash point.

  \<open>andthen\<close> is \<open>await\<close>, \<open>catching\<close> is \<open>catch\<close>, \<open>ensuring\<close> is \<open>finally\<close> and \<open>quietly\<close> ignores an error. \<open>triple P m Q E K\<close>
  says what holds after \<open>m\<close> returns, throws or is killed; its rules, in the collection \<open>triples\<close>, are applied
  backwards from the end of a program.
\<close>

named_theorems triples \<open>rules for triples\<close>

record power =
  pw_left :: "nat option"

datatype 'a ending = Done 'a | Raised string | Killed

type_synonym ('w, 'a) action = "'w \<Rightarrow> 'w \<times> 'a ending"

definition give :: "'a \<Rightarrow> ('w, 'a) action" where
  "give x w = (w, Done x)"

definition throw :: "string \<Rightarrow> ('w, 'a) action" where
  "throw e w = (w, Raised e)"

definition andthen :: "('w, 'a) action \<Rightarrow> ('a \<Rightarrow> ('w, 'b) action) \<Rightarrow> ('w, 'b) action" where
  "andthen m f w = (case m w of
      (w', Done x) \<Rightarrow> f x w'
    | (w', Raised e) \<Rightarrow> (w', Raised e)
    | (w', Killed) \<Rightarrow> (w', Killed))"

definition catching :: "('w, 'a) action \<Rightarrow> (string \<Rightarrow> ('w, 'a) action) \<Rightarrow> ('w, 'a) action" where
  "catching m h w = (case m w of
      (w', Done x) \<Rightarrow> (w', Done x)
    | (w', Raised e) \<Rightarrow> h e w'
    | (w', Killed) \<Rightarrow> (w', Killed))"

definition ensuring :: "('w, 'a) action \<Rightarrow> ('w, unit) action \<Rightarrow> ('w, 'a) action" where
  "ensuring m c w = (case m w of
      (w', Done x) \<Rightarrow> andthen c (\<lambda>_. give x) w'
    | (w', Raised e) \<Rightarrow> andthen c (\<lambda>_. throw e) w'
    | (w', Killed) \<Rightarrow> (w', Killed))"

definition quietly :: "('w, unit) action \<Rightarrow> ('w, unit) action" where
  "quietly m = catching m (\<lambda>_. give ())"

text \<open>Reading the world costs nothing; an effect happens as a whole or not at all.\<close>

definition look :: "('w \<Rightarrow> ('w, 'a) action) \<Rightarrow> ('w, 'a) action" where
  "look f w = f w w"

definition note_down :: "('w \<Rightarrow> 'w) \<Rightarrow> ('w, unit) action" where
  "note_down f w = (f w, Done ())"

definition spend :: "'z power_scheme \<Rightarrow> 'z power_scheme option" where
  "spend w = (case pw_left w of None \<Rightarrow> Some w | Some 0 \<Rightarrow> None | Some (Suc n) \<Rightarrow> Some (w\<lparr>pw_left := Some n\<rparr>))"

definition effect :: "('z power_scheme \<Rightarrow> 'z power_scheme \<times> 'a ending) \<Rightarrow> ('z power_scheme, 'a) action" where
  "effect f w = (case spend w of None \<Rightarrow> (w, Killed) | Some w' \<Rightarrow> f w')"

definition change :: "('z power_scheme \<Rightarrow> 'z power_scheme) \<Rightarrow> ('z power_scheme, unit) action" where
  "change f = effect (\<lambda>w. (f w, Done ()))"

text \<open>A world whose power does not fail, and the one found when the power returns.\<close>

definition steady :: "'z power_scheme \<Rightarrow> bool" where
  "steady w = (pw_left w = None)"

definition reboot :: "'z power_scheme \<Rightarrow> 'z power_scheme" where
  "reboot w = w\<lparr>pw_left := None\<rparr>"

text \<open>How \<open>m\<close> may end from \<open>w\<close>; power that never fails never kills.\<close>

definition ends ::
  "('z power_scheme \<times> 'a ending) \<Rightarrow> bool \<Rightarrow> ('a \<Rightarrow> 'z power_scheme \<Rightarrow> bool) \<Rightarrow> (string \<Rightarrow> 'z power_scheme \<Rightarrow> bool)
     \<Rightarrow> ('z power_scheme \<Rightarrow> bool) \<Rightarrow> bool" where
  "ends r s Q E K = (case r of
      (w, Done x) \<Rightarrow> Q x w \<and> steady w = s
    | (w, Raised e) \<Rightarrow> E e w \<and> steady w = s
    | (w, Killed) \<Rightarrow> K w \<and> \<not> s)"

lemma ends_simps [simp]:
  "ends (w, Done x) s Q E K \<longleftrightarrow> Q x w \<and> steady w = s"
  "ends (w, Raised e) s Q E K \<longleftrightarrow> E e w \<and> steady w = s"
  "ends (w, Killed) s Q E K \<longleftrightarrow> K w \<and> \<not> s"
  by (simp_all add: ends_def)

section \<open>Triples\<close>

definition triple ::
  "('z power_scheme \<Rightarrow> bool) \<Rightarrow> ('z power_scheme, 'a) action \<Rightarrow> ('a \<Rightarrow> 'z power_scheme \<Rightarrow> bool)
     \<Rightarrow> (string \<Rightarrow> 'z power_scheme \<Rightarrow> bool) \<Rightarrow> ('z power_scheme \<Rightarrow> bool) \<Rightarrow> bool" where
  "triple P m Q E K = (\<forall>w. P w \<longrightarrow> ends (m w) (steady w) Q E K)"

lemma tripleI: "(\<And>w. P w \<Longrightarrow> ends (m w) (steady w) Q E K) \<Longrightarrow> triple P m Q E K"
  by (simp add: triple_def)

lemma tripleD: "triple P m Q E K \<Longrightarrow> P w \<Longrightarrow> ends (m w) (steady w) Q E K"
  by (simp add: triple_def)

lemma ends_conseq:
  assumes "ends r s Q E K" and "\<And>x w. Q x w \<Longrightarrow> Q' x w" and "\<And>e w. E e w \<Longrightarrow> E' e w" and "\<And>w. K w \<Longrightarrow> K' w"
  shows "ends r s Q' E' K'"
  using assms unfolding ends_def by (cases "snd r") (auto split: prod.splits ending.splits)

lemma triple_conseq:
  assumes "triple P m Q E K" and "\<And>w. P' w \<Longrightarrow> P w" and "\<And>x w. Q x w \<Longrightarrow> Q' x w"
    and "\<And>e w. E e w \<Longrightarrow> E' e w" and "\<And>w. K w \<Longrightarrow> K' w"
  shows "triple P' m Q' E' K'"
proof (rule tripleI)
  fix w
  assume "P' w"
  from tripleD [OF assms(1) assms(2) [OF this]]
  show "ends (m w) (steady w) Q' E' K'" by (rule ends_conseq) (rule assms(3-5), assumption)+
qed

lemma triple_weaken: "triple P m Q E K \<Longrightarrow> (\<And>w. P' w \<Longrightarrow> P w) \<Longrightarrow> triple P' m Q E K"
  by (erule triple_conseq) simp_all

lemma triple_give [triples]: "(\<And>w. P w \<Longrightarrow> Q x w) \<Longrightarrow> triple P (give x) Q E K"
  by (simp add: triple_def give_def)

lemma triple_throw [triples]: "(\<And>w. P w \<Longrightarrow> E e w) \<Longrightarrow> triple P (throw e) Q E K"
  by (simp add: triple_def throw_def)

lemma triple_andthen:
  assumes "triple P m R E K" and "\<And>x. triple (R x) (f x) Q E K"
  shows "triple P (andthen m f) Q E K"
proof (rule tripleI)
  fix w
  assume "P w"
  then have "ends (m w) (steady w) R E K" by (rule tripleD [OF assms(1)])
  moreover have "ends (f x w') s Q E K" if "R x w'" "steady w' = s" for x w' s
    using tripleD [OF assms(2) that(1)] that(2) by simp
  ultimately show "ends (andthen m f w) (steady w) Q E K"
    unfolding andthen_def ends_def [of "m w"] by (auto split: prod.splits ending.splits)
qed

lemma triple_catching:
  assumes "triple P m Q R K" and "\<And>e. triple (R e) (h e) Q E K"
  shows "triple P (catching m h) Q E K"
proof (rule tripleI)
  fix w
  assume "P w"
  then have "ends (m w) (steady w) Q R K" by (rule tripleD [OF assms(1)])
  moreover have "ends (h e w') s Q E K" if "R e w'" "steady w' = s" for e w' s
    using tripleD [OF assms(2) that(1)] that(2) by simp
  ultimately show "ends (catching m h w) (steady w) Q E K"
    unfolding catching_def ends_def [of "m w"] by (auto split: prod.splits ending.splits)
qed

lemma triple_ensuring:
  assumes "triple P m R S K" and "\<And>x. triple (R x) c (\<lambda>_. Q x) E K" and "\<And>e. triple (S e) c (\<lambda>_. E e) E K"
  shows "triple P (ensuring m c) Q E K"
proof (rule tripleI)
  fix w
  assume "P w"
  then have "ends (m w) (steady w) R S K" by (rule tripleD [OF assms(1)])
  moreover have "triple (R x) (andthen c (\<lambda>_. give x)) Q E K" for x
    by (rule triple_andthen [OF assms(2)]) (rule triple_give)
  then have "ends (andthen c (\<lambda>_. give x) w') s Q E K" if "R x w'" "steady w' = s" for x w' s
    using tripleD that by blast
  moreover have "triple (S e) (andthen c (\<lambda>_. throw e)) Q E K" for e
    by (rule triple_andthen [OF assms(3)]) (rule triple_throw)
  then have "ends (andthen c (\<lambda>_. throw e) w') s Q E K" if "S e w'" "steady w' = s" for e w' s
    using tripleD that by blast
  ultimately show "ends (ensuring m c w) (steady w) Q E K"
    unfolding ensuring_def ends_def [of "m w"] by (auto split: prod.splits ending.splits)
qed

lemma triple_quietly: "triple P m Q (\<lambda>_. Q ()) K \<Longrightarrow> triple P (quietly m) Q E K"
  unfolding quietly_def by (erule triple_catching) (rule triple_give)

lemma triple_look: "(\<And>w0. triple (\<lambda>w. P w \<and> w = w0) (f w0) Q E K) \<Longrightarrow> triple P (look f) Q E K"
  by (simp add: triple_def look_def)

lemma triple_note_down [triples]:
  "(\<And>w. P w \<Longrightarrow> Q () (f w) \<and> steady (f w) = steady w) \<Longrightarrow> triple P (note_down f) Q E K"
  by (simp add: triple_def note_down_def)

lemma triple_effect:
  assumes "\<And>w. P w \<Longrightarrow> K w" and "\<And>w n. P w \<Longrightarrow> ends (f (w\<lparr>pw_left := n\<rparr>)) (n = None) Q E (\<lambda>_. False)"
  shows "triple P (effect f) Q E K"
proof (rule tripleI)
  fix w
  assume p: "P w"
  show "ends (effect f w) (steady w) Q E K"
  proof (cases "spend w")
    case None
    with p assms(1) show ?thesis by (auto simp: effect_def spend_def steady_def split: option.splits nat.splits)
  next
    case (Some w')
    then obtain n where n: "w' = w\<lparr>pw_left := n\<rparr>" "steady w = (n = None)"
      by (cases w) (auto simp: spend_def steady_def split: option.splits nat.splits)
    from ends_conseq [OF assms(2) [OF p]] have "ends (f w') (steady w) Q E K" unfolding n by blast
    with Some show ?thesis by (simp add: effect_def)
  qed
qed

lemma triple_change:
  assumes "\<And>w. P w \<Longrightarrow> K w" and "\<And>w n. P w \<Longrightarrow> Q () (f (w\<lparr>pw_left := n\<rparr>)) \<and> pw_left (f (w\<lparr>pw_left := n\<rparr>)) = n"
  shows "triple P (change f) Q E K"
  unfolding change_def using assms by (intro triple_effect) (simp_all add: steady_def)

lemma triple_if [triples]:
  "(b \<Longrightarrow> triple P m Q E K) \<Longrightarrow> (\<not> b \<Longrightarrow> triple P n Q E K) \<Longrightarrow> triple P (if b then m else n) Q E K"
  by simp

lemma triple_ending:
  assumes "triple P m Q E K" and "P w" and "m w = (w', r)"
  shows "r = Done x \<Longrightarrow> Q x w'" and "r = Raised e \<Longrightarrow> E e w'" and "r = Killed \<Longrightarrow> K w' \<and> \<not> steady w"
  using tripleD [OF assms(1,2)] assms(3) by auto

lemma steady_reboot [simp]: "steady (reboot w)"
  by (simp add: steady_def reboot_def)

lemma steady_runs:
  assumes "steady w"
  shows "effect f w = f w" and "change g w = (g w, Done ())"
  using assms by (simp_all add: effect_def change_def spend_def steady_def)

end
