(* ===== verification/Supervisor.thy ===== *)
theory Supervisor
  imports SupervisorRelease Crash
begin

text \<open>
  The Supervisor (\<open>apps/supervisor/src/state.ts\<close>, \<open>updater.ts\<close>, \<open>server.ts\<close>): its durable state, the one-shot
  helper that replaces the platform by a signed release, the recovery of a helper that died, and the
  server that accepts updates.

  \<open>machine\<close> is the state directory, what Docker runs, and the variables of the running process. Writing,
  renaming and removing a file happens as a whole. Docker is the parameter \<open>tl_docker\<close>: the reply to the
  n-th command, with the services that command (re)created, each with the release descriptor if the
  command names it and with the installed Compose file alone otherwise. \<open>tl_size\<close> is the length of a plan as
  JSON text. Paths are taken as normalised.
\<close>

section \<open>State\<close>

datatype update_status = UsAccepted | UsRunning | UsSucceeded | UsFailed | UsRolledBack

record update_operation =
  uo_id :: string
  uo_requestId :: string
  uo_fromVersion :: string
  uo_toVersion :: string
  uo_status :: update_status
  uo_stage :: string
  uo_message :: string
  uo_backupPath :: "string option"
  uo_startedAt :: string
  uo_finishedAt :: "string option"

record image_refs =
  ir_api :: string
  ir_web :: string
  ir_supervisor :: string

record supervisor_state =
  ss_schema :: nat
  ss_version :: string
  ss_images :: "image_refs option"
  ss_operation :: "update_operation option"

record update_plan =
  up_schema :: nat
  up_operationId :: string
  up_release :: json
  up_createdAt :: string

text \<open>The file of a plan: whether it is a private regular file, its size, and the JSON in it.\<close>

record plan_file =
  pl_private :: bool
  pl_size :: nat
  pl_plan :: "update_plan option"

datatype 'a stored_file = Missing | Garbled | Holds 'a

datatype component = ApiService | WebService | SupervisorService

record machine = power +
  mc_state :: "supervisor_state stored_file"
  mc_override :: "string option"
  mc_saved :: "string \<Rightarrow> string option"
  mc_plans :: "string \<Rightarrow> plan_file option"
  mc_lock :: bool
  mc_log :: "(string list \<times> bool) list"
  mc_services :: "component \<Rightarrow> string option"
  mc_accepting :: bool
  mc_operation :: "update_operation option"
  mc_previous :: "supervisor_state option"
  mc_saveId :: "string option"
  mc_hadOverride :: bool
  mc_prepared :: bool
  mc_root :: "string option"

record docker_reply =
  dr_error :: "string option"
  dr_stdout :: string
  dr_started :: "component list"

record tools =
  tl_dir :: string
  tl_root :: "string option"
  tl_container :: string
  tl_repository :: string
  tl_version :: string
  tl_now :: string
  tl_uuid :: string
  tl_sha256 :: "string \<Rightarrow> string"
  tl_date_ok :: "string \<Rightarrow> bool"
  tl_parse :: "string \<Rightarrow> json option"
  tl_size :: "update_plan \<Rightarrow> nat"
  tl_verify :: "json \<Rightarrow> string \<Rightarrow> release_manifest checked"
  tl_docker :: "nat \<Rightarrow> string list \<Rightarrow> docker_reply"

type_synonym 'a script = "(machine, 'a) action"

definition active_status :: "update_status \<Rightarrow> bool" where
  "active_status s = (s = UsAccepted \<or> s = UsRunning)"

definition initial_state :: "tools \<Rightarrow> supervisor_state" where
  "initial_state tk = \<lparr>ss_schema = 1, ss_version = tl_version tk, ss_images = None, ss_operation = None\<rparr>"

definition valid_state :: "supervisor_state \<Rightarrow> bool" where
  "valid_state s = (ss_schema s = 1 \<and> parse_release_version (ss_version s) \<noteq> None)"

definition save_state :: "supervisor_state \<Rightarrow> unit script" where
  "save_state s = change (\<lambda>w. w\<lparr>mc_state := Holds s\<rparr>)"

definition load_state :: "tools \<Rightarrow> supervisor_state script" where
  "load_state tk = look (\<lambda>w. case mc_state w of
      Missing \<Rightarrow> andthen (save_state (initial_state tk)) (\<lambda>_. give (initial_state tk))
    | Garbled \<Rightarrow> throw ''Unexpected token in JSON''
    | Holds s \<Rightarrow> if valid_state s then give s else throw ''Supervisor state has an unsupported schema'')"

definition supervisor_version :: string where "supervisor_version = ''0.2.30''"

definition adopt_current_release :: "tools \<Rightarrow> string \<Rightarrow> unit script" where
  "adopt_current_release tk v =
     (if parse_release_version v = None \<or> v \<noteq> supervisor_version \<or> v \<noteq> tl_version tk
      then throw ''Recovery release version does not match the running Supervisor image''
      else andthen (load_state tk) (\<lambda>s. save_state (s\<lparr>ss_version := v, ss_images := None, ss_operation := None\<rparr>)))"

section \<open>Files and commands\<close>

definition override_path :: "tools \<Rightarrow> string" where
  "override_path tk = tl_dir tk @ ''/runtime/platform-release.override.yml''"

text \<open>\<open>JSON.stringify\<close> of a string.\<close>

definition hex_char :: "nat \<Rightarrow> char" where
  "hex_char n = ''0123456789abcdef'' ! n"

definition json_escape :: "char \<Rightarrow> string" where
  "json_escape c = (let n = of_char c :: nat in
     if c = CHR 0x22 then [CHR 0x5C, CHR 0x22] else if c = CHR 0x5C then [CHR 0x5C, CHR 0x5C]
     else if n = 8 then [CHR 0x5C, CHR ''b''] else if n = 9 then [CHR 0x5C, CHR ''t'']
     else if n = 10 then [CHR 0x5C, CHR ''n''] else if n = 12 then [CHR 0x5C, CHR ''f'']
     else if n = 13 then [CHR 0x5C, CHR ''r'']
     else if n < 32 then [CHR 0x5C, CHR ''u'', CHR ''0'', CHR ''0'', hex_char (n div 16), hex_char (n mod 16)]
     else [c])"

definition json_quote :: "string \<Rightarrow> string" where
  "json_quote s = [CHR 0x22] @ concat (map json_escape s) @ [CHR 0x22]"

fun join_lines :: "string list \<Rightarrow> string" where
  "join_lines [] = []"
| "join_lines [l] = l"
| "join_lines (l # ls) = l @ line_feed @ join_lines ls"

definition render_override :: "release_manifest \<Rightarrow> string" where
  "render_override m = join_lines
     [''services:'', ''  api:'', ''    image: '' @ json_quote (pi_reference (rm_api m)),
      ''    environment:'', ''      INITPAD_PLATFORM_VERSION: '' @ json_quote (rm_version m),
      ''  web:'', ''    image: '' @ json_quote (pi_reference (rm_web m)),
      ''  supervisor:'', ''    image: '' @ json_quote (pi_reference (rm_supervisor m)),
      ''    environment:'', ''      INITPAD_PLATFORM_VERSION: '' @ json_quote (rm_version m), []]"

definition install_root :: "tools \<Rightarrow> string script" where
  "install_root tk = (case tl_root tk of
      Some r \<Rightarrow> if r = [] \<or> contains [CHR 0x00] r \<or> contains line_feed r \<or> \<not> starts_with ''/'' r
        then throw ''INITPAD_INSTALL_ROOT must be an absolute host path'' else give r
    | None \<Rightarrow> throw ''INITPAD_INSTALL_ROOT must be an absolute host path'')"

definition compose_args :: "tools \<Rightarrow> string \<Rightarrow> bool \<Rightarrow> string list" where
  "compose_args tk root with_override =
     [''compose'', ''--project-directory'', root @ ''/deploy'', ''--env-file'', root @ ''/deploy/.env'',
      ''-f'', root @ ''/deploy/docker-compose.yml''] @ (if with_override then [''-f'', override_path tk] else [])"

definition up_args :: "string list" where
  "up_args = [''up'', ''-d'', ''--no-deps'', ''--no-build'']"

definition started_services :: "tools \<Rightarrow> string list \<Rightarrow> docker_reply \<Rightarrow> machine \<Rightarrow> component \<Rightarrow> string option" where
  "started_services tk args r w c = (if c \<in> set (dr_started r)
     then (if override_path tk \<in> set args then mc_override w else None) else mc_services w c)"

definition docker :: "tools \<Rightarrow> string list \<Rightarrow> string script" where
  "docker tk args = effect (\<lambda>w. let r = tl_docker tk (length (mc_log w)) args in
     (w\<lparr>mc_log := mc_log w @ [(args, dr_error r = None)], mc_services := started_services tk args r w\<rparr>,
      case dr_error r of None \<Rightarrow> Done (dr_stdout r) | Some e \<Rightarrow> Raised e))"

definition docker_quietly :: "tools \<Rightarrow> string list \<Rightarrow> unit script" where
  "docker_quietly tk args = andthen (docker tk args) (\<lambda>_. give ())"

text \<open>\<open>Object.assign(operation, patch)\<close>, then the durable state with that operation.\<close>

definition patch_operation :: "tools \<Rightarrow> (update_operation \<Rightarrow> update_operation) \<Rightarrow> unit script" where
  "patch_operation tk f =
     andthen (note_down (\<lambda>w. w\<lparr>mc_operation := map_option f (mc_operation w)\<rparr>)) (\<lambda>_.
     andthen (load_state tk) (\<lambda>s. look (\<lambda>w. save_state (s\<lparr>ss_operation := mc_operation w\<rparr>))))"

definition at_stage :: "string \<Rightarrow> string \<Rightarrow> update_operation \<Rightarrow> update_operation" where
  "at_stage s m r = r\<lparr>uo_stage := s, uo_message := m\<rparr>"

definition plan_path :: "tools \<Rightarrow> string \<Rightarrow> string checked" where
  "plan_path tk i = (if \<not> uuid_v4 i then Inl ''Platform update operation id is invalid''
     else Inr (tl_dir tk @ ''/update-'' @ i @ ''.json''))"

definition checked :: "'a checked \<Rightarrow> 'a script" where
  "checked r = (case r of Inl e \<Rightarrow> throw e | Inr x \<Rightarrow> give x)"

definition write_plan :: "tools \<Rightarrow> string \<Rightarrow> json \<Rightarrow> string script" where
  "write_plan tk i release = andthen (checked (plan_path tk i)) (\<lambda>p.
     let x = \<lparr>up_schema = 1, up_operationId = i, up_release = release, up_createdAt = tl_now tk\<rparr> in
     andthen (effect (\<lambda>w. if mc_plans w p \<noteq> None then (w, Raised ''EEXIST: file already exists'')
       else (w\<lparr>mc_plans := (mc_plans w)(p \<mapsto> \<lparr>pl_private = True, pl_size = tl_size tk x, pl_plan = Some x\<rparr>)\<rparr>, Done ())))
     (\<lambda>_. give p))"

definition max_plan_bytes :: nat where "max_plan_bytes = 2 * 1024 * 1024"

definition plan_ok :: "tools \<Rightarrow> string \<Rightarrow> update_plan \<Rightarrow> bool" where
  "plan_ok tk p x = (up_schema x = 1 \<and> plan_path tk (up_operationId x) = Inr p \<and> tl_date_ok tk (up_createdAt x))"

definition read_plan :: "tools \<Rightarrow> string \<Rightarrow> update_plan script" where
  "read_plan tk p = look (\<lambda>w.
     if \<not> starts_with (tl_dir tk @ ''/'') p \<or> CHR ''/'' \<in> set (drop (length (tl_dir tk) + 1) p)
     then throw ''Platform update plan path is invalid''
     else (case mc_plans w p of
         None \<Rightarrow> throw ''ENOENT: no such file or directory''
       | Some f \<Rightarrow>
           if \<not> pl_private f then throw ''Platform update plan must be a mode-0600 regular file''
           else if pl_size f > max_plan_bytes then throw ''Platform update plan is too large''
           else (case pl_plan f of
               None \<Rightarrow> throw ''Unexpected token in JSON''
             | Some x \<Rightarrow>
                 if \<not> plan_ok tk p x then throw ''Platform update plan is invalid''
                 else andthen (checked (as_signed_release (up_release x))) (\<lambda>r. give (x\<lparr>up_release := r\<rparr>)))))"

section \<open>Applying an update\<close>

definition hex_between :: "nat \<Rightarrow> nat \<Rightarrow> string \<Rightarrow> bool" where
  "hex_between lo hi s = (lo \<le> length s \<and> length s \<le> hi \<and> hex_digits (length s) s)"

fun poll_service :: "nat \<Rightarrow> tools \<Rightarrow> string \<Rightarrow> string \<Rightarrow> unit script" where
  "poll_service 0 tk name i = throw (name @ '' readiness timed out'')"
| "poll_service (Suc n) tk name i = andthen
     (docker tk [''inspect'', ''--format'',
        ''{{if .State.Health}}{{.State.Health.Status}}{{else}}{{.State.Status}}{{end}}'', i])
     (\<lambda>s. if s = ''healthy'' then give ()
          else if s \<in> {''exited'', ''dead'', ''unhealthy''} then throw (name @ '' became '' @ s)
          else poll_service n tk name i)"

definition ready_attempts :: nat where "ready_attempts = 40"

definition wait_for_service :: "tools \<Rightarrow> string list \<Rightarrow> string \<Rightarrow> unit script" where
  "wait_for_service tk compose name = andthen (docker tk (compose @ [''ps'', ''-q'', name])) (\<lambda>i.
     if \<not> hex_between 12 64 i then throw (name @ '' container was not created'')
     else poll_service ready_attempts tk name i)"

definition take_lock :: "unit script" where
  "take_lock = effect (\<lambda>w. if mc_lock w then (w, Raised ''Another platform update is already running'')
     else (w\<lparr>mc_lock := True\<rparr>, Done ()))"

definition save_override :: "string \<Rightarrow> unit script" where
  "save_override i = look (\<lambda>w. if mc_hadOverride w
     then change (\<lambda>w. w\<lparr>mc_saved := (mc_saved w)(i := mc_override w)\<rparr>) else give ())"

text \<open>Up to the verified release and the saved descriptor.\<close>

definition verify_plan :: "tools \<Rightarrow> update_plan \<Rightarrow> update_operation \<Rightarrow> release_manifest script" where
  "verify_plan tk p r =
     andthen (patch_operation tk (\<lambda>r. at_stage ''verifying'' ''Verifying the signed platform release'' (r\<lparr>uo_status := UsRunning\<rparr>))) (\<lambda>_.
     andthen (checked (tl_verify tk (up_release p) (uo_fromVersion r))) (\<lambda>m.
     if tl_sha256 tk (render_override m) \<noteq> rm_composeSha256 m
     then throw ''Generated Compose override does not match the signed release''
     else andthen (save_override (uo_id r)) (\<lambda>_.
          andthen (note_down (\<lambda>w. w\<lparr>mc_prepared := True\<rparr>)) (\<lambda>_. give m))))"

definition prepare_update :: "tools \<Rightarrow> string \<Rightarrow> release_manifest script" where
  "prepare_update tk path =
     andthen (read_plan tk path) (\<lambda>p.
     andthen (load_state tk) (\<lambda>s.
     andthen (note_down (\<lambda>w. w\<lparr>mc_operation := ss_operation s, mc_previous := Some s\<rparr>)) (\<lambda>_.
     case ss_operation s of
       None \<Rightarrow> throw ''Platform update operation state is missing''
     | Some r \<Rightarrow>
         if uo_id r \<noteq> up_operationId p then throw ''Platform update operation state is missing''
         else andthen (note_down (\<lambda>w. w\<lparr>mc_saveId := Some (uo_id r), mc_hadOverride := (mc_override w \<noteq> None)\<rparr>)) (\<lambda>_.
              andthen (install_root tk) (\<lambda>root.
              andthen (note_down (\<lambda>w. w\<lparr>mc_root := Some root\<rparr>)) (\<lambda>_. verify_plan tk p r))))))"

definition back_up :: "tools \<Rightarrow> string list \<Rightarrow> unit script" where
  "back_up tk compose = look (\<lambda>w.
     andthen (patch_operation tk (\<lambda>r. at_stage ''backup'' ''Creating and verifying the PostgreSQL backup''
        (r\<lparr>uo_backupPath := Some (tl_dir tk @ ''/backups/'' @ uo_id r @ ''.dump'')\<rparr>))) (\<lambda>_.
     andthen (docker tk (compose @ [''exec'', ''-T'', ''postgres'', ''pg_dump'', ''-U'', ''initpad'', ''-d'', ''initpad'', ''-Fc''])) (\<lambda>_.
     docker_quietly tk (compose @ [''exec'', ''-T'', ''postgres'', ''pg_restore'', ''--list'']))))"

definition pull_images :: "tools \<Rightarrow> release_manifest \<Rightarrow> unit script" where
  "pull_images tk m =
     andthen (patch_operation tk (at_stage ''pulling'' ''Pulling immutable platform images'')) (\<lambda>_.
     andthen (docker tk [''pull'', pi_reference (rm_api m)]) (\<lambda>_.
     andthen (docker tk [''pull'', pi_reference (rm_web m)]) (\<lambda>_.
     docker_quietly tk [''pull'', pi_reference (rm_supervisor m)])))"

definition write_override :: "string \<Rightarrow> unit script" where
  "write_override x = change (\<lambda>w. w\<lparr>mc_override := Some x\<rparr>)"

definition switch_service :: "tools \<Rightarrow> string list \<Rightarrow> string \<Rightarrow> string \<Rightarrow> unit script" where
  "switch_service tk compose name message =
     andthen (patch_operation tk (at_stage name message)) (\<lambda>_.
     andthen (docker tk (compose @ up_args @ [name])) (\<lambda>_. wait_for_service tk compose name))"

definition switch_release :: "tools \<Rightarrow> string \<Rightarrow> release_manifest \<Rightarrow> unit script" where
  "switch_release tk root m =
     andthen (patch_operation tk (at_stage ''switching'' ''Switching to the verified platform release'')) (\<lambda>_.
     andthen (write_override (render_override m)) (\<lambda>_.
     andthen (switch_service tk (compose_args tk root True) ''api'' ''Applying compatible migrations and checking the API'') (\<lambda>_.
     andthen (switch_service tk (compose_args tk root True) ''web'' ''Switching the web application and checking readiness'') (\<lambda>_.
     switch_service tk (compose_args tk root True) ''supervisor'' ''Switching the release Supervisor and checking readiness''))))"

definition completed_state :: "tools \<Rightarrow> release_manifest \<Rightarrow> update_operation \<Rightarrow> supervisor_state" where
  "completed_state tk m r = \<lparr>ss_schema = 1, ss_version = rm_version m,
     ss_images = Some \<lparr>ir_api = pi_reference (rm_api m), ir_web = pi_reference (rm_web m),
        ir_supervisor = pi_reference (rm_supervisor m)\<rparr>,
     ss_operation = Some (r\<lparr>uo_status := UsSucceeded, uo_stage := ''completed'',
        uo_message := ''InitPad '' @ rm_version m @ '' installed successfully'', uo_finishedAt := Some (tl_now tk)\<rparr>)\<rparr>"

definition remove_saved :: "unit script" where
  "remove_saved = look (\<lambda>w. case mc_saveId w of None \<Rightarrow> give ()
     | Some i \<Rightarrow> change (\<lambda>w. w\<lparr>mc_saved := (mc_saved w)(i := None)\<rparr>))"

definition complete_update :: "tools \<Rightarrow> release_manifest \<Rightarrow> unit script" where
  "complete_update tk m = andthen (look (\<lambda>w. case mc_operation w of
      None \<Rightarrow> give () | Some r \<Rightarrow> save_state (completed_state tk m r))) (\<lambda>_. remove_saved)"

definition update_body :: "tools \<Rightarrow> string \<Rightarrow> unit script" where
  "update_body tk path = andthen (prepare_update tk path) (\<lambda>m. look (\<lambda>w.
     let root = the (mc_root w) in
     andthen (back_up tk (compose_args tk root (mc_hadOverride w))) (\<lambda>_.
     andthen (pull_images tk m) (\<lambda>_.
     andthen (switch_release tk root m) (\<lambda>_. complete_update tk m)))))"

section \<open>Failing and cleaning up\<close>

text \<open>
  The writes of the rollback. The file system may refuse any of them: a refused copy of the saved
  descriptor and a refused record of the rollback are swallowed, a refused removal throws.
\<close>

datatype rollback_write = CopyDescriptor | RemoveDescriptor | SaveRollback

definition restore_override :: "(rollback_write \<Rightarrow> bool) \<Rightarrow> unit script" where
  "restore_override refused = look (\<lambda>w.
     if \<not> mc_prepared w then give ()
     else if mc_hadOverride w \<and> mc_saveId w \<noteq> None
     then (case mc_saved w (the (mc_saveId w)) of
         None \<Rightarrow> give ()
       | Some x \<Rightarrow> if refused CopyDescriptor then give () else write_override x)
     else if refused RemoveDescriptor then throw ''EPERM: operation not permitted, unlink''
     else change (\<lambda>w. w\<lparr>mc_override := None\<rparr>))"

definition rolled_back :: "tools \<Rightarrow> string \<Rightarrow> update_operation \<Rightarrow> update_operation" where
  "rolled_back tk m r = r\<lparr>uo_status := UsRolledBack, uo_stage := ''rolled-back'',
     uo_message := take 500 (''Update rolled back: '' @ m), uo_finishedAt := Some (tl_now tk)\<rparr>"

definition record_rollback :: "(rollback_write \<Rightarrow> bool) \<Rightarrow> tools \<Rightarrow> string \<Rightarrow> unit script" where
  "record_rollback refused tk e = look (\<lambda>w. case (mc_previous w, mc_operation w) of
      (Some s, Some r) \<Rightarrow> quietly (if refused SaveRollback then throw ''EIO: i/o error, write''
        else save_state (s\<lparr>ss_operation := Some (rolled_back tk e r)\<rparr>))
    | _ \<Rightarrow> give ())"

definition restart_previous :: "tools \<Rightarrow> unit script" where
  "restart_previous tk = look (\<lambda>w. case mc_root w of
      None \<Rightarrow> give ()
    | Some root \<Rightarrow> quietly (docker_quietly tk
        (compose_args tk root (mc_hadOverride w) @ up_args @ [''api'', ''web'', ''supervisor''])))"

definition update_failed :: "(rollback_write \<Rightarrow> bool) \<Rightarrow> tools \<Rightarrow> string \<Rightarrow> unit script" where
  "update_failed refused tk e =
     andthen (restore_override refused) (\<lambda>_. andthen (record_rollback refused tk e) (\<lambda>_.
     andthen (restart_previous tk) (\<lambda>_. throw e)))"

definition clean_up :: "string \<Rightarrow> unit script" where
  "clean_up path =
     andthen (change (\<lambda>w. w\<lparr>mc_plans := (mc_plans w)(path := None)\<rparr>)) (\<lambda>_.
     andthen remove_saved (\<lambda>_. change (\<lambda>w. w\<lparr>mc_lock := False\<rparr>)))"

text \<open>The variables of the helper, as they are when it starts.\<close>

definition fresh_process :: "machine \<Rightarrow> machine" where
  "fresh_process w = w\<lparr>mc_operation := None, mc_previous := None, mc_saveId := None, mc_hadOverride := False,
     mc_prepared := False, mc_root := None\<rparr>"

definition apply_update :: "(rollback_write \<Rightarrow> bool) \<Rightarrow> tools \<Rightarrow> string \<Rightarrow> unit script" where
  "apply_update refused tk path = andthen (note_down fresh_process) (\<lambda>_. andthen take_lock (\<lambda>_.
     ensuring (catching (update_body tk path) (update_failed refused tk)) (clean_up path)))"

text \<open>With a file system that accepts the writes of a rollback.\<close>

definition apply_plan :: "tools \<Rightarrow> string \<Rightarrow> unit script" where
  "apply_plan = apply_update (\<lambda>_. False)"

section \<open>Recovery\<close>

definition labelled :: "string \<Rightarrow> string \<Rightarrow> string list" where
  "labelled kind i = [''ps'', ''-q'', ''--filter'', ''label=com.initpad.platform-'' @ kind @ ''='' @ i]"

definition changed_stage :: "string \<Rightarrow> bool" where
  "changed_stage s = (s \<in> {''switching'', ''api'', ''web'', ''supervisor''})"

definition restore_descriptor :: "tools \<Rightarrow> supervisor_state \<Rightarrow> string \<Rightarrow> unit script" where
  "restore_descriptor tk s i = look (\<lambda>w. let had = (mc_saved w i \<noteq> None) in
     andthen
       (if had then change (\<lambda>w. w\<lparr>mc_override := mc_saved w i, mc_saved := (mc_saved w)(i := None)\<rparr>)
        else if ss_images s \<noteq> None then throw ''Previous signed platform release descriptor is missing''
        else change (\<lambda>w. w\<lparr>mc_override := None\<rparr>))
       (\<lambda>_. andthen (install_root tk) (\<lambda>root.
          docker_quietly tk (compose_args tk root had @ up_args @ [''api'', ''web'']))))"

definition recovered_operation :: "tools \<Rightarrow> update_operation \<Rightarrow> update_operation" where
  "recovered_operation tk r = (if changed_stage (uo_stage r)
     then r\<lparr>uo_status := UsRolledBack, uo_stage := ''rolled-back'',
       uo_message := ''Interrupted platform update was rolled back during Supervisor recovery'',
       uo_finishedAt := Some (tl_now tk)\<rparr>
     else r\<lparr>uo_status := UsFailed, uo_stage := ''interrupted'',
       uo_message := ''Platform update was interrupted before any image was switched'',
       uo_finishedAt := Some (tl_now tk)\<rparr>)"

definition recovery_failed :: "tools \<Rightarrow> string \<Rightarrow> update_operation \<Rightarrow> update_operation" where
  "recovery_failed tk e r = r\<lparr>uo_status := UsFailed, uo_stage := ''recovery-failed'',
     uo_message := take 500 (''Automatic recovery failed: '' @ e), uo_finishedAt := Some (tl_now tk)\<rparr>"

definition restore_supervisor :: "tools \<Rightarrow> string \<Rightarrow> unit script" where
  "restore_supervisor tk i = look (\<lambda>w. andthen (install_root tk) (\<lambda>root.
     docker_quietly tk (compose_args tk root (mc_saved w i \<noteq> None) @ up_args @ [''supervisor''])))"

definition recover_body :: "tools \<Rightarrow> supervisor_state \<Rightarrow> update_operation \<Rightarrow> unit script" where
  "recover_body tk s r =
     andthen (if changed_stage (uo_stage r) then restore_descriptor tk s (uo_id r) else give ()) (\<lambda>_.
     andthen (save_state (s\<lparr>ss_operation := Some (recovered_operation tk r)\<rparr>)) (\<lambda>_.
     andthen (if uo_stage r = ''supervisor'' then restore_supervisor tk (uo_id r) else give ()) (\<lambda>_.
     andthen (checked (plan_path tk (uo_id r))) (\<lambda>p.
     andthen (change (\<lambda>w. w\<lparr>mc_plans := (mc_plans w)(p := None)\<rparr>)) (\<lambda>_.
     andthen (change (\<lambda>w. w\<lparr>mc_saved := (mc_saved w)(uo_id r := None)\<rparr>)) (\<lambda>_.
     change (\<lambda>w. w\<lparr>mc_lock := False\<rparr>)))))))"

definition recover_interrupted_update :: "tools \<Rightarrow> string option \<Rightarrow> unit script" where
  "recover_interrupted_update tk expected = andthen (load_state tk) (\<lambda>s.
     if truthy expected \<and> \<not> uuid_v4 (the expected) then throw ''Platform recovery operation id is invalid''
     else if truthy expected \<and> map_option uo_id (ss_operation s) \<noteq> expected
     then throw ''Platform recovery operation does not match durable state''
     else (case ss_operation s of
         None \<Rightarrow> give ()
       | Some r \<Rightarrow>
           if \<not> active_status (uo_status r) then give ()
           else andthen (docker tk (labelled ''update'' (uo_id r))) (\<lambda>helper.
             if helper \<noteq> [] then (if hex_between 12 64 helper then give () else throw ''Platform update helper identity is invalid'')
             else catching (recover_body tk s r)
               (\<lambda>e. save_state (s\<lparr>ss_operation := Some (recovery_failed tk e r)\<rparr>)))))"

end
