(* ===== verification/SupervisorProofs.thy ===== *)
theory SupervisorProofs
  imports Supervisor
begin

text \<open>
  What the update helper and its recovery guarantee. \<open>baseline\<close> is the machine an update starts from; the
  predicates below say what is on the disk at every point where power may fail: the old release, a
  release being switched that the recovery can undo, or the new release.
\<close>

section \<open>What is on the disk\<close>

record baseline =
  bl_tools :: tools
  bl_override :: "string option"
  bl_state :: supervisor_state
  bl_id :: string

definition sound_baseline :: "baseline \<Rightarrow> bool" where
  "sound_baseline b = (valid_state (bl_state b) \<and> (bl_override b = None \<longrightarrow> ss_images (bl_state b) = None))"

definition same_release :: "supervisor_state \<Rightarrow> supervisor_state \<Rightarrow> bool" where
  "same_release s s0 = (valid_state s \<and> ss_version s = ss_version s0 \<and> ss_images s = ss_images s0)"

text \<open>An operation whose interruption has replaced files.\<close>

definition switching :: "supervisor_state \<Rightarrow> bool" where
  "switching s = (case ss_operation s of None \<Rightarrow> False
     | Some r \<Rightarrow> active_status (uo_status r) \<and> changed_stage (uo_stage r))"

definition dump_args :: "string list" where
  "dump_args = [''exec'', ''-T'', ''postgres'', ''pg_dump'', ''-U'', ''initpad'', ''-d'', ''initpad'', ''-Fc'']"

definition list_args :: "string list" where
  "list_args = [''exec'', ''-T'', ''postgres'', ''pg_restore'', ''--list'']"

text \<open>The commands that must have succeeded before a file is replaced.\<close>

definition precautions :: "baseline \<Rightarrow> string \<Rightarrow> release_manifest \<Rightarrow> (string list \<times> bool) list" where
  "precautions b root m =
     (let compose = compose_args (bl_tools b) root (bl_override b \<noteq> None) in
      map (\<lambda>a. (a, True)) [compose @ dump_args, compose @ list_args, [''pull'', pi_reference (rm_api m)],
        [''pull'', pi_reference (rm_web m)], [''pull'', pi_reference (rm_supervisor m)]])"

definition accepted_release :: "baseline \<Rightarrow> release_manifest \<Rightarrow> bool" where
  "accepted_release b m = (tl_sha256 (bl_tools b) (render_override m) = rm_composeSha256 m \<and>
     (\<exists>r v. tl_verify (bl_tools b) r v = Inr m))"

definition secured :: "baseline \<Rightarrow> release_manifest \<Rightarrow> machine \<Rightarrow> bool" where
  "secured b m w = (accepted_release b m \<and> (\<exists>root. set (precautions b root m) \<subseteq> set (mc_log w)))"

definition old_release :: "baseline \<Rightarrow> machine \<Rightarrow> bool" where
  "old_release b w = (\<exists>s. mc_state w = Holds s \<and> same_release s (bl_state b) \<and> \<not> switching s \<and>
     mc_override w = bl_override b \<and> (\<forall>r. ss_operation s = Some r \<longrightarrow> uo_id r = bl_id b))"

definition mid_switch :: "baseline \<Rightarrow> machine \<Rightarrow> bool" where
  "mid_switch b w = (\<exists>s r. mc_state w = Holds s \<and> same_release s (bl_state b) \<and> switching s \<and>
     ss_operation s = Some r \<and> uo_id r = bl_id b \<and> mc_saved w (bl_id b) = bl_override b \<and>
     (mc_override w = bl_override b \<or> (\<exists>m. mc_override w = Some (render_override m) \<and> secured b m w)))"

definition new_release :: "baseline \<Rightarrow> machine \<Rightarrow> bool" where
  "new_release b w = (\<exists>m r. mc_state w = Holds (completed_state (bl_tools b) m r) \<and>
     mc_override w = Some (render_override m) \<and> secured b m w \<and> uo_id r = bl_id b)"

definition recoverable :: "baseline \<Rightarrow> machine \<Rightarrow> bool" where
  "recoverable b w = (old_release b w \<or> mid_switch b w \<or> new_release b w)"

lemma not_switching_completed: "\<not> switching (completed_state k m r)"
  by (simp add: switching_def completed_state_def active_status_def)

lemmas disk_defs = old_release_def mid_switch_def new_release_def secured_def

lemma disk_power [simp]:
  "old_release b (w\<lparr>pw_left := n\<rparr>) = old_release b w"
  "mid_switch b (w\<lparr>pw_left := n\<rparr>) = mid_switch b w"
  "new_release b (w\<lparr>pw_left := n\<rparr>) = new_release b w"
  "recoverable b (w\<lparr>pw_left := n\<rparr>) = recoverable b w"
  by (simp_all add: recoverable_def disk_defs)

section \<open>Rules for the primitives\<close>

lemma triple_checked [triples]:
  "(\<And>e. r = Inl e \<Longrightarrow> triple P (throw e) Q E K) \<Longrightarrow> (\<And>x. r = Inr x \<Longrightarrow> triple P (give x) Q E K)
     \<Longrightarrow> triple P (checked r) Q E K"
  by (cases r) (simp_all add: checked_def)

lemma triple_save:
  assumes "\<And>w. P w \<Longrightarrow> K w" and "\<And>w n. P w \<Longrightarrow> Q () (w\<lparr>pw_left := n, mc_state := Holds s\<rparr>)"
  shows "triple P (save_state s) Q E K"
  unfolding save_state_def using assms by (intro triple_change) simp_all

lemma triple_docker:
  assumes "\<And>w. P w \<Longrightarrow> K w"
    and "\<And>w n r. P w \<Longrightarrow> r = tl_docker tk (length (mc_log w)) args \<Longrightarrow>
      (case dr_error r of None \<Rightarrow> Q (dr_stdout r) | Some e \<Rightarrow> E e)
        (w\<lparr>pw_left := n, mc_log := mc_log w @ [(args, dr_error r = None)], mc_services := started_services tk args r w\<rparr>)"
  shows "triple P (docker tk args) Q E K"
  unfolding docker_def
proof (rule triple_effect [OF assms(1)])
  fix w :: machine and n
  assume "P w"
  let ?r = "tl_docker tk (length (mc_log w)) args"
  have s: "started_services tk args ?r (w\<lparr>pw_left := n\<rparr>) = started_services tk args ?r w"
    by (simp add: started_services_def fun_eq_iff)
  from assms(2) [OF \<open>P w\<close> refl, of n]
  show "ends (let r = tl_docker tk (length (mc_log (w\<lparr>pw_left := n\<rparr>))) args in
       ((w\<lparr>pw_left := n\<rparr>)\<lparr>mc_log := mc_log (w\<lparr>pw_left := n\<rparr>) @ [(args, dr_error r = None)],
          mc_services := started_services tk args r (w\<lparr>pw_left := n\<rparr>)\<rparr>,
        case dr_error r of None \<Rightarrow> Done (dr_stdout r) | Some e \<Rightarrow> Raised e)) (n = None) Q E (\<lambda>_. False)"
    by (auto simp: Let_def s steady_def split: option.splits)
qed

lemma triple_docker_quietly:
  assumes "triple P (docker tk args) (\<lambda>_. Q ()) E K"
  shows "triple P (docker_quietly tk args) Q E K"
  unfolding docker_quietly_def by (rule triple_andthen [OF assms]) (rule triple_give)

lemma load_state_holds: "mc_state w = Holds s \<Longrightarrow> valid_state s \<Longrightarrow> load_state tk w = (w, Done s)"
  by (simp add: load_state_def look_def give_def)

lemma patch_run:
  assumes "mc_state w = Holds s" and "valid_state s" and "mc_operation w = Some r"
  shows "patch_operation tk f w =
    save_state (s\<lparr>ss_operation := Some (f r)\<rparr>) (w\<lparr>mc_operation := Some (f r)\<rparr>)"
  using assms by (simp add: patch_operation_def andthen_def note_down_def load_state_holds look_def split: prod.splits ending.splits)

lemma triple_patch:
  assumes "\<And>w. P w \<Longrightarrow> \<exists>s r. mc_state w = Holds s \<and> valid_state s \<and> mc_operation w = Some r \<and>
      K (w\<lparr>mc_operation := Some (f r)\<rparr>) \<and>
      (\<forall>n. Q () (w\<lparr>mc_operation := Some (f r), pw_left := n, mc_state := Holds (s\<lparr>ss_operation := Some (f r)\<rparr>)\<rparr>))"
  shows "triple P (patch_operation tk f) Q E K"
proof (rule tripleI)
  fix w
  assume "P w"
  from assms [OF this] obtain s r where w: "mc_state w = Holds s" "valid_state s" "mc_operation w = Some r"
    and k: "K (w\<lparr>mc_operation := Some (f r)\<rparr>)"
    and q: "\<And>n. Q () (w\<lparr>mc_operation := Some (f r), pw_left := n, mc_state := Holds (s\<lparr>ss_operation := Some (f r)\<rparr>)\<rparr>)"
    by blast
  have "triple (\<lambda>x. \<exists>n. x = w\<lparr>mc_operation := Some (f r), pw_left := n\<rparr> \<and> (n = pw_left w))
      (save_state (s\<lparr>ss_operation := Some (f r)\<rparr>)) Q E K"
    using k q by (intro triple_save) auto
  then have "ends (save_state (s\<lparr>ss_operation := Some (f r)\<rparr>) (w\<lparr>mc_operation := Some (f r)\<rparr>))
      (steady (w\<lparr>mc_operation := Some (f r)\<rparr>)) Q E K"
    by (rule tripleD) (simp add: exI [of _ "pw_left w"])
  then show "ends (patch_operation tk f w) (steady w) Q E K"
    by (simp add: patch_run [OF w] steady_def)
qed

section \<open>Phases of an update\<close>

fun service_name :: "component \<Rightarrow> string" where
  "service_name ApiService = ''api''"
| "service_name WebService = ''web''"
| "service_name SupervisorService = ''supervisor''"

text \<open>Docker Compose: a successful \<open>up\<close> started the named services, and nothing else starts one.\<close>

definition compose_contract :: "tools \<Rightarrow> bool" where
  "compose_contract k = (\<forall>n args.
     (''up'' \<notin> set args \<longrightarrow> dr_started (tl_docker k n args) = []) \<and>
     (\<forall>compose names c. args = compose @ up_args @ names \<longrightarrow> dr_error (tl_docker k n args) = None \<longrightarrow>
        service_name c \<in> set names \<longrightarrow> c \<in> set (dr_started (tl_docker k n args))))"

definition memory_ready :: "baseline \<Rightarrow> machine \<Rightarrow> bool" where
  "memory_ready b w = ((\<exists>r. mc_operation w = Some r \<and> uo_id r = bl_id b) \<and> mc_previous w = Some (bl_state b) \<and>
     mc_saveId w = Some (bl_id b) \<and> mc_hadOverride w = (bl_override b \<noteq> None) \<and> mc_prepared w \<and>
     mc_saved w (bl_id b) = bl_override b)"

definition in_stage ::
  "baseline \<Rightarrow> string \<Rightarrow> (string list \<times> bool) list \<Rightarrow> component set \<Rightarrow> string option \<Rightarrow> machine \<Rightarrow> bool" where
  "in_stage b st log cs ov w = (memory_ready b w \<and> (\<exists>r. mc_operation w = Some r \<and> uo_status r = UsRunning \<and> uo_stage r = st \<and>
     mc_state w = Holds ((bl_state b)\<lparr>ss_operation := Some r\<rparr>)) \<and> mc_override w = ov \<and> set log \<subseteq> set (mc_log w) \<and>
     (compose_contract (bl_tools b) \<longrightarrow> (\<forall>c \<in> cs. mc_services w c = ov)))"

definition stage_ok :: "baseline \<Rightarrow> string \<Rightarrow> (string list \<times> bool) list \<Rightarrow> string option \<Rightarrow> bool" where
  "stage_ok b st log ov = (ov = bl_override b \<or> changed_stage st \<and>
     (\<exists>m root. ov = Some (render_override m) \<and> accepted_release b m \<and> set (precautions b root m) \<subseteq> set log))"

text \<open>Where the error of an update may arise: its handler can still restore everything.\<close>

definition failing :: "baseline \<Rightarrow> machine \<Rightarrow> bool" where
  "failing b w = ((old_release b w \<or> mid_switch b w) \<and> memory_ready b w \<or>
     old_release b w \<and> \<not> mc_prepared w \<and> (mc_previous w = None \<or> mc_previous w = Some (bl_state b)) \<and>
     (\<forall>r. mc_operation w = Some r \<longrightarrow> uo_id r = bl_id b))"

lemma failing_recoverable: "failing b w \<Longrightarrow> recoverable b w"
  by (auto simp: failing_def recoverable_def)

lemma same_release_op [simp]: "valid_state s0 \<Longrightarrow> same_release (s0\<lparr>ss_operation := r\<rparr>) s0"
  by (simp add: same_release_def valid_state_def)

lemma phase_failing:
  assumes "sound_baseline b" and "stage_ok b st log ov" and "in_stage b st log cs ov w"
  shows "failing b w"
proof -
  from assms(3) obtain r where ready: "memory_ready b w" and r: "mc_operation w = Some r" "uo_status r = UsRunning" "uo_stage r = st"
    and disk: "mc_state w = Holds ((bl_state b)\<lparr>ss_operation := Some r\<rparr>)" "mc_override w = ov" "set log \<subseteq> set (mc_log w)"
    by (auto simp: in_stage_def)
  from ready r(1) have id: "uo_id r = bl_id b" "mc_saved w (bl_id b) = bl_override b" by (auto simp: memory_ready_def)
  let ?s = "(bl_state b)\<lparr>ss_operation := Some r\<rparr>"
  have same: "same_release ?s (bl_state b)" using assms(1) by (simp add: sound_baseline_def)
  have "old_release b w \<or> mid_switch b w"
  proof (cases "changed_stage st")
    case True
    then have "switching ?s" using r by (simp add: switching_def active_status_def)
    moreover have "mc_override w = bl_override b \<or> (\<exists>m. mc_override w = Some (render_override m) \<and> secured b m w)"
      using assms(2) disk unfolding stage_ok_def secured_def by blast
    ultimately show ?thesis using disk(1) same id by (auto simp: mid_switch_def)
  next
    case False
    then have "\<not> switching ?s" using r by (simp add: switching_def)
    then show ?thesis using disk same assms(2) False id by (auto simp: old_release_def stage_ok_def)
  qed
  with ready show ?thesis by (simp add: failing_def)
qed

lemmas phase_recoverable = failing_recoverable [OF phase_failing]

lemma failing_frame:
  assumes "failing b w" and "mc_state w' = mc_state w" "mc_override w' = mc_override w" "mc_saved w' = mc_saved w"
    "set (mc_log w) \<subseteq> set (mc_log w')" "mc_previous w' = mc_previous w" "mc_saveId w' = mc_saveId w"
    "mc_hadOverride w' = mc_hadOverride w" "mc_prepared w' = mc_prepared w"
    "mc_operation w = mc_operation w' \<or> (\<exists>r r'. mc_operation w = Some r \<and> mc_operation w' = Some r' \<and> uo_id r' = uo_id r)"
  shows "failing b w'"
proof -
  have "memory_ready b w'" if "memory_ready b w" using that assms(3-) by (auto simp: memory_ready_def)
  moreover have "old_release b w'" if "old_release b w" using that assms(2-) by (simp add: old_release_def)
  moreover have "mid_switch b w'" if "mid_switch b w"
    using that assms(2-5) unfolding mid_switch_def secured_def by (metis subset_trans)
  moreover have "uo_id r = bl_id b" if "\<forall>r. mc_operation w = Some r \<longrightarrow> uo_id r = bl_id b" "mc_operation w' = Some r" for r
    using that assms(10) by auto
  ultimately have keep: "memory_ready b w \<Longrightarrow> memory_ready b w'" "old_release b w \<Longrightarrow> old_release b w'"
    "mid_switch b w \<Longrightarrow> mid_switch b w'"
    "\<forall>r. mc_operation w = Some r \<longrightarrow> uo_id r = bl_id b \<Longrightarrow> \<forall>r. mc_operation w' = Some r \<longrightarrow> uo_id r = bl_id b"
    by blast+
  show ?thesis
  proof (cases "(old_release b w \<or> mid_switch b w) \<and> memory_ready b w")
    case True
    then show ?thesis using keep(1-3) by (auto simp: failing_def)
  next
    case False
    with assms(1) have early: "old_release b w" "\<not> mc_prepared w" "mc_previous w = None \<or> mc_previous w = Some (bl_state b)"
      "\<forall>r. mc_operation w = Some r \<longrightarrow> uo_id r = bl_id b"
      by (simp_all add: failing_def)
    show ?thesis
      unfolding failing_def using early(2,3) assms(6,9) keep(2) [OF early(1)] keep(4) [OF early(4)] by simp
  qed
qed

lemma phase_power: "in_stage b st log cs ov (w\<lparr>pw_left := n\<rparr>) = in_stage b st log cs ov w"
  by (simp add: in_stage_def memory_ready_def)

lemma triple_patch_phase:
  assumes "sound_baseline b" and "stage_ok b st log ov" and "stage_ok b st' log ov"
    and "\<And>r. uo_id (f r) = uo_id r \<and> uo_status (f r) = uo_status r \<and> uo_stage (f r) = st'"
  shows "triple (in_stage b st log cs ov) (patch_operation k f) (\<lambda>_. in_stage b st' log cs ov) (\<lambda>_. failing b) (recoverable b)"
proof (rule triple_patch)
  fix w
  assume p: "in_stage b st log cs ov w"
  then obtain r where r: "mc_operation w = Some r" "uo_status r = UsRunning"
    "mc_state w = Holds ((bl_state b)\<lparr>ss_operation := Some r\<rparr>)" by (auto simp: in_stage_def)
  have "failing b (w\<lparr>mc_operation := Some (f r)\<rparr>)"
    by (rule failing_frame [OF phase_failing [OF assms(1,2) p]]) (simp_all add: r(1) assms(4))
  moreover have "in_stage b st' log cs ov
      (w\<lparr>mc_operation := Some (f r), pw_left := n, mc_state := Holds ((bl_state b)\<lparr>ss_operation := Some (f r)\<rparr>)\<rparr>)" for n
    using p r assms(4) by (auto simp: in_stage_def memory_ready_def)
  ultimately show "\<exists>s r. mc_state w = Holds s \<and> valid_state s \<and> mc_operation w = Some r \<and>
      recoverable b (w\<lparr>mc_operation := Some (f r)\<rparr>) \<and>
      (\<forall>n. in_stage b st' log cs ov (w\<lparr>mc_operation := Some (f r), pw_left := n, mc_state := Holds (s\<lparr>ss_operation := Some (f r)\<rparr>)\<rparr>))"
    using r assms(1) failing_recoverable by (intro exI [of _ "(bl_state b)\<lparr>ss_operation := Some r\<rparr>"] exI [of _ r])
      (simp add: sound_baseline_def valid_state_def)
qed

lemma triple_docker_phase:
  assumes "sound_baseline b" and "stage_ok b st log ov" and "k = bl_tools b"
    and "\<And>c w n. compose_contract k \<Longrightarrow> dr_error (tl_docker k n args) = None \<Longrightarrow> c \<in> cs' \<Longrightarrow>
      (c \<in> cs \<longrightarrow> mc_services w c = mc_override w) \<Longrightarrow> started_services k args (tl_docker k n args) w c = mc_override w"
  shows "triple (in_stage b st log cs ov) (docker k args) (\<lambda>_. in_stage b st ((args, True) # log) cs' ov) (\<lambda>_. failing b) (recoverable b)"
proof (rule triple_docker)
  fix w n r
  assume p: "in_stage b st log cs ov w" and r: "r = tl_docker k (length (mc_log w)) args"
  let ?w = "w\<lparr>pw_left := n, mc_log := mc_log w @ [(args, dr_error r = None)], mc_services := started_services k args r w\<rparr>"
  have "failing b ?w" using phase_failing [OF assms(1,2) p] by (rule failing_frame) auto
  moreover have "in_stage b st ((args, True) # log) cs' ov ?w" if "dr_error r = None"
    using p that assms(4) [of "length (mc_log w)" _ w] unfolding r assms(3) by (auto simp: in_stage_def memory_ready_def)
  ultimately show "(case dr_error r of None \<Rightarrow> in_stage b st ((args, True) # log) cs' ov | Some e \<Rightarrow> failing b) ?w"
    by (cases "dr_error r") simp_all
qed (rule phase_recoverable [OF assms(1,2)])

lemma triple_docker_step:
  assumes "sound_baseline b" and "stage_ok b st log ov" and "k = bl_tools b"
  shows "triple (in_stage b st log {} ov) (docker k args) (\<lambda>_. in_stage b st ((args, True) # log) {} ov) (\<lambda>_. failing b) (recoverable b)"
  by (rule triple_docker_phase [OF assms]) simp

text \<open>A command that is no \<open>up\<close> keeps the services; an \<open>up\<close> with the descriptor adds what it names.\<close>

lemma other_command: "\<lbrakk>compose_contract k; ''up'' \<notin> set args; c \<in> cs \<longrightarrow> mc_services w c = mc_override w; c \<in> cs\<rbrakk> \<Longrightarrow>
    started_services k args (tl_docker k n args) w c = mc_override w"
  by (simp add: compose_contract_def started_services_def)

lemma up_command:
  assumes "compose_contract k" and "args = compose @ up_args @ names" and "override_path k \<in> set compose"
    and "dr_error (tl_docker k n args) = None" and "c \<in> cs \<union> {c. service_name c \<in> set names}"
    and "c \<in> cs \<longrightarrow> mc_services w c = mc_override w"
  shows "started_services k args (tl_docker k n args) w c = mc_override w"
  using assms unfolding compose_contract_def started_services_def by auto

section \<open>The steps of an update\<close>

lemma triple_wait:
  assumes "sound_baseline b" and "stage_ok b st log ov" and "k = bl_tools b" and "''up'' \<notin> set (name # compose)"
  shows "triple (in_stage b st log cs ov) (wait_for_service k compose name) (\<lambda>_. in_stage b st log cs ov) (\<lambda>_. failing b) (recoverable b)"
proof -
  have weaken: "in_stage b st (x # log) cs ov w \<Longrightarrow> in_stage b st log cs ov w" for x w by (simp add: in_stage_def)
  have run: "triple (in_stage b st log cs ov) (docker k args) (\<lambda>_. in_stage b st log cs ov) (\<lambda>_. failing b) (recoverable b)"
    if "''up'' \<notin> set args" for args
    by (rule triple_conseq [OF triple_docker_phase [OF assms(1-3), of args cs cs]])
      (use other_command [OF _ that] weaken in \<open>blast+\<close>)
  have stop: "triple (in_stage b st log cs ov) (throw e) (\<lambda>_. in_stage b st log cs ov) (\<lambda>_. failing b) (recoverable b)" for e
    by (rule triple_throw) (rule phase_failing [OF assms(1,2)])
  have poll: "triple (in_stage b st log cs ov) (poll_service n k name i) (\<lambda>_. in_stage b st log cs ov) (\<lambda>_. failing b) (recoverable b)"
    if "i \<noteq> ''up''" for n i
  proof (induction n)
    case 0
    show ?case using stop by simp
  next
    case (Suc n)
    show ?case unfolding poll_service.simps
      using that by (intro triple_andthen [OF run] triple_if triple_give stop Suc.IH) auto
  qed
  have hex: "hex_between 12 64 i \<Longrightarrow> i \<noteq> ''up''" for i by (auto simp: hex_between_def)
  show ?thesis unfolding wait_for_service_def
  proof (rule triple_andthen [OF run])
    show "''up'' \<notin> set (compose @ [''ps'', ''-q'', name])" using assms(4) by simp
  qed (intro triple_if stop poll; use hex in blast)
qed

lemma compose_no_up: "''up'' \<notin> set (compose_args k root h)"
  by (auto simp: compose_args_def override_path_def dest!: arg_cong [where f = length])

lemma compose_override: "override_path k \<in> set (compose_args k root True)"
  by (simp add: compose_args_def)

lemma triple_backup:
  assumes "sound_baseline b" and "k = bl_tools b"
  shows "triple (in_stage b st [] {} (bl_override b)) (back_up k compose)
    (\<lambda>_. in_stage b ''backup'' [(compose @ list_args, True), (compose @ dump_args, True)] {} (bl_override b))
    (\<lambda>_. failing b) (recoverable b)"
proof -
  have ok: "stage_ok b st log (bl_override b)" for st log by (simp add: stage_ok_def)
  show ?thesis
    unfolding back_up_def
  proof (rule triple_look)
    fix w0
    let ?p = "\<lambda>r. at_stage ''backup'' ''Creating and verifying the PostgreSQL backup''
        (r\<lparr>uo_backupPath := Some (tl_dir k @ ''/backups/'' @ uo_id r @ ''.dump'')\<rparr>)"
    have stage: "uo_id (?p r) = uo_id r \<and> uo_status (?p r) = uo_status r \<and> uo_stage (?p r) = ''backup''" for r
      by (simp add: at_stage_def)
    have "triple (in_stage b st [] {} (bl_override b)) (andthen (patch_operation k ?p) (\<lambda>_.
        andthen (docker k (compose @ dump_args)) (\<lambda>_. docker_quietly k (compose @ list_args))))
      (\<lambda>_. in_stage b ''backup'' [(compose @ list_args, True), (compose @ dump_args, True)] {} (bl_override b))
      (\<lambda>_. failing b) (recoverable b)"
      by (rule triple_andthen triple_docker_quietly triple_patch_phase [OF assms(1) ok ok stage]
          triple_docker_step [OF assms(1) ok assms(2)])+
    then show "triple (\<lambda>w. in_stage b st [] {} (bl_override b) w \<and> w = w0) (andthen (patch_operation k ?p) (\<lambda>_.
        andthen (docker k (compose @ [''exec'', ''-T'', ''postgres'', ''pg_dump'', ''-U'', ''initpad'', ''-d'', ''initpad'', ''-Fc''])) (\<lambda>_.
        docker_quietly k (compose @ [''exec'', ''-T'', ''postgres'', ''pg_restore'', ''--list'']))))
      (\<lambda>_. in_stage b ''backup'' [(compose @ list_args, True), (compose @ dump_args, True)] {} (bl_override b))
      (\<lambda>_. failing b) (recoverable b)"
      unfolding dump_args_def list_args_def by (rule triple_weaken) simp
  qed
qed

lemma triple_pull:
  assumes "sound_baseline b" and "k = bl_tools b"
  shows "triple (in_stage b ''backup'' log {} (bl_override b)) (pull_images k m)
    (\<lambda>_. in_stage b ''pulling'' (([''pull'', pi_reference (rm_supervisor m)], True) # ([''pull'', pi_reference (rm_web m)], True) #
       ([''pull'', pi_reference (rm_api m)], True) # log) {} (bl_override b)) (\<lambda>_. failing b) (recoverable b)"
proof -
  have ok: "stage_ok b st log (bl_override b)" for st log by (simp add: stage_ok_def)
  have stage: "uo_id (at_stage s t r) = uo_id r \<and> uo_status (at_stage s t r) = uo_status r \<and> uo_stage (at_stage s t r) = s"
    for s t r by (simp add: at_stage_def)
  show ?thesis
    unfolding pull_images_def
    by (rule triple_andthen triple_docker_quietly triple_patch_phase [OF assms(1) ok ok stage]
        triple_docker_step [OF assms(1) ok assms(2)])+
qed

lemma triple_switch_service:
  assumes "sound_baseline b" and "k = bl_tools b" and "stage_ok b st log ov" and "stage_ok b name log ov" and "name \<noteq> ''up''"
  shows "triple (in_stage b st log cs ov) (switch_service k (compose_args k root True) name msg)
    (\<lambda>_. in_stage b name log (cs \<union> {c. service_name c = name}) ov) (\<lambda>_. failing b) (recoverable b)"
  unfolding switch_service_def
proof (rule triple_andthen)
  show "triple (in_stage b st log cs ov) (patch_operation k (at_stage name msg)) (\<lambda>_. in_stage b name log cs ov)
      (\<lambda>_. failing b) (recoverable b)"
    by (rule triple_patch_phase [OF assms(1,3,4)]) (simp add: at_stage_def)
next
  let ?cs = "cs \<union> {c. service_name c = name}"
  have "triple (in_stage b name log cs ov) (docker k (compose_args k root True @ up_args @ [name]))
      (\<lambda>_. in_stage b name log ?cs ov) (\<lambda>_. failing b) (recoverable b)"
  proof (rule triple_conseq [OF triple_docker_phase [OF assms(1,4,2), where cs' = ?cs and cs = cs]])
    fix c and w :: machine and n
    assume "compose_contract k" "dr_error (tl_docker k n (compose_args k root True @ up_args @ [name])) = None" "c \<in> ?cs"
      "c \<in> cs \<longrightarrow> mc_services w c = mc_override w"
    then show "started_services k (compose_args k root True @ up_args @ [name])
        (tl_docker k n (compose_args k root True @ up_args @ [name])) w c = mc_override w"
      by (intro up_command [OF _ refl compose_override, where cs = cs]) auto
  qed (simp_all add: in_stage_def)
  moreover have "triple (in_stage b name log ?cs ov) (wait_for_service k (compose_args k root True) name)
      (\<lambda>_. in_stage b name log ?cs ov) (\<lambda>_. failing b) (recoverable b)"
    by (rule triple_wait [OF assms(1,4,2)]) (use assms(5) compose_no_up in auto)
  ultimately show "triple (in_stage b name log cs ov)
      (andthen (docker k (compose_args k root True @ up_args @ [name])) (\<lambda>_. wait_for_service k (compose_args k root True) name))
      (\<lambda>_. in_stage b name log ?cs ov) (\<lambda>_. failing b) (recoverable b)"
    by (rule triple_andthen)
qed

lemma switched_ok:
  assumes "accepted_release b m" and "set (precautions b root m) \<subseteq> set log" and "changed_stage st"
  shows "stage_ok b st log (Some (render_override m))"
  using assms unfolding stage_ok_def by blast

lemma triple_write_override:
  assumes "sound_baseline b" and "stage_ok b st log (bl_override b)"
  shows "triple (in_stage b st log {} (bl_override b)) (write_override x) (\<lambda>_. in_stage b st log {} (Some x)) E (recoverable b)"
  unfolding write_override_def
  by (rule triple_change, erule phase_recoverable [OF assms]) (auto simp: in_stage_def memory_ready_def)

lemma triple_switch_release:
  assumes "sound_baseline b" and "k = bl_tools b" and "accepted_release b m" and "set (precautions b root m) \<subseteq> set log"
  shows "triple (in_stage b ''pulling'' log {} (bl_override b)) (switch_release k root' m)
    (\<lambda>_. in_stage b ''supervisor'' log UNIV (Some (render_override m))) (\<lambda>_. failing b) (recoverable b)"
proof -
  let ?ov = "Some (render_override m)"
  have ok: "stage_ok b st l (bl_override b)" for st l by (simp add: stage_ok_def)
  have stage: "uo_id (at_stage s t r) = uo_id r \<and> uo_status (at_stage s t r) = uo_status r \<and> uo_stage (at_stage s t r) = s"
    for s t r by (simp add: at_stage_def)
  have new: "stage_ok b ''switching'' log ?ov" "stage_ok b ''api'' log ?ov" "stage_ok b ''web'' log ?ov" "stage_ok b ''supervisor'' log ?ov"
    by (rule switched_ok [OF assms(3,4)]; simp add: changed_stage_def)+
  have all: "{} \<union> {c. service_name c = ''api''} \<union> {c. service_name c = ''web''} \<union> {c. service_name c = ''supervisor''} = UNIV"
  proof -
    have "service_name c = ''api'' \<or> service_name c = ''web'' \<or> service_name c = ''supervisor''" for c by (cases c) simp_all
    then show ?thesis by blast
  qed
  have "triple (in_stage b ''pulling'' log {} (bl_override b)) (switch_release k root' m)
    (\<lambda>_. in_stage b ''supervisor'' log ({} \<union> {c. service_name c = ''api''} \<union> {c. service_name c = ''web''} \<union> {c. service_name c = ''supervisor''}) ?ov)
    (\<lambda>_. failing b) (recoverable b)"
    unfolding switch_release_def
    by (rule triple_andthen triple_patch_phase [OF assms(1) ok ok stage] triple_write_override [OF assms(1) ok]
        triple_switch_service [OF assms(1,2) new(1,2)] triple_switch_service [OF assms(1,2) new(2,3)]
        triple_switch_service [OF assms(1,2) new(3,4)] | (simp; fail))+
  then show ?thesis unfolding all .
qed

lemma triple_complete:
  assumes "sound_baseline b" and "k = bl_tools b" and "accepted_release b m" and "set (precautions b root m) \<subseteq> set log"
  shows "triple (in_stage b ''supervisor'' log cs (Some (render_override m))) (complete_update k m)
    (\<lambda>_ w. new_release b w \<and> mc_saveId w = Some (bl_id b) \<and>
       (compose_contract k \<longrightarrow> (\<forall>c \<in> cs. mc_services w c = mc_override w))) (\<lambda>_. failing b) (recoverable b)"
proof -
  let ?P = "in_stage b ''supervisor'' log cs (Some (render_override m))"
  let ?Q = "\<lambda>w. new_release b w \<and> mc_saveId w = Some (bl_id b) \<and>
       (compose_contract k \<longrightarrow> (\<forall>c \<in> cs. mc_services w c = mc_override w))"
  have rec: "recoverable b w" if "?P w" for w
    by (rule phase_recoverable [OF assms(1) switched_ok [OF assms(3,4)] that]) (simp add: changed_stage_def)
  have 1: "triple ?P (look (\<lambda>w. case mc_operation w of None \<Rightarrow> give () | Some r \<Rightarrow> save_state (completed_state k m r)))
      (\<lambda>_. ?Q) (\<lambda>_. failing b) (recoverable b)"
  proof (rule triple_look)
    fix w0
    show "triple (\<lambda>w. ?P w \<and> w = w0) (case mc_operation w0 of None \<Rightarrow> give () | Some r \<Rightarrow> save_state (completed_state k m r))
      (\<lambda>_. ?Q) (\<lambda>_. failing b) (recoverable b)"
    proof (cases "mc_operation w0")
      case None
      then show ?thesis by (auto simp: in_stage_def triple_def)
    next
      case (Some r)
      have "triple (\<lambda>w. ?P w \<and> w = w0) (save_state (completed_state k m r)) (\<lambda>_. ?Q) (\<lambda>_. failing b) (recoverable b)"
      proof (rule triple_save)
        fix w n
        assume "?P w \<and> w = w0"
        with assms Some show "?Q (w\<lparr>pw_left := n, mc_state := Holds (completed_state k m r)\<rparr>)"
          by (auto simp: new_release_def secured_def in_stage_def memory_ready_def intro!: exI [of _ m] exI [of _ r])
      qed (use rec in blast)
      with Some show ?thesis by simp
    qed
  qed
  have 2: "triple ?Q remove_saved (\<lambda>_. ?Q) (\<lambda>_. failing b) (recoverable b)"
    unfolding remove_saved_def
  proof (rule triple_look)
    fix w0
    have "triple ?Q (change (\<lambda>w. w\<lparr>mc_saved := (mc_saved w)(i := None)\<rparr>)) (\<lambda>_. ?Q) (\<lambda>_. failing b) (recoverable b)" for i
      by (rule triple_change) (auto simp: recoverable_def new_release_def secured_def)
    then have "triple (\<lambda>w. ?Q w \<and> w = w0) (change (\<lambda>w. w\<lparr>mc_saved := (mc_saved w)(i := None)\<rparr>)) (\<lambda>_. ?Q) (\<lambda>_. failing b) (recoverable b)" for i
      by (rule triple_weaken) simp
    then show "triple (\<lambda>w. ?Q w \<and> w = w0) (case mc_saveId w0 of None \<Rightarrow> give ()
       | Some i \<Rightarrow> change (\<lambda>w. w\<lparr>mc_saved := (mc_saved w)(i := None)\<rparr>)) (\<lambda>_. ?Q) (\<lambda>_. failing b) (recoverable b)"
      by (cases "mc_saveId w0") (auto intro: triple_give)
  qed
  show ?thesis unfolding complete_update_def by (rule triple_andthen [OF 1 2])
qed

section \<open>Preparing\<close>

definition start :: "baseline \<Rightarrow> machine \<Rightarrow> bool" where
  "start b w = (mc_state w = Holds (bl_state b) \<and> \<not> switching (bl_state b) \<and> mc_override w = bl_override b \<and>
     (\<forall>r. ss_operation (bl_state b) = Some r \<longrightarrow> uo_id r = bl_id b) \<and> (bl_override b = None \<longrightarrow> mc_saved w (bl_id b) = None))"

definition starting :: "baseline \<Rightarrow> machine \<Rightarrow> bool" where
  "starting b w = (start b w \<and> \<not> mc_prepared w \<and> (mc_previous w = None \<or> mc_previous w = Some (bl_state b)) \<and>
     (\<forall>r. mc_operation w = Some r \<longrightarrow> uo_id r = bl_id b))"

definition chosen :: "baseline \<Rightarrow> machine \<Rightarrow> bool" where
  "chosen b w = (mc_previous w = Some (bl_state b) \<and> mc_saveId w = Some (bl_id b) \<and>
     mc_hadOverride w = (bl_override b \<noteq> None) \<and> \<not> mc_prepared w \<and> mc_override w = bl_override b \<and>
     (bl_override b = None \<longrightarrow> mc_saved w (bl_id b) = None) \<and>
     (\<exists>r. mc_operation w = Some r \<and> uo_id r = bl_id b \<and> mc_state w = Holds ((bl_state b)\<lparr>ss_operation := Some r\<rparr>)))"

definition verifying :: "baseline \<Rightarrow> machine \<Rightarrow> bool" where
  "verifying b w = (chosen b w \<and> (\<exists>r. mc_operation w = Some r \<and> uo_status r = UsRunning \<and> uo_stage r = ''verifying''))"

lemma starting_failing: "sound_baseline b \<Longrightarrow> starting b w \<Longrightarrow> failing b w"
  by (auto simp: starting_def start_def failing_def old_release_def same_release_def sound_baseline_def)

lemma verifying_failing: "sound_baseline b \<Longrightarrow> verifying b w \<Longrightarrow> failing b w"
  by (auto simp: verifying_def chosen_def failing_def old_release_def sound_baseline_def switching_def changed_stage_def)

lemma chosen_old:
  assumes "sound_baseline b" and "chosen b w" and "\<not> switching (bl_state b)" and "mc_state w = Holds (bl_state b)"
  shows "old_release b w" and "failing b w"
proof -
  from assms(2) obtain r where r: "mc_operation w = Some r" "uo_id r = bl_id b"
    "mc_state w = Holds ((bl_state b)\<lparr>ss_operation := Some r\<rparr>)" by (auto simp: chosen_def)
  have "ss_operation ((bl_state b)\<lparr>ss_operation := Some r\<rparr>) = Some r" by simp
  with r(3) assms(4) have "ss_operation (bl_state b) = Some r" by simp
  then show "old_release b w"
    using assms r(2) by (simp add: old_release_def same_release_def chosen_def sound_baseline_def)
  then show "failing b w" using assms(2) r by (auto simp: failing_def chosen_def)
qed

lemma triple_read_plan:
  assumes "\<And>w. P w \<Longrightarrow> E w"
  shows "triple P (read_plan k path) (\<lambda>_. P) (\<lambda>_. E) K"
  unfolding read_plan_def
proof (rule triple_look)
  fix w0
  have stop: "triple (\<lambda>w. P w \<and> w = w0) (throw e) (\<lambda>_. P) (\<lambda>_. E) K" for e
    by (rule triple_throw) (simp add: assms)
  have checked: "triple (\<lambda>w. P w \<and> w = w0) (andthen (checked c) (\<lambda>r. give (f r))) (\<lambda>_. P) (\<lambda>_. E) K" for c f
    by (rule triple_andthen [where R = "\<lambda>_. P"]) (auto intro!: triples simp: assms)
  show "triple (\<lambda>w. P w \<and> w = w0)
     (if \<not> starts_with (tl_dir k @ ''/'') path \<or> CHR ''/'' \<in> set (drop (length (tl_dir k) + 1) path)
     then throw ''Platform update plan path is invalid''
     else (case mc_plans w0 path of
         None \<Rightarrow> throw ''ENOENT: no such file or directory''
       | Some f \<Rightarrow>
           if \<not> pl_private f then throw ''Platform update plan must be a mode-0600 regular file''
           else if pl_size f > max_plan_bytes then throw ''Platform update plan is too large''
           else (case pl_plan f of
               None \<Rightarrow> throw ''Unexpected token in JSON''
             | Some x \<Rightarrow>
                 if \<not> plan_ok k path x then throw ''Platform update plan is invalid''
                 else andthen (checked (as_signed_release (up_release x))) (\<lambda>r. give (x\<lparr>up_release := r\<rparr>))))) (\<lambda>_. P) (\<lambda>_. E) K"
    using stop checked by (auto split: option.splits)
qed

lemma triple_install_root:
  assumes "\<And>w. P w \<Longrightarrow> E w"
  shows "triple P (install_root k) (\<lambda>_. P) (\<lambda>_. E) K"
  unfolding install_root_def using assms
  by (cases "tl_root k") (auto intro!: triple_if triple_give triple_throw)

lemma triple_load:
  assumes "\<And>w. P w \<Longrightarrow> mc_state w = Holds s" and "valid_state s" and "\<And>w. P w \<Longrightarrow> Q s w"
  shows "triple P (load_state k) Q E K"
  using assms load_state_holds by (intro tripleI) simp

lemma triple_verify_plan:
  assumes "sound_baseline b" and "k = bl_tools b" and "uo_id r = bl_id b"
  shows "triple (\<lambda>w. chosen b w \<and> \<not> switching (bl_state b) \<and> mc_state w = Holds (bl_state b)) (verify_plan k p r)
    (\<lambda>m w. in_stage b ''verifying'' [] {} (bl_override b) w \<and> accepted_release b m) (\<lambda>_. failing b) (recoverable b)"
  unfolding verify_plan_def
proof (rule triple_andthen)
  let ?f = "\<lambda>r. at_stage ''verifying'' ''Verifying the signed platform release'' (r\<lparr>uo_status := UsRunning\<rparr>)"
  show "triple (\<lambda>w. chosen b w \<and> \<not> switching (bl_state b) \<and> mc_state w = Holds (bl_state b)) (patch_operation k ?f)
      (\<lambda>_. verifying b) (\<lambda>_. failing b) (recoverable b)"
  proof (rule triple_patch)
    fix w
    assume p: "chosen b w \<and> \<not> switching (bl_state b) \<and> mc_state w = Holds (bl_state b)"
    then obtain r where r: "mc_operation w = Some r" by (auto simp: chosen_def)
    have "recoverable b (w\<lparr>mc_operation := Some (?f r)\<rparr>)"
      using chosen_old(1) [OF assms(1), of w] p by (auto simp: recoverable_def old_release_def)
    moreover have "verifying b (w\<lparr>mc_operation := Some (?f r), pw_left := n, mc_state := Holds ((bl_state b)\<lparr>ss_operation := Some (?f r)\<rparr>)\<rparr>)" for n
      using p r by (auto simp: verifying_def chosen_def at_stage_def)
    ultimately show "\<exists>s r. mc_state w = Holds s \<and> valid_state s \<and> mc_operation w = Some r \<and> recoverable b (w\<lparr>mc_operation := Some (?f r)\<rparr>) \<and>
        (\<forall>n. verifying b (w\<lparr>mc_operation := Some (?f r), pw_left := n, mc_state := Holds (s\<lparr>ss_operation := Some (?f r)\<rparr>)\<rparr>))"
      using p r assms(1) by (intro exI [of _ "bl_state b"] exI [of _ r]) (simp add: sound_baseline_def)
  qed
next
  fix x :: unit
  have fail: "verifying b w \<Longrightarrow> failing b w" for w by (rule verifying_failing [OF assms(1)])
  have stop: "triple (verifying b) (throw e) Q (\<lambda>_. failing b) K" for e K and Q :: "'z \<Rightarrow> machine \<Rightarrow> bool"
    by (rule triple_throw) (rule fail)
  have saved: "triple (verifying b) (save_override i) (\<lambda>_ w. verifying b w \<and> mc_saved w (bl_id b) = bl_override b) E (recoverable b)"
    if "i = bl_id b" for i and E
    unfolding save_override_def that
  proof (rule triple_look)
    fix w0
    let ?Q = "\<lambda>(_ :: unit) w. verifying b w \<and> mc_saved w (bl_id b) = bl_override b"
    have "triple (\<lambda>w. verifying b w \<and> w = w0) (change (\<lambda>w. w\<lparr>mc_saved := (mc_saved w)(bl_id b := mc_override w)\<rparr>)) ?Q E (recoverable b)"
      by (rule triple_change) (use fail failing_recoverable in blast, auto simp: verifying_def chosen_def)
    moreover have "triple (\<lambda>w. verifying b w \<and> w = w0) (give ()) ?Q E (recoverable b)" if "\<not> mc_hadOverride w0"
      by (rule triple_give) (use that in \<open>auto simp: verifying_def chosen_def\<close>)
    ultimately show "triple (\<lambda>w. verifying b w \<and> w = w0) (if mc_hadOverride w0
        then change (\<lambda>w. w\<lparr>mc_saved := (mc_saved w)(bl_id b := mc_override w)\<rparr>) else give ()) ?Q E (recoverable b)"
      by simp
  qed
  have mark: "triple (\<lambda>w. verifying b w \<and> mc_saved w (bl_id b) = bl_override b) (note_down (\<lambda>w. w\<lparr>mc_prepared := True\<rparr>))
      (\<lambda>_. in_stage b ''verifying'' [] {} (bl_override b)) E K" for E K
    by (rule triple_note_down) (auto simp: verifying_def chosen_def in_stage_def memory_ready_def steady_def)
  have rest: "triple (verifying b) (if tl_sha256 k (render_override m) \<noteq> rm_composeSha256 m
     then throw ''Generated Compose override does not match the signed release''
     else andthen (save_override (uo_id r)) (\<lambda>_. andthen (note_down (\<lambda>w. w\<lparr>mc_prepared := True\<rparr>)) (\<lambda>_. give m)))
    (\<lambda>m w. in_stage b ''verifying'' [] {} (bl_override b) w \<and> accepted_release b m) (\<lambda>_. failing b) (recoverable b)"
    if "tl_verify k (up_release p) (uo_fromVersion r) = Inr m" for m
  proof (rule triple_if [OF stop])
    assume "\<not> tl_sha256 k (render_override m) \<noteq> rm_composeSha256 m"
    with that assms(2) have "accepted_release b m" by (auto simp: accepted_release_def)
    then show "triple (verifying b) (andthen (save_override (uo_id r)) (\<lambda>_. andthen (note_down (\<lambda>w. w\<lparr>mc_prepared := True\<rparr>)) (\<lambda>_. give m)))
        (\<lambda>m w. in_stage b ''verifying'' [] {} (bl_override b) w \<and> accepted_release b m) (\<lambda>_. failing b) (recoverable b)"
      by (intro triple_andthen [OF saved [OF assms(3)]] triple_andthen [OF mark] triple_give) simp
  qed
  show "triple (verifying b) (andthen (checked (tl_verify k (up_release p) (uo_fromVersion r))) (\<lambda>m.
     if tl_sha256 k (render_override m) \<noteq> rm_composeSha256 m
     then throw ''Generated Compose override does not match the signed release''
     else andthen (save_override (uo_id r)) (\<lambda>_. andthen (note_down (\<lambda>w. w\<lparr>mc_prepared := True\<rparr>)) (\<lambda>_. give m))))
    (\<lambda>m w. in_stage b ''verifying'' [] {} (bl_override b) w \<and> accepted_release b m) (\<lambda>_. failing b) (recoverable b)"
    by (cases "tl_verify k (up_release p) (uo_fromVersion r)")
      (use stop rest in \<open>auto simp: checked_def andthen_def give_def throw_def triple_def\<close>)
qed

lemma triple_prepare:
  assumes "sound_baseline b" and "k = bl_tools b"
  shows "triple (starting b) (prepare_update k path)
    (\<lambda>m w. in_stage b ''verifying'' [] {} (bl_override b) w \<and> accepted_release b m) (\<lambda>_. failing b) (recoverable b)"
  unfolding prepare_update_def
proof (intro triple_andthen [OF triple_read_plan])
  fix p
  let ?Q = "\<lambda>m w. in_stage b ''verifying'' [] {} (bl_override b) w \<and> accepted_release b m"
  let ?s = "bl_state b"
  let ?read = "\<lambda>w. starting b w \<and> mc_operation w = ss_operation ?s \<and> mc_previous w = Some ?s"
  have fail: "starting b w \<Longrightarrow> failing b w" for w by (rule starting_failing [OF assms(1)])
  have stop: "triple ?read (throw e) ?Q (\<lambda>_. failing b) (recoverable b)" for e
    by (rule triple_throw) (use fail in blast)
  have root: "triple (\<lambda>w. chosen b w \<and> \<not> switching ?s \<and> mc_state w = Holds ?s)
      (andthen (install_root k) (\<lambda>root. andthen (note_down (\<lambda>w. w\<lparr>mc_root := Some root\<rparr>)) (\<lambda>_. verify_plan k p r)))
      ?Q (\<lambda>_. failing b) (recoverable b)" if "uo_id r = bl_id b" for r
    by (intro triple_andthen [OF triple_install_root] triple_andthen [OF triple_note_down triple_verify_plan [OF assms that]])
      (use chosen_old(2) [OF assms(1)] in \<open>auto simp: chosen_def steady_def\<close>)
  have next_step: "triple ?read (case ss_operation ?s of None \<Rightarrow> throw ''Platform update operation state is missing''
     | Some r \<Rightarrow> if uo_id r \<noteq> up_operationId p then throw ''Platform update operation state is missing''
         else andthen (note_down (\<lambda>w. w\<lparr>mc_saveId := Some (uo_id r), mc_hadOverride := (mc_override w \<noteq> None)\<rparr>)) (\<lambda>_.
              andthen (install_root k) (\<lambda>root. andthen (note_down (\<lambda>w. w\<lparr>mc_root := Some root\<rparr>)) (\<lambda>_. verify_plan k p r))))
      ?Q (\<lambda>_. failing b) (recoverable b)"
  proof (cases "ss_operation ?s")
    case None
    then show ?thesis using stop by simp
  next
    case (Some r)
    show ?thesis
    proof (cases "uo_id r = bl_id b")
      case True
      have "triple ?read (note_down (\<lambda>w. w\<lparr>mc_saveId := Some (uo_id r), mc_hadOverride := (mc_override w \<noteq> None)\<rparr>))
          (\<lambda>_ w. chosen b w \<and> \<not> switching ?s \<and> mc_state w = Holds ?s) (\<lambda>_. failing b) (recoverable b)"
        using Some True by (intro triple_note_down) (cases ?s, auto simp: starting_def start_def chosen_def steady_def)
      then have go: "triple ?read (andthen (note_down (\<lambda>w. w\<lparr>mc_saveId := Some (uo_id r), mc_hadOverride := (mc_override w \<noteq> None)\<rparr>)) (\<lambda>_.
              andthen (install_root k) (\<lambda>root. andthen (note_down (\<lambda>w. w\<lparr>mc_root := Some root\<rparr>)) (\<lambda>_. verify_plan k p r))))
          ?Q (\<lambda>_. failing b) (recoverable b)"
        by (rule triple_andthen) (rule root [OF True])
      have "triple ?read (if uo_id r \<noteq> up_operationId p then throw ''Platform update operation state is missing''
         else andthen (note_down (\<lambda>w. w\<lparr>mc_saveId := Some (uo_id r), mc_hadOverride := (mc_override w \<noteq> None)\<rparr>)) (\<lambda>_.
              andthen (install_root k) (\<lambda>root. andthen (note_down (\<lambda>w. w\<lparr>mc_root := Some root\<rparr>)) (\<lambda>_. verify_plan k p r))))
          ?Q (\<lambda>_. failing b) (recoverable b)" by (rule triple_if [OF stop go])
      then show ?thesis by (simp only: Some option.case)
    next
      case False
      with Some have "\<not> ?read w" for w by (auto simp: starting_def start_def)
      then show ?thesis unfolding triple_def by blast
    qed
  qed
  have note_it: "triple (starting b) (note_down (\<lambda>w. w\<lparr>mc_operation := ss_operation ?s, mc_previous := Some ?s\<rparr>)) (\<lambda>_. ?read)
      (\<lambda>_. failing b) (recoverable b)"
    by (rule triple_note_down) (auto simp: starting_def start_def steady_def)
  show "triple (starting b) (andthen (load_state k) (\<lambda>s.
     andthen (note_down (\<lambda>w. w\<lparr>mc_operation := ss_operation s, mc_previous := Some s\<rparr>)) (\<lambda>_.
     case ss_operation s of None \<Rightarrow> throw ''Platform update operation state is missing''
     | Some r \<Rightarrow> if uo_id r \<noteq> up_operationId p then throw ''Platform update operation state is missing''
         else andthen (note_down (\<lambda>w. w\<lparr>mc_saveId := Some (uo_id r), mc_hadOverride := (mc_override w \<noteq> None)\<rparr>)) (\<lambda>_.
              andthen (install_root k) (\<lambda>root. andthen (note_down (\<lambda>w. w\<lparr>mc_root := Some root\<rparr>)) (\<lambda>_. verify_plan k p r))))))
    ?Q (\<lambda>_. failing b) (recoverable b)"
  proof (rule triple_andthen [where R = "\<lambda>s w. s = ?s \<and> starting b w"])
    show "triple (starting b) (load_state k) (\<lambda>s w. s = ?s \<and> starting b w) (\<lambda>_. failing b) (recoverable b)"
      by (rule triple_load [where s = ?s]) (use assms(1) in \<open>auto simp: starting_def start_def sound_baseline_def\<close>)
  next
    fix s
    show "triple (\<lambda>w. s = ?s \<and> starting b w)
     (andthen (note_down (\<lambda>w. w\<lparr>mc_operation := ss_operation s, mc_previous := Some s\<rparr>)) (\<lambda>_.
     case ss_operation s of None \<Rightarrow> throw ''Platform update operation state is missing''
     | Some r \<Rightarrow> if uo_id r \<noteq> up_operationId p then throw ''Platform update operation state is missing''
         else andthen (note_down (\<lambda>w. w\<lparr>mc_saveId := Some (uo_id r), mc_hadOverride := (mc_override w \<noteq> None)\<rparr>)) (\<lambda>_.
              andthen (install_root k) (\<lambda>root. andthen (note_down (\<lambda>w. w\<lparr>mc_root := Some root\<rparr>)) (\<lambda>_. verify_plan k p r)))))
      ?Q (\<lambda>_. failing b) (recoverable b)"
      using triple_andthen [OF note_it next_step] by (cases "s = ?s") (simp, simp add: triple_def)
  qed
qed (rule starting_failing [OF assms(1)])

lemma precautions_taken:
  "set (precautions b root m) \<subseteq> set (([''pull'', pi_reference (rm_supervisor m)], True) # ([''pull'', pi_reference (rm_web m)], True) #
     ([''pull'', pi_reference (rm_api m)], True) # [(compose_args (bl_tools b) root (bl_override b \<noteq> None) @ list_args, True),
     (compose_args (bl_tools b) root (bl_override b \<noteq> None) @ dump_args, True)])"
  by (auto simp: precautions_def Let_def)

lemma triple_body:
  assumes "sound_baseline b" and "k = bl_tools b"
  shows "triple (starting b) (update_body k path)
    (\<lambda>_ w. new_release b w \<and> mc_saveId w = Some (bl_id b) \<and> (compose_contract k \<longrightarrow> (\<forall>c. mc_services w c = mc_override w)))
    (\<lambda>_. failing b) (recoverable b)"
  unfolding update_body_def Let_def
proof (rule triple_andthen [OF triple_prepare [OF assms]])
  fix m
  let ?P = "\<lambda>w. in_stage b ''verifying'' [] {} (bl_override b) w \<and> accepted_release b m"
  let ?Q = "\<lambda>(_ :: unit) w. new_release b w \<and> mc_saveId w = Some (bl_id b) \<and> (compose_contract k \<longrightarrow> (\<forall>c. mc_services w c = mc_override w))"
  show "triple ?P (look (\<lambda>w. andthen (back_up k (compose_args k (the (mc_root w)) (mc_hadOverride w))) (\<lambda>_.
     andthen (pull_images k m) (\<lambda>_. andthen (switch_release k (the (mc_root w)) m) (\<lambda>_. complete_update k m)))))
    ?Q (\<lambda>_. failing b) (recoverable b)"
  proof (rule triple_look)
    fix w0 :: machine
    let ?root = "the (mc_root w0)"
    have "triple (in_stage b ''verifying'' [] {} (bl_override b)) (andthen (back_up k (compose_args k ?root (bl_override b \<noteq> None))) (\<lambda>_.
       andthen (pull_images k m) (\<lambda>_. andthen (switch_release k ?root m) (\<lambda>_. complete_update k m))))
      (\<lambda>_ w. new_release b w \<and> mc_saveId w = Some (bl_id b) \<and> (compose_contract k \<longrightarrow> (\<forall>c \<in> UNIV. mc_services w c = mc_override w)))
      (\<lambda>_. failing b) (recoverable b)" if "accepted_release b m"
      unfolding assms(2)
      by (rule triple_andthen [OF triple_backup [OF assms(1) refl]] triple_andthen [OF triple_pull [OF assms(1) refl]]
          triple_andthen [OF triple_switch_release [OF assms(1) refl that precautions_taken]]
          triple_complete [OF assms(1) refl that precautions_taken])+
    then have *: "triple (in_stage b ''verifying'' [] {} (bl_override b)) (andthen (back_up k (compose_args k ?root (bl_override b \<noteq> None))) (\<lambda>_.
       andthen (pull_images k m) (\<lambda>_. andthen (switch_release k ?root m) (\<lambda>_. complete_update k m)))) ?Q
      (\<lambda>_. failing b) (recoverable b)" if "accepted_release b m"
      using that by simp
    show "triple (\<lambda>w. ?P w \<and> w = w0) (andthen (back_up k (compose_args k ?root (mc_hadOverride w0))) (\<lambda>_.
       andthen (pull_images k m) (\<lambda>_. andthen (switch_release k ?root m) (\<lambda>_. complete_update k m)))) ?Q
      (\<lambda>_. failing b) (recoverable b)"
    proof (cases "?P w0")
      case True
      then have h: "mc_hadOverride w0 = (bl_override b \<noteq> None)" and a: "accepted_release b m"
        by (simp_all add: in_stage_def memory_ready_def)
      show ?thesis unfolding h by (rule triple_weaken [OF * [OF a]]) simp
    next
      case False
      then show ?thesis by (auto simp: triple_def)
    qed
  qed
qed

section \<open>Failing, cleaning up and recovering\<close>

lemma old_release_frame:
  "\<lbrakk>old_release b w; mc_state w' = mc_state w; mc_override w' = mc_override w\<rbrakk> \<Longrightarrow> old_release b w'"
  by (simp add: old_release_def)

lemma new_release_frame:
  "\<lbrakk>new_release b w; mc_state w' = mc_state w; mc_override w' = mc_override w; set (mc_log w) \<subseteq> set (mc_log w')\<rbrakk> \<Longrightarrow>
     new_release b w'"
  unfolding new_release_def secured_def by (metis subset_trans)

lemma triple_restore:
  assumes "sound_baseline b"
  shows "triple (failing b) (restore_override (\<lambda>_. False)) (\<lambda>_ w. failing b w \<and> mc_override w = bl_override b) E (recoverable b)"
  unfolding restore_override_def if_False
proof (rule triple_look)
  fix w0 :: machine
  let ?Q = "\<lambda>(_ :: unit) w. failing b w \<and> mc_override w = bl_override b"
  have put: "triple (\<lambda>w. failing b w \<and> w = w0) (change (\<lambda>w. w\<lparr>mc_override := bl_override b\<rparr>)) ?Q E (recoverable b)"
    if "mc_prepared w0"
  proof (rule triple_change)
    fix w n
    assume w: "failing b w \<and> w = w0"
    let ?w = "w\<lparr>pw_left := n, mc_override := bl_override b\<rparr>"
    have "memory_ready b ?w" "old_release b w \<Longrightarrow> old_release b ?w" "mid_switch b w \<Longrightarrow> mid_switch b ?w"
      using w that by (auto simp: failing_def memory_ready_def old_release_def mid_switch_def)
    then show "?Q () (w\<lparr>pw_left := n\<rparr>\<lparr>mc_override := bl_override b\<rparr>) \<and> pw_left (w\<lparr>pw_left := n\<rparr>\<lparr>mc_override := bl_override b\<rparr>) = n"
      using w that by (auto simp: failing_def)
  qed (simp add: failing_recoverable)
  have keep: "triple (\<lambda>w. failing b w \<and> w = w0) (give ()) ?Q E (recoverable b)" if "\<not> mc_prepared w0"
    using that by (intro triple_give) (auto simp: failing_def memory_ready_def old_release_def)
  show "triple (\<lambda>w. failing b w \<and> w = w0) (if \<not> mc_prepared w0 then give ()
     else if mc_hadOverride w0 \<and> mc_saveId w0 \<noteq> None
     then (case mc_saved w0 (the (mc_saveId w0)) of None \<Rightarrow> give () | Some x \<Rightarrow> write_override x)
     else change (\<lambda>w. w\<lparr>mc_override := None\<rparr>)) ?Q E (recoverable b)"
  proof (cases "failing b w0 \<and> mc_prepared w0")
    case True
    then have ready: "memory_ready b w0" by (auto simp: failing_def)
    show ?thesis
    proof (cases "bl_override b")
      case None
      with ready True put show ?thesis by (simp add: memory_ready_def)
    next
      case (Some x)
      with ready True put show ?thesis by (simp add: memory_ready_def write_override_def)
    qed
  next
    case False
    then show ?thesis using keep by (auto simp: triple_def)
  qed
qed

lemma triple_record:
  assumes "sound_baseline b"
  shows "triple (\<lambda>w. failing b w \<and> mc_override w = bl_override b) (record_rollback (\<lambda>_. False) k e) (\<lambda>_. old_release b) E (recoverable b)"
  unfolding record_rollback_def if_False
proof (rule triple_look)
  fix w0 :: machine
  let ?P = "\<lambda>w. failing b w \<and> mc_override w = bl_override b"
  have save: "triple ?P (quietly (save_state ((bl_state b)\<lparr>ss_operation := Some (rolled_back k e r)\<rparr>))) (\<lambda>_. old_release b) E (recoverable b)"
    if "uo_id r = bl_id b" for r
    using assms that by (intro triple_quietly triple_save)
      (auto simp: failing_recoverable old_release_def switching_def rolled_back_def active_status_def sound_baseline_def)
  show "triple (\<lambda>w. ?P w \<and> w = w0) (case (mc_previous w0, mc_operation w0) of
      (Some s, Some r) \<Rightarrow> quietly (save_state (s\<lparr>ss_operation := Some (rolled_back k e r)\<rparr>)) | _ \<Rightarrow> give ())
      (\<lambda>_. old_release b) E (recoverable b)"
  proof (cases "\<exists>r. mc_previous w0 = Some (bl_state b) \<and> mc_operation w0 = Some r")
    case True
    then obtain r where r: "mc_previous w0 = Some (bl_state b)" "mc_operation w0 = Some r" by blast
    have id: "?P w0 \<Longrightarrow> uo_id r = bl_id b" using r by (auto simp: failing_def memory_ready_def)
    have "triple (\<lambda>w. ?P w \<and> w = w0) (quietly (save_state ((bl_state b)\<lparr>ss_operation := Some (rolled_back k e r)\<rparr>)))
        (\<lambda>_. old_release b) E (recoverable b)"
    proof (cases "?P w0")
      case True
      show ?thesis by (rule triple_weaken [OF save [OF id [OF True]]]) simp
    qed (auto simp: triple_def)
    with r show ?thesis by simp
  next
    case False
    then have old: "?P w0 \<Longrightarrow> old_release b w0" and none: "?P w0 \<Longrightarrow> mc_previous w0 = None \<or> mc_operation w0 = None"
      by (auto simp: failing_def memory_ready_def)
    have "triple (\<lambda>w. ?P w \<and> w = w0) (give ()) (\<lambda>_. old_release b) E (recoverable b)"
      by (rule triple_give) (use old in blast)
    then show ?thesis using none
      by (cases "mc_previous w0"; cases "mc_operation w0") (auto simp: triple_def)
  qed
qed

lemma triple_docker_any:
  assumes "\<And>w. P w \<Longrightarrow> K w"
    and "\<And>w n log services. P w \<Longrightarrow> P (w\<lparr>pw_left := n, mc_log := mc_log w @ log, mc_services := services\<rparr>)"
    and "\<And>w. P w \<Longrightarrow> E w"
  shows "triple P (docker k args) (\<lambda>_. P) (\<lambda>_. E) K"
  by (rule triple_docker [OF assms(1)]) (use assms(2,3) in \<open>auto split: option.splits\<close>)

lemma triple_failed:
  assumes "sound_baseline b"
  shows "triple (failing b) (update_failed (\<lambda>_. False) k e) Q (\<lambda>_. old_release b) (recoverable b)"
proof -
  have old: "old_release b w \<Longrightarrow> recoverable b w" for w by (simp add: recoverable_def)
  have restart: "triple (old_release b) (restart_previous k) (\<lambda>_. old_release b) E (recoverable b)" for E
    unfolding restart_previous_def
  proof (rule triple_look)
    fix w0 :: machine
    have run: "triple (old_release b) (docker k args) (\<lambda>_. old_release b) (\<lambda>_. old_release b) (recoverable b)" for args
      by (rule triple_docker_any) (auto simp: old intro: old_release_frame)
    then have "triple (\<lambda>w. old_release b w \<and> w = w0) (quietly (docker_quietly k args)) (\<lambda>_. old_release b) E (recoverable b)" for args
      by (intro triple_quietly triple_docker_quietly triple_weaken [OF run]) simp
    then show "triple (\<lambda>w. old_release b w \<and> w = w0) (case mc_root w0 of None \<Rightarrow> give () | Some root \<Rightarrow>
        quietly (docker_quietly k (compose_args k root (mc_hadOverride w0) @ up_args @ [''api'', ''web'', ''supervisor''])))
        (\<lambda>_. old_release b) E (recoverable b)"
      by (cases "mc_root w0") (auto intro: triple_give)
  qed
  show ?thesis
    unfolding update_failed_def
    by (intro triple_andthen [OF triple_restore [OF assms]] triple_andthen [OF triple_record [OF assms]]
        triple_andthen [OF restart] triple_throw)
qed

lemma triple_clean_up:
  assumes "\<And>w. P w \<Longrightarrow> K w"
    and "\<And>w w'. P w \<Longrightarrow> mc_state w' = mc_state w \<Longrightarrow> mc_override w' = mc_override w \<Longrightarrow> mc_log w' = mc_log w \<Longrightarrow>
      mc_services w' = mc_services w \<Longrightarrow> P w'"
  shows "triple P (clean_up path) (\<lambda>_ w. P w \<and> \<not> mc_lock w \<and> mc_plans w path = None) E K"
proof -
  have plan: "triple P (change (\<lambda>w. w\<lparr>mc_plans := (mc_plans w)(path := None)\<rparr>)) (\<lambda>_ w. P w \<and> mc_plans w path = None) E K"
    by (rule triple_change) (use assms in auto)
  have saved: "triple (\<lambda>w. P w \<and> mc_plans w path = None) remove_saved (\<lambda>_ w. P w \<and> mc_plans w path = None) E K"
    unfolding remove_saved_def
  proof (rule triple_look)
    fix w0 :: machine
    have "triple (\<lambda>w. (P w \<and> mc_plans w path = None) \<and> w = w0) (change (\<lambda>w. w\<lparr>mc_saved := (mc_saved w)(i := None)\<rparr>))
        (\<lambda>_ w. P w \<and> mc_plans w path = None) E K" for i
      by (rule triple_change) (use assms in auto)
    then show "triple (\<lambda>w. (P w \<and> mc_plans w path = None) \<and> w = w0) (case mc_saveId w0 of None \<Rightarrow> give ()
        | Some i \<Rightarrow> change (\<lambda>w. w\<lparr>mc_saved := (mc_saved w)(i := None)\<rparr>)) (\<lambda>_ w. P w \<and> mc_plans w path = None) E K"
      by (cases "mc_saveId w0") (auto intro: triple_give)
  qed
  have lock: "triple (\<lambda>w. P w \<and> mc_plans w path = None) (change (\<lambda>w. w\<lparr>mc_lock := False\<rparr>))
      (\<lambda>_ w. P w \<and> \<not> mc_lock w \<and> mc_plans w path = None) E K"
    by (rule triple_change) (use assms in auto)
  show ?thesis unfolding clean_up_def by (rule triple_andthen [OF plan triple_andthen [OF saved lock]])
qed

section \<open>The whole update\<close>

definition updated :: "baseline \<Rightarrow> string \<Rightarrow> machine \<Rightarrow> bool" where
  "updated b path w = (new_release b w \<and> \<not> mc_lock w \<and> mc_plans w path = None \<and>
     (compose_contract (bl_tools b) \<longrightarrow> (\<forall>c. mc_services w c = mc_override w)))"

lemma triple_apply:
  assumes "sound_baseline b" and "k = bl_tools b"
  shows "triple (\<lambda>w. start b w \<and> mc_lock w = l) (apply_plan k path) (\<lambda>_ w. updated b path w \<and> \<not> l)
    (\<lambda>_ w. old_release b w \<and> mc_lock w = l) (recoverable b)"
proof -
  let ?new = "\<lambda>w. new_release b w \<and> (compose_contract k \<longrightarrow> (\<forall>c. mc_services w c = mc_override w))"
  have fresh: "triple (\<lambda>w. start b w \<and> mc_lock w = l) (note_down fresh_process) (\<lambda>_ w. starting b w \<and> mc_lock w = l) E K" for E K
    by (rule triple_note_down) (auto simp: fresh_process_def starting_def start_def steady_def)
  have old: "old_release b w \<Longrightarrow> recoverable b w" for w by (simp add: recoverable_def)
  have st: "starting b w \<Longrightarrow> old_release b w" for w
    using assms(1) by (auto simp: starting_def start_def old_release_def same_release_def sound_baseline_def)
  have lock: "triple (\<lambda>w. starting b w \<and> mc_lock w = l) take_lock (\<lambda>_ w. starting b w \<and> \<not> l) (\<lambda>_ w. old_release b w \<and> mc_lock w = l) (recoverable b)"
    unfolding take_lock_def
  proof (rule triple_effect)
    fix w :: machine and n
    assume w: "starting b w \<and> mc_lock w = l"
    then have "old_release b (w\<lparr>pw_left := n\<rparr>)" using st by simp
    moreover have "starting b (w\<lparr>pw_left := n, mc_lock := True\<rparr>)" using w by (simp add: starting_def start_def)
    ultimately show "ends (if mc_lock (w\<lparr>pw_left := n\<rparr>) then (w\<lparr>pw_left := n\<rparr>, Raised ''Another platform update is already running'')
        else (w\<lparr>pw_left := n\<rparr>\<lparr>mc_lock := True\<rparr>, Done ())) (n = None) (\<lambda>_ w. starting b w \<and> \<not> l)
        (\<lambda>_ w. old_release b w \<and> mc_lock w = l) (\<lambda>_. False)"
      using w by (auto simp: steady_def)
  qed (use st old in blast)
  have body: "triple (\<lambda>w. starting b w \<and> \<not> l) (catching (update_body k path) (update_failed (\<lambda>_. False) k)) (\<lambda>_ w. ?new w \<and> \<not> l)
      (\<lambda>_ w. old_release b w \<and> \<not> l) (recoverable b)"
  proof (cases l)
    case False
    have "triple (starting b) (catching (update_body k path) (update_failed (\<lambda>_. False) k)) (\<lambda>_. ?new) (\<lambda>_. old_release b) (recoverable b)"
      by (rule triple_catching [OF _ triple_failed [OF assms(1)]], rule triple_conseq [OF triple_body [OF assms]]) auto
    with False show ?thesis by simp
  qed (simp add: triple_def)
  have "triple (\<lambda>w. ?new w \<and> \<not> l) (clean_up path) (\<lambda>_ w. (?new w \<and> \<not> l) \<and> \<not> mc_lock w \<and> mc_plans w path = None) E (recoverable b)" for E
    by (rule triple_clean_up) (auto simp: recoverable_def intro: new_release_frame)
  then have ok: "triple (\<lambda>w. ?new w \<and> \<not> l) (clean_up path) (\<lambda>_ w. updated b path w \<and> \<not> l) E (recoverable b)" for E
    by (rule triple_conseq) (auto simp: updated_def assms(2))
  have "triple (\<lambda>w. old_release b w \<and> \<not> l) (clean_up path) (\<lambda>_ w. (old_release b w \<and> \<not> l) \<and> \<not> mc_lock w \<and> mc_plans w path = None) E (recoverable b)" for E
    by (rule triple_clean_up) (auto simp: old intro: old_release_frame)
  then have bad: "triple (\<lambda>w. old_release b w \<and> \<not> l) (clean_up path) (\<lambda>_ w. old_release b w \<and> mc_lock w = l) E (recoverable b)" for E
    by (rule triple_conseq) auto
  show ?thesis
    unfolding apply_plan_def apply_update_def by (rule triple_andthen [OF fresh triple_andthen [OF lock triple_ensuring [OF body ok bad]]])
qed

section \<open>When the file system refuses a write of the rollback\<close>

text \<open>An assertion that every statement of a program leaves as it is, whether it returns or throws.\<close>

abbreviation keeps :: "(machine \<Rightarrow> bool) \<Rightarrow> 'a script \<Rightarrow> bool" where
  "keeps J m \<equiv> triple J m (\<lambda>_. J) (\<lambda>_. J) (\<lambda>_. True)"

definition spares :: "(machine \<Rightarrow> bool) \<Rightarrow> bool" where
  "spares J = (\<forall>w f n. J w \<longrightarrow> J (w\<lparr>pw_left := n, mc_state := f\<rparr>) \<and> J (w\<lparr>pw_left := n\<rparr>) \<and> (\<forall>r. J (w\<lparr>mc_operation := r\<rparr>)))"

lemma keeps_andthen: "keeps J m \<Longrightarrow> (\<And>x. keeps J (f x)) \<Longrightarrow> keeps J (andthen m f)"
  by (rule triple_andthen)

lemma keeps_look: "(\<And>w. keeps J (f w)) \<Longrightarrow> keeps J (look f)"
proof (rule triple_look)
  fix w0 :: machine
  assume k: "\<And>w. keeps J (f w)"
  show "triple (\<lambda>w. J w \<and> w = w0) (f w0) (\<lambda>_. J) (\<lambda>_. J) (\<lambda>_. True)"
    by (rule triple_weaken [OF k]) simp
qed

lemma keeps_change: "(\<And>w n. J w \<Longrightarrow> J (f (w\<lparr>pw_left := n\<rparr>)) \<and> pw_left (f (w\<lparr>pw_left := n\<rparr>)) = n) \<Longrightarrow> keeps J (change f)"
  by (rule triple_change) simp_all

lemma keeps_note: "(\<And>w. J w \<Longrightarrow> J (f w) \<and> pw_left (f w) = pw_left w) \<Longrightarrow> keeps J (note_down f)"
  by (rule triple_note_down) (simp add: steady_def)

lemma keeps_give: "keeps J (give x)" and keeps_throw: "keeps J (throw e)"
  by (rule triple_give, assumption) (rule triple_throw, assumption)

lemma keeps_checked: "keeps J (checked r)"
  by (intro triple_checked keeps_give keeps_throw)

lemma keeps_if: "keeps J m \<Longrightarrow> keeps J n \<Longrightarrow> keeps J (if b then m else n)"
  by simp

lemma keeps_quietly: "keeps J m \<Longrightarrow> keeps J (quietly m)"
  unfolding quietly_def by (rule triple_catching) (assumption, rule keeps_give)

lemma keeps_save: "spares J \<Longrightarrow> keeps J (save_state s)"
  unfolding save_state_def by (rule keeps_change) (simp add: spares_def)

lemma keeps_load: "spares J \<Longrightarrow> keeps J (load_state k)"
  unfolding load_state_def
  by (intro keeps_look, simp split: stored_file.split) (intro conjI impI allI keeps_andthen keeps_save keeps_give keeps_throw)

lemma keeps_patch: "spares J \<Longrightarrow> keeps J (patch_operation k f)"
  unfolding patch_operation_def
  by (intro keeps_andthen keeps_note keeps_load keeps_look keeps_save) (auto simp: spares_def)

lemmas keeps_rules = keeps_andthen keeps_look keeps_give keeps_throw keeps_checked keeps_if keeps_patch keeps_load keeps_save

text \<open>
  The services are those the update found until it knows the installation; from then on it also knows
  whether there was a descriptor.
\<close>

definition untouched :: "(component \<Rightarrow> string option) \<Rightarrow> string option \<Rightarrow> machine \<Rightarrow> bool" where
  "untouched S ov w = (mc_root w = None \<and> mc_services w = S \<and> mc_override w = ov)"

definition rooted :: "string option \<Rightarrow> machine \<Rightarrow> bool" where
  "rooted ov w = (mc_root w \<noteq> None \<and> mc_hadOverride w = (ov \<noteq> None))"

definition restartable :: "(component \<Rightarrow> string option) \<Rightarrow> string option \<Rightarrow> machine \<Rightarrow> bool" where
  "restartable S ov w = (case mc_root w of None \<Rightarrow> mc_services w = S | Some _ \<Rightarrow> mc_hadOverride w = (ov \<noteq> None))"

lemma restartableI: "untouched S ov w \<Longrightarrow> restartable S ov w" "rooted ov w \<Longrightarrow> restartable S ov w"
  by (auto simp: untouched_def rooted_def restartable_def)

lemma spares_untouched: "spares (untouched S ov)" and spares_rooted: "spares (rooted ov)"
  and spares_restartable: "spares (restartable S ov)"
  by (auto simp: spares_def untouched_def rooted_def restartable_def split: option.splits)

lemma keeps_rooted_docker: "keeps (rooted ov) (docker k args)"
  by (rule triple_docker_any) (simp_all add: rooted_def)

lemma keeps_rooted_poll: "keeps (rooted ov) (poll_service n k name i)"
  by (induction n) (auto intro!: keeps_andthen keeps_rooted_docker keeps_if keeps_give keeps_throw)

lemmas rooted_steps = keeps_rules keeps_rooted_docker keeps_rooted_poll spares_rooted

lemma keeps_rooted_remove_saved: "keeps (rooted ov) remove_saved"
  unfolding remove_saved_def
  by (intro keeps_look, simp split: option.split) (intro conjI impI allI keeps_give keeps_change, auto simp: rooted_def)

lemma keeps_rooted_complete: "keeps (rooted ov) (complete_update k m)"
  unfolding complete_update_def
  by (intro keeps_andthen keeps_rooted_remove_saved keeps_look, simp split: option.split)
    (intro conjI impI allI keeps_give keeps_save spares_rooted)

lemma keeps_rooted_verify: "keeps (rooted ov) (verify_plan k p r)"
  unfolding verify_plan_def save_override_def
  by (intro rooted_steps keeps_change keeps_note) (auto simp: rooted_def)

lemma keeps_rooted_rest:
  "keeps (rooted ov) (back_up k compose)" "keeps (rooted ov) (pull_images k m)" "keeps (rooted ov) (switch_release k root m)"
  unfolding back_up_def pull_images_def switch_release_def switch_service_def wait_for_service_def docker_quietly_def write_override_def
  by (intro rooted_steps keeps_change; auto simp: rooted_def)+

lemma keeps_untouched_read: "keeps (untouched S ov) (read_plan k path)"
  unfolding read_plan_def Let_def
  by (intro keeps_look keeps_if keeps_throw, simp split: option.split)
    (intro conjI impI allI keeps_rules)

lemma triple_keeps: "keeps J m \<Longrightarrow> (\<And>w. J w \<Longrightarrow> E w) \<Longrightarrow> triple J m (\<lambda>_. J) (\<lambda>_. E) (\<lambda>_. True)"
  by (erule triple_conseq) simp_all

lemma triple_keeps_andthen:
  "keeps J m \<Longrightarrow> (\<And>w. J w \<Longrightarrow> E w) \<Longrightarrow> (\<And>x. triple J (f x) Q (\<lambda>_. E) (\<lambda>_. True)) \<Longrightarrow> triple J (andthen m f) Q (\<lambda>_. E) (\<lambda>_. True)"
  by (rule triple_andthen [OF triple_keeps])

lemma triple_rooting:
  "triple (\<lambda>w. untouched S ov w \<and> mc_hadOverride w = (ov \<noteq> None))
    (andthen (install_root k) (\<lambda>root. andthen (note_down (\<lambda>w. w\<lparr>mc_root := Some root\<rparr>)) (\<lambda>_. verify_plan k p r)))
    (\<lambda>_. rooted ov) (\<lambda>_. restartable S ov) (\<lambda>_. True)" (is "triple ?P _ _ _ _")
proof (rule triple_andthen)
  have "keeps ?P (install_root k)"
    unfolding install_root_def by (cases "tl_root k") (auto intro: keeps_if keeps_throw keeps_give)
  then show "triple ?P (install_root k) (\<lambda>_. ?P) (\<lambda>_. restartable S ov) (\<lambda>_. True)"
    by (rule triple_keeps) (simp add: restartableI)
  show "triple ?P (andthen (note_down (\<lambda>w. w\<lparr>mc_root := Some root\<rparr>)) (\<lambda>_. verify_plan k p r))
      (\<lambda>_. rooted ov) (\<lambda>_. restartable S ov) (\<lambda>_. True)" for root
  proof (rule triple_andthen)
    show "triple ?P (note_down (\<lambda>w. w\<lparr>mc_root := Some root\<rparr>)) (\<lambda>_. rooted ov) (\<lambda>_. restartable S ov) (\<lambda>_. True)"
      by (rule triple_note_down) (simp add: rooted_def steady_def)
    show "triple (rooted ov) (verify_plan k p r) (\<lambda>_. rooted ov) (\<lambda>_. restartable S ov) (\<lambda>_. True)"
      by (rule triple_keeps [OF keeps_rooted_verify]) (rule restartableI)
  qed
qed

lemma triple_prepare_rooted:
  "triple (untouched S ov) (prepare_update k path) (\<lambda>_. rooted ov) (\<lambda>_. restartable S ov) (\<lambda>_. True)"
proof -
  have early: "triple (untouched S ov) (throw e) Q (\<lambda>_. restartable S ov) (\<lambda>_. True)" for e Q
    by (rule triple_throw) (rule restartableI)
  have had: "triple (untouched S ov) (note_down (\<lambda>w. w\<lparr>mc_saveId := i, mc_hadOverride := (mc_override w \<noteq> None)\<rparr>))
      (\<lambda>_ w. untouched S ov w \<and> mc_hadOverride w = (ov \<noteq> None)) E K" for i E K
    by (rule triple_note_down) (simp add: untouched_def steady_def)
  have noted: "keeps (untouched S ov) (note_down (\<lambda>w. w\<lparr>mc_operation := r, mc_previous := v\<rparr>))" for r v
    by (rule keeps_note) (simp add: untouched_def)
  have tail: "triple (untouched S ov) (case ss_operation s of
       None \<Rightarrow> throw e | Some r \<Rightarrow> if uo_id r \<noteq> i then throw e
         else andthen (note_down (\<lambda>w. w\<lparr>mc_saveId := Some (uo_id r), mc_hadOverride := (mc_override w \<noteq> None)\<rparr>)) (\<lambda>_.
              andthen (install_root k) (\<lambda>root. andthen (note_down (\<lambda>w. w\<lparr>mc_root := Some root\<rparr>)) (\<lambda>_. verify_plan k p r))))
      (\<lambda>_. rooted ov) (\<lambda>_. restartable S ov) (\<lambda>_. True)" for s e i p
    by (cases "ss_operation s") (simp only: option.case early, simp only: option.case, intro triple_if early triple_andthen [OF had triple_rooting])
  show ?thesis
    unfolding prepare_update_def
    by (intro triple_keeps_andthen [OF keeps_untouched_read] triple_keeps_andthen [OF keeps_load [OF spares_untouched]]
        triple_keeps_andthen [OF noted] tail) (simp_all add: restartableI)
qed

lemma triple_body_restartable:
  "triple (untouched S ov) (update_body k path) (\<lambda>_ _. True) (\<lambda>_. restartable S ov) (\<lambda>_. True)"
  unfolding update_body_def Let_def
proof (rule triple_andthen [OF triple_prepare_rooted])
  fix m
  have "keeps (rooted ov) (look (\<lambda>w. andthen (back_up k (compose_args k (the (mc_root w)) (mc_hadOverride w))) (\<lambda>_.
      andthen (pull_images k m) (\<lambda>_. andthen (switch_release k (the (mc_root w)) m) (\<lambda>_. complete_update k m)))))"
    by (intro keeps_look keeps_andthen keeps_rooted_rest keeps_rooted_complete)
  then show "triple (rooted ov) (look (\<lambda>w. andthen (back_up k (compose_args k (the (mc_root w)) (mc_hadOverride w))) (\<lambda>_.
      andthen (pull_images k m) (\<lambda>_. andthen (switch_release k (the (mc_root w)) m) (\<lambda>_. complete_update k m)))))
    (\<lambda>_ _. True) (\<lambda>_. restartable S ov) (\<lambda>_. True)"
    by (rule triple_conseq) (simp_all add: restartableI)
qed

text \<open>
  Unless a copy or a removal of the descriptor was refused, the one the update found is back, and the
  services were never touched or the last command restarts the previous ones.
\<close>

definition restart_args :: "tools \<Rightarrow> string \<Rightarrow> string option \<Rightarrow> string list" where
  "restart_args k root ov = compose_args k root (ov \<noteq> None) @ up_args @ [''api'', ''web'', ''supervisor'']"

definition put_back :: "(rollback_write \<Rightarrow> bool) \<Rightarrow> tools \<Rightarrow> (component \<Rightarrow> string option) \<Rightarrow> string option \<Rightarrow> machine \<Rightarrow> bool" where
  "put_back x k S ov w = (\<not> x CopyDescriptor \<and> \<not> x RemoveDescriptor \<longrightarrow> mc_override w = ov \<and>
     (mc_services w = S \<or> (\<exists>root ok. mc_log w \<noteq> [] \<and> last (mc_log w) = (restart_args k root ov, ok) \<and>
        (ok \<and> compose_contract k \<longrightarrow> (\<forall>c. mc_services w c = ov)))))"

definition ready_to_restart :: "(rollback_write \<Rightarrow> bool) \<Rightarrow> (component \<Rightarrow> string option) \<Rightarrow> string option \<Rightarrow> machine \<Rightarrow> bool" where
  "ready_to_restart x S ov w = (\<not> x CopyDescriptor \<and> \<not> x RemoveDescriptor \<longrightarrow> mc_override w = ov \<and> restartable S ov w)"

lemma spares_ready: "spares (ready_to_restart x S ov)"
  using spares_restartable [of S ov] by (simp add: spares_def ready_to_restart_def)


lemma triple_both:
  assumes "triple P m Q E K" and "triple P' m Q' E' K'"
  shows "triple (\<lambda>w. P w \<and> P' w) m (\<lambda>x w. Q x w \<and> Q' x w) (\<lambda>e w. E e w \<and> E' e w) (\<lambda>_. True)"
proof (rule tripleI)
  fix w
  assume "P w \<and> P' w"
  then have "ends (m w) (steady w) Q E K" "ends (m w) (steady w) Q' E' K'"
    by (blast intro: tripleD [OF assms(1)] tripleD [OF assms(2)])+
  then show "ends (m w) (steady w) (\<lambda>x w. Q x w \<and> Q' x w) (\<lambda>e w. E e w \<and> E' e w) (\<lambda>_. True)"
    unfolding ends_def by (auto split: prod.splits ending.splits)
qed

lemma no_override: "override_path k \<notin> set (compose_args k root False @ up_args @ [''api'', ''web'', ''supervisor''])"
  by (auto simp: compose_args_def override_path_def up_args_def dest!: arg_cong [where f = rev])

lemma restarted_service:
  assumes args: "args = compose_args k root h @ up_args @ [''api'', ''web'', ''supervisor'']"
    and "compose_contract k" and "dr_error (tl_docker k n args) = None" and "mc_override w = ov" and "h = (ov \<noteq> None)"
  shows "started_services k args (tl_docker k n args) w c = ov"
proof -
  have "service_name c \<in> set [''api'', ''web'', ''supervisor'']" by (cases c) simp_all
  with assms(2,3) have "c \<in> set (dr_started (tl_docker k n args))"
    unfolding compose_contract_def args by blast
  moreover have "override_path k \<in> set args \<longleftrightarrow> h"
    using no_override [of k root] compose_override [of k root] unfolding args by (cases h) auto
  ultimately show ?thesis using assms(4,5) by (auto simp: started_services_def)
qed

lemma triple_restore_ready:
  assumes "sound_baseline b"
  shows "triple (\<lambda>w. failing b w \<and> restartable S (bl_override b) w) (restore_override x)
    (\<lambda>_. ready_to_restart x S (bl_override b)) (\<lambda>_ _. x RemoveDescriptor) (\<lambda>_. True)"
proof (cases "x CopyDescriptor \<or> x RemoveDescriptor")
  case True
  have "triple (\<lambda>_. True) (restore_override x) (\<lambda>_ _. True) (\<lambda>_ _. x RemoveDescriptor) (\<lambda>_. True)"
    unfolding restore_override_def write_override_def
  proof (rule triple_look)
    fix w0 :: machine
    show "triple (\<lambda>w. True \<and> w = w0) (if \<not> mc_prepared w0 then give () else if mc_hadOverride w0 \<and> mc_saveId w0 \<noteq> None
     then (case mc_saved w0 (the (mc_saveId w0)) of None \<Rightarrow> give ()
       | Some y \<Rightarrow> if x CopyDescriptor then give () else change (\<lambda>w. w\<lparr>mc_override := Some y\<rparr>))
     else if x RemoveDescriptor then throw ''EPERM: operation not permitted, unlink'' else change (\<lambda>w. w\<lparr>mc_override := None\<rparr>))
     (\<lambda>_ _. True) (\<lambda>_ _. x RemoveDescriptor) (\<lambda>_. True)"
      by (cases "mc_saved w0 (the (mc_saveId w0))") (auto intro!: triple_if triple_give triple_throw triple_change)
  qed
  then show ?thesis by (rule triple_conseq) (use True in \<open>auto simp: ready_to_restart_def\<close>)
next
  case False
  then have same: "restore_override x = restore_override (\<lambda>_. False)"
    by (auto simp: restore_override_def cong: if_cong option.case_cong)
  have "keeps (restartable S (bl_override b)) (restore_override (\<lambda>_. False))"
    unfolding restore_override_def write_override_def if_False
  proof (rule keeps_look)
    fix w0 :: machine
    show "keeps (restartable S (bl_override b)) (if \<not> mc_prepared w0 then give () else if mc_hadOverride w0 \<and> mc_saveId w0 \<noteq> None
     then (case mc_saved w0 (the (mc_saveId w0)) of None \<Rightarrow> give () | Some y \<Rightarrow> change (\<lambda>w. w\<lparr>mc_override := Some y\<rparr>))
     else change (\<lambda>w. w\<lparr>mc_override := None\<rparr>))"
      by (cases "mc_saved w0 (the (mc_saveId w0))") (auto intro!: keeps_if keeps_give keeps_change simp: restartable_def split: option.splits)
  qed
  from triple_both [OF triple_restore [OF assms, where E = "\<lambda>_ _. False"] this]
  show ?thesis unfolding same by (rule triple_conseq) (auto simp: ready_to_restart_def)
qed

lemma triple_restart_put_back:
  "triple (ready_to_restart x S ov) (restart_previous k) (\<lambda>_. put_back x k S ov) (\<lambda>_. put_back x k S ov) (\<lambda>_. True)"
  unfolding restart_previous_def
proof (rule triple_look)
  fix w0 :: machine
  let ?P = "\<lambda>w. ready_to_restart x S ov w \<and> w = w0"
  show "triple ?P (case mc_root w0 of None \<Rightarrow> give () | Some root \<Rightarrow> quietly (docker_quietly k
        (compose_args k root (mc_hadOverride w0) @ up_args @ [''api'', ''web'', ''supervisor''])))
      (\<lambda>_. put_back x k S ov) (\<lambda>_. put_back x k S ov) (\<lambda>_. True)"
  proof (cases "mc_root w0")
    case None
    then show ?thesis
      by (simp, intro triple_give) (auto simp: ready_to_restart_def restartable_def put_back_def)
  next
    case (Some root)
    let ?a = "compose_args k root (mc_hadOverride w0) @ up_args @ [''api'', ''web'', ''supervisor'']"
    have "triple ?P (docker k ?a) (\<lambda>_. put_back x k S ov) (\<lambda>_. put_back x k S ov) (\<lambda>_. True)"
    proof (rule triple_docker)
      fix w n r
      assume p: "?P w" and r: "r = tl_docker k (length (mc_log w)) ?a"
      have "put_back x k S ov (w\<lparr>pw_left := n, mc_log := mc_log w @ [(?a, dr_error r = None)], mc_services := started_services k ?a r w\<rparr>)"
      proof (cases "x CopyDescriptor \<or> x RemoveDescriptor")
        case False
        with p Some have w: "mc_override w = ov" "mc_hadOverride w0 = (ov \<noteq> None)" "w = w0"
          by (auto simp: ready_to_restart_def restartable_def)
        have "started_services k ?a r w c = ov" if "compose_contract k" "dr_error r = None" for c
          unfolding r using that w by (intro restarted_service [OF refl]) (simp_all add: r)
        then show ?thesis using w by (auto simp: put_back_def restart_args_def)
      qed (auto simp: put_back_def)
      then show "(case dr_error r of None \<Rightarrow> put_back x k S ov | Some e \<Rightarrow> put_back x k S ov)
          (w\<lparr>pw_left := n, mc_log := mc_log w @ [(?a, dr_error r = None)], mc_services := started_services k ?a r w\<rparr>)"
        by (cases "dr_error r") simp_all
    qed simp
    then show ?thesis unfolding Some option.case by (intro triple_quietly triple_docker_quietly)
  qed
qed

lemma triple_failed_put_back:
  assumes "sound_baseline b"
  shows "triple (\<lambda>w. failing b w \<and> restartable S (bl_override b) w) (update_failed x k e) Q
    (\<lambda>_. put_back x k S (bl_override b)) (\<lambda>_. True)"
  unfolding update_failed_def
proof (rule triple_andthen)
  let ?E = "\<lambda>_. put_back x k S (bl_override b)"
  show "triple (\<lambda>w. failing b w \<and> restartable S (bl_override b) w) (restore_override x)
      (\<lambda>_. ready_to_restart x S (bl_override b)) ?E (\<lambda>_. True)"
    by (rule triple_conseq [OF triple_restore_ready [OF assms]]) (auto simp: put_back_def)
  have "triple (ready_to_restart x S (bl_override b)) (record_rollback x k e) (\<lambda>_. ready_to_restart x S (bl_override b)) ?E (\<lambda>_. True)"
    unfolding record_rollback_def
  proof (rule triple_look)
    fix w0 :: machine
    let ?J = "ready_to_restart x S (bl_override b)"
    have "triple ?J (quietly (if x SaveRollback then throw e' else save_state s)) (\<lambda>_. ?J) ?E (\<lambda>_. True)" for e' s
      unfolding quietly_def
      by (rule triple_catching [where R = "\<lambda>_. ?J"]) (intro keeps_if keeps_throw keeps_save spares_ready, rule triple_give)
    then have "triple (\<lambda>w. ?J w \<and> w = w0) (quietly (if x SaveRollback then throw e' else save_state s)) (\<lambda>_. ?J) ?E (\<lambda>_. True)" for e' s
      by (rule triple_weaken) simp
    then show "triple (\<lambda>w. ?J w \<and> w = w0) (case (mc_previous w0, mc_operation w0) of
        (Some s, Some r) \<Rightarrow> quietly (if x SaveRollback then throw ''EIO: i/o error, write'' else save_state (s\<lparr>ss_operation := Some (rolled_back k e r)\<rparr>))
      | _ \<Rightarrow> give ()) (\<lambda>_. ?J) ?E (\<lambda>_. True)"
      by (auto intro: triple_give split: option.split)
  qed
  then show "triple (ready_to_restart x S (bl_override b)) (andthen (record_rollback x k e) (\<lambda>_. andthen (restart_previous k) (\<lambda>_. throw e)))
      Q ?E (\<lambda>_. True)"
    by (rule triple_andthen) (rule triple_andthen [OF triple_restart_put_back], rule triple_throw)
qed

lemma triple_apply_put_back:
  assumes "sound_baseline b" and "k = bl_tools b"
  shows "triple (\<lambda>w. start b w \<and> mc_services w = S \<and> mc_lock w = l) (apply_update x k path) (\<lambda>_ _. True)
    (\<lambda>_ w. put_back x k S (bl_override b) w \<and> mc_lock w = l) (\<lambda>_. True)"
  unfolding apply_update_def
proof (rule triple_andthen)
  let ?ov = "bl_override b"
  let ?P = "\<lambda>w. starting b w \<and> untouched S ?ov w"
  let ?E = "\<lambda>_ w. put_back x k S ?ov w \<and> mc_lock w = l"
  show "triple (\<lambda>w. start b w \<and> mc_services w = S \<and> mc_lock w = l) (note_down fresh_process) (\<lambda>_ w. ?P w \<and> mc_lock w = l) ?E (\<lambda>_. True)"
    by (rule triple_note_down) (auto simp: fresh_process_def starting_def start_def untouched_def steady_def)
  have "triple (\<lambda>w. ?P w \<and> mc_lock w = l) take_lock (\<lambda>_ w. ?P w \<and> \<not> l) ?E (\<lambda>_. True)"
    unfolding take_lock_def
    by (rule triple_effect) (auto simp: steady_def put_back_def untouched_def starting_def start_def)
  moreover have "triple (\<lambda>w. ?P w \<and> \<not> l) (ensuring (catching (update_body k path) (update_failed x k)) (clean_up path)) (\<lambda>_ _. True) ?E (\<lambda>_. True)"
  proof (cases l)
    case False
    have "triple ?P (update_body k path) (\<lambda>_ _. True) (\<lambda>_ w. failing b w \<and> restartable S ?ov w) (\<lambda>_. True)"
      by (rule triple_conseq [OF triple_both [OF triple_body [OF assms] triple_body_restartable]]) auto
    then have body: "triple ?P (catching (update_body k path) (update_failed x k)) (\<lambda>_ _. True) (\<lambda>_. put_back x k S ?ov) (\<lambda>_. True)"
      by (rule triple_catching) (rule triple_failed_put_back [OF assms(1)])
    have "triple ?P (ensuring (catching (update_body k path) (update_failed x k)) (clean_up path)) (\<lambda>_ _. True) ?E (\<lambda>_. True)"
    proof (rule triple_ensuring [OF body])
      show "triple (\<lambda>_. True) (clean_up path) (\<lambda>_ _. True) ?E (\<lambda>_. True)"
        by (rule triple_conseq [OF triple_clean_up [where P = "\<lambda>_. True" and K = "\<lambda>_. True" and E = "\<lambda>_ _. False"]]) simp_all
      show "triple (put_back x k S ?ov) (clean_up path) (\<lambda>_. ?E e) ?E (\<lambda>_. True)" for e
        by (rule triple_conseq [OF triple_clean_up [where P = "put_back x k S ?ov" and K = "\<lambda>_. True" and E = "\<lambda>_ _. False"]])
          (use False in \<open>auto simp: put_back_def\<close>)
    qed
    with False show ?thesis by simp
  qed (simp add: triple_def)
  ultimately show "triple (\<lambda>w. ?P w \<and> mc_lock w = l) (andthen take_lock (\<lambda>_. ensuring (catching (update_body k path) (update_failed x k)) (clean_up path)))
      (\<lambda>_ _. True) ?E (\<lambda>_. True)"
    by (rule triple_andthen)
qed

text \<open>An update that succeeds never rolls anything back.\<close>

lemma update_failed_throws: "snd (update_failed x k e w) \<noteq> Done u"
  by (auto simp: update_failed_def andthen_def throw_def split: prod.splits ending.splits)

lemma catching_succeeds:
  assumes "catching m (update_failed x k) w = (w', Done u)"
  shows "m w = (w', Done u)"
proof -
  obtain w1 r where m: "m w = (w1, r)" by fastforce
  show ?thesis
  proof (cases r)
    case (Raised e)
    with assms m have "snd (update_failed x k e w1) = Done u" by (simp add: catching_def)
    with update_failed_throws show ?thesis by blast
  qed (use assms m in \<open>simp_all add: catching_def\<close>)
qed

lemma andthen_succeeds:
  assumes "andthen m f w = (w', Done u)"
  obtains w1 v where "m w = (w1, Done v)" and "f v w1 = (w', Done u)"
proof -
  obtain w1 r where m: "m w = (w1, r)" by fastforce
  with assms that show thesis by (cases r) (simp_all add: andthen_def)
qed

lemma ensuring_succeeds:
  assumes "ensuring (catching m (update_failed x k)) c w = (w', Done u)"
  shows "ensuring (catching m (update_failed y k)) c w = (w', Done u)"
proof -
  obtain w1 r where m: "catching m (update_failed x k) w = (w1, r)" by fastforce
  show ?thesis
  proof (cases r)
    case (Done v)
    with m have "m w = (w1, Done v)" using catching_succeeds [of m x k w w1 v] by simp
    with assms m Done show ?thesis by (simp add: ensuring_def catching_def)
  next
    case (Raised e)
    with assms m have "andthen c (\<lambda>_. throw e) w1 = (w', Done u)" by (simp add: ensuring_def)
    then show ?thesis by (rule andthen_succeeds) (simp add: throw_def)
  qed (use assms m in \<open>simp add: ensuring_def\<close>)
qed

lemma apply_succeeds:
  assumes "apply_update x k path w = (w', Done u)"
  shows "apply_plan k path w = (w', Done u)"
proof -
  from assms have "andthen take_lock (\<lambda>_. ensuring (catching (update_body k path) (update_failed x k)) (clean_up path)) (fresh_process w) = (w', Done u)"
    unfolding apply_update_def andthen_def [of "note_down fresh_process"] by (simp add: note_down_def)
  then obtain w1 v where l: "take_lock (fresh_process w) = (w1, Done v)"
    and e: "ensuring (catching (update_body k path) (update_failed x k)) (clean_up path) w1 = (w', Done u)"
    by (rule andthen_succeeds)
  from ensuring_succeeds [OF e] l show ?thesis
    by (simp add: apply_plan_def apply_update_def andthen_def note_down_def)
qed

section \<open>Recovery\<close>

definition no_helper :: "tools \<Rightarrow> string \<Rightarrow> bool" where
  "no_helper k i = (\<forall>n. dr_error (tl_docker k n (labelled ''update'' i)) = None \<and> dr_stdout (tl_docker k n (labelled ''update'' i)) = [])"

lemma triple_recover_body:
  assumes "sound_baseline b" and "same_release s (bl_state b)" and "uo_id r = bl_id b"
  shows "triple (\<lambda>w. if changed_stage (uo_stage r) then mc_saved w (bl_id b) = bl_override b else mc_override w = bl_override b)
    (recover_body k s r) (\<lambda>_. old_release b) (\<lambda>_ w. mc_override w = bl_override b) (\<lambda>_. True)"
proof -
  let ?O = "\<lambda>w. mc_override w = bl_override b"
  have docker: "triple ?O (docker_quietly k' args) (\<lambda>_. ?O) (\<lambda>_. ?O) (\<lambda>_. True)" for k' args
    by (intro triple_docker_quietly triple_docker_any) auto
  have docker_old: "triple (old_release b) (docker_quietly k' args) (\<lambda>_. old_release b) (\<lambda>_. ?O) (\<lambda>_. True)" for k' args
    by (intro triple_docker_quietly triple_docker_any) (auto simp: old_release_def)
  have change_old: "triple (old_release b) (change f) (\<lambda>_. old_release b) E (\<lambda>_. True)"
    if "\<And>w. mc_state (f w) = mc_state w \<and> mc_override (f w) = mc_override w \<and> pw_left (f w) = pw_left w" for f E
    by (rule triple_change) (use that in \<open>auto intro: old_release_frame\<close>)
  have root: "triple P (install_root k) (\<lambda>_. P) (\<lambda>_. ?O) (\<lambda>_. True)" if "\<And>w. P w \<Longrightarrow> ?O w" for P
    by (rule triple_install_root) (rule that)
  have restore: "triple (\<lambda>w. mc_saved w (bl_id b) = bl_override b) (restore_descriptor k s (bl_id b)) (\<lambda>_. ?O) (\<lambda>_. ?O) (\<lambda>_. True)"
    unfolding restore_descriptor_def Let_def
  proof (rule triple_look)
    fix w0 :: machine
    let ?had = "mc_saved w0 (bl_id b) \<noteq> None"
    let ?first = "if ?had then change (\<lambda>w. w\<lparr>mc_override := mc_saved w (bl_id b), mc_saved := (mc_saved w)(bl_id b := None)\<rparr>)
        else if ss_images s \<noteq> None then throw ''Previous signed platform release descriptor is missing''
        else change (\<lambda>w. w\<lparr>mc_override := None\<rparr>)"
    have first: "triple (\<lambda>w. mc_saved w (bl_id b) = bl_override b \<and> w = w0) ?first (\<lambda>_. ?O) (\<lambda>_. ?O) (\<lambda>_. True)"
    proof (cases "mc_saved w0 (bl_id b) = bl_override b")
      case True
      have had: "triple (\<lambda>w. mc_saved w (bl_id b) = bl_override b \<and> w = w0)
          (change (\<lambda>w. w\<lparr>mc_override := mc_saved w (bl_id b), mc_saved := (mc_saved w)(bl_id b := None)\<rparr>)) (\<lambda>_. ?O) (\<lambda>_. ?O) (\<lambda>_. True)"
        by (rule triple_change) auto
      have not_had: "triple (\<lambda>w. mc_saved w (bl_id b) = bl_override b \<and> w = w0) (change (\<lambda>w. w\<lparr>mc_override := None\<rparr>)) (\<lambda>_. ?O) (\<lambda>_. ?O) (\<lambda>_. True)"
        if "bl_override b = None"
        by (rule triple_change) (use that in auto)
      have "bl_override b = None \<Longrightarrow> ss_images s = None" using assms(1,2) by (simp add: sound_baseline_def same_release_def)
      with True had not_had show ?thesis by (cases "bl_override b") simp_all
    qed (auto simp: triple_def)
    show "triple (\<lambda>w. mc_saved w (bl_id b) = bl_override b \<and> w = w0)
       (andthen ?first (\<lambda>_. andthen (install_root k) (\<lambda>root.
          docker_quietly k (compose_args k root ?had @ up_args @ [''api'', ''web''])))) (\<lambda>_. ?O) (\<lambda>_. ?O) (\<lambda>_. True)"
      by (rule triple_andthen [OF first triple_andthen [OF root docker]])
  qed
  have one: "triple (\<lambda>w. if changed_stage (uo_stage r) then mc_saved w (bl_id b) = bl_override b else ?O w)
      (if changed_stage (uo_stage r) then restore_descriptor k s (uo_id r) else give ()) (\<lambda>_. ?O) (\<lambda>_. ?O) (\<lambda>_. True)"
    using restore by (auto simp: assms(3) intro: triple_give)
  have two: "triple ?O (save_state (s\<lparr>ss_operation := Some (recovered_operation k r)\<rparr>)) (\<lambda>_. old_release b) (\<lambda>_. ?O) (\<lambda>_. True)"
    by (rule triple_save) (use assms(2,3) in \<open>auto simp: old_release_def same_release_def valid_state_def switching_def
      recovered_operation_def active_status_def\<close>)
  have three: "triple (old_release b) (if uo_stage r = ''supervisor'' then restore_supervisor k (uo_id r) else give ()) (\<lambda>_. old_release b) (\<lambda>_. ?O) (\<lambda>_. True)"
  proof (intro triple_if triple_give)
    show "triple (old_release b) (restore_supervisor k (uo_id r)) (\<lambda>_. old_release b) (\<lambda>_. ?O) (\<lambda>_. True)"
      unfolding restore_supervisor_def
    proof (rule triple_look)
      fix w0 :: machine
      have "triple (old_release b) (andthen (install_root k) (\<lambda>root.
         docker_quietly k (compose_args k root (mc_saved w0 (uo_id r) \<noteq> None) @ up_args @ [''supervisor'']))) (\<lambda>_. old_release b) (\<lambda>_. ?O) (\<lambda>_. True)"
        by (rule triple_andthen [OF root docker_old]) (auto simp: old_release_def)
      then show "triple (\<lambda>w. old_release b w \<and> w = w0) (andthen (install_root k) (\<lambda>root.
         docker_quietly k (compose_args k root (mc_saved w0 (uo_id r) \<noteq> None) @ up_args @ [''supervisor'']))) (\<lambda>_. old_release b) (\<lambda>_. ?O) (\<lambda>_. True)"
        by (rule triple_weaken) simp
    qed
  qed
  have path: "triple (old_release b) (checked (plan_path k (uo_id r))) (\<lambda>_. old_release b) (\<lambda>_. ?O) (\<lambda>_. True)"
    by (rule triple_checked) (auto intro: triple_give triple_throw simp: old_release_def)
  show ?thesis
    unfolding recover_body_def
    by (rule triple_andthen [OF one] triple_andthen [OF two] triple_andthen [OF three] triple_andthen [OF path] triple_andthen [OF change_old] change_old | (simp; fail))+
qed

lemma triple_recover:
  assumes "sound_baseline b" and "no_helper k (bl_id b)"
    and "\<not> truthy expected \<or> expected = Some (bl_id b) \<and> uuid_v4 (bl_id b)"
  shows "triple (recoverable b)
    (recover_interrupted_update k expected) (\<lambda>_ w. old_release b w \<or> new_release b w) (\<lambda>_ w. old_release b w \<or> new_release b w) (\<lambda>_. True)"
proof (rule tripleI)
  fix w
  assume w: "recoverable b w"
  let ?E = "\<lambda>r w. ends (r :: machine \<times> unit ending) (steady w) (\<lambda>_ w. old_release b w \<or> new_release b w)
      (\<lambda>_ w. old_release b w \<or> new_release b w) (\<lambda>_. True)"
  obtain s where s: "mc_state w = Holds s" using w by (auto simp: recoverable_def disk_defs)
  have settled: "?E (recover_interrupted_update k expected w) w"
    if "old_release b w \<or> new_release b w" and "valid_state s \<Longrightarrow> \<forall>r. ss_operation s = Some r \<longrightarrow> \<not> active_status (uo_status r)"
    using that s unfolding recover_interrupted_update_def
    by (auto simp: andthen_def load_state_def look_def give_def throw_def split: option.splits)
  show "?E (recover_interrupted_update k expected w) w"
  proof (cases "valid_state s \<and> (\<exists>r. ss_operation s = Some r \<and> active_status (uo_status r))")
    case False
    then have "\<not> mid_switch b w"
      using s by (auto simp: mid_switch_def switching_def same_release_def split: option.splits)
    with w False settled show ?thesis by (auto simp: recoverable_def)
  next
    case True
    then obtain r where r: "ss_operation s = Some r" "active_status (uo_status r)" "valid_state s" by blast
    with w s have id: "uo_id r = bl_id b" by (auto simp: recoverable_def disk_defs completed_state_def)
    have "\<not> new_release b w" using s r by (auto simp: new_release_def completed_state_def active_status_def)
    with w have "old_release b w \<or> mid_switch b w" by (auto simp: recoverable_def)
    then have same: "same_release s (bl_state b)" and disk: "if changed_stage (uo_stage r) then mc_saved w (bl_id b) = bl_override b
        else mc_override w = bl_override b" and intact: "\<not> changed_stage (uo_stage r) \<Longrightarrow> old_release b w"
      using s r by (auto simp: old_release_def mid_switch_def switching_def)
    let ?P = "\<lambda>w. if changed_stage (uo_stage r) then mc_saved w (bl_id b) = bl_override b else mc_override w = bl_override b"
    have fail: "triple (\<lambda>w. mc_override w = bl_override b) (save_state (s\<lparr>ss_operation := Some (recovery_failed k e r)\<rparr>)) (\<lambda>_. old_release b) E (\<lambda>_. True)"
      for e E
      by (rule triple_save) (use same id in \<open>auto simp: old_release_def same_release_def valid_state_def switching_def
        recovery_failed_def active_status_def\<close>)
    have body: "triple ?P (catching (recover_body k s r) (\<lambda>e. save_state (s\<lparr>ss_operation := Some (recovery_failed k e r)\<rparr>)))
        (\<lambda>_. old_release b) (\<lambda>_. old_release b) (\<lambda>_. True)"
      by (rule triple_catching [OF triple_recover_body [OF assms(1) same id] fail])
    have ask: "triple ?P (docker k (labelled ''update'' (uo_id r))) (\<lambda>out w. ?P w \<and> out = []) (\<lambda>_. old_release b) (\<lambda>_. True)"
      by (rule triple_docker) (use assms(2) in \<open>auto simp: no_helper_def id\<close>)
    have "triple ?P (andthen (docker k (labelled ''update'' (uo_id r))) (\<lambda>helper.
             if helper \<noteq> [] then (if hex_between 12 64 helper then give () else throw ''Platform update helper identity is invalid'')
             else catching (recover_body k s r) (\<lambda>e. save_state (s\<lparr>ss_operation := Some (recovery_failed k e r)\<rparr>))))
        (\<lambda>_. old_release b) (\<lambda>_. old_release b) (\<lambda>_. True)"
    proof (rule triple_andthen [OF ask])
      fix out
      show "triple (\<lambda>w. ?P w \<and> out = []) (if out \<noteq> [] then (if hex_between 12 64 out then give () else throw ''Platform update helper identity is invalid'')
             else catching (recover_body k s r) (\<lambda>e. save_state (s\<lparr>ss_operation := Some (recovery_failed k e r)\<rparr>)))
        (\<lambda>_. old_release b) (\<lambda>_. old_release b) (\<lambda>_. True)"
        using body by (cases "out = []") (simp_all add: triple_def)
    qed
    from tripleD [OF this, of w] disk have run: "ends (andthen (docker k (labelled ''update'' (uo_id r))) (\<lambda>helper.
             if helper \<noteq> [] then (if hex_between 12 64 helper then give () else throw ''Platform update helper identity is invalid'')
             else catching (recover_body k s r) (\<lambda>e. save_state (s\<lparr>ss_operation := Some (recovery_failed k e r)\<rparr>))) w) (steady w)
        (\<lambda>_. old_release b) (\<lambda>_. old_release b) (\<lambda>_. True)" by blast
    have "truthy expected \<Longrightarrow> uuid_v4 (the expected) \<and> map_option uo_id (ss_operation s) = expected"
      using assms(3) r(1) id by auto
    then have "recover_interrupted_update k expected w = andthen (docker k (labelled ''update'' (uo_id r))) (\<lambda>helper.
             if helper \<noteq> [] then (if hex_between 12 64 helper then give () else throw ''Platform update helper identity is invalid'')
             else catching (recover_body k s r) (\<lambda>e. save_state (s\<lparr>ss_operation := Some (recovery_failed k e r)\<rparr>))) w"
      unfolding recover_interrupted_update_def andthen_def [of "load_state k"] load_state_holds [OF s r(3)] using r by auto
    with ends_conseq [OF run] show ?thesis by auto
  qed
qed

end
