(* ===== verification/PlatformUpdates.thy ===== *)
theory PlatformUpdates
  imports SupervisorProofs
begin

text \<open>
  What an update of the platform promises: it happens as a whole or not at all, also when power fails
  at any point and the recovery runs afterwards; nothing is replaced before the backup was taken and
  checked; and where the recovery leaves the Supervisor behind.
\<close>

section \<open>Machines an update may start from\<close>

definition settled_machine :: "machine \<Rightarrow> supervisor_state \<Rightarrow> bool" where
  "settled_machine w s = (mc_state w = Holds s \<and> valid_state s \<and> \<not> switching s \<and>
     (mc_override w = None \<longrightarrow> ss_images s = None \<and> (\<forall>i. mc_saved w i = None)))"

definition operation_id :: "supervisor_state \<Rightarrow> string" where
  "operation_id s = (case ss_operation s of None \<Rightarrow> [] | Some r \<Rightarrow> uo_id r)"

definition baseline_of :: "tools \<Rightarrow> supervisor_state \<Rightarrow> machine \<Rightarrow> baseline" where
  "baseline_of k s w = \<lparr>bl_tools = k, bl_override = mc_override w, bl_state = s, bl_id = operation_id s\<rparr>"

text \<open>The two machines an update may leave.\<close>

definition keeps_release :: "machine \<Rightarrow> supervisor_state \<Rightarrow> machine \<Rightarrow> bool" where
  "keeps_release w s w' = (mc_override w' = mc_override w \<and> (\<exists>s'. mc_state w' = Holds s' \<and> valid_state s' \<and>
     ss_version s' = ss_version s \<and> ss_images s' = ss_images s \<and> \<not> switching s'))"

definition has_release :: "tools \<Rightarrow> release_manifest \<Rightarrow> machine \<Rightarrow> bool" where
  "has_release k m w' = (mc_override w' = Some (render_override m) \<and> (\<exists>r. mc_state w' = Holds (completed_state k m r)))"

lemma baseline_start:
  assumes "settled_machine w s"
  shows "sound_baseline (baseline_of k s w)" and "start (baseline_of k s w) w"
  using assms by (auto simp: settled_machine_def sound_baseline_def start_def baseline_of_def operation_id_def)

lemma baseline_releases:
  "old_release (baseline_of k s w) w' \<Longrightarrow> keeps_release w s w'"
  "new_release (baseline_of k s w) w' \<Longrightarrow> \<exists>m. has_release k m w' \<and> secured (baseline_of k s w) m w'"
  by (auto simp: old_release_def new_release_def keeps_release_def has_release_def same_release_def baseline_of_def)

lemmas apply_triple = triple_apply [OF baseline_start(1) refl]

lemma apply_ends:
  assumes "settled_machine w s"
  shows "ends (apply_plan k path w) (steady w) (\<lambda>_ w'. updated (baseline_of k s w) path w' \<and> \<not> mc_lock w)
    (\<lambda>_ w'. old_release (baseline_of k s w) w' \<and> mc_lock w' = mc_lock w) (recoverable (baseline_of k s w))"
  using tripleD [OF apply_triple [OF assms, of k "mc_lock w" path], of w] baseline_start(2) [OF assms, of k]
  by (simp add: baseline_of_def)

lemma apply_recoverable:
  assumes "settled_machine w s" and "apply_plan k path w = (w1, r)"
  shows "recoverable (baseline_of k s w) w1"
  using apply_ends [OF assms(1), of k path] unfolding assms(2)
  by (cases r) (auto simp: updated_def recoverable_def)

lemma put_back_ends:
  assumes "settled_machine w s"
  shows "ends (apply_update x k path w) (steady w) (\<lambda>_ _. True)
    (\<lambda>_ w'. put_back x k (mc_services w) (mc_override w) w' \<and> mc_lock w' = mc_lock w) (\<lambda>_. True)"
proof -
  have k: "k = bl_tools (baseline_of k s w)" by (simp add: baseline_of_def)
  have "ends (apply_update x k path w) (steady w) (\<lambda>_ _. True)
    (\<lambda>_ w'. put_back x k (mc_services w) (bl_override (baseline_of k s w)) w' \<and> mc_lock w' = mc_lock w) (\<lambda>_. True)"
    by (rule tripleD [OF triple_apply_put_back [OF baseline_start(1) [OF assms] k]]) (simp add: baseline_start(2) [OF assms])
  then show ?thesis by (simp add: baseline_of_def)
qed

section \<open>All or nothing\<close>

text \<open>C24: An update that runs to its end either installed the release - recorded as the current one, its descriptor in
  place, every service started with it, the plan and the lock gone - or threw. \<open>x\<close> tells which writes of
  the rollback the file system refuses. A throw leaves the lock as it was found and, unless the copy or the removal
  of the descriptor was refused, the previous descriptor; the services then are those the update found,
  or the last command to Docker restarts all three with the previous descriptor, which they run if that
  command succeeded. When no write was refused, the previous release is recorded as well, and no update is
  open on a changed stage.\<close>

theorem update_is_all_or_nothing:
  assumes "settled_machine w s" and "steady w" and "apply_update x k path w = (w', r)"
  shows "case r of
      Done _ \<Rightarrow> (\<exists>m. has_release k m w') \<and> \<not> mc_lock w' \<and> mc_plans w' path = None \<and>
        (compose_contract k \<longrightarrow> (\<forall>c. mc_services w' c = mc_override w'))
    | Raised _ \<Rightarrow> mc_lock w' = mc_lock w \<and>
        (\<not> x CopyDescriptor \<and> \<not> x RemoveDescriptor \<longrightarrow> mc_override w' = mc_override w \<and>
          (mc_services w' = mc_services w \<or>
           (\<exists>root ok. mc_log w' \<noteq> [] \<and>
              last (mc_log w') = (compose_args k root (mc_override w \<noteq> None) @ up_args @ [''api'', ''web'', ''supervisor''], ok) \<and>
              (ok \<and> compose_contract k \<longrightarrow> (\<forall>c. mc_services w' c = mc_override w))))) \<and>
        ((\<forall>y. \<not> x y) \<longrightarrow> keeps_release w s w')
    | Killed \<Rightarrow> False"
proof (cases r)
  case (Done u)
  then have "apply_plan k path w = (w', Done u)" using assms(3) apply_succeeds by blast
  with apply_ends [OF assms(1), of k path] baseline_releases(2) [of k s w w'] Done show ?thesis
    by (auto simp: updated_def baseline_of_def)
next
  case (Raised e)
  have "keeps_release w s w'" if "\<forall>y. \<not> x y"
  proof -
    from that have "x = (\<lambda>_. False)" by auto
    then have "apply_plan k path w = (w', Raised e)" using assms(3) Raised by (simp add: apply_plan_def)
    with apply_ends [OF assms(1), of k path] baseline_releases(1) [of k s w w'] show ?thesis by simp
  qed
  with put_back_ends [OF assms(1), of x k path] show ?thesis
    unfolding assms(3) Raised by (simp add: put_back_def restart_args_def)
next
  case Killed
  with put_back_ends [OF assms(1), of x k path] assms(2,3) show ?thesis by simp
qed


text \<open>Whatever the helper did and wherever it was cut off: if the release descriptor differs from the one the
  update found, it is that of a release whose signature and descriptor hash were checked, and before it
  PostgreSQL was dumped, the dump was listed, and the three images were pulled, each with success.\<close>

theorem replaced_only_after_backup:
  assumes "settled_machine w s" and "mc_log w = []" and "apply_plan k path w = (w', r)" and "mc_override w' \<noteq> mc_override w"
  shows "\<exists>m root release version. mc_override w' = Some (render_override m) \<and> tl_verify k release version = Inr m \<and>
    tl_sha256 k (render_override m) = rm_composeSha256 m \<and> set (precautions (baseline_of k s w) root m) \<subseteq> set (mc_log w')"
proof -
  let ?b = "baseline_of k s w"
  have "mc_override w' = bl_override ?b \<or> (\<exists>m. mc_override w' = Some (render_override m) \<and> secured ?b m w')"
    using apply_recoverable [OF assms(1,3)] by (auto simp: recoverable_def old_release_def mid_switch_def new_release_def)
  then obtain m where "mc_override w' = Some (render_override m)" "secured ?b m w'"
    using assms(4) by (auto simp: baseline_of_def)
  then show ?thesis unfolding secured_def accepted_release_def by (auto simp: baseline_of_def)
qed

section \<open>The restored Supervisor\<close>

text \<open>After an interruption in the last stage the recovery restores the saved descriptor, but decides afterwards,
  by the saved copy it has just renamed, whether the Supervisor is to be started with it: the Supervisor
  is restarted from the installed Compose file alone, not from the release that is recorded.\<close>

theorem restored_supervisor_misses_its_descriptor:
  assumes "mc_state w = Holds s" and "valid_state s" and "ss_operation s = Some r" and "uo_status r = UsRunning"
    and "uo_stage r = ''supervisor''" and "uuid_v4 (uo_id r)" and "mc_saved w (uo_id r) = Some x" and "steady w"
    and "install_root k = give root" and "root @ ''/deploy'' \<noteq> override_path k" and "root @ ''/deploy/.env'' \<noteq> override_path k"
    and "root @ ''/deploy/docker-compose.yml'' \<noteq> override_path k"
    and "no_helper k (uo_id r)" and "compose_contract k" and "\<forall>n args. dr_error (tl_docker k n args) = None"
  shows "case recover_interrupted_update k None w of (w', e) \<Rightarrow>
    e = Done () \<and> mc_override w' = Some x \<and> mc_services w' SupervisorService = None \<and>
    mc_state w' = Holds (s\<lparr>ss_operation := Some (recovered_operation k r)\<rparr>)"
proof -
  have c: "changed_stage (uo_stage r)" using assms(5) by (simp add: changed_stage_def)
  have ok: "dr_error (tl_docker k n args) = None" for n args using assms(15) by blast
  have out: "dr_stdout (tl_docker k n (labelled ''update'' (uo_id r))) = []" for n using assms(13) by (simp add: no_helper_def)
  have sup: "SupervisorService \<in> set (dr_started (tl_docker k n (compose @ up_args @ [''supervisor''])))" for n compose
    using assms(14) ok by (auto simp: compose_contract_def)
  have bare: "override_path k \<notin> set (compose_args k root False @ up_args @ [''supervisor''])"
    using assms(10-12) by (simp add: compose_args_def up_args_def override_path_def)
  have power: "pw_left w = None" using assms(8) by (simp add: steady_def)
  note runs = andthen_def catching_def look_def give_def effect_def change_def spend_def save_state_def load_state_def
    docker_quietly_def docker_def checked_def plan_path_def
  note code = recover_interrupted_update_def recover_body_def restore_descriptor_def restore_supervisor_def
  show ?thesis
    using assms(1-7) c power out ok sup bare
    by (simp add: code runs Let_def assms(9) active_status_def started_services_def)
qed

text \<open>A helper that dies between recording its success and removing its lock leaves the lock: the recovery of a
  finished operation does not touch it, and the next helper stops at it without recording a failure, so the
  next operation stays accepted.\<close>

theorem lock_outlives_a_finished_update:
  assumes "mc_state w = Holds s" and "valid_state s" and "ss_operation s = Some r" and "\<not> active_status (uo_status r)"
    and "mc_lock w" and "steady w"
  shows "recover_interrupted_update k None w = (w, Done ()) \<and>
    apply_plan k path (w\<lparr>mc_state := Holds s'\<rparr>) =
      (fresh_process (w\<lparr>mc_state := Holds s'\<rparr>), Raised ''Another platform update is already running'')"
  using assms by (simp add: recover_interrupted_update_def andthen_def load_state_def look_def give_def apply_plan_def apply_update_def
    note_down_def fresh_process_def take_lock_def effect_def spend_def steady_def)

section \<open>A sample installation\<close>

text \<open>A source installation with an accepted operation; the tools accept one release and every command
  succeeds. \<open>busy_tools\<close> are those of a Docker daemon that refuses to pull.\<close>

definition sample_id :: string where "sample_id = ''00000000-0000-4000-8000-000000000000''"

definition plain_image :: platform_image where
  "plain_image = \<lparr>pi_name = ''n'', pi_digest = ''d'', pi_reference = ''r''\<rparr>"

definition sample_target :: release_manifest where
  "sample_target = \<lparr>rm_version = ''0.3.0'', rm_repository = ''o/r'', rm_tag = ''v0.3.0'', rm_commit = ''c'', rm_api = plain_image,
     rm_web = plain_image, rm_supervisor = plain_image, rm_composeSha256 = ''h''\<rparr>"

definition sample_docker :: "nat \<Rightarrow> string list \<Rightarrow> docker_reply" where
  "sample_docker n args = \<lparr>dr_error = None,
     dr_stdout = (if ''inspect'' \<in> set args then ''healthy'' else if ''-T'' \<in> set args \<or> ''--filter'' \<in> set args then [] else ''0123456789ab''),
     dr_started = (if ''up'' \<in> set args then filter (\<lambda>c. service_name c \<in> set args) [ApiService, WebService, SupervisorService] else [])\<rparr>"

definition sample_tools :: tools where
  "sample_tools = \<lparr>tl_dir = ''/s'', tl_root = Some ''/i'', tl_container = ''initpad-supervisor'', tl_repository = ''o/r'',
     tl_version = ''0.2.30'', tl_now = ''t'', tl_uuid = sample_id, tl_sha256 = (\<lambda>_. ''h''), tl_date_ok = (\<lambda>_. True),
     tl_parse = (\<lambda>_. None), tl_size = (\<lambda>_. 1), tl_verify = (\<lambda>_ _. Inr sample_target), tl_docker = sample_docker\<rparr>"

definition sample_update :: update_operation where
  "sample_update = \<lparr>uo_id = sample_id, uo_requestId = ''q'', uo_fromVersion = ''0.2.30'', uo_toVersion = ''0.3.0'', uo_status = UsAccepted,
     uo_stage = ''accepted'', uo_message = [], uo_backupPath = None, uo_startedAt = ''t'', uo_finishedAt = None\<rparr>"

definition sample_state :: supervisor_state where
  "sample_state = \<lparr>ss_schema = 1, ss_version = ''0.2.30'', ss_images = None, ss_operation = Some sample_update\<rparr>"

definition sample_plan :: string where "sample_plan = ''/s/update-'' @ sample_id @ ''.json''"

definition sample_machine :: machine where
  "sample_machine = \<lparr>pw_left = None, mc_state = Holds sample_state, mc_override = None, mc_saved = (\<lambda>_. None),
     mc_plans = (\<lambda>_. None)(sample_plan := Some \<lparr>pl_private = True, pl_size = 1, pl_plan = Some \<lparr>up_schema = 1,
        up_operationId = sample_id, up_release = JObj [(''version'', JStr ''0.3.0''), (''manifestBase64'', JStr ''e30=''), (''bundle'', JObj [])], up_createdAt = ''t''\<rparr>\<rparr>),
     mc_lock = False, mc_log = [], mc_services = (\<lambda>_. None), mc_accepting = False, mc_operation = None, mc_previous = None,
     mc_saveId = None, mc_hadOverride = False, mc_prepared = False, mc_root = None\<rparr>"

lemma sample_uuid: "uuid_v4 sample_id"
proof -
  have "is_hex (CHR ''0'')" "lower_char (CHR ''8'') = CHR ''8''" by code_simp+
  then show ?thesis by (simp add: uuid_v4_def uuid_char_def sample_id_def)
qed

lemma sample_version: "parse_release_version ''0.2.30'' = Some (0, 2, 30)"
  by code_simp

lemma sample_path: "plan_path sample_tools sample_id = Inr sample_plan"
  by (simp add: plan_path_def sample_uuid sample_tools_def sample_plan_def)

lemma sample_root: "install_root sample_tools = give ''/i''"
  by (simp add: install_root_def sample_tools_def line_feed_def)

lemma sample_strings: "starts_with ''/s/'' sample_plan" "CHR ''/'' \<notin> set (drop 3 sample_plan)" "hex_between 12 64 ''0123456789ab''"
  by (simp_all add: sample_plan_def sample_id_def hex_between_def hex_digits_def)

lemma sample_fields [simp]:
  "tl_dir sample_tools = ''/s''" "tl_sha256 sample_tools x = ''h''" "tl_date_ok sample_tools y" "tl_verify sample_tools j v = Inr sample_target"
  "tl_docker sample_tools = sample_docker" "dr_error (sample_docker n args) = None" "pw_left sample_machine = None"
  "mc_state sample_machine = Holds sample_state" "mc_override sample_machine = None" "mc_saved sample_machine i = None"
  "mc_lock sample_machine = False" "mc_prepared sample_machine = False" "valid_state sample_state"
  "ss_operation sample_state = Some sample_update" "uo_id sample_update = sample_id" "rm_composeSha256 sample_target = ''h''"
  by (simp_all add: sample_tools_def sample_machine_def sample_state_def sample_update_def sample_docker_def sample_target_def
    valid_state_def sample_version)

lemma sample_size: "\<not> max_plan_bytes < Suc 0"
  by (simp add: max_plan_bytes_def)

lemma sample_read: "mc_plans w = mc_plans sample_machine \<Longrightarrow> read_plan sample_tools sample_plan w =
   (w, Done \<lparr>up_schema = 1, up_operationId = sample_id, up_release = JObj [(''version'', JStr ''0.3.0''),
      (''manifestBase64'', JStr ''e30=''), (''bundle'', JObj [])], up_createdAt = ''t''\<rparr>)"
  using sample_path sample_strings [unfolded numeral_3_eq_3] sample_size
  by (simp add: read_plan_def look_def sample_machine_def plan_ok_def andthen_def checked_def
    as_signed_release_def text_field_def is_object_def give_def)

text \<open>On this machine no step of the update throws.\<close>

definition going :: "machine \<Rightarrow> bool" where
  "going w = (pw_left w = None \<and> mc_root w = Some ''/i'' \<and>
     (\<exists>r. mc_operation w = Some r \<and> mc_state w = Holds (sample_state\<lparr>ss_operation := Some r\<rparr>)))"

abbreviation flawless :: "(machine \<Rightarrow> bool) \<Rightarrow> 'a script \<Rightarrow> ('a \<Rightarrow> machine \<Rightarrow> bool) \<Rightarrow> bool" where
  "flawless P m Q \<equiv> triple P m Q (\<lambda>_ _. False) (\<lambda>_. True)"

lemma flawless_patch: "flawless going (patch_operation sample_tools f) (\<lambda>_. going)"
  by (rule tripleI) (auto simp: going_def patch_run [of _ "sample_state\<lparr>ss_operation := Some r\<rparr>" for r] valid_state_def sample_state_def sample_version
    save_state_def steady_runs steady_def patch_run)

lemma flawless_docker: "flawless going (docker sample_tools args) (\<lambda>out w. going w \<and> out = dr_stdout (sample_docker 0 args))"
  by (rule tripleI) (auto simp: going_def docker_def steady_runs steady_def Let_def sample_docker_def)

lemma flawless_change: "(\<And>w. going w \<Longrightarrow> going (f w)) \<Longrightarrow> flawless going (change f) (\<lambda>_. going)"
  by (rule tripleI) (auto simp: going_def steady_runs steady_def)

lemma flawless_wait:
  assumes "name \<in> {''api'', ''web'', ''supervisor''}"
  shows "flawless going (wait_for_service sample_tools (compose_args sample_tools ''/i'' True) name) (\<lambda>_. going)"
proof -
  have i: "dr_stdout (sample_docker 0 (compose_args sample_tools ''/i'' True @ [''ps'', ''-q'', name])) = ''0123456789ab''"
    using assms by (auto simp: sample_docker_def compose_args_def override_path_def)
  have h: "dr_stdout (sample_docker 0 (''inspect'' # args)) = ''healthy''" for args
    by (simp add: sample_docker_def)
  have poll: "flawless going (poll_service (Suc n) sample_tools name j) (\<lambda>_. going)" for n j
    unfolding poll_service.simps by (rule triple_andthen [OF flawless_docker]) (simp add: h triple_def give_def)
  have "ready_attempts = Suc 39" by (simp add: ready_attempts_def)
  with poll have poll: "flawless going (poll_service ready_attempts sample_tools name j) (\<lambda>_. going)" for j by metis
  show ?thesis unfolding wait_for_service_def
    by (rule triple_andthen [OF flawless_docker]) (use poll sample_strings(3) in \<open>simp add: i triple_def\<close>)
qed

lemma flawless_prepare: "flawless (\<lambda>w. w = sample_machine\<lparr>mc_lock := True\<rparr>) (prepare_update sample_tools sample_plan)
   (\<lambda>m w. going w \<and> m = sample_target)"
proof (rule tripleI)
  fix w :: machine
  assume w: "w = sample_machine\<lparr>mc_lock := True\<rparr>"
  show "ends (prepare_update sample_tools sample_plan w) (steady w) (\<lambda>m w. going w \<and> m = sample_target) (\<lambda>_ _. False) (\<lambda>_. True)"
    using sample_read [of w] unfolding w
    by (simp add: prepare_update_def andthen_def load_state_def look_def give_def note_down_def sample_root verify_plan_def patch_operation_def
        save_state_def change_def effect_def spend_def checked_def save_override_def going_def steady_def)
qed

lemma flawless_body: "flawless (\<lambda>w. w = sample_machine\<lparr>mc_lock := True\<rparr>) (update_body sample_tools sample_plan) (\<lambda>_ w. pw_left w = None)"
  unfolding update_body_def
proof (rule triple_andthen [OF flawless_prepare])
  fix m
  have quiet: "flawless going (docker_quietly sample_tools args) (\<lambda>_. going)" for args
    by (rule triple_docker_quietly, rule triple_conseq [OF flawless_docker]) simp_all
  have docker: "flawless going (docker sample_tools args) (\<lambda>_. going)" for args
    by (rule triple_conseq [OF flawless_docker]) simp_all
  have backup: "flawless going (back_up sample_tools c) (\<lambda>_. going)" for c
    unfolding back_up_def
    by (rule triple_look, rule triple_andthen [OF triple_weaken [OF flawless_patch]], simp)
      (rule triple_andthen [OF docker] quiet)+
  have pull: "flawless going (pull_images sample_tools n) (\<lambda>_. going)" for n
    unfolding pull_images_def by (rule triple_andthen [OF flawless_patch] triple_andthen [OF docker] quiet)+
  have switch: "flawless going (switch_service sample_tools (compose_args sample_tools ''/i'' True) name msg) (\<lambda>_. going)"
    if "name \<in> {''api'', ''web'', ''supervisor''}" for name msg
    unfolding switch_service_def by (rule triple_andthen [OF flawless_patch] triple_andthen [OF docker] flawless_wait [OF that])+
  have put: "flawless going (write_override x) (\<lambda>_. going)" for x
    unfolding write_override_def by (rule flawless_change) (simp add: going_def)
  have all: "flawless going (switch_release sample_tools ''/i'' n) (\<lambda>_. going)" for n
    unfolding switch_release_def
    by (rule triple_andthen [OF flawless_patch] triple_andthen [OF put] triple_andthen [OF switch] switch | (simp; fail))+
  have complete: "flawless going (complete_update sample_tools n) (\<lambda>_ w. pw_left w = None)" for n
    by (rule tripleI) (auto simp: going_def complete_update_def remove_saved_def andthen_def look_def give_def
      save_state_def steady_runs steady_def split: option.splits)
  have "flawless going (andthen (back_up sample_tools c) (\<lambda>_. andthen (pull_images sample_tools n) (\<lambda>_.
     andthen (switch_release sample_tools ''/i'' n) (\<lambda>_. complete_update sample_tools n)))) (\<lambda>_ w. pw_left w = None)" for c n
    by (rule triple_andthen [OF backup] triple_andthen [OF pull] triple_andthen [OF all] complete)+
  then show "flawless (\<lambda>w. going w \<and> m = sample_target) (look (\<lambda>w. let root = the (mc_root w) in
     andthen (back_up sample_tools (compose_args sample_tools root (mc_hadOverride w))) (\<lambda>_. andthen (pull_images sample_tools m) (\<lambda>_.
     andthen (switch_release sample_tools root m) (\<lambda>_. complete_update sample_tools m))))) (\<lambda>_ w. pw_left w = None)"
    by (simp add: triple_def look_def Let_def going_def)
qed

lemma sample_runs: "snd (apply_plan sample_tools sample_plan sample_machine) = Done ()"
proof -
  let ?w = "sample_machine\<lparr>mc_lock := True\<rparr>"
  have fresh: "fresh_process sample_machine = sample_machine" by (simp add: fresh_process_def sample_machine_def)
  obtain v where v: "update_body sample_tools sample_plan ?w = (v, Done ())" "pw_left v = None"
    using tripleD [OF flawless_body refl] by (cases "update_body sample_tools sample_plan ?w") (auto simp: ends_def steady_def split: ending.splits)
  show ?thesis
    using v by (simp add: apply_plan_def apply_update_def andthen_def note_down_def fresh take_lock_def effect_def spend_def ensuring_def catching_def clean_up_def
      change_def remove_saved_def look_def give_def split: option.splits)
qed

section \<open>Witnesses\<close>

lemma sample_settled: "settled_machine sample_machine sample_state"
  by (simp add: settled_machine_def switching_def changed_stage_def) (simp add: sample_state_def sample_update_def)

theorem update_is_all_or_nothing_witness:
  "\<exists>w' m. apply_plan sample_tools sample_plan sample_machine = (w', Done ()) \<and> has_release sample_tools m w' \<and> \<not> mc_lock w'"
proof -
  obtain w' where w': "apply_plan sample_tools sample_plan sample_machine = (w', Done ())"
    using sample_runs by (cases "apply_plan sample_tools sample_plan sample_machine") simp
  have "steady sample_machine" by (simp add: steady_def)
  from update_is_all_or_nothing [OF sample_settled this w' [unfolded apply_plan_def]] w' show ?thesis by auto
qed


theorem replaced_only_after_backup_witness:
  "\<exists>w' m root. apply_plan sample_tools sample_plan sample_machine = (w', Done ()) \<and> mc_override w' = Some (render_override m) \<and>
     set (precautions (baseline_of sample_tools sample_state sample_machine) root m) \<subseteq> set (mc_log w')"
proof -
  obtain w' where w': "apply_plan sample_tools sample_plan sample_machine = (w', Done ())"
    using sample_runs by (cases "apply_plan sample_tools sample_plan sample_machine") simp
  have "mc_log sample_machine = []" by (simp add: sample_machine_def)
  moreover have "mc_override w' \<noteq> mc_override sample_machine"
    using apply_ends [OF sample_settled, of sample_tools sample_plan] w' by (auto simp: updated_def new_release_def)
  ultimately show ?thesis using replaced_only_after_backup [OF sample_settled _ w'] w' by blast
qed

lemma sample_contract: "compose_contract sample_tools"
  unfolding compose_contract_def
proof (intro allI conjI impI)
  fix n args
  assume "''up'' \<notin> set args"
  then show "dr_started (tl_docker sample_tools n args) = []" by (simp add: sample_docker_def)
next
  fix n args compose names c
  assume "args = compose @ up_args @ names" and "service_name c \<in> set names"
  then have "''up'' \<in> set args" "service_name c \<in> set args" by (simp_all add: up_args_def)
  then show "c \<in> set (dr_started (tl_docker sample_tools n args))" by (cases c) (simp_all add: sample_docker_def)
qed

definition interrupted_machine :: machine where
  "interrupted_machine = sample_machine\<lparr>mc_state := Holds (sample_state\<lparr>ss_operation := Some (sample_update\<lparr>uo_status := UsRunning,
     uo_stage := ''supervisor''\<rparr>)\<rparr>), mc_override := Some ''new'', mc_saved := (\<lambda>_. Some ''old'')\<rparr>"

theorem restored_supervisor_misses_its_descriptor_witness:
  "case recover_interrupted_update sample_tools None interrupted_machine of (w', e) \<Rightarrow>
     e = Done () \<and> mc_override w' = Some ''old'' \<and> mc_services w' SupervisorService = None"
proof -
  have n: "no_helper sample_tools sample_id" by (simp add: no_helper_def sample_docker_def labelled_def)
  have v: "valid_state (sample_state\<lparr>ss_operation := r\<rparr>)" for r by (simp add: valid_state_def sample_state_def sample_version)
  show ?thesis
    using restored_supervisor_misses_its_descriptor [of interrupted_machine _ "sample_update\<lparr>uo_status := UsRunning, uo_stage := ''supervisor''\<rparr>"
        "''old''" sample_tools "''/i''", OF _ v] sample_root sample_uuid n sample_contract
    by (simp add: interrupted_machine_def steady_def override_path_def split: prod.splits)
qed

end
