(* ===== verification/SupervisorServer.thy ===== *)
theory SupervisorServer
  imports PlatformUpdates
begin

text \<open>
  The server of the Supervisor (\<open>apps/supervisor/src/server.ts\<close>) and the helpers it launches
  (\<open>helperRuntime\<close>, \<open>launchHelper\<close>, \<open>launchRecoveryHelper\<close> of \<open>updater.ts\<close>).

  A request is its method, the path of its URL, the headers the server reads, and its body. \<open>mc_accepting\<close> is
  the flag of the running server: a request handled while another one is being accepted finds it set.
\<close>

section \<open>Launching helpers\<close>

definition image_id :: "string \<Rightarrow> bool" where
  "image_id s = (starts_with ''sha256:'' s \<and> hex_digits 64 (drop 7 s))"

definition image_name_char :: "char \<Rightarrow> bool" where
  "image_name_char c = (is_lower c \<or> is_digit c \<or> c \<in> set ''._:/-'')"

definition immutable_image :: "string \<Rightarrow> bool" where
  "immutable_image s = (let name = takeWhile image_name_char s; rest = dropWhile image_name_char s in
     name \<noteq> [] \<and> (is_lower (hd name) \<or> is_digit (hd name)) \<and> starts_with ''@sha256:'' rest \<and> hex_digits 64 (drop 8 rest))"

record helper_settings =
  hr_image :: string
  hr_environment :: "string list"

definition helper_runtime :: "tools \<Rightarrow> helper_settings script" where
  "helper_runtime tk =
     andthen (docker tk [''inspect'', ''--format'', ''{{.Image}}'' @ line_feed @ ''{{.Config.Image}}'', tl_container tk]) (\<lambda>out.
     let identity = split_on (CHR 0x0A) out; i = trim (identity ! 0);
         configured = (if length identity > 1 then trim (identity ! 1) else []) in
     if \<not> image_id i then throw ''Running Supervisor image identity is invalid''
     else andthen (install_root tk) (\<lambda>root.
       give \<lparr>hr_image = (if immutable_image configured then configured else i),
         hr_environment = [''INITPAD_INSTALL_ROOT='' @ root, ''INITPAD_SUPERVISOR_STATE_DIR='' @ tl_dir tk,
           ''INITPAD_SUPERVISOR_CONTAINER_NAME='' @ tl_container tk, ''INITPAD_UPDATE_REPOSITORY='' @ tl_repository tk,
           ''INITPAD_SIGSTORE_FORCE_CACHE=true'']\<rparr>))"

definition base_name :: "string \<Rightarrow> string" where
  "base_name p = last (split_on (CHR ''/'') p)"

text \<open>The operation a plan file is named after.\<close>

definition named_operation :: "string \<Rightarrow> string option" where
  "named_operation p = (let b = base_name p; i = take 36 (drop 7 b) in
     if length b = 48 \<and> lower (take 7 b) = ''update-'' \<and> lower (drop 43 b) = ''.json'' \<and> uuid_v4 i then Some i else None)"

definition with_environment :: "string list \<Rightarrow> string list" where
  "with_environment vs = concat (map (\<lambda>v. [''-e'', v]) vs)"

definition helper_args :: "tools \<Rightarrow> helper_settings \<Rightarrow> string \<Rightarrow> string \<Rightarrow> string \<Rightarrow> string list" where
  "helper_args tk h tag i plan =
     [''run'', ''-d'', ''--rm'', ''--name'', ''initpad-platform-updater-'' @ tag, ''--label'', ''com.initpad.platform-update='' @ i,
      ''--network'', ''none''] @ with_environment (hr_environment h) @
     [''--volumes-from'', tl_container tk, hr_image h, ''update-helper'', ''--plan'', plan]"

text \<open>\<open>tag\<close> is the random part of the name of the container.\<close>

definition launch_helper :: "tools \<Rightarrow> string \<Rightarrow> string \<Rightarrow> unit script" where
  "launch_helper tk tag plan = andthen (helper_runtime tk) (\<lambda>h.
     case named_operation plan of
       None \<Rightarrow> throw ''Platform update plan name is invalid''
     | Some i \<Rightarrow> catching (docker_quietly tk (helper_args tk h tag i plan))
         (\<lambda>e. andthen (change (\<lambda>w. w\<lparr>mc_plans := (mc_plans w)(plan := None)\<rparr>)) (\<lambda>_. throw e)))"

definition recovery_args :: "tools \<Rightarrow> helper_settings \<Rightarrow> string \<Rightarrow> string list" where
  "recovery_args tk h i =
     [''run'', ''-d'', ''--rm'', ''--name'', ''initpad-platform-recovery-'' @ i, ''--label'', ''com.initpad.platform-recovery='' @ i,
      ''--network'', ''none'', ''--read-only'', ''--security-opt'', ''no-new-privileges:true'', ''--cap-drop'', ''ALL'',
      ''--cap-add'', ''DAC_OVERRIDE'', ''--pids-limit'', ''128'', ''--memory'', ''192m'', ''--cpus'', ''0.5'',
      ''--tmpfs'', ''/tmp:size=16m,mode=1777''] @ with_environment (hr_environment h) @
     [''--volumes-from'', tl_container tk, hr_image h, ''recovery-helper'', ''--operation'', i]"

definition launch_recovery_helper :: "tools \<Rightarrow> unit script" where
  "launch_recovery_helper tk = andthen (load_state tk) (\<lambda>s. case ss_operation s of
      None \<Rightarrow> give ()
    | Some r \<Rightarrow>
        if \<not> active_status (uo_status r) then give ()
        else if \<not> uuid_v4 (uo_id r) then throw ''Platform update operation id is invalid''
        else andthen (docker tk (labelled ''update'' (uo_id r))) (\<lambda>updater.
          if updater \<noteq> [] then give ()
          else andthen (docker tk (labelled ''recovery'' (uo_id r))) (\<lambda>recovery.
            if recovery \<noteq> [] then give ()
            else andthen (helper_runtime tk) (\<lambda>h. docker_quietly tk (recovery_args tk h (uo_id r))))))"

section \<open>Requests\<close>

datatype reply = HealthReply | StateReply supervisor_state | OperationReply update_operation | ErrorReply string

record server =
  sv_hmac :: "string \<Rightarrow> string \<Rightarrow> string"
  sv_sha :: "string \<Rightarrow> string"
  sv_secret :: string
  sv_clock :: instant
  sv_tag :: string

definition max_body_bytes :: nat where "max_body_bytes = 2 * 1024 * 1024"

text \<open>The \<open>v2\<close> signature of the request against the clock of the server.\<close>

definition check_signature :: "server \<Rightarrow> signed_request \<Rightarrow> unit script" where
  "check_signature sv q = (case authenticate_request (sv_hmac sv) (sv_sha sv) (sv_secret sv) (sv_clock sv) q of
      None \<Rightarrow> give () | Some e \<Rightarrow> throw e)"

definition accepted_operation :: "tools \<Rightarrow> string \<Rightarrow> string \<Rightarrow> string \<Rightarrow> update_operation" where
  "accepted_operation tk request_id from_version to_version =
     \<lparr>uo_id = tl_uuid tk, uo_requestId = request_id, uo_fromVersion = from_version, uo_toVersion = to_version,
      uo_status = UsAccepted, uo_stage = ''accepted'', uo_message = ''InitPad '' @ to_version @ '' update accepted'',
      uo_backupPath = None, uo_startedAt = tl_now tk, uo_finishedAt = None\<rparr>"

definition launch_failed :: "tools \<Rightarrow> string \<Rightarrow> update_operation \<Rightarrow> update_operation" where
  "launch_failed tk e r = r\<lparr>uo_status := UsFailed, uo_stage := ''failed'', uo_message := take 500 e, uo_finishedAt := Some (tl_now tk)\<rparr>"

definition start_update :: "tools \<Rightarrow> server \<Rightarrow> supervisor_state \<Rightarrow> signed_request \<Rightarrow> (nat \<times> reply) script" where
  "start_update tk sv s q = (case tl_parse tk (sq_body q) of
      None \<Rightarrow> throw ''Platform update request is not valid JSON''
    | Some release \<Rightarrow>
        andthen (checked (tl_verify tk release (ss_version s))) (\<lambda>m.
        let r = accepted_operation tk (the (sq_requestId q)) (ss_version s) (rm_version m) in
        andthen (save_state (s\<lparr>ss_operation := Some r\<rparr>)) (\<lambda>_.
        andthen (write_plan tk (uo_id r) release) (\<lambda>path.
        andthen (catching (launch_helper tk (sv_tag sv) path)
          (\<lambda>e. andthen (save_state (s\<lparr>ss_operation := Some (launch_failed tk e r)\<rparr>)) (\<lambda>_. throw e)))
        (\<lambda>_. give (202, OperationReply r))))))"

text \<open>The part of \<open>handle\<close> between the request and its answer; \<open>owns\<close> is the lock taken for it.\<close>

definition busy :: "machine \<Rightarrow> supervisor_state \<Rightarrow> bool" where
  "busy w s = (mc_accepting w \<or> (case ss_operation s of None \<Rightarrow> False | Some r \<Rightarrow> active_status (uo_status r)))"

definition release_accepting :: "unit script" where
  "release_accepting = note_down (\<lambda>w. w\<lparr>mc_accepting := False\<rparr>)"

definition update_request :: "tools \<Rightarrow> server \<Rightarrow> signed_request \<Rightarrow> (nat \<times> reply) script" where
  "update_request tk sv q = andthen (load_state tk) (\<lambda>s. look (\<lambda>w.
     case ss_operation s of
       Some r \<Rightarrow> if Some (uo_requestId r) = sq_requestId q then give (200, OperationReply r)
         else if busy w s then give (409, ErrorReply ''Another platform update is already running'')
         else andthen (note_down (\<lambda>w. w\<lparr>mc_accepting := True\<rparr>)) (\<lambda>_. ensuring (start_update tk sv s q) release_accepting)
     | None \<Rightarrow> if busy w s then give (409, ErrorReply ''Another platform update is already running'')
         else andthen (note_down (\<lambda>w. w\<lparr>mc_accepting := True\<rparr>)) (\<lambda>_. ensuring (start_update tk sv s q) release_accepting)))"

definition dispatch :: "tools \<Rightarrow> server \<Rightarrow> signed_request \<Rightarrow> (nat \<times> reply) script" where
  "dispatch tk sv q =
     (if sq_method q = ''GET'' \<and> sq_path q = ''/health'' then give (200, HealthReply)
      else if sq_path q \<noteq> ''/v1/status'' \<and> sq_path q \<noteq> ''/v1/update'' then give (404, ErrorReply ''Not found'')
      else if length (sq_body q) > max_body_bytes then throw ''Supervisor request body is too large''
      else andthen (check_signature sv q) (\<lambda>_.
        if sq_method q = ''GET'' \<and> sq_path q = ''/v1/status'' then andthen (load_state tk) (\<lambda>s. give (200, StateReply s))
        else if sq_method q \<noteq> ''POST'' \<or> sq_path q \<noteq> ''/v1/update'' then give (405, ErrorReply ''Method not allowed'')
        else update_request tk sv q))"

definition error_status :: "string \<Rightarrow> nat" where
  "error_status e = (if contains ''already running'' e then 409
     else if contains ''signature'' e \<or> contains ''timestamp'' e \<or> contains ''request id'' e \<or> contains ''shared secret'' e then 401
     else 400)"

definition handle :: "tools \<Rightarrow> server \<Rightarrow> signed_request \<Rightarrow> (nat \<times> reply) script" where
  "handle tk sv q = catching (dispatch tk sv q) (\<lambda>e. give (error_status e, ErrorReply (take 500 e)))"

section \<open>What a request may change\<close>

text \<open>The part of the machine that survives a restart, and what was run.\<close>

definition same_disk :: "machine \<Rightarrow> machine \<Rightarrow> bool" where
  "same_disk w w' = (mc_state w' = mc_state w \<and> mc_override w' = mc_override w \<and> mc_saved w' = mc_saved w \<and>
     mc_plans w' = mc_plans w \<and> mc_lock w' = mc_lock w \<and> mc_log w' = mc_log w \<and> mc_services w' = mc_services w)"

text \<open>The request of an update, admitted by its signature.\<close>

definition signed_update :: "server \<Rightarrow> signed_request \<Rightarrow> bool" where
  "signed_update sv q = (sq_method q = ''POST'' \<and> sq_path q = ''/v1/update'' \<and> length (sq_body q) \<le> max_body_bytes \<and>
     authenticate_request (sv_hmac sv) (sv_sha sv) (sv_secret sv) (sv_clock sv) q = None)"

definition repeated :: "supervisor_state \<Rightarrow> signed_request \<Rightarrow> bool" where
  "repeated s q = (\<exists>r. ss_operation s = Some r \<and> Some (uo_requestId r) = sq_requestId q)"

definition begin_update :: "tools \<Rightarrow> server \<Rightarrow> supervisor_state \<Rightarrow> signed_request \<Rightarrow> (nat \<times> reply) script" where
  "begin_update tk sv s q = andthen (note_down (\<lambda>w. w\<lparr>mc_accepting := True\<rparr>)) (\<lambda>_. ensuring (start_update tk sv s q) release_accepting)"

lemma andthen_throw: "andthen (throw e) f = throw e"
  by (simp add: andthen_def throw_def fun_eq_iff)

lemma andthen_give: "andthen (give x) f = f x"
  by (simp add: andthen_def give_def fun_eq_iff)

lemma update_request_run:
  assumes "mc_state w = Holds s" and "valid_state s"
  shows "update_request tk sv q w =
    (if repeated s q then (w, Done (200, OperationReply (the (ss_operation s))))
     else if busy w s then (w, Done (409, ErrorReply ''Another platform update is already running''))
     else begin_update tk sv s q w)"
  using assms by (auto simp: update_request_def begin_update_def andthen_def [of "load_state tk"] load_state_holds repeated_def look_def give_def
    split: option.splits)

lemma handle_signed:
  assumes "signed_update sv q"
  shows "handle tk sv q w = catching (update_request tk sv q) (\<lambda>e. give (error_status e, ErrorReply (take 500 e))) w"
  using assms by (simp add: handle_def dispatch_def signed_update_def check_signature_def andthen_def give_def catching_def)

lemma handle_other:
  assumes "mc_state w = Holds s" and "\<not> signed_update sv q"
  shows "fst (handle tk sv q w) = w"
  using assms by (auto simp: handle_def dispatch_def signed_update_def check_signature_def andthen_def give_def throw_def catching_def
    load_state_def look_def split: option.splits)

lemma handle_cases:
  assumes "mc_state w = Holds s"
  shows "fst (handle tk sv q w) = w \<or> signed_update sv q \<and> valid_state s \<and> \<not> repeated s q \<and> \<not> busy w s \<and>
    handle tk sv q w = catching (begin_update tk sv s q) (\<lambda>e. give (error_status e, ErrorReply (take 500 e))) w"
proof (cases "signed_update sv q \<and> valid_state s")
  case True
  then show ?thesis
    using assms by (auto simp: handle_signed update_request_run catching_def)
next
  case False
  show ?thesis
  proof (cases "signed_update sv q")
    case True
    with False assms show ?thesis
      by (simp add: handle_signed update_request_def load_state_def andthen_def look_def throw_def catching_def give_def)
  qed (use handle_other [OF assms] in blast)
qed

text \<open>C26: Only a signed \<open>POST /v1/update\<close> with a new request id, on an idle server whose recorded operation is not
  active, for a release that verifies against the installed version, changes what is on the disk or runs a command.\<close>

theorem only_signed_updates_change_the_platform:
  assumes "mc_state w = Holds s" and "handle tk sv q w = (w', r)" and "\<not> same_disk w w'"
  shows "signed_update sv q \<and> \<not> repeated s q \<and> \<not> busy w s \<and>
    (\<exists>release m. tl_parse tk (sq_body q) = Some release \<and> tl_verify tk release (ss_version s) = Inr m)"
proof -
  from handle_cases [OF assms(1), of tk sv q] assms(2,3)
  have h: "signed_update sv q" "\<not> repeated s q" "\<not> busy w s"
    "(w', r) = catching (begin_update tk sv s q) (\<lambda>e. give (error_status e, ErrorReply (take 500 e))) w"
    by (auto simp: same_disk_def)
  have "\<exists>release m. tl_parse tk (sq_body q) = Some release \<and> tl_verify tk release (ss_version s) = Inr m"
  proof (rule ccontr)
    assume "\<not> ?thesis"
    then obtain e where "start_update tk sv s q = throw e"
      by (cases "tl_parse tk (sq_body q)"; cases "tl_verify tk (the (tl_parse tk (sq_body q))) (ss_version s)")
        (auto simp: start_update_def checked_def andthen_throw)
    with h(4) have "w' = w\<lparr>mc_accepting := False\<rparr>"
      by (simp add: begin_update_def andthen_def note_down_def ensuring_def release_accepting_def throw_def catching_def give_def)
    with assms(3) show False by (simp add: same_disk_def)
  qed
  with h show ?thesis by blast
qed

section \<open>Accepting an update\<close>

lemma uuid_no_slash: "uuid_v4 i \<Longrightarrow> CHR ''/'' \<notin> set i"
proof
  assume u: "uuid_v4 i" and "CHR ''/'' \<in> set i"
  then obtain n where n: "n < length i" "i ! n = CHR ''/''" by (auto simp: in_set_conv_nth)
  have "(n, i ! n) \<in> set (enumerate 0 i)" using n(1) by (simp add: in_set_enumerate_eq)
  with u n have "uuid_char (n, CHR ''/'')" by (auto simp: uuid_v4_def list_all_iff)
  moreover have "\<not> is_hex (CHR ''/'')" "lower_char (CHR ''/'') = CHR ''/''" by code_simp+
  ultimately show False by (simp add: uuid_char_def split: if_splits)
qed

lemma named_plan: "uuid_v4 i \<Longrightarrow> named_operation (dir @ ''/update-'' @ i @ ''.json'') = Some i"
proof -
  assume u: "uuid_v4 i"
  have "base_name (dir @ ''/update-'' @ i @ ''.json'') = ''update-'' @ i @ ''.json''"
    unfolding base_name_def using split_on_last [of "CHR ''/''" "''update-'' @ i @ ''.json''" dir] uuid_no_slash [OF u] by simp
  moreover have "lower ''update-'' = ''update-''" "lower ''.json'' = ''.json''" by code_simp+
  moreover have "length i = 36" using u by (simp add: uuid_v4_def)
  ultimately show ?thesis using u by (simp add: named_operation_def Let_def)
qed

text \<open>A property that neither the power nor Docker can change.\<close>

definition settled :: "(machine \<Rightarrow> bool) \<Rightarrow> bool" where
  "settled P = (\<forall>w n log services. P w \<longrightarrow> P (w\<lparr>pw_left := n, mc_log := mc_log w @ log, mc_services := services\<rparr>))"

lemma triple_docker_settled:
  "settled P \<Longrightarrow> triple P (docker k args) (\<lambda>_. P) (\<lambda>_. P) P"
  by (rule triple_docker_any) (auto simp: settled_def)

lemma triple_docker_logged:
  assumes "settled P"
  shows "triple P (docker k args) (\<lambda>_ w. P w \<and> (args, True) \<in> set (mc_log w)) (\<lambda>_. P) P"
  by (rule triple_docker) (use assms in \<open>auto simp: settled_def split: option.splits\<close>)

lemma triple_runtime:
  assumes "settled P"
  shows "triple P (helper_runtime tk) (\<lambda>_. P) (\<lambda>_. P) P"
  unfolding helper_runtime_def Let_def
  by (rule triple_andthen [OF triple_docker_settled [OF assms]], rule triple_if, rule triple_throw, assumption,
    rule triple_andthen, rule triple_install_root, assumption, rule triple_give, assumption)

lemma triple_launch:
  assumes "settled P" and "uuid_v4 i" and "plan_path tk i = Inr path"
    and "\<And>w n. P w \<Longrightarrow> E (w\<lparr>pw_left := n, mc_plans := (mc_plans w)(path := None)\<rparr>)" and "\<And>w. P w \<Longrightarrow> E w"
  shows "triple P (launch_helper tk tag path)
    (\<lambda>_ w. P w \<and> (\<exists>h. (helper_args tk h tag i path, True) \<in> set (mc_log w))) (\<lambda>_. E) P"
proof -
  have n: "named_operation path = Some i"
    using named_plan [OF assms(2), of "tl_dir tk"] assms(2,3) by (auto simp: plan_path_def split: if_splits)
  have run: "triple P (catching (docker_quietly tk (helper_args tk h tag i path))
      (\<lambda>e. andthen (change (\<lambda>w. w\<lparr>mc_plans := (mc_plans w)(path := None)\<rparr>)) (\<lambda>_. throw e)))
      (\<lambda>_ w. P w \<and> (\<exists>h. (helper_args tk h tag i path, True) \<in> set (mc_log w))) (\<lambda>_. E) P" for h
  proof (rule triple_catching)
    show "triple P (docker_quietly tk (helper_args tk h tag i path))
        (\<lambda>_ w. P w \<and> (\<exists>h. (helper_args tk h tag i path, True) \<in> set (mc_log w))) (\<lambda>_. P) P"
      by (rule triple_docker_quietly, rule triple_conseq [OF triple_docker_logged [OF assms(1)]]) auto
  next
    fix e
    show "triple P (andthen (change (\<lambda>w. w\<lparr>mc_plans := (mc_plans w)(path := None)\<rparr>)) (\<lambda>_. throw e))
        (\<lambda>_ w. P w \<and> (\<exists>h. (helper_args tk h tag i path, True) \<in> set (mc_log w))) (\<lambda>_. E) P"
      by (rule triple_andthen [where R = "\<lambda>_. E"], rule triple_change) (use assms(4) in \<open>auto intro: triple_throw\<close>)
  qed
  show ?thesis
    unfolding launch_helper_def n option.case
    by (rule triple_andthen [OF _ run], rule triple_conseq [OF triple_runtime [OF assms(1)]]) (use assms(5) in auto)
qed

text \<open>What is on the disk while an update is being accepted, compared with the machine that received it.\<close>

definition others_kept :: "machine \<Rightarrow> machine \<Rightarrow> bool" where
  "others_kept w w' = (mc_override w' = mc_override w \<and> mc_saved w' = mc_saved w \<and> mc_lock w' = mc_lock w)"

definition accepting_update :: "machine \<Rightarrow> supervisor_state \<Rightarrow> update_operation \<Rightarrow> string \<Rightarrow> plan_file option \<Rightarrow> machine \<Rightarrow> bool" where
  "accepting_update w s r path f w' = (others_kept w w' \<and> mc_state w' = Holds (s\<lparr>ss_operation := Some r\<rparr>) \<and>
     mc_plans w' = (mc_plans w)(path := f))"

definition stored_plan :: "tools \<Rightarrow> string \<Rightarrow> json \<Rightarrow> plan_file" where
  "stored_plan tk i release = (let x = \<lparr>up_schema = 1, up_operationId = i, up_release = release, up_createdAt = tl_now tk\<rparr> in
     \<lparr>pl_private = True, pl_size = tl_size tk x, pl_plan = Some x\<rparr>)"

text \<open>Nothing happened, or the operation is recorded as failed.\<close>

definition not_accepted :: "tools \<Rightarrow> machine \<Rightarrow> supervisor_state \<Rightarrow> string \<Rightarrow> machine \<Rightarrow> bool" where
  "not_accepted tk w s path w' = (others_kept w w' \<and> (\<forall>p. p \<noteq> path \<longrightarrow> mc_plans w' p = mc_plans w p) \<and>
     (mc_state w' = Holds s \<or> (\<exists>e r. mc_state w' = Holds (s\<lparr>ss_operation := Some (launch_failed tk e r)\<rparr>))))"

lemma accepted_simps [simp]:
  "uo_id (accepted_operation tk i v v') = tl_uuid tk" "uo_requestId (accepted_operation tk i v v') = i"
  "uo_status (accepted_operation tk i v v') = UsAccepted"
  by (simp_all add: accepted_operation_def)

lemma settled_accepting: "settled (accepting_update w s r path f)"
  by (simp add: settled_def accepting_update_def others_kept_def)

lemma triple_start:
  assumes "plan_path tk (tl_uuid tk) = Inr path" and "mc_plans w0 path = None"
  shows "triple (\<lambda>w. others_kept w0 w \<and> mc_state w = Holds s \<and> mc_plans w = mc_plans w0) (start_update tk sv s q)
    (\<lambda>a w. \<exists>release m r. a = (202, OperationReply r) \<and> tl_parse tk (sq_body q) = Some release \<and> tl_verify tk release (ss_version s) = Inr m \<and>
       r = accepted_operation tk (the (sq_requestId q)) (ss_version s) (rm_version m) \<and>
       accepting_update w0 s r path (Some (stored_plan tk (tl_uuid tk) release)) w \<and>
       (\<exists>h. (helper_args tk h (sv_tag sv) (tl_uuid tk) path, True) \<in> set (mc_log w)))
    (\<lambda>_. not_accepted tk w0 s path) (\<lambda>_. True)"
proof -
  let ?i = "tl_uuid tk" and ?P = "\<lambda>w. others_kept w0 w \<and> mc_state w = Holds s \<and> mc_plans w = mc_plans w0"
  let ?op = "\<lambda>m. accepted_operation tk (the (sq_requestId q)) (ss_version s) (rm_version m)"
  let ?A = "\<lambda>m f. accepting_update w0 s (?op m) path f"
  let ?L = "\<lambda>w. \<exists>h. (helper_args tk h (sv_tag sv) ?i path, True) \<in> set (mc_log w)"
  let ?E = "\<lambda>_ :: string. not_accepted tk w0 s path"
  have u: "uuid_v4 ?i" using assms(1) by (simp add: plan_path_def split: if_splits)
  have failed: "?A m f w \<Longrightarrow> not_accepted tk w0 s path (w\<lparr>pw_left := n, mc_state := Holds (s\<lparr>ss_operation := Some (launch_failed tk e r)\<rparr>)\<rparr>)"
    for m f w n e r
    by (auto simp: accepting_update_def not_accepted_def others_kept_def)
  have save: "triple ?P (save_state (s\<lparr>ss_operation := Some (?op m)\<rparr>)) (\<lambda>_. ?A m None) ?E (\<lambda>_. True)" for m
    by (rule triple_save) (use assms(2) in \<open>auto simp: accepting_update_def others_kept_def fun_upd_idem\<close>)
  have plan: "triple (?A m None) (write_plan tk ?i release)
      (\<lambda>p w. ?A m (Some (stored_plan tk ?i release)) w \<and> p = path) ?E (\<lambda>_. True)" for m release
    unfolding write_plan_def assms(1) checked_def sum.case
    by (rule triple_andthen [where R = "\<lambda>p w. ?A m None w \<and> p = path"], rule triple_give, simp)
      (auto simp: triple_def andthen_def effect_def spend_def give_def ends_def Let_def accepting_update_def others_kept_def stored_plan_def steady_def
        split: option.splits nat.splits)
  have launch: "triple (?A m f) (catching (launch_helper tk (sv_tag sv) path)
      (\<lambda>e. andthen (save_state (s\<lparr>ss_operation := Some (launch_failed tk e (?op m))\<rparr>)) (\<lambda>_. throw e)))
      (\<lambda>_ w. ?A m f w \<and> ?L w) ?E (\<lambda>_. True)" for m f
  proof (rule triple_catching [where R = "\<lambda>_ w. \<exists>f. ?A m f w"])
    show "triple (?A m f) (launch_helper tk (sv_tag sv) path) (\<lambda>_ w. ?A m f w \<and> ?L w) (\<lambda>_ w. \<exists>f. ?A m f w) (\<lambda>_. True)"
      by (rule triple_conseq [OF triple_launch [OF settled_accepting u assms(1), where E = "\<lambda>w. \<exists>f. ?A m f w"]])
        (auto simp: accepting_update_def others_kept_def)
  next
    fix e
    show "triple (\<lambda>w. \<exists>f. ?A m f w) (andthen (save_state (s\<lparr>ss_operation := Some (launch_failed tk e (?op m))\<rparr>)) (\<lambda>_. throw e))
        (\<lambda>_ w. ?A m f w \<and> ?L w) ?E (\<lambda>_. True)"
      by (rule triple_andthen [where R = "\<lambda>_. not_accepted tk w0 s path"], rule triple_save) (auto intro: triple_throw failed)
  qed
  show ?thesis
  proof (cases "tl_parse tk (sq_body q)")
    case None
    show ?thesis unfolding start_update_def None option.case by (rule triple_throw) (simp add: not_accepted_def)
  next
    case (Some release)
    let ?Q = "\<lambda>(a :: nat \<times> reply) w. \<exists>release m r. a = (202, OperationReply r) \<and> tl_parse tk (sq_body q) = Some release \<and>
       tl_verify tk release (ss_version s) = Inr m \<and> r = ?op m \<and>
       accepting_update w0 s r path (Some (stored_plan tk ?i release)) w \<and> ?L w"
    have "triple ?P (andthen (save_state (s\<lparr>ss_operation := Some (?op m)\<rparr>)) (\<lambda>_. andthen (write_plan tk ?i release) (\<lambda>path.
        andthen (catching (launch_helper tk (sv_tag sv) path)
          (\<lambda>e. andthen (save_state (s\<lparr>ss_operation := Some (launch_failed tk e (?op m))\<rparr>)) (\<lambda>_. throw e)))
        (\<lambda>_. give (202, OperationReply (?op m)))))) ?Q ?E (\<lambda>_. True)" if v: "tl_verify tk release (ss_version s) = Inr m" for m
    proof (rule triple_andthen [OF save triple_andthen [OF plan]])
      fix p
      have "triple (?A m (Some (stored_plan tk ?i release))) (andthen (catching (launch_helper tk (sv_tag sv) path)
          (\<lambda>e. andthen (save_state (s\<lparr>ss_operation := Some (launch_failed tk e (?op m))\<rparr>)) (\<lambda>_. throw e)))
        (\<lambda>_. give (202, OperationReply (?op m)))) ?Q ?E (\<lambda>_. True)"
        by (rule triple_andthen [OF launch], rule triple_give) (use Some v in blast)
      then show "triple (\<lambda>w. ?A m (Some (stored_plan tk ?i release)) w \<and> p = path) (andthen (catching (launch_helper tk (sv_tag sv) p)
          (\<lambda>e. andthen (save_state (s\<lparr>ss_operation := Some (launch_failed tk e (?op m))\<rparr>)) (\<lambda>_. throw e)))
        (\<lambda>_. give (202, OperationReply (?op m)))) ?Q ?E (\<lambda>_. True)"
        by (cases "p = path") (simp_all add: triple_def)
    qed
    moreover have "triple ?P (throw e) ?Q ?E (\<lambda>_. True)" for e by (rule triple_throw) (simp add: not_accepted_def)
    ultimately show ?thesis
      unfolding start_update_def Some option.case checked_def
      by (cases "tl_verify tk release (ss_version s)") (simp_all add: andthen_throw andthen_give Let_def)
  qed
qed

lemma update_ends:
  assumes "mc_state w = Holds s" and "plan_path tk (tl_uuid tk) = Inr path" and "mc_plans w path = None"
  shows "ends (catching (begin_update tk sv s q) (\<lambda>e. give (error_status e, ErrorReply (take 500 e))) w) (steady w)
    (\<lambda>a w'. \<not> mc_accepting w' \<and> ((\<exists>release m r. a = (202, OperationReply r) \<and> tl_parse tk (sq_body q) = Some release \<and>
        tl_verify tk release (ss_version s) = Inr m \<and> r = accepted_operation tk (the (sq_requestId q)) (ss_version s) (rm_version m) \<and>
        accepting_update w s r path (Some (stored_plan tk (tl_uuid tk) release)) w' \<and>
        (\<exists>h. (helper_args tk h (sv_tag sv) (tl_uuid tk) path, True) \<in> set (mc_log w'))) \<or>
      (\<exists>e. a = (error_status e, ErrorReply (take 500 e))) \<and> not_accepted tk w s path w')) (\<lambda>_ _. False) (\<lambda>_. True)"
    (is "ends _ _ (\<lambda>a w'. \<not> mc_accepting w' \<and> (?Q a w' \<or> ?F a w')) _ _")
proof -
  let ?P = "\<lambda>w'. others_kept w w' \<and> mc_state w' = Holds s \<and> mc_plans w' = mc_plans w"
  let ?E = "\<lambda>_ :: string. not_accepted tk w s path"
  have set: "triple ?P (note_down (\<lambda>w. w\<lparr>mc_accepting := True\<rparr>)) (\<lambda>_. ?P) E K" for E K
    by (rule triple_note_down) (simp add: others_kept_def steady_def)
  have release: "triple (?Q a) release_accepting (\<lambda>_ w'. \<not> mc_accepting w' \<and> ?Q a w') E K" for a E K
    unfolding release_accepting_def by (rule triple_note_down) (auto simp: accepting_update_def others_kept_def steady_def)
  have release': "triple (?E e) release_accepting (\<lambda>_ w'. \<not> mc_accepting w' \<and> ?E e w') E K" for e E K
    unfolding release_accepting_def by (rule triple_note_down) (auto simp: not_accepted_def others_kept_def steady_def)
  have "triple ?P (begin_update tk sv s q) (\<lambda>a w'. \<not> mc_accepting w' \<and> ?Q a w') (\<lambda>e w'. \<not> mc_accepting w' \<and> ?E e w') (\<lambda>_. True)"
    unfolding begin_update_def
    by (rule triple_andthen [OF set triple_ensuring [OF triple_start [OF assms(2,3)] release release']])
  then have "triple ?P (catching (begin_update tk sv s q) (\<lambda>e. give (error_status e, ErrorReply (take 500 e))))
      (\<lambda>a w'. \<not> mc_accepting w' \<and> (?Q a w' \<or> ?F a w')) (\<lambda>_ _. False) (\<lambda>_. True)"
    by (intro triple_catching [where R = "\<lambda>e w'. \<not> mc_accepting w' \<and> ?E e w'"] triple_give) (erule triple_conseq, auto)
  then show ?thesis by (rule tripleD) (simp add: others_kept_def assms(1))
qed

lemma handle_ends:
  assumes "mc_state w = Holds s" and "plan_path tk (tl_uuid tk) = Inr path" and "mc_plans w path = None"
    and "handle tk sv q w = (w', Done (st, rep))"
  shows "w' = w \<and> st \<noteq> 202 \<or> signed_update sv q \<and> valid_state s \<and> \<not> mc_accepting w' \<and>
    ((\<exists>release m r. st = 202 \<and> rep = OperationReply r \<and> tl_parse tk (sq_body q) = Some release \<and>
        tl_verify tk release (ss_version s) = Inr m \<and> r = accepted_operation tk (the (sq_requestId q)) (ss_version s) (rm_version m) \<and>
        accepting_update w s r path (Some (stored_plan tk (tl_uuid tk) release)) w' \<and>
        (\<exists>h. (helper_args tk h (sv_tag sv) (tl_uuid tk) path, True) \<in> set (mc_log w'))) \<or>
     st \<noteq> 202 \<and> not_accepted tk w s path w')"
proof -
  have st: "error_status e \<noteq> 202" for e by (simp add: error_status_def)
  have quiet: "st \<noteq> 202" if "w' = w" "handle tk sv q w = (w, Done (st, rep))" "signed_update sv q \<longrightarrow> valid_state s \<longrightarrow> repeated s q \<or> busy w s"
  proof (cases "signed_update sv q \<and> valid_state s")
    case True
    with that(3) have "repeated s q \<or> busy w s" by blast
    with True that(2) show ?thesis
      by (auto simp: handle_signed update_request_run [OF assms(1)] catching_def split: if_splits)
  next
    case False
    then show ?thesis
      using that(2) assms(1) st by (auto simp: handle_def dispatch_def signed_update_def check_signature_def update_request_def andthen_def give_def
        throw_def catching_def load_state_def look_def split: option.splits if_splits)
  qed
  show ?thesis
  proof (cases "signed_update sv q \<and> valid_state s \<and> \<not> repeated s q \<and> \<not> busy w s")
    case True
    then have "handle tk sv q w = catching (begin_update tk sv s q) (\<lambda>e. give (error_status e, ErrorReply (take 500 e))) w"
      by (auto simp: handle_signed update_request_run [OF assms(1)] catching_def)
    with update_ends [OF assms(1-3), of sv q] True assms(4) st show ?thesis by auto
  next
    case False
    with handle_cases [OF assms(1), of tk sv q] assms(4) have "w' = w" by auto
    with quiet False assms(4) show ?thesis by blast
  qed
qed

text \<open>The answer 202 means: the release verified, the accepted operation is the recorded one, its plan is in the
  state directory, and the container that applies it was started for exactly this plan.\<close>

theorem accepted_update_is_recorded_and_launched:
  assumes "mc_state w = Holds s" and "plan_path tk (tl_uuid tk) = Inr path" and "mc_plans w path = None"
    and "handle tk sv q w = (w', Done (202, rep))"
  shows "\<exists>release m r h. rep = OperationReply r \<and> tl_parse tk (sq_body q) = Some release \<and> tl_verify tk release (ss_version s) = Inr m \<and>
    uo_toVersion r = rm_version m \<and> uo_status r = UsAccepted \<and> mc_state w' = Holds (s\<lparr>ss_operation := Some r\<rparr>) \<and>
    mc_plans w' path = Some (stored_plan tk (uo_id r) release) \<and>
    (helper_args tk h (sv_tag sv) (uo_id r) path, True) \<in> set (mc_log w')"
proof -
  from handle_ends [OF assms] obtain release m r h where "rep = OperationReply r" "tl_parse tk (sq_body q) = Some release"
    "tl_verify tk release (ss_version s) = Inr m" "r = accepted_operation tk (the (sq_requestId q)) (ss_version s) (rm_version m)"
    "accepting_update w s r path (Some (stored_plan tk (tl_uuid tk) release)) w'"
    "(helper_args tk h (sv_tag sv) (tl_uuid tk) path, True) \<in> set (mc_log w')" by auto
  then show ?thesis
    by (intro exI [of _ release] exI [of _ m] exI [of _ r] exI [of _ h]) (simp add: accepting_update_def, simp add: accepted_operation_def)
qed

text \<open>Any other answer leaves the recorded state as it was or with an operation that is recorded as failed - never
  with an operation that nobody works on - and touches no other plan, descriptor or lock.\<close>

theorem refused_update_leaves_nothing_active:
  assumes "mc_state w = Holds s" and "plan_path tk (tl_uuid tk) = Inr path" and "mc_plans w path = None"
    and "handle tk sv q w = (w', Done (st, rep))" and "st \<noteq> 202"
  shows "others_kept w w' \<and> (\<forall>p. p \<noteq> path \<longrightarrow> mc_plans w' p = mc_plans w p) \<and>
    (mc_state w' = mc_state w \<or>
     (\<exists>s' r. mc_state w' = Holds s' \<and> ss_operation s' = Some r \<and> \<not> active_status (uo_status r) \<and> ss_version s' = ss_version s \<and>
        ss_images s' = ss_images s))"
proof -
  from handle_ends [OF assms(1-4)] assms(5) have "w' = w \<or> not_accepted tk w s path w'" by auto
  then show ?thesis
    by (auto simp: not_accepted_def others_kept_def assms(1) launch_failed_def active_status_def)
qed

text \<open>Once an update is accepted, every further signed update request is answered without any effect: the same
  request id gets the accepted operation again, any other one gets a conflict.\<close>

theorem accepted_update_is_exclusive:
  assumes "mc_state w = Holds s" and "plan_path tk (tl_uuid tk) = Inr path" and "mc_plans w path = None"
    and "handle tk sv q w = (w1, Done (202, OperationReply r))" and "signed_update sv' q'"
  shows "handle tk' sv' q' w1 = (w1, Done (if sq_requestId q' = sq_requestId q then (200, OperationReply r)
    else (409, ErrorReply ''Another platform update is already running'')))"
proof -
  from handle_ends [OF assms(1-4)] have q: "signed_update sv q" "valid_state s" and idle: "\<not> mc_accepting w1"
    and st: "mc_state w1 = Holds (s\<lparr>ss_operation := Some r\<rparr>)" and r: "uo_requestId r = the (sq_requestId q)" "uo_status r = UsAccepted"
    by (auto simp: accepting_update_def)
  have i: "sq_requestId q = Some (the (sq_requestId q))"
    using q(1) by (auto simp: signed_update_def authenticate_request_def split: option.splits if_splits)
  have v: "valid_state (s\<lparr>ss_operation := Some r\<rparr>)" using q(2) by (simp add: valid_state_def)
  have "repeated (s\<lparr>ss_operation := Some r\<rparr>) q' \<longleftrightarrow> sq_requestId q' = sq_requestId q"
    using i r(1) by (auto simp: repeated_def)
  then show ?thesis
    unfolding handle_signed [OF assms(5)] catching_def update_request_run [OF st v]
    using r(2) by (simp add: busy_def active_status_def)
qed

section \<open>Witnesses\<close>

definition server_digest :: string where "server_digest = ''sha256:'' @ replicate 64 (CHR ''a'')"

definition server_tools :: tools where
  "server_tools = sample_tools\<lparr>tl_parse := (\<lambda>_. Some JNull),
     tl_docker := (\<lambda>_ _. \<lparr>dr_error = None, dr_stdout = server_digest, dr_started = []\<rparr>)\<rparr>"

definition sample_server :: server where
  "sample_server = \<lparr>sv_hmac = (\<lambda>_ _. replicate 64 (CHR ''a'')), sv_sha = (\<lambda>x. x), sv_secret = replicate 32 (CHR ''s''),
     sv_clock = 1700000030000, sv_tag = ''12345678''\<rparr>"

definition idle_machine :: machine where
  "idle_machine = sample_machine\<lparr>mc_state := Holds (sample_state\<lparr>ss_operation := None\<rparr>), mc_plans := (\<lambda>_. None)\<rparr>"

lemma sample_signed: "signed_update sample_server signed_sample"
  using sample_authenticated by (simp add: signed_update_def sample_server_def) (simp add: signed_sample_def max_body_bytes_def)

lemma server_fields [simp]:
  "tl_docker server_tools n args = \<lparr>dr_error = None, dr_stdout = server_digest, dr_started = []\<rparr>" "tl_uuid server_tools = sample_id"
  "tl_parse server_tools b = Some JNull" "tl_verify server_tools j v = Inr sample_target" "plan_path server_tools sample_id = Inr sample_plan"
  "install_root server_tools = give ''/i''"
  by (simp_all add: server_tools_def plan_path_def install_root_def sample_uuid sample_plan_def line_feed_def)
    (simp_all add: sample_tools_def line_feed_def)

lemma server_digest_facts: "trim server_digest = server_digest" "image_id server_digest" "split_on (CHR 0x0A) server_digest = [server_digest]"
proof -
  have b: "\<not> is_blank (CHR ''s'')" "\<not> is_blank (CHR ''a'')" by code_simp+
  have "replicate 64 (CHR ''a'') = CHR ''a'' # replicate 63 (CHR ''a'')" using replicate_Suc [of 63 "CHR ''a''"] by simp
  then show "trim server_digest = server_digest" using b by (simp add: trim_def server_digest_def)
  show "image_id server_digest" by (simp add: image_id_def hex_digits_def list_all_iff server_digest_def)
  show "split_on (CHR 0x0A) server_digest = [server_digest]" by (rule split_on_none) (simp add: server_digest_def)
qed

lemma sample_runtime: "pw_left w = None \<Longrightarrow>
   \<exists>h log services. helper_runtime server_tools w = (w\<lparr>mc_log := log, mc_services := services\<rparr>, Done h)"
  using server_digest_facts
  by (simp add: helper_runtime_def andthen_def docker_def effect_def spend_def Let_def give_def) blast

lemma sample_accepted_update:
  "\<exists>w' r. handle server_tools sample_server signed_sample idle_machine = (w', Done (202, OperationReply r))"
proof -
  have st: "mc_state idle_machine = Holds (sample_state\<lparr>ss_operation := None\<rparr>)" "valid_state (sample_state\<lparr>ss_operation := None\<rparr>)"
    by (simp_all add: idle_machine_def valid_state_def sample_state_def sample_version)
  have n: "named_operation sample_plan = Some sample_id"
    unfolding sample_plan_def using named_plan [OF sample_uuid, of "''/s''"] by simp
  have d: "docker_quietly server_tools args v = (v\<lparr>mc_log := mc_log v @ [(args, True)],
      mc_services := started_services server_tools args (tl_docker server_tools 0 args) v\<rparr>, Done ())" if "pw_left v = None" for args v
    using that by (simp add: docker_quietly_def andthen_def docker_def effect_def spend_def Let_def give_def started_services_def fun_eq_iff)
  have launch: "launch_helper server_tools t sample_plan v = (fst (launch_helper server_tools t sample_plan v), Done ())"
    if v: "pw_left v = None" for t v
    using sample_runtime [OF v] v by (auto simp: launch_helper_def andthen_def n catching_def d)
  then obtain L where launch: "\<And>t v. pw_left v = None \<Longrightarrow> launch_helper server_tools t sample_plan v = (L t v, Done ())"
    using that [of "\<lambda>t v. fst (launch_helper server_tools t sample_plan v)"] by blast
  have "\<exists>v r. start_update server_tools sample_server (sample_state\<lparr>ss_operation := None\<rparr>) signed_sample
      (idle_machine\<lparr>mc_accepting := True\<rparr>) = (v, Done (202, OperationReply r))"
    by (simp add: start_update_def checked_def andthen_def give_def Let_def save_state_def change_def effect_def spend_def write_plan_def
        idle_machine_def catching_def launch)
  moreover have "\<not> repeated (sample_state\<lparr>ss_operation := None\<rparr>) signed_sample" "\<not> busy idle_machine (sample_state\<lparr>ss_operation := None\<rparr>)"
    by (simp_all add: repeated_def busy_def idle_machine_def sample_machine_def)
  ultimately show ?thesis
    unfolding handle_signed [OF sample_signed] update_request_run [OF st] catching_def
    by (auto simp: begin_update_def andthen_def note_down_def ensuring_def release_accepting_def give_def)
qed

lemma idle_facts: "mc_state idle_machine = Holds (sample_state\<lparr>ss_operation := None\<rparr>)"
  "plan_path server_tools (tl_uuid server_tools) = Inr sample_plan" "mc_plans idle_machine sample_plan = None"
  by (simp_all add: idle_machine_def)

theorem only_signed_updates_change_the_platform_witness:
  "\<exists>w' r. handle server_tools sample_server signed_sample idle_machine = (w', r) \<and> \<not> same_disk idle_machine w' \<and>
     signed_update sample_server signed_sample"
proof -
  obtain w' r where h: "handle server_tools sample_server signed_sample idle_machine = (w', Done (202, OperationReply r))"
    using sample_accepted_update by blast
  with handle_ends [OF idle_facts h] have "mc_state w' \<noteq> mc_state idle_machine"
    by (auto simp: accepting_update_def idle_machine_def sample_state_def)
  then have "\<not> same_disk idle_machine w'" by (simp add: same_disk_def)
  with only_signed_updates_change_the_platform [OF idle_facts(1) h this] h show ?thesis by blast
qed

theorem accepted_update_is_recorded_and_launched_witness:
  "\<exists>w' r. handle server_tools sample_server signed_sample idle_machine = (w', Done (202, OperationReply r)) \<and>
     mc_state w' = Holds (sample_state\<lparr>ss_operation := Some r\<rparr>)"
proof -
  obtain w' r where h: "handle server_tools sample_server signed_sample idle_machine = (w', Done (202, OperationReply r))"
    using sample_accepted_update by blast
  from accepted_update_is_recorded_and_launched [OF idle_facts h] h show ?thesis by auto
qed

text \<open>A request with a body that is no JSON.\<close>

theorem refused_update_leaves_nothing_active_witness:
  "\<exists>w' st rep. handle (server_tools\<lparr>tl_parse := (\<lambda>_. None)\<rparr>) sample_server signed_sample idle_machine = (w', Done (st, rep)) \<and>
     others_kept idle_machine w'"
proof -
  let ?k = "server_tools\<lparr>tl_parse := (\<lambda>_. None)\<rparr>"
  have st: "valid_state (sample_state\<lparr>ss_operation := None\<rparr>)" by (simp add: valid_state_def sample_state_def sample_version)
  have p: "plan_path ?k (tl_uuid ?k) = Inr sample_plan" by (simp add: plan_path_def server_tools_def sample_plan_def) (simp add: sample_tools_def sample_uuid)
  have h: "handle ?k sample_server signed_sample idle_machine =
      (idle_machine\<lparr>mc_accepting := False\<rparr>, Done (400, ErrorReply ''Platform update request is not valid JSON''))"
    unfolding handle_signed [OF sample_signed] catching_def update_request_run [OF idle_facts(1) st]
    by (simp add: repeated_def busy_def idle_machine_def sample_machine_def begin_update_def andthen_def note_down_def ensuring_def
      start_update_def throw_def release_accepting_def give_def error_status_def)
  from refused_update_leaves_nothing_active [OF idle_facts(1) p idle_facts(3) h] h show ?thesis by auto
qed

theorem accepted_update_is_exclusive_witness:
  "\<exists>w1 r. handle server_tools sample_server signed_sample idle_machine = (w1, Done (202, OperationReply r)) \<and>
     handle server_tools sample_server signed_sample w1 = (w1, Done (200, OperationReply r))"
proof -
  obtain w' r where h: "handle server_tools sample_server signed_sample idle_machine = (w', Done (202, OperationReply r))"
    using sample_accepted_update by blast
  from accepted_update_is_exclusive [OF idle_facts h sample_signed, of server_tools] h show ?thesis by auto
qed

end
