(* ===== verification/NetworkPolicy.thy ===== *)
theory NetworkPolicy
  imports GatewayHosts "HOL-Library.Word"
begin

text \<open>
  Where the hosted platform may connect to (\<open>common/outbound-network-policy.ts\<close>) and the networks whose
  addresses many people share (\<open>auth/shared-networks.ts\<close>).

  An address is a 32 or 128 bit word. \<open>parse_v4\<close> and \<open>parse_v6\<close> are \<open>isIP\<close> of Node, \<open>in_network\<close> the
  membership test of its \<open>BlockList\<close>, which compares an IPv4 address with the IPv4-mapped part of an IPv6
  network and the other way round. Zone identifiers (\<open>fe80::1%eth0\<close>) are no addresses here: the policy
  refuses every string with a percent sign. The resolver and the socket are parameters.
\<close>

section \<open>Addresses\<close>

datatype ip = V4 "32 word" | V6 "128 word"

definition octet :: "string \<Rightarrow> nat option" where
  "octet s = (if s \<noteq> [] \<and> length s \<le> 3 \<and> list_all is_digit s \<and> (hd s = CHR ''0'' \<longrightarrow> length s = 1) \<and> digits_value s \<le> 255
     then Some (digits_value s) else None)"

definition v4_value :: "nat \<Rightarrow> nat \<Rightarrow> nat \<Rightarrow> nat \<Rightarrow> nat" where
  "v4_value a b c d = ((a * 256 + b) * 256 + c) * 256 + d"

definition parse_v4 :: "string \<Rightarrow> 32 word option" where
  "parse_v4 s = (case map octet (split_on (CHR ''.'') s) of
      [Some a, Some b, Some c, Some d] \<Rightarrow> Some (of_nat (v4_value a b c d)) | _ \<Rightarrow> None)"

definition hex_digit :: "char \<Rightarrow> nat" where
  "hex_digit c = (if is_digit c then of_char c - 48 else of_char (lower_char c) - 87)"

definition group :: "string \<Rightarrow> nat option" where
  "group g = (if g \<noteq> [] \<and> length g \<le> 4 \<and> list_all is_hex g then Some (foldl (\<lambda>n c. 16 * n + hex_digit c) 0 g) else None)"

text \<open>Groups between colons; the last one may be an IPv4 address.\<close>

fun groups :: "string list \<Rightarrow> nat list option" where
  "groups [] = Some []"
| "groups [g] = (case group g of
      Some n \<Rightarrow> Some [n]
    | None \<Rightarrow> (case parse_v4 g of Some a \<Rightarrow> Some [unat a div 65536, unat a mod 65536] | None \<Rightarrow> None))"
| "groups (g # gs) = (case (group g, groups gs) of (Some n, Some ns) \<Rightarrow> Some (n # ns) | _ \<Rightarrow> None)"

fun cut_double :: "string \<Rightarrow> (string \<times> string) option" where
  "cut_double (a # b # s) = (if a = CHR '':'' \<and> b = CHR '':'' then Some ([], s)
     else map_option (\<lambda>(l, r). (a # l, r)) (cut_double (b # s)))"
| "cut_double _ = None"

definition pieces :: "string \<Rightarrow> string list" where
  "pieces s = (if s = [] then [] else split_on (CHR '':'') s)"

definition v6_value :: "nat list \<Rightarrow> nat" where
  "v6_value gs = foldl (\<lambda>n g. 65536 * n + g) 0 gs"

definition parse_v6 :: "string \<Rightarrow> 128 word option" where
  "parse_v6 s = (case cut_double s of
      None \<Rightarrow> (case groups (split_on (CHR '':'') s) of
          Some gs \<Rightarrow> if length gs = 8 then Some (of_nat (v6_value gs)) else None | None \<Rightarrow> None)
    | Some (l, r) \<Rightarrow> (case (those (map group (pieces l)), groups (pieces r)) of
          (Some a, Some b) \<Rightarrow> if length a + length b \<le> 7
            then Some (of_nat (v6_value (a @ replicate (8 - length a - length b) 0 @ b))) else None
        | _ \<Rightarrow> None))"

definition parse_ip :: "string \<Rightarrow> ip option" where
  "parse_ip s = (case parse_v4 s of Some a \<Rightarrow> Some (V4 a) | None \<Rightarrow> map_option V6 (parse_v6 s))"

definition is_ip :: "string \<Rightarrow> nat" where
  "is_ip s = (case parse_ip s of None \<Rightarrow> 0 | Some (V4 _) \<Rightarrow> 4 | Some (V6 _) \<Rightarrow> 6)"

section \<open>Networks\<close>

definition same_prefix :: "nat \<Rightarrow> 'a::len word \<Rightarrow> 'a word \<Rightarrow> bool" where
  "same_prefix p a n = (drop_bit (LENGTH('a) - p) a = drop_bit (LENGTH('a) - p) n)"

definition mapped :: "32 word \<Rightarrow> 128 word" where
  "mapped a = of_nat (65535 * 2 ^ 32 + unat a)"

type_synonym network = "ip \<times> nat"

fun in_network :: "ip \<Rightarrow> network \<Rightarrow> bool" where
  "in_network (V4 a) (V4 n, p) = same_prefix p a n"
| "in_network (V6 a) (V6 n, p) = same_prefix p a n"
| "in_network (V4 a) (V6 n, p) = same_prefix p (mapped a) n"
| "in_network (V6 a) (V4 n, p) = (drop_bit 32 a = 65535 \<and> same_prefix p (ucast a) n)"

definition block_list :: "(string \<times> nat) list \<Rightarrow> network list" where
  "block_list ns = List.map_filter (\<lambda>(s, p). map_option (\<lambda>n. (n, p)) (parse_ip s)) ns"

definition listed :: "network list \<Rightarrow> ip \<Rightarrow> bool" where
  "listed ns a = list_ex (in_network a) ns"

definition non_public_v4 :: "(string \<times> nat) list" where
  "non_public_v4 = [(''0.0.0.0'', 8), (''10.0.0.0'', 8), (''100.64.0.0'', 10), (''127.0.0.0'', 8), (''169.254.0.0'', 16),
     (''172.16.0.0'', 12), (''192.0.0.0'', 24), (''192.0.2.0'', 24), (''192.88.99.0'', 24), (''192.168.0.0'', 16),
     (''198.18.0.0'', 15), (''198.51.100.0'', 24), (''203.0.113.0'', 24), (''224.0.0.0'', 4), (''240.0.0.0'', 4)]"

definition non_public_v6 :: "(string \<times> nat) list" where
  "non_public_v6 = [(''::'', 96), (''::ffff:0:0'', 96), (''64:ff9b::'', 96), (''64:ff9b:1::'', 48), (''100::'', 64), (''2001::'', 23),
     (''2001:db8::'', 32), (''2002::'', 16), (''3fff::'', 20), (''5f00::'', 16), (''fc00::'', 7), (''fe80::'', 10), (''fec0::'', 10),
     (''ff00::'', 8)]"

definition normalized_hostname :: "string \<Rightarrow> string" where
  "normalized_hostname h = (let s = lower (trim h); t = (if s \<noteq> [] \<and> hd s = CHR ''['' then tl s else s) in
     if t \<noteq> [] \<and> last t = CHR '']'' then butlast t else t)"

definition is_public_internet_address :: "string \<Rightarrow> bool" where
  "is_public_internet_address raw = (let address = normalized_hostname raw in
     if CHR ''%'' \<in> set address then False
     else (case parse_ip address of
         None \<Rightarrow> False
       | Some (V4 a) \<Rightarrow> \<not> listed (block_list non_public_v4) (V4 a)
       | Some (V6 a) \<Rightarrow> \<not> listed (block_list non_public_v6) (V6 a)))"

section \<open>Resolving and connecting\<close>

record resolved_address =
  ra_address :: string
  ra_family :: nat

datatype resolver_answer = Answers "resolved_address list" | TimedOut | LookupFailed

definition unsafe_destination :: string where
  "unsafe_destination = ''Outbound destination is not allowed by the hosted network policy''"

definition resolve_public_internet_host :: "(string \<Rightarrow> resolver_answer) \<Rightarrow> string \<Rightarrow> string + resolved_address" where
  "resolve_public_internet_host resolver raw =
     (let hostname = normalized_hostname raw;
          answer = (if is_ip hostname \<noteq> 0 then Answers [\<lparr>ra_address = hostname, ra_family = is_ip hostname\<rparr>] else resolver hostname) in
      case answer of
        TimedOut \<Rightarrow> Inl ''Outbound DNS lookup timed out''
      | LookupFailed \<Rightarrow> Inl ''Outbound hostname could not be resolved''
      | Answers as \<Rightarrow>
          if as = [] \<or> list_ex (\<lambda>a. ra_family a \<noteq> is_ip (ra_address a) \<or> \<not> is_public_internet_address (ra_address a)) as
          then Inl unsafe_destination else Inr (hd as))"

record probe =
  pr_protocol :: string
  pr_hostname :: string
  pr_family :: nat
  pr_port :: "string option"
  pr_path :: string
  pr_host :: string
  pr_servername :: "string option"

definition url_host :: "url \<Rightarrow> string" where
  "url_host u = (if ur_port u = [] then ur_hostname u else ur_hostname u @ '':'' @ ur_port u)"

text \<open>The request of \<open>boundedHttpGet\<close> and the reading of its answer.\<close>

definition unclean_url :: string where "unclean_url = ''Outbound URL must be a clean HTTP(S) address''"

definition bounded_http_get ::
  "(string \<Rightarrow> url option) \<Rightarrow> (string \<Rightarrow> resolver_answer) \<Rightarrow> bool \<Rightarrow> string \<Rightarrow> string + probe" where
  "bounded_http_get parse resolver public_only raw = (case parse raw of
      None \<Rightarrow> Inl unclean_url
    | Some u \<Rightarrow>
        if ur_protocol u \<notin> {''http:'', ''https:''} \<or> ur_username u \<noteq> [] \<or> ur_password u \<noteq> [] then Inl unclean_url
        else (let requested = normalized_hostname (ur_hostname u) in
          case (if public_only then resolve_public_internet_host resolver requested
            else Inr \<lparr>ra_address = requested, ra_family = is_ip requested\<rparr>) of
            Inl e \<Rightarrow> Inl e
          | Inr d \<Rightarrow> Inr \<lparr>pr_protocol = ur_protocol u, pr_hostname = ra_address d, pr_family = ra_family d,
              pr_port = (if ur_port u = [] then None else Some (ur_port u)), pr_path = ur_pathname u @ ur_search u,
              pr_host = url_host u,
              pr_servername = (if ur_protocol u = ''https:'' \<and> is_ip requested = 0 then Some requested else None)\<rparr>))"

definition probe_ok :: "nat \<Rightarrow> bool" where
  "probe_ok status = (200 \<le> status \<and> status < 300)"

section \<open>Shared networks\<close>

definition parse_shared_network :: "string \<Rightarrow> network option" where
  "parse_shared_network v = (case split_on (CHR ''/'') v of
      [address, prefix] \<Rightarrow> (case parse_ip address of
          None \<Rightarrow> None
        | Some a \<Rightarrow> (let (lo, hi) = (case a of V4 _ \<Rightarrow> (8, 32) | V6 _ \<Rightarrow> (32, 128)) in
            if prefix \<noteq> [] \<and> length prefix \<le> 3 \<and> list_all is_digit prefix \<and> lo \<le> digits_value prefix \<and> digits_value prefix \<le> hi
            then Some (a, digits_value prefix) else None))
    | _ \<Rightarrow> None)"

fun parse_shared_networks :: "string list \<Rightarrow> string + network list" where
  "parse_shared_networks [] = Inr []"
| "parse_shared_networks (v # vs) = (case parse_shared_network v of
      None \<Rightarrow> Inl (''INITPAD_RATE_LIMIT_SHARED_NETWORKS contains an invalid CIDR range: '' @ [CHR 0x27] @ v @ [CHR 0x27])
    | Some n \<Rightarrow> map_sum (\<lambda>e. e) (Cons n) (parse_shared_networks vs))"

definition in_shared_network :: "network list \<Rightarrow> string \<Rightarrow> bool" where
  "in_shared_network ns i =
     (let address = (if starts_with ''::ffff:'' i \<and> is_ip (drop 7 i) = 4 then drop 7 i else i) in
      case parse_ip address of None \<Rightarrow> False | Some a \<Rightarrow> listed ns a)"

section \<open>The reserved ranges\<close>

lemma digit_values [simp]:
  "is_digit CHR ''0''" "is_digit CHR ''1''" "is_digit CHR ''2''" "is_digit CHR ''3''" "is_digit CHR ''4''"
  "is_digit CHR ''5''" "is_digit CHR ''6''" "is_digit CHR ''7''" "is_digit CHR ''8''" "is_digit CHR ''9''"
  by (simp_all add: is_digit_def)

lemma block_list_cons: "block_list ((s, p) # ns) = (case parse_ip s of None \<Rightarrow> block_list ns | Some n \<Rightarrow> (n, p) # block_list ns)"
  by (simp add: block_list_def List.map_filter_simps split: option.splits)

lemma block_list_nil: "block_list [] = []"
  by (simp add: block_list_def List.map_filter_simps)

lemma non_public_v4_networks:
  "block_list non_public_v4 = [(V4 0, 8), (V4 0x0A000000, 8), (V4 0x64400000, 10), (V4 0x7F000000, 8), (V4 0xA9FE0000, 16),
     (V4 0xAC100000, 12), (V4 0xC0000000, 24), (V4 0xC0000200, 24), (V4 0xC0586300, 24), (V4 0xC0A80000, 16),
     (V4 0xC6120000, 15), (V4 0xC6336400, 24), (V4 0xCB007100, 24), (V4 0xE0000000, 4), (V4 0xF0000000, 4)]"
  by (simp add: non_public_v4_def block_list_cons block_list_nil parse_ip_def parse_v4_def octet_def digits_value_def v4_value_def)

lemma hex_values [simp]:
  "is_hex CHR ''a''" "is_hex CHR ''b''" "is_hex CHR ''c''" "is_hex CHR ''d''" "is_hex CHR ''e''" "is_hex CHR ''f''"
  "\<not> is_digit CHR ''a''" "\<not> is_digit CHR ''b''" "\<not> is_digit CHR ''c''" "\<not> is_digit CHR ''d''" "\<not> is_digit CHR ''e''" "\<not> is_digit CHR ''f''"
  "\<not> is_digit CHR '':''" "\<not> is_hex CHR '':''"
  by (simp_all add: is_hex_def is_digit_def lower_char_def)

lemma digit_is_hex [simp]: "is_digit c \<Longrightarrow> is_hex c"
  by (simp add: is_hex_def)

lemma hex_digits_simp [simp]: "is_digit c \<Longrightarrow> hex_digit c = of_char c - 48" "\<not> is_digit c \<Longrightarrow> hex_digit c = of_char (lower_char c) - 87"
  by (simp_all add: hex_digit_def)

lemma zero_groups: "foldl (\<lambda>n. (+) (65536 * n)) m (replicate k 0) = m * 65536 ^ k" for m :: nat
  by (induction k arbitrary: m) simp_all

lemma non_public_v6_networks:
  "block_list non_public_v6 = [(V6 0, 96), (V6 0xFFFF00000000, 96), (V6 0x0064FF9B000000000000000000000000, 96),
     (V6 0x0064FF9B000100000000000000000000, 48), (V6 0x01000000000000000000000000000000, 64), (V6 0x20010000000000000000000000000000, 23),
     (V6 0x20010DB8000000000000000000000000, 32), (V6 0x20020000000000000000000000000000, 16), (V6 0x3FFF0000000000000000000000000000, 20),
     (V6 0x5F000000000000000000000000000000, 16), (V6 0xFC000000000000000000000000000000, 7), (V6 0xFE800000000000000000000000000000, 10),
     (V6 0xFEC00000000000000000000000000000, 10), (V6 0xFF000000000000000000000000000000, 8)]"
  by (simp add: non_public_v6_def block_list_cons block_list_nil parse_ip_def parse_v4_def octet_def digits_value_def v4_value_def
    parse_v6_def pieces_def group_def v6_value_def lower_char_def zero_groups)

text \<open>Sharing a prefix is lying between the first and the last address of the network.\<close>

lemma same_prefix_iff:
  fixes a n :: "'a::len word"
  assumes "p \<le> LENGTH('a)" and "2 ^ (LENGTH('a) - p) dvd unat n"
  shows "same_prefix p a n \<longleftrightarrow> unat n \<le> unat a \<and> unat a < unat n + 2 ^ (LENGTH('a) - p)"
proof -
  let ?d = "2 ^ (LENGTH('a) - p) :: nat"
  from assms(2) obtain q where q: "unat n = ?d * q" by (auto simp: dvd_def)
  have "same_prefix p a n \<longleftrightarrow> unat a div ?d = q"
    unfolding same_prefix_def word_unat_eq_iff unat_drop_bit_eq by (simp add: drop_bit_eq_div q)
  also have "\<dots> \<longleftrightarrow> unat n \<le> unat a \<and> unat a < unat n + ?d"
    unfolding q by (metis (no_types, lifting) add.commute div_nat_eqI dividend_less_div_times div_times_less_eq_dividend
      mult.commute mult_Suc_right zero_less_numeral zero_less_power)
  finally show ?thesis .
qed

text \<open>The first and last address of every block that is not globally reachable.\<close>

definition reserved_v4 :: "(nat \<times> nat) list" where
  "reserved_v4 = [(v4_value 0 0 0 0, v4_value 0 255 255 255), (v4_value 10 0 0 0, v4_value 10 255 255 255),
     (v4_value 100 64 0 0, v4_value 100 127 255 255), (v4_value 127 0 0 0, v4_value 127 255 255 255),
     (v4_value 169 254 0 0, v4_value 169 254 255 255), (v4_value 172 16 0 0, v4_value 172 31 255 255),
     (v4_value 192 0 0 0, v4_value 192 0 0 255), (v4_value 192 0 2 0, v4_value 192 0 2 255),
     (v4_value 192 88 99 0, v4_value 192 88 99 255), (v4_value 192 168 0 0, v4_value 192 168 255 255),
     (v4_value 198 18 0 0, v4_value 198 19 255 255), (v4_value 198 51 100 0, v4_value 198 51 100 255),
     (v4_value 203 0 113 0, v4_value 203 0 113 255), (v4_value 224 0 0 0, v4_value 239 255 255 255),
     (v4_value 240 0 0 0, v4_value 255 255 255 255)]"

definition v6_range :: "nat list \<Rightarrow> nat list \<Rightarrow> nat \<times> nat" where
  "v6_range lo hi = (v6_value (lo @ replicate (8 - length lo) 0), v6_value (hi @ replicate (8 - length hi) 0xFFFF))"

definition reserved_v6 :: "(nat \<times> nat) list" where
  "reserved_v6 = [v6_range [] [0, 0, 0, 0, 0, 0], v6_range [0, 0, 0, 0, 0, 0xFFFF] [0, 0, 0, 0, 0, 0xFFFF],
     v6_range [0x64, 0xFF9B] [0x64, 0xFF9B, 0, 0, 0, 0], v6_range [0x64, 0xFF9B, 1] [0x64, 0xFF9B, 1], v6_range [0x100] [0x100, 0, 0, 0],
     v6_range [0x2001] [0x2001, 0x1FF], v6_range [0x2001, 0xDB8] [0x2001, 0xDB8], v6_range [0x2002] [0x2002],
     v6_range [0x3FFF] [0x3FFF, 0xFFF], v6_range [0x5F00] [0x5F00], v6_range [0xFC00] [0xFDFF], v6_range [0xFE80] [0xFEBF],
     v6_range [0xFEC0] [0xFEFF], v6_range [0xFF00] [0xFFFF]]"

definition outside :: "(nat \<times> nat) list \<Rightarrow> nat \<Rightarrow> bool" where
  "outside rs n = list_all (\<lambda>(lo, hi). n < lo \<or> hi < n) rs"

definition covers :: "'a::len word \<Rightarrow> nat \<Rightarrow> nat \<times> nat \<Rightarrow> bool" where
  "covers n p r = (p \<le> LENGTH('a) \<and> 2 ^ (LENGTH('a) - p) dvd unat n \<and> unat n = fst r \<and> fst r + 2 ^ (LENGTH('a) - p) = Suc (snd r))"

lemma covers_range: "covers n p r \<Longrightarrow> same_prefix p a n \<longleftrightarrow> \<not> (unat a < fst r \<or> snd r < unat a)"
  unfolding covers_def by (auto simp: same_prefix_iff)

lemma listed_ranges_v4:
  "list_all2 (\<lambda>x r. \<exists>n p. x = (V4 n, p) \<and> covers n p r) ns rs \<Longrightarrow> listed ns (V4 a) \<longleftrightarrow> \<not> outside rs (unat a)"
  by (induction ns rs rule: list_all2_induct) (auto simp: listed_def outside_def covers_range split_beta)

lemma listed_ranges_v6:
  "list_all2 (\<lambda>x r. \<exists>n p. x = (V6 n, p) \<and> covers n p r) ns rs \<Longrightarrow> listed ns (V6 a) \<longleftrightarrow> \<not> outside rs (unat a)"
  by (induction ns rs rule: list_all2_induct) (auto simp: listed_def outside_def covers_range split_beta)

lemma listed_v4: "listed (block_list non_public_v4) (V4 a) \<longleftrightarrow> \<not> outside reserved_v4 (unat a)"
  by (rule listed_ranges_v4) (simp add: non_public_v4_networks reserved_v4_def covers_def v4_value_def)

lemma full_groups: "foldl (\<lambda>n. (+) (65536 * n)) m (replicate k 65535) = m * 65536 ^ k + (65536 ^ k - 1)" for m :: nat
proof (induction k arbitrary: m)
  case (Suc k)
  have "0 < (65536 :: nat) ^ k" by simp
  then obtain j where j: "(65536 :: nat) ^ k = Suc j" by (auto simp: gr0_conv_Suc)
  have "foldl (\<lambda>n. (+) (65536 * n)) m (replicate (Suc k) 65535) = (65536 * m + 65535) * 65536 ^ k + (65536 ^ k - 1)"
    using Suc [of "65536 * m + 65535"] by simp
  also have "\<dots> = m * 65536 ^ Suc k + (65536 ^ Suc k - 1)" unfolding power_Suc j by (simp add: algebra_simps)
  finally show ?case .
qed simp

lemma listed_v6: "listed (block_list non_public_v6) (V6 a) \<longleftrightarrow> \<not> outside reserved_v6 (unat a)"
  by (rule listed_ranges_v6) (simp add: non_public_v6_networks reserved_v6_def covers_def v6_range_def v6_value_def zero_groups full_groups)

text \<open>C30: An address counts as public exactly when it is a well-formed address that lies outside every block that is not
  globally reachable: this network, private use, shared, loopback, link local, documentation, benchmarking,
  multicast and the reserved rest for IPv4; unspecified, IPv4-mapped and translated addresses, discard, special
  purpose, documentation, 6to4, segment routing, unique local, link and site local, and multicast for IPv6.\<close>

theorem public_means_outside_reserved_ranges:
  "is_public_internet_address raw \<longleftrightarrow> (let address = normalized_hostname raw in CHR ''%'' \<notin> set address \<and>
     (case parse_ip address of None \<Rightarrow> False | Some (V4 a) \<Rightarrow> outside reserved_v4 (unat a) | Some (V6 a) \<Rightarrow> outside reserved_v6 (unat a)))"
  unfolding is_public_internet_address_def by (simp add: Let_def listed_v4 listed_v6 split: option.splits ip.splits)

section \<open>Only public destinations\<close>

text \<open>C31: Under the hosted policy a probe connects to the address that was checked, not to a name that could be resolved
  again: the socket is opened to a public address, which is the first of an answer whose every address is
  public and of the family the resolver stated, or the literal address of the URL itself; the URL carries no
  credentials, and TLS still verifies the requested name.\<close>

theorem hosted_probes_reach_public_addresses:
  assumes "bounded_http_get parse resolver True raw = Inr p"
  shows "\<exists>u. parse raw = Some u \<and> ur_protocol u \<in> {''http:'', ''https:''} \<and> ur_username u = [] \<and> ur_password u = [] \<and>
    is_public_internet_address (pr_hostname p) \<and> pr_family p = is_ip (pr_hostname p) \<and>
    (let h = normalized_hostname (normalized_hostname (ur_hostname u)) in
      (if is_ip h \<noteq> 0 then pr_hostname p = h
       else \<exists>a as. resolver h = Answers (a # as) \<and> pr_hostname p = ra_address a \<and>
         (\<forall>x \<in> set (a # as). is_public_internet_address (ra_address x)))) \<and>
    (ur_protocol u = ''https:'' \<longrightarrow> is_ip (normalized_hostname (ur_hostname u)) = 0 \<longrightarrow>
      pr_servername p = Some (normalized_hostname (ur_hostname u)))"
proof -
  from assms obtain u where u: "parse raw = Some u" "ur_protocol u \<in> {''http:'', ''https:''}" "ur_username u = []" "ur_password u = []"
    by (auto simp: bounded_http_get_def split: option.splits if_splits)
  with assms obtain d where d: "resolve_public_internet_host resolver (normalized_hostname (ur_hostname u)) = Inr d"
    by (cases "resolve_public_internet_host resolver (normalized_hostname (ur_hostname u))") (auto simp: bounded_http_get_def Let_def)
  from assms have p: "pr_hostname p = ra_address d" "pr_family p = ra_family d"
    "ur_protocol u = ''https:'' \<Longrightarrow> is_ip (normalized_hostname (ur_hostname u)) = 0 \<Longrightarrow> pr_servername p = Some (normalized_hostname (ur_hostname u))"
    using u d by (auto simp: bounded_http_get_def Let_def)
  let ?h = "normalized_hostname (normalized_hostname (ur_hostname u))"
  from d have r: "is_public_internet_address (ra_address d)" "ra_family d = is_ip (ra_address d)"
    "if is_ip ?h \<noteq> 0 then ra_address d = ?h
     else \<exists>as. resolver ?h = Answers (d # as) \<and> (\<forall>x \<in> set (d # as). is_public_internet_address (ra_address x))"
    by (auto simp: resolve_public_internet_host_def Let_def list_ex_iff neq_Nil_conv split: if_splits resolver_answer.splits)
  show ?thesis using u p r by (intro exI [of _ u]) (auto simp: Let_def)
qed

definition sample_url :: url where
  "sample_url = \<lparr>ur_protocol = ''https:'', ur_username = [], ur_password = [], ur_hostname = ''8.8.8.8'', ur_port = [], ur_pathname = ''/'',
     ur_search = [], ur_hash = [], ur_origin = ''https://8.8.8.8''\<rparr>"

lemma sample_hostname: "normalized_hostname ''8.8.8.8'' = ''8.8.8.8''" "parse_ip ''8.8.8.8'' = Some (V4 0x08080808)"
  by (simp_all add: normalized_hostname_def trim_def is_blank_def lower_def lower_char_def parse_ip_def parse_v4_def octet_def digits_value_def v4_value_def)

theorem hosted_probes_reach_public_addresses_witness:
  "\<exists>p. bounded_http_get (\<lambda>_. Some sample_url) (\<lambda>_. LookupFailed) True ''https://8.8.8.8/'' = Inr p \<and> is_public_internet_address (pr_hostname p)"
proof -
  have "is_public_internet_address ''8.8.8.8''"
    by (simp add: is_public_internet_address_def sample_hostname listed_v4 outside_def reserved_v4_def v4_value_def)
  then obtain p where p: "bounded_http_get (\<lambda>_. Some sample_url) (\<lambda>_. LookupFailed) True ''https://8.8.8.8/'' = Inr p"
    by (auto simp: bounded_http_get_def sample_url_def resolve_public_internet_host_def sample_hostname is_ip_def Let_def)
  from hosted_probes_reach_public_addresses [OF p] p show ?thesis by blast
qed

end
