(* ===== verification/RateLimits.thy ===== *)
theory RateLimits
  imports NetworkPolicy
begin

text \<open>
  Rate limits (\<open>auth/rate-limit.policy.ts\<close>, \<open>rate-limit.service.ts\<close>, \<open>rate-limit.guard.ts\<close>): fixed-window buckets that
  all replicas share, and the guard in front of the sensitive endpoints.

  A bucket is reached by its key only, so the table is a map. \<open>hmac\<close> is the keyed digest under the
  encryption key of the installation, \<open>nfkc\<close> the Unicode normalisation. A replica remembers when it cleans
  up next; the deletion may fail, and the store may be unavailable.
\<close>

section \<open>Policies\<close>

datatype normalization = Identity | Opaque

datatype subject_source = FromBody string normalization | FromQuery string normalization | FromUser

record policy =
  po_name :: string
  po_windowMs :: int
  po_ipLimit :: nat
  po_subjectLimit :: "nat option"
  po_subject :: "subject_source option"

definition minute :: int where "minute = 60000"

definition policy_of :: "string \<Rightarrow> int \<Rightarrow> nat \<Rightarrow> (nat \<times> subject_source) option \<Rightarrow> policy" where
  "policy_of n minutes i s = \<lparr>po_name = n, po_windowMs = minutes * minute, po_ipLimit = i,
     po_subjectLimit = map_option fst s, po_subject = map_option snd s\<rparr>"

definition rate_limits :: "policy list" where
  "rate_limits =
    [policy_of ''auth.register'' 60 10 (Some (5, FromBody ''email'' Identity)),
     policy_of ''auth.signin'' 5 30 (Some (10, FromBody ''username'' Identity)),
     policy_of ''auth.change-password'' 15 20 (Some (5, FromUser)),
     policy_of ''auth.email.request-verification'' 15 20 (Some (3, FromUser)),
     policy_of ''auth.email.verify'' 15 20 (Some (10, FromBody ''token'' Opaque)),
     policy_of ''auth.password.request-reset'' 15 10 (Some (5, FromBody ''identity'' Identity)),
     policy_of ''auth.password.reset'' 15 20 (Some (10, FromBody ''token'' Opaque)),
     policy_of ''auth.activate'' 15 20 (Some (10, FromBody ''token'' Opaque)),
     policy_of ''agent.enroll'' 10 10 (Some (5, FromBody ''token'' Opaque)),
     policy_of ''auth.github.authorize'' 5 30 None,
     policy_of ''auth.github.callback'' 5 60 None,
     policy_of ''scm.github.setup'' 10 30 (Some (10, FromUser)),
     policy_of ''scm.github.setup.recover'' 10 120 (Some (60, FromUser)),
     policy_of ''scm.github.setup.callback'' 5 30 None,
     policy_of ''targets.host-key.inspect'' 5 30 (Some (15, FromUser))]"

section \<open>Buckets\<close>

datatype dimension = IpDimension | SubjectDimension

fun dimension_name :: "dimension \<Rightarrow> string" where
  "dimension_name IpDimension = ''ip''"
| "dimension_name SubjectDimension = ''subject''"

record bucket =
  bu_count :: nat
  bu_windowStartedAt :: instant
  bu_expiresAt :: instant

record limiter =
  lm_buckets :: "string \<Rightarrow> bucket option"
  lm_nextCleanup :: "string \<Rightarrow> instant"

text \<open>One call of \<open>consume\<close>, on which replica, and whether a cleanup it starts reaches the store.\<close>

record attempt =
  at_scope :: string
  at_dimension :: dimension
  at_subject :: string
  at_limit :: nat
  at_windowMs :: int
  at_now :: instant
  at_replica :: string
  at_cleans :: bool

record decision =
  de_allowed :: bool
  de_retryAfterSeconds :: int

text \<open>A window starts at a multiple of its length, printed in decimal.\<close>

definition window_start :: "attempt \<Rightarrow> instant" where
  "window_start a = (at_now a div at_windowMs a) * at_windowMs a"

definition bucket_text :: "attempt \<Rightarrow> string" where
  "bucket_text a = at_scope a @ [CHR 0x00] @ dimension_name (at_dimension a) @ [CHR 0x00] @
     nat_str (nat (window_start a)) @ [CHR 0x00] @ at_subject a"

definition bucket_key :: "(string \<Rightarrow> string) \<Rightarrow> attempt \<Rightarrow> string" where
  "bucket_key hmac a = hmac (bucket_text a)"

definition upsert_bucket :: "attempt \<Rightarrow> bucket option \<Rightarrow> bucket" where
  "upsert_bucket a b = (case b of
      None \<Rightarrow> \<lparr>bu_count = 1, bu_windowStartedAt = window_start a, bu_expiresAt = window_start a + at_windowMs a\<rparr>
    | Some x \<Rightarrow> x\<lparr>bu_count := bu_count x + 1\<rparr>)"

definition cleanup_interval :: int where "cleanup_interval = 5 * 60000"

definition schedule_cleanup :: "attempt \<Rightarrow> limiter \<Rightarrow> limiter" where
  "schedule_cleanup a l = (if at_now a < lm_nextCleanup l (at_replica a) then l
     else l\<lparr>lm_nextCleanup := (lm_nextCleanup l)(at_replica a := at_now a + cleanup_interval),
       lm_buckets := (if at_cleans a
         then (\<lambda>k. case lm_buckets l k of Some b \<Rightarrow> if bu_expiresAt b < at_now a then None else Some b | None \<Rightarrow> None)
         else lm_buckets l)\<rparr>)"

definition retry_after :: "instant \<Rightarrow> instant \<Rightarrow> int" where
  "retry_after expires now = max 1 ((expires - now + 999) div 1000)"

definition consume :: "(string \<Rightarrow> string) \<Rightarrow> attempt \<Rightarrow> limiter \<Rightarrow> limiter \<times> decision" where
  "consume hmac a l = (let k = bucket_key hmac a; b = upsert_bucket a (lm_buckets l k) in
     (schedule_cleanup a (l\<lparr>lm_buckets := (lm_buckets l)(k \<mapsto> b)\<rparr>),
      \<lparr>de_allowed = (bu_count b \<le> at_limit a), de_retryAfterSeconds = retry_after (bu_expiresAt b) (at_now a)\<rparr>))"

section \<open>The guard\<close>

record guarded_request =
  gq_ip :: "string option"
  gq_remoteAddress :: "string option"
  gq_userId :: "string option"
  gq_body :: json
  gq_query :: json

datatype verdict = Admitted | TooMany int | Unavailable

definition client_address :: "guarded_request \<Rightarrow> string" where
  "client_address q = (if truthy (gq_ip q) then the (gq_ip q)
     else if truthy (gq_remoteAddress q) then the (gq_remoteAddress q) else ''unknown'')"

definition subject_field :: "(string \<Rightarrow> string) \<Rightarrow> json \<Rightarrow> string \<Rightarrow> normalization \<Rightarrow> string option" where
  "subject_field nfkc container field n = (case container of
      JObj fs \<Rightarrow> (case map_of fs field of
          Some (JStr v) \<Rightarrow> if v = [] then None else Some (case n of Opaque \<Rightarrow> v | Identity \<Rightarrow> lower (trim (nfkc v)))
        | _ \<Rightarrow> None)
    | _ \<Rightarrow> None)"

definition read_subject :: "(string \<Rightarrow> string) \<Rightarrow> guarded_request \<Rightarrow> subject_source option \<Rightarrow> string option" where
  "read_subject nfkc q s = (case s of
      None \<Rightarrow> None
    | Some FromUser \<Rightarrow> if truthy (gq_userId q) then gq_userId q else None
    | Some (FromBody f n) \<Rightarrow> subject_field nfkc (gq_body q) f n
    | Some (FromQuery f n) \<Rightarrow> subject_field nfkc (gq_query q) f n)"

text \<open>The circumstances of a request: which replica serves it, when, and whether its store answers.\<close>

record circumstance =
  ci_replica :: string
  ci_now :: instant
  ci_cleans :: bool
  ci_ipStore :: bool
  ci_subjectStore :: bool

definition attempt_of :: "policy \<Rightarrow> circumstance \<Rightarrow> dimension \<Rightarrow> string \<Rightarrow> nat \<Rightarrow> attempt" where
  "attempt_of p c d s limit = \<lparr>at_scope = po_name p, at_dimension = d, at_subject = s, at_limit = limit, at_windowMs = po_windowMs p,
     at_now = ci_now c, at_replica = ci_replica c, at_cleans = ci_cleans c\<rparr>"

definition ip_limit :: "network list \<Rightarrow> nat \<Rightarrow> policy \<Rightarrow> string \<Rightarrow> nat" where
  "ip_limit shared factor p i = (if in_shared_network shared i then po_ipLimit p * factor else po_ipLimit p)"

definition guard_subject ::
  "(string \<Rightarrow> string) \<Rightarrow> (string \<Rightarrow> string) \<Rightarrow> policy \<Rightarrow> circumstance \<Rightarrow> guarded_request \<Rightarrow> limiter \<Rightarrow> limiter \<times> verdict" where
  "guard_subject hmac nfkc p c q l = (case (read_subject nfkc q (po_subject p), po_subjectLimit p) of
      (Some s, Some limit) \<Rightarrow>
        if s = [] \<or> limit = 0 then (l, Admitted)
        else if \<not> ci_subjectStore c then (l, Unavailable)
        else (case consume hmac (attempt_of p c SubjectDimension s limit) l of
          (l', d) \<Rightarrow> (l', if de_allowed d then Admitted else TooMany (de_retryAfterSeconds d)))
    | _ \<Rightarrow> (l, Admitted))"

definition can_activate ::
  "(string \<Rightarrow> string) \<Rightarrow> (string \<Rightarrow> string) \<Rightarrow> network list \<Rightarrow> nat \<Rightarrow> policy \<Rightarrow> circumstance \<Rightarrow> guarded_request \<Rightarrow> limiter
     \<Rightarrow> limiter \<times> verdict" where
  "can_activate hmac nfkc shared factor p c q l = (let i = client_address q in
     if \<not> ci_ipStore c then (l, Unavailable)
     else (case consume hmac (attempt_of p c IpDimension i (ip_limit shared factor p i)) l of
       (l', d) \<Rightarrow> if de_allowed d then guard_subject hmac nfkc p c q l' else (l', TooMany (de_retryAfterSeconds d))))"

section \<open>Keys\<close>

lemma cut_at_first: "\<lbrakk>u @ d # v = u' @ d # v'; d \<notin> set u; d \<notin> set u'\<rbrakk> \<Longrightarrow> u = u' \<and> v = v'"
proof (induction u arbitrary: u')
  case Nil
  then show ?case by (cases u') auto
next
  case (Cons c u)
  then show ?case by (cases u') auto
qed

lemma printed_digit: "n < 10 \<Longrightarrow> is_digit (char_of (48 + n))" "n < 10 \<Longrightarrow> (of_char (char_of (48 + n)) :: nat) = 48 + n"
  by (simp_all add: is_digit_def)

lemma nat_str_digits: "list_all is_digit (nat_str n)"
proof (induction n rule: nat_str.induct)
  case (1 n)
  show ?case using 1 printed_digit(1) [of "n mod 10"] printed_digit(1) [of n] by (subst nat_str.simps) auto
qed

lemma nat_str_value: "digits_value (nat_str n) = n"
proof (induction n rule: nat_str.induct)
  case (1 n)
  show ?case
  proof (cases "n < 10")
    case True
    then show ?thesis by (subst nat_str.simps) (simp add: digits_value_def printed_digit)
  next
    case False
    with 1 have "digits_value (nat_str (n div 10)) = n div 10" by simp
    then show ?thesis using False by (subst nat_str.simps) (simp add: digits_value_def printed_digit)
  qed
qed

definition well_named :: "attempt \<Rightarrow> bool" where
  "well_named a = (CHR 0x00 \<notin> set (at_scope a) \<and> 0 \<le> at_now a \<and> 0 < at_windowMs a)"

lemma window_start_bounds:
  assumes "well_named a"
  shows "0 \<le> window_start a" and "window_start a \<le> at_now a" and "at_now a < window_start a + at_windowMs a"
proof -
  have e: "window_start a = at_now a - at_now a mod at_windowMs a"
    unfolding window_start_def by (simp add: minus_mod_eq_div_mult)
  have m: "0 \<le> at_now a mod at_windowMs a" "at_now a mod at_windowMs a < at_windowMs a"
    using assms by (simp_all add: well_named_def)
  have "0 \<le> at_now a div at_windowMs a" using assms by (simp add: well_named_def pos_imp_zdiv_nonneg_iff)
  then show "0 \<le> window_start a" using assms by (simp add: window_start_def well_named_def)
  show "window_start a \<le> at_now a" "at_now a < window_start a + at_windowMs a" using e m by linarith+
qed

text \<open>Two attempts on the same bucket.\<close>

definition same_bucket :: "attempt \<Rightarrow> attempt \<Rightarrow> bool" where
  "same_bucket a b = (at_scope a = at_scope b \<and> at_dimension a = at_dimension b \<and> at_subject a = at_subject b \<and> window_start a = window_start b)"

lemma bucket_text_injective:
  assumes "well_named a" and "well_named b" and "bucket_text a = bucket_text b"
  shows "same_bucket a b"
proof -
  have nul: "CHR 0x00 \<notin> set (dimension_name d)" "CHR 0x00 \<notin> set (nat_str n)" for d n
    using nat_str_digits [of n] by (cases d; auto simp: list_all_iff is_digit_def)+
  from assms have s: "at_scope a = at_scope b" and 1: "dimension_name (at_dimension a) @ CHR 0x00 # nat_str (nat (window_start a)) @ CHR 0x00 # at_subject a =
      dimension_name (at_dimension b) @ CHR 0x00 # nat_str (nat (window_start b)) @ CHR 0x00 # at_subject b"
    using cut_at_first [of "at_scope a" "CHR 0x00" _ "at_scope b"] by (auto simp: bucket_text_def well_named_def)
  from cut_at_first [OF 1] nul have d: "dimension_name (at_dimension a) = dimension_name (at_dimension b)" and
    2: "nat_str (nat (window_start a)) @ CHR 0x00 # at_subject a = nat_str (nat (window_start b)) @ CHR 0x00 # at_subject b" by simp_all
  from cut_at_first [OF 2] nul have w: "nat_str (nat (window_start a)) = nat_str (nat (window_start b))" and "at_subject a = at_subject b" by simp_all
  moreover have "window_start a = window_start b"
    using w nat_str_value window_start_bounds(1) [OF assms(1)] window_start_bounds(1) [OF assms(2)] by (metis nat_eq_iff2)
  moreover have "at_dimension a = at_dimension b" using d by (cases "at_dimension a"; cases "at_dimension b") simp_all
  ultimately show ?thesis using s by (simp add: same_bucket_def)
qed

lemma same_bucket_text: "same_bucket a b \<Longrightarrow> bucket_text a = bucket_text b"
  by (simp add: same_bucket_def bucket_text_def)

section \<open>Counting attempts\<close>

fun consume_all :: "(string \<Rightarrow> string) \<Rightarrow> attempt list \<Rightarrow> limiter \<Rightarrow> decision list" where
  "consume_all hmac [] l = []"
| "consume_all hmac (a # as) l = (case consume hmac a l of (l', d) \<Rightarrow> d # consume_all hmac as l')"

text \<open>The abstract limiter remembers all attempts and counts.\<close>

fun admitted :: "attempt list \<Rightarrow> attempt list \<Rightarrow> bool list" where
  "admitted past [] = []"
| "admitted past (a # as) = (length (filter (same_bucket a) past) < at_limit a) # admitted (a # past) as"

definition store_counts :: "(string \<Rightarrow> string) \<Rightarrow> attempt set \<Rightarrow> attempt list \<Rightarrow> instant \<Rightarrow> limiter \<Rightarrow> bool" where
  "store_counts hmac U past t l = (\<forall>c \<in> U. t \<le> at_now c \<longrightarrow>
     (case lm_buckets l (bucket_key hmac c) of
        None \<Rightarrow> filter (same_bucket c) past = []
      | Some b \<Rightarrow> bu_count b = length (filter (same_bucket c) past) \<and> bu_expiresAt b = window_start c + at_windowMs c))"

definition coherent :: "(string \<Rightarrow> string) \<Rightarrow> attempt set \<Rightarrow> bool" where
  "coherent hmac U = ((\<forall>a \<in> U. well_named a) \<and> (\<forall>a \<in> U. \<forall>b \<in> U. at_scope a = at_scope b \<longrightarrow> at_windowMs a = at_windowMs b) \<and>
     inj_on hmac (bucket_text ` U))"

lemma key_iff: "coherent hmac U \<Longrightarrow> a \<in> U \<Longrightarrow> b \<in> U \<Longrightarrow> bucket_key hmac a = bucket_key hmac b \<longleftrightarrow> same_bucket a b"
  unfolding coherent_def bucket_key_def by (metis bucket_text_injective same_bucket_text inj_on_def image_eqI)

lemma coherent_window: "\<lbrakk>coherent hmac U; a \<in> U; b \<in> U; at_scope a = at_scope b\<rbrakk> \<Longrightarrow> at_windowMs a = at_windowMs b"
  unfolding coherent_def by blast

lemma store_step:
  assumes "coherent hmac U" and "store_counts hmac U past t l" and "a \<in> U" and "t \<le> at_now a" and "consume hmac a l = (l', d)"
  shows "store_counts hmac U (a # past) (at_now a) l'" and "de_allowed d \<longleftrightarrow> length (filter (same_bucket a) past) < at_limit a"
    and "de_retryAfterSeconds d = retry_after (window_start a + at_windowMs a) (at_now a)"
proof -
  let ?k = "bucket_key hmac a" and ?b = "upsert_bucket a (lm_buckets l (bucket_key hmac a))"
  have l': "l' = schedule_cleanup a (l\<lparr>lm_buckets := (lm_buckets l)(?k \<mapsto> ?b)\<rparr>)"
    and d: "de_allowed d = (bu_count ?b \<le> at_limit a)" "de_retryAfterSeconds d = retry_after (bu_expiresAt ?b) (at_now a)"
    using assms(5) by (auto simp: consume_def Let_def)
  have b: "bu_count ?b = Suc (length (filter (same_bucket a) past))" "bu_expiresAt ?b = window_start a + at_windowMs a"
    using assms(2-4) by (auto simp: store_counts_def upsert_bucket_def split: option.splits)
  then show "de_allowed d \<longleftrightarrow> length (filter (same_bucket a) past) < at_limit a"
    and "de_retryAfterSeconds d = retry_after (window_start a + at_windowMs a) (at_now a)" using d by (simp_all add: Suc_le_eq)
  show "store_counts hmac U (a # past) (at_now a) l'"
    unfolding store_counts_def
  proof (intro ballI impI)
    fix c
    assume c: "c \<in> U" "at_now a \<le> at_now c"
    let ?before = "((lm_buckets l)(?k \<mapsto> ?b)) (bucket_key hmac c)"
    have "well_named c" using assms(1) c(1) by (simp add: coherent_def)
    then have live: "at_now c < window_start c + at_windowMs c" by (rule window_start_bounds(3))
    have before: "case ?before of None \<Rightarrow> filter (same_bucket c) (a # past) = []
        | Some x \<Rightarrow> bu_count x = length (filter (same_bucket c) (a # past)) \<and> bu_expiresAt x = window_start c + at_windowMs c"
    proof (cases "same_bucket c a")
      case True
      have "bucket_key hmac c = ?k" using key_iff [OF assms(1) c(1) assms(3)] True by blast
      moreover have "same_bucket c = same_bucket a" by (rule ext) (use True in \<open>simp add: same_bucket_def\<close>)
      moreover have "window_start c = window_start a" using True by (simp add: same_bucket_def)
      ultimately have eq: "bucket_key hmac c = ?k" "same_bucket c = same_bucket a" "window_start c = window_start a" by blast+
      have "same_bucket a a" by (simp add: same_bucket_def)
      moreover have "at_windowMs c = at_windowMs a" using coherent_window [OF assms(1) c(1) assms(3)] True by (simp add: same_bucket_def)
      ultimately show ?thesis using b eq by simp
    next
      case False
      then have "bucket_key hmac c \<noteq> ?k" using key_iff [OF assms(1) c(1) assms(3)] by simp
      with False assms(2,4) c show ?thesis by (auto simp: store_counts_def split: option.splits)
    qed
    have "lm_buckets l' (bucket_key hmac c) = ?before"
    proof (cases ?before)
      case None
      then show ?thesis unfolding l' schedule_cleanup_def by (auto split: option.splits)
    next
      case (Some x)
      with before live c(2) have "\<not> bu_expiresAt x < at_now a" by simp
      with Some show ?thesis unfolding l' schedule_cleanup_def by (auto split: option.splits)
    qed
    with before show "case lm_buckets l' (bucket_key hmac c) of None \<Rightarrow> filter (same_bucket c) (a # past) = []
        | Some x \<Rightarrow> bu_count x = length (filter (same_bucket c) (a # past)) \<and> bu_expiresAt x = window_start c + at_windowMs c" by simp
  qed
qed

lemma consume_counts:
  assumes "coherent hmac U" and "store_counts hmac U past t l" and "set as \<subseteq> U" and "sorted (t # map at_now as)"
  shows "map de_allowed (consume_all hmac as l) = admitted past as"
  using assms(2-)
proof (induction as arbitrary: past t l)
  case Nil
  then show ?case by simp
next
  case (Cons a as)
  obtain l' d where c: "consume hmac a l = (l', d)" by fastforce
  have a: "a \<in> U" "t \<le> at_now a" using Cons.prems by simp_all
  note step = store_step [OF assms(1) Cons.prems(1) a c]
  have "map de_allowed (consume_all hmac as l') = admitted (a # past) as"
    using Cons.IH [OF step(1)] Cons.prems by simp
  with step(2) c show ?case by simp
qed

text \<open>The attempts of guarded endpoints.\<close>

definition guarded :: "attempt \<Rightarrow> bool" where
  "guarded a = (\<exists>p \<in> set rate_limits. \<exists>c d s n. a = attempt_of p c d s n \<and> 0 \<le> ci_now c)"

lemma policies_well_formed:
  "distinct (map po_name rate_limits)"
  "list_all (\<lambda>p. CHR 0x00 \<notin> set (po_name p) \<and> 0 < po_windowMs p) rate_limits"
  by (simp_all add: rate_limits_def policy_of_def minute_def)

lemma guarded_coherent:
  assumes "\<forall>a \<in> U. guarded a" and "inj_on hmac (bucket_text ` U)"
  shows "coherent hmac U"
proof -
  have unique: "p = q" if "p \<in> set rate_limits" "q \<in> set rate_limits" "po_name p = po_name q" for p q
    using policies_well_formed(1) that by (metis distinct_map inj_onD)
  have "at_windowMs a = at_windowMs b" if ab: "a \<in> U" "b \<in> U" "at_scope a = at_scope b" for a b
  proof -
    obtain p c d s n where p: "p \<in> set rate_limits" "a = attempt_of p c d s n" using assms(1) ab(1) unfolding guarded_def by blast
    obtain q c' d' s' n' where q: "q \<in> set rate_limits" "b = attempt_of q c' d' s' n'" using assms(1) ab(2) unfolding guarded_def by blast
    have "p = q" using unique [OF p(1) q(1)] ab(3) p(2) q(2) by (simp add: attempt_of_def)
    with p(2) q(2) show ?thesis by (simp add: attempt_of_def)
  qed
  moreover have "well_named a" if a: "a \<in> U" for a
  proof -
    obtain p c d s n where p: "p \<in> set rate_limits" "a = attempt_of p c d s n" "0 \<le> ci_now c" using assms(1) a unfolding guarded_def by blast
    have "CHR 0x00 \<notin> set (po_name p)" "0 < po_windowMs p" using policies_well_formed(2) p(1) unfolding list_all_iff by blast+
    with p show ?thesis by (simp add: well_named_def attempt_of_def)
  qed
  ultimately show ?thesis using assms(2) unfolding coherent_def by blast
qed

lemma fresh_store: "lm_buckets l = (\<lambda>_. None) \<Longrightarrow> store_counts hmac U [] t l"
  by (simp add: store_counts_def)

text \<open>C28: The buckets shared by all replicas implement counting: whatever replicas serve the attempts on the guarded
  endpoints, whenever they clean up and whether the deletions succeed, an attempt is admitted exactly when
  fewer than its limit have been made before it with the same scope, dimension, subject and window. The times of
  the attempts never go back: the clocks of the replicas agree, for one ahead of the others would delete buckets that
  still count. The HMAC separates the texts of the buckets.\<close>

theorem rate_limits_refine_counting:
  assumes "\<forall>a \<in> set as. guarded a" and "inj_on hmac (bucket_text ` set as)" and "sorted (map at_now as)"
    and "lm_buckets l = (\<lambda>_. None)"
  shows "map de_allowed (consume_all hmac as l) = admitted [] as"
proof -
  have "sorted (0 # map at_now as)" using assms(1,3) by (auto simp: guarded_def attempt_of_def)
  then show ?thesis
    by (rule consume_counts [OF guarded_coherent [OF assms(1,2)] fresh_store [OF assms(4)] subset_refl])
qed

lemma consume_retries:
  assumes "coherent hmac U" and "store_counts hmac U past t l" and "set as \<subseteq> U" and "sorted (t # map at_now as)"
  shows "map de_retryAfterSeconds (consume_all hmac as l) = map (\<lambda>a. retry_after (window_start a + at_windowMs a) (at_now a)) as"
  using assms(2-)
proof (induction as arbitrary: past t l)
  case (Cons a as)
  obtain l' d where c: "consume hmac a l = (l', d)" by fastforce
  have a: "a \<in> U" "t \<le> at_now a" using Cons.prems by simp_all
  note step = store_step [OF assms(1) Cons.prems(1) a c]
  show ?case using Cons.IH [OF step(1)] Cons.prems step(3) c by simp
qed simp

text \<open>C29: Whoever waits for the announced number of seconds, at least one, meets a new window: the wait is never too short,
  and at most a second longer than the window lasts.\<close>

theorem announced_wait_reaches_a_new_window:
  assumes "\<forall>a \<in> set as. guarded a" and "inj_on hmac (bucket_text ` set as)" and "sorted (map at_now as)"
    and "lm_buckets l = (\<lambda>_. None)" and "n < length as" and "seconds = de_retryAfterSeconds (consume_all hmac as l ! n)"
    and "at_windowMs b = at_windowMs (as ! n)" and "at_now (as ! n) + 1000 * seconds \<le> at_now b"
  shows "1 \<le> seconds \<and> 1000 * (seconds - 1) < at_windowMs b \<and> \<not> same_bucket (as ! n) b"
proof -
  have "sorted (0 # map at_now as)" using assms(1,3) by (auto simp: guarded_def attempt_of_def)
  then have "map de_retryAfterSeconds (consume_all hmac as l) = map (\<lambda>a. retry_after (window_start a + at_windowMs a) (at_now a)) as"
    by (rule consume_retries [OF guarded_coherent [OF assms(1,2)] fresh_store [OF assms(4)] subset_refl])
  then have "map de_retryAfterSeconds (consume_all hmac as l) ! n = map (\<lambda>a. retry_after (window_start a + at_windowMs a) (at_now a)) as ! n"
    and "length (consume_all hmac as l) = length as" by (metis, metis length_map)
  then have r: "seconds = retry_after (window_start (as ! n) + at_windowMs (as ! n)) (at_now (as ! n))"
    using assms(5,6) by simp
  have "guarded (as ! n)" using assms(1,5) by simp
  then have w: "well_named (as ! n)" using guarded_coherent [of "{as ! n}" hmac] by (simp add: coherent_def)
  note bounds = window_start_bounds [OF w]
  let ?left = "window_start (as ! n) + at_windowMs (as ! n) - at_now (as ! n)"
  have s: "seconds = max 1 ((?left + 999) div 1000)" unfolding r retry_after_def ..
  have "1 \<le> ?left" using bounds(3) by simp
  then have q: "1 \<le> (?left + 999) div 1000" "?left \<le> 1000 * ((?left + 999) div 1000)" "1000 * ((?left + 999) div 1000) \<le> ?left + 999" by linarith+
  have sec: "seconds = (?left + 999) div 1000" using s q(1) by simp
  note q = q [folded sec]
  have "at_now b - at_now b mod at_windowMs b = window_start b" by (simp add: window_start_def minus_mod_eq_div_mult)
  moreover have "at_now b mod at_windowMs b < at_windowMs b" using w assms(7) by (simp add: well_named_def)
  ultimately have "window_start (as ! n) < window_start b" using q(2) assms(7,8) by linarith
  then have "\<not> same_bucket (as ! n) b" by (simp add: same_bucket_def)
  moreover have "1000 * (seconds - 1) < at_windowMs b" using q(3) bounds(2) unfolding assms(7) by (simp add: algebra_simps)
  ultimately show ?thesis using q(1) by simp
qed

section \<open>Witnesses\<close>

definition sample_policy :: policy where
  "sample_policy = policy_of ''auth.signin'' 5 30 (Some (10, FromBody ''username'' Identity))"

definition sample_attempt :: "instant \<Rightarrow> attempt" where
  "sample_attempt t = attempt_of sample_policy \<lparr>ci_replica = ''r'', ci_now = t, ci_cleans = True, ci_ipStore = True, ci_subjectStore = True\<rparr>
     IpDimension ''192.0.2.7'' 1"

definition empty_limiter :: limiter where
  "empty_limiter = \<lparr>lm_buckets = (\<lambda>_. None), lm_nextCleanup = (\<lambda>_. 0)\<rparr>"

lemma sample_guarded: "0 \<le> t \<Longrightarrow> guarded (sample_attempt t)"
proof -
  have "sample_policy \<in> set rate_limits" by (simp add: rate_limits_def sample_policy_def)
  moreover assume "0 \<le> t"
  ultimately show ?thesis unfolding guarded_def sample_attempt_def by fastforce
qed

lemma sample_attempt_simps:
  "at_now (sample_attempt t) = t" "at_limit (sample_attempt t) = 1" "at_windowMs (sample_attempt t) = 300000"
  "same_bucket (sample_attempt 0) (sample_attempt 0)"
  by (simp_all add: sample_attempt_def attempt_of_def sample_policy_def policy_of_def minute_def same_bucket_def)

text \<open>The second attempt in a window of a budget of one is refused.\<close>

theorem rate_limits_refine_counting_witness:
  "map de_allowed (consume_all (\<lambda>x. x) [sample_attempt 0, sample_attempt 0] empty_limiter) = [True, False]"
  using rate_limits_refine_counting [of "[sample_attempt 0, sample_attempt 0]" "\<lambda>x. x" empty_limiter] sample_guarded [of 0]
  by (simp add: sample_attempt_simps empty_limiter_def)

theorem announced_wait_reaches_a_new_window_witness:
  "\<not> same_bucket (sample_attempt 0) (sample_attempt 300000) \<and>
     1 \<le> de_retryAfterSeconds (consume_all (\<lambda>x. x) [sample_attempt 0] empty_limiter ! 0)"
proof -
  have d: "de_retryAfterSeconds (consume_all (\<lambda>x. x) [sample_attempt 0] empty_limiter ! 0) = 300"
    by (simp add: consume_def Let_def empty_limiter_def upsert_bucket_def retry_after_def window_start_def sample_attempt_simps)
  show ?thesis
    using announced_wait_reaches_a_new_window [of "[sample_attempt 0]" "\<lambda>x. x" empty_limiter 0 300 "sample_attempt 300000"] sample_guarded [of 0] d
    by (simp add: sample_attempt_simps empty_limiter_def)
qed

end
