(* ===== verification/Sessions.thy ===== *)
theory Sessions
  imports Schema
begin

text \<open>
  Browser sessions (\<open>auth/sessions.service.ts\<close>, \<open>session-cookie.ts\<close>, \<open>jwt-auth.guard.ts\<close>) and the protection
  against forged requests (\<open>common/csrf-protection.ts\<close>).

  \<open>accounts_db\<close> holds the tables of accounts, sessions and links, the queued mails, and what the audit log was
  given. A token is a signed payload: \<open>sign\<close> and \<open>verify\<close> are the JWT library, which also rejects tokens past
  their own expiry. \<open>newest_first\<close> is the order of the overview.
\<close>

section \<open>Tables\<close>

record account_row =
  ac_id :: string
  ac_giteaId :: "int option"
  ac_username :: string
  ac_name :: "string option"
  ac_email :: "string option"
  ac_avatarUrl :: "string option"
  ac_accessToken :: string
  ac_passwordHash :: "string option"
  ac_platformAdmin :: bool
  ac_active :: bool
  ac_mustChangePassword :: bool
  ac_tokenVersion :: nat
  ac_emailVerifiedAt :: "instant option"
  ac_scopedAt :: "instant option"
  ac_workspace :: "(string \<times> string) option"

record session_row =
  se_id :: string
  se_userId :: string
  se_version :: nat
  se_userAgent :: "string option"
  se_createdAt :: instant
  se_expiresAt :: instant
  se_revokedAt :: "instant option"

datatype link_kind = EmailVerify | PasswordReset | Activation

record link_row =
  li_id :: string
  li_userId :: string
  li_kind :: link_kind
  li_tokenHash :: string
  li_expiresAt :: instant
  li_usedAt :: "instant option"

record mail_row =
  ml_userId :: string
  ml_kind :: link_kind
  ml_recipient :: string
  ml_displayName :: string
  ml_url :: string

record account_event =
  ev_action :: string
  ev_account :: "(string \<times> string) option"
  ev_actor :: "string option"
  ev_failed :: bool
  ev_details :: "(string \<times> json) list"

record accounts_db =
  ad_accounts :: "account_row list"
  ad_sessions :: "session_row list"
  ad_links :: "link_row list"
  ad_mails :: "mail_row list"
  ad_log :: "account_event list"

definition account :: "string \<Rightarrow> accounts_db \<Rightarrow> account_row option" where
  "account i d = find_first (\<lambda>a. ac_id a = i) (ad_accounts d)"

definition session :: "string \<Rightarrow> accounts_db \<Rightarrow> session_row option" where
  "session i d = find_first (\<lambda>s. se_id s = i) (ad_sessions d)"

section \<open>Sessions\<close>

definition session_ttl_ms :: int where "session_ttl_ms = 7 * 24 * 60 * 60 * 1000"

record payload =
  pl_sub :: string
  pl_ver :: "nat option"
  pl_sid :: "string option"

definition version_of :: "payload \<Rightarrow> nat" where
  "version_of p = (case pl_ver p of None \<Rightarrow> 0 | Some v \<Rightarrow> v)"

record authenticated_user =
  au_id :: string
  au_active :: bool
  au_tokenVersion :: nat
  au_mustChangePassword :: bool
  au_sessionId :: "string option"

definition authenticated_as :: "account_row \<Rightarrow> string option \<Rightarrow> authenticated_user" where
  "authenticated_as a sid = \<lparr>au_id = ac_id a, au_active = ac_active a, au_tokenVersion = ac_tokenVersion a,
     au_mustChangePassword = ac_mustChangePassword a, au_sessionId = sid\<rparr>"

definition short_agent :: "string option \<Rightarrow> string option" where
  "short_agent u = (case u of None \<Rightarrow> None | Some s \<Rightarrow> if take 256 s = [] then None else Some (take 256 s))"

text \<open>\<open>sid\<close> is the fresh id of the row.\<close>

definition issue ::
  "(payload \<Rightarrow> string) \<Rightarrow> instant \<Rightarrow> string \<Rightarrow> account_row \<Rightarrow> string option \<Rightarrow> accounts_db \<Rightarrow> accounts_db \<times> string" where
  "issue sign now sid a agent d =
     (d\<lparr>ad_sessions := create \<lparr>se_id = sid, se_userId = ac_id a, se_version = ac_tokenVersion a, se_userAgent = short_agent agent,
          se_createdAt = now, se_expiresAt = now + session_ttl_ms, se_revokedAt = None\<rparr>
        (delete_many (\<lambda>s. se_expiresAt s < now) (ad_sessions d))\<rparr>,
      sign \<lparr>pl_sub = ac_id a, pl_ver = Some (ac_tokenVersion a), pl_sid = Some sid\<rparr>)"

definition payload_account :: "instant \<Rightarrow> payload \<Rightarrow> accounts_db \<Rightarrow> account_row option outcome" where
  "payload_account now p d =
     (if truthy (pl_sid p)
      then (case session (the (pl_sid p)) d of
          None \<Rightarrow> Inl (Unauthorized ''Session has been revoked'')
        | Some s \<Rightarrow>
            if se_userId s \<noteq> pl_sub p \<or> se_revokedAt s \<noteq> None \<or> se_expiresAt s \<le> now
            then Inl (Unauthorized ''Session has been revoked'') else Inr (account (se_userId s) d))
      else Inr (account (pl_sub p) d))"

definition authenticate_payload :: "instant \<Rightarrow> payload \<Rightarrow> accounts_db \<Rightarrow> authenticated_user outcome" where
  "authenticate_payload now p d = (case payload_account now p d of
      Inl e \<Rightarrow> Inl e
    | Inr None \<Rightarrow> Inl (Unauthorized ''Session is no longer valid'')
    | Inr (Some a) \<Rightarrow>
        if \<not> ac_active a then Inl (Unauthorized ''Session is no longer valid'')
        else if version_of p \<noteq> ac_tokenVersion a then Inl (Unauthorized ''Session has been revoked'')
        else Inr (authenticated_as a (pl_sid p)))"

definition authenticate ::
  "(string \<Rightarrow> payload option) \<Rightarrow> instant \<Rightarrow> string \<Rightarrow> accounts_db \<Rightarrow> authenticated_user outcome" where
  "authenticate verify now token d = (case verify token of
      None \<Rightarrow> Inl (Unauthorized ''Invalid token'') | Some p \<Rightarrow> authenticate_payload now p d)"

definition revoke_payload :: "instant \<Rightarrow> payload \<Rightarrow> accounts_db \<Rightarrow> accounts_db" where
  "revoke_payload now p d =
     (if truthy (pl_sid p)
      then d\<lparr>ad_sessions := rewrite (\<lambda>s. Some (se_id s) = pl_sid p \<and> se_userId s = pl_sub p \<and> se_revokedAt s = None)
         (\<lambda>s. s\<lparr>se_revokedAt := Some now\<rparr>) (ad_sessions d)\<rparr>
      else d\<lparr>ad_accounts := rewrite (\<lambda>a. ac_id a = pl_sub p \<and> ac_tokenVersion a = version_of p)
         (\<lambda>a. a\<lparr>ac_tokenVersion := ac_tokenVersion a + 1\<rparr>) (ad_accounts d)\<rparr>)"

definition revoke_token :: "(string \<Rightarrow> payload option) \<Rightarrow> instant \<Rightarrow> string \<Rightarrow> accounts_db \<Rightarrow> accounts_db" where
  "revoke_token verify now token d = (case verify token of None \<Rightarrow> d | Some p \<Rightarrow> revoke_payload now p d)"

text \<open>A session the overview shows.\<close>

definition live_session :: "instant \<Rightarrow> account_row \<Rightarrow> session_row \<Rightarrow> bool" where
  "live_session now a s = (se_userId s = ac_id a \<and> se_version s = ac_tokenVersion a \<and> se_revokedAt s = None \<and> now < se_expiresAt s)"

record session_summary =
  sm_id :: string
  sm_userAgent :: "string option"
  sm_createdAt :: instant
  sm_current :: bool

definition list_sessions :: "instant \<Rightarrow> string \<Rightarrow> string option \<Rightarrow> accounts_db \<Rightarrow> session_summary list" where
  "list_sessions now i current d = (case account i d of
      None \<Rightarrow> []
    | Some a \<Rightarrow> map (\<lambda>s. \<lparr>sm_id = se_id s, sm_userAgent = se_userAgent s, sm_createdAt = se_createdAt s, sm_current = (Some (se_id s) = current)\<rparr>)
        (newest_first se_createdAt (filter (live_session now a) (ad_sessions d))))"

datatype session_filter = OneSession string | AllExcept "string option"

fun selects :: "session_filter \<Rightarrow> session_row \<Rightarrow> bool" where
  "selects (OneSession i) s = (i = [] \<or> se_id s = i)"
| "selects (AllExcept e) s = (\<not> truthy e \<or> Some (se_id s) \<noteq> e)"

definition revoke_sessions :: "instant \<Rightarrow> string \<Rightarrow> session_filter \<Rightarrow> accounts_db \<Rightarrow> accounts_db \<times> nat" where
  "revoke_sessions now i f d = (case account i d of
      None \<Rightarrow> (d, 0)
    | Some a \<Rightarrow> (case update_many (\<lambda>s. live_session now a s \<and> selects f s) (\<lambda>s. s\<lparr>se_revokedAt := Some now\<rparr>) (ad_sessions d) of
        (n, ss) \<Rightarrow> (d\<lparr>ad_sessions := ss\<rparr>, n)))"

section \<open>Cookies and the guard\<close>

definition read_string_cookie :: "json \<Rightarrow> string \<Rightarrow> string option" where
  "read_string_cookie cookies n = (case cookies of
      JObj fs \<Rightarrow> (case map_of fs n of Some (JStr v) \<Rightarrow> Some v | _ \<Rightarrow> None) | _ \<Rightarrow> None)"

definition session_cookie_name :: "bool \<Rightarrow> string" where
  "session_cookie_name secure = (if secure then ''__Host-initpad_token'' else ''initpad_token'')"

definition read_session_token :: "bool \<Rightarrow> json \<Rightarrow> string option" where
  "read_session_token secure cookies = read_string_cookie cookies (session_cookie_name secure)"

record entry =
  en_public :: bool
  en_userId :: "string option"
  en_cookies :: json
  en_allowedDuringPasswordChange :: bool

text \<open>Whether the request may enter, and as whom.\<close>

definition can_enter ::
  "bool \<Rightarrow> (string \<Rightarrow> payload option) \<Rightarrow> instant \<Rightarrow> entry \<Rightarrow> accounts_db \<Rightarrow> (string \<times> string option) option outcome" where
  "can_enter secure verify now q d =
     (if en_public q \<or> truthy (en_userId q) then Inr None
      else (let token = read_session_token secure (en_cookies q) in
        if \<not> truthy token then Inl (Unauthorized ''Not authenticated'')
        else (case authenticate verify now (the token) d of
            Inl e \<Rightarrow> Inl e
          | Inr u \<Rightarrow>
              if au_mustChangePassword u \<and> \<not> en_allowedDuringPasswordChange q
              then Inl (Forbidden ''Password change required before continuing'')
              else Inr (Some (au_id u, au_sessionId u)))))"

section \<open>Forged requests\<close>

record browser_request =
  br_method :: string
  br_fetchSite :: "string option"
  br_contentType :: "string option"
  br_cookies :: json

definition upper_char :: "char \<Rightarrow> char" where
  "upper_char c = (if is_lower c then char_of (of_char c - 32 :: nat) else c)"

definition media_type :: "string option \<Rightarrow> string" where
  "media_type t = lower (trim (hd (split_on (CHR '';'') (case t of None \<Rightarrow> [] | Some s \<Rightarrow> s))))"

definition csrf_rejection :: "bool \<Rightarrow> browser_request \<Rightarrow> string option" where
  "csrf_rejection secure q =
     (if map upper_char (br_method q) \<in> {''GET'', ''HEAD'', ''OPTIONS''} then None
      else if \<not> truthy (read_session_token secure (br_cookies q)) then None
      else if map_option lower (br_fetchSite q) \<in> {Some ''cross-site'', Some ''same-site''}
      then Some ''Request from another site was blocked''
      else if media_type (br_contentType q) \<noteq> ''application/json''
      then Some ''Signed-in requests that change data must use application/json'' else None)"

end
