(* ===== verification/Accounts.thy ===== *)
theory Accounts
  imports Sessions
begin

text \<open>
  Accounts (\<open>auth/auth.service.ts\<close>, \<open>admin/admin.service.ts\<close>): registration and the first administrator, sign-in,
  passwords, single-use links, and the administration of users.

  \<open>world\<close> is the database together with the state of Gitea. Gitea, the hash functions, the Unicode
  normalisation and the fresh values of a call are parameters (the repositories whose tokens are revoked with an
  account are read by the parameter that revokes them); \<open>mid\<close> is what other requests commit between the
  first read and the write of a handler. A transaction that updates a row that is gone throws and leaves the
  database as it was.
\<close>

section \<open>Parameters\<close>

record settings =
  st_saas :: bool
  st_open :: bool
  st_bootstrapToken :: "string option"
  st_production :: bool
  st_mail :: bool
  st_frontend :: string
  st_docs :: string

record crypto =
  cr_hashPassword :: "string \<Rightarrow> string"
  cr_verifyPassword :: "string \<Rightarrow> string \<Rightarrow> bool"
  cr_sha256 :: "string \<Rightarrow> string"
  cr_encrypt :: "string \<Rightarrow> string"
  cr_nfkc :: "string \<Rightarrow> string"
  cr_sign :: "payload \<Rightarrow> string"

text \<open>Fresh values of a call.\<close>

record fresh =
  fr_now :: instant
  fr_id :: string
  fr_sid :: string
  fr_link :: string
  fr_token :: string
  fr_password :: string

record 'g gitea =
  gi_createUser :: "string \<Rightarrow> string \<Rightarrow> string \<Rightarrow> 'g \<Rightarrow> 'g \<times> (int \<times> string) outcome"
  gi_createCloneToken :: "string \<Rightarrow> string \<Rightarrow> 'g \<Rightarrow> 'g \<times> string outcome"
  gi_randomizePassword :: "string \<Rightarrow> 'g \<Rightarrow> 'g \<times> unit outcome"
  gi_deleteUser :: "string \<Rightarrow> 'g \<Rightarrow> 'g \<times> unit outcome"
  gi_revokeCredentials :: "string \<Rightarrow> 'g \<Rightarrow> 'g \<times> unit outcome"
  gi_setActive :: "string \<Rightarrow> bool \<Rightarrow> 'g \<Rightarrow> 'g \<times> unit outcome"

record 'g world =
  wo_db :: accounts_db
  wo_gitea :: 'g

type_synonym ('g, 'a) handler = "'g world \<Rightarrow> 'g world \<times> 'a outcome"

definition reply :: "'a outcome \<Rightarrow> ('g, 'a) handler" where
  "reply r w = (w, r)"

definition bind_to :: "('g, 'a) handler \<Rightarrow> ('a \<Rightarrow> ('g, 'b) handler) \<Rightarrow> ('g, 'b) handler" where
  "bind_to h f w = (case h w of (w', Inl e) \<Rightarrow> (w', Inl e) | (w', Inr x) \<Rightarrow> f x w')"

definition reading :: "(accounts_db \<Rightarrow> ('g, 'a) handler) \<Rightarrow> ('g, 'a) handler" where
  "reading f w = f (wo_db w) w"

definition writing :: "(accounts_db \<Rightarrow> accounts_db \<times> 'a outcome) \<Rightarrow> ('g, 'a) handler" where
  "writing f w = (case f (wo_db w) of (d, r) \<Rightarrow> (w\<lparr>wo_db := d\<rparr>, r))"

definition calling :: "('g \<Rightarrow> 'g \<times> 'a outcome) \<Rightarrow> ('g, 'a) handler" where
  "calling f w = (case f (wo_gitea w) of (g, r) \<Rightarrow> (w\<lparr>wo_gitea := g\<rparr>, r))"

section \<open>Events and sessions of the service\<close>

definition account_event :: "string \<Rightarrow> account_row option \<Rightarrow> string option \<Rightarrow> bool \<Rightarrow> (string \<times> json) list \<Rightarrow> accounts_db \<Rightarrow> accounts_db" where
  "account_event action a actor failed details d =
     d\<lparr>ad_log := ad_log d @ [\<lparr>ev_action = action, ev_account = map_option (\<lambda>a. (ac_id a, ac_username a)) a, ev_actor = actor,
        ev_failed = failed, ev_details = details\<rparr>]\<rparr>"

record session_user =
  su_id :: string
  su_username :: string
  su_name :: "string option"
  su_email :: "string option"
  su_avatarUrl :: "string option"
  su_admin :: bool
  su_saas :: bool
  su_docsUrl :: "string option"
  su_mustChangePassword :: bool
  su_emailVerified :: bool

definition to_session :: "settings \<Rightarrow> account_row \<Rightarrow> session_user" where
  "to_session st a = \<lparr>su_id = ac_id a, su_username = ac_username a, su_name = ac_name a, su_email = ac_email a,
     su_avatarUrl = ac_avatarUrl a, su_admin = ac_platformAdmin a, su_saas = st_saas st,
     su_docsUrl = (if st_docs st = [] then None else Some (st_docs st)),
     su_mustChangePassword = ac_mustChangePassword a, su_emailVerified = (ac_emailVerifiedAt a \<noteq> None)\<rparr>"

definition create_session ::
  "settings \<Rightarrow> crypto \<Rightarrow> fresh \<Rightarrow> account_row \<Rightarrow> string option \<Rightarrow> accounts_db \<Rightarrow> accounts_db \<times> (string \<times> session_user) outcome" where
  "create_session st cr fr a agent d = (case issue (cr_sign cr) (fr_now fr) (fr_sid fr) a agent d of
     (d', t) \<Rightarrow> (d', Inr (t, to_session st a)))"

definition me :: "settings \<Rightarrow> string \<Rightarrow> accounts_db \<Rightarrow> session_user outcome" where
  "me st i d = (case account i d of None \<Rightarrow> Inl (Unauthorized []) | Some a \<Rightarrow> Inr (to_session st a))"

definition end_sessions :: "fresh \<Rightarrow> string \<Rightarrow> session_filter \<Rightarrow> accounts_db \<Rightarrow> accounts_db \<times> nat outcome" where
  "end_sessions fr i f d = (case account i d of
      None \<Rightarrow> (d, Inl (Unauthorized []))
    | Some a \<Rightarrow> (case revoke_sessions (fr_now fr) i f d of (d', n) \<Rightarrow>
        (if n > 0 then account_event ''auth.sessions_ended'' (Some a) (Some i) False [(''sessions'', JNum (int n))] d' else d', Inr n)))"

text \<open>One row, changed with its event, in a transaction.\<close>

definition change_account :: "string \<Rightarrow> (account_row \<Rightarrow> account_row) \<Rightarrow> (account_row \<Rightarrow> accounts_db \<Rightarrow> accounts_db) \<Rightarrow> accounts_db \<Rightarrow> accounts_db \<times> account_row outcome" where
  "change_account i f ev d = (case update_row ac_id i (\<lambda>a. Some (f a)) (ad_accounts d) of
      (_, None) \<Rightarrow> (d, Inl (ServerError ''Record to update not found''))
    | (as, Some a) \<Rightarrow> (ev a (d\<lparr>ad_accounts := as\<rparr>), Inr a))"

section \<open>Registration\<close>

definition reserved_usernames :: "string list" where
  "reserved_usernames = [''.well-known'', ''admin'', ''api'', ''assets'', ''attachments'', ''avatar'', ''avatars'', ''captcha'', ''commits'',
     ''debug'', ''devtools'', ''error'', ''explore'', ''favicon.ico'', ''ghost'', ''issues'', ''login'', ''manifest.json'', ''metrics'',
     ''milestones'', ''new'', ''notifications'', ''org'', ''pulls'', ''raw'', ''repo'', ''repo-avatars'', ''robots.txt'', ''search'',
     ''serviceworker.js'', ''ssh_info'', ''swagger.v1.json'', ''user'', ''v2'']"

definition is_reserved_username :: "string \<Rightarrow> bool" where
  "is_reserved_username u = (lower (trim u) \<in> set reserved_usernames)"

definition reserved_username_message :: string where
  "reserved_username_message =
     ''This username is reserved (for example \"admin\"). Choose another one; the first account still becomes the administrator.''"

definition normalize_account_identifier :: "crypto \<Rightarrow> string \<Rightarrow> string" where
  "normalize_account_identifier cr v = lower (trim (cr_nfkc cr v))"

text \<open>Case-insensitive equality of a column with a normalised identifier.\<close>

definition identifier_equals :: "crypto \<Rightarrow> string \<Rightarrow> string \<Rightarrow> bool" where
  "identifier_equals cr v column = (lower column = lower (normalize_account_identifier cr v))"

definition named :: "crypto \<Rightarrow> string \<Rightarrow> string \<Rightarrow> account_row \<Rightarrow> bool" where
  "named cr username email a = (identifier_equals cr username (ac_username a) \<or>
     (case ac_email a of None \<Rightarrow> False | Some e \<Rightarrow> identifier_equals cr email e))"

definition registration_available :: "settings \<Rightarrow> accounts_db \<Rightarrow> bool" where
  "registration_available st d = (if st_saas st then False else if st_open st then True else ad_accounts d = [])"

definition bootstrap_token_enforced :: "settings \<Rightarrow> bool" where
  "bootstrap_token_enforced st = (truthy (st_bootstrapToken st) \<or> st_production st)"

definition bootstrap_required :: "settings \<Rightarrow> accounts_db \<Rightarrow> bool" where
  "bootstrap_required st d = (if st_saas st \<or> \<not> bootstrap_token_enforced st then False else ad_accounts d = [])"

definition assert_bootstrap_token :: "settings \<Rightarrow> crypto \<Rightarrow> string option \<Rightarrow> unit outcome" where
  "assert_bootstrap_token st cr candidate =
     (if \<not> truthy (st_bootstrapToken st)
      then Inl (Forbidden ''The first administrator needs a setup token. Set INITPAD_BOOTSTRAP_TOKEN (install.sh generates it) and restart InitPad.'')
      else if cr_sha256 cr (the (st_bootstrapToken st)) \<noteq> cr_sha256 cr (case candidate of None \<Rightarrow> [] | Some c \<Rightarrow> trim c)
      then Inl (Forbidden ''The setup token is not valid. Use the token printed at the end of install.sh.'')
      else Inr ())"

record managed_user =
  mu_username :: string
  mu_email :: string
  mu_name :: "string option"
  mu_password :: string
  mu_admin :: bool
  mu_mustChange :: bool

text \<open>The unique columns of the table, and the slug of the personal workspace.\<close>

definition unique_account :: "account_row \<Rightarrow> accounts_db \<Rightarrow> bool" where
  "unique_account a d = list_all (\<lambda>b. ac_id b \<noteq> ac_id a \<and> ac_username b \<noteq> ac_username a \<and>
     (ac_giteaId a = None \<or> ac_giteaId b \<noteq> ac_giteaId a) \<and> (ac_email a = None \<or> ac_email b \<noteq> ac_email a) \<and>
     (ac_workspace a = None \<or> map_option fst (ac_workspace b) \<noteq> map_option fst (ac_workspace a))) (ad_accounts d)"

definition create_account :: "account_row \<Rightarrow> accounts_db \<Rightarrow> accounts_db \<times> account_row outcome" where
  "create_account a d = (if unique_account a d then (d\<lparr>ad_accounts := create a (ad_accounts d)\<rparr>, Inr a)
     else (d, Inl (ServerError ''Unique constraint failed'')))"

definition managed_row :: "crypto \<Rightarrow> fresh \<Rightarrow> managed_user \<Rightarrow> string \<Rightarrow> int \<times> string \<Rightarrow> string \<Rightarrow> account_row" where
  "managed_row cr fr u email gu token = (case gu of (gid, login) \<Rightarrow>
     \<lparr>ac_id = fr_id fr, ac_giteaId = Some gid, ac_username = login, ac_name = mu_name u, ac_email = Some email, ac_avatarUrl = None,
      ac_accessToken = cr_encrypt cr token, ac_passwordHash = Some (cr_hashPassword cr (mu_password u)), ac_platformAdmin = mu_admin u,
      ac_active = True, ac_mustChangePassword = mu_mustChange u, ac_tokenVersion = 0, ac_emailVerifiedAt = None,
      ac_scopedAt = Some (fr_now fr), ac_workspace = Some (''personal-'' @ lower login, login @ [CHR 0x27] @ ''s workspace'')\<rparr>)"

definition roll_back :: "'g gitea \<Rightarrow> string \<Rightarrow> ('g, 'a) handler \<Rightarrow> ('g, 'a) handler" where
  "roll_back gt login h w = (case h w of
      (w', Inr x) \<Rightarrow> (w', Inr x)
    | (w', Inl e) \<Rightarrow> if login = [] then (w', Inl e) else (case calling (gi_deleteUser gt login) w' of
        (w'', Inl e') \<Rightarrow> (w'', Inl e') | (w'', Inr _) \<Rightarrow> (w'', Inl e)))"

definition provision_managed_user ::
  "'g gitea \<Rightarrow> crypto \<Rightarrow> fresh \<Rightarrow> (accounts_db \<Rightarrow> accounts_db) \<Rightarrow> managed_user \<Rightarrow> ('g, account_row) handler" where
  "provision_managed_user gt cr fr mid u =
     (let username = normalize_account_identifier cr (mu_username u); email = normalize_account_identifier cr (mu_email u) in
      if is_reserved_username username then reply (Inl (BadRequest reserved_username_message))
      else reading (\<lambda>d.
        if list_ex (named cr username email) (ad_accounts d) then reply (Inl (BadRequest ''Username or e-mail is already taken''))
        else bind_to (calling (gi_createUser gt username email (mu_password u))) (\<lambda>gu.
          roll_back gt (snd gu)
            (bind_to (calling (gi_createCloneToken gt username (mu_password u))) (\<lambda>token.
             bind_to (calling (gi_randomizePassword gt username)) (\<lambda>_.
             writing (\<lambda>d. create_account (managed_row cr fr u email gu token) (mid d))))))))"

record registration =
  rg_username :: string
  rg_email :: string
  rg_password :: string
  rg_bootstrapToken :: "string option"

definition register ::
  "'g gitea \<Rightarrow> settings \<Rightarrow> crypto \<Rightarrow> fresh \<Rightarrow> (accounts_db \<Rightarrow> accounts_db) \<Rightarrow> registration \<Rightarrow> string option \<Rightarrow> ('g, string \<times> session_user) handler" where
  "register gt st cr fr mid r agent = reading (\<lambda>d.
     if \<not> registration_available st d
     then reply (Inl (Forbidden ''Account registration is closed. Ask the platform administrator for access.''))
     else (let first = (ad_accounts d = []) in
       bind_to (reply (if first \<and> bootstrap_token_enforced st then assert_bootstrap_token st cr (rg_bootstrapToken r) else Inr ())) (\<lambda>_.
       bind_to (provision_managed_user gt cr fr mid \<lparr>mu_username = rg_username r, mu_email = rg_email r, mu_name = None,
           mu_password = rg_password r, mu_admin = first, mu_mustChange = False\<rparr>) (\<lambda>a.
       writing (\<lambda>d. create_session st cr fr a agent
         (account_event ''auth.registered'' (Some a) (Some (ac_id a)) False [(''administrator'', JBool first)] d))))))"

section \<open>External accounts\<close>

definition username_char :: "char \<Rightarrow> bool" where
  "username_char c = (is_lower c \<or> is_digit c \<or> c \<in> set ''_.-'')"

definition username_base :: "string \<Rightarrow> string" where
  "username_base login = (let s = map (\<lambda>c. if username_char c then c else CHR ''-'') (lower (if login = [] then ''user'' else login));
     b = take 30 (dropWhile (\<lambda>c. \<not> (is_lower c \<or> is_digit c)) s) in if length b < 2 then b @ ''gh'' else b)"

text \<open>\<open>n\<close> of the 50 candidates are left; \<open>i\<close> is the suffix of the next one.\<close>

fun free_username :: "crypto \<Rightarrow> accounts_db \<Rightarrow> string \<Rightarrow> string \<Rightarrow> nat \<Rightarrow> nat \<Rightarrow> string option" where
  "free_username cr d base candidate i 0 = None"
| "free_username cr d base candidate i (Suc n) =
     (if list_ex (\<lambda>a. identifier_equals cr candidate (ac_username a)) (ad_accounts d)
      then free_username cr d base (base @ ''-'' @ nat_str i) (i + 1) n else Some candidate)"

definition unique_username :: "crypto \<Rightarrow> fresh \<Rightarrow> string \<Rightarrow> accounts_db \<Rightarrow> string" where
  "unique_username cr fr login d = (let base = username_base login in
     case free_username cr d base base 1 50 of Some u \<Rightarrow> u | None \<Rightarrow> base @ ''-'' @ fr_token fr)"

record external_user =
  xu_login :: string
  xu_email :: "string option"
  xu_emailVerified :: bool
  xu_name :: "string option"
  xu_avatarUrl :: "string option"

definition external_email :: "crypto \<Rightarrow> external_user \<Rightarrow> accounts_db \<Rightarrow> string option" where
  "external_email cr x d =
     (let e = normalize_account_identifier cr (case xu_email x of None \<Rightarrow> [] | Some s \<Rightarrow> s) in
      if \<not> xu_emailVerified x \<or> e = [] then None
      else if list_ex (\<lambda>a. case ac_email a of None \<Rightarrow> False | Some f \<Rightarrow> identifier_equals cr e f) (ad_accounts d) then None else Some e)"

definition provision_external_user :: "crypto \<Rightarrow> fresh \<Rightarrow> (accounts_db \<Rightarrow> accounts_db) \<Rightarrow> external_user \<Rightarrow> accounts_db \<Rightarrow> accounts_db \<times> account_row outcome" where
  "provision_external_user cr fr mid x d =
     (let username = unique_username cr fr (xu_login x) d; email = external_email cr x d in
      create_account \<lparr>ac_id = fr_id fr, ac_giteaId = None, ac_username = username, ac_name = xu_name x, ac_email = email,
        ac_avatarUrl = xu_avatarUrl x, ac_accessToken = [], ac_passwordHash = None, ac_platformAdmin = False, ac_active = True,
        ac_mustChangePassword = False, ac_tokenVersion = 0,
        ac_emailVerifiedAt = (if truthy email \<and> xu_emailVerified x then Some (fr_now fr) else None), ac_scopedAt = None,
        ac_workspace = Some (''personal-'' @ lower username, username @ [CHR 0x27] @ ''s workspace'')\<rparr> (mid d))"

section \<open>Signing in and changing the password\<close>

definition dummy_password_hash :: string where
  "dummy_password_hash = ''42424242424242424242424242424242:7b1eed877afda522cc3d7931c595e1286685d07309088a38f59e89fcc7a6757d6007f55ec667d4a21cb6c989d838fffa305bb45467b6f388333ecf7d528cef12''"

definition find_identity :: "crypto \<Rightarrow> string \<Rightarrow> accounts_db \<Rightarrow> account_row option" where
  "find_identity cr i d = find_first (named cr i i) (ad_accounts d)"

definition password_matches :: "crypto \<Rightarrow> string \<Rightarrow> account_row option \<Rightarrow> bool" where
  "password_matches cr password a = cr_verifyPassword cr password
     (case a of None \<Rightarrow> dummy_password_hash
      | Some a \<Rightarrow> if truthy (ac_passwordHash a) then the (ac_passwordHash a) else dummy_password_hash)"

definition sign_in_failed :: "account_row option \<Rightarrow> string \<Rightarrow> string \<Rightarrow> accounts_db \<Rightarrow> accounts_db \<times> 'a outcome" where
  "sign_in_failed a reason message d = (account_event ''auth.sign_in_failed'' a None True [(''reason'', JStr reason)] d, Inl (Unauthorized message))"

definition login ::
  "settings \<Rightarrow> crypto \<Rightarrow> fresh \<Rightarrow> string \<Rightarrow> string \<Rightarrow> string option \<Rightarrow> accounts_db \<Rightarrow> accounts_db \<times> (string \<times> session_user) outcome" where
  "login st cr fr username password agent d =
     (if st_saas st then (d, Inl (Forbidden ''Password sign-in is disabled in the SaaS edition''))
      else (let a = find_identity cr (normalize_account_identifier cr username) d in
        case a of
          None \<Rightarrow> sign_in_failed None ''unknown_account'' ''Invalid username or password'' d
        | Some u \<Rightarrow>
            if \<not> truthy (ac_passwordHash u) \<or> \<not> password_matches cr password a
            then sign_in_failed a ''invalid_password'' ''Invalid username or password'' d
            else if \<not> ac_active u then sign_in_failed a ''deactivated'' ''This account has been deactivated'' d
            else create_session st cr fr u agent
              (account_event ''auth.signed_in'' a (Some (ac_id u)) False [(''method'', JStr ''password'')] d)))"

definition new_password :: "crypto \<Rightarrow> string \<Rightarrow> bool \<Rightarrow> account_row \<Rightarrow> account_row" where
  "new_password cr password must a = a\<lparr>ac_passwordHash := Some (cr_hashPassword cr password), ac_mustChangePassword := must,
     ac_tokenVersion := ac_tokenVersion a + 1\<rparr>"

definition by_self :: "string \<Rightarrow> account_row \<Rightarrow> accounts_db \<Rightarrow> accounts_db" where
  "by_self action a = account_event action (Some a) (Some (ac_id a)) False []"

definition change_password ::
  "settings \<Rightarrow> crypto \<Rightarrow> fresh \<Rightarrow> (accounts_db \<Rightarrow> accounts_db) \<Rightarrow> string \<Rightarrow> string \<Rightarrow> string \<Rightarrow> string option \<Rightarrow> accounts_db
     \<Rightarrow> accounts_db \<times> (string \<times> session_user) outcome" where
  "change_password st cr fr mid i current password agent d = (case account i d of
      None \<Rightarrow> (d, Inl (Unauthorized ''Current password is incorrect''))
    | Some a \<Rightarrow>
        if \<not> truthy (ac_passwordHash a) \<or> \<not> cr_verifyPassword cr current (the (ac_passwordHash a))
        then (d, Inl (Unauthorized ''Current password is incorrect''))
        else if cr_verifyPassword cr password (the (ac_passwordHash a))
        then (d, Inl (BadRequest ''New password must differ from the current one''))
        else (case change_account i (new_password cr password False) (by_self ''auth.password_changed'') (mid d) of
            (d', Inl e) \<Rightarrow> (d', Inl e)
          | (d', Inr u) \<Rightarrow> create_session st cr fr u agent d'))"

section \<open>Links\<close>

definition email_verify_ttl_ms :: int where "email_verify_ttl_ms = 24 * 60 * 60 * 1000"
definition password_reset_ttl_ms :: int where "password_reset_ttl_ms = 60 * 60 * 1000"
definition activation_ttl_ms :: int where "activation_ttl_ms = 3 * 24 * 60 * 60 * 1000"

definition invalid_link :: http_error where
  "invalid_link = BadRequest ''This link is invalid or has expired''"

definition issue_auth_token :: "crypto \<Rightarrow> fresh \<Rightarrow> string \<Rightarrow> link_kind \<Rightarrow> int \<Rightarrow> accounts_db \<Rightarrow> accounts_db" where
  "issue_auth_token cr fr i kind ttl d = d\<lparr>ad_links := create \<lparr>li_id = fr_link fr, li_userId = i, li_kind = kind,
       li_tokenHash = cr_sha256 cr (fr_token fr), li_expiresAt = fr_now fr + ttl, li_usedAt = None\<rparr>
     (rewrite (\<lambda>l. li_userId l = i \<and> li_kind l = kind \<and> li_usedAt l = None) (\<lambda>l. l\<lparr>li_usedAt := Some (fr_now fr)\<rparr>) (ad_links d))\<rparr>"

definition strip_slashes :: "string \<Rightarrow> string" where
  "strip_slashes s = rev (dropWhile (\<lambda>c. c = CHR ''/'') (rev s))"

definition auth_link_url :: "settings \<Rightarrow> string \<Rightarrow> string \<Rightarrow> string" where
  "auth_link_url st route token = strip_slashes (st_frontend st) @ ''/'' @ route @ ''#'' @ token"

text \<open>The link itself is returned only when no mail carries it.\<close>

definition issue_auth_link ::
  "settings \<Rightarrow> crypto \<Rightarrow> fresh \<Rightarrow> account_row \<Rightarrow> link_kind \<Rightarrow> int \<Rightarrow> string \<Rightarrow> accounts_db \<Rightarrow> accounts_db \<times> string option" where
  "issue_auth_link st cr fr a kind ttl route d =
     (let d' = issue_auth_token cr fr (ac_id a) kind ttl d; link = auth_link_url st route (fr_token fr) in
      if st_mail st \<and> truthy (ac_email a)
      then (d'\<lparr>ad_mails := ad_mails d' @ [\<lparr>ml_userId = ac_id a, ml_kind = kind, ml_recipient = the (ac_email a),
          ml_displayName = (if truthy (ac_name a) then the (ac_name a) else ac_username a), ml_url = link\<rparr>]\<rparr>, None)
      else (d', Some link))"

definition usable_link :: "instant \<Rightarrow> link_kind \<Rightarrow> link_row \<Rightarrow> bool" where
  "usable_link now kind l = (li_kind l = kind \<and> li_usedAt l = None \<and> now \<le> li_expiresAt l)"

definition find_usable_auth_token :: "crypto \<Rightarrow> instant \<Rightarrow> string \<Rightarrow> link_kind \<Rightarrow> accounts_db \<Rightarrow> link_row outcome" where
  "find_usable_auth_token cr now token kind d =
     (if token = [] then Inl invalid_link
      else (case find_first (\<lambda>l. li_tokenHash l = cr_sha256 cr token) (ad_links d) of
          None \<Rightarrow> Inl invalid_link
        | Some l \<Rightarrow> if usable_link now kind l then Inr l else Inl invalid_link))"

definition claim_auth_token :: "instant \<Rightarrow> link_row \<Rightarrow> accounts_db \<Rightarrow> accounts_db \<times> unit outcome" where
  "claim_auth_token now l d = (case update_many (\<lambda>x. li_id x = li_id l \<and> usable_link now (li_kind l) x)
       (\<lambda>x. x\<lparr>li_usedAt := Some now\<rparr>) (ad_links d) of
     (n, ls) \<Rightarrow> (d\<lparr>ad_links := ls\<rparr>, if n = 1 then Inr () else Inl invalid_link))"

definition consume_auth_token ::
  "crypto \<Rightarrow> fresh \<Rightarrow> (accounts_db \<Rightarrow> accounts_db) \<Rightarrow> string \<Rightarrow> link_kind \<Rightarrow> accounts_db \<Rightarrow> accounts_db \<times> string outcome" where
  "consume_auth_token cr fr mid token kind d = (case find_usable_auth_token cr (fr_now fr) token kind d of
      Inl e \<Rightarrow> (d, Inl e)
    | Inr l \<Rightarrow> (case claim_auth_token (fr_now fr) l (mid d) of
        (d', Inl e) \<Rightarrow> (d', Inl e) | (d', Inr _) \<Rightarrow> (d', Inr (li_userId l))))"

definition request_email_verification :: "settings \<Rightarrow> crypto \<Rightarrow> fresh \<Rightarrow> string \<Rightarrow> accounts_db \<Rightarrow> accounts_db \<times> string option outcome" where
  "request_email_verification st cr fr i d =
     (if st_saas st then (d, Inl (BadRequest ''SaaS e-mail verification is provided by GitHub''))
      else (case account i d of
          None \<Rightarrow> (d, Inl (Unauthorized []))
        | Some a \<Rightarrow>
            if \<not> truthy (ac_email a) then (d, Inl (BadRequest ''No e-mail address on file''))
            else if ac_emailVerifiedAt a \<noteq> None then (d, Inl (BadRequest ''E-mail is already verified''))
            else (case issue_auth_link st cr fr a EmailVerify email_verify_ttl_ms ''verify-email'' d of (d', u) \<Rightarrow> (d', Inr u))))"

definition verify_email :: "crypto \<Rightarrow> fresh \<Rightarrow> (accounts_db \<Rightarrow> accounts_db) \<Rightarrow> string \<Rightarrow> accounts_db \<Rightarrow> accounts_db \<times> unit outcome" where
  "verify_email cr fr mid token d = (case consume_auth_token cr fr mid token EmailVerify d of
      (d', Inl e) \<Rightarrow> (d', Inl e)
    | (d', Inr i) \<Rightarrow> (case change_account i (\<lambda>a. a\<lparr>ac_emailVerifiedAt := Some (fr_now fr)\<rparr>) (by_self ''auth.email_verified'') d' of
        (d'', Inl e) \<Rightarrow> (d'', Inl e) | (d'', Inr _) \<Rightarrow> (d'', Inr ())))"

definition request_password_reset :: "settings \<Rightarrow> crypto \<Rightarrow> fresh \<Rightarrow> string \<Rightarrow> accounts_db \<Rightarrow> accounts_db" where
  "request_password_reset st cr fr identity d = (let i = normalize_account_identifier cr identity in
     if i = [] then d
     else (case find_identity cr i d of
         None \<Rightarrow> d
       | Some a \<Rightarrow>
           if \<not> truthy (ac_passwordHash a) \<or> \<not> truthy (ac_email a) \<or> \<not> st_mail st then d
           else account_event ''auth.password_reset_requested'' (Some a) None False []
             (fst (issue_auth_link st cr fr a PasswordReset password_reset_ttl_ms ''reset-password'' d))))"

text \<open>Gitea's credentials of an account; an account without Gitea has none.\<close>

definition unavailable_git :: http_error where
  "unavailable_git = ServerError ''The Git service is temporarily unavailable. Try again in a few minutes.''"

definition revoke_git_credential :: "'g gitea \<Rightarrow> string \<Rightarrow> ('g, unit) handler" where
  "revoke_git_credential gt i = reading (\<lambda>d. case account i d of
      None \<Rightarrow> reply (Inr ())
    | Some a \<Rightarrow>
        if ac_giteaId a = None then reply (Inr ())
        else (\<lambda>w. case calling (gi_revokeCredentials gt (ac_username a)) w of
            (w', Inl _) \<Rightarrow> (w', Inl unavailable_git)
          | (w', Inr _) \<Rightarrow> writing (\<lambda>d. case change_account i (\<lambda>a. a\<lparr>ac_accessToken := []\<rparr>) (\<lambda>_ d. d) d of
              (d', Inl e) \<Rightarrow> (d', Inl e) | (d', Inr _) \<Rightarrow> (d', Inr ())) w'))"

definition reset_password ::
  "'g gitea \<Rightarrow> crypto \<Rightarrow> fresh \<Rightarrow> (accounts_db \<Rightarrow> accounts_db) \<Rightarrow> string \<Rightarrow> string \<Rightarrow> ('g, unit) handler" where
  "reset_password gt cr fr mid token password = reading (\<lambda>d.
     bind_to (reply (find_usable_auth_token cr (fr_now fr) token PasswordReset d)) (\<lambda>l.
     bind_to (revoke_git_credential gt (li_userId l)) (\<lambda>_.
     bind_to (writing (\<lambda>d. claim_auth_token (fr_now fr) l (mid d))) (\<lambda>_.
     bind_to (writing (change_account (li_userId l) (new_password cr password False) (by_self ''auth.password_reset''))) (\<lambda>_.
     reply (Inr ()))))))"

definition create_activation_link :: "settings \<Rightarrow> crypto \<Rightarrow> fresh \<Rightarrow> string \<Rightarrow> accounts_db \<Rightarrow> accounts_db \<times> string option outcome" where
  "create_activation_link st cr fr i d = (case account i d of
      None \<Rightarrow> (d, Inl (BadRequest ''User not found''))
    | Some a \<Rightarrow> (case issue_auth_link st cr fr a Activation activation_ttl_ms ''activate'' d of (d', u) \<Rightarrow> (d', Inr u)))"

definition activate ::
  "settings \<Rightarrow> crypto \<Rightarrow> fresh \<Rightarrow> (accounts_db \<Rightarrow> accounts_db) \<Rightarrow> string \<Rightarrow> string \<Rightarrow> string option \<Rightarrow> accounts_db
     \<Rightarrow> accounts_db \<times> (string \<times> session_user) outcome" where
  "activate st cr fr mid token password agent d = (case consume_auth_token cr fr mid token Activation d of
      (d', Inl e) \<Rightarrow> (d', Inl e)
    | (d', Inr i) \<Rightarrow> (case change_account i (new_password cr password False) (by_self ''auth.account_activated'') d' of
        (d'', Inl e) \<Rightarrow> (d'', Inl e) | (d'', Inr a) \<Rightarrow> create_session st cr fr a agent d''))"

section \<open>Administration\<close>

definition by_admin :: "string \<Rightarrow> string \<Rightarrow> (string \<times> json) list \<Rightarrow> account_row \<Rightarrow> accounts_db \<Rightarrow> accounts_db" where
  "by_admin action actor details a = account_event action (Some a) (Some actor) False details"

definition delivery :: "string option \<Rightarrow> (string \<times> json) list" where
  "delivery u = [(''delivery'', JStr (if u = None then ''email'' else ''manual''))]"

definition admin_create_user ::
  "'g gitea \<Rightarrow> settings \<Rightarrow> crypto \<Rightarrow> fresh \<Rightarrow> (accounts_db \<Rightarrow> accounts_db) \<Rightarrow> string \<Rightarrow> managed_user \<Rightarrow> ('g, account_row \<times> string option) handler" where
  "admin_create_user gt st cr fr mid actor u =
     bind_to (provision_managed_user gt cr fr mid (u\<lparr>mu_password := fr_password fr, mu_mustChange := True\<rparr>)) (\<lambda>a.
     writing (\<lambda>d. case create_activation_link st cr fr (ac_id a)
         (by_admin ''user.created'' actor [(''platformRole'', JStr (if ac_platformAdmin a then ''admin'' else ''user''))] a d) of
       (d', Inl e) \<Rightarrow> (d', Inl e)
     | (d', Inr l) \<Rightarrow> (by_admin ''user.activation_link_issued'' actor (delivery l) a d', Inr (a, l))))"

definition admin_create_activation_link :: "settings \<Rightarrow> crypto \<Rightarrow> fresh \<Rightarrow> string \<Rightarrow> string \<Rightarrow> accounts_db \<Rightarrow> accounts_db \<times> string option outcome" where
  "admin_create_activation_link st cr fr actor i d = (case account i d of
      None \<Rightarrow> (d, Inl (NotFound ''User not found''))
    | Some a \<Rightarrow> (case create_activation_link st cr fr i d of
        (d', Inl e) \<Rightarrow> (d', Inl e)
      | (d', Inr l) \<Rightarrow> (by_admin ''user.activation_link_issued'' actor (delivery l) a d', Inr l)))"

definition other_admins :: "string \<Rightarrow> accounts_db \<Rightarrow> nat" where
  "other_admins i d = count_where (\<lambda>a. ac_platformAdmin a \<and> ac_active a \<and> ac_id a \<noteq> i) (ad_accounts d)"

definition set_activity :: "bool \<Rightarrow> account_row \<Rightarrow> account_row" where
  "set_activity active a = (if active then a\<lparr>ac_active := True\<rparr> else a\<lparr>ac_active := False, ac_tokenVersion := ac_tokenVersion a + 1\<rparr>)"

definition set_active :: "'g gitea \<Rightarrow> (accounts_db \<Rightarrow> accounts_db) \<Rightarrow> string \<Rightarrow> string \<Rightarrow> bool \<Rightarrow> ('g, account_row) handler" where
  "set_active gt mid actor i active =
     (if \<not> active \<and> i = actor then reply (Inl (BadRequest ''You cannot deactivate your own account''))
      else reading (\<lambda>d. case account i d of
          None \<Rightarrow> reply (Inl (NotFound ''User not found''))
        | Some a \<Rightarrow>
            if ac_active a = active then reply (Inr a)
            else if \<not> active \<and> ac_platformAdmin a \<and> other_admins i d = 0
            then reply (Inl (BadRequest ''At least one active administrator must remain''))
            else bind_to (if active then reply (Inr ()) else revoke_git_credential gt i) (\<lambda>_.
                 bind_to (calling (gi_setActive gt (ac_username a) active)) (\<lambda>_.
                 writing (\<lambda>d. change_account i (set_activity active)
                   (by_admin (if active then ''user.activated'' else ''user.deactivated'') actor []) (mid d))))))"

definition admin_reset_password ::
  "'g gitea \<Rightarrow> crypto \<Rightarrow> fresh \<Rightarrow> (accounts_db \<Rightarrow> accounts_db) \<Rightarrow> string \<Rightarrow> string \<Rightarrow> ('g, string) handler" where
  "admin_reset_password gt cr fr mid actor i = reading (\<lambda>d. case account i d of
      None \<Rightarrow> reply (Inl (NotFound ''User not found''))
    | Some a \<Rightarrow>
        bind_to (revoke_git_credential gt i) (\<lambda>_.
        bind_to (writing (\<lambda>d. change_account i (new_password cr (fr_password fr) True)
           (\<lambda>_. by_admin ''user.password_reset'' actor [] a) (mid d))) (\<lambda>_. reply (Inr (fr_password fr)))))"

end
