(* ===== verification/AccountProofs.thy ===== *)
theory AccountProofs
  imports Accounts
begin

text \<open>
  What the account operations keep. Every one of them \<open>advances\<close> the database: sessions are only
  revoked or created under new ids, the token version of an account never falls, and links are only used up or
  appended. The guarantee composes, so it holds of every sequence of operations (\<open>evolves\<close>), whatever other
  requests commit in between.
\<close>

section \<open>The guarantee\<close>

definition same_session :: "session_row \<Rightarrow> session_row \<Rightarrow> bool" where
  "same_session s s' = (se_id s' = se_id s \<and> se_userId s' = se_userId s \<and> (se_revokedAt s \<noteq> None \<longrightarrow> se_revokedAt s' \<noteq> None))"

definition sessions_advance :: "string set \<Rightarrow> session_row list \<Rightarrow> session_row list \<Rightarrow> bool" where
  "sessions_advance A ss ss' = (\<forall>s' \<in> set ss'. se_id s' \<notin> A \<or> (\<exists>s \<in> set ss. same_session s s'))"

definition accounts_advance :: "account_row list \<Rightarrow> account_row list \<Rightarrow> bool" where
  "accounts_advance as as' = (ac_id ` set as \<subseteq> ac_id ` set as' \<and>
     (\<forall>a' \<in> set as'. ac_id a' \<notin> ac_id ` set as \<or> (\<exists>a \<in> set as. ac_id a = ac_id a' \<and> ac_tokenVersion a \<le> ac_tokenVersion a')))"

definition same_link :: "link_row \<Rightarrow> link_row \<Rightarrow> bool" where
  "same_link l l' = (li_id l' = li_id l \<and> li_userId l' = li_userId l \<and> li_kind l' = li_kind l \<and> li_tokenHash l' = li_tokenHash l \<and>
     li_expiresAt l' = li_expiresAt l \<and> (li_usedAt l \<noteq> None \<longrightarrow> li_usedAt l' \<noteq> None))"

definition links_advance :: "string set \<Rightarrow> link_row list \<Rightarrow> link_row list \<Rightarrow> bool" where
  "links_advance A ls ls' = (\<exists>us new. ls' = us @ new \<and> list_all2 same_link ls us \<and>
     (\<forall>l \<in> set new. li_id l \<notin> A \<and> li_tokenHash l \<notin> A))"

definition advances :: "string set \<Rightarrow> accounts_db \<Rightarrow> accounts_db \<Rightarrow> bool" where
  "advances A d d' = (sessions_advance A (ad_sessions d) (ad_sessions d') \<and>
     accounts_advance (ad_accounts d) (ad_accounts d') \<and> links_advance A (ad_links d) (ad_links d'))"

lemma same_session_refl [simp]: "same_session s s"
  by (simp add: same_session_def)

lemma same_link_refl [simp]: "same_link l l"
  by (simp add: same_link_def)

lemma sessions_advance_refl [simp]: "sessions_advance A ss ss"
  unfolding sessions_advance_def using same_session_refl by blast

lemma accounts_advance_refl [simp]: "accounts_advance as as"
  by (auto simp: accounts_advance_def)

lemma links_advance_refl [simp]: "links_advance A ls ls"
  unfolding links_advance_def by (intro exI [of _ ls] exI [of _ "[]"]) (simp add: list_all2_refl)

lemma advances_refl [simp]: "advances A d d"
  by (simp add: advances_def)

lemma sessions_advance_trans:
  assumes "sessions_advance A ss ss'" and "sessions_advance A ss' ss''"
  shows "sessions_advance A ss ss''"
  unfolding sessions_advance_def
proof
  fix s'' assume "s'' \<in> set ss''"
  with assms(2) consider "se_id s'' \<notin> A" | s' where "s' \<in> set ss'" "same_session s' s''"
    unfolding sessions_advance_def by blast
  then show "se_id s'' \<notin> A \<or> (\<exists>s \<in> set ss. same_session s s'')"
  proof cases
    case 2
    with assms(1) consider "se_id s' \<notin> A" | s where "s \<in> set ss" "same_session s s'"
      unfolding sessions_advance_def by blast
    then show ?thesis using 2 by cases (auto simp: same_session_def)
  qed simp
qed

lemma accounts_advance_trans:
  assumes "accounts_advance as as'" and "accounts_advance as' as''"
  shows "accounts_advance as as''"
proof -
  have "ac_id a'' \<notin> ac_id ` set as \<or> (\<exists>a \<in> set as. ac_id a = ac_id a'' \<and> ac_tokenVersion a \<le> ac_tokenVersion a'')"
    if "a'' \<in> set as''" for a''
  proof (cases "ac_id a'' \<in> ac_id ` set as'")
    case True
    with assms(2) that obtain a' where a': "a' \<in> set as'" "ac_id a' = ac_id a''" "ac_tokenVersion a' \<le> ac_tokenVersion a''"
      unfolding accounts_advance_def by blast
    with assms(1) have "ac_id a' \<notin> ac_id ` set as \<or> (\<exists>a \<in> set as. ac_id a = ac_id a' \<and> ac_tokenVersion a \<le> ac_tokenVersion a')"
      unfolding accounts_advance_def by blast
    with a' show ?thesis by (auto intro: le_trans)
  next
    case False
    with assms(1) show ?thesis unfolding accounts_advance_def by blast
  qed
  moreover from assms have "ac_id ` set as \<subseteq> ac_id ` set as''"
    unfolding accounts_advance_def by (metis order_trans)
  ultimately show ?thesis by (simp add: accounts_advance_def)
qed

lemma same_link_trans: "same_link l l' \<Longrightarrow> same_link l' l'' \<Longrightarrow> same_link l l''"
  by (auto simp: same_link_def)

lemma links_advance_trans:
  assumes "links_advance A ls ls'" and "links_advance A ls' ls''"
  shows "links_advance A ls ls''"
proof -
  from assms(1) obtain us new where ls': "ls' = us @ new" "list_all2 same_link ls us" "\<forall>l \<in> set new. li_id l \<notin> A \<and> li_tokenHash l \<notin> A"
    unfolding links_advance_def by blast
  from assms(2) obtain vs new' where ls'': "ls'' = vs @ new'" "list_all2 same_link ls' vs" "\<forall>l \<in> set new'. li_id l \<notin> A \<and> li_tokenHash l \<notin> A"
    unfolding links_advance_def by blast
  from ls'(1) ls''(2) obtain vs1 vs2 where vs: "vs = vs1 @ vs2" "list_all2 same_link us vs1" "list_all2 same_link new vs2"
    by (auto simp: list_all2_append1)
  have "list_all2 same_link ls vs1"
    by (rule list_all2_trans [of same_link same_link same_link, OF _ ls'(2) vs(2)]) (rule same_link_trans)
  moreover have "\<forall>l \<in> set vs2. li_id l \<notin> A \<and> li_tokenHash l \<notin> A"
    using vs(3) ls'(3) by (fastforce simp: list_all2_conv_all_nth in_set_conv_nth same_link_def)
  ultimately show ?thesis
    unfolding links_advance_def using ls''(1,3) vs(1)
    by (intro exI [of _ vs1] exI [of _ "vs2 @ new'"]) auto
qed

lemma advances_trans: "advances A d d' \<Longrightarrow> advances A d' d'' \<Longrightarrow> advances A d d''"
  by (auto simp: advances_def intro: sessions_advance_trans accounts_advance_trans links_advance_trans)

section \<open>Statements\<close>

text \<open>A statement on the database, and a handler, that keep the guarantee from every state.\<close>

definition moves :: "string set \<Rightarrow> (accounts_db \<Rightarrow> accounts_db \<times> 'a) \<Rightarrow> bool" where
  "moves A f = (\<forall>d. advances A d (fst (f d)))"

definition keeps :: "string set \<Rightarrow> ('g, 'a) handler \<Rightarrow> bool" where
  "keeps A h = (\<forall>w. advances A (wo_db w) (wo_db (fst (h w))))"

named_theorems guaranteed \<open>operations that keep the guarantee\<close>

lemma sessions_advance_rewrite:
  "(\<And>s. same_session s (f s)) \<Longrightarrow> sessions_advance A ss (rewrite p f ss)"
  unfolding sessions_advance_def by (metis in_rewriteE same_session_refl)

lemma sessions_advance_subset: "set ss' \<subseteq> set ss \<Longrightarrow> sessions_advance A ss ss'"
  unfolding sessions_advance_def by (meson same_session_refl subsetD)

lemma accounts_advance_rewrite:
  assumes "\<And>a. ac_id (f a) = ac_id a" and "\<And>a. ac_tokenVersion a \<le> ac_tokenVersion (f a)"
  shows "accounts_advance as (rewrite p f as)"
proof -
  have "ac_id ` set (rewrite p f as) = ac_id ` set as"
    using map_rewrite_frame [of p ac_id f as] assms(1) by (metis list.set_map)
  moreover have "\<exists>a \<in> set as. ac_id a = ac_id a' \<and> ac_tokenVersion a \<le> ac_tokenVersion a'" if "a' \<in> set (rewrite p f as)" for a'
    using that assms by (auto simp: set_rewrite)
  ultimately show ?thesis unfolding accounts_advance_def by blast
qed

lemma links_advance_rewrite:
  "(\<And>l. same_link l (f l)) \<Longrightarrow> links_advance A ls (rewrite p f ls)"
  unfolding links_advance_def rewrite_def
  by (intro exI [of _ "map (\<lambda>r. if p r then f r else r) ls"] exI [of _ "[]"])
    (simp add: list_all2_map2 list_all2_refl)

lemma links_advance_create:
  "li_id l \<notin> A \<Longrightarrow> li_tokenHash l \<notin> A \<Longrightarrow> links_advance A ls (create l ls)"
  unfolding links_advance_def create_def by (intro exI [of _ ls] exI [of _ "[l]"]) (simp add: list_all2_refl)

lemma moves_issue:
  assumes "sid \<notin> A"
  shows "advances A d (fst (issue sign now sid a agent d))"
proof -
  have "sessions_advance A (ad_sessions d) (ad_sessions (fst (issue sign now sid a agent d)))"
    unfolding sessions_advance_def issue_def using assms by (auto simp: delete_many_def intro: same_session_refl)
  then show ?thesis by (simp add: advances_def issue_def)
qed

lemma revoke_payload_advances [guaranteed]: "advances A d (revoke_payload now p d)"
  by (auto simp: revoke_payload_def advances_def same_session_def
    intro!: sessions_advance_rewrite accounts_advance_rewrite)

lemma revoke_sessions_advances [guaranteed]: "advances A d (fst (revoke_sessions now i f d))"
  by (auto simp: revoke_sessions_def advances_def same_session_def update_many_def
    intro!: sessions_advance_rewrite split: option.split)

lemma account_event_advances [guaranteed]: "advances A d (account_event action a actor failed details d)"
  by (simp add: advances_def account_event_def)

lemma account_event_after [simp]:
  "ad_accounts (account_event n a actor failed details d) = ad_accounts d"
  "ad_sessions (account_event n a actor failed details d) = ad_sessions d"
  "ad_links (account_event n a actor failed details d) = ad_links d"
  by (simp_all add: account_event_def)

lemma advances_event [simp]: "advances A d (account_event n a actor failed details d') = advances A d d'"
  by (simp add: advances_def)

lemma update_row_advances:
  assumes "\<And>a. ac_id (f a) = ac_id a" and "\<And>a. ac_tokenVersion a \<le> ac_tokenVersion (f a)"
    and "update_row ac_id i (\<lambda>a. Some (f a)) as = (as', Some b)"
  shows "accounts_advance as as'"
proof -
  from assms(3) obtain a where a: "find_first (\<lambda>x. ac_id x = i) as = Some a" "b = f a" "as' = rewrite (\<lambda>x. ac_id x = i) (\<lambda>_. b) as"
    by (auto simp: update_row_Some)
  from find_first_Some [OF a(1)] have in_a: "a \<in> set as" "ac_id a = i" by auto
  have "ac_id ` set as' = ac_id ` set as"
    using map_rewrite_frame [of "\<lambda>x. ac_id x = i" ac_id "\<lambda>_. b" as] in_a(2) assms(1) a(2,3) by (metis list.set_map)
  moreover have "\<exists>c \<in> set as. ac_id c = ac_id a' \<and> ac_tokenVersion c \<le> ac_tokenVersion a'" if "a' \<in> set as'" for a'
    using that unfolding a(3)
  proof (cases rule: in_rewriteE)
    case (1 r)
    with in_a a(2) assms(1,2) show ?thesis by (intro bexI [of _ a]) simp_all
  next
    case 2
    then show ?thesis by (intro bexI [of _ a']) simp_all
  qed
  ultimately show ?thesis unfolding accounts_advance_def by blast
qed

lemma change_account_advances:
  assumes "\<And>a. ac_id (f a) = ac_id a" and "\<And>a. ac_tokenVersion a \<le> ac_tokenVersion (f a)"
    and "\<And>a d d'. advances A d d' \<Longrightarrow> advances A d (ev a d')"
  shows "advances A d (fst (change_account i f ev d))"
proof (cases "update_row ac_id i (\<lambda>a. Some (f a)) (ad_accounts d)")
  case (Pair as' b)
  show ?thesis
  proof (cases b)
    case (Some c)
    with Pair update_row_advances [OF assms(1,2)] have "accounts_advance (ad_accounts d) as'" by blast
    then have "advances A d (d\<lparr>ad_accounts := as'\<rparr>)" by (simp add: advances_def)
    with assms(3) Pair Some show ?thesis by (simp add: change_account_def)
  qed (simp add: change_account_def Pair)
qed

lemma create_account_advances [guaranteed]: "advances A d (fst (create_account a d))"
  by (auto simp: create_account_def unique_account_def list_all_iff advances_def accounts_advance_def)

lemma advances_mail [simp]: "advances A d (d'\<lparr>ad_mails := m\<rparr>) = advances A d d'"
  by (simp add: advances_def)

section \<open>Handlers\<close>

lemma moves_iff: "moves A f \<Longrightarrow> f d = (d', r) \<Longrightarrow> advances A d d'"
  by (metis moves_def fst_conv)

lemma keeps_reply [guaranteed, intro!]: "keeps A (reply r)"
  by (simp add: keeps_def reply_def)

lemma keeps_reading [intro!]: "(\<And>d. keeps A (f d)) \<Longrightarrow> keeps A (reading f)"
  by (simp add: keeps_def reading_def)

lemma keeps_calling [guaranteed, intro!]: "keeps A (calling f)"
  by (simp add: keeps_def calling_def split: prod.split)

lemma keeps_writing [intro!]: "moves A f \<Longrightarrow> keeps A (writing f)"
  by (auto simp: keeps_def writing_def split: prod.split dest: moves_iff)

lemma keeps_bind [intro!]:
  assumes "keeps A h" and "\<And>x. keeps A (f x)"
  shows "keeps A (bind_to h f)"
  unfolding keeps_def bind_to_def
proof
  fix w
  show "advances A (wo_db w) (wo_db (fst (case h w of (w', Inl e) \<Rightarrow> (w', Inl e) | (w', Inr x) \<Rightarrow> f x w')))"
  proof (cases "h w")
    case (Pair w' r)
    with assms(1) have one: "advances A (wo_db w) (wo_db w')" by (metis keeps_def fst_conv)
    moreover have "advances A (wo_db w') (wo_db (fst (f x w')))" for x using assms(2) by (simp add: keeps_def)
    ultimately show ?thesis using Pair by (auto split: sum.split intro: advances_trans)
  qed
qed

lemma roll_back_db: "wo_db (fst (roll_back gt l h w)) = wo_db (fst (h w))"
  by (auto simp: roll_back_def calling_def split: prod.split sum.split if_split)

lemma keeps_roll_back [intro!]: "keeps A h \<Longrightarrow> keeps A (roll_back gt l h)"
  by (simp add: keeps_def roll_back_db)

lemma moves_after: "(\<And>d. advances A d (mid d)) \<Longrightarrow> moves A f \<Longrightarrow> moves A (\<lambda>d. f (mid d))"
  unfolding moves_def by (blast intro: advances_trans)

text \<open>None of the ids and hashes in \<open>A\<close> is drawn by the call.\<close>

definition avoids :: "string set \<Rightarrow> crypto \<Rightarrow> fresh \<Rightarrow> bool" where
  "avoids A cr fr = (fr_sid fr \<notin> A \<and> fr_link fr \<notin> A \<and> cr_sha256 cr (fr_token fr) \<notin> A)"

lemma create_session_advances:
  "avoids A cr fr \<Longrightarrow> advances A d (fst (create_session st cr fr a agent d))"
  using moves_issue [of "fr_sid fr" A d "cr_sign cr" "fr_now fr" a agent]
  by (auto simp: create_session_def avoids_def split: prod.split)

lemma end_sessions_advances: "advances A d (fst (end_sessions fr i f d))"
  using revoke_sessions_advances [of A d "fr_now fr" i f]
  by (auto simp: end_sessions_def split: option.split prod.split)

lemma provision_keeps:
  "(\<And>d. advances A d (mid d)) \<Longrightarrow> keeps A (provision_managed_user gt cr fr mid u)"
  unfolding provision_managed_user_def Let_def
  by (auto simp: moves_def intro!: moves_after [unfolded moves_def, rule_format] create_account_advances split: if_split)

lemma external_user_advances:
  "(\<And>d. advances A d (mid d)) \<Longrightarrow> advances A d (fst (provision_external_user cr fr mid x d))"
  unfolding provision_external_user_def Let_def by (blast intro: advances_trans create_account_advances)

lemma login_advances: "avoids A cr fr \<Longrightarrow> advances A d (fst (login st cr fr u pw agent d))"
  unfolding login_def sign_in_failed_def Let_def
  by (auto split: option.split intro: advances_trans [OF account_event_advances create_session_advances])

lemma new_password_advances:
  "advances A d (fst (change_account i (new_password cr pw must) (by_self n) d))"
  by (rule change_account_advances) (simp_all add: new_password_def by_self_def)

lemma change_password_advances:
  assumes "\<And>d. advances A d (mid d)" and "avoids A cr fr"
  shows "advances A d (fst (change_password st cr fr mid i old new agent d))"
proof -
  let ?c = "change_account i (new_password cr new False) (by_self ''auth.password_changed'') (mid d)"
  have "advances A d (fst ?c)" using assms(1) new_password_advances advances_trans by blast
  then show ?thesis
    using create_session_advances [OF assms(2)]
    by (auto simp: change_password_def split: option.split prod.split sum.split intro: advances_trans)
qed

lemma issue_auth_token_advances:
  "avoids A cr fr \<Longrightarrow> advances A d (issue_auth_token cr fr i kind ttl d)"
  unfolding issue_auth_token_def advances_def
  by (auto simp: same_link_def avoids_def
    intro!: links_advance_trans [OF links_advance_rewrite links_advance_create])

lemma issue_auth_link_advances:
  "avoids A cr fr \<Longrightarrow> advances A d (fst (issue_auth_link st cr fr a kind ttl route d))"
  by (simp add: issue_auth_link_def issue_auth_token_advances Let_def)

lemma claim_advances: "advances A d (fst (claim_auth_token now l d))"
  by (auto simp: claim_auth_token_def update_many_def advances_def same_link_def intro!: links_advance_rewrite)

lemma consume_advances:
  assumes "\<And>d. advances A d (mid d)"
  shows "advances A d (fst (consume_auth_token cr fr mid token kind d))"
  using advances_trans [OF assms claim_advances]
  by (auto simp: consume_auth_token_def split: sum.split prod.split)
    (metis fst_conv)+

lemma request_verification_advances:
  "avoids A cr fr \<Longrightarrow> advances A d (fst (request_email_verification st cr fr i d))"
  using issue_auth_link_advances [of A cr fr]
  by (auto simp: request_email_verification_def split: option.split prod.split) (metis fst_conv)

lemma verify_email_advances:
  assumes "\<And>d. advances A d (mid d)"
  shows "advances A d (fst (verify_email cr fr mid token d))"
proof -
  have "advances A d' (fst (change_account i (\<lambda>a. a\<lparr>ac_emailVerifiedAt := v\<rparr>) (by_self n) d'))" for d' i v n
    by (rule change_account_advances) (simp_all add: by_self_def)
  then have two: "advances A d' (fst (change_account i (\<lambda>a. a\<lparr>ac_emailVerifiedAt := v\<rparr>) (by_self n) d'))" for d' i v n .
  show ?thesis
  proof (cases "consume_auth_token cr fr mid token EmailVerify d")
    case (Pair d1 r)
    with consume_advances [OF assms] have "advances A d d1" by (metis fst_conv)
    with Pair advances_trans [OF this two] show ?thesis
      by (cases r) (simp_all add: verify_email_def case_prod_beta split: sum.split)
  qed
qed

lemma request_reset_advances: "avoids A cr fr \<Longrightarrow> advances A d (request_password_reset st cr fr i d)"
  by (simp add: request_password_reset_def Let_def issue_auth_link_advances split: option.split)

lemma activate_advances:
  assumes "\<And>d. advances A d (mid d)" and "avoids A cr fr"
  shows "advances A d (fst (activate st cr fr mid token pw agent d))"
proof (cases "consume_auth_token cr fr mid token Activation d")
  case (Pair d1 r)
  with consume_advances [OF assms(1)] have one: "advances A d d1" by (metis fst_conv)
  show ?thesis
  proof (cases r)
    case (Inr i)
    have "advances A d1 (fst (change_account i (new_password cr pw False) (by_self ''auth.account_activated'') d1))"
      by (rule new_password_advances)
    then show ?thesis
      using Pair Inr one create_session_advances [OF assms(2)]
      by (auto simp: activate_def split: sum.split prod.split intro: advances_trans)
  qed (simp add: activate_def Pair one)
qed

lemma calling_db: "calling f w = (w', r) \<Longrightarrow> wo_db w' = wo_db w"
  by (auto simp: calling_def split: prod.splits)

lemma revoke_git_keeps:
  fixes gt :: "'g gitea"
  shows "keeps A (revoke_git_credential gt i)"
  unfolding revoke_git_credential_def
proof (rule keeps_reading)
  fix d
  let ?clear = "\<lambda>d. change_account i (\<lambda>a. a\<lparr>ac_accessToken := []\<rparr>) (\<lambda>_ d. d) d"
  have "advances A d (fst (?clear d))" for d
    by (rule change_account_advances) simp_all
  then have "keeps A (writing (\<lambda>d. case ?clear d of (d', Inl e) \<Rightarrow> (d', Inl e) | (d', Inr _) \<Rightarrow> (d', Inr ())) :: ('g, unit) handler)" (is "keeps A ?h")
    by (intro keeps_writing) (simp add: moves_def case_prod_beta split: sum.split)
  then have one: "advances A (wo_db w') (wo_db (fst (?h w')))" for w'
    by (simp add: keeps_def)
  have "keeps A (\<lambda>w. case calling f w of (w', Inl _) \<Rightarrow> (w', Inl unavailable_git) | (w', Inr _) \<Rightarrow> ?h w')"
    for f :: "'g \<Rightarrow> 'g \<times> unit outcome"
    unfolding keeps_def
  proof
    fix w
    show "advances A (wo_db w) (wo_db (fst (case calling f w of (w', Inl _) \<Rightarrow> (w', Inl unavailable_git) | (w', Inr _) \<Rightarrow> ?h w')))"
    proof (cases "calling f w")
      case (Pair w' r)
      with calling_db have same: "wo_db w' = wo_db w" by metis
      with Pair one [of w'] show ?thesis by (cases r) simp_all
    qed
  qed
  then show "keeps A (case account i d of
      None \<Rightarrow> reply (Inr ())
    | Some a \<Rightarrow>
        if ac_giteaId a = None then reply (Inr ())
        else (\<lambda>w. case calling (gi_revokeCredentials gt (ac_username a)) w of (w', Inl _) \<Rightarrow> (w', Inl unavailable_git) | (w', Inr _) \<Rightarrow> ?h w'))"
    by (simp add: keeps_reply split: option.split)
qed

lemma reset_password_keeps:
  assumes "\<And>d. advances A d (mid d)"
  shows "keeps A (reset_password gt cr fr mid token pw)"
  unfolding reset_password_def
  by (auto simp: moves_def intro!: revoke_git_keeps new_password_advances advances_trans [OF assms claim_advances])

lemma create_activation_link_advances:
  "avoids A cr fr \<Longrightarrow> advances A d (fst (create_activation_link st cr fr i d))"
  using issue_auth_link_advances [of A cr fr]
  by (auto simp: create_activation_link_def split: option.split prod.split) (metis fst_conv)

lemma admin_link_advances:
  "avoids A cr fr \<Longrightarrow> advances A d (fst (admin_create_activation_link st cr fr actor i d))"
  using create_activation_link_advances [of A cr fr d st i]
  by (auto simp: admin_create_activation_link_def by_admin_def split: option.split prod.split sum.split)

lemma admin_create_keeps:
  assumes "\<And>d. advances A d (mid d)" and "avoids A cr fr"
  shows "keeps A (admin_create_user gt st cr fr mid actor u)"
  unfolding admin_create_user_def
proof (intro keeps_bind provision_keeps keeps_writing assms)
  fix a
  let ?e = "\<lambda>d. by_admin ''user.created'' actor [(''platformRole'', JStr (if ac_platformAdmin a then ''admin'' else ''user''))] a d"
  have "advances A d (fst (create_activation_link st cr fr (ac_id a) (?e d)))" for d
    using create_activation_link_advances [OF assms(2)] advances_trans account_event_advances unfolding by_admin_def by blast
  then show "moves A (\<lambda>d. case create_activation_link st cr fr (ac_id a) (?e d) of
       (d', Inl e) \<Rightarrow> (d', Inl e)
     | (d', Inr l) \<Rightarrow> (by_admin ''user.activation_link_issued'' actor (delivery l) a d', Inr (a, l)))"
    by (auto simp: moves_def by_admin_def split: prod.split sum.split) (metis fst_conv)+
qed

lemma set_active_keeps:
  assumes "\<And>d. advances A d (mid d)"
  shows "keeps A (set_active gt mid actor i active)"
proof -
  have "advances A d (fst (change_account i (set_activity active) (by_admin n actor []) d))" for d n
    by (rule change_account_advances) (simp_all add: set_activity_def by_admin_def)
  with assms have "moves A (\<lambda>d. change_account i (set_activity active) (by_admin n actor []) (mid d))" for n
    unfolding moves_def by (blast intro: advances_trans)
  then show ?thesis
    unfolding set_active_def
    by (auto intro!: revoke_git_keeps keeps_reading split: option.split)
qed

lemma admin_reset_keeps:
  assumes "\<And>d. advances A d (mid d)"
  shows "keeps A (admin_reset_password gt cr fr mid actor i)"
proof -
  have "advances A d (fst (change_account i (new_password cr (fr_password fr) True) (\<lambda>_. by_admin ''user.password_reset'' actor [] a) d))" for d a
    by (rule change_account_advances) (simp_all add: new_password_def by_admin_def)
  with assms have "moves A (\<lambda>d. change_account i (new_password cr (fr_password fr) True) (\<lambda>_. by_admin ''user.password_reset'' actor [] a) (mid d))" for a
    unfolding moves_def by (blast intro: advances_trans)
  then show ?thesis
    unfolding admin_reset_password_def
    by (auto intro!: revoke_git_keeps keeps_reading split: option.split)
qed

lemma register_keeps:
  assumes "\<And>d. advances A d (mid d)" and "avoids A cr fr"
  shows "keeps A (register gt st cr fr mid r agent)"
proof -
  have "moves A (\<lambda>d. create_session st cr fr a agent (account_event n b c False v d))" for a b c n v
    unfolding moves_def using create_session_advances [OF assms(2)] account_event_advances advances_trans by blast
  then show ?thesis
    unfolding register_def Let_def
    by (auto intro!: provision_keeps assms(1) keeps_reading)
qed

section \<open>Requests\<close>

text \<open>
  \<open>evolves A d d'\<close>: the database got from \<open>d\<close> to \<open>d'\<close> by requests of anybody, interleaved arbitrarily, none of
  which drew an id or a hash of \<open>A\<close>.
\<close>

inductive evolves :: "'g gitea \<Rightarrow> settings \<Rightarrow> crypto \<Rightarrow> (string \<Rightarrow> payload option) \<Rightarrow> string set \<Rightarrow> accounts_db \<Rightarrow> accounts_db \<Rightarrow> bool"
  for gt :: "'g gitea" and st :: settings and cr :: crypto and vf :: "string \<Rightarrow> payload option" and A :: "string set" where
  stay: "evolves gt st cr vf A d d"
| further: "evolves gt st cr vf A d d' \<Longrightarrow> evolves gt st cr vf A d' d'' \<Longrightarrow> evolves gt st cr vf A d d''"
| sign_in: "avoids A cr fr \<Longrightarrow> evolves gt st cr vf A d (fst (login st cr fr u pw agent d))"
| sign_out: "evolves gt st cr vf A d (revoke_token vf now token d)"
| ending: "evolves gt st cr vf A d (fst (end_sessions fr i f d))"
| registering: "avoids A cr fr \<Longrightarrow> (\<And>d. evolves gt st cr vf A d (mid d)) \<Longrightarrow> wo_db w = d \<Longrightarrow>
    evolves gt st cr vf A d (wo_db (fst (register gt st cr fr mid r agent w)))"
| external: "(\<And>d. evolves gt st cr vf A d (mid d)) \<Longrightarrow> evolves gt st cr vf A d (fst (provision_external_user cr fr mid x d))"
| external_session: "avoids A cr fr \<Longrightarrow> evolves gt st cr vf A d (fst (create_session st cr fr a agent d))"
| changing: "avoids A cr fr \<Longrightarrow> (\<And>d. evolves gt st cr vf A d (mid d)) \<Longrightarrow>
    evolves gt st cr vf A d (fst (change_password st cr fr mid i old new agent d))"
| asking_verification: "avoids A cr fr \<Longrightarrow> evolves gt st cr vf A d (fst (request_email_verification st cr fr i d))"
| verifying: "(\<And>d. evolves gt st cr vf A d (mid d)) \<Longrightarrow> evolves gt st cr vf A d (fst (verify_email cr fr mid token d))"
| asking_reset: "avoids A cr fr \<Longrightarrow> evolves gt st cr vf A d (request_password_reset st cr fr i d)"
| resetting: "(\<And>d. evolves gt st cr vf A d (mid d)) \<Longrightarrow> wo_db w = d \<Longrightarrow>
    evolves gt st cr vf A d (wo_db (fst (reset_password gt cr fr mid token pw w)))"
| activating: "avoids A cr fr \<Longrightarrow> (\<And>d. evolves gt st cr vf A d (mid d)) \<Longrightarrow>
    evolves gt st cr vf A d (fst (activate st cr fr mid token pw agent d))"
| admin_creating: "avoids A cr fr \<Longrightarrow> (\<And>d. evolves gt st cr vf A d (mid d)) \<Longrightarrow> wo_db w = d \<Longrightarrow>
    evolves gt st cr vf A d (wo_db (fst (admin_create_user gt st cr fr mid actor u w)))"
| admin_linking: "avoids A cr fr \<Longrightarrow> evolves gt st cr vf A d (fst (admin_create_activation_link st cr fr actor i d))"
| admin_setting: "(\<And>d. evolves gt st cr vf A d (mid d)) \<Longrightarrow> wo_db w = d \<Longrightarrow>
    evolves gt st cr vf A d (wo_db (fst (set_active gt mid actor i active w)))"
| admin_resetting: "(\<And>d. evolves gt st cr vf A d (mid d)) \<Longrightarrow> wo_db w = d \<Longrightarrow>
    evolves gt st cr vf A d (wo_db (fst (admin_reset_password gt cr fr mid actor i w)))"

lemma evolves_advances: "evolves gt st cr vf A d d' \<Longrightarrow> advances A d d'"
proof (induction rule: evolves.induct)
  case (sign_out d now token)
  show ?case by (simp add: revoke_token_def revoke_payload_advances split: option.split)
next
  case registering then show ?case using register_keeps unfolding keeps_def by blast
next
  case resetting then show ?case using reset_password_keeps unfolding keeps_def by blast
next
  case admin_creating then show ?case using admin_create_keeps unfolding keeps_def by blast
next
  case admin_setting then show ?case using set_active_keeps unfolding keeps_def by blast
next
  case admin_resetting then show ?case using admin_reset_keeps unfolding keeps_def by blast
qed (blast intro: advances_refl advances_trans login_advances end_sessions_advances external_user_advances
  create_session_advances change_password_advances request_verification_advances verify_email_advances
  request_reset_advances activate_advances admin_link_advances)+

section \<open>Ended tokens\<close>

definition outdated :: "payload \<Rightarrow> accounts_db \<Rightarrow> bool" where
  "outdated p d = (pl_sub p \<in> ac_id ` set (ad_accounts d) \<and>
     (\<forall>a \<in> set (ad_accounts d). ac_id a = pl_sub p \<longrightarrow> version_of p < ac_tokenVersion a))"

definition ended :: "payload \<Rightarrow> accounts_db \<Rightarrow> bool" where
  "ended p d = (outdated p d \<or> (truthy (pl_sid p) \<and>
     (\<forall>s \<in> set (ad_sessions d). Some (se_id s) = pl_sid p \<longrightarrow> se_userId s \<noteq> pl_sub p \<or> se_revokedAt s \<noteq> None)))"

lemma outdated_advances:
  assumes "outdated p d" and "advances A d d'"
  shows "outdated p d'"
  unfolding outdated_def
proof (intro conjI ballI impI)
  from assms show "pl_sub p \<in> ac_id ` set (ad_accounts d')"
    by (auto simp: outdated_def advances_def accounts_advance_def)
next
  fix a' assume a': "a' \<in> set (ad_accounts d')" "ac_id a' = pl_sub p"
  with assms have "\<exists>a \<in> set (ad_accounts d). ac_id a = ac_id a' \<and> ac_tokenVersion a \<le> ac_tokenVersion a'"
    unfolding advances_def accounts_advance_def outdated_def by metis
  with assms(1) a'(2) show "version_of p < ac_tokenVersion a'"
    unfolding outdated_def by fastforce
qed

lemma ended_advances:
  assumes "ended p d" and "advances A d d'" and "set_option (pl_sid p) \<subseteq> A"
  shows "ended p d'"
proof (cases "outdated p d")
  case True
  with assms(2) outdated_advances show ?thesis by (auto simp: ended_def)
next
  case False
  with assms(1) have sid: "truthy (pl_sid p)"
    and off: "\<And>s. s \<in> set (ad_sessions d) \<Longrightarrow> Some (se_id s) = pl_sid p \<Longrightarrow> se_userId s \<noteq> pl_sub p \<or> se_revokedAt s \<noteq> None"
    by (auto simp: ended_def)
  have "se_userId s' \<noteq> pl_sub p \<or> se_revokedAt s' \<noteq> None"
    if s': "s' \<in> set (ad_sessions d')" "Some (se_id s') = pl_sid p" for s'
  proof -
    from s'(2) assms(3) have "se_id s' \<in> A" by (metis elem_set subsetD)
    with s'(1) assms(2) obtain s where s: "s \<in> set (ad_sessions d)" "same_session s s'"
      unfolding advances_def sessions_advance_def by blast
    with s'(2) off [of s] show ?thesis by (auto simp: same_session_def)
  qed
  with sid show ?thesis by (auto simp: ended_def)
qed

lemma account_Some: "account i d = Some a \<Longrightarrow> a \<in> set (ad_accounts d) \<and> ac_id a = i"
  by (auto simp: account_def dest: find_first_Some)

lemma session_Some: "session i d = Some s \<Longrightarrow> s \<in> set (ad_sessions d) \<and> se_id s = i"
  by (auto simp: session_def dest: find_first_Some)

lemma truthy_Some: "truthy x \<Longrightarrow> x = Some (the x)"
  by (cases x) simp_all

text \<open>What an accepted token says of the tables.\<close>

lemma authenticatedE:
  assumes "authenticate_payload now p d = Inr u"
  obtains a where "account (pl_sub p) d = Some a" "ac_active a" "version_of p = ac_tokenVersion a" "u = authenticated_as a (pl_sid p)"
    "truthy (pl_sid p) \<Longrightarrow> \<exists>s. session (the (pl_sid p)) d = Some s \<and> se_userId s = pl_sub p \<and> se_revokedAt s = None \<and> now < se_expiresAt s"
  using assms
  by (auto simp: authenticate_payload_def payload_account_def split: sum.splits option.splits if_splits)

lemma ended_never_authenticates:
  assumes "ended p d"
  shows "\<not> succeeds (authenticate_payload now p d)"
proof
  assume "succeeds (authenticate_payload now p d)"
  then obtain u where "authenticate_payload now p d = Inr u" by (auto simp: succeeds_iff)
  then obtain a where a: "account (pl_sub p) d = Some a" "version_of p = ac_tokenVersion a"
    and s: "truthy (pl_sid p) \<Longrightarrow> \<exists>s. session (the (pl_sid p)) d = Some s \<and> se_userId s = pl_sub p \<and> se_revokedAt s = None \<and> now < se_expiresAt s"
    by (rule authenticatedE) blast
  from account_Some [OF a(1)] a(2) have "\<not> outdated p d" by (auto simp: outdated_def)
  with assms have sid: "truthy (pl_sid p)"
    and off: "\<forall>s \<in> set (ad_sessions d). Some (se_id s) = pl_sid p \<longrightarrow> se_userId s \<noteq> pl_sub p \<or> se_revokedAt s \<noteq> None"
    by (auto simp: ended_def)
  from s [OF sid] obtain r where "session (the (pl_sid p)) d = Some r" "se_userId r = pl_sub p" "se_revokedAt r = None" by blast
  with off session_Some truthy_Some [OF sid] show False by metis
qed

lemma revoked_ended:
  assumes "authenticate_payload now p d = Inr u" and "keyed ac_id (ad_accounts d)"
  shows "ended p (revoke_payload t p d)"
proof (cases "truthy (pl_sid p)")
  case True
  then show ?thesis by (auto simp: ended_def revoke_payload_def set_rewrite)
next
  case False
  from assms(1) obtain a where a: "account (pl_sub p) d = Some a" "version_of p = ac_tokenVersion a" by (rule authenticatedE)
  from account_Some [OF a(1)] have in_a: "a \<in> set (ad_accounts d)" "ac_id a = pl_sub p" by auto
  have only: "b = a" if "b \<in> set (ad_accounts d)" "ac_id b = pl_sub p" for b
    using keyed_unique [OF assms(2) that(1) in_a(1)] that(2) in_a(2) by simp
  let ?p = "\<lambda>a. ac_id a = pl_sub p \<and> ac_tokenVersion a = version_of p"
  let ?as = "rewrite ?p (\<lambda>a. a\<lparr>ac_tokenVersion := ac_tokenVersion a + 1\<rparr>) (ad_accounts d)"
  have "map ac_id ?as = map ac_id (ad_accounts d)" by (rule map_rewrite_frame) simp
  with in_a have "pl_sub p \<in> ac_id ` set ?as" by (metis imageI list.set_map)
  moreover have "version_of p < ac_tokenVersion b" if "b \<in> set ?as" "ac_id b = pl_sub p" for b
    using that(1)
  proof (cases rule: in_rewriteE)
    case (1 r) then show ?thesis by simp
  next
    case 2 with only that(2) a(2) show ?thesis by auto
  qed
  moreover have "ad_accounts (revoke_payload t p d) = ?as" using False by (simp add: revoke_payload_def)
  ultimately show ?thesis unfolding ended_def outdated_def by simp
qed

text \<open>A new version of an account outdates every token of an earlier one.\<close>

lemma version_bump_outdates:
  assumes "change_account i f ev d = (d', Inr b)" and "pl_sub p = i"
    and "\<And>a. ac_id (f a) = ac_id a" and "\<And>a. ac_tokenVersion (f a) = ac_tokenVersion a + 1"
    and "\<And>a d. ad_accounts (ev a d) = ad_accounts d"
    and "\<And>a. account i d = Some a \<Longrightarrow> version_of p \<le> ac_tokenVersion a"
  shows "outdated p d'"
proof -
  from assms(1) obtain as where row: "update_row ac_id i (\<lambda>a. Some (f a)) (ad_accounts d) = (as, Some b)"
      and d': "d' = ev b (d\<lparr>ad_accounts := as\<rparr>)"
    by (auto simp: change_account_def split: prod.splits option.splits)
  from row obtain a where a: "find_first (\<lambda>x. ac_id x = i) (ad_accounts d) = Some a" "b = f a"
      "as = rewrite (\<lambda>x. ac_id x = i) (\<lambda>_. b) (ad_accounts d)"
    by (auto simp: update_row_Some)
  from find_first_Some [OF a(1)] have in_a: "a \<in> set (ad_accounts d)" "ac_id a = i" by auto
  from a(1) assms(6) have "version_of p < ac_tokenVersion b"
    using a(2) assms(4) by (simp add: account_def less_Suc_eq_le)
  moreover have "ac_id b = i" using a(2) assms(3) in_a(2) by simp
  moreover have "b \<in> set as" using a(3) in_a by (auto simp: set_rewrite)
  moreover have "c = b" if "c \<in> set as" "ac_id c = i" for c
    using that(1) unfolding a(3) by (rule in_rewriteE) (use that(2) in simp_all)
  moreover have "ad_accounts d' = as" by (simp add: d' assms(5))
  ultimately show ?thesis unfolding outdated_def assms(2) by (metis imageI)
qed

lemma bumped_after_advance:
  assumes "authenticate_payload now p d = Inr u" and "keyed ac_id (ad_accounts d)" and "advances A d d1"
    and "change_account (pl_sub p) f ev d1 = (d2, Inr b)"
    and "\<And>a. ac_id (f a) = ac_id a" and "\<And>a. ac_tokenVersion (f a) = ac_tokenVersion a + 1"
    and "\<And>a d. ad_accounts (ev a d) = ad_accounts d"
  shows "outdated p d2"
proof (rule version_bump_outdates [OF assms(4) refl assms(5,6,7)])
  fix a' assume "account (pl_sub p) d1 = Some a'"
  with account_Some have a': "a' \<in> set (ad_accounts d1)" "ac_id a' = pl_sub p" by blast+
  from assms(1) obtain a where a: "account (pl_sub p) d = Some a" "version_of p = ac_tokenVersion a" by (rule authenticatedE)
  from account_Some [OF a(1)] have in_a: "a \<in> set (ad_accounts d)" "ac_id a = pl_sub p" by auto
  with a' assms(3) obtain b where "b \<in> set (ad_accounts d)" "ac_id b = ac_id a'" "ac_tokenVersion b \<le> ac_tokenVersion a'"
    unfolding advances_def accounts_advance_def by (metis imageI)
  moreover from this have "b = a" using keyed_unique [OF assms(2) _ in_a(1)] in_a(2) a'(2) by simp
  ultimately show "version_of p \<le> ac_tokenVersion a'" using a(2) by simp
qed

lemma outdated_stays_out:
  "outdated p d \<Longrightarrow> evolves gt st cr vf A d d' \<Longrightarrow> \<not> succeeds (authenticate_payload now p d')"
  using outdated_advances evolves_advances ended_never_authenticates ended_def by blast

section \<open>Properties of sessions\<close>

text \<open>
  C32: Signing out is final: a token that authenticated before it never authenticates again, whatever requests follow and
  at whatever time, as long as no later session draws its id.
\<close>

theorem signed_out_token_never_returns:
  assumes "authenticate vf now token d = Inr u" and "keyed ac_id (ad_accounts d)"
    and "\<And>p. vf token = Some p \<Longrightarrow> set_option (pl_sid p) \<subseteq> A"
    and "evolves gt st cr vf A (revoke_token vf t token d) d'"
  shows "\<not> succeeds (authenticate vf later token d')"
proof -
  from assms(1) obtain p where p: "vf token = Some p" "authenticate_payload now p d = Inr u"
    by (auto simp: authenticate_def split: option.splits)
  from revoked_ended [OF p(2) assms(2)] have "ended p (revoke_token vf t token d)"
    by (simp add: revoke_token_def p(1))
  with ended_advances evolves_advances [OF assms(4)] assms(3) [OF p(1)] have "ended p d'" by blast
  with ended_never_authenticates show ?thesis by (simp add: authenticate_def p(1))
qed

text \<open>
  A deactivated account loses every token it had: none authenticates again after any further requests, even once
  an administrator activated the account again.
\<close>

theorem deactivation_ends_every_session:
  assumes "set_active gt mid actor i False w = (w', Inr a)"
    and "account i (wo_db w) = Some b" and "ac_active b"
    and "authenticate_payload now p (wo_db w) = Inr u" and "pl_sub p = i" and "keyed ac_id (ad_accounts (wo_db w))"
    and "\<And>d. evolves gt st cr vf A d (mid d)" and "evolves gt st cr vf A (wo_db w') d'"
  shows "\<not> succeeds (authenticate_payload later p d')"
proof -
  let ?ev = "by_admin ''user.deactivated'' actor []"
  from assms(1,2,3) obtain w1 w2 x y where one: "revoke_git_credential gt i w = (w1, Inr x)"
      and two: "calling (gi_setActive gt (ac_username b) False) w1 = (w2, Inr y)"
      and three: "change_account i (set_activity False) ?ev (mid (wo_db w2)) = (wo_db w', Inr a)"
    by (auto simp: set_active_def reading_def reply_def bind_to_def writing_def split: if_splits prod.splits sum.splits)
  from one revoke_git_keeps [of A gt i] have "advances A (wo_db w) (wo_db w1)" unfolding keeps_def by (metis fst_conv)
  with calling_db [OF two] evolves_advances [OF assms(7)] have "advances A (wo_db w) (mid (wo_db w2))"
    by (metis advances_trans)
  from bumped_after_advance [OF assms(4,6) this three [folded assms(5)]] have "outdated p (wo_db w')"
    by (simp add: set_activity_def by_admin_def)
  then show ?thesis using assms(8) by (rule outdated_stays_out)
qed

text \<open>The row a fresh session gets is the one its token names.\<close>

lemma find_first_last:
  "(\<And>x. x \<in> set t \<Longrightarrow> \<not> p x) \<Longrightarrow> p r \<Longrightarrow> find_first p (create r t) = Some r"
  by (simp add: find_first_create find_first_None [THEN iffD2])

lemma issued_authenticates:
  assumes "issue sign now sid a agent d = (d', t)" and "\<And>s. s \<in> set (ad_sessions d) \<Longrightarrow> se_id s \<noteq> sid" and "sid \<noteq> []"
    and "account (ac_id a) d = Some a" and "ac_active a" and "later < now + session_ttl_ms"
  shows "t = sign \<lparr>pl_sub = ac_id a, pl_ver = Some (ac_tokenVersion a), pl_sid = Some sid\<rparr> \<and>
     authenticate_payload later \<lparr>pl_sub = ac_id a, pl_ver = Some (ac_tokenVersion a), pl_sid = Some sid\<rparr> d'
       = Inr (authenticated_as a (Some sid))"
proof -
  have "session sid d' = Some \<lparr>se_id = sid, se_userId = ac_id a, se_version = ac_tokenVersion a, se_userAgent = short_agent agent,
      se_createdAt = now, se_expiresAt = now + session_ttl_ms, se_revokedAt = None\<rparr>"
  proof -
    have "se_id x \<noteq> sid" if "x \<in> set (delete_many (\<lambda>s. se_expiresAt s < now) (ad_sessions d))" for x
      using that assms(2) by (simp add: delete_many_def)
    then show ?thesis
      using assms(1) find_first_last [of "delete_many (\<lambda>s. se_expiresAt s < now) (ad_sessions d)" "\<lambda>s. se_id s = sid"]
      unfolding session_def issue_def by auto
  qed
  moreover have "account (ac_id a) d' = Some a"
    using assms(1,4) by (auto simp: account_def issue_def)
  moreover have "t = sign \<lparr>pl_sub = ac_id a, pl_ver = Some (ac_tokenVersion a), pl_sid = Some sid\<rparr>"
    using assms(1) by (simp add: issue_def)
  ultimately show ?thesis using assms(3,5,6)
    by (simp add: authenticate_payload_def payload_account_def version_of_def)
qed

lemma changed_account_found:
  assumes "change_account i f ev d = (d', Inr b)" and "\<And>a. ac_id (f a) = ac_id a" and "\<And>a d. ad_accounts (ev a d) = ad_accounts d"
  shows "\<exists>a. account i d = Some a \<and> b = f a \<and> account i d' = Some b"
proof -
  from assms(1) obtain as where row: "update_row ac_id i (\<lambda>a. Some (f a)) (ad_accounts d) = (as, Some b)"
      and d': "d' = ev b (d\<lparr>ad_accounts := as\<rparr>)"
    by (auto simp: change_account_def split: prod.splits option.splits)
  from row obtain a where a: "find_first (\<lambda>x. ac_id x = i) (ad_accounts d) = Some a" "b = f a"
      "as = rewrite (\<lambda>x. ac_id x = i) (\<lambda>_. b) (ad_accounts d)"
    by (auto simp: update_row_Some)
  from find_first_Some [OF a(1)] have "ac_id a = i" by auto
  with a(2) assms(2) have "ac_id b = i" by simp
  then have "find_first (\<lambda>x. ac_id x = i) as = map_option (\<lambda>x. if ac_id x = i then b else x) (find_first (\<lambda>x. ac_id x = i) (ad_accounts d))"
    unfolding a(3) by (intro find_first_rewrite) simp
  with \<open>ac_id a = i\<close> a(1) have "find_first (\<lambda>x. ac_id x = i) as = Some b" by simp
  with a(1,2) show ?thesis by (simp add: account_def d' assms(3))
qed

text \<open>
  A changed password leaves exactly the session of the caller: the returned token names a session that authenticates
  until its expiry, and every token of the account that was accepted before authenticates never again.
\<close>

theorem new_password_leaves_one_session:
  assumes "change_password st cr fr mid i old new agent d = (d1, Inr (t, u))"
    and "keyed ac_id (ad_accounts d)" and "\<And>d. evolves gt st cr vf A d (mid d)"
    and "\<And>s. s \<in> set (ad_sessions (mid d)) \<Longrightarrow> se_id s \<noteq> fr_sid fr" and "fr_sid fr \<noteq> []"
    and "account i (mid d) = Some b" and "ac_active b" and "later < fr_now fr + session_ttl_ms"
  shows "(\<exists>q. t = cr_sign cr q \<and> pl_sub q = i \<and> succeeds (authenticate_payload later q d1)) \<and>
    (\<forall>p. succeeds (authenticate_payload now p d) \<longrightarrow> pl_sub p = i \<longrightarrow>
      (\<forall>d'. evolves gt st cr vf A d1 d' \<longrightarrow> \<not> succeeds (authenticate_payload after p d')))"
proof -
  let ?ev = "by_self ''auth.password_changed''"
  from assms(1) obtain d0 c where change: "change_account i (new_password cr new False) ?ev (mid d) = (d0, Inr c)"
      and made: "create_session st cr fr c agent d0 = (d1, Inr (t, u))"
    by (auto simp: change_password_def split: option.splits if_splits prod.splits sum.splits)
  have acc: "ad_accounts (?ev a d) = ad_accounts d" for a d by (simp add: by_self_def)
  from changed_account_found [OF change _ acc] assms(6) have c: "c = new_password cr new False b" "account i d0 = Some c"
    by (auto simp: new_password_def)
  from c(2) account_Some have "ac_id c = i" by blast
  have sess: "ad_sessions d0 = ad_sessions (mid d)"
    using change by (auto simp: change_account_def by_self_def split: prod.splits option.splits)
  from made have "issue (cr_sign cr) (fr_now fr) (fr_sid fr) c agent d0 = (d1, t)"
    by (auto simp: create_session_def split: prod.splits)
  from issued_authenticates [OF this _ assms(5) _ _ assms(8)] have
    "t = cr_sign cr \<lparr>pl_sub = i, pl_ver = Some (ac_tokenVersion c), pl_sid = Some (fr_sid fr)\<rparr> \<and>
     succeeds (authenticate_payload later \<lparr>pl_sub = i, pl_ver = Some (ac_tokenVersion c), pl_sid = Some (fr_sid fr)\<rparr> d1)"
    using assms(4,7) sess c \<open>ac_id c = i\<close> by (simp add: new_password_def)
  moreover have "\<not> succeeds (authenticate_payload after p d')"
    if p: "authenticate_payload now p d = Inr v" "pl_sub p = i" "evolves gt st cr vf A d1 d'" for p d' v
  proof -
    from bumped_after_advance [OF p(1) assms(2) evolves_advances [OF assms(3)] change [folded p(2)] _ _ acc]
    have "outdated p d0" by (simp add: new_password_def)
    moreover have "ad_accounts d1 = ad_accounts d0"
      using made by (auto simp: create_session_def issue_def)
    ultimately have "outdated p d1" by (simp add: outdated_def)
    then show ?thesis using p(3) by (rule outdated_stays_out)
  qed
  ultimately show ?thesis
    by (auto simp: succeeds_iff intro!: exI [of _ "\<lparr>pl_sub = i, pl_ver = Some (ac_tokenVersion c), pl_sid = Some (fr_sid fr)\<rparr>"])
qed

text \<open>
  The overview shows exactly the sessions that still admit their holder: a row is listed for an active account if
  and only if the token issued with it authenticates now.
\<close>

theorem overview_lists_exactly_the_usable_sessions:
  assumes "account i d = Some a" and "ac_active a" and "keyed se_id (ad_sessions d)" and "s \<in> set (ad_sessions d)" and "se_id s \<noteq> []"
  shows "se_id s \<in> sm_id ` set (list_sessions now i current d) \<longleftrightarrow>
    succeeds (authenticate_payload now \<lparr>pl_sub = i, pl_ver = Some (se_version s), pl_sid = Some (se_id s)\<rparr> d)"
proof -
  have found: "session (se_id s) d = Some s"
    unfolding session_def using find_first_key [OF assms(3,4)] .
  have only: "r = s" if "r \<in> set (ad_sessions d)" "se_id r = se_id s" for r
    using keyed_unique [OF assms(3) that(1) assms(4) that(2)] .
  from account_Some [OF assms(1)] have i: "ac_id a = i" by blast
  have "se_id s \<in> sm_id ` set (list_sessions now i current d) \<longleftrightarrow> live_session now a s"
  proof -
    have one: "sm_id ` set (list_sessions now i current d) = se_id ` {r \<in> set (ad_sessions d). live_session now a r}"
      using assms(1) by (auto simp: list_sessions_def image_image)
    have two: "se_id s \<in> se_id ` {r \<in> set (ad_sessions d). live_session now a r} \<longleftrightarrow> live_session now a s"
    proof
      assume "se_id s \<in> se_id ` {r \<in> set (ad_sessions d). live_session now a r}"
      then obtain r where r: "se_id s = se_id r" "r \<in> {r \<in> set (ad_sessions d). live_session now a r}" by (rule imageE)
      then have "r = s" by (intro only) simp_all
      with r(2) show "live_session now a s" by simp
    next
      assume "live_session now a s"
      with assms(4) have "s \<in> {r \<in> set (ad_sessions d). live_session now a r}" by simp
      then show "se_id s \<in> se_id ` {r \<in> set (ad_sessions d). live_session now a r}" by (rule imageI)
    qed
    show ?thesis unfolding one by (rule two)
  qed
  also have "live_session now a s \<longleftrightarrow> se_userId s = i \<and> se_version s = ac_tokenVersion a \<and> se_revokedAt s = None \<and> now < se_expiresAt s"
    by (simp add: live_session_def i)
  also have "\<dots> \<longleftrightarrow> succeeds (authenticate_payload now \<lparr>pl_sub = i, pl_ver = Some (se_version s), pl_sid = Some (se_id s)\<rparr> d)"
  proof (cases "se_userId s = i \<and> se_revokedAt s = None \<and> now < se_expiresAt s")
    case True
    with assms(1,2,5) found show ?thesis by (simp add: authenticate_payload_def payload_account_def version_of_def)
  next
    case False
    then have "se_userId s \<noteq> i \<or> se_revokedAt s \<noteq> None \<or> se_expiresAt s \<le> now" by linarith
    with assms(5) found have "\<not> succeeds (authenticate_payload now \<lparr>pl_sub = i, pl_ver = Some (se_version s), pl_sid = Some (se_id s)\<rparr> d)"
      by (simp add: authenticate_payload_def payload_account_def)
    with False show ?thesis by blast
  qed
  finally show ?thesis .
qed

section \<open>Links\<close>

text \<open>The row of a hash stays the first one with it.\<close>

lemma find_first_same_link:
  assumes "find_first (\<lambda>l. li_tokenHash l = h) ls = Some l" and "links_advance A ls ls'" and "h \<in> A"
  shows "\<exists>l'. find_first (\<lambda>l. li_tokenHash l = h) ls' = Some l' \<and> same_link l l'"
proof -
  from assms(2) obtain us new where ls': "ls' = us @ new" and us: "list_all2 same_link ls us"
    unfolding links_advance_def by blast
  from us assms(1) have "\<exists>l'. find_first (\<lambda>l. li_tokenHash l = h) us = Some l' \<and> same_link l l'"
    by (induction rule: list_all2_induct) (auto simp: same_link_def split: if_splits)
  moreover have "find_first p us = Some x \<Longrightarrow> find_first p (us @ new) = Some x" for p x
    by (induction us) auto
  ultimately show ?thesis unfolding ls' by blast
qed

lemma claimed_used:
  assumes "find_first (\<lambda>l. li_tokenHash l = h) (ad_links d) = Some l" and "li_id l = li_id k" and "li_kind l = li_kind k" and "now \<le> li_expiresAt l"
    and "claim_auth_token now k d = (d', r)"
  shows "\<exists>l'. find_first (\<lambda>l. li_tokenHash l = h) (ad_links d') = Some l' \<and> li_usedAt l' \<noteq> None"
proof -
  let ?p = "\<lambda>x. li_id x = li_id k \<and> usable_link now (li_kind k) x"
  from assms(5) have d': "ad_links d' = rewrite ?p (\<lambda>x. x\<lparr>li_usedAt := Some now\<rparr>) (ad_links d)"
    by (auto simp: claim_auth_token_def update_many_def)
  have "find_first (\<lambda>l. li_tokenHash l = h) (ad_links d') =
      map_option (\<lambda>x. if ?p x then x\<lparr>li_usedAt := Some now\<rparr> else x) (find_first (\<lambda>l. li_tokenHash l = h) (ad_links d))"
    unfolding d' by (rule find_first_rewrite) simp
  with assms(1-4) show ?thesis by (auto simp: usable_link_def)
qed

lemma used_link_not_claimed:
  assumes "keyed li_id (ad_links d)" and "find_first (\<lambda>l. li_tokenHash l = h) (ad_links d) = Some l" and "li_usedAt l \<noteq> None"
    and "li_id l = li_id k"
  shows "claim_auth_token now k d = (d, Inl invalid_link)"
proof -
  have "l \<in> set (ad_links d)" using find_first_Some [OF assms(2)] by blast
  then have none: "\<not> (li_id x = li_id k \<and> usable_link now (li_kind k) x)" if "x \<in> set (ad_links d)" for x
    using keyed_unique [OF assms(1) that, of l] assms(3,4) by (auto simp: usable_link_def)
  then have "rewrite (\<lambda>x. li_id x = li_id k \<and> usable_link now (li_kind k) x) f (ad_links d) = ad_links d" for f
    unfolding rewrite_def by (intro map_idI) auto
  moreover from none have "count_where (\<lambda>x. li_id x = li_id k \<and> usable_link now (li_kind k) x) (ad_links d) = 0"
    by (auto simp: count_where_def filter_empty_conv)
  ultimately show ?thesis by (simp add: claim_auth_token_def update_many_def)
qed


section \<open>Administrators\<close>

lemma provisioned_row:
  assumes "provision_managed_user gt cr fr mid u w = (w', Inr a)"
  shows "ac_platformAdmin a = mu_admin u \<and> ac_mustChangePassword a = mu_mustChange u \<and> a \<in> set (ad_accounts (wo_db w'))"
  using assms
  by (auto simp: provision_managed_user_def Let_def reply_def reading_def bind_to_def roll_back_def calling_def writing_def
      create_account_def managed_row_def split: if_splits prod.splits sum.splits)

text \<open>
  C34: Registration makes an administrator only of the first account of a self-hosted installation, and, wherever the setup
  token is enforced, only for someone who presents the configured one.
\<close>

theorem only_the_setup_token_makes_an_administrator:
  assumes "register gt st cr fr mid r agent w = (w', Inr (t, u))" and "su_admin u"
  shows "\<not> st_saas st \<and> ad_accounts (wo_db w) = [] \<and>
    (bootstrap_token_enforced st \<longrightarrow> truthy (st_bootstrapToken st) \<and>
      cr_sha256 cr (the (st_bootstrapToken st)) = cr_sha256 cr (case rg_bootstrapToken r of None \<Rightarrow> [] | Some c \<Rightarrow> trim c))"
proof -
  let ?first = "ad_accounts (wo_db w) = []"
  let ?u = "\<lparr>mu_username = rg_username r, mu_email = rg_email r, mu_name = None, mu_password = rg_password r, mu_admin = ?first, mu_mustChange = False\<rparr>"
  from assms(1) have open_now: "registration_available st (wo_db w)"
    by (auto simp: register_def reading_def reply_def split: if_splits)
  with assms(1) obtain w1 a where
      token: "(if ?first \<and> bootstrap_token_enforced st then assert_bootstrap_token st cr (rg_bootstrapToken r) else Inr ()) = Inr ()"
      and made: "provision_managed_user gt cr fr mid ?u w = (w1, Inr a)" and u: "u = to_session st a"
    by (auto simp: register_def reading_def reply_def bind_to_def writing_def create_session_def Let_def
        split: if_splits prod.splits sum.splits)
  from provisioned_row [OF made] u assms(2) have "?first" by (simp add: to_session_def)
  with token open_now show ?thesis
    by (auto simp: registration_available_def assert_bootstrap_token_def split: if_splits)
qed

text \<open>A change of one account leaves the others.\<close>

lemma change_account_others:
  assumes "x \<in> set (ad_accounts d)" and "ac_id x \<noteq> i" and "\<And>a d. ad_accounts (ev a d) = ad_accounts d"
  shows "x \<in> set (ad_accounts (fst (change_account i f ev d)))"
  using assms by (auto simp: change_account_def update_row_def set_rewrite image_iff split: option.split)

lemma revoke_git_others:
  assumes "x \<in> set (ad_accounts (wo_db w))" and "ac_id x \<noteq> i"
  shows "x \<in> set (ad_accounts (wo_db (fst (revoke_git_credential gt i w))))"
proof (cases "account i (wo_db w)")
  case None
  with assms show ?thesis by (simp add: revoke_git_credential_def reading_def reply_def)
next
  case (Some a)
  show ?thesis
  proof (cases "calling (gi_revokeCredentials gt (ac_username a)) w")
    case (Pair w1 r)
    with calling_db have "wo_db w1 = wo_db w" by metis
    moreover have "x \<in> set (ad_accounts (fst (change_account i (\<lambda>a. a\<lparr>ac_accessToken := []\<rparr>) (\<lambda>_ d. d) (wo_db w))))"
      using assms by (rule change_account_others) simp
    ultimately show ?thesis
      using Some Pair assms
      by (auto simp: revoke_git_credential_def reading_def reply_def writing_def split: sum.split prod.split)
  qed
qed

text \<open>A handler that keeps a property of the database.\<close>

definition stable :: "(accounts_db \<Rightarrow> bool) \<Rightarrow> ('g, 'a) handler \<Rightarrow> bool" where
  "stable P h = (\<forall>w. P (wo_db w) \<longrightarrow> P (wo_db (fst (h w))))"

lemma stable_reply [intro!]: "stable P (reply r)"
  by (simp add: stable_def reply_def)

lemma stable_calling [intro!]: "stable P (calling f)"
  by (simp add: stable_def calling_def split: prod.split)

lemma stable_writing: "(\<And>d. P d \<Longrightarrow> P (fst (f d))) \<Longrightarrow> stable P (writing f)"
  by (simp add: stable_def writing_def case_prod_beta)

lemma stable_reading [intro!]: "(\<And>d. stable P (f d)) \<Longrightarrow> stable P (reading f)"
  by (simp add: stable_def reading_def)

lemma stable_bind [intro!]:
  fixes h :: "('g, 'a) handler"
  assumes "stable P h" and "\<And>x. stable P (f x)"
  shows "stable P (bind_to h f)"
  unfolding stable_def
proof (intro allI impI)
  fix w :: "'g world" assume "P (wo_db w)"
  with assms(1) have "P (wo_db (fst (h w)))" by (simp add: stable_def)
  with assms(2) show "P (wo_db (fst (bind_to h f w)))"
    by (cases "h w") (auto simp: bind_to_def stable_def split: sum.split)
qed

definition administrators :: "accounts_db \<Rightarrow> nat" where
  "administrators d = count_where (\<lambda>a. ac_platformAdmin a \<and> ac_active a) (ad_accounts d)"

lemma administrators_pos: "0 < administrators d \<longleftrightarrow> (\<exists>a \<in> set (ad_accounts d). ac_platformAdmin a \<and> ac_active a)"
  by (simp add: administrators_def count_where_pos_ex)

text \<open>
  C35: As long as no other request commits in between, activating and deactivating accounts leaves an active administrator,
  whatever the outcome of the call.
\<close>

theorem an_administrator_remains:
  assumes "0 < administrators (wo_db w)" and "keyed ac_id (ad_accounts (wo_db w))"
  shows "0 < administrators (wo_db (fst (set_active gt (\<lambda>d. d) actor i active w)))"
proof -
  let ?set = "\<lambda>n. change_account i (set_activity active) (by_admin n actor [])"
  have ev: "ad_accounts (by_admin n actor [] a d) = ad_accounts d" for n a d by (simp add: by_admin_def)
  from assms(1) obtain x where x: "x \<in> set (ad_accounts (wo_db w))" "ac_platformAdmin x" "ac_active x"
    by (auto simp: administrators_pos)
  show ?thesis
  proof (cases "account i (wo_db w)")
    case None
    with assms(1) show ?thesis by (simp add: set_active_def reading_def reply_def)
  next
    case (Some a)
    from account_Some [OF Some] have a: "a \<in> set (ad_accounts (wo_db w))" "ac_id a = i" by auto
    consider (refused) "fst (set_active gt (\<lambda>d. d) actor i active w) = w"
      | (other) y where "y \<in> set (ad_accounts (wo_db w))" "ac_id y \<noteq> i" "ac_platformAdmin y" "ac_active y"
      | (on) "x = a" "active"
    proof -
      have "x = a" if "ac_id x = i" using keyed_unique [OF assms(2) x(1) a(1)] that a(2) by simp
      moreover have "\<exists>y \<in> set (ad_accounts (wo_db w)). ac_id y \<noteq> i \<and> ac_platformAdmin y \<and> ac_active y" if "other_admins i (wo_db w) \<noteq> 0"
        using that by (auto simp: other_admins_def count_where_0_iff)
      moreover have "fst (set_active gt (\<lambda>d. d) actor i active w) = w"
        if "\<not> active" "x = a" "other_admins i (wo_db w) = 0"
        using that Some x by (simp add: set_active_def reading_def reply_def)
      ultimately show ?thesis using that x by blast
    qed
    then show ?thesis
    proof cases
      case refused
      with assms(1) show ?thesis by simp
    next
      case other
      have "y \<in> set (ad_accounts (wo_db (fst (set_active gt (\<lambda>d. d) actor i active w))))"
      proof -
        let ?P = "\<lambda>d. y \<in> set (ad_accounts d)"
        have "stable ?P (writing (\<lambda>d. ?set n d))" for n
          by (intro stable_writing change_account_others other(2) ev)
        moreover have "stable ?P (revoke_git_credential gt i)"
          by (simp add: stable_def revoke_git_others other(2))
        ultimately have "stable ?P (set_active gt (\<lambda>d. d) actor i active)"
          unfolding set_active_def by (auto split: option.split)
        with other(1) show ?thesis by (simp add: stable_def)
      qed
      with other show ?thesis by (auto simp: administrators_pos)
    next
      case on
      with Some x assms(1) show ?thesis by (simp add: set_active_def reading_def reply_def)
    qed
  qed
qed

section \<open>Failed provisioning\<close>

text \<open>
  What the code relies on of Gitea: a created account has the login it answers, a failed creation leaves none, tokens
  and passwords change no accounts, and deletion succeeds. \<open>logins\<close> reads the logins off the state.
\<close>

definition account_api :: "('g \<Rightarrow> string set) \<Rightarrow> 'g gitea \<Rightarrow> bool" where
  "account_api logins gt = (\<forall>u e p l g.
     (case gi_createUser gt u e p g of
        (g', Inl _) \<Rightarrow> logins g' = logins g | (g', Inr (_, n)) \<Rightarrow> n \<noteq> [] \<and> n \<notin> logins g \<and> logins g' = insert n (logins g)) \<and>
     logins (fst (gi_createCloneToken gt u p g)) = logins g \<and> logins (fst (gi_randomizePassword gt u g)) = logins g \<and>
     (\<exists>g'. gi_deleteUser gt l g = (g', Inr ()) \<and> logins g' = logins g - {l}))"

lemma account_apiD:
  assumes "account_api logins gt"
  shows "gi_createUser gt u e p g = (g', Inl x) \<Longrightarrow> logins g' = logins g"
    and "gi_createUser gt u e p g = (g', Inr (n, l)) \<Longrightarrow> l \<noteq> [] \<and> l \<notin> logins g \<and> logins g' = insert l (logins g)"
    and "logins (fst (gi_createCloneToken gt u p g)) = logins g"
    and "logins (fst (gi_randomizePassword gt u g)) = logins g"
    and "\<exists>g'. gi_deleteUser gt l g = (g', Inr ()) \<and> logins g' = logins g - {l}"
proof -
  have all: "(case gi_createUser gt u e p g of
        (g', Inl _) \<Rightarrow> logins g' = logins g | (g', Inr (_, n)) \<Rightarrow> n \<noteq> [] \<and> n \<notin> logins g \<and> logins g' = insert n (logins g)) \<and>
     logins (fst (gi_createCloneToken gt u p g)) = logins g \<and> logins (fst (gi_randomizePassword gt u g)) = logins g \<and>
     (\<exists>g'. gi_deleteUser gt l g = (g', Inr ()) \<and> logins g' = logins g - {l})" for u e p l g
    using assms unfolding account_api_def by - (drule spec, drule spec, drule spec, drule spec, drule spec, assumption)
  show "gi_createUser gt u e p g = (g', Inl x) \<Longrightarrow> logins g' = logins g"
    and "gi_createUser gt u e p g = (g', Inr (n, l)) \<Longrightarrow> l \<noteq> [] \<and> l \<notin> logins g \<and> logins g' = insert l (logins g)"
    and "logins (fst (gi_createCloneToken gt u p g)) = logins g"
    and "logins (fst (gi_randomizePassword gt u g)) = logins g"
    and "\<exists>g'. gi_deleteUser gt l g = (g', Inr ()) \<and> logins g' = logins g - {l}"
    using all [where u = u and e = e and p = p and g = g and l = l] by auto
qed

lemma roll_back_logins:
  assumes "account_api logins gt" and "roll_back gt l h w = (w', Inl e)" and "l \<noteq> []" and "\<And>w. logins (wo_gitea (fst (h w))) = logins (wo_gitea w)"
  shows "logins (wo_gitea w') = logins (wo_gitea w) - {l}"
proof (cases "h w")
  case (Pair w1 r)
  with assms(2) obtain e1 where r: "r = Inl e1" by (cases r) (simp_all add: roll_back_def)
  obtain g where "gi_deleteUser gt l (wo_gitea w1) = (g, Inr ())" "logins g = logins (wo_gitea w1) - {l}"
    using account_apiD(5) [OF assms(1)] by blast
  with Pair r assms(2,3) have "w' = w1\<lparr>wo_gitea := g\<rparr>" by (simp add: roll_back_def calling_def)
  with \<open>logins g = logins (wo_gitea w1) - {l}\<close> Pair assms(4) [of w] show ?thesis by simp
qed

text \<open>
  A registration that fails, at whatever step, leaves Gitea with the accounts it had.
\<close>

theorem failed_provisioning_leaves_no_git_account:
  assumes "account_api logins gt" and "provision_managed_user gt cr fr mid u w = (w', Inl e)"
  shows "logins (wo_gitea w') = logins (wo_gitea w)"
proof -
  let ?name = "normalize_account_identifier cr (mu_username u)"
  let ?mail = "normalize_account_identifier cr (mu_email u)"
  let ?h = "\<lambda>gu. bind_to (calling (gi_createCloneToken gt ?name (mu_password u))) (\<lambda>token.
      bind_to (calling (gi_randomizePassword gt ?name)) (\<lambda>_.
      writing (\<lambda>d. create_account (managed_row cr fr u ?mail gu token) (mid d))))"
  have kept: "logins (wo_gitea (fst (?h gu w))) = logins (wo_gitea w)" for gu w
    using account_apiD(3,4) [OF assms(1)]
    by (auto simp: bind_to_def calling_def writing_def split: prod.split sum.split) (metis fst_conv)+
  show ?thesis
  proof (cases "is_reserved_username ?name \<or> list_ex (named cr ?name ?mail) (ad_accounts (wo_db w))")
    case True
    with assms(2) show ?thesis by (auto simp: provision_managed_user_def Let_def reading_def reply_def split: if_splits)
  next
    case False
    obtain g r where made: "gi_createUser gt ?name ?mail (mu_password u) (wo_gitea w) = (g, r)" by force
    show ?thesis
    proof (cases r)
      case (Inl x)
      with False assms(2) made have "w' = w\<lparr>wo_gitea := g\<rparr>"
        by (simp add: provision_managed_user_def Let_def reading_def bind_to_def calling_def)
      with made Inl account_apiD(1) [OF assms(1)] show ?thesis by auto
    next
      case (Inr gu)
      with False assms(2) made have "roll_back gt (snd gu) (?h gu) (w\<lparr>wo_gitea := g\<rparr>) = (w', Inl e)"
        by (simp add: provision_managed_user_def Let_def reading_def bind_to_def calling_def [of "gi_createUser gt ?name ?mail (mu_password u)"])
      moreover from made Inr have new: "snd gu \<noteq> []" "snd gu \<notin> logins (wo_gitea w)" "logins g = insert (snd gu) (logins (wo_gitea w))"
        using account_apiD(2) [OF assms(1), of _ _ _ _ g "fst gu" "snd gu"] by auto
      ultimately have "logins (wo_gitea w') = logins g - {snd gu}" using roll_back_logins [OF assms(1) _ new(1) kept] by simp
      with new show ?thesis by auto
    qed
  qed
qed

end
