(* ===== verification/AccountExamples.thy ===== *)
theory AccountExamples
  imports AccountProofs
begin

text \<open>
  Concrete accounts, sessions, links and a Gitea whose state is the set of its logins, on which the properties of
  \<open>AccountProofs\<close> are applied.
\<close>

definition demo_account :: account_row where
  "demo_account = \<lparr>ac_id = ''a'', ac_giteaId = None, ac_username = ''a'', ac_name = None, ac_email = None, ac_avatarUrl = None,
     ac_accessToken = [], ac_passwordHash = Some ''old'', ac_platformAdmin = True, ac_active = True, ac_mustChangePassword = False,
     ac_tokenVersion = 0, ac_emailVerifiedAt = None, ac_scopedAt = None, ac_workspace = None\<rparr>"

definition demo_session :: session_row where
  "demo_session = \<lparr>se_id = ''s'', se_userId = ''a'', se_version = 0, se_userAgent = None, se_createdAt = 0, se_expiresAt = 10, se_revokedAt = None\<rparr>"

definition demo_link :: link_row where
  "demo_link = \<lparr>li_id = ''l'', li_userId = ''a'', li_kind = Activation, li_tokenHash = ''t'', li_expiresAt = 10, li_usedAt = None\<rparr>"

definition demo_accounts :: accounts_db where
  "demo_accounts = \<lparr>ad_accounts = [demo_account, demo_account\<lparr>ac_id := ''bb'', ac_username := ''bb''\<rparr>], ad_sessions = [demo_session],
     ad_links = [demo_link], ad_mails = [], ad_log = []\<rparr>"

definition demo_payload :: payload where
  "demo_payload = \<lparr>pl_sub = ''a'', pl_ver = Some 0, pl_sid = Some ''s''\<rparr>"

definition demo_crypto :: crypto where
  "demo_crypto = \<lparr>cr_hashPassword = id, cr_verifyPassword = (=), cr_sha256 = id, cr_encrypt = id, cr_nfkc = id, cr_sign = pl_sub\<rparr>"

definition demo_fresh :: fresh where
  "demo_fresh = \<lparr>fr_now = 5, fr_id = ''i'', fr_sid = ''n'', fr_link = ''m'', fr_token = ''u'', fr_password = ''p''\<rparr>"

definition demo_settings :: settings where
  "demo_settings = \<lparr>st_saas = False, st_open = False, st_bootstrapToken = Some ''k'', st_production = True, st_mail = False, st_frontend = [], st_docs = []\<rparr>"

text \<open>It refuses clone tokens, so that provisioning fails halfway.\<close>

definition demo_gitea :: "string set gitea" where
  "demo_gitea = \<lparr>gi_createUser = (\<lambda>u e p g. if u = [] \<or> u \<in> g then (g, Inl (Conflict u)) else (insert u g, Inr (1, u))),
     gi_createCloneToken = (\<lambda>u p g. (g, Inl (ServerError []))), gi_randomizePassword = (\<lambda>u g. (g, Inr ())),
     gi_deleteUser = (\<lambda>u g. (g - {u}, Inr ())), gi_revokeCredentials = (\<lambda>u g. (g, Inr ())), gi_setActive = (\<lambda>u b g. (g, Inr ()))\<rparr>"

definition working_gitea :: "string set gitea" where
  "working_gitea = demo_gitea\<lparr>gi_createUser := (\<lambda>u e p g. if u = [] \<or> u \<in> g then (g, Inl (Conflict u)) else (insert u g, Inr (int (length u), u))),
     gi_createCloneToken := (\<lambda>u p g. (g, Inr []))\<rparr>"

lemmas demo_defs = demo_account_def demo_session_def demo_link_def demo_accounts_def demo_payload_def demo_fresh_def
  demo_settings_def

lemma demo_crypto_simps [simp]:
  "cr_hashPassword demo_crypto = id" "cr_verifyPassword demo_crypto = (=)" "cr_sha256 demo_crypto = id"
  "cr_encrypt demo_crypto = id" "cr_nfkc demo_crypto = id" "cr_sign demo_crypto = pl_sub"
  by (simp_all add: demo_crypto_def)

lemma demo_gitea_simps [simp]:
  "gi_createUser demo_gitea u e p g = (if u = [] \<or> u \<in> g then (g, Inl (Conflict u)) else (insert u g, Inr (1, u)))"
  "gi_createUser working_gitea u e p g = (if u = [] \<or> u \<in> g then (g, Inl (Conflict u)) else (insert u g, Inr (int (length u), u)))"
  "gi_createCloneToken demo_gitea u p g = (g, Inl (ServerError []))" "gi_createCloneToken working_gitea u p g = (g, Inr [])"
  "gi_randomizePassword demo_gitea u g = (g, Inr ())" "gi_randomizePassword working_gitea u g = (g, Inr ())"
  "gi_deleteUser demo_gitea u g = (g - {u}, Inr ())" "gi_deleteUser working_gitea u g = (g - {u}, Inr ())"
  "gi_setActive demo_gitea u b g = (g, Inr ())" "gi_revokeCredentials demo_gitea u g = (g, Inr ())"
  by (simp_all add: demo_gitea_def working_gitea_def)

lemma demo_authenticates: "authenticate_payload 5 demo_payload demo_accounts = Inr (authenticated_as demo_account (Some ''s''))"
  by (simp add: authenticate_payload_def payload_account_def session_def account_def version_of_def demo_defs)

lemma demo_keyed: "keyed ac_id (ad_accounts demo_accounts)" "keyed se_id (ad_sessions demo_accounts)"
  by (simp_all add: keyed_def demo_defs)

lemma demo_found: "account ''a'' demo_accounts = Some demo_account"
  by (simp add: account_def demo_defs)

lemma signed_out_token_never_returns_witness:
  "\<not> succeeds (authenticate (\<lambda>_. Some demo_payload) 7 ''t'' (revoke_token (\<lambda>_. Some demo_payload) 6 ''t'' demo_accounts))"
  by (rule signed_out_token_never_returns [where A = "{''s''}" and gt = demo_gitea and st = demo_settings and cr = demo_crypto and now = 5,
      OF _ demo_keyed(1) _ evolves.stay])
    (simp_all add: authenticate_def demo_authenticates, simp add: demo_payload_def)

lemma deactivation_ends_every_session_witness:
  "\<not> succeeds (authenticate_payload 7 demo_payload (wo_db (fst (set_active demo_gitea (\<lambda>d. d) ''bb'' ''a'' False \<lparr>wo_db = demo_accounts, wo_gitea = {}\<rparr>))))"
proof -
  let ?w = "\<lparr>wo_db = demo_accounts, wo_gitea = {}\<rparr> :: string set world"
  have "\<exists>w' a. set_active demo_gitea (\<lambda>d. d) ''bb'' ''a'' False ?w = (w', Inr a)"
    by (simp add: set_active_def reading_def bind_to_def revoke_git_credential_def reply_def calling_def writing_def account_def
        other_admins_def change_account_def update_row_def demo_defs)
  then obtain w' a where run: "set_active demo_gitea (\<lambda>d. d) ''bb'' ''a'' False ?w = (w', Inr a)" by blast
  have "\<not> succeeds (authenticate_payload 7 demo_payload (wo_db w'))"
    by (rule deactivation_ends_every_session [OF run, where b = demo_account and now = 5 and p = demo_payload and st = demo_settings
          and cr = demo_crypto and vf = "\<lambda>_. None" and A = "{}", OF _ _ _ _ _ evolves.stay evolves.stay])
      (simp_all add: demo_found demo_authenticates demo_keyed, simp_all add: demo_account_def demo_payload_def)
  with run show ?thesis by simp
qed

lemma new_password_leaves_one_session_witness:
  "\<not> succeeds (authenticate_payload 7 demo_payload
     (fst (change_password demo_settings demo_crypto demo_fresh (\<lambda>d. d) ''a'' ''old'' ''new'' None demo_accounts)))"
proof -
  obtain d1 t u where run: "change_password demo_settings demo_crypto demo_fresh (\<lambda>d. d) ''a'' ''old'' ''new'' None demo_accounts = (d1, Inr (t, u))"
    by (simp add: change_password_def account_def change_account_def update_row_def create_session_def issue_def demo_defs)
  have "\<forall>p. succeeds (authenticate_payload 5 p demo_accounts) \<longrightarrow> pl_sub p = ''a'' \<longrightarrow>
      (\<forall>d'. evolves demo_gitea demo_settings demo_crypto (\<lambda>_. None) {} d1 d' \<longrightarrow> \<not> succeeds (authenticate_payload 7 p d'))"
    by (rule conjunct2 [OF new_password_leaves_one_session [OF run demo_keyed(1), where later = 6 and b = demo_account, OF evolves.stay]])
      (simp_all add: demo_found, simp_all add: demo_defs session_ttl_ms_def)
  moreover have "pl_sub demo_payload = ''a''" by (simp add: demo_payload_def)
  ultimately show ?thesis using run demo_authenticates evolves.stay by (metis fst_conv succeeds_simps(1))
qed

lemma overview_lists_exactly_the_usable_sessions_witness:
  "''s'' \<in> sm_id ` set (list_sessions 5 ''a'' None demo_accounts)"
proof -
  have s: "demo_session \<in> set (ad_sessions demo_accounts)" "se_id demo_session = ''s''" "ac_active demo_account" by (simp_all add: demo_defs)
  have "\<lparr>pl_sub = ''a'', pl_ver = Some (se_version demo_session), pl_sid = Some (se_id demo_session)\<rparr> = demo_payload"
    by (simp add: demo_defs)
  with overview_lists_exactly_the_usable_sessions [OF demo_found s(3) demo_keyed(2) s(1), of 5 None] s(2) demo_authenticates
  show ?thesis by simp
qed


lemma an_administrator_remains_witness:
  "0 < administrators (wo_db (fst (set_active demo_gitea (\<lambda>d. d) ''bb'' ''a'' False \<lparr>wo_db = demo_accounts, wo_gitea = {}\<rparr>)))"
  by (rule an_administrator_remains) (simp_all add: demo_keyed administrators_def, simp add: demo_defs)

lemma chars_lower [simp]: "lower_char CHR ''a'' = CHR ''a''" "lower_char CHR ''b'' = CHR ''b''" "\<not> is_blank CHR ''a''" "\<not> is_blank CHR ''b''" "lower_char CHR ''x'' = CHR ''x''" "\<not> is_blank CHR ''x''" "lower_char CHR ''k'' = CHR ''k''" "\<not> is_blank CHR ''k''"
  by (simp_all add: lower_char_def is_blank_def)

lemma failed_provisioning_leaves_no_git_account_witness:
  "wo_gitea (fst (provision_managed_user demo_gitea demo_crypto demo_fresh (\<lambda>d. d)
     \<lparr>mu_username = ''x'', mu_email = [], mu_name = None, mu_password = [], mu_admin = False, mu_mustChange = False\<rparr>
     \<lparr>wo_db = demo_accounts, wo_gitea = {}\<rparr>)) = {}"
proof -
  let ?u = "\<lparr>mu_username = ''x'', mu_email = [], mu_name = None, mu_password = [], mu_admin = False, mu_mustChange = False\<rparr>"
  have api: "account_api id demo_gitea" by (auto simp: account_api_def)
  have norm: "normalize_account_identifier demo_crypto ''x'' = ''x''" "normalize_account_identifier demo_crypto [] = []"
    by (simp_all add: normalize_account_identifier_def lower_def trim_def demo_crypto_def)
  obtain w' e where run: "provision_managed_user demo_gitea demo_crypto demo_fresh (\<lambda>d. d) ?u \<lparr>wo_db = demo_accounts, wo_gitea = {}\<rparr> = (w', Inl e)"
    by (simp add: provision_managed_user_def norm Let_def is_reserved_username_def trim_def lower_def reserved_usernames_def reading_def
        bind_to_def calling_def roll_back_def writing_def reply_def named_def identifier_equals_def list_ex_iff demo_defs)
  from failed_provisioning_leaves_no_git_account [OF api this] run show ?thesis by simp
qed

definition no_accounts :: accounts_db where
  "no_accounts = \<lparr>ad_accounts = [], ad_sessions = [], ad_links = [], ad_mails = [], ad_log = []\<rparr>"

definition first_registration :: "string \<Rightarrow> (accounts_db \<Rightarrow> accounts_db) \<Rightarrow> string set world \<Rightarrow> string set world \<times> (string \<times> session_user) outcome" where
  "first_registration u mid = register working_gitea demo_settings demo_crypto (demo_fresh\<lparr>fr_id := u\<rparr>) mid
     \<lparr>rg_username = u, rg_email = u, rg_password = [], rg_bootstrapToken = Some ''k''\<rparr> None"

lemma short_names:
  "normalize_account_identifier demo_crypto ''a'' = ''a''" "normalize_account_identifier demo_crypto ''bb'' = ''bb''"
  "normalize_account_identifier demo_crypto [] = []"
  "lower ''a'' = ''a''" "lower ''bb'' = ''bb''" "lower [] = []" "trim ''a'' = ''a''" "trim ''bb'' = ''bb''" "trim ''k'' = ''k''"
  "\<not> is_reserved_username ''a''" "\<not> is_reserved_username ''bb''"
  by (simp_all add: normalize_account_identifier_def lower_def trim_def demo_crypto_def is_reserved_username_def reserved_usernames_def)

lemmas registering_defs = register_def reading_def reply_def bind_to_def calling_def roll_back_def writing_def
  provision_managed_user_def Let_def short_names registration_available_def bootstrap_token_enforced_def assert_bootstrap_token_def
  create_account_def unique_account_def managed_row_def named_def identifier_equals_def create_session_def issue_def to_session_def account_event_def no_accounts_def

lemma only_the_setup_token_makes_an_administrator_witness:
  "\<exists>u. snd (first_registration ''a'' (\<lambda>d. d) \<lparr>wo_db = no_accounts, wo_gitea = {}\<rparr>) = Inr u \<and>
     truthy (st_bootstrapToken demo_settings)"
proof -
  obtain w t u where run: "register working_gitea demo_settings demo_crypto (demo_fresh\<lparr>fr_id := ''a''\<rparr>) (\<lambda>d. d)
     \<lparr>rg_username = ''a'', rg_email = ''a'', rg_password = [], rg_bootstrapToken = Some ''k''\<rparr> None \<lparr>wo_db = no_accounts, wo_gitea = {}\<rparr> = (w, Inr (t, u))"
      and admin: "su_admin u"
    by (simp add: registering_defs demo_defs)
  from only_the_setup_token_makes_an_administrator [OF run admin] have "truthy (st_bootstrapToken demo_settings)"
    by (simp add: bootstrap_token_enforced_def demo_settings_def)
  with run show ?thesis by (simp add: first_registration_def)
qed

text \<open>
  The lock around registration is a promise of one API process. Where a second process registers between the count
  and the insert, both accounts become administrators.
\<close>

lemma two_processes_make_two_administrators:
  "administrators (wo_db (fst (first_registration ''a''
     (\<lambda>d. wo_db (fst (first_registration ''bb'' (\<lambda>d. d) \<lparr>wo_db = d, wo_gitea = {}\<rparr>)))
     \<lparr>wo_db = no_accounts, wo_gitea = {}\<rparr>))) = 2"
  by (simp add: first_registration_def administrators_def registering_defs demo_defs create_def)

text \<open>
  The other administrators are counted before Gitea is called and outside the transaction: two administrators who
  deactivate each other at the same time both pass the check, and none is left.
\<close>

lemma administrators_deactivate_each_other:
  "administrators demo_accounts = 2 \<and> administrators (wo_db (fst (set_active demo_gitea
     (\<lambda>d. wo_db (fst (set_active demo_gitea (\<lambda>d. d) ''a'' ''bb'' False \<lparr>wo_db = d, wo_gitea = {}\<rparr>)))
     ''bb'' ''a'' False \<lparr>wo_db = demo_accounts, wo_gitea = {}\<rparr>))) = 0"
  by (simp add: administrators_def set_active_def reading_def bind_to_def revoke_git_credential_def reply_def calling_def writing_def
    account_def other_admins_def change_account_def update_row_def by_admin_def account_event_def set_activity_def demo_defs)

end
