(* ===== verification/Artifacts.thy ===== *)
theory Artifacts
  imports Rollback DeployOps
begin

text \<open>
  Build artifacts: their storage keys and the identity of their archives (\<open>artifacts/\<close>), the execution lease
  of an ingestion (\<open>projects/project-artifact-execution-lease.ts\<close>), the ingestion of an archive from CI
  (\<open>project-artifact-ingestion.ts\<close>), and retention (\<open>project-artifact-lifecycle.ts\<close>).

  \<open>store\<close> is the database together with the objects of the bucket. The answers of the provider, of the bucket and
  of the Docker daemon during an ingestion are its \<open>run\<close>, together with the database clock and with what other
  processes commit before each of its statements.
\<close>

section \<open>Storage keys\<close>

definition key_char :: "char \<Rightarrow> bool" where
  "key_char c = (is_lower c \<or> is_lower (lower_char c) \<or> is_digit c \<or> c \<in> set ''._-'')"

text \<open>A run of other characters becomes one dash, a run of dots one dot.\<close>

fun dash_runs :: "bool \<Rightarrow> string \<Rightarrow> string" where
  "dash_runs open_run [] = []"
| "dash_runs open_run (c # s) = (if key_char c then c # dash_runs False s
     else if open_run then dash_runs True s else CHR ''-'' # dash_runs True s)"

fun dot_runs :: "string \<Rightarrow> string" where
  "dot_runs (a # b # s) = (if a = CHR ''.'' \<and> b = CHR ''.'' then dot_runs (b # s) else a # dot_runs (b # s))"
| "dot_runs s = s"

definition trim_edges :: "string \<Rightarrow> string \<Rightarrow> string" where
  "trim_edges cs s = rev (dropWhile (\<lambda>c. c \<in> set cs) (rev (dropWhile (\<lambda>c. c \<in> set cs) s)))"

definition slug :: "string \<Rightarrow> string outcome" where
  "slug v = (let t = trim_edges ''.-'' (dot_runs (dash_runs False (trim v))) in
     if t = [] then Inl (ServerError ''artifactObjectKey: component is empty after sanitisation'') else Inr t)"

record key_parts =
  kp_workspaceId :: string
  kp_projectId :: string
  kp_artifactId :: string
  kp_digest :: string

fun missing_part :: "nat \<Rightarrow> string list \<Rightarrow> nat option" where
  "missing_part i [] = None"
| "missing_part i (p # ps) = (if trim p = [] then Some i else missing_part (i + 1) ps)"

definition artifact_object_key :: "key_parts \<Rightarrow> string outcome" where
  "artifact_object_key k = (case missing_part 0 [kp_workspaceId k, kp_projectId k, kp_artifactId k, kp_digest k] of
      Some i \<Rightarrow> Inl (ServerError (''artifactObjectKey: missing key component at position '' @ nat_str i))
    | None \<Rightarrow> (case (slug (kp_digest k), slug (kp_workspaceId k), slug (kp_projectId k), slug (kp_artifactId k)) of
        (Inr d, Inr w, Inr p, Inr a) \<Rightarrow> Inr (''artifacts'' @ ''/'' @ w @ ''/'' @ p @ ''/'' @ a @ ''/'' @ d @ ''.tar'')
      | _ \<Rightarrow> Inl (ServerError ''artifactObjectKey: component is empty after sanitisation'')))"

section \<open>The identity of an archive\<close>

text \<open>An archive is the list of its entries by name and content, or unreadable.\<close>

type_synonym archive = "(string \<times> string) list option"

record archive_scan =
  sc_error :: "string option"
  sc_seen :: bool
  sc_manifest :: "string option"

definition keep_first :: "string \<Rightarrow> archive_scan \<Rightarrow> archive_scan" where
  "keep_first m a = (if sc_error a = None then a\<lparr>sc_error := Some m\<rparr> else a)"

definition scan_entry :: "nat \<Rightarrow> string \<times> string \<Rightarrow> archive_scan \<Rightarrow> archive_scan" where
  "scan_entry n e a =
     (if n > 100000 then keep_first ''Image archive contains too many entries'' a
      else if fst e \<noteq> ''manifest.json'' then a
      else if sc_seen a then keep_first ''Image archive contains duplicate Docker manifests'' a
      else (let b = (if length (snd e) > 1024 * 1024 then keep_first ''Image archive manifest is too large'' a else a) in
        b\<lparr>sc_seen := True, sc_manifest := Some (snd e)\<rparr>))"

fun scan_entries :: "nat \<Rightarrow> (string \<times> string) list \<Rightarrow> archive_scan \<Rightarrow> archive_scan" where
  "scan_entries n [] a = a"
| "scan_entries n (e # es) a = scan_entries (n + 1) es (scan_entry (n + 1) e a)"

fun object_like :: "json \<Rightarrow> bool" where
  "object_like (JObj _) = True"
| "object_like (JArr _) = True"
| "object_like _ = False"

definition repo_tags :: "json \<Rightarrow> json list" where
  "repo_tags r = (case json_get r ''RepoTags'' of None \<Rightarrow> [] | Some JNull \<Rightarrow> [] | Some (JArr ts) \<Rightarrow> ts | Some t \<Rightarrow> [t])"

fun is_string :: "json \<Rightarrow> bool" where
  "is_string (JStr _) = True"
| "is_string _ = False"

definition invalid_manifest :: http_error where
  "invalid_manifest = ServerError ''Image archive contains an invalid Docker manifest''"

definition assert_image_archive_identity :: "(string \<Rightarrow> json option) \<Rightarrow> archive \<Rightarrow> string \<Rightarrow> unit outcome" where
  "assert_image_archive_identity parse a ref = (case a of
      None \<Rightarrow> Inl (ServerError ''unreadable archive'')
    | Some es \<Rightarrow> (let s = scan_entries 0 es \<lparr>sc_error = None, sc_seen = False, sc_manifest = None\<rparr> in
        case sc_error s of Some m \<Rightarrow> Inl (ServerError m)
        | None \<Rightarrow> (case sc_manifest s of
            None \<Rightarrow> Inl (ServerError ''Image archive contains no Docker manifest'')
          | Some m \<Rightarrow> (case parse m of
              Some (JArr rs) \<Rightarrow>
                if \<not> list_all object_like rs then Inl invalid_manifest
                else (let tags = concat (map repo_tags rs) in
                  if \<not> list_all is_string tags then Inl (ServerError ''Image archive contains an invalid Docker tag'')
                  else if length rs \<noteq> 1 \<or> tags \<noteq> [JStr ref]
                  then Inl (ServerError (''Image archive must contain exactly the expected tag '' @ [CHR 0x27] @ ref @ [CHR 0x27]))
                  else Inr ())
            | _ \<Rightarrow> Inl invalid_manifest))))"

section \<open>The execution lease\<close>

definition artifact_lease_ms :: int where "artifact_lease_ms = 90000"
definition artifact_legacy_grace_ms :: int where "artifact_legacy_grace_ms = artifact_lease_ms"

record artifact_ctx =
  ax_id :: string
  ax_generation :: nat
  ax_lost :: bool
  ax_completed :: bool

text \<open>Statements on the row; \<open>now\<close> is the clock Prisma writes to \<open>updatedAt\<close>, which raw statements leave.\<close>

definition claim_artifact_row :: "string \<Rightarrow> instant \<Rightarrow> artifact_row \<Rightarrow> artifact_row option" where
  "claim_artifact_row me t = when_row (\<lambda>r. ba_status r \<in> {AfAccepted, AfFailed} \<and> ba_owner r = None)
     (\<lambda>r. r\<lparr>ba_status := AfIngesting, ba_error := None, ba_owner := Some me, ba_generation := ba_generation r + 1,
        ba_leaseExpiresAt := Some (t + artifact_lease_ms)\<rparr>)"

definition renew_artifact_row :: "string \<Rightarrow> nat \<Rightarrow> instant \<Rightarrow> artifact_row \<Rightarrow> artifact_row option" where
  "renew_artifact_row me g t = when_row
     (\<lambda>r. ba_status r = AfIngesting \<and> ba_owner r = Some me \<and> ba_generation r = g \<and> unexpired (ba_leaseExpiresAt r) t)
     (\<lambda>r. r\<lparr>ba_leaseExpiresAt := Some (t + artifact_lease_ms)\<rparr>)"

definition fenced :: "string \<Rightarrow> nat \<Rightarrow> string option \<Rightarrow> artifact_row \<Rightarrow> bool" where
  "fenced me g p r = ((case p of None \<Rightarrow> True | Some i \<Rightarrow> i = [] \<or> ba_projectId r = i) \<and> ba_status r = AfIngesting \<and>
     ba_owner r = Some me \<and> ba_generation r = g)"

definition release_artifact_row :: "string \<Rightarrow> nat \<Rightarrow> instant \<Rightarrow> artifact_row \<Rightarrow> artifact_row option" where
  "release_artifact_row me g now = when_row (fenced me g None)
     (\<lambda>r. r\<lparr>ba_owner := None, ba_leaseExpiresAt := None, ba_updatedAt := now\<rparr>)"

definition publish_artifact_row ::
  "string \<Rightarrow> nat \<Rightarrow> string \<Rightarrow> string \<Rightarrow> string \<Rightarrow> instant \<Rightarrow> artifact_row \<Rightarrow> artifact_row option" where
  "publish_artifact_row me g p key ref now = when_row (fenced me g (Some p))
     (\<lambda>r. r\<lparr>ba_status := AfAvailable, ba_storageKind := Some ''object-store'', ba_storageRef := Some key, ba_imageRef := Some ref,
        ba_error := None, ba_owner := None, ba_leaseExpiresAt := None, ba_updatedAt := now\<rparr>)"

definition withdrawn :: "artifact_status \<Rightarrow> string option \<Rightarrow> instant \<Rightarrow> artifact_row \<Rightarrow> artifact_row" where
  "withdrawn s e now r = r\<lparr>ba_status := s, ba_error := e, ba_storageKind := None, ba_storageRef := None, ba_owner := None,
     ba_leaseExpiresAt := None, ba_updatedAt := now\<rparr>"

definition fail_artifact_row :: "string \<Rightarrow> nat \<Rightarrow> string \<Rightarrow> string \<Rightarrow> instant \<Rightarrow> artifact_row \<Rightarrow> artifact_row option" where
  "fail_artifact_row me g p m now = when_row (fenced me g (Some p)) (withdrawn AfFailed (Some m) now)"

definition legacy_unowned :: "instant \<Rightarrow> artifact_row \<Rightarrow> bool" where
  "legacy_unowned now r = (ba_owner r = None \<and> ba_leaseExpiresAt r = None \<and> ba_createdAt r \<le> now - artifact_legacy_grace_ms)"

definition interrupted :: "instant \<Rightarrow> artifact_row \<Rightarrow> bool" where
  "interrupted now r = (ba_status r = AfIngesting \<and> (expired (ba_leaseExpiresAt r) now \<or> legacy_unowned now r) \<or>
     ba_status r = AfAccepted \<and> legacy_unowned now r)"

definition interrupted_reason :: string where
  "interrupted_reason = ''Artifact ingestion was interrupted by a control-plane restart; run CI again''"

definition recover_artifact_row :: "artifact_row \<Rightarrow> instant \<Rightarrow> artifact_row \<Rightarrow> artifact_row option" where
  "recover_artifact_row seen now = when_row
     (\<lambda>r. ba_status r = ba_status seen \<and> ba_owner r = ba_owner seen \<and> ba_generation r = ba_generation seen \<and>
        (expired (ba_leaseExpiresAt r) now \<or> legacy_unowned now r))
     (withdrawn AfFailed (Some interrupted_reason) now)"

definition on_artifact :: "string \<Rightarrow> (artifact_row \<Rightarrow> artifact_row option) \<Rightarrow> db \<Rightarrow> db \<times> artifact_row option" where
  "on_artifact i f d = (case update_row ba_id i f (artifacts d) of (rows, res) \<Rightarrow> (d\<lparr>artifacts := rows\<rparr>, res))"

definition provider_artifact :: "string \<Rightarrow> string \<Rightarrow> db \<Rightarrow> artifact_row option" where
  "provider_artifact s i d = find_first (\<lambda>a. ba_sourceProvider a = s \<and> ba_providerArtifactId a = i) (artifacts d)"

record artifact_name =
  an_projectId :: string
  an_sourceProvider :: string
  an_providerArtifactId :: string

definition claim_artifact :: "string \<Rightarrow> instant \<Rightarrow> artifact_name \<Rightarrow> db \<Rightarrow> db \<times> artifact_ctx option" where
  "claim_artifact me t n d = (case provider_artifact (an_sourceProvider n) (an_providerArtifactId n) d of
      None \<Rightarrow> (d, None)
    | Some a \<Rightarrow> if ba_projectId a \<noteq> an_projectId n then (d, None)
        else (case on_artifact (ba_id a) (claim_artifact_row me t) d of
          (d', r) \<Rightarrow> (d', map_option (\<lambda>x. \<lparr>ax_id = ba_id x, ax_generation = ba_generation x, ax_lost = False, ax_completed = False\<rparr>) r)))"

definition artifact_lease_lost :: http_error where
  "artifact_lease_lost = Conflict ''Artifact execution lease was lost''"

definition assert_artifact :: "string \<Rightarrow> instant \<Rightarrow> artifact_ctx \<Rightarrow> db \<Rightarrow> db \<times> artifact_ctx \<times> unit outcome" where
  "assert_artifact me t cx d =
     (if ax_completed cx then (d, cx, Inr ())
      else if ax_lost cx then (d, cx, Inl artifact_lease_lost)
      else (case on_artifact (ax_id cx) (renew_artifact_row me (ax_generation cx) t) d of
          (d', Some _) \<Rightarrow> (d', cx, Inr ())
        | (d', None) \<Rightarrow> (d', cx\<lparr>ax_lost := True\<rparr>, Inl artifact_lease_lost)))"

text \<open>A task under the lease; \<open>local\<close> are the identities this process executes.\<close>

definition run_artifact ::
  "string \<Rightarrow> instant \<Rightarrow> instant \<Rightarrow> artifact_name \<Rightarrow> string list \<Rightarrow> ('s \<Rightarrow> db) \<Rightarrow> (db \<Rightarrow> 's \<Rightarrow> 's)
     \<Rightarrow> (artifact_ctx \<Rightarrow> 's \<Rightarrow> 's \<times> artifact_ctx \<times> 'a outcome) \<Rightarrow> 's \<Rightarrow> 's \<times> 'a option outcome" where
  "run_artifact me t now n local db_of with_db task s =
     (if an_sourceProvider n @ '':'' @ an_providerArtifactId n \<in> set local then (s, Inr None)
      else (case claim_artifact me t n (db_of s) of
          (d, None) \<Rightarrow> (with_db d s, Inr None)
        | (d, Some cx) \<Rightarrow> (case task cx (with_db d s) of
            (s', cx', r) \<Rightarrow>
              (if ax_completed cx' then s'
               else with_db (fst (on_artifact (ax_id cx') (release_artifact_row me (ax_generation cx') now) (db_of s'))) s',
               map_sum id Some r))))"

section \<open>Ingestion\<close>

record scm_artifact =
  sa_provider :: string
  sa_providerArtifactId :: string
  sa_providerRunId :: string
  sa_digest :: string
  sa_commitSha :: string
  sa_sizeBytes :: nat

text \<open>Where an ingestion is: the shared state, the two leases of the process, and the key it uploaded to.\<close>

record store =
  st_db :: db
  st_objects :: "string \<Rightarrow> (string \<times> string) list option"
  st_lease :: artifact_ctx
  st_exec :: "exec_ctx option"
  st_key :: "string option"

text \<open>
  The circumstances of a run. \<open>rn_clock n\<close> is the database clock at its n-th check, \<open>rn_mid n\<close> what others commit
  before its n-th step; \<open>rn_delete\<close> says whether the bucket removes an object.
\<close>

record run =
  rn_me :: string
  rn_now :: instant
  rn_clock :: "nat \<Rightarrow> instant"
  rn_mid :: "nat \<Rightarrow> store \<Rightarrow> store"
  rn_download :: "archive outcome"
  rn_parse :: "string \<Rightarrow> json option"
  rn_put :: "unit outcome"
  rn_head :: bool
  rn_load :: "unit outcome"
  rn_delete :: bool
  rn_fails :: "completion_stmt \<Rightarrow> bool"
  rn_down :: bool

record ingestion =
  ig_projectId :: string
  ig_artifact :: scm_artifact
  ig_imageRef :: string
  ig_operationId :: "string option"

type_synonym 'a ingest = "store \<Rightarrow> store \<times> 'a outcome"

definition and_then :: "'a ingest \<Rightarrow> ('a \<Rightarrow> 'b ingest) \<Rightarrow> 'b ingest" where
  "and_then m f s = (case m s of (s', Inl e) \<Rightarrow> (s', Inl e) | (s', Inr x) \<Rightarrow> f x s')"

definition answer :: "'a outcome \<Rightarrow> 'a ingest" where
  "answer r s = (s, r)"

definition on_db :: "(db \<Rightarrow> db) \<Rightarrow> unit ingest" where
  "on_db f s = (s\<lparr>st_db := f (st_db s)\<rparr>, Inr ())"

definition others :: "run \<Rightarrow> nat \<Rightarrow> unit ingest" where
  "others rn n s = (rn_mid rn n s, Inr ())"

text \<open>What others commit cannot touch the variables of this process.\<close>

definition shared_only :: "run \<Rightarrow> bool" where
  "shared_only rn = (\<forall>n s. st_lease (rn_mid rn n s) = st_lease s \<and> st_exec (rn_mid rn n s) = st_exec s \<and> st_key (rn_mid rn n s) = st_key s)"

definition check_lease :: "run \<Rightarrow> nat \<Rightarrow> unit ingest" where
  "check_lease rn n s = (case assert_artifact (rn_me rn) (rn_clock rn n) (st_lease s) (st_db s) of
     (d, cx, r) \<Rightarrow> (s\<lparr>st_db := d, st_lease := cx\<rparr>, r))"

definition downloading :: string where
  "downloading = ''Downloading and verifying tested image''"

definition dev_of :: "string \<Rightarrow> string \<Rightarrow> environment_row \<Rightarrow> bool" where
  "dev_of p i e = (en_projectId e = p \<and> en_name e = Dev \<and> en_activeOperationId e = Some i)"

definition on_dev :: "string \<Rightarrow> string \<Rightarrow> (environment_row \<Rightarrow> environment_row) \<Rightarrow> db \<Rightarrow> db" where
  "on_dev p i f d = d\<lparr>environments := rewrite (dev_of p i) f (environments d)\<rparr>"

definition announce :: "run \<Rightarrow> ingestion \<Rightarrow> unit ingest" where
  "announce rn ig s = (case ig_operationId ig of
      None \<Rightarrow> (s, Inr ())
    | Some i \<Rightarrow> (case advance_phase (rn_me rn) (rn_clock rn 0) (st_exec s) i Running (Some downloading) (st_db s) of
        (d, ex, Inl e) \<Rightarrow> (s\<lparr>st_db := d, st_exec := ex\<rparr>, Inl e)
      | (d, ex, Inr _) \<Rightarrow>
          (let d1 = on_dev (ig_projectId ig) i (\<lambda>e. e\<lparr>en_statusReason := Some downloading\<rparr>) d;
             d2 = d1\<lparr>operations := rewrite (\<lambda>r. op_id r = i \<and> op_status r = OpRunning) (\<lambda>r. r\<lparr>op_message := Some downloading\<rparr>) (operations d1)\<rparr>
           in (s\<lparr>st_db := d2, st_exec := ex\<rparr>, Inr ()))))"

definition object_key_of :: "ingestion \<Rightarrow> db \<Rightarrow> string outcome" where
  "object_key_of ig d = (case provider_artifact (sa_provider (ig_artifact ig)) (sa_providerArtifactId (ig_artifact ig)) d of
      None \<Rightarrow> Inl (ServerError ''Build artifact record vanished during ingestion'')
    | Some a \<Rightarrow> (case project_by_id (ba_projectId a) d of
        None \<Rightarrow> Inl (ServerError ''project relation'')
      | Some pj \<Rightarrow> artifact_object_key \<lparr>kp_workspaceId = pj_workspaceId pj, kp_projectId = ig_projectId ig, kp_artifactId = ba_id a,
          kp_digest = sa_digest (ig_artifact ig)\<rparr>))"

definition agent_backed :: "environment_row \<Rightarrow> db \<Rightarrow> bool" where
  "agent_backed e d = (en_provider e = Docker \<and> map_option tg_scope (target_by_id (en_targetId e) d) = Some UserScope)"

definition dev_deploys_locally :: "string \<Rightarrow> db \<Rightarrow> bool" where
  "dev_deploys_locally p d = (case environment_of p Dev d of None \<Rightarrow> False | Some e \<Rightarrow> \<not> agent_backed e d)"

definition upload :: "run \<Rightarrow> string \<Rightarrow> (string \<times> string) list \<Rightarrow> unit ingest" where
  "upload rn key es s = (let s' = s\<lparr>st_key := Some key\<rparr> in case rn_put rn of
      Inl e \<Rightarrow> (s', Inl e) | Inr _ \<Rightarrow> (s'\<lparr>st_objects := (st_objects s)(key := Some es)\<rparr>, Inr ()))"

definition confirm_upload :: "run \<Rightarrow> string \<Rightarrow> unit ingest" where
  "confirm_upload rn key s = (s, if rn_head rn \<and> st_objects s key \<noteq> None then Inr ()
     else Inl (ServerError ''Artifact upload could not be confirmed in object storage''))"

definition publish :: "run \<Rightarrow> ingestion \<Rightarrow> string \<Rightarrow> unit ingest" where
  "publish rn ig key s = (let cx = st_lease s in
     case on_artifact (ax_id cx) (publish_artifact_row (rn_me rn) (ax_generation cx) (ig_projectId ig) key (ig_imageRef ig) (rn_now rn)) (st_db s) of
       (d, None) \<Rightarrow> (s\<lparr>st_db := d\<rparr>, Inl (Conflict ''Artifact publication lost its execution fence''))
     | (d, Some _) \<Rightarrow> (s\<lparr>st_db := d, st_lease := cx\<lparr>ax_completed := True\<rparr>\<rparr>, Inr ()))"

text \<open>The archive passed: it is stored, confirmed and published.\<close>

definition store_verified :: "run \<Rightarrow> ingestion \<Rightarrow> (string \<times> string) list \<Rightarrow> unit ingest" where
  "store_verified rn ig es =
     and_then (others rn 2) (\<lambda>_. and_then (check_lease rn 2) (\<lambda>_.
     and_then (\<lambda>s. answer (object_key_of ig (st_db s)) s) (\<lambda>key.
     and_then (upload rn key es) (\<lambda>_. and_then (others rn 3) (\<lambda>_. and_then (confirm_upload rn key) (\<lambda>_.
     and_then (check_lease rn 3) (\<lambda>_.
     and_then (\<lambda>s. answer (if dev_deploys_locally (ig_projectId ig) (st_db s) then rn_load rn else Inr ()) s) (\<lambda>_.
     and_then (others rn 4) (\<lambda>_. and_then (check_lease rn 4) (\<lambda>_. and_then (others rn 5) (\<lambda>_. publish rn ig key)))))))))))"

definition store_archive :: "run \<Rightarrow> ingestion \<Rightarrow> unit ingest" where
  "store_archive rn ig =
     and_then (answer (rn_download rn)) (\<lambda>file. and_then (others rn 1) (\<lambda>_. and_then (check_lease rn 1) (\<lambda>_.
     and_then (answer (assert_image_archive_identity (rn_parse rn) file (ig_imageRef ig))) (\<lambda>_. store_verified rn ig (the file)))))"

text \<open>
  \<open>deploy\<close> is the deployment of the verified artifact. An ingestion without an operation shows its result as the last
  commit of the project.
\<close>

definition short_sha :: "ingestion \<Rightarrow> string" where
  "short_sha ig = take 7 (sa_commitSha (ig_artifact ig))"

definition show_verified :: "ingestion \<Rightarrow> unit ingest" where
  "show_verified ig s = (case project_by_id (ig_projectId ig) (st_db s) of
      None \<Rightarrow> (s, Inl (ServerError ''Record to update not found''))
    | Some _ \<Rightarrow> (s\<lparr>st_db := set_last_commit (ig_projectId ig) (''ci: verified '' @ short_sha ig) (st_db s)\<rparr>, Inr ()))"

definition finish_ingestion :: "(string \<Rightarrow> string \<Rightarrow> string \<Rightarrow> unit ingest) \<Rightarrow> run \<Rightarrow> ingestion \<Rightarrow> unit ingest" where
  "finish_ingestion deploy rn ig = (case ig_operationId ig of
      None \<Rightarrow> show_verified ig
    | Some i \<Rightarrow> (\<lambda>s. case op_cancelled (rn_me rn) (rn_clock rn 5) (st_exec s) i (st_db s) of
        (d, ex, Inl e) \<Rightarrow> (s\<lparr>st_db := d, st_exec := ex\<rparr>, Inl e)
      | (d, ex, Inr False) \<Rightarrow> deploy (ig_projectId ig) (sa_commitSha (ig_artifact ig)) i (s\<lparr>st_db := d, st_exec := ex\<rparr>)
      | (d, ex, Inr True) \<Rightarrow>
          (let d1 = on_dev (ig_projectId ig) i (\<lambda>e. e\<lparr>en_status := EsEmpty, en_version := None, en_buildArtifactId := None,
               en_statusReason := None, en_activeOperationId := None\<rparr>) d
           in case complete (rn_me rn) (rn_clock rn 6) ex i Cancelled (Some ''Cancelled during artifact ingestion'') (rn_fails rn) (rn_down rn) d1 of
                (d2, ex', r) \<Rightarrow> (s\<lparr>st_db := d2, st_exec := ex'\<rparr>, r))))"

definition remove_object :: "run \<Rightarrow> unit ingest" where
  "remove_object rn s = (s\<lparr>st_objects := (case st_key s of
      None \<Rightarrow> st_objects s | Some k \<Rightarrow> if rn_delete rn then (st_objects s)(k := None) else st_objects s)\<rparr>, Inr ())"

definition record_failure :: "run \<Rightarrow> ingestion \<Rightarrow> string \<Rightarrow> unit ingest" where
  "record_failure rn ig m s = (let cx = st_lease s in
     case on_artifact (ax_id cx) (fail_artifact_row (rn_me rn) (ax_generation cx) (ig_projectId ig) m (rn_now rn)) (st_db s) of
       (d, None) \<Rightarrow> (s\<lparr>st_db := d\<rparr>, Inr ())
     | (d, Some _) \<Rightarrow>
         (let s' = s\<lparr>st_db := d, st_lease := cx\<lparr>ax_completed := True\<rparr>\<rparr> in
          case ig_operationId ig of
            None \<Rightarrow> (s'\<lparr>st_db := set_last_commit (ig_projectId ig) (''ci: artifact failed '' @ short_sha ig) d\<rparr>, Inr ())
          | Some i \<Rightarrow>
              (let d1 = on_dev (ig_projectId ig) i (\<lambda>e. e\<lparr>en_status := EsFailed, en_statusReason := Some m, en_activeOperationId := None\<rparr>) d
               in case complete (rn_me rn) (rn_clock rn 8) (st_exec s) i Failed (Some m) (rn_fails rn) (rn_down rn) d1 of
                    (d2, ex, r) \<Rightarrow> (s'\<lparr>st_db := d2, st_exec := ex\<rparr>, r))))"

definition ingest_failed :: "run \<Rightarrow> ingestion \<Rightarrow> (http_error \<Rightarrow> string) \<Rightarrow> http_error \<Rightarrow> unit ingest" where
  "ingest_failed rn ig text e s =
     (if ax_completed (st_lease s) then (s, Inl e)
      else (case and_then (others rn 6) (\<lambda>_. check_lease rn 7) s of
          (s1, Inl _) \<Rightarrow> (s1, Inr ())
        | (s1, Inr _) \<Rightarrow> and_then (others rn 7) (\<lambda>_. and_then (remove_object rn) (\<lambda>_. and_then (others rn 8) (\<lambda>_.
            record_failure rn ig (text e)))) s1))"

definition ingest_owned :: "(string \<Rightarrow> string \<Rightarrow> string \<Rightarrow> unit ingest) \<Rightarrow> run \<Rightarrow> ingestion \<Rightarrow> (http_error \<Rightarrow> string) \<Rightarrow> unit ingest" where
  "ingest_owned deploy rn ig text = and_then (announce rn ig) (\<lambda>_ s.
     (case and_then (store_archive rn ig) (\<lambda>_. finish_ingestion deploy rn ig) s of
        (s', Inr _) \<Rightarrow> (s', Inr ())
      | (s', Inl e) \<Rightarrow> ingest_failed rn ig text e s'))"

definition name_of :: "ingestion \<Rightarrow> artifact_name" where
  "name_of ig = \<lparr>an_projectId = ig_projectId ig, an_sourceProvider = sa_provider (ig_artifact ig),
     an_providerArtifactId = sa_providerArtifactId (ig_artifact ig)\<rparr>"

definition run_with_ingestion_lease ::
  "(string \<Rightarrow> string \<Rightarrow> string \<Rightarrow> unit ingest) \<Rightarrow> run \<Rightarrow> ingestion \<Rightarrow> (http_error \<Rightarrow> string) \<Rightarrow> string list \<Rightarrow> store \<Rightarrow> store \<times> unit option outcome" where
  "run_with_ingestion_lease deploy rn ig text local = run_artifact (rn_me rn) (rn_clock rn 0) (rn_now rn) (name_of ig) local
     st_db (\<lambda>d s. s\<lparr>st_db := d\<rparr>)
     (\<lambda>cx s. case ingest_owned deploy rn ig text (s\<lparr>st_lease := cx, st_key := None\<rparr>) of (s', r) \<Rightarrow> (s', st_lease s', r))"

text \<open>
  The whole ingestion: under the lease of its operation when it has one, whose outcome is only logged. \<open>ops\<close> are the
  operations and \<open>local\<close> the artifacts this process executes already.
\<close>

definition ingest_task ::
  "(string \<Rightarrow> string \<Rightarrow> string \<Rightarrow> unit ingest) \<Rightarrow> run \<Rightarrow> ingestion \<Rightarrow> (http_error \<Rightarrow> string) \<Rightarrow> string list \<Rightarrow> exec_ctx option \<Rightarrow> db \<Rightarrow> store \<Rightarrow> store" where
  "ingest_task deploy rn ig text local ex d s = fst (run_with_ingestion_lease deploy rn ig text local (s\<lparr>st_db := d, st_exec := ex\<rparr>))"

definition ingest ::
  "(string \<Rightarrow> string \<Rightarrow> string \<Rightarrow> unit ingest) \<Rightarrow> run \<Rightarrow> ingestion \<Rightarrow> (http_error \<Rightarrow> string) \<Rightarrow> string list \<Rightarrow> string list \<Rightarrow> store \<Rightarrow> store" where
  "ingest deploy rn ig text ops local s = (case ig_operationId ig of
      None \<Rightarrow> ingest_task deploy rn ig text local (st_exec s) (st_db s) s
    | Some i \<Rightarrow>
        if holds (st_exec s) i
        then (case assert_execution (rn_me rn) (rn_clock rn 0) (st_exec s) i (st_db s) of
            (d, _, Inl _) \<Rightarrow> s\<lparr>st_db := d\<rparr>
          | (d, ex, Inr _) \<Rightarrow> ingest_task deploy rn ig text local ex d s)
        else if i \<in> set ops then s
        else (case claim_execution (rn_me rn) (rn_clock rn 0) i (st_db s) of
            (d, None) \<Rightarrow> s\<lparr>st_db := d\<rparr>
          | (d, Some g) \<Rightarrow>
              (let cx = \<lparr>cx_operationId = i, cx_generation = g, cx_lost = None, cx_completed = False\<rparr>;
                   s' = ingest_task deploy rn ig text local (Some cx) d s;
                   cx' = (case st_exec s' of Some c \<Rightarrow> c | None \<Rightarrow> cx)
               in if cx_completed cx' then s' else s'\<lparr>st_db := release_execution (rn_me rn) cx' (st_db s')\<rparr>)))"

section \<open>Acceptance\<close>

text \<open>\<open>i\<close> is the id of a new row.\<close>

definition accepted_row :: "string \<Rightarrow> string \<Rightarrow> scm_artifact \<Rightarrow> instant \<Rightarrow> artifact_row" where
  "accepted_row i p a now = \<lparr>ba_id = i, ba_projectId = p, ba_sourceProvider = sa_provider a, ba_providerArtifactId = sa_providerArtifactId a,
     ba_commitSha = sa_commitSha a, ba_digest = sa_digest a, ba_providerRunId = sa_providerRunId a, ba_storageKind = None,
     ba_storageRef = None, ba_sizeBytes = sa_sizeBytes a, ba_status = AfAccepted, ba_imageRef = None, ba_error = None, ba_owner = None,
     ba_generation = 0, ba_leaseExpiresAt = None, ba_updatedAt = now, ba_createdAt = now\<rparr>"

definition accept_tx :: "string \<Rightarrow> string \<Rightarrow> string \<Rightarrow> scm_artifact \<Rightarrow> instant \<Rightarrow> db \<Rightarrow> db \<times> string outcome" where
  "accept_tx i w p a now d = (case provider_artifact (sa_provider a) (sa_providerArtifactId a) d of
      Some x \<Rightarrow>
        if ba_projectId x \<noteq> p \<or> lower (ba_commitSha x) \<noteq> lower (sa_commitSha a)
        then (d, Inl (ServerError ''Build artifact is already bound to another deployment''))
        else (case (if ba_status x \<in> {AfAccepted, AfIngesting, AfAvailable} then Inr ()
              else assert_available w CapArtifactBytes (ba_sizeBytes x) None d) of
            Inl e \<Rightarrow> (d, Inl e)
          | Inr _ \<Rightarrow> (fst (on_artifact (ba_id x) (\<lambda>r. Some (withdrawn AfAccepted None now r)) d), Inr (ba_id x)))
    | None \<Rightarrow> (case assert_available w CapArtifactBytes (sa_sizeBytes a) None d of
          Inl e \<Rightarrow> (d, Inl e)
        | Inr _ \<Rightarrow> (d\<lparr>artifacts := create (accepted_row i p a now) (artifacts d)\<rparr>, Inr i)))"

definition accept ::
  "(nat \<Rightarrow> (db \<Rightarrow> db) option) \<Rightarrow> string \<Rightarrow> string \<Rightarrow> scm_artifact \<Rightarrow> instant \<Rightarrow> db \<Rightarrow> db \<times> string outcome" where
  "accept c i p a now d = (case project_by_id p d of
      None \<Rightarrow> (d, Inl (ServerError ''Project for build artifact was not found''))
    | Some pj \<Rightarrow> serializable_capacity_transaction c (accept_tx i (pj_workspaceId pj) p a now) d)"

text \<open>The handoff of a CI operation; the ingestion itself starts only when it returns.\<close>

definition queue_artifact ::
  "(nat \<Rightarrow> (db \<Rightarrow> db) option) \<Rightarrow> string \<Rightarrow> run \<Rightarrow> string \<Rightarrow> scm_artifact \<Rightarrow> string \<Rightarrow> (http_error \<Rightarrow> string) \<Rightarrow> exec_ctx option \<Rightarrow> db
     \<Rightarrow> db \<times> unit outcome" where
  "queue_artifact c i rn p a o' text ex d =
     (let r = (case accept c i p a (rn_now rn) d of
          (d1, Inl e) \<Rightarrow> (d1, Inl e)
        | (d1, Inr b) \<Rightarrow> (case on_operation o' (\<lambda>r. Some (r\<lparr>op_buildArtifactId := Some b\<rparr>)) d1 of
            (d2, None) \<Rightarrow> (d2, Inl (ServerError ''Record to update not found''))
          | (d2, Some _) \<Rightarrow> (case advance_phase (rn_me rn) (rn_clock rn 0) ex o' Assigned (Some ''Build artifact accepted'') d2 of
              (d3, _, r) \<Rightarrow> (d3, r))))
      in case r of
        (d1, Inr _) \<Rightarrow> (d1, Inr ())
      | (d1, Inl e) \<Rightarrow>
          (let m = ''Could not record build artifact: '' @ text e;
             d2 = on_dev p o' (\<lambda>e. e\<lparr>en_status := EsFailed, en_statusReason := Some m, en_activeOperationId := None\<rparr>) d1
           in case complete (rn_me rn) (rn_clock rn 1) ex o' Failed (Some m) (rn_fails rn) (rn_down rn) d2 of
                (d3, _, Inl e') \<Rightarrow> (d3, Inl e') | (d3, _, Inr _) \<Rightarrow> (d3, Inl e)))"

text \<open>An artifact that is only verified is accepted and then ingested without an operation.\<close>

definition queue_verification ::
  "(nat \<Rightarrow> (db \<Rightarrow> db) option) \<Rightarrow> string \<Rightarrow> (string \<Rightarrow> string \<Rightarrow> string \<Rightarrow> unit ingest) \<Rightarrow> run \<Rightarrow> ingestion \<Rightarrow> (http_error \<Rightarrow> string)
     \<Rightarrow> string list \<Rightarrow> string list \<Rightarrow> store \<Rightarrow> store \<times> unit outcome" where
  "queue_verification c i deploy rn ig text ops local s =
     (case accept c i (ig_projectId ig) (ig_artifact ig) (rn_now rn) (st_db s) of
        (d, Inl e) \<Rightarrow> (s\<lparr>st_db := d\<rparr>, Inl e)
      | (d, Inr _) \<Rightarrow> (ingest deploy rn (ig\<lparr>ig_operationId := None\<rparr>) text ops local (s\<lparr>st_db := d\<rparr>), Inr ()))"

section \<open>Recovery and retention\<close>

definition recover_artifact :: "instant \<Rightarrow> artifact_row \<Rightarrow> db \<Rightarrow> db" where
  "recover_artifact now seen d = fst (on_artifact (ba_id seen) (recover_artifact_row seen now) d)"

definition has_running_operation :: "string \<Rightarrow> db \<Rightarrow> bool" where
  "has_running_operation i d = list_ex (\<lambda>r. op_buildArtifactId r = Some i \<and> op_status r = OpRunning \<and> op_finishedAt r = None) (operations d)"

definition recover_artifacts :: "instant \<Rightarrow> db \<Rightarrow> db" where
  "recover_artifacts now d = fold (recover_artifact now)
     (filter (\<lambda>a. \<not> has_running_operation (ba_id a) d) (filter (interrupted now) (artifacts d))) d"

definition stored_object :: "artifact_row \<Rightarrow> bool" where
  "stored_object a = (ba_storageKind a = Some ''object-store'' \<and> ba_storageRef a \<noteq> None)"

definition is_artifact_stored :: "string \<Rightarrow> string \<Rightarrow> db \<Rightarrow> bool" where
  "is_artifact_stored p i d = list_ex (\<lambda>a. ba_id a = i \<and> ba_projectId a = p \<and> ba_status a = AfAvailable \<and> stored_object a) (artifacts d)"

definition published_with :: "string \<Rightarrow> operation_row \<Rightarrow> bool" where
  "published_with i r = (op_buildArtifactId r = Some i \<and> op_status r = OpResult Succeeded \<and> op_kind r \<in> set deployment_publication_kinds)"

definition rollback_point :: "environment_row \<Rightarrow> operation_row \<Rightarrow> bool" where
  "rollback_point e r = (op_environmentId r = en_id e \<and> op_status r = OpResult Succeeded \<and> op_kind r \<in> set deployment_publication_kinds \<and>
     op_buildArtifactId r \<noteq> None \<and> (truthy (en_buildArtifactId e) \<longrightarrow> op_buildArtifactId r \<noteq> en_buildArtifactId e))"

definition newest_rollback_point :: "environment_row \<Rightarrow> db \<Rightarrow> operation_row option" where
  "newest_rollback_point e d = find_first (rollback_point e) (newest_first op_createdAt (operations d))"

definition is_referenced :: "string \<Rightarrow> db \<Rightarrow> bool" where
  "is_referenced i d =
     (list_ex (\<lambda>e. en_buildArtifactId e = Some i) (environments d) \<or>
      list_ex (\<lambda>r. rq_buildArtifactId r = Some i \<and> rq_status r \<in> {RqPending, RqApproving}) (requests d) \<or>
      list_ex (\<lambda>r. op_buildArtifactId r = Some i \<and> op_finishedAt r = None) (operations d) \<or>
      list_ex (\<lambda>r. published_with i r \<and> (case environment_by_id (op_environmentId r) d of
          None \<Rightarrow> False
        | Some e \<Rightarrow> (case newest_rollback_point e d of None \<Rightarrow> False | Some q \<Rightarrow> op_buildArtifactId q = Some i))) (operations d))"

definition expired_by_retention :: "instant \<Rightarrow> artifact_row \<Rightarrow> artifact_row" where
  "expired_by_retention now a = a\<lparr>ba_status := AfFailed, ba_error := Some ''Expired by retention policy'', ba_storageKind := None,
     ba_storageRef := None, ba_updatedAt := now\<rparr>"

text \<open>
  One artifact of the sweep: \<open>mid\<close> is what others commit between the check and the removal, \<open>deletes\<close> whether the bucket
  removes the object.
\<close>

definition retain_one ::
  "instant \<Rightarrow> (db \<Rightarrow> db) \<Rightarrow> (string \<Rightarrow> bool) \<Rightarrow> artifact_row \<Rightarrow> db \<times> (string \<Rightarrow> 'o option) \<times> nat \<times> nat
     \<Rightarrow> db \<times> (string \<Rightarrow> 'o option) \<times> nat \<times> nat" where
  "retain_one now mid deletes a x = (case (x, ba_storageRef a) of
      ((d, os, removed, kept), Some k) \<Rightarrow>
        if k = [] then x
        else if is_referenced (ba_id a) d then (d, os, removed, kept + 1)
        else if \<not> deletes k then (mid d, os, removed, kept + 1)
        else ((mid d)\<lparr>artifacts := rewrite (\<lambda>r. ba_id r = ba_id a) (expired_by_retention now) (artifacts (mid d))\<rparr>,
              os(k := None), removed + 1, kept)
    | _ \<Rightarrow> x)"

definition stale_artifact :: "int \<Rightarrow> instant \<Rightarrow> artifact_row \<Rightarrow> bool" where
  "stale_artifact days now a = (stored_object a \<and> ba_createdAt a < now - days * 86400000)"

definition run_retention ::
  "int \<Rightarrow> instant \<Rightarrow> (db \<Rightarrow> db) \<Rightarrow> (string \<Rightarrow> bool) \<Rightarrow> db \<Rightarrow> (string \<Rightarrow> 'o option) \<Rightarrow> db \<times> (string \<Rightarrow> 'o option) \<times> nat \<times> nat" where
  "run_retention days now mid deletes d os =
     fold (retain_one now mid deletes) (filter (stale_artifact days now) (artifacts d)) (d, os, 0, 0)"

definition purge_project_objects ::
  "(string \<Rightarrow> string option) \<Rightarrow> string \<Rightarrow> db \<Rightarrow> (string \<Rightarrow> 'o option) \<Rightarrow> (string \<Rightarrow> 'o option) \<times> string list" where
  "purge_project_objects failure p d os = fold (\<lambda>a (os, fs). case ba_storageRef a of
       None \<Rightarrow> (os, fs)
     | Some k \<Rightarrow> if k = [] then (os, fs)
         else (case failure k of None \<Rightarrow> (os(k := None), fs) | Some m \<Rightarrow> (os, fs @ [k @ '': '' @ m])))
     (filter (\<lambda>a. ba_projectId a = p \<and> stored_object a) (artifacts d)) (os, [])"

definition presign_download :: "(string \<Rightarrow> int \<Rightarrow> string) \<Rightarrow> int \<Rightarrow> string \<Rightarrow> db \<Rightarrow> (string \<times> int) outcome" where
  "presign_download sign ttl i d = (case find_first (\<lambda>a. ba_id a = i \<and> ba_status a = AfAvailable \<and> stored_object a) (artifacts d) of
      Some a \<Rightarrow> if truthy (ba_storageRef a) then Inr (sign (the (ba_storageRef a)) ttl, ttl)
        else Inl (NotFound ''No downloadable build artifact exists for this id'')
    | None \<Rightarrow> Inl (NotFound ''No downloadable build artifact exists for this id''))"

text \<open>The image of a stored artifact in the local daemon, reloaded from the bucket when it is missing.\<close>

definition strip_sha :: "string \<Rightarrow> string" where
  "strip_sha s = (if take 7 s = ''sha256:'' then drop 7 s else s)"

definition rehydrate_image :: "('o \<Rightarrow> string) \<Rightarrow> ('o \<Rightarrow> string \<Rightarrow> bool) \<Rightarrow> (string \<Rightarrow> 'o option) \<Rightarrow> string \<Rightarrow> string \<Rightarrow> string \<Rightarrow> bool" where
  "rehydrate_image sha load os key ref digest = (case os key of
      None \<Rightarrow> False | Some x \<Rightarrow> sha x = strip_sha (lower digest) \<and> load x ref)"

definition ensure_image_available ::
  "('o \<Rightarrow> string) \<Rightarrow> ('o \<Rightarrow> string \<Rightarrow> bool) \<Rightarrow> (string \<Rightarrow> bool) \<Rightarrow> (artifact_row \<Rightarrow> string) \<Rightarrow> (string \<Rightarrow> 'o option) \<Rightarrow> string \<Rightarrow> string \<Rightarrow> db \<Rightarrow> bool" where
  "ensure_image_available sha load has ref_of os p i d =
     (case find_first (\<lambda>a. ba_id a = i \<and> ba_projectId a = p \<and> ba_status a = AfAvailable \<and> ba_storageKind a = Some ''object-store'') (artifacts d) of
        None \<Rightarrow> False
      | Some a \<Rightarrow> if \<not> truthy (ba_storageRef a) then False
          else (let ref = (if truthy (ba_imageRef a) then the (ba_imageRef a) else ref_of a) in
            has ref \<or> rehydrate_image sha load os (the (ba_storageRef a)) ref (ba_digest a)))"

end
