(* ===== verification/ArtifactProofs.thy ===== *)
theory ArtifactProofs
  imports Artifacts
begin

text \<open>
  What holds of build artifacts: keys of the bucket stay apart, an ingestion that lost its lease changes nothing, one
  that nothing disturbs publishes exactly the verified archive or cleans up, and retention keeps what is referenced.
\<close>

section \<open>Keys\<close>

lemma key_char_simps [simp]: "key_char CHR ''-''" "key_char CHR ''.''" "\<not> key_char CHR ''/''"
  by (simp_all add: key_char_def is_lower_def is_digit_def lower_char_def)

lemma dash_runs_chars: "c \<in> set (dash_runs b s) \<Longrightarrow> key_char c"
  by (induction b s rule: dash_runs.induct) (auto split: if_splits)

lemma dot_runs_chars: "set (dot_runs s) \<subseteq> set s"
  by (induction s rule: dot_runs.induct) auto

lemma set_dropWhile: "set (dropWhile p s) \<subseteq> set s"
  by (auto dest: set_dropWhileD)

lemma trim_edges_chars: "set (trim_edges cs s) \<subseteq> set s"
  by (auto simp: trim_edges_def dest!: set_dropWhileD)

lemma slug_chars:
  assumes "slug v = Inr t"
  shows "t \<noteq> [] \<and> (\<forall>c \<in> set t. key_char c)"
proof -
  from assms have t: "t = trim_edges ''.-'' (dot_runs (dash_runs False (trim v)))" "t \<noteq> []"
    by (auto simp: slug_def Let_def split: if_splits)
  have "set t \<subseteq> set (dash_runs False (trim v))"
    unfolding t(1) using trim_edges_chars dot_runs_chars by blast
  with t(2) dash_runs_chars show ?thesis by blast
qed

lemma dropWhile_head: "dropWhile p s \<noteq> [] \<Longrightarrow> \<not> p (hd (dropWhile p s))"
  by (rule hd_dropWhile)

lemma dropWhile_last: "dropWhile p s \<noteq> [] \<Longrightarrow> last (dropWhile p s) = last s"
  by (induction s) auto

lemma trim_edges_ends:
  assumes "trim_edges cs s \<noteq> []"
  shows "hd (trim_edges cs s) \<notin> set cs"
proof -
  let ?d = "dropWhile (\<lambda>c. c \<in> set cs) s"
  let ?r = "dropWhile (\<lambda>c. c \<in> set cs) (rev ?d)"
  from assms have r: "?r \<noteq> []" by (simp add: trim_edges_def)
  have d: "?d \<noteq> []"
  proof
    assume "?d = []"
    then have "?r = []" by (simp only: rev.simps dropWhile.simps)
    with r show False by simp
  qed
  have "last ?r = last (rev ?d)" using dropWhile_last [OF r] .
  also have "last (rev ?d) = hd ?d" using d by (simp add: last_rev)
  finally have "last ?r = hd ?d" .
  moreover have "hd ?d \<notin> set cs" using dropWhile_head [OF d] by simp
  moreover have "hd (trim_edges cs s) = last ?r" unfolding trim_edges_def using r by (simp add: hd_rev)
  ultimately show ?thesis by simp
qed

text \<open>A component never is a step up in a path.\<close>

lemma slug_no_step:
  assumes "slug v = Inr t"
  shows "t \<noteq> ''.'' \<and> t \<noteq> ''..''"
proof -
  from assms have "t = trim_edges ''.-'' (dot_runs (dash_runs False (trim v)))" "t \<noteq> []"
    by (auto simp: slug_def Let_def split: if_splits)
  with trim_edges_ends [of "''.-''" "dot_runs (dash_runs False (trim v))"] have "hd t \<noteq> CHR ''.''" by simp
  then show ?thesis by auto
qed

lemma artifact_key_parts:
  assumes "artifact_object_key k = Inr key"
  obtains w p a d where "slug (kp_workspaceId k) = Inr w" "slug (kp_projectId k) = Inr p" "slug (kp_artifactId k) = Inr a"
    "slug (kp_digest k) = Inr d" "key = ''artifacts'' @ ''/'' @ w @ ''/'' @ p @ ''/'' @ a @ ''/'' @ d @ ''.tar''"
  using assms by (auto simp: artifact_object_key_def split: option.splits sum.splits)

lemma no_slash: "slug v = Inr t \<Longrightarrow> CHR ''/'' \<notin> set t"
  using slug_chars by fastforce

lemma split_on_cons: "CHR ''/'' \<notin> set l \<Longrightarrow> split_on (CHR ''/'') (l @ CHR ''/'' # s) = l # split_on (CHR ''/'') s"
  by (induction l) (auto simp: split_on_ne)

lemma artifact_key_split:
  assumes "artifact_object_key k = Inr key"
  shows "\<exists>w p a d. slug (kp_workspaceId k) = Inr w \<and> slug (kp_projectId k) = Inr p \<and> slug (kp_artifactId k) = Inr a \<and>
    slug (kp_digest k) = Inr d \<and> split_on (CHR ''/'') key = [''artifacts'', w, p, a, d @ ''.tar'']"
proof -
  from assms obtain w p a d where parts: "slug (kp_workspaceId k) = Inr w" "slug (kp_projectId k) = Inr p" "slug (kp_artifactId k) = Inr a"
    "slug (kp_digest k) = Inr d" and key: "key = ''artifacts'' @ ''/'' @ w @ ''/'' @ p @ ''/'' @ a @ ''/'' @ d @ ''.tar''"
    by (rule artifact_key_parts)
  have "CHR ''/'' \<notin> set (d @ ''.tar'')" using no_slash [OF parts(4)] by simp
  moreover have "CHR ''/'' \<notin> set ''artifacts''" by simp
  ultimately have "split_on (CHR ''/'') key = [''artifacts'', w, p, a, d @ ''.tar'']"
    unfolding key using no_slash [OF parts(1)] no_slash [OF parts(2)] no_slash [OF parts(3)]
    by (simp add: split_on_cons split_on_none)
  with parts show ?thesis by blast
qed

text \<open>Ids made of letters, digits, dashes inside and underscores, as generated ids are, keep their slug apart.\<close>

definition plain_id :: "string \<Rightarrow> bool" where
  "plain_id s = (slug s = Inr s)"

text \<open>
  A storage key is a path of exactly five components, none of which leads upwards, and keys of artifacts of different
  workspaces, projects, artifacts or digests with generated ids never meet.
\<close>

theorem storage_keys_stay_apart:
  assumes "artifact_object_key k = Inr key"
  shows "(\<exists>w p a d. split_on (CHR ''/'') key = [''artifacts'', w, p, a, d @ ''.tar''] \<and> (\<forall>c \<in> {w, p, a, d}. c \<notin> {[], ''.'', ''..''})) \<and>
    (\<forall>k'. artifact_object_key k' = Inr key \<longrightarrow>
      plain_id (kp_workspaceId k) \<and> plain_id (kp_projectId k) \<and> plain_id (kp_artifactId k) \<and> plain_id (kp_digest k) \<longrightarrow>
      plain_id (kp_workspaceId k') \<and> plain_id (kp_projectId k') \<and> plain_id (kp_artifactId k') \<and> plain_id (kp_digest k') \<longrightarrow> k' = k)"
proof (intro conjI allI impI)
  from artifact_key_split [OF assms] obtain w p a d where parts: "slug (kp_workspaceId k) = Inr w" "slug (kp_projectId k) = Inr p"
      "slug (kp_artifactId k) = Inr a" "slug (kp_digest k) = Inr d" and split: "split_on (CHR ''/'') key = [''artifacts'', w, p, a, d @ ''.tar'']"
    by blast
  have ok: "c \<notin> {[], ''.'', ''..''}" if "slug v = Inr c" for v c
    using slug_no_step [OF that] slug_chars [OF that] by blast
  have "\<forall>c \<in> {w, p, a, d}. c \<notin> {[], ''.'', ''..''}"
    using ok [OF parts(1)] ok [OF parts(2)] ok [OF parts(3)] ok [OF parts(4)] by blast
  with split show "\<exists>w p a d. split_on (CHR ''/'') key = [''artifacts'', w, p, a, d @ ''.tar''] \<and> (\<forall>c \<in> {w, p, a, d}. c \<notin> {[], ''.'', ''..''})"
    by blast
  fix k' assume other: "artifact_object_key k' = Inr key"
    and plain: "plain_id (kp_workspaceId k) \<and> plain_id (kp_projectId k) \<and> plain_id (kp_artifactId k) \<and> plain_id (kp_digest k)"
      "plain_id (kp_workspaceId k') \<and> plain_id (kp_projectId k') \<and> plain_id (kp_artifactId k') \<and> plain_id (kp_digest k')"
  from artifact_key_split [OF other] plain(2) have
    "split_on (CHR ''/'') key = [''artifacts'', kp_workspaceId k', kp_projectId k', kp_artifactId k', kp_digest k' @ ''.tar'']"
    by (auto simp: plain_id_def)
  with split parts plain(1) show "k' = k" by (auto simp: plain_id_def)
qed

section \<open>The lease of an ingestion\<close>

definition keeps_artifact_fence :: "artifact_row \<Rightarrow> artifact_row \<Rightarrow> bool" where
  "keeps_artifact_fence r r' = (ba_generation r' = ba_generation r \<and> (ba_owner r' = ba_owner r \<or> ba_owner r' = None))"

interpretation artifact_lease: fenced_lease ba_owner ba_generation claim_artifact_row keeps_artifact_fence renew_artifact_row
  by unfold_locales (auto simp: claim_artifact_row_def renew_artifact_row_def keeps_artifact_fence_def)

text \<open>The statements any process executes on the row of an artifact.\<close>

inductive artifact_stmt :: "artifact_row \<Rightarrow> artifact_row \<Rightarrow> bool" where
  claims: "claim_artifact_row me t r = Some r' \<Longrightarrow> artifact_stmt r r'"
| renews: "renew_artifact_row me g t r = Some r' \<Longrightarrow> artifact_stmt r r'"
| releases: "release_artifact_row me g t r = Some r' \<Longrightarrow> artifact_stmt r r'"
| publishes: "publish_artifact_row me g p key ref t r = Some r' \<Longrightarrow> artifact_stmt r r'"
| fails: "fail_artifact_row me g p m t r = Some r' \<Longrightarrow> artifact_stmt r r'"
| recovers: "recover_artifact_row seen t r = Some r' \<Longrightarrow> artifact_stmt r r'"
| accepts: "artifact_stmt r (withdrawn AfAccepted None t r)"
| expires: "artifact_stmt r (expired_by_retention t r)"

inductive artifact_run :: "artifact_row \<Rightarrow> artifact_row \<Rightarrow> bool" where
  artifact_start: "artifact_run r r"
| artifact_more: "artifact_run r r' \<Longrightarrow> artifact_stmt r' r'' \<Longrightarrow> artifact_run r r''"

lemma artifact_stmt_fence:
  "artifact_stmt r r' \<Longrightarrow> (\<exists>me t. claim_artifact_row me t r = Some r') \<or> keeps_artifact_fence r r'"
proof (induction rule: artifact_stmt.induct)
  case claims then show ?case by blast
qed (auto simp: renew_artifact_row_def release_artifact_row_def publish_artifact_row_def fail_artifact_row_def
      recover_artifact_row_def keeps_artifact_fence_def withdrawn_def expired_by_retention_def)

lemma artifact_stmt_lease: "artifact_stmt r r' \<Longrightarrow> artifact_lease.lease_step r r'"
  using artifact_stmt_fence artifact_lease.lease_step.intros by blast

lemma artifact_run_lease: "artifact_run r r' \<Longrightarrow> artifact_lease.lease_run r r'"
  by (induction rule: artifact_run.induct) (auto intro: artifact_lease.lease_run.intros artifact_stmt_lease)

text \<open>
  An ingestion that lost its artifact, to another process, a recovery or a new acceptance, can never again renew,
  publish, fail or release it under its generation, whatever statements follow.
\<close>

theorem superseded_ingestion_is_fenced:
  assumes "claim_artifact_row me t r = Some r0" and "artifact_run r0 r1" and "ba_owner r1 \<noteq> Some me \<or> ba_generation r1 \<noteq> ba_generation r0"
    and "artifact_run r1 r2"
  shows "renew_artifact_row me (ba_generation r0) t' r2 = None \<and> publish_artifact_row me (ba_generation r0) p key ref now r2 = None \<and>
    fail_artifact_row me (ba_generation r0) p m now r2 = None \<and> release_artifact_row me (ba_generation r0) now r2 = None"
proof -
  let ?g = "ba_generation r0"
  from artifact_lease.run_gen_mono [OF artifact_run_lease [OF assms(2)]] artifact_lease.run_gen_mono [OF artifact_run_lease [OF assms(4)]]
  have le: "?g \<le> ba_generation r1" "ba_generation r1 \<le> ba_generation r2" by auto
  have "\<not> (ba_owner r2 = Some me \<and> ba_generation r2 = ?g)"
  proof
    assume own: "ba_owner r2 = Some me \<and> ba_generation r2 = ?g"
    with le have g1: "ba_generation r1 = ?g" by simp
    with assms(3) have "ba_owner r1 \<noteq> Some me" by simp
    from artifact_lease.run_lost_stays_lost [OF artifact_run_lease [OF assms(4)] g1 this] own show False by simp
  qed
  then show ?thesis
    by (auto simp: renew_artifact_row_def publish_artifact_row_def fail_artifact_row_def release_artifact_row_def fenced_def)
qed

section \<open>Retention\<close>

lemma is_referenced_cong:
  assumes "environments d' = environments d" and "requests d' = requests d" and "operations d' = operations d"
  shows "is_referenced i d' = is_referenced i d"
proof -
  have "newest_rollback_point e d' = newest_rollback_point e d" for e by (simp add: newest_rollback_point_def assms(3))
  then show ?thesis unfolding is_referenced_def environment_by_id_def assms by presburger
qed

text \<open>The sweep reads everything but the table of artifacts, which alone it writes.\<close>

lemma retain_one_frame:
  assumes "retain_one now (\<lambda>d. d) deletes a (d, os, n, k) = (d', os', n', k')"
  shows "environments d' = environments d \<and> requests d' = requests d \<and> operations d' = operations d"
  using assms by (auto simp: retain_one_def split: option.splits if_splits)

lemma retain_one_kept:
  assumes "retain_one now (\<lambda>d. d) deletes a (d, os, n, k) = (d', os', n', k')" and "is_referenced i d"
    and "r \<in> set (artifacts d)" and "ba_id r = i"
  shows "r \<in> set (artifacts d')"
proof (cases "ba_id a = i")
  case True
  with assms show ?thesis by (auto simp: retain_one_def split: option.splits if_splits)
next
  case False
  with assms show ?thesis by (auto simp: retain_one_def set_rewrite image_iff split: option.splits if_splits)
qed

lemma retain_all_kept:
  assumes "fold (retain_one now (\<lambda>d. d) deletes) as (d, os, n, k) = (d', os', n', k')" and "is_referenced i d"
    and "r \<in> set (artifacts d)" and "ba_id r = i"
  shows "r \<in> set (artifacts d') \<and> is_referenced i d'"
  using assms
proof (induction as arbitrary: d os n k)
  case Nil
  then show ?case by simp
next
  case (Cons a as)
  obtain d1 os1 n1 k1 where one: "retain_one now (\<lambda>d. d) deletes a (d, os, n, k) = (d1, os1, n1, k1)"
    by (cases "retain_one now (\<lambda>d. d) deletes a (d, os, n, k)") auto
  with Cons.prems(1) have rest: "fold (retain_one now (\<lambda>d. d) deletes) as (d1, os1, n1, k1) = (d', os', n', k')" by simp
  have "is_referenced i d1"
    using is_referenced_cong [of d1 d] retain_one_frame [OF one] Cons.prems(2) by simp
  from Cons.IH [OF rest this retain_one_kept [OF one Cons.prems(2,3,4)] Cons.prems(4)] show ?case .
qed

lemma retain_all_objects:
  assumes "fold (retain_one now (\<lambda>d. d) deletes) as (d, os, n, k) = (d', os', n', k')" and "is_referenced i d"
    and "\<And>a. a \<in> set as \<Longrightarrow> ba_storageRef a = Some key \<Longrightarrow> ba_id a = i"
  shows "os' key = os key"
  using assms
proof (induction as arbitrary: d os n k)
  case Nil
  then show ?case by simp
next
  case (Cons a as)
  obtain d1 os1 n1 k1 where one: "retain_one now (\<lambda>d. d) deletes a (d, os, n, k) = (d1, os1, n1, k1)"
    by (cases "retain_one now (\<lambda>d. d) deletes a (d, os, n, k)") auto
  with Cons.prems(1) have rest: "fold (retain_one now (\<lambda>d. d) deletes) as (d1, os1, n1, k1) = (d', os', n', k')" by simp
  have ref1: "is_referenced i d1"
    using is_referenced_cong [of d1 d] retain_one_frame [OF one] Cons.prems(2) by simp
  have "os1 key = os key"
  proof (cases "ba_storageRef a = Some key")
    case True
    with Cons.prems(3) have "ba_id a = i" by simp
    with one Cons.prems(2) True show ?thesis by (auto simp: retain_one_def split: if_splits)
  next
    case False
    with one show ?thesis by (auto simp: retain_one_def split: option.splits if_splits)
  qed
  moreover have "os' key = os1 key"
    by (rule Cons.IH [OF rest ref1]) (simp add: Cons.prems(3))
  ultimately show ?case by simp
qed

lemma newest_point_referenced:
  assumes "environment_by_id (en_id e) d = Some e" and "newest_rollback_point e d = Some q" and "op_buildArtifactId q = Some i"
  shows "is_referenced i d"
proof -
  from find_first_Some [OF assms(2) [unfolded newest_rollback_point_def]] have q: "q \<in> set (operations d)" "rollback_point e q" by auto
  then have "published_with i q" "op_environmentId q = en_id e" using assms(3) by (auto simp: rollback_point_def published_with_def)
  with q(1) assms show ?thesis by (auto simp: is_referenced_def list_ex_iff intro!: bexI [of _ q])
qed

text \<open>
  C36: When nothing interferes, retention keeps the record and the stored archive of everything that is still needed: what an
  environment runs, what a live production request or an unfinished operation refers to, and the newest publication
  each environment can be rolled back to.
\<close>

theorem retention_keeps_what_is_needed:
  assumes "run_retention days now (\<lambda>d. d) deletes d os = (d', os', removed, kept)" and "r \<in> set (artifacts d)"
    and "(\<exists>e \<in> set (environments d). en_buildArtifactId e = Some (ba_id r)) \<or>
      (\<exists>q \<in> set (requests d). rq_buildArtifactId q = Some (ba_id r) \<and> rq_status q \<in> {RqPending, RqApproving}) \<or>
      (\<exists>q \<in> set (operations d). op_buildArtifactId q = Some (ba_id r) \<and> op_finishedAt q = None) \<or>
      (\<exists>e q. environment_by_id (en_id e) d = Some e \<and> newest_rollback_point e d = Some q \<and> op_buildArtifactId q = Some (ba_id r))"
    and "\<And>a. a \<in> set (artifacts d) \<Longrightarrow> ba_storageRef a = ba_storageRef r \<Longrightarrow> ba_id a = ba_id r"
  shows "r \<in> set (artifacts d') \<and> (\<forall>key. ba_storageRef r = Some key \<longrightarrow> os' key = os key)"
proof -
  have ref: "is_referenced (ba_id r) d"
    using assms(3)
  proof (elim disjE)
    assume "\<exists>e q. environment_by_id (en_id e) d = Some e \<and> newest_rollback_point e d = Some q \<and> op_buildArtifactId q = Some (ba_id r)"
    then show ?thesis using newest_point_referenced by blast
  qed (simp_all add: is_referenced_def list_ex_iff)
  from retain_all_kept [OF assms(1) [unfolded run_retention_def] ref assms(2) refl]
  have "r \<in> set (artifacts d')" by blast
  moreover have "os' key = os key" if "ba_storageRef r = Some key" for key
    by (rule retain_all_objects [OF assms(1) [unfolded run_retention_def] ref]) (use assms(4) that in auto)
  ultimately show ?thesis by blast
qed

section \<open>An undisturbed ingestion\<close>

text \<open>Triples: from a state with \<open>P\<close>, a step ends in \<open>Q\<close> with its result, or in \<open>E\<close> with its error.\<close>

definition triple :: "(store \<Rightarrow> bool) \<Rightarrow> 'a ingest \<Rightarrow> ('a \<Rightarrow> store \<Rightarrow> bool) \<Rightarrow> (store \<Rightarrow> bool) \<Rightarrow> bool" where
  "triple P m Q E = (\<forall>s. P s \<longrightarrow> (case m s of (s', Inr x) \<Rightarrow> Q x s' | (s', Inl _) \<Rightarrow> E s'))"

lemma triple_then:
  assumes "triple P m Q E" and "\<And>x. triple (Q x) (f x) R E"
  shows "triple P (and_then m f) R E"
  unfolding triple_def
proof (intro allI impI)
  fix s assume "P s"
  with assms(1) have one: "case m s of (s', Inr x) \<Rightarrow> Q x s' | (s', Inl _) \<Rightarrow> E s'" by (simp add: triple_def)
  show "case and_then m f s of (s', Inr x) \<Rightarrow> R x s' | (s', Inl _) \<Rightarrow> E s'"
  proof (cases "m s")
    case (Pair s' r)
    show ?thesis
    proof (cases r)
      case (Inl e)
      with Pair one show ?thesis by (simp add: and_then_def)
    next
      case (Inr x)
      with Pair one have "Q x s'" by simp
      with assms(2) [of x] Pair Inr show ?thesis by (simp add: triple_def and_then_def)
    qed
  qed
qed

lemma triple_answer: "(\<And>s. P s \<Longrightarrow> E s) \<Longrightarrow> triple P (answer r) (\<lambda>x s. P s \<and> r = Inr x) E"
  by (auto simp: triple_def answer_def split: sum.split)

lemma ingest_weaken: "triple P m Q E \<Longrightarrow> (\<And>s. P' s \<Longrightarrow> P s) \<Longrightarrow> (\<And>x s. Q x s \<Longrightarrow> Q' x s) \<Longrightarrow> (\<And>s. E s \<Longrightarrow> E' s) \<Longrightarrow> triple P' m Q' E'"
  unfolding triple_def by (fastforce split: sum.split prod.split)

text \<open>Nobody else touches the artifacts, the bucket and the variables of the process; all checks come within one lease.\<close>

definition undisturbed :: "run \<Rightarrow> bool" where
  "undisturbed rn = ((\<forall>n s. artifacts (st_db (rn_mid rn n s)) = artifacts (st_db s) \<and> st_objects (rn_mid rn n s) = st_objects s \<and>
     st_lease (rn_mid rn n s) = st_lease s \<and> st_key (rn_mid rn n s) = st_key s) \<and>
     (\<forall>n m. rn_clock rn n < rn_clock rn m + artifact_lease_ms))"

text \<open>The row \<open>a\<close> is held by this process, up to the expiry of its lease.\<close>

definition held_row :: "run \<Rightarrow> artifact_row \<Rightarrow> store \<Rightarrow> bool" where
  "held_row rn a s = (keyed ba_id (artifacts (st_db s)) \<and>
     (\<exists>n. a\<lparr>ba_leaseExpiresAt := Some (rn_clock rn n + artifact_lease_ms)\<rparr> \<in> set (artifacts (st_db s))) \<and>
     ba_status a = AfIngesting \<and> ba_owner a = Some (rn_me rn) \<and>
     st_lease s = \<lparr>ax_id = ba_id a, ax_generation = ba_generation a, ax_lost = False, ax_completed = False\<rparr>)"

definition at_point :: "run \<Rightarrow> artifact_row \<Rightarrow> string option \<Rightarrow> (string \<Rightarrow> (string \<times> string) list option) \<Rightarrow> store \<Rightarrow> bool" where
  "at_point rn a k os s = (held_row rn a s \<and> st_key s = k \<and> st_objects s = os)"

definition may_fail :: "run \<Rightarrow> artifact_row \<Rightarrow> (string \<Rightarrow> (string \<times> string) list option) \<Rightarrow> store \<Rightarrow> bool" where
  "may_fail rn a os s = (held_row rn a s \<and> (\<forall>k. st_key s \<noteq> Some k \<longrightarrow> st_objects s k = os k))"

lemma at_point_may_fail: "at_point rn a None os s \<Longrightarrow> may_fail rn a os s"
  by (simp add: at_point_def may_fail_def)

lemma others_held: "undisturbed rn \<Longrightarrow> held_row rn a s \<Longrightarrow> held_row rn a (rn_mid rn n s)"
  by (simp add: undisturbed_def held_row_def)

lemma on_artifact_held:
  assumes "held_row rn a s" and "\<And>n. f (a\<lparr>ba_leaseExpiresAt := Some (rn_clock rn n + artifact_lease_ms)\<rparr>) = Some b"
  shows "on_artifact (ba_id a) f (st_db s) = ((st_db s)\<lparr>artifacts := rewrite (\<lambda>x. ba_id x = ba_id a) (\<lambda>_. b) (artifacts (st_db s))\<rparr>, Some b)"
proof -
  from assms(1) obtain n where "a\<lparr>ba_leaseExpiresAt := Some (rn_clock rn n + artifact_lease_ms)\<rparr> \<in> set (artifacts (st_db s))"
    and "keyed ba_id (artifacts (st_db s))" by (auto simp: held_row_def)
  from find_first_key [OF this(2,1)] have
    "find_first (\<lambda>x. ba_id x = ba_id a) (artifacts (st_db s)) = Some (a\<lparr>ba_leaseExpiresAt := Some (rn_clock rn n + artifact_lease_ms)\<rparr>)"
    by simp
  then show ?thesis using assms(2) [of n] by (simp add: on_artifact_def update_row_def)
qed

lemma held_renewed:
  assumes "held_row rn a s" and "undisturbed rn"
  shows "check_lease rn m s = (s\<lparr>st_db := (st_db s)\<lparr>artifacts := rewrite (\<lambda>x. ba_id x = ba_id a)
      (\<lambda>_. a\<lparr>ba_leaseExpiresAt := Some (rn_clock rn m + artifact_lease_ms)\<rparr>) (artifacts (st_db s))\<rparr>\<rparr>, Inr ())"
proof -
  from assms have lease: "st_lease s = \<lparr>ax_id = ba_id a, ax_generation = ba_generation a, ax_lost = False, ax_completed = False\<rparr>"
    and row: "ba_status a = AfIngesting" "ba_owner a = Some (rn_me rn)" by (auto simp: held_row_def)
  have ok: "renew_artifact_row (rn_me rn) (ba_generation a) (rn_clock rn m)
      (a\<lparr>ba_leaseExpiresAt := Some (rn_clock rn n + artifact_lease_ms)\<rparr>) = Some (a\<lparr>ba_leaseExpiresAt := Some (rn_clock rn m + artifact_lease_ms)\<rparr>)" for n
    using assms(2) row by (simp add: renew_artifact_row_def undisturbed_def)
  have "on_artifact (ba_id a) (renew_artifact_row (rn_me rn) (ba_generation a) (rn_clock rn m)) (st_db s) =
      ((st_db s)\<lparr>artifacts := rewrite (\<lambda>x. ba_id x = ba_id a) (\<lambda>_. a\<lparr>ba_leaseExpiresAt := Some (rn_clock rn m + artifact_lease_ms)\<rparr>) (artifacts (st_db s))\<rparr>,
       Some (a\<lparr>ba_leaseExpiresAt := Some (rn_clock rn m + artifact_lease_ms)\<rparr>))"
    by (rule on_artifact_held [OF assms(1)]) (rule ok)
  with lease show ?thesis by (simp add: check_lease_def assert_artifact_def)
qed

lemma replaced_in:
  "(\<exists>x \<in> set t. k x = i) \<Longrightarrow> b \<in> set (rewrite (\<lambda>x. k x = i) (\<lambda>_. b) t)"
  by (auto simp: set_rewrite)

lemma held_after_renewal:
  assumes "held_row rn a s"
  shows "held_row rn a (s\<lparr>st_db := (st_db s)\<lparr>artifacts := rewrite (\<lambda>x. ba_id x = ba_id a)
      (\<lambda>_. a\<lparr>ba_leaseExpiresAt := Some (rn_clock rn m + artifact_lease_ms)\<rparr>) (artifacts (st_db s))\<rparr>\<rparr>)"
proof -
  let ?b = "a\<lparr>ba_leaseExpiresAt := Some (rn_clock rn m + artifact_lease_ms)\<rparr>"
  from assms obtain n where "a\<lparr>ba_leaseExpiresAt := Some (rn_clock rn n + artifact_lease_ms)\<rparr> \<in> set (artifacts (st_db s))"
    by (auto simp: held_row_def)
  then have "\<exists>x \<in> set (artifacts (st_db s)). ba_id x = ba_id a" by (rule rev_bexI) simp
  then have "?b \<in> set (rewrite (\<lambda>x. ba_id x = ba_id a) (\<lambda>_. ?b) (artifacts (st_db s)))" by (rule replaced_in)
  moreover have "keyed ba_id (rewrite (\<lambda>x. ba_id x = ba_id a) (\<lambda>_. ?b) (artifacts (st_db s))) = keyed ba_id (artifacts (st_db s))"
    by (rule keyed_rewrite) simp
  ultimately show ?thesis using assms unfolding held_row_def by auto
qed

lemma triple_others: "undisturbed rn \<Longrightarrow> triple (at_point rn a k os) (others rn n) (\<lambda>_. at_point rn a k os) E"
  by (simp add: triple_def others_def at_point_def others_held) (simp add: undisturbed_def)

lemma triple_check:
  assumes "undisturbed rn"
  shows "triple (at_point rn a k os) (check_lease rn n) (\<lambda>_. at_point rn a k os) E"
  unfolding triple_def
proof (intro allI impI)
  fix s assume s: "at_point rn a k os s"
  then have held: "held_row rn a s" by (simp add: at_point_def)
  from s held_after_renewal [OF held] show "case check_lease rn n s of (s', Inr x) \<Rightarrow> at_point rn a k os s' | (s', Inl _) \<Rightarrow> E s'"
    by (simp add: held_renewed [OF held assms] at_point_def)
qed

definition published :: "run \<Rightarrow> ingestion \<Rightarrow> artifact_row \<Rightarrow> string \<Rightarrow> artifact_row" where
  "published rn ig a key = a\<lparr>ba_status := AfAvailable, ba_storageKind := Some ''object-store'', ba_storageRef := Some key,
     ba_imageRef := Some (ig_imageRef ig), ba_error := None, ba_owner := None, ba_leaseExpiresAt := None, ba_updatedAt := rn_now rn\<rparr>"

lemma publish_held:
  assumes "held_row rn a s" and "ba_projectId a = ig_projectId ig"
  shows "\<exists>s'. publish rn ig key s = (s', Inr ()) \<and> published rn ig a key \<in> set (artifacts (st_db s')) \<and>
    st_objects s' = st_objects s \<and> ax_completed (st_lease s')"
proof -
  from assms have row: "ba_status a = AfIngesting" "ba_owner a = Some (rn_me rn)"
    and lease: "st_lease s = \<lparr>ax_id = ba_id a, ax_generation = ba_generation a, ax_lost = False, ax_completed = False\<rparr>" by (auto simp: held_row_def)
  from assms(1) obtain n where "a\<lparr>ba_leaseExpiresAt := Some (rn_clock rn n + artifact_lease_ms)\<rparr> \<in> set (artifacts (st_db s))"
    by (auto simp: held_row_def)
  then have "\<exists>x \<in> set (artifacts (st_db s)). ba_id x = ba_id a" by (rule rev_bexI) simp
  then have "published rn ig a key \<in> set (rewrite (\<lambda>x. ba_id x = ba_id a) (\<lambda>_. published rn ig a key) (artifacts (st_db s)))" by (rule replaced_in)
  moreover have "on_artifact (ba_id a) (publish_artifact_row (rn_me rn) (ba_generation a) (ig_projectId ig) key (ig_imageRef ig) (rn_now rn)) (st_db s) =
      ((st_db s)\<lparr>artifacts := rewrite (\<lambda>x. ba_id x = ba_id a) (\<lambda>_. published rn ig a key) (artifacts (st_db s))\<rparr>, Some (published rn ig a key))"
    by (rule on_artifact_held [OF assms(1)]) (simp add: publish_artifact_row_def fenced_def row assms(2) published_def)
  ultimately show ?thesis using lease by (simp add: publish_def)
qed

lemma triple_consequence:
  "triple P m Q E \<Longrightarrow> (\<And>s. P' s \<Longrightarrow> P s) \<Longrightarrow> triple P' m Q E"
  by (simp add: triple_def)

lemma triple_pure: "(b \<Longrightarrow> triple P m Q E) \<Longrightarrow> triple (\<lambda>s. P s \<and> b) m Q E"
  by (simp add: triple_def)

text \<open>The steps of an ingestion: it ends with the archive stored and published, or with the row still held.\<close>

lemma store_archive_outcome:
  assumes "undisturbed rn" and "ba_projectId a = ig_projectId ig"
  shows "triple (at_point rn a None os) (store_archive rn ig)
    (\<lambda>_ s. \<exists>key es. rn_download rn = Inr (Some es) \<and> assert_image_archive_identity (rn_parse rn) (Some es) (ig_imageRef ig) = Inr () \<and>
       key \<noteq> [] \<and> published rn ig a key \<in> set (artifacts (st_db s)) \<and> st_objects s key = Some es \<and> ax_completed (st_lease s))
    (may_fail rn a os)" (is "triple _ _ ?Q ?E")
proof -
  note others = triple_others [OF assms(1)] and check = triple_check [OF assms(1)]
  have late: "triple (at_point rn a (Some key) (os(key := Some es))) (publish rn ig key) ?Q ?E"
    if "rn_download rn = Inr (Some es)" "assert_image_archive_identity (rn_parse rn) (Some es) (ig_imageRef ig) = Inr ()" "key \<noteq> []" for key es
    unfolding triple_def
  proof (intro allI impI)
    fix s assume s: "at_point rn a (Some key) (os(key := Some es)) s"
    then have "held_row rn a s" "st_objects s key = Some es" by (simp_all add: at_point_def)
    from publish_held [OF this(1) assms(2), of key] obtain s' where s': "publish rn ig key s = (s', Inr ())"
      "published rn ig a key \<in> set (artifacts (st_db s'))" "st_objects s' = st_objects s" "ax_completed (st_lease s')" by blast
    with that \<open>st_objects s key = Some es\<close> show "case publish rn ig key s of (s', Inr x) \<Rightarrow> ?Q x s' | (s', Inl _) \<Rightarrow> ?E s'"
      by (auto intro!: exI [of _ key] exI [of _ es])
  qed
  have key_fail: "?E s" if "at_point rn a (Some key) (os(key := Some es)) s" for key es s
    using that by (simp add: at_point_def may_fail_def)
  have load: "triple (at_point rn a (Some key) (os(key := Some es)))
      (\<lambda>s. answer (if dev_deploys_locally (ig_projectId ig) (st_db s) then rn_load rn else Inr ()) s) (\<lambda>_. at_point rn a (Some key) (os(key := Some es))) ?E" for key es
    using key_fail by (auto simp: triple_def answer_def split: sum.split)
  have confirm: "triple (at_point rn a (Some key) (os(key := Some es))) (confirm_upload rn key) (\<lambda>_. at_point rn a (Some key) (os(key := Some es))) ?E" for key es
    using key_fail by (auto simp: triple_def confirm_upload_def split: sum.split)
  have up: "triple (at_point rn a None os) (upload rn key es) (\<lambda>_. at_point rn a (Some key) (os(key := Some es))) ?E" for key es
  proof -
    have "held_row rn a (s\<lparr>st_key := Some key\<rparr>) = held_row rn a s"
      "held_row rn a (s\<lparr>st_key := Some key, st_objects := x\<rparr>) = held_row rn a s" for s x
      by (simp_all add: held_row_def)
    then show ?thesis by (cases "rn_put rn") (simp_all add: triple_def upload_def at_point_def may_fail_def)
  qed
  have named: "k \<noteq> []" if "object_key_of ig d = Inr k" for k d
    using that by (auto simp: object_key_of_def elim: artifact_key_parts split: option.splits)
  have key: "triple (at_point rn a None os) (\<lambda>s. answer (object_key_of ig (st_db s)) s) (\<lambda>k s. at_point rn a None os s \<and> k \<noteq> []) ?E"
    using at_point_may_fail named by (auto simp: triple_def answer_def split: sum.split)
  have rest: "triple (at_point rn a None os) (store_verified rn ig es) ?Q ?E"
    if "rn_download rn = Inr (Some es)" "assert_image_archive_identity (rn_parse rn) (Some es) (ig_imageRef ig) = Inr ()" for es
    unfolding store_verified_def
    by (rule triple_then [OF others] triple_then [OF check] triple_then [OF key] triple_pure triple_then [OF up] triple_then [OF confirm]
        triple_then [OF load] late [OF that] | assumption)+
  have verified: "triple (at_point rn a None os) (and_then (answer (assert_image_archive_identity (rn_parse rn) ar (ig_imageRef ig)))
      (\<lambda>_. store_verified rn ig (the ar))) ?Q ?E" if "rn_download rn = Inr ar" for ar
  proof (rule triple_then [OF triple_answer], erule at_point_may_fail, rule triple_pure)
    fix x assume ok: "assert_image_archive_identity (rn_parse rn) ar (ig_imageRef ig) = Inr x"
    then obtain es where "ar = Some es" by (cases ar) (simp_all add: assert_image_archive_identity_def)
    with rest [of es] that ok show "triple (at_point rn a None os) (store_verified rn ig (the ar)) ?Q ?E" by simp
  qed
  show ?thesis
    unfolding store_archive_def
    by (rule triple_then [OF triple_answer], erule at_point_may_fail, rule triple_pure)
      (rule triple_then [OF others], rule triple_then [OF check], rule verified)
qed

lemma failure_held:
  assumes "held_row rn a s" and "ba_projectId a = ig_projectId ig" and "ig_operationId ig = None"
  shows "\<exists>s'. record_failure rn ig m s = (s', Inr ()) \<and> withdrawn AfFailed (Some m) (rn_now rn) a \<in> set (artifacts (st_db s')) \<and>
    st_objects s' = st_objects s \<and> ax_completed (st_lease s')"
proof -
  from assms have row: "ba_status a = AfIngesting" "ba_owner a = Some (rn_me rn)"
    and lease: "st_lease s = \<lparr>ax_id = ba_id a, ax_generation = ba_generation a, ax_lost = False, ax_completed = False\<rparr>" by (auto simp: held_row_def)
  from assms(1) obtain n where "a\<lparr>ba_leaseExpiresAt := Some (rn_clock rn n + artifact_lease_ms)\<rparr> \<in> set (artifacts (st_db s))"
    by (auto simp: held_row_def)
  then have "\<exists>x \<in> set (artifacts (st_db s)). ba_id x = ba_id a" by (rule rev_bexI) simp
  then have "withdrawn AfFailed (Some m) (rn_now rn) a \<in> set (rewrite (\<lambda>x. ba_id x = ba_id a) (\<lambda>_. withdrawn AfFailed (Some m) (rn_now rn) a) (artifacts (st_db s)))"
    by (rule replaced_in)
  moreover have "on_artifact (ba_id a) (fail_artifact_row (rn_me rn) (ba_generation a) (ig_projectId ig) m (rn_now rn)) (st_db s) =
      ((st_db s)\<lparr>artifacts := rewrite (\<lambda>x. ba_id x = ba_id a) (\<lambda>_. withdrawn AfFailed (Some m) (rn_now rn) a) (artifacts (st_db s))\<rparr>,
       Some (withdrawn AfFailed (Some m) (rn_now rn) a))"
    by (rule on_artifact_held [OF assms(1)]) (simp add: fail_artifact_row_def fenced_def row assms(2) withdrawn_def)
  ultimately show ?thesis using lease assms(3) by (simp add: record_failure_def set_last_commit_def)
qed

definition cleaned_up :: "run \<Rightarrow> artifact_row \<Rightarrow> (string \<Rightarrow> (string \<times> string) list option) \<Rightarrow> store \<Rightarrow> bool" where
  "cleaned_up rn a os s = ((\<exists>m. withdrawn AfFailed (Some m) (rn_now rn) a \<in> set (artifacts (st_db s))) \<and>
     (rn_delete rn \<longrightarrow> (\<forall>k. st_objects s k = os k \<or> st_objects s k = None)) \<and> ax_completed (st_lease s))"

lemma failed_ingestion_cleans_up:
  assumes "undisturbed rn" and "may_fail rn a os s" and "ba_projectId a = ig_projectId ig" and "ig_operationId ig = None"
  shows "\<exists>s'. ingest_failed rn ig text e s = (s', Inr ()) \<and> cleaned_up rn a os s'"
proof -
  let ?s1 = "rn_mid rn 6 s"
  from assms(2) have held: "held_row rn a s" and os: "\<And>k. st_key s \<noteq> Some k \<Longrightarrow> st_objects s k = os k" by (auto simp: may_fail_def)
  have h1: "held_row rn a ?s1" using others_held [OF assms(1) held] .
  obtain s2 where s2: "check_lease rn 7 ?s1 = (s2, Inr ())" "held_row rn a s2" "st_objects s2 = st_objects ?s1" "st_key s2 = st_key ?s1"
    using held_renewed [OF h1 assms(1)] held_after_renewal [OF h1] by simp
  obtain s3 where s3: "remove_object rn (rn_mid rn 7 s2) = (s3, Inr ())" "s3 = fst (remove_object rn (rn_mid rn 7 s2))"
    by (simp add: remove_object_def)
  have h3: "held_row rn a s3" using others_held [OF assms(1) s2(2), of 7] by (simp add: s3(2) remove_object_def held_row_def)
  let ?s4 = "rn_mid rn 8 s3"
  have h4: "held_row rn a ?s4" using others_held [OF assms(1) h3] .
  from failure_held [OF h4 assms(3,4)] obtain s' where s': "record_failure rn ig (text e) ?s4 = (s', Inr ())"
    "withdrawn AfFailed (Some (text e)) (rn_now rn) a \<in> set (artifacts (st_db s'))" "st_objects s' = st_objects ?s4" "ax_completed (st_lease s')" by blast
  have same: "st_objects (rn_mid rn n x) = st_objects x" "st_key (rn_mid rn n x) = st_key x" for n x
    using assms(1) by (simp_all add: undisturbed_def)
  have "st_objects s' k = os k \<or> st_objects s' k = None" if "rn_delete rn" for k
    using os [of k] that by (simp add: s'(3) same s3(2) remove_object_def s2(3,4) split: option.split)
  moreover have "\<not> ax_completed (st_lease s)" using held by (simp add: held_row_def)
  ultimately show ?thesis
    using s2(1) s3(1) s' by (auto simp: ingest_failed_def and_then_def others_def cleaned_up_def)
qed

text \<open>The database an ingestion leaves is that of its task under the execution lease of \<open>DeployOps\<close>.\<close>

lemma ingest_is_leased:
  assumes "ig_operationId ig = Some i"
  shows "st_db (ingest deploy rn ig text ops local s) = fst (snd (run_with_execution_lease (rn_me rn) (rn_clock rn 0) i (st_exec s)
    (\<lambda>ex d. let s' = ingest_task deploy rn ig text local ex d s in (st_db s', st_exec s', Inr ())) ops (st_db s)))"
  by (simp add: ingest_def run_with_execution_lease_def assms Let_def split: prod.splits sum.splits option.splits)

text \<open>
  C37: An ingestion for verification that nothing disturbs ends in one of two ways. The artifact is available under a key that
  holds exactly the downloaded archive, whose identity was verified; or it failed without storage, and what it uploaded is gone
  where the bucket deletes it.
\<close>

theorem undisturbed_ingestion_publishes_or_cleans_up:
  assumes "run_with_ingestion_lease deploy rn ig text local s = (s', r)" and "undisturbed rn" and "ig_operationId ig = None"
    and "provider_artifact (sa_provider (ig_artifact ig)) (sa_providerArtifactId (ig_artifact ig)) (st_db s) = Some a"
    and "ba_projectId a = ig_projectId ig" and "ba_status a \<in> {AfAccepted, AfFailed}" and "ba_owner a = None"
    and "keyed ba_id (artifacts (st_db s))"
    and "sa_provider (ig_artifact ig) @ '':'' @ sa_providerArtifactId (ig_artifact ig) \<notin> set local"
  shows "(\<exists>b key es. b \<in> set (artifacts (st_db s')) \<and> ba_id b = ba_id a \<and> durable_artifact b \<and> ba_storageRef b = Some key \<and>
      st_objects s' key = Some es \<and> rn_download rn = Inr (Some es) \<and>
      assert_image_archive_identity (rn_parse rn) (Some es) (ig_imageRef ig) = Inr ()) \<or>
    (\<exists>b. b \<in> set (artifacts (st_db s')) \<and> ba_id b = ba_id a \<and> ba_status b = AfFailed \<and> ba_storageRef b = None \<and> ba_owner b = None) \<and>
    (rn_delete rn \<longrightarrow> (\<forall>k. st_objects s' k = st_objects s k \<or> st_objects s' k = None))"
proof -
  let ?c = "a\<lparr>ba_status := AfIngesting, ba_error := None, ba_owner := Some (rn_me rn), ba_generation := ba_generation a + 1\<rparr>"
  let ?held = "?c\<lparr>ba_leaseExpiresAt := Some (rn_clock rn 0 + artifact_lease_ms)\<rparr>"
  let ?d = "(st_db s)\<lparr>artifacts := rewrite (\<lambda>x. ba_id x = ba_id a) (\<lambda>_. ?held) (artifacts (st_db s))\<rparr>"
  let ?s0 = "s\<lparr>st_db := ?d, st_lease := \<lparr>ax_id = ba_id a, ax_generation = ba_generation a + 1, ax_lost = False, ax_completed = False\<rparr>, st_key := None\<rparr>"
  have in_a: "a \<in> set (artifacts (st_db s))" using assms(4) by (auto simp: provider_artifact_def dest: find_first_Some)
  from find_first_key [OF assms(8) this] have found: "find_first (\<lambda>x. ba_id x = ba_id a) (artifacts (st_db s)) = Some a" .
  have claimed: "claim_artifact (rn_me rn) (rn_clock rn 0) (name_of ig) (st_db s) =
      (?d, Some \<lparr>ax_id = ba_id a, ax_generation = ba_generation a + 1, ax_lost = False, ax_completed = False\<rparr>)"
    using assms(4-7) found by (auto simp: claim_artifact_def name_of_def on_artifact_def update_row_def claim_artifact_row_def when_row_def)
  have "\<exists>x \<in> set (artifacts (st_db s)). ba_id x = ba_id a" using in_a by blast
  then have "?held \<in> set (artifacts ?d)" using replaced_in [of "artifacts (st_db s)" ba_id "ba_id a" ?held] by simp
  moreover have "keyed ba_id (artifacts ?d)"
    using keyed_rewrite [of "\<lambda>x. ba_id x = ba_id a" ba_id "\<lambda>_. ?held" "artifacts (st_db s)"] assms(8) by simp
  ultimately have held: "held_row rn ?c ?s0" unfolding held_row_def by (auto intro: exI [of _ 0])
  then have start: "at_point rn ?c None (st_objects s) ?s0" by (simp add: at_point_def)
  have p: "ba_projectId ?c = ig_projectId ig" using assms(5) by simp
  have final: "s' = s1" if "ingest_owned deploy rn ig text ?s0 = (s1, q)" "ax_completed (st_lease s1)" for s1 q
    using assms(1,9) claimed that by (simp add: run_with_ingestion_lease_def run_artifact_def name_of_def)
  have announced: "announce rn ig ?s0 = (?s0, Inr ())" using assms(3) by (simp add: announce_def)
  obtain s1 r1 where stored: "store_archive rn ig ?s0 = (s1, r1)" by force
  from store_archive_outcome [OF assms(2) p, of "st_objects s"] start stored have outcome:
    "case (s1, r1) of (s', Inr x) \<Rightarrow> (\<exists>key es. rn_download rn = Inr (Some es) \<and> assert_image_archive_identity (rn_parse rn) (Some es) (ig_imageRef ig) = Inr () \<and>
       key \<noteq> [] \<and> published rn ig ?c key \<in> set (artifacts (st_db s')) \<and> st_objects s' key = Some es \<and> ax_completed (st_lease s'))
      | (s', Inl _) \<Rightarrow> may_fail rn ?c (st_objects s) s'"
    unfolding triple_def by (metis (no_types, lifting))
  show ?thesis
  proof (cases r1)
    case (Inr x)
    with outcome obtain key es where ok: "rn_download rn = Inr (Some es)" "assert_image_archive_identity (rn_parse rn) (Some es) (ig_imageRef ig) = Inr ()"
      "key \<noteq> []" "published rn ig ?c key \<in> set (artifacts (st_db s1))" "st_objects s1 key = Some es" "ax_completed (st_lease s1)" by auto
    obtain s2 q where owned: "ingest_owned deploy rn ig text ?s0 = (s2, q)" "artifacts (st_db s2) = artifacts (st_db s1)"
        "st_objects s2 = st_objects s1" "st_lease s2 = st_lease s1"
    proof (cases "project_by_id (ig_projectId ig) (st_db s1)")
      case None
      with stored Inr announced assms(3) ok(6) have "ingest_owned deploy rn ig text ?s0 = (s1, Inl (ServerError ''Record to update not found''))"
        by (simp add: ingest_owned_def and_then_def finish_ingestion_def show_verified_def ingest_failed_def)
      then show ?thesis by (rule that) simp_all
    next
      case (Some pj)
      let ?s2 = "s1\<lparr>st_db := set_last_commit (ig_projectId ig) (''ci: verified '' @ short_sha ig) (st_db s1)\<rparr>"
      from Some stored Inr announced assms(3) have "ingest_owned deploy rn ig text ?s0 = (?s2, Inr ())"
        by (simp add: ingest_owned_def and_then_def finish_ingestion_def show_verified_def)
      then show ?thesis by (rule that) (simp_all add: set_last_commit_def)
    qed
    then have "s' = s2" using final [of s2] ok(6) by simp
    moreover have "durable_artifact (published rn ig ?c key)" "ba_storageRef (published rn ig ?c key) = Some key" "ba_id (published rn ig ?c key) = ba_id a"
      using ok(3) by (simp_all add: durable_artifact_def published_def)
    ultimately show ?thesis using ok owned by metis
  next
    case (Inl e)
    with outcome have "may_fail rn ?c (st_objects s) s1" by simp
    from failed_ingestion_cleans_up [OF assms(2) this p assms(3)] obtain s2 where s2: "ingest_failed rn ig text e s1 = (s2, Inr ())"
      "cleaned_up rn ?c (st_objects s) s2" by blast
    have "s' = s2" using final [of s2] s2 stored Inl announced
      by (simp add: ingest_owned_def and_then_def cleaned_up_def)
    with s2(2) show ?thesis by (auto simp: cleaned_up_def withdrawn_def)
  qed
qed

end
