(* ===== verification/ArtifactExamples.thy ===== *)
theory ArtifactExamples
  imports ArtifactProofs
begin

text \<open>
  A small project with one build artifact, on which the properties of \<open>ArtifactProofs\<close> are applied, and a run of two
  replicas in which the late cleanup of the first removes the archive the second published.
\<close>

definition demo_project :: project_row where
  "demo_project = \<lparr>pj_id = ''p'', pj_name = ''p'', pj_workspaceId = ''w'', pj_preset = DevTestProd, pj_scmProvider = ''github'', pj_scmFullName = ''o/p'',
       pj_scmDefaultBranch = ''main'', pj_ciDeployTokenHash = None, pj_lastCommit = []\<rparr>"

definition demo_artifact :: artifact_row where
  "demo_artifact = \<lparr>ba_id = ''a'', ba_projectId = ''p'', ba_sourceProvider = ''github'', ba_providerArtifactId = ''1'', ba_commitSha = ''c'',
     ba_digest = ''d'', ba_providerRunId = ''r'', ba_storageKind = None, ba_storageRef = None, ba_sizeBytes = 1, ba_status = AfAccepted,
     ba_imageRef = None, ba_error = None, ba_owner = None, ba_generation = 0, ba_leaseExpiresAt = None, ba_updatedAt = 0, ba_createdAt = 0\<rparr>"

definition demo_scm :: scm_artifact where
  "demo_scm = \<lparr>sa_provider = ''github'', sa_providerArtifactId = ''1'', sa_providerRunId = ''r'', sa_digest = ''d'', sa_commitSha = ''c'', sa_sizeBytes = 1\<rparr>"

definition demo_store :: store where
  "demo_store = \<lparr>st_db = empty_db\<lparr>projects := [demo_project], artifacts := [demo_artifact]\<rparr>, st_objects = (\<lambda>_. None),
     st_lease = \<lparr>ax_id = [], ax_generation = 0, ax_lost = False, ax_completed = False\<rparr>, st_exec = None, st_key = None\<rparr>"

definition demo_ingestion :: ingestion where
  "demo_ingestion = \<lparr>ig_projectId = ''p'', ig_artifact = demo_scm, ig_imageRef = ''i'', ig_operationId = None\<rparr>"

definition demo_archive :: "(string \<times> string) list" where
  "demo_archive = [(''manifest.json'', [])]"

definition demo_run :: "string \<Rightarrow> instant \<Rightarrow> run" where
  "demo_run me t = \<lparr>rn_me = me, rn_now = t, rn_clock = (\<lambda>_. t), rn_mid = (\<lambda>_ s. s), rn_download = Inr (Some demo_archive),
     rn_parse = (\<lambda>_. Some (JArr [JObj [(''RepoTags'', JArr [JStr ''i''])]])), rn_put = Inr (), rn_head = True, rn_load = Inr (),
     rn_delete = True, rn_fails = (\<lambda>_. False), rn_down = False\<rparr>"

lemmas demo_artifact_defs = demo_project_def demo_artifact_def demo_scm_def demo_store_def demo_ingestion_def empty_db_def

lemma demo_chars [simp]:
  "key_char CHR ''w''" "key_char CHR ''p''" "key_char CHR ''a''" "key_char CHR ''d''"
  "\<not> is_blank CHR ''w''" "\<not> is_blank CHR ''p''" "\<not> is_blank CHR ''a''" "\<not> is_blank CHR ''d''"
  by (simp_all add: key_char_def is_lower_def is_blank_def)

definition demo_key :: string where
  "demo_key = ''artifacts/w/p/a/d.tar''"

lemma demo_slugs: "slug ''w'' = Inr ''w''" "slug ''p'' = Inr ''p''" "slug ''a'' = Inr ''a''" "slug ''d'' = Inr ''d''"
  by (simp_all add: slug_def trim_def trim_edges_def)

lemma demo_trims: "trim ''w'' \<noteq> []" "trim ''p'' \<noteq> []" "trim ''a'' \<noteq> []" "trim ''d'' \<noteq> []"
  by (simp_all add: trim_def)

lemma demo_object_key: "artifact_object_key \<lparr>kp_workspaceId = ''w'', kp_projectId = ''p'', kp_artifactId = ''a'', kp_digest = ''d''\<rparr> = Inr demo_key"
  unfolding artifact_object_key_def demo_key_def by (simp add: demo_slugs demo_trims)

lemma storage_keys_stay_apart_witness:
  "\<exists>w p a d. split_on (CHR ''/'') demo_key = [''artifacts'', w, p, a, d @ ''.tar'']"
proof -
  from storage_keys_stay_apart [OF demo_object_key] obtain w p a d where
    "split_on (CHR ''/'') demo_key = [''artifacts'', w, p, a, d @ ''.tar'']" by (elim conjE exE)
  then show ?thesis by (intro exI)
qed

lemma superseded_ingestion_is_fenced_witness:
  "\<exists>r0 r2. claim_artifact_row ''x'' 0 demo_artifact = Some r0 \<and> publish_artifact_row ''x'' (ba_generation r0) ''p'' demo_key ''i'' 9 r2 = None"
proof -
  have "claim_artifact_row ''x'' 0 demo_artifact \<noteq> None"
    by (simp only: claim_artifact_row_def when_row_def demo_artifact_def artifact_row.simps insertI1 simp_thms if_True option.distinct not_False_eq_True)
  then obtain r0 where r0: "claim_artifact_row ''x'' 0 demo_artifact = Some r0" unfolding not_None_eq by (elim exE)
  let ?r = "withdrawn AfAccepted None 5 r0"
  have run: "artifact_run r0 ?r" by (rule artifact_more [OF artifact_start accepts])
  have lost: "ba_owner ?r \<noteq> Some ''x'' \<or> ba_generation ?r \<noteq> ba_generation r0" by (simp add: withdrawn_def)
  have "publish_artifact_row ''x'' (ba_generation r0) ''p'' demo_key ''i'' 9 ?r = None"
    by (rule superseded_ingestion_is_fenced [OF r0 run lost artifact_start, THEN conjunct2, THEN conjunct1])
  with r0 show ?thesis by (intro exI conjI)
qed

definition demo_stored :: artifact_row where
  "demo_stored = demo_artifact\<lparr>ba_status := AfAvailable, ba_storageKind := Some ''object-store'', ba_storageRef := Some demo_key\<rparr>"

definition demo_operation :: operation_row where
  "demo_operation = \<lparr>op_id = ''o'', op_correlationId = [], op_environmentId = ''e'', op_buildArtifactId = Some ''a'', op_kind = ''promote'',
     op_status = OpRunning, op_phase = Queued, op_version = None, op_message = None, op_owner = None, op_generation = 0, op_leaseExpiresAt = None,
     op_targetIdSnapshot = None, op_targetName = [], op_providerSnapshot = Docker, op_createdAt = 0, op_finishedAt = None\<rparr>"

lemma retention_keeps_what_is_needed_witness:
  "demo_stored \<in> set (artifacts (fst (run_retention 1 (2 * 86400000) (\<lambda>d. d) (\<lambda>_. True)
     (empty_db\<lparr>artifacts := [demo_stored], operations := [demo_operation]\<rparr>) (\<lambda>_. Some ())))) \<and> stale_artifact 1 (2 * 86400000) demo_stored"
proof -
  let ?d = "empty_db\<lparr>artifacts := [demo_stored], operations := [demo_operation]\<rparr>"
  obtain d' os' n k where run: "run_retention 1 (2 * 86400000) (\<lambda>d. d) (\<lambda>_. True) ?d (\<lambda>_. Some ()) = (d', os', n, k)"
    using prod_cases4 by blast
  have need: "\<exists>q \<in> set (operations ?d). op_buildArtifactId q = Some (ba_id demo_stored) \<and> op_finishedAt q = None"
    by (simp add: demo_operation_def demo_stored_def demo_artifact_def)
  have "demo_stored \<in> set (artifacts d') \<and> (\<forall>key. ba_storageRef demo_stored = Some key \<longrightarrow> os' key = Some ())"
    by (rule retention_keeps_what_is_needed [OF run]) (use need in simp_all)
  moreover have "stale_artifact 1 (2 * 86400000) demo_stored"
    by (simp add: stale_artifact_def stored_object_def demo_stored_def demo_artifact_def)
  ultimately show ?thesis using run by simp
qed

lemma undisturbed_ingestion_publishes_or_cleans_up_witness:
  "\<exists>b. b \<in> set (artifacts (st_db (fst (run_with_ingestion_lease (\<lambda>_ _ _. answer (Inr ())) ((demo_run ''x'' 0)\<lparr>rn_download := Inl artifact_lease_lost\<rparr>)
     demo_ingestion (\<lambda>_. []) [] demo_store)))) \<and> ba_status b = AfFailed \<and> ba_storageRef b = None"
proof -
  let ?rn = "(demo_run ''x'' 0)\<lparr>rn_download := Inl artifact_lease_lost\<rparr>"
  obtain s' r where run: "run_with_ingestion_lease (\<lambda>_ _ _. answer (Inr ())) ?rn demo_ingestion (\<lambda>_. []) [] demo_store = (s', r)" by force
  have "undisturbed ?rn" by (simp add: undisturbed_def demo_run_def artifact_lease_ms_def)
  from undisturbed_ingestion_publishes_or_cleans_up [OF run this, of demo_artifact] show ?thesis
    using run by (auto simp: demo_artifact_defs provider_artifact_def keyed_def demo_run_def)
qed

text \<open>
  Replica \<open>x\<close> fails after its upload was refused, and checks its lease once more. Before it removes what it may have
  uploaded, the lease runs out, the sweep of replica \<open>y\<close> fails the artifact, and \<open>y\<close> ingests it again.
\<close>

definition takeover_by_y :: "nat \<Rightarrow> store \<Rightarrow> store" where
  "takeover_by_y n s = (if n \<noteq> 7 then s
     else (fst (run_with_ingestion_lease (\<lambda>_ _ _. answer (Inr ())) (demo_run ''y'' 100000) demo_ingestion (\<lambda>_. []) []
        (s\<lparr>st_db := recover_artifacts 100000 (st_db s)\<rparr>)))\<lparr>st_lease := st_lease s, st_exec := st_exec s, st_key := st_key s\<rparr>)"

lemmas ingest_steps = run_with_ingestion_lease_def run_artifact_def ingest_owned_def announce_def store_archive_def store_verified_def
  and_then_def answer_def others_def check_lease_def assert_artifact_def upload_def confirm_upload_def publish_def finish_ingestion_def
  ingest_failed_def remove_object_def record_failure_def claim_artifact_def provider_artifact_def name_of_def on_artifact_def update_row_def
  when_row_def claim_artifact_row_def renew_artifact_row_def publish_artifact_row_def fail_artifact_row_def release_artifact_row_def
  fenced_def withdrawn_def object_key_of_def project_by_id_def dev_deploys_locally_def environment_of_def
  show_verified_def set_last_commit_def rewrite_def short_sha_def assert_image_archive_identity_def scan_entry_def keep_first_def repo_tags_def

lemma late_cleanup_removes_a_published_archive:
  "let s = fst (run_with_ingestion_lease (\<lambda>_ _ _. answer (Inr ())) ((demo_run ''x'' 0)\<lparr>rn_put := Inl artifact_lease_lost, rn_mid := takeover_by_y\<rparr>)
       demo_ingestion (\<lambda>_. []) [] demo_store)
   in map ba_status (artifacts (st_db s)) = [AfAvailable] \<and> map ba_storageRef (artifacts (st_db s)) = [Some demo_key] \<and> st_objects s demo_key = None"
  by (simp add: ingest_steps takeover_by_y_def demo_run_def demo_artifact_defs demo_archive_def demo_object_key Let_def artifact_lease_ms_def
      recover_artifacts_def interrupted_def recover_artifact_def recover_artifact_row_def has_running_operation_def legacy_unowned_def)

end
