(* ===== verification/Secrets.thy ===== *)
theory Secrets
  imports Prelude
begin

text \<open>
  Secrets at rest (\<open>common/secret.ts\<close>) and their move to the current key (\<open>common/secret-reencryption.service.ts\<close>).

  \<open>cipher\<close> is AES-256-GCM with the keys derived from the configured secrets: \<open>seal\<close> encrypts under a key with a
  nonce, \<open>unseal\<close> opens what the key sealed and rejects everything else. The order of the row ids is that of the
  database, \<open>rank\<close>.
\<close>

section \<open>One secret\<close>

record cipher =
  seal :: "string \<Rightarrow> string \<Rightarrow> string \<Rightarrow> string"
  unseal :: "string \<Rightarrow> string \<Rightarrow> string option"

definition secret_prefix :: string where "secret_prefix = ''enc:v1:''"

definition is_sealed :: "string \<Rightarrow> bool" where
  "is_sealed s = starts_with secret_prefix s"

definition sealed_body :: "string \<Rightarrow> string" where
  "sealed_body s = drop (length secret_prefix) s"

text \<open>The current key comes first, the keys of a rotation after it.\<close>

definition encrypt_secret :: "cipher \<Rightarrow> string list \<Rightarrow> string \<Rightarrow> string \<Rightarrow> string" where
  "encrypt_secret cp ks iv p = secret_prefix @ seal cp (hd ks) iv p"

definition secret_decryption_error :: "string \<Rightarrow> http_error" where
  "secret_decryption_error what = ServerError (what @ '' cannot be decrypted with the configured INITPAD_ENCRYPTION_KEY'')"

fun first_opened :: "cipher \<Rightarrow> string list \<Rightarrow> string \<Rightarrow> string option" where
  "first_opened cp [] raw = None"
| "first_opened cp (k # ks) raw = (case unseal cp k raw of None \<Rightarrow> first_opened cp ks raw | Some p \<Rightarrow> Some p)"

definition decrypt_secret :: "cipher \<Rightarrow> string list \<Rightarrow> string \<Rightarrow> string \<Rightarrow> string outcome" where
  "decrypt_secret cp ks what s = (if \<not> is_sealed s then Inr s
     else (case first_opened cp ks (sealed_body s) of None \<Rightarrow> Inl (secret_decryption_error what) | Some p \<Rightarrow> Inr p))"

definition a_credential :: string where "a_credential = ''A stored credential''"

definition readable_secret :: "cipher \<Rightarrow> string list \<Rightarrow> string \<Rightarrow> string option" where
  "readable_secret cp ks s = (case decrypt_secret cp ks a_credential s of Inl _ \<Rightarrow> None | Inr p \<Rightarrow> Some p)"

definition reencrypted_secret :: "cipher \<Rightarrow> string list \<Rightarrow> string \<Rightarrow> string \<Rightarrow> string option outcome" where
  "reencrypted_secret cp ks iv s =
     (if s = [] then Inr None
      else if is_sealed s \<and> unseal cp (hd ks) (sealed_body s) \<noteq> None then Inr None
      else map_sum id (\<lambda>p. Some (encrypt_secret cp ks iv p)) (decrypt_secret cp ks a_credential s))"

section \<open>The columns\<close>

datatype encrypted_column = UserAccessToken | IdentityAccessToken | IdentityRefreshToken | OutboxPayload | TargetSecret | ConfigValue

definition columns :: "encrypted_column list" where
  "columns = [UserAccessToken, IdentityAccessToken, IdentityRefreshToken, OutboxPayload, TargetSecret, ConfigValue]"

text \<open>A row as the sweep sees it. \<open>sv_secret\<close> is the flag of an application variable, true in every other table.\<close>

record stored_value =
  sv_id :: string
  sv_value :: "string option"
  sv_secret :: bool

type_synonym secret_store = "encrypted_column \<Rightarrow> stored_value list"

definition batch_size :: nat where "batch_size = 100"

definition pending :: "stored_value \<Rightarrow> bool" where
  "pending r = (case sv_value r of None \<Rightarrow> False | Some s \<Rightarrow> \<not> is_sealed s)"

definition after_cursor :: "(string \<Rightarrow> nat) \<Rightarrow> string option \<Rightarrow> stored_value \<Rightarrow> bool" where
  "after_cursor rank cursor r = (truthy cursor \<longrightarrow> rank (the cursor) < rank (sv_id r))"

definition selected :: "(string \<Rightarrow> nat) \<Rightarrow> bool \<Rightarrow> encrypted_column \<Rightarrow> string option \<Rightarrow> stored_value \<Rightarrow> bool" where
  "selected rank pending_only c cursor r =
     (after_cursor rank cursor r \<and> (c = ConfigValue \<longrightarrow> sv_secret r) \<and> (pending_only \<longrightarrow> pending r))"

definition read_column :: "(string \<Rightarrow> nat) \<Rightarrow> bool \<Rightarrow> encrypted_column \<Rightarrow> string option \<Rightarrow> secret_store \<Rightarrow> stored_value list" where
  "read_column rank pending_only c cursor st =
     take batch_size (sort_key (\<lambda>r. rank (sv_id r)) (filter (selected rank pending_only c cursor) (st c)))"

text \<open>Compare and set: a value that changed since it was read is left alone.\<close>

definition unchanged :: "encrypted_column \<Rightarrow> string \<Rightarrow> string \<Rightarrow> stored_value \<Rightarrow> bool" where
  "unchanged c i previous r = (sv_id r = i \<and> sv_value r = Some previous \<and> (c = ConfigValue \<longrightarrow> sv_secret r))"

definition write_column :: "encrypted_column \<Rightarrow> string \<Rightarrow> string \<Rightarrow> string \<Rightarrow> secret_store \<Rightarrow> secret_store" where
  "write_column c i previous new st = st(c := rewrite (unchanged c i previous) (\<lambda>r. r\<lparr>sv_value := Some new\<rparr>) (st c))"

section \<open>The sweep\<close>

record reencryption =
  re_store :: secret_store
  re_reencrypted :: nat
  re_unreadable :: nat

text \<open>\<open>iv\<close> supplies the nonce of each encryption, \<open>mid\<close> what others commit before each write.\<close>

definition reencrypt_row ::
  "cipher \<Rightarrow> string list \<Rightarrow> (encrypted_column \<Rightarrow> string \<Rightarrow> string) \<Rightarrow> (string \<Rightarrow> secret_store \<Rightarrow> secret_store) \<Rightarrow> encrypted_column
     \<Rightarrow> stored_value \<Rightarrow> reencryption \<Rightarrow> reencryption" where
  "reencrypt_row cp ks iv mid c r x =
     (if \<not> truthy (sv_value r) then x
      else (case reencrypted_secret cp ks (iv c (sv_id r)) (the (sv_value r)) of
          Inl _ \<Rightarrow> x\<lparr>re_unreadable := re_unreadable x + 1\<rparr>
        | Inr None \<Rightarrow> x
        | Inr (Some new) \<Rightarrow> x\<lparr>re_store := write_column c (sv_id r) (the (sv_value r)) new (mid (sv_id r) (re_store x)),
            re_reencrypted := re_reencrypted x + 1\<rparr>))"

text \<open>The loop over the batches of a column; the fuel bounds the batches.\<close>

fun reencrypt_column ::
  "cipher \<Rightarrow> string list \<Rightarrow> (encrypted_column \<Rightarrow> string \<Rightarrow> string) \<Rightarrow> (string \<Rightarrow> secret_store \<Rightarrow> secret_store) \<Rightarrow> (string \<Rightarrow> nat)
     \<Rightarrow> encrypted_column \<Rightarrow> nat \<Rightarrow> string option \<Rightarrow> reencryption \<Rightarrow> reencryption option" where
  "reencrypt_column cp ks iv mid rank c 0 cursor x = None"
| "reencrypt_column cp ks iv mid rank c (Suc n) cursor x =
     (let rows = read_column rank (tl ks = []) c cursor (re_store x);
          x' = fold (reencrypt_row cp ks iv mid c) rows x
      in if length rows < batch_size then Some x'
         else reencrypt_column cp ks iv mid rank c n (Some (sv_id (last rows))) x')"

fun reencrypt_columns ::
  "cipher \<Rightarrow> string list \<Rightarrow> (encrypted_column \<Rightarrow> string \<Rightarrow> string) \<Rightarrow> (string \<Rightarrow> secret_store \<Rightarrow> secret_store) \<Rightarrow> (string \<Rightarrow> nat) \<Rightarrow> nat
     \<Rightarrow> encrypted_column list \<Rightarrow> reencryption \<Rightarrow> reencryption option" where
  "reencrypt_columns cp ks iv mid rank n [] x = Some x"
| "reencrypt_columns cp ks iv mid rank n (c # cs) x = (case reencrypt_column cp ks iv mid rank c n None x of
     None \<Rightarrow> None | Some x' \<Rightarrow> reencrypt_columns cp ks iv mid rank n cs x')"

definition reencrypt_stored_secrets ::
  "cipher \<Rightarrow> string list \<Rightarrow> (encrypted_column \<Rightarrow> string \<Rightarrow> string) \<Rightarrow> (string \<Rightarrow> secret_store \<Rightarrow> secret_store) \<Rightarrow> (string \<Rightarrow> nat) \<Rightarrow> nat
     \<Rightarrow> secret_store \<Rightarrow> reencryption option" where
  "reencrypt_stored_secrets cp ks iv mid rank n st =
     reencrypt_columns cp ks iv mid rank n columns \<lparr>re_store = st, re_reencrypted = 0, re_unreadable = 0\<rparr>"

text \<open>The log entry that tells an administrator to remove the previous keys.\<close>

definition rotation_complete :: "string list \<Rightarrow> reencryption \<Rightarrow> bool" where
  "rotation_complete ks x = (tl ks \<noteq> [] \<and> re_unreadable x = 0)"

end
