(* ===== verification/MailOutbox.thy ===== *)
theory MailOutbox
  imports Sessions Secrets
begin

text \<open>
  The mail outbox (\<open>mail/mail-delivery.service.ts\<close>): authentication mails are rows with an encrypted payload, claimed by
  the worker of one process under a lease of five minutes, and handed to the SMTP relay.

  \<open>post\<close> is what a sweep meets: the clock at its claims and at its ends, what others commit between finding a mail
  and claiming it, and the answers of the relay and of the database. The JSON printer and parser are parameters.
\<close>

section \<open>Rows\<close>

datatype mail_status = MsPending | MsSending | MsSent | MsFailed

record outbox_row =
  om_id :: string
  om_userId :: "string option"
  om_kind :: link_kind
  om_recipient :: string
  om_payload :: string
  om_status :: mail_status
  om_attempts :: nat
  om_availableAt :: instant
  om_lockedAt :: "instant option"
  om_lockOwner :: "string option"
  om_sentAt :: "instant option"
  om_lastError :: "string option"
  om_createdAt :: instant
  om_updatedAt :: instant

definition lease_timeout_ms :: int where "lease_timeout_ms = 5 * 60000"
definition max_attempts :: nat where "max_attempts = 8"
definition max_batch_size :: nat where "max_batch_size = 20"

definition auth_payload :: "mail_row \<Rightarrow> json" where
  "auth_payload m = JObj [(''displayName'', JStr (ml_displayName m)), (''url'', JStr (ml_url m))]"

definition enqueue_auth_mail ::
  "bool \<Rightarrow> cipher \<Rightarrow> string list \<Rightarrow> string \<Rightarrow> (json \<Rightarrow> string) \<Rightarrow> string \<Rightarrow> instant \<Rightarrow> mail_row \<Rightarrow> outbox_row list \<Rightarrow> outbox_row list \<times> unit outcome" where
  "enqueue_auth_mail enabled cp ks iv stringify i now m rows =
     (if \<not> enabled then (rows, Inl (ServerError ''E-mail delivery is not configured''))
      else (create \<lparr>om_id = i, om_userId = Some (ml_userId m), om_kind = ml_kind m, om_recipient = ml_recipient m,
          om_payload = encrypt_secret cp ks iv (stringify (auth_payload m)), om_status = MsPending, om_attempts = 0,
          om_availableAt = now, om_lockedAt = None, om_lockOwner = None, om_sentAt = None, om_lastError = None, om_createdAt = now,
          om_updatedAt = now\<rparr> rows,
        Inr ()))"

definition claimable :: "instant \<Rightarrow> outbox_row \<Rightarrow> bool" where
  "claimable now r = (om_status r = MsPending \<and> om_availableAt r \<le> now \<or>
     om_status r = MsSending \<and> (case om_lockedAt r of None \<Rightarrow> False | Some t \<Rightarrow> t \<le> now - lease_timeout_ms))"

definition claim_mail :: "string \<Rightarrow> instant \<Rightarrow> outbox_row \<Rightarrow> outbox_row option" where
  "claim_mail me now = when_row (claimable now)
     (\<lambda>r. r\<lparr>om_status := MsSending, om_lockedAt := Some now, om_lockOwner := Some me, om_attempts := om_attempts r + 1,
        om_updatedAt := now\<rparr>)"

text \<open>\<open>orderBy: [availableAt, createdAt]\<close>: the stable sorts run from the last key to the first.\<close>

definition next_mail :: "instant \<Rightarrow> outbox_row list \<Rightarrow> outbox_row option" where
  "next_mail now rows = find_first (claimable now) (sort_key om_availableAt (sort_key om_createdAt rows))"

definition claim_next ::
  "string \<Rightarrow> instant \<Rightarrow> (outbox_row list \<Rightarrow> outbox_row list) \<Rightarrow> outbox_row list \<Rightarrow> outbox_row list \<times> outbox_row option" where
  "claim_next me now mid rows = (case next_mail now rows of
      None \<Rightarrow> (rows, None)
    | Some m \<Rightarrow> update_row om_id (om_id m) (claim_mail me now) (mid rows))"

definition held_by :: "string \<Rightarrow> outbox_row \<Rightarrow> bool" where
  "held_by me r = (om_status r = MsSending \<and> om_lockOwner r = Some me)"

definition sent_mail :: "string \<Rightarrow> instant \<Rightarrow> outbox_row \<Rightarrow> outbox_row option" where
  "sent_mail me now = when_row (held_by me)
     (\<lambda>r. r\<lparr>om_status := MsSent, om_sentAt := Some now, om_payload := [], om_lockedAt := None, om_lockOwner := None, om_lastError := None,
        om_updatedAt := now\<rparr>)"

section \<open>Errors\<close>

text \<open>\<open>https?:\<close>, two slashes and at least one character that is no blank, in any case.\<close>

definition url_here :: "string \<Rightarrow> bool" where
  "url_here s = (let l = lower (take 8 s) in
     l = ''https://'' \<and> drop 8 s \<noteq> [] \<and> \<not> is_blank (hd (drop 8 s)) \<or>
     take 7 l = ''http://'' \<and> drop 7 s \<noteq> [] \<and> \<not> is_blank (hd (drop 7 s)))"

definition redacted_url :: string where "redacted_url = ''[redacted-url]''"

function redact_urls :: "string \<Rightarrow> string" where
  "redact_urls [] = []"
| "redact_urls (c # s) = (if url_here (c # s) then redacted_url @ redact_urls (dropWhile (\<lambda>c. \<not> is_blank c) s) else c # redact_urls s)"
  by pat_completeness auto
termination by (relation "measure length") (auto simp: le_imp_less_Suc length_dropWhile_le)

definition line_break :: "char \<Rightarrow> bool" where
  "line_break c = (c \<in> {CHR 0x0D, CHR 0x0A, CHR 0x00})"

fun one_line :: "bool \<Rightarrow> string \<Rightarrow> string" where
  "one_line open_run [] = []"
| "one_line open_run (c # s) = (if \<not> line_break c then c # one_line False s
     else if open_run then one_line True s else CHR '' '' # one_line True s)"

definition safe_error :: "string \<Rightarrow> string" where
  "safe_error m = take 500 (one_line False (redact_urls m))"

definition retry_delay_ms :: "nat \<Rightarrow> int" where
  "retry_delay_ms attempts = min (60 * 60000) (15000 * 2 ^ (attempts - 1))"

text \<open>\<open>m\<close> is the mail as it was claimed; its payload is written back with a retry.\<close>

definition unsent_mail :: "string \<Rightarrow> instant \<Rightarrow> outbox_row \<Rightarrow> string \<Rightarrow> outbox_row \<Rightarrow> outbox_row option" where
  "unsent_mail me now m e = (let terminal = max_attempts \<le> om_attempts m in when_row (held_by me)
     (\<lambda>r. r\<lparr>om_status := (if terminal then MsFailed else MsPending),
        om_availableAt := (if terminal then om_availableAt m else now + retry_delay_ms (om_attempts m)),
        om_payload := (if terminal then [] else om_payload m), om_lockedAt := None, om_lockOwner := None,
        om_lastError := Some (safe_error e), om_updatedAt := now\<rparr>))"

section \<open>Contents\<close>

record mail_payload =
  mp_displayName :: "string option"
  mp_url :: string

fun http_url :: "string \<Rightarrow> bool" where
  "http_url s = (starts_with ''http://'' s \<or> starts_with ''https://'' s)"

fun json_text :: "json option \<Rightarrow> string option" where
  "json_text (Some (JStr s)) = Some s"
| "json_text _ = None"

fun error_text :: "http_error \<Rightarrow> string" where
  "error_text (BadRequest m) = m"
| "error_text (Unauthorized m) = m"
| "error_text (Forbidden m) = m"
| "error_text (NotFound m) = m"
| "error_text (Conflict m) = m"
| "error_text (TooManyRequests m) = m"
| "error_text (ServerError m) = m"

text \<open>Reading fails with the message of the error it throws.\<close>

definition read_payload :: "cipher \<Rightarrow> string list \<Rightarrow> (string \<Rightarrow> string + json) \<Rightarrow> string \<Rightarrow> string + mail_payload" where
  "read_payload cp ks parse stored = (case decrypt_secret cp ks ''The queued e-mail'' stored of
      Inl e \<Rightarrow> Inl (error_text e)
    | Inr text \<Rightarrow> if text = [] then Inl ''Outbox payload cannot be decrypted''
        else (case parse text of
            Inl m \<Rightarrow> Inl m
          | Inr j \<Rightarrow> if j = JNull then Inl ''Cannot read properties of null (reading url)''
              else (case json_text (json_get j ''url'') of
                  None \<Rightarrow> Inl ''Outbox payload is invalid''
                | Some u \<Rightarrow> if \<not> http_url u then Inl ''Outbox payload is invalid''
                    else Inr \<lparr>mp_displayName = json_text (json_get j ''displayName''), mp_url = u\<rparr>)))"

definition escape_char :: "char \<Rightarrow> string" where
  "escape_char c = (if c = CHR ''&'' then ''&amp;'' else if c = CHR ''<'' then ''&lt;'' else if c = CHR ''>'' then ''&gt;''
     else if c = CHR 0x22 then ''&quot;'' else if c = CHR 0x27 then ''&#39;'' else [c])"

definition escape_html :: "string \<Rightarrow> string" where
  "escape_html s = concat (map escape_char s)"

fun mail_heading :: "link_kind \<Rightarrow> string" where
  "mail_heading EmailVerify = ''Verify your InitPad e-mail''"
| "mail_heading PasswordReset = ''Reset your InitPad password''"
| "mail_heading Activation = ''Activate your InitPad account''"

fun mail_action :: "link_kind \<Rightarrow> string" where
  "mail_action EmailVerify = ''Verify e-mail''"
| "mail_action PasswordReset = ''Reset password''"
| "mail_action Activation = ''Activate account''"

definition greeting :: "mail_payload \<Rightarrow> string" where
  "greeting p = (if truthy (mp_displayName p) then ''Hello '' @ the (mp_displayName p) @ '','' else ''Hello,'')"

record outgoing =
  og_from :: string
  og_to :: string
  og_subject :: string
  og_text :: string
  og_html :: string
  og_messageId :: string

definition newlines :: "nat \<Rightarrow> string" where
  "newlines n = replicate n (CHR 0x0A)"

definition mail_text :: "link_kind \<Rightarrow> mail_payload \<Rightarrow> string" where
  "mail_text k p = greeting p @ newlines 2 @ mail_heading k @ ''. Open this single-use link:'' @ newlines 1 @ mp_url p @ newlines 2 @
     ''If you did not request this, you can ignore this message.''"

definition mail_html :: "link_kind \<Rightarrow> mail_payload \<Rightarrow> string" where
  "mail_html k p = ''<p>'' @ escape_html (greeting p) @ ''</p><p>'' @ escape_html (mail_heading k) @ ''.</p>'' @
     ''<p><a href='' @ [CHR 0x22] @ escape_html (mp_url p) @ [CHR 0x22] @ ''>'' @ escape_html (mail_action k) @ ''</a></p>'' @
     ''<p>If you did not request this, you can ignore this message.</p>''"

definition outgoing_mail :: "string \<Rightarrow> string \<Rightarrow> outbox_row \<Rightarrow> mail_payload \<Rightarrow> outgoing" where
  "outgoing_mail from host m p = \<lparr>og_from = from, og_to = om_recipient m, og_subject = mail_heading (om_kind m),
     og_text = mail_text (om_kind m) p, og_html = mail_html (om_kind m) p, og_messageId = ''<'' @ om_id m @ ''@'' @ host @ ''>''\<rparr>"

section \<open>Delivery\<close>

record post =
  po_me :: string
  po_from :: string
  po_host :: string
  po_cipher :: cipher
  po_keys :: "string list"
  po_parse :: "string \<Rightarrow> string + json"
  po_now :: "nat \<Rightarrow> instant"
  po_end :: "nat \<Rightarrow> instant"
  po_mid :: "nat \<Rightarrow> outbox_row list \<Rightarrow> outbox_row list"
  po_smtp :: "outgoing \<Rightarrow> string option"
  po_ack :: "nat \<Rightarrow> string option"

text \<open>
  The outbox and what the relay has accepted so far. \<open>po_smtp\<close> and \<open>po_ack\<close> give the error of a refused mail and of a
  failing acknowledgement; \<open>n\<close> counts the mails of the sweep.
\<close>

definition deliver :: "post \<Rightarrow> nat \<Rightarrow> outbox_row \<Rightarrow> outbox_row list \<times> outgoing list \<Rightarrow> outbox_row list \<times> outgoing list" where
  "deliver po n m x = (let give_up = (\<lambda>e (rows, out). (fst (update_row om_id (om_id m) (unsent_mail (po_me po) (po_end po n) m e) rows), out)) in
     case read_payload (po_cipher po) (po_keys po) (po_parse po) (om_payload m) of
       Inl e \<Rightarrow> give_up e x
     | Inr p \<Rightarrow> (let g = outgoing_mail (po_from po) (po_host po) m p in case po_smtp po g of
           Some e \<Rightarrow> give_up e x
         | None \<Rightarrow> (let x' = (fst x, snd x @ [g]) in case po_ack po n of
               Some e \<Rightarrow> give_up e x'
             | None \<Rightarrow> (fst (update_row om_id (om_id m) (sent_mail (po_me po) (po_end po n)) (fst x')), snd x'))))"

fun drain :: "post \<Rightarrow> nat \<Rightarrow> nat \<Rightarrow> outbox_row list \<times> outgoing list \<Rightarrow> outbox_row list \<times> outgoing list" where
  "drain po n 0 x = x"
| "drain po n (Suc left) (rows, out) = (case claim_next (po_me po) (po_now po n) (po_mid po n) rows of
      (rows', None) \<Rightarrow> (rows', out)
    | (rows', Some m) \<Rightarrow> drain po (n + 1) left (deliver po n m (rows', out)))"

text \<open>A process runs one sweep at a time.\<close>

definition run_sweep :: "bool \<Rightarrow> bool \<Rightarrow> post \<Rightarrow> outbox_row list \<times> outgoing list \<Rightarrow> outbox_row list \<times> outgoing list" where
  "run_sweep enabled active po x = (if \<not> enabled \<or> active then x else drain po 0 max_batch_size x)"

end
