(* ===== verification/SecretProofs.thy ===== *)
theory SecretProofs
  imports Secrets
begin

text \<open>
  The paged sweep equals one pass over every table, and what follows of that for a rotation of keys: every secret
  is readable with the new key alone and reads as before.
\<close>

section \<open>One pass\<close>

text \<open>What becomes of one row, and the rows no key opens.\<close>

definition moved_row :: "cipher \<Rightarrow> string list \<Rightarrow> (string \<Rightarrow> string) \<Rightarrow> stored_value \<Rightarrow> stored_value" where
  "moved_row cp ks iv r = (if \<not> truthy (sv_value r) then r
     else (case reencrypted_secret cp ks (iv (sv_id r)) (the (sv_value r)) of Inr (Some new) \<Rightarrow> r\<lparr>sv_value := Some new\<rparr> | _ \<Rightarrow> r))"

definition unreadable :: "cipher \<Rightarrow> string list \<Rightarrow> stored_value \<Rightarrow> bool" where
  "unreadable cp ks r = (truthy (sv_value r) \<and> readable_secret cp ks (the (sv_value r)) = None)"

definition needs_key :: "cipher \<Rightarrow> string list \<Rightarrow> stored_value \<Rightarrow> bool" where
  "needs_key cp ks r = (truthy (sv_value r) \<and> readable_secret cp ks (the (sv_value r)) \<noteq> None \<and>
     \<not> (is_sealed (the (sv_value r)) \<and> unseal cp (hd ks) (sealed_body (the (sv_value r))) \<noteq> None))"

abbreviation ranked :: "(string \<Rightarrow> nat) \<Rightarrow> stored_value \<Rightarrow> nat" where
  "ranked rank r \<equiv> rank (sv_id r)"

abbreviation quiet :: "string \<Rightarrow> secret_store \<Rightarrow> secret_store" where
  "quiet \<equiv> \<lambda>_ s. s"

lemma moved_row_id [simp]: "sv_id (moved_row cp ks iv r) = sv_id r" "sv_secret (moved_row cp ks iv r) = sv_secret r"
  by (simp_all add: moved_row_def split: sum.splits option.splits)

lemma present_iff: "truthy v \<longleftrightarrow> (\<exists>s. v = Some s \<and> s \<noteq> [])"
  by (cases v) auto

lemma first_opened_hd: "ks \<noteq> [] \<Longrightarrow> unseal cp (hd ks) raw = Some p \<Longrightarrow> first_opened cp ks raw = Some p"
  by (cases ks) auto

lemma reencrypted_cases:
  assumes "truthy (sv_value r)" and "ks \<noteq> []"
  shows "(case reencrypted_secret cp ks iv (the (sv_value r)) of Inl e \<Rightarrow> unreadable cp ks r
    | Inr None \<Rightarrow> \<not> unreadable cp ks r \<and> \<not> needs_key cp ks r | Inr (Some n) \<Rightarrow> \<not> unreadable cp ks r \<and> needs_key cp ks r)"
proof -
  obtain s where s: "sv_value r = Some s" "s \<noteq> []" using assms(1) by (auto simp: present_iff)
  show ?thesis
  proof (cases "is_sealed s \<and> unseal cp (hd ks) (sealed_body s) \<noteq> None")
    case True
    then obtain p where "unseal cp (hd ks) (sealed_body s) = Some p" by blast
    with True first_opened_hd [OF assms(2)] have "readable_secret cp ks s = Some p"
      by (simp add: readable_secret_def decrypt_secret_def)
    with True s show ?thesis by (simp add: reencrypted_secret_def unreadable_def needs_key_def)
  next
    case False
    with s show ?thesis
      by (cases "decrypt_secret cp ks a_credential s")
        (auto simp: reencrypted_secret_def unreadable_def needs_key_def readable_secret_def)
  qed
qed

text \<open>One row of a batch, when the table still has it.\<close>

definition replaced :: "cipher \<Rightarrow> string list \<Rightarrow> (string \<Rightarrow> string) \<Rightarrow> string set \<Rightarrow> stored_value list \<Rightarrow> stored_value list" where
  "replaced cp ks iv is t = map (\<lambda>q. if sv_id q \<in> is then moved_row cp ks iv q else q) t"

lemma replaced_ids [simp]: "map sv_id (replaced cp ks iv is t) = map sv_id t"
  by (simp add: replaced_def)

lemma replaced_none [simp]: "replaced cp ks iv {} t = t"
  by (simp add: replaced_def)

lemma reencrypt_row_quiet:
  assumes "r \<in> set (re_store x c)" and "keyed sv_id (re_store x c)" and "c = ConfigValue \<longrightarrow> sv_secret r" and "ks \<noteq> []"
  shows "reencrypt_row cp ks iv quiet c r x = \<lparr>re_store = (re_store x)(c := replaced cp ks (iv c) {sv_id r} (re_store x c)),
    re_reencrypted = re_reencrypted x + (if needs_key cp ks r then 1 else 0),
    re_unreadable = re_unreadable x + (if unreadable cp ks r then 1 else 0)\<rparr>"
proof -
  have own: "q = r" if "q \<in> set (re_store x c)" "sv_id q = sv_id r" for q
    using keyed_unique [OF assms(2)] that assms(1) by blast
  have same: "replaced cp ks (iv c) {sv_id r} (re_store x c) = re_store x c" if "moved_row cp ks (iv c) r = r"
    unfolding replaced_def using own that by (intro map_idI) auto
  show ?thesis
  proof (cases "truthy (sv_value r)")
    case False
    then have "moved_row cp ks (iv c) r = r" "\<not> needs_key cp ks r" "\<not> unreadable cp ks r"
      by (simp_all add: moved_row_def needs_key_def unreadable_def)
    with False same show ?thesis by (simp add: reencrypt_row_def)
  next
    case True
    note cs = reencrypted_cases [OF True assms(4), of cp "iv c (sv_id r)"]
    show ?thesis
    proof (cases "reencrypted_secret cp ks (iv c (sv_id r)) (the (sv_value r))")
      case (Inl e)
      moreover from this True have "moved_row cp ks (iv c) r = r" by (simp add: moved_row_def)
      ultimately show ?thesis using cs True same by (simp add: reencrypt_row_def needs_key_def unreadable_def)
    next
      case (Inr n)
      show ?thesis
      proof (cases n)
        case None
        with Inr True have "moved_row cp ks (iv c) r = r" by (simp add: moved_row_def)
        with Inr None cs True same show ?thesis by (simp add: reencrypt_row_def)
      next
        case (Some new)
        with Inr True have moved: "moved_row cp ks (iv c) r = r\<lparr>sv_value := Some new\<rparr>" by (simp add: moved_row_def)
        have "rewrite (unchanged c (sv_id r) (the (sv_value r))) (\<lambda>q. q\<lparr>sv_value := Some new\<rparr>) (re_store x c) =
            replaced cp ks (iv c) {sv_id r} (re_store x c)"
          unfolding rewrite_def replaced_def
        proof (rule map_cong [OF refl])
          fix q assume q: "q \<in> set (re_store x c)"
          show "(if unchanged c (sv_id r) (the (sv_value r)) q then q\<lparr>sv_value := Some new\<rparr> else q) =
              (if sv_id q \<in> {sv_id r} then moved_row cp ks (iv c) q else q)"
          proof (cases "sv_id q = sv_id r")
            case True
            with own q have "q = r" by blast
            moreover from \<open>truthy (sv_value r)\<close> obtain s where "sv_value r = Some s" by (auto simp: present_iff)
            ultimately show ?thesis using moved assms(3) by (simp add: unchanged_def)
          qed (simp add: unchanged_def)
        qed
        with Inr Some cs True show ?thesis by (simp add: reencrypt_row_def write_column_def)
      qed
    qed
  qed
qed

lemma replaced_twice:
  assumes "i \<notin> is"
  shows "replaced cp ks iv is (replaced cp ks iv {i} t) = replaced cp ks iv (insert i is) t"
  unfolding replaced_def using assms by (auto simp: comp_def)

lemma keyed_replaced [simp]: "keyed sv_id (replaced cp ks iv is t) \<longleftrightarrow> keyed sv_id t"
  by (simp add: keyed_def)

lemma batch_quiet:
  assumes "set rows \<subseteq> set (re_store x c)" and "keyed sv_id (re_store x c)" and "\<forall>r \<in> set rows. c = ConfigValue \<longrightarrow> sv_secret r"
    and "ks \<noteq> []" and "distinct (map sv_id rows)"
  shows "fold (reencrypt_row cp ks iv quiet c) rows x = \<lparr>re_store = (re_store x)(c := replaced cp ks (iv c) (sv_id ` set rows) (re_store x c)),
    re_reencrypted = re_reencrypted x + count_where (needs_key cp ks) rows,
    re_unreadable = re_unreadable x + count_where (unreadable cp ks) rows\<rparr>"
  using assms
proof (induction rows arbitrary: x)
  case Nil
  then show ?case by simp
next
  case (Cons r rows)
  let ?x = "reencrypt_row cp ks iv quiet c r x"
  have one: "?x = \<lparr>re_store = (re_store x)(c := replaced cp ks (iv c) {sv_id r} (re_store x c)),
    re_reencrypted = re_reencrypted x + (if needs_key cp ks r then 1 else 0),
    re_unreadable = re_unreadable x + (if unreadable cp ks r then 1 else 0)\<rparr>"
    using Cons.prems by (intro reencrypt_row_quiet) auto
  have "set rows \<subseteq> set (re_store ?x c)"
  proof
    fix q assume q: "q \<in> set rows"
    with Cons.prems have "sv_id q \<noteq> sv_id r" "q \<in> set (re_store x c)" by (auto simp: rev_image_eqI)
    then show "q \<in> set (re_store ?x c)" unfolding one by (auto simp: replaced_def intro: rev_image_eqI)
  qed
  then have "fold (reencrypt_row cp ks iv quiet c) rows ?x = \<lparr>re_store = (re_store ?x)(c := replaced cp ks (iv c) (sv_id ` set rows) (re_store ?x c)),
    re_reencrypted = re_reencrypted ?x + count_where (needs_key cp ks) rows,
    re_unreadable = re_unreadable ?x + count_where (unreadable cp ks) rows\<rparr>"
    using Cons.prems by (intro Cons.IH) (auto simp: one)
  then show ?case using Cons.prems(5) by (simp add: one replaced_twice fun_eq_iff)
qed

section \<open>A column\<close>

definition column_rows :: "(string \<Rightarrow> nat) \<Rightarrow> bool \<Rightarrow> encrypted_column \<Rightarrow> string option \<Rightarrow> stored_value list \<Rightarrow> stored_value list" where
  "column_rows rank po c cursor t = sort_key (ranked rank) (filter (selected rank po c cursor) t)"

lemma set_column_rows: "set (column_rows rank po c cursor t) = {q \<in> set t. selected rank po c cursor q}"
  by (auto simp: column_rows_def)

text \<open>Ids are unique and not empty, and the database orders them.\<close>

definition orderly :: "(string \<Rightarrow> nat) \<Rightarrow> stored_value list \<Rightarrow> bool" where
  "orderly rank t = (distinct (map (ranked rank) t) \<and> list_all (\<lambda>r. sv_id r \<noteq> []) t)"

lemma orderly_keyed: "orderly rank t \<Longrightarrow> keyed sv_id t"
proof -
  have "map (ranked rank) t = map rank (map sv_id t)" by simp
  then show "orderly rank t \<Longrightarrow> keyed sv_id t"
    unfolding orderly_def keyed_def using distinct_map by metis
qed

lemma orderly_replaced: "orderly rank t \<Longrightarrow> orderly rank (replaced cp ks iv is t)"
  by (auto simp: orderly_def replaced_def comp_def if_distrib list_all_iff cong: if_cong)

lemma column_rows_split:
  assumes "orderly rank t" and "\<not> length (column_rows rank po c cursor t) < Suc b"
  defines "rows \<equiv> take (Suc b) (column_rows rank po c cursor t)"
  shows "column_rows rank po c (Some (sv_id (last rows))) (replaced cp ks iv (sv_id ` set rows) t) = drop (Suc b) (column_rows rank po c cursor t)"
    and "\<And>q. q \<in> set t \<Longrightarrow> selected rank po c cursor q \<longleftrightarrow> sv_id q \<in> sv_id ` set rows \<or> selected rank po c (Some (sv_id (last rows))) q"
proof -
  let ?S = "column_rows rank po c cursor t"
  let ?l = "last rows"
  let ?sel = "selected rank po c (Some (sv_id ?l))"
  have ne: "rows \<noteq> []" using assms(2) by (auto simp: rows_def)
  have S: "?S = rows @ drop (Suc b) ?S" by (simp add: rows_def)
  have sorted: "sorted (map (ranked rank) ?S)" by (simp add: column_rows_def)
  have "distinct (map (ranked rank) (filter (selected rank po c cursor) t))" using assms(1) by (simp add: orderly_def distinct_map_filter)
  then have dist: "distinct (map (ranked rank) ?S)" by (simp add: column_rows_def distinct_map distinct_sort)
  have lin: "?l \<in> set rows" using ne by simp
  have lS: "?l \<in> set ?S" using lin by (subst S) simp
  have lsel: "selected rank po c cursor ?l" "?l \<in> set t" using lS by (simp_all add: set_column_rows)
  have lid: "sv_id ?l \<noteq> []" using lsel(2) assms(1) by (simp add: orderly_def list_all_iff)
  have low: "ranked rank q \<le> ranked rank ?l" if "q \<in> set rows" for q
  proof -
    have "sorted (map (ranked rank) rows)" using sorted by (subst (asm) S) (simp add: sorted_append)
    moreover have "rows = butlast rows @ [?l]" using ne by simp
    ultimately have "sorted (map (ranked rank) (butlast rows @ [?l]))" by metis
    moreover have "q \<in> set (butlast rows) \<or> q = ?l" using that ne by (metis append_butlast_last_id in_set_butlastD rotate1.simps(2) set_ConsD set_rotate1)
    ultimately show ?thesis by (auto simp: sorted_append)
  qed
  have high: "ranked rank ?l < ranked rank q" if "q \<in> set (drop (Suc b) ?S)" for q
  proof -
    have "sorted (map (ranked rank) (rows @ drop (Suc b) ?S))" "distinct (map (ranked rank) (rows @ drop (Suc b) ?S))"
      using sorted dist S by metis+
    then have "ranked rank ?l \<le> ranked rank q" "ranked rank ?l \<noteq> ranked rank q"
      using that lin by (auto simp: sorted_append)
    then show ?thesis by simp
  qed
  have up: "selected rank po c cursor q" if "?sel q" for q
    using that lsel(1) lid by (auto simp: selected_def after_cursor_def)
  have down: "?sel q \<longleftrightarrow> ranked rank ?l < ranked rank q" if "selected rank po c cursor q" for q
    using that lid by (auto simp: selected_def after_cursor_def)
  have ids: "sv_id q \<notin> sv_id ` set rows" if "ranked rank ?l < ranked rank q" for q
    using low that by (force simp: image_iff)
  have mid: "?sel (moved_row cp ks iv q) = False" if "sv_id q \<in> sv_id ` set rows" for q
    using ids that lid by (auto simp: selected_def after_cursor_def)
  have "filter ?sel (replaced cp ks iv (sv_id ` set rows) t) = filter ?sel t"
  proof -
    have "filter ?sel (replaced cp ks iv (sv_id ` set rows) u) = filter ?sel u" for u
    proof (induction u)
      case (Cons q u)
      have "\<not> ?sel q" if "sv_id q \<in> sv_id ` set rows"
        using ids that lid by (auto simp: selected_def after_cursor_def)
      then show ?case using Cons mid by (auto simp: replaced_def)
    qed (simp add: replaced_def)
    then show ?thesis .
  qed
  also have "filter ?sel t = filter (\<lambda>q. ranked rank ?l < ranked rank q) (filter (selected rank po c cursor) t)"
    unfolding filter_filter by (rule filter_cong [OF refl]) (use up down in blast)
  finally have "column_rows rank po c (Some (sv_id ?l)) (replaced cp ks iv (sv_id ` set rows) t) =
      filter (\<lambda>q. ranked rank ?l < ranked rank q) ?S"
    by (simp add: column_rows_def filter_sort)
  also have "\<dots> = filter (\<lambda>q. ranked rank ?l < ranked rank q) rows @ filter (\<lambda>q. ranked rank ?l < ranked rank q) (drop (Suc b) ?S)"
    by (subst S) (rule filter_append)
  also have "filter (\<lambda>q. ranked rank ?l < ranked rank q) rows = []"
    using low by (auto simp: filter_empty_conv not_less)
  also have "filter (\<lambda>q. ranked rank ?l < ranked rank q) (drop (Suc b) ?S) = drop (Suc b) ?S"
    using high by (simp add: filter_id_conv)
  finally show "column_rows rank po c (Some (sv_id ?l)) (replaced cp ks iv (sv_id ` set rows) t) = drop (Suc b) ?S" by simp
  show "selected rank po c cursor q \<longleftrightarrow> sv_id q \<in> sv_id ` set rows \<or> ?sel q" if "q \<in> set t" for q
  proof
    assume "selected rank po c cursor q"
    with that have "q \<in> set (rows @ drop (Suc b) ?S)" using S set_column_rows by (metis (mono_tags, lifting) mem_Collect_eq)
    then show "sv_id q \<in> sv_id ` set rows \<or> ?sel q"
      using high down \<open>selected rank po c cursor q\<close> by auto
  next
    assume "sv_id q \<in> sv_id ` set rows \<or> ?sel q"
    moreover have "selected rank po c cursor q" if "sv_id q \<in> sv_id ` set rows"
    proof -
      from that obtain r where r: "r \<in> set rows" "sv_id q = sv_id r" by auto
      then have "r \<in> set ?S" by (subst S) simp
      then have "r \<in> set t" "selected rank po c cursor r" by (simp_all add: set_column_rows)
      with r keyed_unique [OF orderly_keyed [OF assms(1)]] \<open>q \<in> set t\<close> show ?thesis by metis
    qed
    ultimately show "selected rank po c cursor q" using up by blast
  qed
qed

definition one_pass :: "cipher \<Rightarrow> string list \<Rightarrow> (string \<Rightarrow> string) \<Rightarrow> (stored_value \<Rightarrow> bool) \<Rightarrow> stored_value list \<Rightarrow> stored_value list" where
  "one_pass cp ks iv p t = map (\<lambda>q. if p q then moved_row cp ks iv q else q) t"

lemma one_pass_replaced:
  assumes "\<And>q. q \<in> set t \<Longrightarrow> p q \<longleftrightarrow> sv_id q \<in> is \<or> p' q" and "\<And>q. q \<in> set t \<Longrightarrow> sv_id q \<in> is \<Longrightarrow> \<not> p' (moved_row cp ks iv q)"
  shows "one_pass cp ks iv p' (replaced cp ks iv is t) = one_pass cp ks iv p t"
  unfolding one_pass_def replaced_def map_map by (rule map_cong [OF refl]) (use assms in auto)

lemma reencrypt_column_quiet:
  assumes "orderly rank (re_store x c)" and "ks \<noteq> []" and "length (column_rows rank (tl ks = []) c cursor (re_store x c)) < batch_size * n"
  shows "reencrypt_column cp ks iv quiet rank c n cursor x =
    Some \<lparr>re_store = (re_store x)(c := one_pass cp ks (iv c) (selected rank (tl ks = []) c cursor) (re_store x c)),
      re_reencrypted = re_reencrypted x + count_where (needs_key cp ks) (column_rows rank (tl ks = []) c cursor (re_store x c)),
      re_unreadable = re_unreadable x + count_where (unreadable cp ks) (column_rows rank (tl ks = []) c cursor (re_store x c))\<rparr>"
  using assms
proof (induction n arbitrary: x cursor)
  case 0
  then show ?case by simp
next
  case (Suc n)
  let ?t = "re_store x c" and ?po = "tl ks = []"
  let ?S = "column_rows rank ?po c cursor ?t"
  let ?rows = "take batch_size ?S"
  let ?x = "fold (reencrypt_row cp ks iv quiet c) ?rows x"
  have read: "read_column rank ?po c cursor (re_store x) = ?rows" by (simp add: read_column_def column_rows_def)
  have sub: "set ?rows \<subseteq> {q \<in> set ?t. selected rank ?po c cursor q}"
    using set_take_subset [of batch_size ?S] by (simp add: set_column_rows)
  have "distinct (map sv_id ?S)"
    using orderly_keyed [OF Suc.prems(1)] by (simp add: keyed_def column_rows_def distinct_map inj_on_def distinct_sort)
  then have dist: "distinct (map sv_id ?rows)" by (metis distinct_take take_map)
  have batch: "?x = \<lparr>re_store = (re_store x)(c := replaced cp ks (iv c) (sv_id ` set ?rows) ?t),
    re_reencrypted = re_reencrypted x + count_where (needs_key cp ks) ?rows,
    re_unreadable = re_unreadable x + count_where (unreadable cp ks) ?rows\<rparr>"
    by (rule batch_quiet [OF _ orderly_keyed [OF Suc.prems(1)] _ Suc.prems(2) dist]) (use sub in \<open>auto simp: selected_def\<close>)
  show ?case
  proof (cases "length ?S < batch_size")
    case True
    then have all: "?rows = ?S" by simp
    have "replaced cp ks (iv c) (sv_id ` set ?S) ?t = one_pass cp ks (iv c) (selected rank ?po c cursor) ?t"
      unfolding replaced_def one_pass_def
      by (rule map_cong [OF refl]) (use keyed_unique [OF orderly_keyed [OF Suc.prems(1)]] in \<open>force simp: set_column_rows\<close>)
    with True batch show ?thesis by (simp add: read all Let_def fun_eq_iff)
  next
    case False
    then obtain b where b: "batch_size = Suc b" by (simp add: batch_size_def)
    let ?l = "sv_id (last ?rows)"
    have full: "\<not> length ?S < Suc b" using False b by simp
    note split1 = column_rows_split(1) [OF Suc.prems(1) full, folded b, of cp ks "iv c"]
      and split2 = column_rows_split(2) [OF Suc.prems(1) full, folded b]
    have rest: "column_rows rank ?po c (Some ?l) (re_store ?x c) = drop batch_size ?S" using split1 by (simp add: batch)
    have "one_pass cp ks (iv c) (selected rank ?po c (Some ?l)) (replaced cp ks (iv c) (sv_id ` set ?rows) ?t) =
        one_pass cp ks (iv c) (selected rank ?po c cursor) ?t"
    proof (rule one_pass_replaced [OF split2])
      fix q assume q: "q \<in> set ?t" "sv_id q \<in> sv_id ` set ?rows"
      show "\<not> selected rank ?po c (Some ?l) (moved_row cp ks (iv c) q)"
      proof
        assume "selected rank ?po c (Some ?l) (moved_row cp ks (iv c) q)"
        with q have "moved_row cp ks (iv c) q \<in> set (column_rows rank ?po c (Some ?l) (replaced cp ks (iv c) (sv_id ` set ?rows) ?t))"
          by (auto simp: set_column_rows replaced_def intro: rev_image_eqI)
        then have "sv_id (moved_row cp ks (iv c) q) \<in> sv_id ` set (drop batch_size ?S)" unfolding split1 by (rule imageI)
        then have later: "sv_id q \<in> set (drop batch_size (map sv_id ?S))" by (simp add: drop_map)
        have "sv_id q \<in> set (take batch_size (map sv_id ?S))" using q(2) by (simp add: take_map)
        with later \<open>distinct (map sv_id ?S)\<close> show False by (metis IntI append_take_drop_id distinct_append empty_iff)
      qed
    qed
    moreover have "reencrypt_column cp ks iv quiet rank c n (Some ?l) ?x =
        Some \<lparr>re_store = (re_store ?x)(c := one_pass cp ks (iv c) (selected rank ?po c (Some ?l)) (re_store ?x c)),
          re_reencrypted = re_reencrypted ?x + count_where (needs_key cp ks) (drop batch_size ?S),
          re_unreadable = re_unreadable ?x + count_where (unreadable cp ks) (drop batch_size ?S)\<rparr>"
      unfolding rest [symmetric]
    proof (rule Suc.IH [OF _ Suc.prems(2)])
      show "orderly rank (re_store ?x c)" using orderly_replaced [OF Suc.prems(1)] by (simp add: batch)
      show "length (column_rows rank ?po c (Some ?l) (re_store ?x c)) < batch_size * n"
        unfolding rest using Suc.prems(3) False by simp
    qed
    moreover have "count_where p ?rows + count_where p (drop batch_size ?S) = count_where p ?S" for p :: "stored_value \<Rightarrow> bool"
      by (metis append_take_drop_id count_where_append)
    ultimately show ?thesis
      using False by (simp add: read batch fun_eq_iff add.assoc)
  qed
qed

section \<open>All columns\<close>

text \<open>The sweep as one pass over every table: \<open>swept\<close> is what becomes of a table.\<close>

definition swept :: "cipher \<Rightarrow> string list \<Rightarrow> (encrypted_column \<Rightarrow> string \<Rightarrow> string) \<Rightarrow> secret_store \<Rightarrow> secret_store" where
  "swept cp ks iv st c = one_pass cp ks (iv c) (\<lambda>q. (c = ConfigValue \<longrightarrow> sv_secret q) \<and> (tl ks = [] \<longrightarrow> pending q)) (st c)"

definition swept_rows :: "string list \<Rightarrow> encrypted_column \<Rightarrow> secret_store \<Rightarrow> stored_value list" where
  "swept_rows ks c st = filter (\<lambda>q. (c = ConfigValue \<longrightarrow> sv_secret q) \<and> (tl ks = [] \<longrightarrow> pending q)) (st c)"

lemma count_column_rows: "count_where p (column_rows rank po c cursor t) = count_where p (filter (selected rank po c cursor) t)"
  unfolding count_where_def column_rows_def by (simp add: filter_sort)

lemma selected_all: "selected rank po c None = (\<lambda>q. (c = ConfigValue \<longrightarrow> sv_secret q) \<and> (po \<longrightarrow> pending q))"
  by (simp add: selected_def after_cursor_def fun_eq_iff)

lemma reencrypt_columns_quiet:
  assumes "\<forall>c. orderly rank (st c) \<and> length (st c) < batch_size * n" and "ks \<noteq> []" and "distinct cs"
    and "\<forall>c \<in> set cs. re_store x c = st c"
  shows "reencrypt_columns cp ks iv quiet rank n cs x =
    Some \<lparr>re_store = (\<lambda>c. if c \<in> set cs then swept cp ks iv st c else re_store x c),
      re_reencrypted = re_reencrypted x + (\<Sum>c\<leftarrow>cs. count_where (needs_key cp ks) (swept_rows ks c st)),
      re_unreadable = re_unreadable x + (\<Sum>c\<leftarrow>cs. count_where (unreadable cp ks) (swept_rows ks c st))\<rparr>"
  using assms(3,4)
proof (induction cs arbitrary: x)
  case (Cons c cs)
  have same: "re_store x c = st c" using Cons.prems by simp
  have "length (column_rows rank (tl ks = []) c None (st c)) < batch_size * n"
    using assms(1) by (simp add: column_rows_def) (meson le_less_trans length_filter_le)
  with assms(1,2) have "reencrypt_column cp ks iv quiet rank c n None x =
    Some \<lparr>re_store = (re_store x)(c := swept cp ks iv st c),
      re_reencrypted = re_reencrypted x + count_where (needs_key cp ks) (swept_rows ks c st),
      re_unreadable = re_unreadable x + count_where (unreadable cp ks) (swept_rows ks c st)\<rparr>"
    by (subst reencrypt_column_quiet) (simp_all add: same swept_def swept_rows_def count_column_rows selected_all fun_eq_iff)
  with Cons show ?case by (auto simp: fun_eq_iff)
qed simp

lemma columns_complete: "distinct columns \<and> c \<in> set columns"
  by (cases c) (simp_all add: columns_def)

text \<open>
  The paged sweep with its cursors ends, and equals one pass over every table that replaces each legacy or outdated
  value by the same secret under the current key; the report counts what was replaced and what no key opens.
\<close>

theorem sweep_is_one_pass:
  assumes "\<forall>c. orderly rank (st c) \<and> length (st c) < batch_size * n" and "ks \<noteq> []"
  shows "reencrypt_stored_secrets cp ks iv (\<lambda>_ s. s) rank n st = Some \<lparr>re_store = swept cp ks iv st,
      re_reencrypted = (\<Sum>c\<leftarrow>columns. count_where (needs_key cp ks) (swept_rows ks c st)),
      re_unreadable = (\<Sum>c\<leftarrow>columns. count_where (unreadable cp ks) (swept_rows ks c st))\<rparr>"
  unfolding reencrypt_stored_secrets_def
  by (subst reencrypt_columns_quiet [OF assms, of columns]) (simp_all add: columns_complete)

section \<open>Rotation\<close>

text \<open>What the cipher promises: a key opens what it sealed.\<close>

definition sound_cipher :: "cipher \<Rightarrow> bool" where
  "sound_cipher cp = (\<forall>k iv p. unseal cp k (seal cp k iv p) = Some p)"

lemma starts_with_append [simp]: "starts_with p (p @ s)"
  by (induction p) auto

lemma encrypted_reads:
  assumes "sound_cipher cp" and "ks \<noteq> []"
  shows "readable_secret cp (hd ks # ls) (encrypt_secret cp ks iv p) = Some p"
proof -
  have "is_sealed (encrypt_secret cp ks iv p)" "sealed_body (encrypt_secret cp ks iv p) = seal cp (hd ks) iv p"
    by (simp_all add: is_sealed_def sealed_body_def encrypt_secret_def)
  with assms show ?thesis by (simp add: readable_secret_def decrypt_secret_def sound_cipher_def)
qed

lemma moved_row_reads:
  assumes "sound_cipher cp" and "ks \<noteq> []" and "truthy (sv_value r)" and "\<not> unreadable cp ks r"
  shows "truthy (sv_value (moved_row cp ks iv r)) \<and> readable_secret cp ks (the (sv_value r)) \<noteq> None \<and>
    readable_secret cp [hd ks] (the (sv_value (moved_row cp ks iv r))) = readable_secret cp ks (the (sv_value r))"
proof -
  obtain s where s: "sv_value r = Some s" "s \<noteq> []" using assms(3) by (auto simp: present_iff)
  obtain p where p: "readable_secret cp ks s = Some p" using assms(4) s by (auto simp: unreadable_def)
  then have dec: "decrypt_secret cp ks a_credential s = Inr p" by (simp add: readable_secret_def split: sum.splits)
  show ?thesis
  proof (cases "is_sealed s \<and> unseal cp (hd ks) (sealed_body s) \<noteq> None")
    case True
    then obtain q where q: "unseal cp (hd ks) (sealed_body s) = Some q" by blast
    with True first_opened_hd [OF assms(2) q] dec have "q = p" by (simp add: decrypt_secret_def)
    moreover have "moved_row cp ks iv r = r" using True s by (simp add: moved_row_def reencrypted_secret_def)
    ultimately show ?thesis using True q s p by (simp add: readable_secret_def decrypt_secret_def)
  next
    case False
    then have "moved_row cp ks iv r = r\<lparr>sv_value := Some (encrypt_secret cp ks (iv (sv_id r)) p)\<rparr>"
      using s dec by (auto simp: moved_row_def reencrypted_secret_def)
    then show ?thesis using encrypted_reads [OF assms(1,2), of "[]"] s p by (simp add: encrypt_secret_def secret_prefix_def)
  qed
qed

lemma no_count: "count_where p t = 0 \<longleftrightarrow> (\<forall>r \<in> set t. \<not> p r)"
  by (auto simp: count_where_def filter_empty_conv)

text \<open>
  C38: When the sweep of a rotation that nothing disturbs reports that the previous keys can be removed, every stored secret reads
  with the current key alone what it read before with all of them, and everything else is as it was. A worker that writes
  an old text back during or after the sweep is outside of it (\<open>late_retry_restores_the_old_secret\<close>).
\<close>

theorem rotation_moves_every_secret:
  assumes "reencrypt_stored_secrets cp ks iv (\<lambda>_ s. s) rank n st = Some x" and "rotation_complete ks x" and "sound_cipher cp"
    and "\<forall>c. orderly rank (st c) \<and> length (st c) < batch_size * n"
  shows "list_all2 (\<lambda>r r'. sv_id r' = sv_id r \<and>
      (if truthy (sv_value r) \<and> (c = ConfigValue \<longrightarrow> sv_secret r)
       then truthy (sv_value r') \<and> readable_secret cp ks (the (sv_value r)) \<noteq> None \<and>
         readable_secret cp [hd ks] (the (sv_value r')) = readable_secret cp ks (the (sv_value r))
       else r' = r)) (st c) (re_store x c)"
proof -
  have rotating: "tl ks \<noteq> []" "ks \<noteq> []" and none: "re_unreadable x = 0" using assms(2) by (auto simp: rotation_complete_def)
  from sweep_is_one_pass [OF assms(4) rotating(2), of cp iv] assms(1) have
    x: "re_store x = swept cp ks iv st" "re_unreadable x = (\<Sum>c\<leftarrow>columns. count_where (unreadable cp ks) (swept_rows ks c st))" by auto
  from none x(2) columns_complete have "count_where (unreadable cp ks) (swept_rows ks c st) = 0" by simp
  then have readable: "\<not> unreadable cp ks r" if "r \<in> set (st c)" "c = ConfigValue \<longrightarrow> sv_secret r" for r
    using that rotating(1) by (simp add: no_count swept_rows_def)
  have idle: "moved_row cp ks i r = r" if "\<not> truthy (sv_value r)" for i r using that by (simp add: moved_row_def)
  show ?thesis
    unfolding x(1) swept_def one_pass_def list_all2_map2
    by (rule list.rel_refl_strong)
      (use moved_row_reads [OF assms(3) rotating(2)] readable rotating(1) idle in \<open>auto simp del: truthy.simps\<close>)
qed

end
