(* ===== verification/MailProofs.thy ===== *)
theory MailProofs
  imports MailOutbox SecretProofs "HOL-Library.Multiset"
begin

text \<open>
  What a sweep delivers and what it leaves in the database: errors carry no link, the markup of a mail is that of its
  template, a finished mail keeps neither its link nor a lock, and a sweep that nothing disturbs sends what is due.
\<close>

section \<open>Errors carry no link\<close>

fun has_url :: "string \<Rightarrow> bool" where
  "has_url [] = False"
| "has_url (c # s) = (url_here (c # s) \<or> has_url s)"

lemma lower_Nil [simp]: "lower [] = []"
  by (simp add: lower_def)

lemma lower_take: "lower (take n s) = take n (lower s)"
  by (simp add: lower_def take_map)

text \<open>A match is decided by its first characters: the scheme, and one more that is no blank.\<close>

lemma url_here_iff:
  "url_here s \<longleftrightarrow> (\<exists>h x t. s = h @ x # t \<and> lower h \<in> {''http://'', ''https://''} \<and> \<not> is_blank x)"
proof
  assume "url_here s"
  then consider "lower (take 8 s) = ''https://''" "drop 8 s \<noteq> []" "\<not> is_blank (hd (drop 8 s))"
    | "take 7 (lower (take 8 s)) = ''http://''" "drop 7 s \<noteq> []" "\<not> is_blank (hd (drop 7 s))"
    unfolding url_here_def Let_def by blast
  then show "\<exists>h x t. s = h @ x # t \<and> lower h \<in> {''http://'', ''https://''} \<and> \<not> is_blank x"
  proof cases
    case 1
    then have "s = take 8 s @ hd (drop 8 s) # tl (drop 8 s)" by simp
    with 1 show ?thesis by blast
  next
    case 2
    then have "s = take 7 s @ hd (drop 7 s) # tl (drop 7 s)" "lower (take 7 s) = ''http://''"
      by (simp_all add: lower_take min_def)
    with 2 show ?thesis by blast
  qed
next
  assume "\<exists>h x t. s = h @ x # t \<and> lower h \<in> {''http://'', ''https://''} \<and> \<not> is_blank x"
  then obtain h x t where s: "s = h @ x # t" "\<not> is_blank x" and "lower h = ''http://'' \<or> lower h = ''https://''" by blast
  then show "url_here s"
  proof (elim disjE)
    assume h: "lower h = ''http://''"
    have "length h = length (lower h)" by simp
    also have "\<dots> = 7" unfolding h by simp
    finally have len: "length h = 7" .
    have "take 7 (lower (take 8 s)) = lower (take 7 s)" by (simp add: lower_take)
    also have "take 7 s = h" using s(1) len by simp
    finally have "take 7 (lower (take 8 s)) = ''http://''" using h by simp
    moreover have "drop 7 s = x # t" using s(1) len by simp
    ultimately show ?thesis using s(2) unfolding url_here_def Let_def by (intro disjI2 conjI) simp_all
  next
    assume h: "lower h = ''https://''"
    have "length h = length (lower h)" by simp
    also have "\<dots> = 8" unfolding h by simp
    finally have len: "length h = 8" .
    have "take 8 s = h" "drop 8 s = x # t" using s(1) len by simp_all
    with h s(2) show ?thesis unfolding url_here_def Let_def by (intro disjI1 conjI) simp_all
  qed
qed

lemma no_bracket_in_scheme: "lower h \<in> {''http://'', ''https://''} \<Longrightarrow> CHR ''['' \<notin> set h \<and> CHR '' '' \<notin> set h \<and> h \<noteq> []"
proof -
  assume h: "lower h \<in> {''http://'', ''https://''}"
  have "lower_char (CHR ''['') = CHR ''[''" "lower_char (CHR '' '') = CHR '' ''" by (simp_all add: lower_char_def)
  then have "CHR ''['' \<in> set h \<Longrightarrow> CHR ''['' \<in> set (lower h)" "CHR '' '' \<in> set h \<Longrightarrow> CHR '' '' \<in> set (lower h)"
    unfolding lower_def by force+
  moreover have "set (lower h) \<inter> {CHR ''['', CHR '' ''} = {}" "lower h \<noteq> []" using h by auto
  ultimately show ?thesis by auto
qed

lemma url_here_first: "url_here (c # s) \<Longrightarrow> lower_char c = CHR ''h''"
proof -
  assume "url_here (c # s)"
  then obtain h x t where "c # s = h @ x # t" "lower h = ''http://'' \<or> lower h = ''https://''" unfolding url_here_iff by blast
  then show ?thesis by (cases h) (auto simp: lower_def)
qed

lemma lower_h_not_blank: "lower_char c = CHR ''h'' \<Longrightarrow> \<not> is_blank c"
proof
  assume "lower_char c = CHR ''h''" "is_blank c"
  then show False unfolding is_blank_def by (elim disjE insertE emptyE) (simp_all add: lower_char_def)
qed

lemma redact_reflects:
  "redact_urls s = h @ x # t \<Longrightarrow> CHR ''['' \<notin> set h \<Longrightarrow> \<not> is_blank x \<Longrightarrow> \<exists>x' t'. s = h @ x' # t' \<and> \<not> is_blank x'"
proof (induction h arbitrary: s)
  case Nil
  then obtain c r where s: "s = c # r" by (cases s) auto
  show ?case
  proof (cases "url_here s")
    case True
    with s have "\<not> is_blank c" using url_here_first lower_h_not_blank by blast
    with s show ?thesis by simp
  next
    case False
    with s Nil show ?thesis by simp
  qed
next
  case (Cons a h)
  then obtain c r where s: "s = c # r" by (cases s) auto
  show ?case
  proof (cases "url_here s")
    case True
    with s Cons.prems(1) have "a = CHR ''[''" by (simp add: redacted_url_def)
    with Cons.prems(2) show ?thesis by simp
  next
    case False
    with s Cons show ?thesis by simp
  qed
qed

lemma redacted_no_url_here: "url_here (redact_urls s) \<Longrightarrow> url_here s"
proof -
  assume "url_here (redact_urls s)"
  then obtain h x t where h: "redact_urls s = h @ x # t" "lower h \<in> {''http://'', ''https://''}" "\<not> is_blank x"
    unfolding url_here_iff by blast
  with redact_reflects [OF h(1)] no_bracket_in_scheme [OF h(2)] show ?thesis unfolding url_here_iff by blast
qed

lemma no_url_first: "lower_char c \<noteq> CHR ''h'' \<Longrightarrow> has_url (c # s) = has_url s"
  using url_here_first by auto

lemma redacted_skip: "has_url (redacted_url @ s) = has_url s"
proof -
  have "has_url (u @ s) = has_url s" if "\<forall>c \<in> set u. lower_char c \<noteq> CHR ''h''" for u
    using that by (induction u) (simp_all add: no_url_first del: has_url.simps(2))
  moreover have "\<forall>c \<in> set redacted_url. lower_char c \<noteq> CHR ''h''" by (simp add: redacted_url_def lower_char_def)
  ultimately show ?thesis by blast
qed

lemma redacted: "\<not> has_url (redact_urls s)"
proof (induction s rule: redact_urls.induct)
  case (2 c s)
  show ?case
  proof (cases "url_here (c # s)")
    case True
    with 2 show ?thesis by (simp add: redacted_skip)
  next
    case False
    then have eq: "redact_urls (c # s) = c # redact_urls s" by simp
    have "\<not> url_here (redact_urls (c # s))" using False redacted_no_url_here by blast
    moreover have "\<not> has_url (redact_urls s)" by (rule 2(2) [OF False])
    ultimately show ?thesis unfolding eq by (simp only: has_url.simps de_Morgan_disj simp_thms)
  qed
qed simp

lemma one_line_reflects:
  "one_line b s = h @ x # t \<Longrightarrow> CHR '' '' \<notin> set h \<Longrightarrow> \<not> is_blank x \<Longrightarrow> \<exists>u t'. s = u @ h @ x # t' \<and> (\<not> b \<longrightarrow> u = [])"
proof (induction b s arbitrary: h rule: one_line.induct)
  case (2 b c s)
  show ?case
  proof (cases "line_break c")
    case broken: True
    show ?thesis
    proof (cases b)
      case True
      with broken 2 obtain u t' where "s = u @ h @ x # t'" by auto
      then have "c # s = (c # u) @ h @ x # t'" by simp
      with True show ?thesis by blast
    next
      case False
      with broken 2 show ?thesis by (cases h) (auto simp: is_blank_def)
    qed
  next
    case False
    show ?thesis
    proof (cases h)
      case Nil
      with False 2(4) have "c = x" by simp
      with Nil show ?thesis by auto
    next
      case (Cons a h')
      with False 2 have "\<exists>u t'. s = u @ h' @ x # t' \<and> (\<not> False \<longrightarrow> u = [])" by auto
      with Cons False 2(4) show ?thesis by auto
    qed
  qed
qed simp

lemma one_line_has_url: "has_url (one_line b s) \<Longrightarrow> has_url s"
proof (induction b s rule: one_line.induct)
  case (2 b c s)
  show ?case
  proof (cases "line_break c")
    case True
    have "lower_char (CHR '' '') \<noteq> CHR ''h''" by (simp add: lower_char_def)
    with True 2 show ?thesis by (auto simp: no_url_first simp del: has_url.simps(2) split: if_splits intro: has_url.simps(2) [THEN iffD2, OF disjI2])
  next
    case False
    with 2(4) consider "url_here (one_line False (c # s))" | "has_url (one_line False s)" by auto
    then show ?thesis
    proof cases
      case 1
      then obtain h x t where h: "one_line False (c # s) = h @ x # t" "lower h \<in> {''http://'', ''https://''}" "\<not> is_blank x"
        unfolding url_here_iff by blast
      with one_line_reflects [OF h(1)] no_bracket_in_scheme [OF h(2)] have "url_here (c # s)" unfolding url_here_iff by auto
      then show ?thesis by simp
    next
      case 2
      with "2.IH"(1) False show ?thesis by simp
    qed
  qed
qed simp

lemma take_has_url: "has_url (take n s) \<Longrightarrow> has_url s"
proof (induction n arbitrary: s)
  case (Suc n)
  then obtain c r where s: "s = c # r" by (cases s) auto
  have "url_here (c # r)" if "url_here (c # take n r)"
  proof -
    from that obtain h x t where h: "c # take n r = h @ x # t" "lower h \<in> {''http://'', ''https://''}" "\<not> is_blank x"
      unfolding url_here_iff by blast
    have "c # r = h @ x # (t @ drop n r)" using h(1) by (metis append_Cons append_assoc append_take_drop_id)
    with h show ?thesis unfolding url_here_iff by blast
  qed
  with Suc s show ?case by auto
qed simp

lemma one_line_chars: "c \<in> set (one_line b s) \<Longrightarrow> \<not> line_break c"
  by (induction b s rule: one_line.induct) (auto simp: line_break_def split: if_splits)

lemma safe_error_clean: "\<not> has_url (safe_error m) \<and> (\<forall>c \<in> set (safe_error m). \<not> line_break c) \<and> length (safe_error m) \<le> 500"
proof (intro conjI ballI)
  show "\<not> has_url (safe_error m)" unfolding safe_error_def using take_has_url one_line_has_url redacted by blast
  show "\<not> line_break c" if "c \<in> set (safe_error m)" for c
    using that unfolding safe_error_def by (rule in_set_takeD [THEN one_line_chars])
  show "length (safe_error m) \<le> 500" unfolding safe_error_def by simp
qed

section \<open>The markup of a mail\<close>

text \<open>What a browser reads back from the five entities.\<close>

function decode_html :: "string \<Rightarrow> string" where
  "decode_html [] = []"
| "decode_html (c # s) =
     (if starts_with ''&amp;'' (c # s) then CHR ''&'' # decode_html (drop 4 s)
      else if starts_with ''&lt;'' (c # s) then CHR ''<'' # decode_html (drop 3 s)
      else if starts_with ''&gt;'' (c # s) then CHR ''>'' # decode_html (drop 3 s)
      else if starts_with ''&quot;'' (c # s) then CHR 0x22 # decode_html (drop 5 s)
      else if starts_with ''&#39;'' (c # s) then CHR 0x27 # decode_html (drop 4 s)
      else c # decode_html s)"
  by pat_completeness auto
termination by (relation "measure length") auto

definition markup :: "char \<Rightarrow> bool" where
  "markup c = (c \<in> {CHR ''<'', CHR ''>'', CHR 0x22, CHR 0x27})"

lemma decode_escaped_char: "decode_html (escape_char c @ s) = c # decode_html s"
  by (simp add: escape_char_def)

lemma decode_escaped: "decode_html (escape_html s) = s"
  unfolding escape_html_def by (induction s) (simp_all add: decode_escaped_char del: decode_html.simps(2))

lemma escaped_char_inert: "filter markup (escape_char c) = []"
  by (simp add: escape_char_def markup_def)

lemma escaped_inert: "filter markup (escape_html s) = []"
  unfolding escape_html_def by (induction s) (simp_all add: escaped_char_inert)

lemma inert_text: "filter markup (mail_html k p) = filter markup (mail_html k' p')"
  unfolding mail_html_def by (simp only: filter_append escaped_inert)

text \<open>
  Whatever name and link a mail holds, its markup is that of the template, and a browser reads back exactly the link;
  an error that is stored names no link, is one line and has at most 500 characters.
\<close>

theorem mails_cannot_be_forged:
  "filter markup (mail_html k p) = filter markup (mail_html k p') \<and>
    (\<exists>a b. mail_html k p = a @ [CHR 0x22] @ escape_html (mp_url p) @ [CHR 0x22] @ b \<and> CHR 0x22 \<notin> set (escape_html (mp_url p))) \<and>
    decode_html (escape_html (mp_url p)) = mp_url p \<and>
    \<not> has_url (safe_error m) \<and> list_all (\<lambda>c. \<not> line_break c) (safe_error m) \<and> length (safe_error m) \<le> 500"
proof -
  have "\<exists>a b. mail_html k p = a @ [CHR 0x22] @ escape_html (mp_url p) @ [CHR 0x22] @ b"
    unfolding mail_html_def by (intro exI [of _ "_ @ _ @ _ @ _ @ _ @ _"] exI) (simp only: append_assoc)
  moreover have "CHR 0x22 \<notin> set (escape_html (mp_url p))"
    using escaped_inert [of "mp_url p"] by (auto simp: filter_empty_conv markup_def)
  ultimately show ?thesis using inert_text decode_escaped safe_error_clean unfolding list_all_iff by blast
qed

section \<open>Rows\<close>

text \<open>Every statement on a row: of the workers, of the sweep of secrets, and of the deletion of an account.\<close>

inductive mail_stmt :: "outbox_row \<Rightarrow> outbox_row \<Rightarrow> bool" where
  claims: "claim_mail me now r = Some r' \<Longrightarrow> mail_stmt r r'"
| sends: "sent_mail me now r = Some r' \<Longrightarrow> mail_stmt r r'"
| gives_up: "unsent_mail me now m e r = Some r' \<Longrightarrow> mail_stmt r r'"
| reseals: "om_payload r \<noteq> [] \<Longrightarrow> mail_stmt r (r\<lparr>om_payload := p, om_updatedAt := t\<rparr>)"
| forgets: "mail_stmt r (r\<lparr>om_userId := None\<rparr>)"

inductive mail_run :: "outbox_row \<Rightarrow> outbox_row \<Rightarrow> bool" where
  mail_start: "mail_run r r"
| mail_more: "mail_run r r' \<Longrightarrow> mail_stmt r' r'' \<Longrightarrow> mail_run r r''"

fun finished :: "mail_status \<Rightarrow> bool" where
  "finished MsSent = True"
| "finished MsFailed = True"
| "finished _ = False"

definition tidy_mail :: "outbox_row \<Rightarrow> bool" where
  "tidy_mail r = ((finished (om_status r) \<longrightarrow> om_payload r = []) \<and> (om_lockOwner r = None \<longleftrightarrow> om_status r \<noteq> MsSending) \<and>
     (om_lockedAt r = None \<longleftrightarrow> om_status r \<noteq> MsSending) \<and> (\<forall>e. om_lastError r = Some e \<longrightarrow> \<not> has_url e \<and> length e \<le> 500))"

lemma mail_stmt_tidy: "mail_stmt r r' \<Longrightarrow> tidy_mail r \<Longrightarrow> tidy_mail r'"
proof (induction rule: mail_stmt.induct)
  case (gives_up me now m e r r')
  then show ?case using safe_error_clean [of e] by (auto simp: tidy_mail_def unsent_mail_def Let_def)
qed (auto simp: tidy_mail_def claim_mail_def claimable_def sent_mail_def held_by_def)

lemma finished_idle: "finished (om_status r) \<Longrightarrow> \<not> claimable now r \<and> \<not> held_by me r"
  by (cases "om_status r") (simp_all add: claimable_def held_by_def)

lemma mail_stmt_finished:
  "mail_stmt r r' \<Longrightarrow> tidy_mail r \<Longrightarrow> finished (om_status r) \<Longrightarrow> r'\<lparr>om_userId := None\<rparr> = r\<lparr>om_userId := None\<rparr>"
proof (induction rule: mail_stmt.induct)
  case (reseals r p t)
  then show ?case by (simp add: tidy_mail_def)
next
  case (forgets r)
  then show ?case by simp
qed (use finished_idle in \<open>simp_all add: claim_mail_def sent_mail_def unsent_mail_def Let_def\<close>)

lemma mail_stmt_attempts: "mail_stmt r r' \<Longrightarrow> om_id r' = om_id r \<and> om_attempts r \<le> om_attempts r'"
  by (induction rule: mail_stmt.induct) (auto simp: claim_mail_def sent_mail_def unsent_mail_def Let_def)

lemma mail_run_tidy: "mail_run r r' \<Longrightarrow> tidy_mail r \<Longrightarrow> tidy_mail r'"
  by (induction rule: mail_run.induct) (auto intro: mail_stmt_tidy)

text \<open>
  From its queueing on, a mail that was sent or given up holds no link, in its payload or its error, and no lock, and
  nothing but the deletion of its account changes it again, whatever workers run.
\<close>

theorem finished_mails_stay_finished:
  assumes "enqueue_auth_mail True cp ks iv stringify i now m rows = (rows', Inr ())" and "mail_run (last rows') r"
    and "finished (om_status r)" and "mail_run r r'"
  shows "om_payload r = [] \<and> om_lockOwner r = None \<and> (\<forall>e. om_lastError r = Some e \<longrightarrow> \<not> has_url e) \<and>
    r'\<lparr>om_userId := None\<rparr> = r\<lparr>om_userId := None\<rparr> \<and> (\<forall>now. \<not> claimable now r')"
proof -
  have "tidy_mail (last rows')" using assms(1) by (auto simp: enqueue_auth_mail_def create_def tidy_mail_def)
  then have tidy: "tidy_mail r" by (rule mail_run_tidy [OF assms(2)])
  have same: "r'\<lparr>om_userId := None\<rparr> = r\<lparr>om_userId := None\<rparr>"
    using assms(4,3) tidy
  proof (induction rule: mail_run.induct)
    case (mail_more r r' r'')
    then have eq: "r'\<lparr>om_userId := None\<rparr> = r\<lparr>om_userId := None\<rparr>" by blast
    from arg_cong [OF eq, of om_status] mail_more.prems(1) have "finished (om_status r')" by simp
    with mail_stmt_finished [OF mail_more.hyps(2) mail_run_tidy [OF mail_more.hyps(1) mail_more.prems(2)]] eq show ?case by simp
  qed simp
  from arg_cong [OF same, of om_status] assms(3) have "finished (om_status r')" by simp
  then have "\<not> claimable t r'" for t by (auto simp: claimable_def)
  moreover have "om_status r \<noteq> MsSending" using assms(3) by auto
  ultimately show ?thesis using tidy same assms(3) by (auto simp: tidy_mail_def)
qed

section \<open>A sweep that nothing disturbs\<close>

definition in_order :: "outbox_row list \<Rightarrow> outbox_row list" where
  "in_order rows = sort_key om_availableAt (sort_key om_createdAt rows)"

definition due :: "instant \<Rightarrow> outbox_row list \<Rightarrow> outbox_row list" where
  "due now rows = filter (claimable now) (in_order rows)"

definition delivered :: "instant \<Rightarrow> outbox_row \<Rightarrow> outbox_row" where
  "delivered t r = r\<lparr>om_status := MsSent, om_attempts := om_attempts r + 1, om_sentAt := Some t, om_payload := [],
     om_lockedAt := None, om_lockOwner := None, om_lastError := None, om_updatedAt := t\<rparr>"

lemma insort_key_map: "(\<And>x. f (g x) = f x) \<Longrightarrow> insort_key f (g x) (map g xs) = map g (insort_key f x xs)"
  by (induction xs) auto

lemma sort_key_map: "(\<And>x. f (g x) = f x) \<Longrightarrow> sort_key f (map g xs) = map g (sort_key f xs)"
  by (induction xs) (simp_all add: insort_key_map)

lemma in_order_map: "(\<And>x. om_availableAt (g x) = om_availableAt x \<and> om_createdAt (g x) = om_createdAt x) \<Longrightarrow>
    in_order (map g rows) = map g (in_order rows)"
  by (simp add: in_order_def sort_key_map)

lemma set_in_order [simp]: "set (in_order rows) = set rows"
  by (simp add: in_order_def)

lemma find_first_filter: "find_first p t = (case filter p t of [] \<Rightarrow> None | r # _ \<Rightarrow> Some r)"
  by (induction t) simp_all

lemma next_mail_due: "next_mail now rows = (case due now rows of [] \<Rightarrow> None | m # _ \<Rightarrow> Some m)"
  by (simp add: next_mail_def due_def in_order_def find_first_filter)

text \<open>A mail the relay accepts: its payload reads and its acknowledgement is stored.\<close>

definition accepted :: "post \<Rightarrow> outbox_row \<Rightarrow> mail_payload \<Rightarrow> bool" where
  "accepted po m p = (read_payload (po_cipher po) (po_keys po) (po_parse po) (om_payload m) = Inr p \<and>
     po_smtp po (outgoing_mail (po_from po) (po_host po) m p) = None)"

lemma claim_and_deliver:
  assumes "keyed om_id rows" and "m \<in> set rows" and "claimable now m" and "accepted po m p" and "po_ack po n = None"
    and "update_row om_id (om_id m) (claim_mail (po_me po) now) rows = (rows1, Some c)"
  shows "deliver po n c (rows1, out) =
    (map (\<lambda>q. if om_id q = om_id m then delivered (po_end po n) m else q) rows, out @ [outgoing_mail (po_from po) (po_host po) m p])"
proof -
  have found: "find_first (\<lambda>q. om_id q = om_id m) rows = Some m" by (rule find_first_key [OF assms(1,2)])
  with assms(3,6) have c: "c = m\<lparr>om_status := MsSending, om_lockedAt := Some now, om_lockOwner := Some (po_me po), om_attempts := om_attempts m + 1, om_updatedAt := now\<rparr>"
      and rows1: "rows1 = rewrite (\<lambda>q. om_id q = om_id m) (\<lambda>_. c) rows"
    by (auto simp: update_row_Some claim_mail_def)
  have found1: "find_first (\<lambda>q. om_id q = om_id m) rows1 = Some c"
    unfolding rows1 using found by (subst find_first_rewrite) (auto simp: c dest: find_first_Some)
  have mail: "outgoing_mail from host c p = outgoing_mail from host m p" for "from" host by (simp add: c outgoing_mail_def)
  have "read_payload (po_cipher po) (po_keys po) (po_parse po) (om_payload c) = Inr p" using assms(4) by (simp add: c accepted_def)
  moreover have "sent_mail (po_me po) (po_end po n) c = Some (delivered (po_end po n) m)"
    by (simp add: sent_mail_def held_by_def c delivered_def)
  moreover have "om_id c = om_id m" by (simp add: c)
  moreover have "rewrite (\<lambda>q. om_id q = om_id m) (\<lambda>_. d) rows1 = map (\<lambda>q. if om_id q = om_id m then d else q) rows" for d
    unfolding rows1 rewrite_def map_map by (rule map_cong [OF refl]) (simp add: c)
  ultimately show ?thesis using assms(4,5) found1
    by (simp add: deliver_def Let_def mail accepted_def update_row_def)
qed

lemma drain_quiet:
  assumes "keyed om_id rows" and "\<And>n t. po_mid po n t = t" and "\<And>n. po_now po n = now" and "\<And>n. po_ack po n = None"
    and "\<forall>m \<in> set (due now rows). accepted po m (pay m)"
  shows "\<exists>rows'. drain po n left (rows, out) = (rows', out @ map (\<lambda>m. outgoing_mail (po_from po) (po_host po) m (pay m)) (take left (due now rows))) \<and>
    list_all2 (\<lambda>r r'. if r \<in> set (take left (due now rows)) then \<exists>t. r' = delivered t r else r' = r) rows rows'"
  using assms(1,5)
proof (induction left arbitrary: rows n out)
  case 0
  show ?case by (simp add: list.rel_refl)
next
  case (Suc left)
  show ?case
  proof (cases "due now rows")
    case Nil
    then show ?thesis by (simp add: claim_next_def assms(3) next_mail_due list.rel_refl)
  next
    case (Cons m ms)
    then have "m \<in> set (due now rows)" by simp
    then have m: "m \<in> set rows" "claimable now m" by (simp_all add: due_def)
    let ?g = "\<lambda>q. if om_id q = om_id m then delivered (po_end po n) m else q"
    let ?rows = "map ?g rows"
    have own: "q = m" if "q \<in> set rows" "om_id q = om_id m" for q using keyed_unique [OF Suc.prems(1) that(1) m(1) that(2)] .
    have found: "find_first (\<lambda>q. om_id q = om_id m) rows = Some m" by (rule find_first_key [OF Suc.prems(1) m(1)])
    obtain rows1 c where claim: "update_row om_id (om_id m) (claim_mail (po_me po) now) rows = (rows1, Some c)"
      using found m(2) by (simp add: update_row_def claim_mail_def when_row_def)
    have done_step: "deliver po n c (rows1, out) = (?rows, out @ [outgoing_mail (po_from po) (po_host po) m (pay m)])"
      by (rule claim_and_deliver [OF Suc.prems(1) m _ assms(4) claim]) (use Suc.prems(2) Cons in simp)
    have keyed: "keyed om_id ?rows"
    proof -
      have "map om_id ?rows = map om_id rows" by (simp add: delivered_def)
      then show ?thesis using Suc.prems(1) unfolding keyed_def by (simp only:)
    qed
    have rest: "due now ?rows = ms"
    proof -
      let ?h = "\<lambda>q. if om_id q = om_id m then delivered (po_end po n) q else q"
      have "?rows = map ?h rows" by (rule map_cong [OF refl]) (use own in auto)
      moreover have "in_order (map ?h rows) = map ?h (in_order rows)" by (rule in_order_map) (simp add: delivered_def)
      ultimately have "due now ?rows = filter (claimable now) (map ?h (in_order rows))" unfolding due_def by (simp only:)
      also have "\<dots> = filter (\<lambda>q. om_id q \<noteq> om_id m) (due now rows)"
      proof -
        have "filter (claimable now) (map ?h u) = filter (\<lambda>q. om_id q \<noteq> om_id m) (filter (claimable now) u)" for u
          by (induction u) (auto simp: delivered_def claimable_def)
        then show ?thesis by (simp add: due_def)
      qed
      also have "\<dots> = ms"
      proof -
        have "distinct (map om_id (in_order rows))"
          using Suc.prems(1) by (simp add: keyed_def in_order_def distinct_map inj_on_def distinct_sort)
        then have "distinct (map om_id (due now rows))" by (simp add: due_def distinct_map_filter)
        then have "om_id m \<notin> om_id ` set ms" by (simp add: Cons)
        then have "\<forall>q \<in> set ms. om_id q \<noteq> om_id m" by (metis imageI)
        then show ?thesis by (simp add: Cons filter_id_conv)
      qed
      finally show ?thesis .
    qed
    have "\<exists>rows'. drain po (n + 1) left (?rows, out @ [outgoing_mail (po_from po) (po_host po) m (pay m)]) =
        (rows', (out @ [outgoing_mail (po_from po) (po_host po) m (pay m)]) @ map (\<lambda>m. outgoing_mail (po_from po) (po_host po) m (pay m)) (take left (due now ?rows))) \<and>
        list_all2 (\<lambda>r r'. if r \<in> set (take left (due now ?rows)) then \<exists>t. r' = delivered t r else r' = r) ?rows rows'"
      by (rule Suc.IH [OF keyed]) (use rest Suc.prems Cons in auto)
    then obtain rows' where rows': "drain po (n + 1) left (?rows, out @ [outgoing_mail (po_from po) (po_host po) m (pay m)]) =
        (rows', (out @ [outgoing_mail (po_from po) (po_host po) m (pay m)]) @ map (\<lambda>m. outgoing_mail (po_from po) (po_host po) m (pay m)) (take left ms))"
      and rel: "list_all2 (\<lambda>r r'. if r \<in> set (take left ms) then \<exists>t. r' = delivered t r else r' = r) ?rows rows'"
      unfolding rest by (elim exE conjE)
    have "list_all2 (\<lambda>r r'. if r \<in> set (m # take left ms) then \<exists>t. r' = delivered t r else r' = r) rows rows'"
      using rel unfolding list_all2_map1
    proof (rule list.rel_mono_strong)
      fix r r' assume r: "r \<in> set rows" and "r' \<in> set rows'"
        and step: "if ?g r \<in> set (take left ms) then \<exists>t. r' = delivered t (?g r) else r' = ?g r"
      show "if r \<in> set (m # take left ms) then \<exists>t. r' = delivered t r else r' = r"
      proof (cases "om_id r = om_id m")
        case True
        then have "r = m" by (rule own [OF r])
        have "\<not> claimable now (delivered (po_end po n) m)" by (simp add: claimable_def delivered_def)
        then have "delivered (po_end po n) m \<notin> set (due now ?rows)" by (simp add: due_def)
        then have "delivered (po_end po n) m \<notin> set (take left ms)" unfolding rest using in_set_takeD by metis
        with step \<open>r = m\<close> have "r' = delivered (po_end po n) r" by simp
        with \<open>r = m\<close> show ?thesis by auto
      next
        case False
        then have g: "?g r = r" and "r \<noteq> m" by auto
        then show ?thesis using step unfolding g by simp
      qed
    qed
    moreover have "drain po n (Suc left) (rows, out) = drain po (n + 1) left (?rows, out @ [outgoing_mail (po_from po) (po_host po) m (pay m)])"
      by (simp add: claim_next_def assms(2,3) next_mail_due Cons claim done_step)
    ultimately show ?thesis using rows' Cons by (intro exI [of _ rows'] conjI) simp_all
  qed
qed

text \<open>
  Due are the waiting mails whose time has come and the claimed ones whose worker let five minutes pass.
\<close>

definition awaits_delivery :: "instant \<Rightarrow> outbox_row \<Rightarrow> bool" where
  "awaits_delivery now r = (case om_status r of
      MsPending \<Rightarrow> om_availableAt r \<le> now
    | MsSending \<Rightarrow> (\<exists>t. om_lockedAt r = Some t \<and> t + 300000 \<le> now)
    | _ \<Rightarrow> False)"

lemma claimable_iff: "claimable now = awaits_delivery now"
  by (auto simp: fun_eq_iff claimable_def awaits_delivery_def lease_timeout_ms_def split: mail_status.split option.split)

text \<open>
  C39: A sweep that nothing disturbs, with a relay that accepts mails, puts the due mails in order, the longest due first, and
  sends the first twenty of them in that order, each exactly once; these rows are marked as sent, without their
  links and unlocked, and every other row stays as it is. So it sends all due mails when they are at most twenty.
\<close>

theorem due_mails_are_sent_in_order:
  assumes "keyed om_id rows" and "\<And>n t. po_mid po n t = t" and "\<And>n. po_now po n = now" and "\<And>n. po_ack po n = None"
    and "\<forall>m \<in> set rows. awaits_delivery now m \<longrightarrow> accepted po m (pay m)"
  shows "\<exists>rows' D. mset D = mset (filter (awaits_delivery now) rows) \<and> sorted (map om_availableAt D) \<and>
    run_sweep True False po (rows, out) = (rows', out @ map (\<lambda>m. outgoing_mail (po_from po) (po_host po) m (pay m)) (take 20 D)) \<and>
    list_all2 (\<lambda>r r'. if r \<in> set (take 20 D) then \<exists>t. r' = delivered t r else r' = r) rows rows'"
proof -
  have due: "mset (due now rows) = mset (filter (awaits_delivery now) rows)" "sorted (map om_availableAt (due now rows))"
    by (simp_all add: due_def in_order_def sorted_filter flip: claimable_iff)
  from due(1) have "set (due now rows) = {r \<in> set rows. awaits_delivery now r}" by (metis set_filter set_mset_mset)
  with assms(5) have acc: "\<forall>m \<in> set (due now rows). accepted po m (pay m)" by simp
  obtain rows' where "drain po 0 20 (rows, out) = (rows', out @ map (\<lambda>m. outgoing_mail (po_from po) (po_host po) m (pay m)) (take 20 (due now rows)))"
      "list_all2 (\<lambda>r r'. if r \<in> set (take 20 (due now rows)) then \<exists>t. r' = delivered t r else r' = r) rows rows'"
    using drain_quiet [OF assms(1-4) acc, of 0 20 out] by (elim exE conjE)
  with due show ?thesis
    unfolding run_sweep_def max_batch_size_def by (intro exI [of _ rows'] exI [of _ "due now rows"] conjI) simp_all
qed

end
