(* ===== verification/MailExamples.thy ===== *)
theory MailExamples
  imports MailProofs
begin

text \<open>
  The properties of \<open>SecretProofs\<close> and \<open>MailProofs\<close> at a small outbox, and a run in which a failing delivery undoes the
  rotation of a key.
\<close>

text \<open>A toy cipher: the sealed text names its key.\<close>

definition demo_cipher :: cipher where
  "demo_cipher = \<lparr>seal = (\<lambda>k iv p. k @ p), unseal = (\<lambda>k raw. if starts_with k raw then Some (drop (length k) raw) else None)\<rparr>"

definition demo_keys :: "string list" where "demo_keys = [''n'', ''o'']"

definition old_secret :: string where "old_secret = ''enc:v1:ohttp://x''"
definition new_secret :: string where "new_secret = ''enc:v1:nhttp://x''"

definition demo_mail :: outbox_row where
  "demo_mail = \<lparr>om_id = ''m'', om_userId = Some ''u'', om_kind = Activation, om_recipient = ''r'', om_payload = old_secret, om_status = MsPending,
     om_attempts = 0, om_availableAt = 0, om_lockedAt = None, om_lockOwner = None, om_sentAt = None, om_lastError = None, om_createdAt = 0, om_updatedAt = 0\<rparr>"

text \<open>The sweep of secrets sees the payloads of the outbox.\<close>

definition outbox_view :: "outbox_row list \<Rightarrow> secret_store" where
  "outbox_view rows = (\<lambda>_. [])(OutboxPayload := map (\<lambda>r. \<lparr>sv_id = om_id r, sv_value = Some (om_payload r), sv_secret = True\<rparr>) rows)"

definition with_payloads :: "secret_store \<Rightarrow> outbox_row list \<Rightarrow> outbox_row list" where
  "with_payloads st rows = map2 (\<lambda>r v. r\<lparr>om_payload := the (sv_value v)\<rparr>) rows (st OutboxPayload)"

lemma demo_sound: "sound_cipher demo_cipher"
  by (simp add: sound_cipher_def demo_cipher_def)

lemma demo_secret_facts:
  "is_sealed old_secret" "sealed_body old_secret = ''ohttp://x''" "is_sealed new_secret" "sealed_body new_secret = ''nhttp://x''"
  "old_secret \<noteq> []" "new_secret \<noteq> []" "secret_prefix @ ''n'' @ ''http://x'' = new_secret"
  by (simp_all add: is_sealed_def sealed_body_def old_secret_def new_secret_def secret_prefix_def)

lemma demo_unseal: "unseal demo_cipher ''n'' ''ohttp://x'' = None" "unseal demo_cipher ''o'' ''ohttp://x'' = Some ''http://x''"
  "unseal demo_cipher ''n'' ''nhttp://x'' = Some ''http://x''"
  by (simp_all add: demo_cipher_def)

lemma demo_reads: "readable_secret demo_cipher demo_keys old_secret = Some ''http://x''" "readable_secret demo_cipher [''n''] old_secret = None"
  by (simp_all add: readable_secret_def decrypt_secret_def demo_secret_facts demo_unseal demo_keys_def)

lemma demo_orderly: "\<forall>c. orderly (\<lambda>_. 0) (outbox_view [demo_mail] c) \<and> length (outbox_view [demo_mail] c) < batch_size * 1"
  by (simp add: orderly_def outbox_view_def demo_mail_def batch_size_def)

lemma demo_sweep: "\<exists>x. reencrypt_stored_secrets demo_cipher demo_keys (\<lambda>_ _. []) (\<lambda>_ s. s) (\<lambda>_. 0) 1 (outbox_view [demo_mail]) = Some x \<and>
    rotation_complete demo_keys x"
proof -
  have "\<not> unreadable demo_cipher demo_keys \<lparr>sv_id = ''m'', sv_value = Some old_secret, sv_secret = True\<rparr>"
    by (simp add: unreadable_def demo_reads)
  then have none: "count_where (unreadable demo_cipher demo_keys) (swept_rows demo_keys c (outbox_view [demo_mail])) = 0" for c
    by (simp add: swept_rows_def outbox_view_def demo_mail_def demo_keys_def)
  have "demo_keys \<noteq> []" "tl demo_keys \<noteq> []" by (simp_all add: demo_keys_def)
  then show ?thesis
    unfolding sweep_is_one_pass [OF demo_orderly \<open>demo_keys \<noteq> []\<close>] by (simp add: rotation_complete_def none)
qed

lemma rotation_moves_every_secret_witness:
  "\<exists>x v. reencrypt_stored_secrets demo_cipher demo_keys (\<lambda>_ _. []) (\<lambda>_ s. s) (\<lambda>_. 0) 1 (outbox_view [demo_mail]) = Some x \<and>
     sv_value v = Some (the (sv_value v)) \<and> re_store x OutboxPayload = [v] \<and>
     readable_secret demo_cipher [''n''] (the (sv_value v)) = Some ''http://x''"
proof -
  obtain x where x: "reencrypt_stored_secrets demo_cipher demo_keys (\<lambda>_ _. []) (\<lambda>_ s. s) (\<lambda>_. 0) 1 (outbox_view [demo_mail]) = Some x"
      "rotation_complete demo_keys x"
    using demo_sweep by (elim exE conjE)
  have row: "outbox_view [demo_mail] OutboxPayload = [\<lparr>sv_id = ''m'', sv_value = Some old_secret, sv_secret = True\<rparr>]"
    by (simp add: outbox_view_def demo_mail_def)
  have key: "[hd demo_keys] = [''n'']" by (simp add: demo_keys_def)
  from rotation_moves_every_secret [OF x demo_sound demo_orderly, of OutboxPayload] obtain v where
    v: "re_store x OutboxPayload = [v]" "truthy (sv_value v)" "readable_secret demo_cipher [''n''] (the (sv_value v)) = Some ''http://x''"
    unfolding row key list_all2_Cons1 by (auto simp: demo_secret_facts demo_reads)
  from v(2) have "sv_value v = Some (the (sv_value v))" by (cases "sv_value v") simp_all
  with x(1) v show ?thesis by (intro exI conjI)
qed

definition demo_input :: mail_row where
  "demo_input = \<lparr>ml_userId = ''u'', ml_kind = Activation, ml_recipient = ''r'', ml_displayName = [], ml_url = ''http://x''\<rparr>"

lemma finished_mails_stay_finished_witness:
  "\<exists>rows r. enqueue_auth_mail True demo_cipher demo_keys [] (\<lambda>_. ''p'') ''m'' 0 demo_input [] = (rows, Inr ()) \<and> mail_run (last rows) r \<and>
     om_status r = MsSent \<and> om_payload r = []"
proof -
  obtain rows where rows: "enqueue_auth_mail True demo_cipher demo_keys [] (\<lambda>_. ''p'') ''m'' 0 demo_input [] = (rows, Inr ())"
      "om_status (last rows) = MsPending" "om_availableAt (last rows) = 0"
    by (simp add: enqueue_auth_mail_def create_def)
  let ?c = "(last rows)\<lparr>om_status := MsSending, om_lockedAt := Some 0, om_lockOwner := Some ''w'', om_attempts := om_attempts (last rows) + 1, om_updatedAt := 0\<rparr>"
  let ?s = "?c\<lparr>om_status := MsSent, om_sentAt := Some 1, om_payload := [], om_lockedAt := None, om_lockOwner := None, om_lastError := None, om_updatedAt := 1\<rparr>"
  have "claim_mail ''w'' 0 (last rows) = Some ?c" using rows by (simp add: claim_mail_def claimable_def)
  then have claimed: "mail_run (last rows) ?c" by (rule mail_more [OF mail_start claims])
  have "sent_mail ''w'' 1 ?c = Some ?s" by (simp add: sent_mail_def held_by_def)
  then have run: "mail_run (last rows) ?s" by (rule mail_more [OF claimed sends])
  have "om_payload ?s = []"
    by (rule finished_mails_stay_finished [OF rows(1) run _ mail_start, THEN conjunct1]) simp
  with rows(1) run show ?thesis by (intro exI [of _ rows] exI [of _ ?s]) simp
qed

definition demo_payload :: mail_payload where
  "demo_payload = \<lparr>mp_displayName = None, mp_url = ''http://x''\<rparr>"

definition demo_post :: post where
  "demo_post = \<lparr>po_me = ''w'', po_from = ''f'', po_host = ''h'', po_cipher = demo_cipher, po_keys = demo_keys,
     po_parse = (\<lambda>s. Inr (JObj [(''url'', JStr s)])), po_now = (\<lambda>_. 5), po_end = (\<lambda>_. 6), po_mid = (\<lambda>_ t. t), po_smtp = (\<lambda>_. None), po_ack = (\<lambda>_. None)\<rparr>"

definition later_mail :: outbox_row where
  "later_mail = demo_mail\<lparr>om_id := ''z'', om_availableAt := 9\<rparr>"

lemma demo_mails [simp]: "om_id demo_mail = ''m''" "om_status demo_mail = MsPending" "om_availableAt demo_mail \<le> 5" "om_status later_mail = MsPending"
  "om_availableAt later_mail = 9" "om_id later_mail = ''z''"
  by (simp_all add: demo_mail_def later_mail_def)

lemma due_mails_are_sent_in_order_witness:
  "\<exists>rows'. run_sweep True False demo_post ([later_mail, demo_mail], []) = (rows', [outgoing_mail ''f'' ''h'' demo_mail demo_payload]) \<and>
     map om_status rows' = [MsPending, MsSent]"
proof -
  have dec: "decrypt_secret demo_cipher demo_keys ''The queued e-mail'' old_secret = Inr ''http://x''"
    by (simp add: decrypt_secret_def demo_secret_facts demo_unseal demo_keys_def)
  have acc: "accepted demo_post demo_mail demo_payload"
    by (simp add: accepted_def demo_post_def demo_mail_def read_payload_def dec demo_payload_def)
  have due: "awaits_delivery 5 demo_mail" "\<not> awaits_delivery 5 later_mail" by (simp_all add: awaits_delivery_def)
  have "\<exists>rows' D. mset D = mset (filter (awaits_delivery 5) [later_mail, demo_mail]) \<and> sorted (map om_availableAt D) \<and>
      run_sweep True False demo_post ([later_mail, demo_mail], []) =
        (rows', [] @ map (\<lambda>m. outgoing_mail (po_from demo_post) (po_host demo_post) m demo_payload) (take 20 D)) \<and>
      list_all2 (\<lambda>r r'. if r \<in> set (take 20 D) then \<exists>t. r' = delivered t r else r' = r) [later_mail, demo_mail] rows'"
    by (rule due_mails_are_sent_in_order) (use acc in \<open>simp_all add: due demo_post_def keyed_def\<close>)
  then obtain rows' D where "mset D = {#demo_mail#}"
      and run: "run_sweep True False demo_post ([later_mail, demo_mail], []) =
        (rows', map (\<lambda>m. outgoing_mail ''f'' ''h'' m demo_payload) (take 20 D))"
      and rel: "list_all2 (\<lambda>r r'. if r \<in> set (take 20 D) then \<exists>t. r' = delivered t r else r' = r) [later_mail, demo_mail] rows'"
  proof (elim exE conjE)
    fix rows' D
    assume "mset D = mset (filter (awaits_delivery 5) [later_mail, demo_mail])"
      and run: "run_sweep True False demo_post ([later_mail, demo_mail], []) =
        (rows', [] @ map (\<lambda>m. outgoing_mail (po_from demo_post) (po_host demo_post) m demo_payload) (take 20 D))"
      and rel: "list_all2 (\<lambda>r r'. if r \<in> set (take 20 D) then \<exists>t. r' = delivered t r else r' = r) [later_mail, demo_mail] rows'"
    then have "mset D = {#demo_mail#}" by (simp add: due)
    moreover have "po_from demo_post = ''f''" "po_host demo_post = ''h''" by (simp_all add: demo_post_def)
    ultimately show thesis using that run rel by simp
  qed
  then have D: "D = [demo_mail]" by simp
  have "om_id later_mail \<noteq> om_id demo_mail" by simp
  then have "later_mail \<noteq> demo_mail" by metis
  with rel have "map om_status rows' = [MsPending, MsSent]" unfolding D by (simp add: list_all2_Cons1) (elim exE conjE, simp add: delivered_def)
  with run D show ?thesis by (intro exI conjI) simp_all
qed

text \<open>
  A worker claims a mail, the sweep of a rotation moves its payload to the new key and reports that the old key can be
  removed, and the worker, whose relay refused the mail, writes back the payload it had read.
\<close>

lemma late_retry_restores_the_old_secret:
  "let m = the (claim_mail ''w'' 0 demo_mail);
       x = the (reencrypt_stored_secrets demo_cipher demo_keys (\<lambda>_ _. []) (\<lambda>_ s. s) (\<lambda>_. 0) 1 (outbox_view [m]));
       rows = with_payloads (re_store x) [m];
       r = the (snd (update_row om_id ''m'' (unsent_mail ''w'' 9 m ''refused'') rows))
   in rotation_complete demo_keys x \<and> map om_payload rows = [new_secret] \<and>
      om_status r = MsPending \<and> om_payload r = old_secret \<and> readable_secret demo_cipher [''n''] (om_payload r) = None"
proof -
  let ?m = "demo_mail\<lparr>om_status := MsSending, om_lockedAt := Some 0, om_lockOwner := Some ''w'', om_attempts := 1, om_updatedAt := 0\<rparr>"
  have m: "claim_mail ''w'' 0 demo_mail = Some ?m" by (simp add: claim_mail_def claimable_def demo_mail_def)
  have view: "outbox_view [?m] = outbox_view [demo_mail]" by (simp add: outbox_view_def)
  obtain x where x: "reencrypt_stored_secrets demo_cipher demo_keys (\<lambda>_ _. []) (\<lambda>_ s. s) (\<lambda>_. 0) 1 (outbox_view [demo_mail]) = Some x"
      "rotation_complete demo_keys x"
    using demo_sweep by (elim exE conjE)
  have ks: "demo_keys \<noteq> []" "tl demo_keys \<noteq> []" "hd demo_keys = ''n''" by (simp_all add: demo_keys_def)
  have "re_store x = swept demo_cipher demo_keys (\<lambda>_ _. []) (outbox_view [demo_mail])"
    using x(1) unfolding sweep_is_one_pass [OF demo_orderly ks(1)] by auto
  moreover have "decrypt_secret demo_cipher demo_keys a_credential old_secret = Inr ''http://x''"
    by (simp add: decrypt_secret_def demo_secret_facts demo_unseal demo_keys_def)
  moreover have "encrypt_secret demo_cipher demo_keys [] ''http://x'' = new_secret"
    unfolding encrypt_secret_def ks(3) using demo_secret_facts(7) by (simp add: demo_cipher_def)
  ultimately have "map sv_value (re_store x OutboxPayload) = [Some new_secret]"
    by (simp add: swept_def one_pass_def outbox_view_def demo_mail_def moved_row_def reencrypted_secret_def demo_secret_facts demo_unseal ks)
  then obtain v where v: "re_store x OutboxPayload = [v]" "sv_value v = Some new_secret" by auto
  have rows: "with_payloads (re_store x) [?m] = [?m\<lparr>om_payload := new_secret\<rparr>]" by (simp add: with_payloads_def v)
  show ?thesis
    unfolding m view x(1) option.sel Let_def rows
    using x(2) by (simp add: update_row_def unsent_mail_def held_by_def when_row_def max_attempts_def demo_mail_def demo_reads Let_def)
qed

end
