(* ===== verification/DataRetention.thy ===== *)
theory DataRetention
  imports MailOutbox Accounts ControlPlaneLease
begin

text \<open>
  The removal of finished history (\<open>common/data-retention.service.ts\<close>): used links, delivered mails, ended Agent jobs and
  old audit events, in bounded batches, by the replica that leads this responsibility.
\<close>

section \<open>The sweep\<close>

definition day_ms :: int where "day_ms = 24 * 60 * 60 * 1000"
definition retention_lease :: string where "retention_lease = ''data-retention''"
definition retention_lease_ttl_ms :: int where "retention_lease_ttl_ms = 5 * 60000"
definition retention_batch_size :: nat where "retention_batch_size = 500"
definition max_batches :: nat where "max_batches = 20"
definition auth_token_days :: int where "auth_token_days = 7"
definition email_outbox_days :: int where "email_outbox_days = 30"
definition agent_job_days :: int where "agent_job_days = 90"

text \<open>An audit event with its id and its time.\<close>

record audit_entry =
  ae_id :: string
  ae_createdAt :: instant
  ae_event :: audit_row

record history =
  hs_links :: "link_row list"
  hs_mails :: "outbox_row list"
  hs_jobs :: "agent_job_row list"
  hs_events :: "audit_entry list"

definition days_before :: "instant \<Rightarrow> int \<Rightarrow> instant" where
  "days_before now days = now - days * day_ms"

definition earlier :: "instant option \<Rightarrow> instant \<Rightarrow> bool" where
  "earlier at t = (case at of None \<Rightarrow> False | Some u \<Rightarrow> u < t)"

definition spent_link :: "instant \<Rightarrow> link_row \<Rightarrow> bool" where
  "spent_link now l = (earlier (li_usedAt l) (days_before now auth_token_days) \<or> li_expiresAt l < days_before now auth_token_days)"

definition old_mail :: "instant \<Rightarrow> outbox_row \<Rightarrow> bool" where
  "old_mail now m = (om_status m \<in> {MsSent, MsFailed} \<and> om_updatedAt m < days_before now email_outbox_days)"

definition old_job :: "instant \<Rightarrow> agent_job_row \<Rightarrow> bool" where
  "old_job now j = (aj_status j \<in> {JbSucceeded, JbFailed, JbCancelled} \<and> earlier (aj_finishedAt j) (days_before now agent_job_days))"

definition old_event :: "instant \<Rightarrow> int \<Rightarrow> audit_entry \<Rightarrow> bool" where
  "old_event now days e = (ae_createdAt e < days_before now days)"

text \<open>The batches of one table: find some rows, remove them by id, stop after a short batch.\<close>

fun drain_table :: "('r \<Rightarrow> string) \<Rightarrow> ('r \<Rightarrow> bool) \<Rightarrow> nat \<Rightarrow> 'r list \<times> nat \<Rightarrow> 'r list \<times> nat" where
  "drain_table k p 0 x = x"
| "drain_table k p (Suc n) (t, removed) =
     (let rows = take retention_batch_size (filter p t); ids = map k rows;
          x = (delete_many (\<lambda>r. k r \<in> set ids) t, removed + count_where (\<lambda>r. k r \<in> set ids) t)
      in if rows = [] then (t, removed) else if length rows < retention_batch_size then x else drain_table k p n x)"

record retention_summary =
  rs_authTokens :: nat
  rs_emailOutbox :: nat
  rs_agentJobs :: nat
  rs_auditEvents :: nat

definition retention_sweep :: "int \<Rightarrow> instant \<Rightarrow> history \<Rightarrow> history \<times> retention_summary" where
  "retention_sweep audit_days now h =
     (case drain_table li_id (spent_link now) max_batches (hs_links h, 0) of (links, a) \<Rightarrow>
      (case drain_table om_id (old_mail now) max_batches (hs_mails h, 0) of (mails, b) \<Rightarrow>
      (case drain_table aj_id (old_job now) max_batches (hs_jobs h, 0) of (jobs, c) \<Rightarrow>
      (case (if audit_days > 0 then drain_table ae_id (old_event now audit_days) max_batches (hs_events h, 0) else (hs_events h, 0)) of
        (events, e) \<Rightarrow> (\<lparr>hs_links = links, hs_mails = mails, hs_jobs = jobs, hs_events = events\<rparr>,
          \<lparr>rs_authTokens = a, rs_emailOutbox = b, rs_agentJobs = c, rs_auditEvents = e\<rparr>)))))"

definition run_as_leader ::
  "string \<Rightarrow> int \<Rightarrow> instant \<Rightarrow> instant \<Rightarrow> lease_row list \<Rightarrow> history \<Rightarrow> lease_row list \<times> history \<times> retention_summary option outcome" where
  "run_as_leader replica audit_days t now leases h = (case acquire replica retention_lease retention_lease_ttl_ms t leases of
      (ls, Inl e) \<Rightarrow> (ls, h, Inl e)
    | (ls, Inr None) \<Rightarrow> (ls, h, Inr None)
    | (ls, Inr (Some _)) \<Rightarrow> (case retention_sweep audit_days now h of (h', s) \<Rightarrow> (ls, h', Inr (Some s))))"

section \<open>What remains\<close>

text \<open>Draining removes the first rows that match, as many as the batches allow, and nothing else.\<close>

definition without_first :: "nat \<Rightarrow> ('r \<Rightarrow> bool) \<Rightarrow> 'r list \<Rightarrow> 'r list" where
  "without_first n p t = filter (\<lambda>r. r \<notin> set (take n (filter p t))) t"

lemma take_filter_ids:
  assumes "keyed k t" and "r \<in> set t"
  shows "k r \<in> k ` set (take n (filter p t)) \<longleftrightarrow> r \<in> set (take n (filter p t))"
proof
  assume "k r \<in> k ` set (take n (filter p t))"
  then obtain q where q: "q \<in> set (take n (filter p t))" "k r = k q" by blast
  from q(1) have "q \<in> set t" using in_set_takeD by fastforce
  with q keyed_unique [OF assms(1,2)] show "r \<in> set (take n (filter p t))" by blast
qed simp

lemma delete_first:
  "keyed k t \<Longrightarrow> delete_many (\<lambda>r. k r \<in> k ` set (take n (filter p t))) t = without_first n p t"
  unfolding delete_many_def without_first_def by (rule filter_cong [OF refl]) (simp add: take_filter_ids)

lemma count_first: "keyed k t \<Longrightarrow> count_where (\<lambda>r. k r \<in> k ` set (take n (filter p t))) t = min n (length (filter p t))"
proof -
  assume key: "keyed k t"
  then have dist: "distinct t" by (simp add: keyed_def distinct_map)
  have "filter (\<lambda>r. k r \<in> k ` set (take n (filter p t))) t = filter (\<lambda>r. r \<in> set (take n (filter p t))) t"
    by (rule filter_cong [OF refl]) (simp add: take_filter_ids [OF key])
  moreover have "length (filter (\<lambda>r. r \<in> set (take n (filter p t))) t) = card (set (filter (\<lambda>r. r \<in> set (take n (filter p t))) t))"
    using distinct_card [OF distinct_filter [OF dist]] by (rule sym)
  moreover have "set (filter (\<lambda>r. r \<in> set (take n (filter p t))) t) = set (take n (filter p t))"
    using in_set_takeD by fastforce
  moreover have "card (set (take n (filter p t))) = min n (length (filter p t))"
    using dist by (simp add: distinct_card min.commute)
  ultimately show ?thesis by (simp add: count_where_def)
qed

lemma filter_without_first:
  assumes "distinct t"
  shows "filter p (without_first n p t) = drop n (filter p t)"
proof -
  have "filter p (without_first n p t) = filter (\<lambda>r. r \<notin> set (take n (filter p t))) (filter p t)"
    unfolding without_first_def by (simp add: filter_filter conj_commute)
  also have "\<dots> = filter (\<lambda>r. r \<notin> set (take n (filter p t))) (take n (filter p t) @ drop n (filter p t))" by simp
  also have "\<dots> = filter (\<lambda>r. r \<notin> set (take n (filter p t))) (drop n (filter p t))" by (simp only: filter_append) simp
  also have "\<dots> = drop n (filter p t)"
  proof -
    have "set (take n (filter p t)) \<inter> set (drop n (filter p t)) = {}"
      using set_take_disj_set_drop_if_distinct [of "filter p t" n n] assms by simp
    then show ?thesis by (auto simp: filter_id_conv)
  qed
  finally show ?thesis .
qed

lemma without_first_twice:
  assumes "distinct t"
  shows "without_first m p (without_first n p t) = without_first (n + m) p t"
proof -
  have "without_first m p (without_first n p t) =
      filter (\<lambda>r. r \<notin> set (take n (filter p t)) \<and> r \<notin> set (take m (drop n (filter p t)))) t"
    unfolding without_first_def [of m] filter_without_first [OF assms] by (simp add: without_first_def filter_filter)
  also have "\<dots> = without_first (n + m) p t"
    unfolding without_first_def by (rule filter_cong [OF refl]) (simp add: take_add)
  finally show ?thesis .
qed

lemma without_all: "length (filter p t) \<le> n \<Longrightarrow> without_first n p t = filter (\<lambda>r. \<not> p r) t"
  unfolding without_first_def by (rule filter_cong) auto

lemma keyed_without_first: "keyed k t \<Longrightarrow> keyed k (without_first n p t)"
  unfolding keyed_def without_first_def by (simp add: distinct_map_filter)

lemma drain_table_removes:
  "keyed k t \<Longrightarrow> drain_table k p n (t, removed) = (without_first (n * retention_batch_size) p t, removed + min (n * retention_batch_size) (length (filter p t)))"
proof (induction n arbitrary: t removed)
  case 0
  then show ?case by (simp add: without_first_def)
next
  case (Suc n)
  let ?b = retention_batch_size and ?rows = "take retention_batch_size (filter p t)"
  have dist: "distinct t" using Suc.prems by (simp add: keyed_def distinct_map)
  have one: "(delete_many (\<lambda>r. k r \<in> set (map k ?rows)) t, removed + count_where (\<lambda>r. k r \<in> set (map k ?rows)) t) =
      (without_first ?b p t, removed + min ?b (length (filter p t)))"
    using delete_first [OF Suc.prems] count_first [OF Suc.prems] by simp
  show ?case
  proof (cases "length (filter p t) < ?b")
    case True
    have "without_first (Suc n * ?b) p t = without_first ?b p t" using True by (simp add: without_all)
    moreover have "without_first ?b p t = t" if "?rows = []" unfolding without_first_def that by simp
    moreover have "filter p t = []" if "?rows = []" using that True by simp
    ultimately show ?thesis using True one by (simp add: Let_def)
  next
    case False
    then have "?rows \<noteq> []" "\<not> length ?rows < ?b" by (auto simp: retention_batch_size_def)
    then have "drain_table k p (Suc n) (t, removed) = drain_table k p n (without_first ?b p t, removed + min ?b (length (filter p t)))"
      using one by (simp add: Let_def)
    also have "\<dots> = (without_first (n * ?b) p (without_first ?b p t),
        removed + min ?b (length (filter p t)) + min (n * ?b) (length (filter p (without_first ?b p t))))"
      by (rule Suc.IH [OF keyed_without_first [OF Suc.prems]])
    also have "\<dots> = (without_first (Suc n * ?b) p t, removed + min (Suc n * ?b) (length (filter p t)))"
      using False by (simp add: without_first_twice [OF dist] filter_without_first [OF dist])
    finally show ?thesis .
  qed
qed

text \<open>
  What a sweep does to one table: the rows that are not old stay, in their order; of the old ones the first ten thousand
  are removed and counted, and the others wait for the next sweep.
\<close>

definition swept :: "('r \<Rightarrow> bool) \<Rightarrow> 'r list \<Rightarrow> 'r list \<Rightarrow> nat \<Rightarrow> bool" where
  "swept old t t' n = (filter (\<lambda>r. \<not> old r) t' = filter (\<lambda>r. \<not> old r) t \<and>
     filter old t' = drop 10000 (filter old t) \<and> n = min 10000 (length (filter old t)))"

lemma keyed_distinct: "keyed k t \<Longrightarrow> distinct t"
  by (simp add: keyed_def distinct_map)

lemma young_without_first: "filter (\<lambda>r. \<not> p r) (without_first n p t) = filter (\<lambda>r. \<not> p r) t"
  unfolding without_first_def filter_filter by (rule filter_cong [OF refl]) (auto dest: in_set_takeD)

lemma drained_swept:
  assumes "keyed k t" and "drain_table k p max_batches (t, 0) = (t', n)"
  shows "swept p t t' n"
  using assms drain_table_removes [OF assms(1), of p max_batches 0]
  by (simp add: swept_def young_without_first filter_without_first [OF keyed_distinct [OF assms(1)]] max_batches_def retention_batch_size_def)

text \<open>
  C40: A sweep removes the old history and nothing else, at most ten thousand rows of a table at once: links that
  were used or expired more than seven days ago, sent and failed mails that did not change for thirty days, jobs that ended
  more than ninety days ago, and, where a number of days is configured, events older than these. Usable links,
  mails on their way and open jobs stay; without a configured number all events stay.
\<close>

theorem retention_removes_only_old_history:
  assumes "retention_sweep audit_days now h = (h', s)" and "keyed li_id (hs_links h)" and "keyed om_id (hs_mails h)"
    and "keyed aj_id (hs_jobs h)" and "keyed ae_id (hs_events h)"
  shows "swept (\<lambda>l. li_expiresAt l + 7 * 86400000 < now \<or> (\<exists>u. li_usedAt l = Some u \<and> u + 7 * 86400000 < now))
      (hs_links h) (hs_links h') (rs_authTokens s) \<and>
    swept (\<lambda>m. om_status m \<noteq> MsPending \<and> om_status m \<noteq> MsSending \<and> om_updatedAt m + 30 * 86400000 < now)
      (hs_mails h) (hs_mails h') (rs_emailOutbox s) \<and>
    swept (\<lambda>j. aj_status j \<notin> {JbBlocked, JbQueued, JbLeased} \<and> (\<exists>u. aj_finishedAt j = Some u \<and> u + 90 * 86400000 < now))
      (hs_jobs h) (hs_jobs h') (rs_agentJobs s) \<and>
    (if audit_days > 0 then swept (\<lambda>e. ae_createdAt e + audit_days * 86400000 < now) (hs_events h) (hs_events h') (rs_auditEvents s)
     else hs_events h' = hs_events h \<and> rs_auditEvents s = 0) \<and>
    (\<forall>l \<in> set (hs_links h). usable_link now (li_kind l) l \<longrightarrow> l \<in> set (hs_links h'))"
proof -
  have link: "spent_link now = (\<lambda>l. li_expiresAt l + 7 * 86400000 < now \<or> (\<exists>u. li_usedAt l = Some u \<and> u + 7 * 86400000 < now))"
    by (auto simp: fun_eq_iff spent_link_def earlier_def days_before_def auth_token_days_def day_ms_def split: option.split)
  have mail: "old_mail now = (\<lambda>m. om_status m \<noteq> MsPending \<and> om_status m \<noteq> MsSending \<and> om_updatedAt m + 30 * 86400000 < now)"
  proof
    fix m
    show "old_mail now m = (om_status m \<noteq> MsPending \<and> om_status m \<noteq> MsSending \<and> om_updatedAt m + 30 * 86400000 < now)"
      by (cases "om_status m") (auto simp: old_mail_def days_before_def email_outbox_days_def day_ms_def)
  qed
  have job: "old_job now = (\<lambda>j. aj_status j \<notin> {JbBlocked, JbQueued, JbLeased} \<and> (\<exists>u. aj_finishedAt j = Some u \<and> u + 90 * 86400000 < now))"
  proof
    fix j
    show "old_job now j = (aj_status j \<notin> {JbBlocked, JbQueued, JbLeased} \<and> (\<exists>u. aj_finishedAt j = Some u \<and> u + 90 * 86400000 < now))"
      by (cases "aj_status j"; cases "aj_finishedAt j") (auto simp: old_job_def earlier_def days_before_def agent_job_days_def day_ms_def)
  qed
  have event: "old_event now audit_days = (\<lambda>e. ae_createdAt e + audit_days * 86400000 < now)"
    by (auto simp: fun_eq_iff old_event_def days_before_def day_ms_def)
  have tables: "drain_table li_id (spent_link now) max_batches (hs_links h, 0) = (hs_links h', rs_authTokens s)"
      "drain_table om_id (old_mail now) max_batches (hs_mails h, 0) = (hs_mails h', rs_emailOutbox s)"
      "drain_table aj_id (old_job now) max_batches (hs_jobs h, 0) = (hs_jobs h', rs_agentJobs s)"
      "(if audit_days > 0 then drain_table ae_id (old_event now audit_days) max_batches (hs_events h, 0) else (hs_events h, 0)) =
        (hs_events h', rs_auditEvents s)"
    using assms(1) by (auto simp: retention_sweep_def split: prod.splits)
  note links = drained_swept [OF assms(2) tables(1)]
  have "l \<in> set (hs_links h')" if "l \<in> set (hs_links h)" "usable_link now (li_kind l) l" for l
  proof -
    have "\<not> spent_link now l" using that(2) by (simp add: usable_link_def spent_link_def earlier_def days_before_def auth_token_days_def day_ms_def)
    then have "l \<in> set (filter (\<lambda>l. \<not> spent_link now l) (hs_links h'))" using links that(1) unfolding swept_def by simp
    then show ?thesis by simp
  qed
  moreover have "if audit_days > 0 then swept (old_event now audit_days) (hs_events h) (hs_events h') (rs_auditEvents s)
      else hs_events h' = hs_events h \<and> rs_auditEvents s = 0"
    using tables(4) drained_swept [OF assms(5), of "old_event now audit_days"] by (auto split: if_splits)
  ultimately show ?thesis
    using links drained_swept [OF assms(3) tables(2)] drained_swept [OF assms(4) tables(3)] unfolding link mail job event by blast
qed

text \<open>A replica that does not lead removes nothing.\<close>

lemma only_the_leader_removes:
  "run_as_leader replica audit_days t now leases h = (ls, h', r) \<Longrightarrow> h' \<noteq> h \<Longrightarrow> \<exists>c. acquire replica retention_lease retention_lease_ttl_ms t leases = (ls, Inr (Some c))"
  by (auto simp: run_as_leader_def split: prod.splits sum.splits option.splits)

text \<open>A used and a fresh link, eight days after the first was used; the mails, the jobs and the events are empty.\<close>

lemma retention_removes_only_old_history_witness:
  "\<exists>h' s. retention_sweep 0 (8 * day_ms) \<lparr>hs_links =
       [\<lparr>li_id = ''a'', li_userId = [], li_kind = Activation, li_tokenHash = [], li_expiresAt = 9 * day_ms, li_usedAt = None\<rparr>,
        \<lparr>li_id = ''b'', li_userId = [], li_kind = Activation, li_tokenHash = [], li_expiresAt = 9 * day_ms, li_usedAt = Some 5\<rparr>],
       hs_mails = [], hs_jobs = [], hs_events = []\<rparr> = (h', s) \<and> map li_id (hs_links h') = [''a''] \<and> rs_authTokens s = 1"
proof -
  let ?a = "\<lparr>li_id = ''a'', li_userId = [], li_kind = Activation, li_tokenHash = [], li_expiresAt = 9 * day_ms, li_usedAt = None\<rparr>"
  let ?b = "\<lparr>li_id = ''b'', li_userId = [], li_kind = Activation, li_tokenHash = [], li_expiresAt = 9 * day_ms, li_usedAt = Some 5\<rparr>"
  let ?h = "\<lparr>hs_links = [?a, ?b], hs_mails = [], hs_jobs = [], hs_events = []\<rparr>"
  let ?old = "\<lambda>l. li_expiresAt l + 7 * 86400000 < 8 * day_ms \<or> (\<exists>u. li_usedAt l = Some u \<and> u + 7 * 86400000 < 8 * day_ms)"
  obtain h' s where run: "retention_sweep 0 (8 * day_ms) ?h = (h', s)" by fastforce
  have "swept ?old (hs_links ?h) (hs_links h') (rs_authTokens s)"
    by (rule retention_removes_only_old_history [OF run, THEN conjunct1]) (simp_all add: keyed_def)
  then have young: "filter (\<lambda>l. \<not> ?old l) (hs_links h') = [?a]" and old: "filter ?old (hs_links h') = []" and n: "rs_authTokens s = 1"
    by (simp_all add: swept_def day_ms_def)
  from old have "hs_links h' = filter (\<lambda>l. \<not> ?old l) (hs_links h')" by (simp add: filter_empty_conv filter_id_conv)
  with young have "hs_links h' = [?a]" by simp
  with run n show ?thesis by simp
qed

end
