(* ===== verification/Spec2Isabelle.thy ===== *)
theory Spec2Isabelle
  imports ControlPlaneLease Pipeline Rollback Approvals Provisioning AgentJobProofs SupervisorServer RateLimits AccountExamples ArtifactExamples MailExamples DataRetention
begin

text \<open>
  InitPad (\<open>src/\<close>) is an internal developer platform. Its API (\<open>apps/api/src\<close>, a NestJS service over
  PostgreSQL through Prisma) keeps workspaces with members, projects with a repository and a CI
  pipeline, environments, deployment targets, and Agents that run workloads on hosts of the users.
  Every state the parts share is a row of the database, several API replicas run at once, and a process
  may die between any two statements. The development models the services that keep those rows
  consistent, and the Supervisor that replaces the platform itself.

  \<^bold>\<open>How the code is modelled.\<close> A table is the list of its rows (\<open>Prelude\<close>), one record per Prisma model
  (\<open>Schema\<close>), and \<open>db\<close> is the database. A handler is a function from its arguments and the database to
  the database it leaves and an \<open>outcome\<close>, the error it throws or its result; a transaction that throws
  gives back the database it started from. A guarded \<open>updateMany\<close> is a partial function on a row, so the
  statements that compete for a row form a step relation whose runs are the possible interleavings. What
  other requests commit between two statements of one handler is a parameter (\<open>mid\<close>, \<open>pf_mid\<close>, \<open>busy\<close>), over
  which the theorems quantify; a statement the database or the file system refuses is another (\<open>fails\<close>, \<open>refused\<close>).
  Sequences of calls are inductive relations over the modelled calls (\<open>op_calls\<close>, \<open>request_calls\<close>, \<open>fx_calls\<close>,
  \<open>audit_run\<close>, \<open>evolves\<close>). A handler reads the clock once. Strings are lists of characters: a slice
  counts characters where JavaScript counts UTF-16 units.

  \<^bold>\<open>The theories.\<close>
  \<^item> \<open>Prelude\<close>: instants, errors, JSON, tables and their lemmas, strings. \<open>Lease\<close>: the interface of a
    generation-fenced lease, a locale that deployment operations, provisioning operations, Agent jobs and
    artifact ingestions interpret with their own statements.
  \<^item> \<open>ControlPlaneLease\<close> (\<open>common/control-plane-lease.service.ts\<close>): the elected leader of a background
    responsibility.
  \<^item> \<open>Domain\<close> (\<open>domain/\<close>), \<open>Pipeline\<close> (\<open>projects/pipeline-preset.ts\<close>, \<open>project-pipeline.ts\<close>): the
    vocabulary, the expiry of environments, the shown pipeline. \<open>Schema\<close> (\<open>prisma/schema.prisma\<close>): the tables.
  \<^item> \<open>AuditLog\<close> (\<open>audit/\<close>), \<open>Capacity\<close> and \<open>Workspaces\<close> (\<open>workspaces/\<close>): events, quotas under serializable
    transactions, members and the roles mirrored to repositories. Retention and the deletion of a workspace remove
    events, so \<open>audit_run\<close> has these removals as steps.
  \<^item> \<open>DeployOps\<close> (\<open>projects/project-deployment-operations.ts\<close>): the operation lock of environments, worker
    leases, completion with its statements one by one, each of which may be refused, recovery of operations whose
    worker died. \<open>op_calls P\<close> interleaves the calls with the begins of the operations in \<open>P\<close>, whose last statements
    look at no status.
  \<^item> \<open>Rollback\<close>, \<open>Approvals\<close> (\<open>projects/project-rollback.ts\<close>, \<open>project-production-approvals.ts\<close>): what may
    be published again, and the review of what goes to production. Both schedule through a parameter. \<open>request_calls A\<close> are the calls on
    requests and the statements between them; \<open>A\<close> holds the requests whose approval is still publishing.
  \<^item> \<open>Provisioning\<close> (\<open>projects/provisioning.service.ts\<close>): the journal of external effects with retry,
    cleanup and reconciliation. \<open>fx_calls\<close> carries the set of effects that were allowed to begin and not compensated.
  \<^item> \<open>Targets\<close> (\<open>targets/targets.service.ts\<close>), \<open>Agents\<close> (\<open>agents/agents.service.ts\<close>): who manages a target, what
    ends when it is disconnected, enrollment and the rotation of credentials.
  \<^item> \<open>GatewayHosts\<close>, \<open>GatewayRoutes\<close> (\<open>targets/managed-gateway.ts\<close>, \<open>gateway-routes.service.ts\<close>): hostnames and
    the intents of routes, fenced by a generation.
  \<^item> \<open>AgentLeases\<close>, \<open>AgentJobs\<close>, \<open>AgentJobProofs\<close> (\<open>agents/agent-job-leases.ts\<close>, \<open>agent-jobs.service.ts\<close>): the
    jobs of Agents, from the claim through delivery and progress to the end of the operation they carry.
    A completion is projected by \<open>reconcile_terminal\<close>, which calls \<open>GatewayRoutes\<close>, ends the operation of
    \<open>DeployOps\<close> and records it in \<open>AuditLog\<close>.
  \<^item> \<open>NetworkPolicy\<close> (\<open>common/outbound-network-policy.ts\<close>, \<open>auth/shared-networks.ts\<close>): which addresses a hosted
    installation may probe, on words of 32 and 128 bits. \<open>RateLimits\<close> (\<open>auth/rate-limit.*.ts\<close>): the buckets
    replicas share, which refine counting the attempts of a window.
  \<^item> \<open>Sessions\<close> (\<open>auth/sessions.service.ts\<close>, \<open>jwt-auth.guard.ts\<close>, \<open>common/csrf-protection.ts\<close>), \<open>Accounts\<close>
    (\<open>auth/auth.service.ts\<close>, \<open>admin/admin.service.ts\<close>): sessions, registration, passwords, links and administration
    over the tables of \<open>accounts_db\<close> and the state of Gitea. \<open>AccountProofs\<close> shows the guarantee every operation
    keeps (\<open>advances\<close>) and what it entails for all sequences of requests (\<open>evolves\<close>); \<open>AccountExamples\<close>
    applies it.
  \<^item> \<open>Artifacts\<close> (\<open>artifacts/\<close>, \<open>projects/project-artifact-execution-lease.ts\<close>, \<open>project-artifact-ingestion.ts\<close>,
    \<open>project-artifact-lifecycle.ts\<close>): storage keys, the identity of archives, their ingestion under a lease, and
    retention. A run of an ingestion holds the answers of the provider, the bucket and the daemon, and what others
    commit before each step. \<open>ArtifactProofs\<close> shows what an ingestion leaves with triples over its steps;
    \<open>ArtifactExamples\<close> applies it.
  \<^item> \<open>Secrets\<close>, \<open>SecretProofs\<close> (\<open>common/secret.ts\<close>, \<open>secret-reencryption.service.ts\<close>): encryption at rest and the
    sweep of a key rotation, which is shown to be one pass over every table (\<open>sweep_is_one_pass\<close>). \<open>MailOutbox\<close>,
    \<open>MailProofs\<close> (\<open>mail/mail-delivery.service.ts\<close>): the outbox, its workers and the contents of a mail. \<open>MailExamples\<close>
    applies both. \<open>DataRetention\<close> (\<open>common/data-retention.service.ts\<close>): the removal of finished history, by the replica
    that \<open>ControlPlaneLease\<close> elects.
  \<^item> \<open>Crash\<close>: programs that may lose power after any effect, with triples for what holds at the end and at every
    point where they may be cut off. \<open>SupervisorRelease\<close>, \<open>Supervisor\<close>, \<open>SupervisorServer\<close>
    (\<open>apps/supervisor/src/release.ts\<close>, \<open>auth.ts\<close>, \<open>state.ts\<close>, \<open>updater.ts\<close>, \<open>server.ts\<close>): signed releases and
    requests, the update of the platform by a one-shot helper, the recovery of a helper that died, and the
    requests of the API. \<open>machine\<close> is the state directory, the running services and the variables of the helper;
    Docker is a parameter. Writing a file happens as a whole; of the writes of the rollback of
    \<open>apply_update\<close> the file system may refuse any (\<open>rollback_write\<close>), and \<open>apply_plan\<close> is the case where it refuses none. \<open>SupervisorProofs\<close> holds the triples of the steps, \<open>PlatformUpdates\<close> what follows of them.
  \<^bold>\<open>What is shown.\<close> Exclusion: leases have one holder, a superseded worker, Agent or route job changes
  nothing. Finality: ended operations, decided requests, ended jobs and audit events never change, with the
  exceptions the properties name.
  Authorization: nothing reaches production without an authorised review of exactly what is published,
  a foreign project looks unknown, an ended session or used link never returns, and only a signed request for a signed, newer release replaces the platform. Error paths: a handler that throws leaves what it promises to
  leave, and an update of the platform happens as a whole or is rolled back as far as the file system lets it, also when power fails. Recovery: sweeps close exactly what is orphaned, and a repeated request is answered from what is
  stored. Lemmas named \<open>late_verify_undoes_retirement\<close>, \<open>late_fail_breaks_cleanup_claim\<close>,
  \<open>lost_approval_update_reopens_request\<close>, \<open>disabling_leaves_pending_enrollment\<close>,
  \<open>restored_supervisor_misses_its_descriptor\<close>, \<open>lock_outlives_a_finished_update\<close>,
  \<open>administrators_deactivate_each_other\<close>, \<open>two_processes_make_two_administrators\<close>,
  \<open>late_cleanup_removes_a_published_archive\<close>, \<open>interrupted_completion_strands_the_environment\<close> and
  \<open>late_retry_restores_the_old_secret\<close> show where the code falls short of that; they are the findings of
  the manifest.

  \<^bold>\<open>Bounds and fuel.\<close> \<open>claim_attempts\<close> is 3 and the retries of a serializable transaction are 3, the constants
  of the code. \<open>reconcile_depth\<close> is 3: the recursion follows a workflow to its second job and the route it
  queued, and \<open>reconcile_depth_suffices\<close> shows that a greater depth changes nothing.
  A sweep of secrets has fuel for the batches of a column: \<open>sweep_is_one_pass\<close> shows that it ends when a hundred rows
  times the fuel exceed every table.
  \<open>ready_attempts\<close> is 40, the polls of a service before it counts as not started. The crash points of an update
  are counted by \<open>pw_left\<close>: every theorem on power loss holds for every value of it.

  \<^bold>\<open>Parameters.\<close> Digests, password hashing, signing of tokens, encryption, the URL parser, fresh ids and tokens, the artifact store, the repository
  provider, the deployment scheduler, the audit writer, Docker Compose and Sigstore are arguments. Where a theorem needs something of
  them (a digest without collisions, a total collation, ids not used before) it is a hypothesis, and the
  witness of the theorem instantiates it.

  \<^bold>\<open>Not modelled.\<close> The HTTP clients of Gitea, GitHub, S3, Docker, SSH and SMTP, the flows with external identity providers (OAuth), whose
  behaviour is that of services outside the sources; the controllers and the configuration, which only
  decode; \<open>projects.service.ts\<close>, the orchestration of the modelled services with those clients; the web
  interface. Of \<open>Targets\<close> the editing of settings and the inspection of host keys, and of \<open>AuditLog\<close> the
  paged listing are left out.
\<close>

section \<open>Properties that span components\<close>

text \<open>C11: at no time do two replicas lead the same background responsibility.\<close>

theorem leader_unique:
  assumes "elected s" and "el_now s \<le> t" and "leads s a name t" and "leads s b name t"
  shows "a = b"
  using leads_unique assms by blast

theorem leader_unique_witness:
  "let s = call_acquire ''i1'' ''retention'' 15000 5 election_start in
   elected s \<and> leads s ''i1'' ''retention'' 10 \<and> ''i1'' = ''i1''"
proof -
  let ?s = "call_acquire ''i1'' ''retention'' 15000 5 election_start"
  have e: "elected ?s" by (intro elected.intros) (simp add: election_start_def)
  have l: "leads ?s ''i1'' ''retention'' 10" by code_simp
  have n: "el_now ?s \<le> 10" by code_simp
  from leader_unique [OF e n l l] e l show ?thesis by simp
qed

end
